(* ===== verification/LMON_Prelude.thy ===== *)
theory LMON_Prelude
  imports Main "HOL-Library.Word" "HOL-Library.Char_ord"
begin

text \<open>
  Shared vocabulary of the development: the machine integers of the sources
  (all configurations modelled are the 64-bit little-endian Linux one), C strings and
  the little-endian byte images that \<open>memcpy\<close> and \<open>lmon_write_raw\<close> see, the
  \<open>std::string\<close> operations the sources call, and the state-and-exception effects of
  the engine's methods, whose exceptions keep the state reached at the throw.
  The collection \<open>byte_simps\<close> holds the length and round-trip facts of the encodings.
\<close>

named_theorems byte_simps "lengths and round trips of byte encodings"
named_theorems act_simps "unfolding of the state-and-exception combinators"

type_synonym byte = "8 word"
type_synonym u16 = "16 word"
type_synonym u32 = "32 word"
type_synonym u64 = "64 word"

lemma unat_byte_bounds:
  "unat (a :: byte) < 256" "unat (b :: u16) < 65536" "unat (c :: u32) < 4294967296"
  "unat (d :: u64) < 18446744073709551616"
proof -
  have "unat a < 2 ^ LENGTH(8)" by (rule unsigned_less)
  then show "unat a < 256" by simp
  have "unat b < 2 ^ LENGTH(16)" by (rule unsigned_less)
  then show "unat b < 65536" by simp
  have "unat c < 2 ^ LENGTH(32)" by (rule unsigned_less)
  then show "unat c < 4294967296" by simp
  have "unat d < 2 ^ LENGTH(64)" by (rule unsigned_less)
  then show "unat d < 18446744073709551616" by simp
qed

lemma sint_of_nat32: "n < 2 ^ 31 \<Longrightarrow> sint (of_nat n :: u32) = int n"
  by (simp add: signed_of_nat signed_take_bit_int_eq_self)

section \<open>Little-endian images of unsigned integers\<close>

fun nat_le :: "nat \<Rightarrow> nat \<Rightarrow> byte list" where
  "nat_le 0 k = []"
| "nat_le (Suc n) k = of_nat k # nat_le n (k div 256)"

fun le_nat :: "byte list \<Rightarrow> nat" where
  "le_nat [] = 0"
| "le_nat (b # bs) = unat b + 256 * le_nat bs"

lemma length_nat_le [simp, byte_simps]: "length (nat_le n k) = n"
  by (induction n arbitrary: k) auto

lemma le_nat_nat_le [byte_simps]: "le_nat (nat_le n k) = k mod 256 ^ n"
proof (induction n arbitrary: k)
  case 0
  then show ?case by simp
next
  case (Suc n)
  have "le_nat (nat_le (Suc n) k) = k mod 256 + 256 * (k div 256 mod 256 ^ n)"
    by (simp add: Suc.IH unat_of_nat)
  also have "\<dots> = k mod 256 ^ Suc n"
    by (simp add: mod_mult2_eq)
  finally show ?case .
qed

lemma le_nat_less: "le_nat bs < 256 ^ length bs"
proof (induction bs)
  case Nil
  then show ?case by simp
next
  case (Cons b bs)
  have "unat b < 256" by (rule unat_byte_bounds)
  with Cons show ?case by simp
qed

lemma nat_le_le_nat: "nat_le (length bs) (le_nat bs) = bs"
proof (induction bs)
  case Nil
  then show ?case by simp
next
  case (Cons b bs)
  have b: "unat b < 256" by (rule unat_byte_bounds)
  have "(word_of_nat (256 * le_nat bs) :: byte) = 0"
    by (simp only: word_of_nat_eq_0_iff) simp
  then have "(word_of_nat (unat b + 256 * le_nat bs) :: byte) = b"
    by (simp only: of_nat_add) simp
  with Cons b show ?case by simp
qed

definition enc16 :: "u16 \<Rightarrow> byte list" where "enc16 w = nat_le 2 (unat w)"
definition dec16 :: "byte list \<Rightarrow> u16" where "dec16 bs = of_nat (le_nat bs)"
definition enc32 :: "u32 \<Rightarrow> byte list" where "enc32 w = nat_le 4 (unat w)"
definition dec32 :: "byte list \<Rightarrow> u32" where "dec32 bs = of_nat (le_nat bs)"
definition enc64 :: "u64 \<Rightarrow> byte list" where "enc64 w = nat_le 8 (unat w)"
definition dec64 :: "byte list \<Rightarrow> u64" where "dec64 bs = of_nat (le_nat bs)"

lemma length_enc [simp, byte_simps]:
  "length (enc16 a) = 2" "length (enc32 b) = 4" "length (enc64 c) = 8"
  by (simp_all add: enc16_def enc32_def enc64_def)

lemma dec_enc [simp, byte_simps]:
  "dec16 (enc16 a) = a" "dec32 (enc32 b) = b" "dec64 (enc64 c) = c"
proof -
  have "unat a mod 256 ^ 2 = unat a" "unat b mod 256 ^ 4 = unat b" "unat c mod 256 ^ 8 = unat c"
    using unat_byte_bounds(2) [of a] unat_byte_bounds(3) [of b] unat_byte_bounds(4) [of c]
    by simp_all
  then show "dec16 (enc16 a) = a" "dec32 (enc32 b) = b" "dec64 (enc64 c) = c"
    by (simp_all add: dec16_def enc16_def dec32_def enc32_def dec64_def enc64_def le_nat_nat_le)
qed

lemma enc64_dec64: "length bs = 8 \<Longrightarrow> enc64 (dec64 bs) = bs"
proof -
  assume l: "length bs = 8"
  then have "le_nat bs < 2 ^ 64" using le_nat_less [of bs] by simp
  then have "unat (dec64 bs) = le_nat bs"
    by (simp add: dec64_def unat_of_nat)
  then show ?thesis using nat_le_le_nat [of bs] l by (simp add: enc64_def)
qed

lemma enc32_dec32: "length bs = 4 \<Longrightarrow> enc32 (dec32 bs) = bs"
  using le_nat_less [of bs] nat_le_le_nat [of bs] by (simp add: enc32_def dec32_def unat_of_nat)

text \<open>A 4-byte unsigned integer at a byte offset of a buffer; \<open>None\<close> past its end.\<close>

definition u32_at :: "byte list \<Rightarrow> nat \<Rightarrow> u32 option" where
  "u32_at buf off = (if off + 4 \<le> length buf then Some (dec32 (take 4 (drop off buf))) else None)"

lemma u32_at_append [byte_simps]:
  "u32_at (pre @ enc32 w @ post) (length pre) = Some w"
  by (simp add: u32_at_def)

section \<open>C strings\<close>

text \<open>
  A C string is a \<open>string\<close> without the NUL character; its image in memory ends with
  a NUL byte. Reading one at an offset stops at the first NUL; running off the buffer
  before a NUL is the \<open>None\<close> of an out-of-bounds read.
\<close>

definition char_byte :: "char \<Rightarrow> byte" where "char_byte c = of_nat (of_char c)"
definition byte_char :: "byte \<Rightarrow> char" where "byte_char b = char_of (unat b)"

lemma unat_char_byte: "unat (char_byte c) = (of_char c :: nat)"
proof -
  have "(of_char c :: nat) < 256" by simp
  then show ?thesis by (simp add: char_byte_def unat_of_nat)
qed

lemma byte_char_byte [simp, byte_simps]: "byte_char (char_byte c) = c"
  by (simp add: byte_char_def unat_char_byte)

definition nul_free :: "string \<Rightarrow> bool" where
  "nul_free s \<longleftrightarrow> (\<forall>c \<in> set s. of_char c \<noteq> (0::nat))"

lemma char_byte_eq_0: "char_byte c = 0 \<longleftrightarrow> of_char c = (0::nat)"
  by (metis unat_char_byte unat_eq_zero)

definition cstr :: "string \<Rightarrow> byte list" where "cstr s = map char_byte s @ [0]"

lemma length_cstr [simp, byte_simps]: "length (cstr s) = length s + 1"
  by (simp add: cstr_def)

definition read_cstr :: "byte list \<Rightarrow> nat \<Rightarrow> string option" where
  "read_cstr buf off =
     (if 0 \<in> set (drop off buf) then Some (map byte_char (takeWhile (\<lambda>b. b \<noteq> 0) (drop off buf)))
      else None)"

lemma read_cstr_cstr [byte_simps]:
  assumes "nul_free s"
  shows "read_cstr (pre @ cstr s @ post) (length pre) = Some s"
proof -
  have "\<forall>b \<in> set (map char_byte s). b \<noteq> 0"
    using assms by (auto simp: nul_free_def char_byte_eq_0)
  then have "takeWhile (\<lambda>b. b \<noteq> 0) (map char_byte s @ 0 # post) = map char_byte s"
    by (subst takeWhile_append2) auto
  then show ?thesis by (simp add: read_cstr_def cstr_def comp_def)
qed

section \<open>Printing\<close>

text \<open>\<open>cout << unsigned\<close> and \<open>snprintf("%d")\<close>, in decimal.\<close>

fun show_nat :: "nat \<Rightarrow> string" where
  "show_nat n = (if n < 10 then [char_of (48 + n)] else show_nat (n div 10) @ [char_of (48 + n mod 10)])"

declare show_nat.simps [simp del]

definition show_int :: "int \<Rightarrow> string" where
  "show_int i = (if i < 0 then CHR ''-'' # show_nat (nat (- i)) else show_nat (nat i))"

section \<open>Operations of std::string\<close>

text \<open>
  \<open>npos\<close> is \<open>None\<close>. \<open>find_first_of cs s pos\<close> is the least index at or after
  \<open>pos\<close> holding a character of \<open>cs\<close>. \<open>substr\<close> throws \<open>out_of_range\<close> when
  the position is past the end, here \<open>None\<close>; its length is cut at the end.
\<close>

fun find_char :: "(char \<Rightarrow> bool) \<Rightarrow> string \<Rightarrow> nat \<Rightarrow> nat option" where
  "find_char p [] i = None"
| "find_char p (c # cs) i = (if p c then Some i else find_char p cs (Suc i))"

definition find_first_of :: "string \<Rightarrow> string \<Rightarrow> nat \<Rightarrow> nat option" where
  "find_first_of cs s pos = find_char (\<lambda>c. c \<in> set cs) (drop pos s) pos"

definition substr :: "string \<Rightarrow> nat \<Rightarrow> nat option \<Rightarrow> string option" where
  "substr s pos n =
     (if length s < pos then None
      else Some (case n of None \<Rightarrow> drop pos s | Some k \<Rightarrow> take k (drop pos s)))"

lemma find_char_None: "find_char p s i = None \<longleftrightarrow> (\<forall>c \<in> set s. \<not> p c)"
  by (induction s arbitrary: i) auto

lemma find_char_append:
  "\<forall>c \<in> set xs. \<not> p c \<Longrightarrow> p y \<Longrightarrow> find_char p (xs @ y # ys) i = Some (i + length xs)"
  by (induction xs arbitrary: i) auto

lemma find_first_of_append:
  assumes "\<forall>c \<in> set xs. c \<notin> set cs" and "y \<in> set cs"
  shows "find_first_of cs (pre @ xs @ y # ys) (length pre) = Some (length pre + length xs)"
  using assms by (simp add: find_first_of_def find_char_append)

lemma find_first_of_None: "find_first_of cs s pos = None \<longleftrightarrow> (\<forall>c \<in> set (drop pos s). c \<notin> set cs)"
  by (simp add: find_first_of_def find_char_None)

lemma find_char_ge: "find_char p s i = Some j \<Longrightarrow> i \<le> j \<and> j < i + length s"
  by (induction s arbitrary: i) (fastforce split: if_splits)+

lemma find_first_of_ge:
  "find_first_of cs s pos = Some j \<Longrightarrow> pos \<le> j \<and> j < length s"
  unfolding find_first_of_def by (drule find_char_ge) auto

section \<open>Effects of the engine's methods\<close>

text \<open>
  A method that may throw is a function from the state to a result or an exception, and
  the state. What was written before a throw stays written, as in C++.
\<close>

datatype tracer_error_e =
    SDBG_TRACE_OK | SDBG_TRACE_EIO_ERR | SDBG_TRACE_EACCESS_ERR | SDBG_TRACE_ESRCH_ERR
  | SDBG_TRACE_EINVAL_ERR | SDBG_TRACE_EPERM_ERR | SDBG_TRACE_EFAULT_ERR | SDBG_TRACE_EBUSY_ERR
  | SDBG_TRACE_STATE_UNKNOWN | SDBG_TRACE_UNIMPLEMENTED | SDBG_TRACE_STOPPED
  | SDBG_TRACE_RUNNING | SDBG_TRACE_FAILED

datatype exn = Symtab_exn | Tracer_exn tracer_error_e | Machine_exn | Undefined_behaviour
  | Aborted | No_return

text \<open>The three classes the handlers catch. \<open>Aborted\<close> is \<open>abort()\<close> or a failed assertion,
  \<open>No_return\<close> a system call the kernel model has no further answer for.\<close>

fun catchable :: "exn \<Rightarrow> bool" where
  "catchable Symtab_exn = True"
| "catchable (Tracer_exn e) = True"
| "catchable Machine_exn = True"
| "catchable Undefined_behaviour = False"
| "catchable Aborted = False"
| "catchable No_return = False"

type_synonym ('s, 'a) act = "'s \<Rightarrow> (exn + 'a) \<times> 's"

definition ret :: "'a \<Rightarrow> ('s, 'a) act" where "ret x s = (Inr x, s)"
definition throw :: "exn \<Rightarrow> ('s, 'a) act" where "throw e s = (Inl e, s)"
definition bindA :: "('s, 'a) act \<Rightarrow> ('a \<Rightarrow> ('s, 'b) act) \<Rightarrow> ('s, 'b) act" where
  "bindA m f s = (case m s of (Inl e, t) \<Rightarrow> (Inl e, t) | (Inr x, t) \<Rightarrow> f x t)"
definition modA :: "('s \<Rightarrow> 's) \<Rightarrow> ('s, unit) act" where "modA g s = (Inr (), g s)"
definition getA :: "('s \<Rightarrow> 'a) \<Rightarrow> ('s, 'a) act" where "getA g s = (Inr (g s), s)"
definition whenA :: "bool \<Rightarrow> ('s, unit) act \<Rightarrow> ('s, unit) act" where
  "whenA b m = (if b then m else ret ())"
definition ignA :: "('s, 'a) act \<Rightarrow> ('s, unit) act" where "ignA m = bindA m (\<lambda>_. ret ())"

fun seqA :: "('s, unit) act list \<Rightarrow> ('s, unit) act" where
  "seqA [] = ret ()"
| "seqA (m # ms) = bindA m (\<lambda>_. seqA ms)"

fun forA :: "('x \<Rightarrow> ('s, unit) act) \<Rightarrow> 'x list \<Rightarrow> ('s, unit) act" where
  "forA f [] = ret ()"
| "forA f (x # xs) = bindA (f x) (\<lambda>_. forA f xs)"

text \<open>The \<open>try ... catch\<close> of the handlers, which turns any exception of the three
  layers into one value.\<close>

definition catchA :: "'a \<Rightarrow> ('s, 'a) act \<Rightarrow> ('s, 'a) act" where
  "catchA v m s = (case m s of (Inl e, t) \<Rightarrow> (if catchable e then (Inr v, t) else (Inl e, t))
                           | (Inr x, t) \<Rightarrow> (Inr x, t))"

lemmas [act_simps] = ret_def throw_def bindA_def modA_def getA_def whenA_def ignA_def

lemma bindA_Inr: "bindA m f s = (Inr x, u) \<longleftrightarrow> (\<exists>y t. m s = (Inr y, t) \<and> f y t = (Inr x, u))"
  by (auto simp: bindA_def split: prod.splits sum.splits)

lemma bindA_run: "m s = (Inr y, t) \<Longrightarrow> bindA m f s = f y t"
  by (simp add: bindA_def)

text \<open>A state predicate kept by an action, whether it returns or throws.\<close>

definition keeps :: "('s \<Rightarrow> bool) \<Rightarrow> ('s, 'a) act \<Rightarrow> bool" where
  "keeps P m \<longleftrightarrow> (\<forall>s. P s \<longrightarrow> P (snd (m s)))"

named_theorems keeps_intros "composition rules of keeps"

lemma keepsD: "keeps P m \<Longrightarrow> P s \<Longrightarrow> P (snd (m s))"
  by (simp add: keeps_def)

lemma keeps_ret [keeps_intros, simp]: "keeps P (ret x)" by (simp add: keeps_def ret_def)
lemma keeps_throw [keeps_intros, simp]: "keeps P (throw e)" by (simp add: keeps_def throw_def)
lemma keeps_getA [keeps_intros, simp]: "keeps P (getA g)" by (simp add: keeps_def getA_def)

lemma keeps_bindA [keeps_intros]: "keeps P m \<Longrightarrow> (\<And>x. keeps P (f x)) \<Longrightarrow> keeps P (bindA m f)"
  unfolding keeps_def bindA_def
  by (fastforce split: prod.splits sum.splits)

lemma keeps_modA [keeps_intros]: "(\<And>s. P s \<Longrightarrow> P (g s)) \<Longrightarrow> keeps P (modA g)"
  by (simp add: keeps_def modA_def)

lemma keeps_whenA [keeps_intros]: "(b \<Longrightarrow> keeps P m) \<Longrightarrow> keeps P (whenA b m)"
  by (simp add: whenA_def)

lemma keeps_ignA [keeps_intros]: "keeps P m \<Longrightarrow> keeps P (ignA m)"
  by (simp add: ignA_def keeps_bindA)

lemma keeps_catchA [keeps_intros]: "keeps P m \<Longrightarrow> keeps P (catchA v m)"
  unfolding keeps_def catchA_def
  by (fastforce split: prod.splits sum.splits)

lemma keeps_seqA [keeps_intros]: "(\<And>m. m \<in> set ms \<Longrightarrow> keeps P m) \<Longrightarrow> keeps P (seqA ms)"
  by (induction ms) (auto intro: keeps_intros)

lemma keeps_forA [keeps_intros]: "(\<And>x. x \<in> set xs \<Longrightarrow> keeps P (f x)) \<Longrightarrow> keeps P (forA f xs)"
  by (induction xs) (auto intro: keeps_intros)

lemma keeps_if [keeps_intros]: "(b \<Longrightarrow> keeps P m) \<Longrightarrow> (\<not> b \<Longrightarrow> keeps P n) \<Longrightarrow> keeps P (if b then m else n)"
  by simp

lemma keeps_option:
  "(x = None \<Longrightarrow> keeps P m) \<Longrightarrow> (\<And>y. x = Some y \<Longrightarrow> keeps P (f y)) \<Longrightarrow> keeps P (case x of None \<Rightarrow> m | Some y \<Rightarrow> f y)"
  by (cases x) auto

lemma keeps_let: "keeps P (f x) \<Longrightarrow> keeps P (let y = x in f y)" by simp

lemma keeps_pair: "(\<And>a b. x = (a, b) \<Longrightarrow> keeps P (f a b)) \<Longrightarrow> keeps P (case x of (a, b) \<Rightarrow> f a b)"
  by (cases x) auto

end
