(* ===== verification/Cobo_Tree.thy ===== *)
theory Cobo_Tree
  imports LMON_Prelude
begin

text \<open>
  The communication tree of \<open>tools/cobo/src/cobo.c\<close>: \<open>cobo_compute_children\<close>, which every
  rank runs on its own from its rank and the number of ranks. The lemmas relate the loop to
  the intervals of ranks it halves: what a rank finds as children and parent agrees with what
  those ranks find, each child answers for an interval of ranks, and the arrays allocated for
  the children are large enough.
\<close>

section \<open>cobo_compute_children\<close>

text \<open>The file's static tree variables that the function fills. The three child arrays are
  lists; \<open>max_children\<close> is the size they are allocated with.\<close>

record cobo =
  cobo_me :: nat
  cobo_nprocs :: nat
  cobo_parent :: nat
  cobo_child :: "nat list"
  cobo_child_incl :: "nat list"
  cobo_num_child_incl :: nat
  max_children :: nat

definition cobo_num_child :: "cobo \<Rightarrow> nat" where "cobo_num_child c = length (cobo_child c)"

function max_children_loop :: "nat \<Rightarrow> nat \<Rightarrow> nat \<Rightarrow> nat" where
  "max_children_loop nprocs n m =
     (if 0 < n \<and> n < nprocs then max_children_loop nprocs (2 * n) (m + 1) else m)"
  by auto
termination by (relation "measure (\<lambda>(nprocs, n, m). nprocs - n)") auto

declare max_children_loop.simps [simp del]

definition mid_of :: "nat \<Rightarrow> nat \<Rightarrow> nat" where
  "mid_of low high = (high - low) div 2 + (high - low) mod 2 + low"

lemma mid_of_bounds: "low < high \<Longrightarrow> low < mid_of low high \<and> mid_of low high \<le> high"
proof -
  assume "low < high"
  moreover have "0 < d \<Longrightarrow> 0 < d div 2 + d mod 2 \<and> d div 2 + d mod 2 \<le> d" for d :: nat
    by presburger
  ultimately show ?thesis
    unfolding mid_of_def by (metis add.commute add_le_cancel_left less_add_same_cancel1
      le_add_diff_inverse less_imp_le zero_less_diff)
qed

definition add_child :: "nat \<Rightarrow> nat \<Rightarrow> cobo \<Rightarrow> cobo" where
  "add_child mid high c = c\<lparr>cobo_child := cobo_child c @ [mid],
     cobo_child_incl := cobo_child_incl c @ [high - mid + 1],
     cobo_num_child_incl := cobo_num_child_incl c + (high - mid + 1)\<rparr>"

function children_loop :: "nat \<Rightarrow> nat \<Rightarrow> cobo \<Rightarrow> cobo" where
  "children_loop low high c =
     (if low < high then
        (let mid = mid_of low high;
             c = (if low = cobo_me c then add_child mid high c else c);
             c = (if mid = cobo_me c then c\<lparr>cobo_parent := low\<rparr> else c)
         in if mid \<le> cobo_me c then children_loop mid high c else children_loop low (mid - 1) c)
      else c)"
  by auto
termination
proof (relation "measure (\<lambda>(low, high, c). high - low)")
  fix low high :: nat
  assume "low < high"
  note b = mid_of_bounds [OF this]
  fix x xa xb
  assume x: "x = mid_of low high"
  show "((x, high, xb), low, high, c) \<in> measure (\<lambda>(low, high, c). high - low)" for c :: cobo
    using b x \<open>low < high\<close> by (simp, linarith)
  show "((low, x - 1, xb), low, high, c) \<in> measure (\<lambda>(low, high, c). high - low)" for c :: cobo
    using b x \<open>low < high\<close> by (simp, linarith)
qed simp

declare children_loop.simps [simp del]

definition cobo_compute_children :: "nat \<Rightarrow> nat \<Rightarrow> cobo" where
  "cobo_compute_children me nprocs =
     children_loop 0 (nprocs - 1)
       \<lparr>cobo_me = me, cobo_nprocs = nprocs, cobo_parent = 0, cobo_child = [], cobo_child_incl = [],
        cobo_num_child_incl = 0, max_children = max_children_loop nprocs 1 0\<rparr>"

section \<open>The intervals the loop visits\<close>

text \<open>\<open>node n l h\<close>: the interval \<open>[l..h]\<close> is visited by the loops of the ranks in it.\<close>

inductive node :: "nat \<Rightarrow> nat \<Rightarrow> nat \<Rightarrow> bool" for n where
  root: "0 < n \<Longrightarrow> node n 0 (n - 1)"
| right: "node n l h \<Longrightarrow> l < h \<Longrightarrow> node n (mid_of l h) h"
| left: "node n l h \<Longrightarrow> l < h \<Longrightarrow> node n l (mid_of l h - 1)"

lemma node_bounds: "node n l h \<Longrightarrow> l \<le> h \<and> h < n"
proof (induction rule: node.induct)
  case (right l h)
  then show ?case using mid_of_bounds [of l h] by simp
next
  case (left l h)
  then show ?case using mid_of_bounds [of l h] by linarith
qed simp

text \<open>The children of the low end of an interval, with the interval each answers for.\<close>

function kids :: "nat \<Rightarrow> nat \<Rightarrow> (nat \<times> nat) list" where
  "kids l h = (if l < h then (mid_of l h, h) # kids l (mid_of l h - 1) else [])"
  by auto
termination
proof (relation "measure (\<lambda>(l, h). h - l)")
  fix l h :: nat
  assume "l < h"
  then show "((l, mid_of l h - 1), l, h) \<in> measure (\<lambda>(l, h). h - l)"
    using mid_of_bounds [of l h] by (simp, linarith)
qed simp

declare kids.simps [simp del]

lemma kids_bounds: "(c, k) \<in> set (kids l h) \<Longrightarrow> l < c \<and> c \<le> k \<and> k \<le> h"
proof (induction l h rule: kids.induct)
  case (1 l h)
  show ?case
  proof (cases "l < h")
    case True
    then have "(c, k) = (mid_of l h, h) \<or> (c, k) \<in> set (kids l (mid_of l h - 1))"
      using "1.prems" by (subst (asm) kids.simps) simp
    then show ?thesis using "1.IH" [OF True] mid_of_bounds [OF True] by auto
  next
    case False
    then show ?thesis using "1.prems" by (subst (asm) kids.simps) simp
  qed
qed

lemma kids_nodes: "node n l h \<Longrightarrow> (c, k) \<in> set (kids l h) \<Longrightarrow> node n c k"
proof (induction l h rule: kids.induct)
  case (1 l h)
  show ?case
  proof (cases "l < h")
    case True
    then have "(c, k) = (mid_of l h, h) \<or> (c, k) \<in> set (kids l (mid_of l h - 1))"
      using "1.prems" by (subst (asm) kids.simps) simp
    then show ?thesis using "1.IH" [OF True] node.intros(2,3) [OF "1.prems"(1) True] by auto
  next
    case False
    then show ?thesis using "1.prems" by (subst (asm) kids.simps) simp
  qed
qed

text \<open>The loop of the low end of an interval collects these children.\<close>

lemma children_loop_low:
  "cobo_me c = l \<Longrightarrow> children_loop l h c = c\<lparr>cobo_child := cobo_child c @ map fst (kids l h),
     cobo_child_incl := cobo_child_incl c @ map (\<lambda>(c, k). k - c + 1) (kids l h),
     cobo_num_child_incl := cobo_num_child_incl c + (h - l)\<rparr>"
proof (induction l h arbitrary: c rule: kids.induct)
  case (1 l h)
  show ?case
  proof (cases "l < h")
    case True
    note b = mid_of_bounds [OF True]
    have "children_loop l h c = children_loop l (mid_of l h - 1) (add_child (mid_of l h) h c)"
      using True b "1.prems" by (subst children_loop.simps) (simp add: add_child_def Let_def)
    moreover have "kids l h = (mid_of l h, h) # kids l (mid_of l h - 1)"
      using True by (subst kids.simps) simp
    moreover have "Suc (h - mid_of l h) + (mid_of l h - 1 - l) = h - l" using b True by linarith
    ultimately show ?thesis
      using "1.IH" [OF True, of "add_child (mid_of l h) h c"] "1.prems" by (simp add: add_child_def)
  next
    case False
    then show ?thesis by (simp add: kids.simps [of l h] children_loop.simps [of l h])
  qed
qed

section \<open>What each rank computes\<close>

text \<open>\<open>owns n x h p\<close>: rank \<open>x\<close> answers for \<open>[x..h]\<close> and hangs below \<open>p\<close>.\<close>

inductive owns :: "nat \<Rightarrow> nat \<Rightarrow> nat \<Rightarrow> nat \<Rightarrow> bool" for n where
  top: "0 < n \<Longrightarrow> owns n 0 (n - 1) 0"
| sub: "node n l h \<Longrightarrow> l < h \<Longrightarrow> owns n (mid_of l h) h l"

lemma owns_node: "owns n x h p \<Longrightarrow> node n x h"
proof (induction rule: owns.induct)
  case top
  then show ?case by (rule node.root)
next
  case (sub l h)
  then show ?case by (rule node.right)
qed

lemma owns_bounds: "owns n x h p \<Longrightarrow> x \<le> h \<and> h < n"
  using owns_node node_bounds by blast

lemma owns_parent: "owns n x h p \<Longrightarrow> x = 0 \<and> p = 0 \<and> h = n - 1 \<or> p < x"
  by (induction rule: owns.induct) (auto dest: mid_of_bounds)

abbreviation tree0 :: "nat \<Rightarrow> nat \<Rightarrow> nat \<Rightarrow> cobo" where
  "tree0 n x p \<equiv> \<lparr>cobo_me = x, cobo_nprocs = n, cobo_parent = p, cobo_child = [], cobo_child_incl = [],
      cobo_num_child_incl = 0, max_children = max_children_loop n 1 0\<rparr>"

lemma loop_path:
  "node n l h \<Longrightarrow> l < x \<Longrightarrow> x \<le> h \<Longrightarrow> \<exists>p. cobo_compute_children x n = children_loop l h (tree0 n x p)"
proof (induction rule: node.induct)
  case root
  then show ?case by (auto simp: cobo_compute_children_def)
next
  case (right l h)
  note b = mid_of_bounds [OF right.hyps(2)]
  obtain p where "cobo_compute_children x n = children_loop l h (tree0 n x p)"
    using right b by auto
  then show ?case using right b by (subst (asm) children_loop.simps) (auto simp: Let_def)
next
  case (left l h)
  note b = mid_of_bounds [OF left.hyps(2)]
  have "x \<le> h" "x < mid_of l h" using left.prems b by linarith+
  moreover obtain p where "cobo_compute_children x n = children_loop l h (tree0 n x p)"
    using left calculation by auto
  ultimately show ?case using left b by (subst (asm) children_loop.simps) (auto simp: Let_def)
qed

lemma compute_owns:
  assumes "owns n x h p"
  shows "cobo_compute_children x n =
     \<lparr>cobo_me = x, cobo_nprocs = n, cobo_parent = p, cobo_child = map fst (kids x h),
      cobo_child_incl = map (\<lambda>(c, k). k - c + 1) (kids x h), cobo_num_child_incl = h - x,
      max_children = max_children_loop n 1 0\<rparr>"
  using assms
proof cases
  case top
  then show ?thesis by (simp add: cobo_compute_children_def children_loop_low)
next
  case sub
  note b = mid_of_bounds [OF sub(3)]
  obtain q where "cobo_compute_children x n = children_loop p h (tree0 n x q)"
    using loop_path [OF sub(2)] b sub(1) by blast
  also have "\<dots> = children_loop x h (tree0 n x p)"
    using sub b by (subst children_loop.simps) (simp add: Let_def)
  finally show ?thesis by (simp add: children_loop_low)
qed

lemma owns_unique: "owns n x h p \<Longrightarrow> owns n x k q \<Longrightarrow> h = k \<and> p = q"
proof -
  assume a: "owns n x h p" "owns n x k q"
  from compute_owns [OF a(1)] compute_owns [OF a(2)] have "h - x = k - x" "p = q" by simp_all
  then show ?thesis using owns_bounds [OF a(1)] owns_bounds [OF a(2)] by linarith
qed

lemma owns_below: "node n l h \<Longrightarrow> l < x \<Longrightarrow> x \<le> h \<Longrightarrow> \<exists>k p. owns n x k p"
proof (induction "h - l" arbitrary: l h rule: less_induct)
  case less
  then have lh: "l < h" by simp
  note b = mid_of_bounds [OF lh]
  consider "x = mid_of l h" | "mid_of l h < x" | "x \<le> mid_of l h - 1" using b by linarith
  then show ?case
  proof cases
    case 1
    then show ?thesis using owns.sub [OF less.prems(1) lh] by blast
  next
    case 2
    then show ?thesis using less.hyps [OF _ node.right [OF less.prems(1) lh]] less.prems b by auto
  next
    case 3
    have "mid_of l h - 1 - l < h - l" using b lh by linarith
    then show ?thesis using less.hyps [OF _ node.left [OF less.prems(1) lh]] less.prems 3 by auto
  qed
qed

lemma owns_ex: "x < n \<Longrightarrow> \<exists>h p. owns n x h p"
proof (cases "x = 0")
  case True
  then show "x < n \<Longrightarrow> ?thesis" using owns.top by blast
next
  case False
  then show "x < n \<Longrightarrow> ?thesis" using owns_below [OF node.root, of n x] by simp
qed

lemma kids_of_node: "node n l h \<Longrightarrow> (c, k) \<in> set (kids l h) \<Longrightarrow> owns n c k l"
proof (induction l h rule: kids.induct)
  case (1 l h)
  have lh: "l < h" using "1.prems"(2) by (subst (asm) kids.simps) (simp split: if_splits)
  then have "(c, k) = (mid_of l h, h) \<or> (c, k) \<in> set (kids l (mid_of l h - 1))"
    using "1.prems"(2) by (subst (asm) kids.simps) simp
  then show ?case
  proof
    assume "(c, k) = (mid_of l h, h)"
    then show ?thesis using owns.sub [OF "1.prems"(1) lh] by simp
  next
    assume "(c, k) \<in> set (kids l (mid_of l h - 1))"
    then show ?thesis using "1.IH" [OF lh node.left [OF "1.prems"(1) lh]] by simp
  qed
qed

lemma kids_owns: "owns n x h p \<Longrightarrow> (c, k) \<in> set (kids x h) \<Longrightarrow> owns n c k x"
  using owns_node kids_of_node by blast

lemma node_low: "node n l h \<Longrightarrow> \<exists>k p. owns n l k p \<and> set (kids l h) \<subseteq> set (kids l k)"
proof (induction rule: node.induct)
  case root
  then show ?case using owns.top by blast
next
  case (right l h)
  then show ?case using owns.sub by blast
next
  case (left l h)
  then have "kids l h = (mid_of l h, h) # kids l (mid_of l h - 1)" by (subst kids.simps) simp
  then show ?case using left by auto
qed

lemma owns_kid:
  assumes "owns n x h p" and "x \<noteq> 0"
  shows "\<exists>k q. owns n p k q \<and> (x, h) \<in> set (kids p k)"
  using assms(1)
proof cases
  case top
  then show ?thesis using assms(2) by simp
next
  case sub
  then have "(x, h) \<in> set (kids p h)" by (subst kids.simps) simp
  then show ?thesis using node_low [OF sub(2)] by blast
qed

section \<open>The child arrays\<close>

lemma mid_half: "low < high \<Longrightarrow> 2 * (mid_of low high - low) \<le> high - low + 1"
proof -
  assume "low < high"
  moreover have "2 * (d div 2 + d mod 2) \<le> d + 1" for d :: nat by presburger
  ultimately show ?thesis by (simp add: mid_of_def)
qed

lemma length_kids: "2 ^ length (kids l h) \<le> h - l + 1"
proof (induction l h rule: kids.induct)
  case (1 l h)
  show ?case
  proof (cases "l < h")
    case True
    have "(2::nat) ^ length (kids l h) = 2 * 2 ^ length (kids l (mid_of l h - 1))"
      using True by (subst kids.simps) simp
    then show ?thesis using "1.IH" [OF True] mid_of_bounds [OF True] mid_half [OF True] by linarith
  next
    case False
    then show ?thesis by (subst kids.simps) simp
  qed
qed

lemma max_children_enough: "0 < k \<Longrightarrow> nprocs \<le> 2 ^ (max_children_loop nprocs k m - m) * k \<and> m \<le> max_children_loop nprocs k m"
proof (induction nprocs k m rule: max_children_loop.induct)
  case (1 nprocs n m)
  show ?case
  proof (cases "n < nprocs")
    case True
    let ?r = "max_children_loop nprocs (2 * n) (m + 1)"
    have "nprocs \<le> 2 ^ (?r - (m + 1)) * (2 * n) \<and> m + 1 \<le> ?r" using "1.IH" True "1.prems" by simp
    moreover from this have "?r - m = Suc (?r - (m + 1))" by linarith
    moreover have "max_children_loop nprocs n m = ?r"
      using True "1.prems" by (subst max_children_loop.simps) simp
    ultimately show ?thesis by simp
  next
    case False
    then show ?thesis by (simp add: max_children_loop.simps)
  qed
qed

lemma kids_fit: "owns n x h p \<Longrightarrow> length (kids x h) \<le> max_children_loop n 1 0"
proof -
  assume "owns n x h p"
  then have "h - x + 1 \<le> n" using owns_bounds by fastforce
  moreover have "n \<le> 2 ^ max_children_loop n 1 0" using max_children_enough [of 1 n 0] by simp
  ultimately have "(2::nat) ^ length (kids x h) \<le> 2 ^ max_children_loop n 1 0"
    using length_kids [of x h] order.trans by blast
  then show ?thesis by (rule power_le_imp_le_exp [rotated]) simp
qed

section \<open>Facts for the collectives\<close>

lemma tree_fields [simp]:
  assumes "x < n"
  shows "cobo_me (cobo_compute_children x n) = x" "cobo_nprocs (cobo_compute_children x n) = n"
  using owns_ex [OF assms] compute_owns by fastforce+

lemma tree_child_iff:
  assumes "x < n" and "c < n"
  shows "c \<in> set (cobo_child (cobo_compute_children x n)) \<longleftrightarrow>
            c \<noteq> 0 \<and> cobo_parent (cobo_compute_children c n) = x"
proof -
  obtain h p where x: "owns n x h p" using owns_ex [OF assms(1)] by blast
  obtain k q where c: "owns n c k q" using owns_ex [OF assms(2)] by blast
  have "c \<in> fst ` set (kids x h) \<longleftrightarrow> c \<noteq> 0 \<and> q = x"
  proof
    assume "c \<in> fst ` set (kids x h)"
    then obtain k2 where m: "(c, k2) \<in> set (kids x h)" by auto
    then show "c \<noteq> 0 \<and> q = x"
      using owns_unique [OF c kids_owns [OF x m]] kids_bounds [OF m] by simp
  next
    assume "c \<noteq> 0 \<and> q = x"
    then show "c \<in> fst ` set (kids x h)"
      using owns_kid [OF c] owns_unique [OF x] by force
  qed
  then show ?thesis using compute_owns [OF x] compute_owns [OF c] by simp
qed

lemma tree_parent_less:
  "c < n \<Longrightarrow> c \<noteq> 0 \<Longrightarrow> cobo_parent (cobo_compute_children c n) < c"
  using owns_ex [of c n] owns_parent compute_owns by fastforce

lemma tree_child_bounds:
  "x < n \<Longrightarrow> c \<in> set (cobo_child (cobo_compute_children x n)) \<Longrightarrow> x < c \<and> c < n"
proof -
  assume "x < n"
  then obtain h p where x: "owns n x h p" using owns_ex by blast
  assume "c \<in> set (cobo_child (cobo_compute_children x n))"
  then obtain k where m: "(c, k) \<in> set (kids x h)" by (auto simp: compute_owns [OF x])
  show ?thesis using kids_bounds [OF m] owns_bounds [OF x] by simp
qed

lemma kids_distinct: "distinct (map fst (kids l h))"
proof (induction l h rule: kids.induct)
  case (1 l h)
  show ?case
  proof (cases "l < h")
    case True
    have "mid_of l h \<notin> fst ` set (kids l (mid_of l h - 1))"
      using kids_bounds [of _ _ l "mid_of l h - 1"] mid_of_bounds [OF True] by force
    then show ?thesis using "1.IH" [OF True] True by (subst kids.simps) simp
  next
    case False
    then show ?thesis by (subst kids.simps) simp
  qed
qed

lemma tree_child_distinct: "x < n \<Longrightarrow> distinct (cobo_child (cobo_compute_children x n))"
  using owns_ex [of x n] compute_owns kids_distinct by fastforce

text \<open>The loops over the children from the last to the first, with their counts.\<close>

definition children_down :: "cobo \<Rightarrow> (nat \<times> nat) list" where
  "children_down t = rev (zip (cobo_child t) (cobo_child_incl t))"

lemma children_down_kids:
  "owns n x h p \<Longrightarrow> children_down (cobo_compute_children x n) = rev (map (\<lambda>(c, k). (c, k - c + 1)) (kids x h))"
  by (auto simp: children_down_def compute_owns zip_map_map zip_same_conv_map)

lemma children_down_fst: "x < n \<Longrightarrow> map fst (children_down (cobo_compute_children x n)) =
    rev (cobo_child (cobo_compute_children x n))"
proof -
  assume "x < n"
  then obtain h p where o: "owns n x h p" using owns_ex by blast
  show ?thesis
    unfolding children_down_kids [OF o] by (simp add: compute_owns [OF o] rev_map comp_def split_def)
qed

section \<open>Properties\<close>

text \<open>C40: The ranks agree on the tree without talking: \<open>c\<close> is among the children that
  rank \<open>x\<close> computes exactly when \<open>c\<close> is not the root and computes \<open>x\<close> as its parent; and a
  parent has a smaller rank, so that every rank hangs below rank 0.\<close>

theorem tree_agreement:
  assumes "x < n" and "c < n"
  shows "(c \<in> set (cobo_child (cobo_compute_children x n)) \<longleftrightarrow>
            c \<noteq> 0 \<and> cobo_parent (cobo_compute_children c n) = x) \<and>
         (c \<noteq> 0 \<longrightarrow> cobo_parent (cobo_compute_children c n) < c)"
  using tree_child_iff [OF assms] tree_parent_less [OF assms(2)] by simp

theorem tree_agreement_witness:
  "(3::nat) \<in> set (cobo_child (cobo_compute_children 0 7)) \<and> cobo_parent (cobo_compute_children 3 7) = 0"
proof -
  have "(3::nat) \<in> set (cobo_child (cobo_compute_children 0 7))" by code_simp
  then show ?thesis using tree_agreement [of 0 7 3] by simp
qed

text \<open>C40: \<open>cobo_compute_children\<close> never writes past the arrays it allocated, the counts of
  its children add up to the total it reports, and together with the rank itself they cover
  exactly the interval of ranks that starts at the rank.\<close>

theorem tree_arrays:
  assumes "x < n"
  defines "t \<equiv> cobo_compute_children x n"
  shows "cobo_num_child t \<le> max_children t \<and> length (cobo_child_incl t) = cobo_num_child t \<and>
     sum_list (cobo_child_incl t) = cobo_num_child_incl t \<and> x + cobo_num_child_incl t < n \<and>
     concat (map (\<lambda>(c, k). [c..<c + k]) (rev (zip (cobo_child t) (cobo_child_incl t)))) =
       [x + 1..<x + cobo_num_child_incl t + 1]"
proof -
  obtain h p where o: "owns n x h p" using owns_ex [OF assms(1)] by blast
  have s: "sum_list (map (\<lambda>(c, k). k - c + 1) (kids l h)) = h - l \<and>
      concat (map (\<lambda>(c, k). [c..<c + (k - c + 1)]) (rev (kids l h))) = [l + 1..<h + 1]" if "l \<le> h" for l h
    using that
  proof (induction l h rule: kids.induct)
    case (1 l h)
    show ?case
    proof (cases "l < h")
      case True
      note b = mid_of_bounds [OF True]
      have k: "kids l h = (mid_of l h, h) # kids l (mid_of l h - 1)" using True by (subst kids.simps) simp
      have "[l + 1..<mid_of l h] @ [mid_of l h..<h + 1] = [l + 1..<h + 1]"
        using b upt_add_eq_append [of "l + 1" "mid_of l h" "h + 1 - mid_of l h"] by simp
      moreover have "mid_of l h - 1 + 1 = mid_of l h" "l \<le> mid_of l h - 1" using b by linarith+
      ultimately show ?thesis using "1.IH" [OF True] b by (simp add: k del: upt_Suc) linarith
    next
      case False
      then show ?thesis using "1.prems" by (simp add: kids.simps)
    qed
  qed
  have z: "zip (map fst (kids x h)) (map (\<lambda>(c, k). k - c + 1) (kids x h)) = map (\<lambda>(c, k). (c, k - c + 1)) (kids x h)"
    by (auto simp: zip_map_map zip_same_conv_map)
  have c: "concat (map (\<lambda>(c, k). [c..<c + k]) (rev (zip (cobo_child t) (cobo_child_incl t)))) = [x + 1..<h + 1]"
    using s [of x h] owns_bounds [OF o]
    by (simp add: t_def compute_owns [OF o] z [unfolded split_def] rev_map [symmetric] comp_def split_def del: upt_Suc One_nat_def)
  show ?thesis
    using s [of x h] owns_bounds [OF o] kids_fit [OF o] c
    by (simp add: t_def compute_owns [OF o] cobo_num_child_def del: upt_Suc One_nat_def)
qed

theorem tree_arrays_witness:
  "cobo_num_child (cobo_compute_children 4 12) \<le> max_children (cobo_compute_children 4 12)"
  using tree_arrays [of 4 12] by simp

end
