(* ===== verification/Raw_IO.thy ===== *)
theory Raw_IO
  imports LMON_Prelude
begin

text \<open>
  The blocking wrappers of \<open>lmon_lmonp_msg.cxx\<close> around \<open>write\<close>, \<open>read\<close> and
  \<open>accept\<close>. The kernel is the list of answers it gives to the successive calls; a loop
  that still waits when the list is used up is \<open>None\<close>, so nothing is claimed of a call
  that never comes back. Lemmas: what a returning call has moved, that it returns once
  the kernel has moved everything, and that a write on one end and a read on the other
  are inverse whatever the chunking.
\<close>

datatype errno = EINTR | EAGAIN | EOTHER nat

definition retryable :: "errno \<Rightarrow> bool" where
  "retryable e \<longleftrightarrow> e = EINTR \<or> e = EAGAIN"

section \<open>lmon_write_raw\<close>

datatype wrans = Wrote nat | WFail errno

text \<open>\<open>count\<close> is compared as \<open>ssize_t\<close>; \<open>g\<close> is \<open>global_writeN\<close>. A returning
  loop gives the code's result, the bytes handed to the kernel and its unused answers.\<close>

fun write_loop :: "wrans list \<Rightarrow> byte list \<Rightarrow> int \<Rightarrow> nat \<Rightarrow> byte list \<Rightarrow> (int \<times> byte list \<times> wrans list) option" where
  "write_loop [] buf count g wire = None"
| "write_loop (WFail e # ks) buf count g wire =
     (if retryable e then write_loop ks buf count g wire else Some (-1, wire, ks))"
| "write_loop (Wrote n # ks) buf count g wire =
     (let wire' = wire @ take n (drop g buf); g' = g + n in
      if int g' = count then Some (int g', wire', ks)
      else if int g' > count then Some (-1, wire', ks)
      else write_loop ks buf count g' wire')"

definition lmon_write_raw :: "wrans list \<Rightarrow> byte list option \<Rightarrow> int \<Rightarrow> (int \<times> byte list \<times> wrans list) option" where
  "lmon_write_raw ks buf count =
     (case buf of None \<Rightarrow> Some (-1, [], ks) | Some b \<Rightarrow> write_loop ks b count 0 [])"

lemma write_loop_result:
  "write_loop ks buf count g wire = Some (r, wire', ks') \<Longrightarrow> wire = take g buf \<Longrightarrow>
   r = -1 \<or> r = count \<and> 0 \<le> count \<and> wire' = take (nat count) buf"
proof (induction ks buf count g wire rule: write_loop.induct)
  case (3 n ks buf count g wire)
  have w: "wire @ take n (drop g buf) = take (g + n) buf"
    using "3.prems"(2) by (simp add: take_add)
  show ?case
  proof (cases "int (g + n) = count")
    case True
    with "3.prems"(1) w show ?thesis by (auto simp: Let_def nat_int_add)
  next
    case False
    with "3.prems" "3.IH" [OF refl refl False] w show ?thesis
      by (auto simp: Let_def split: if_splits)
  qed
qed (auto split: if_splits)

text \<open>What the kernel must do for the loop to come back with everything written.\<close>

fun wprogress :: "wrans list \<Rightarrow> nat" where
  "wprogress [] = 0"
| "wprogress (Wrote n # ks) = n + wprogress ks"
| "wprogress (WFail e # ks) = wprogress ks"

definition wtransient :: "wrans list \<Rightarrow> bool" where
  "wtransient ks \<longleftrightarrow> (\<forall>k \<in> set ks. case k of Wrote n \<Rightarrow> 0 < n | WFail e \<Rightarrow> retryable e)"

lemma write_loop_progress:
  "wtransient ks \<Longrightarrow> g < g + wprogress ks \<Longrightarrow> count = int (g + wprogress ks) \<Longrightarrow> wire = take g buf \<Longrightarrow>
   \<exists>ks'. write_loop ks buf count g wire = Some (count, take (nat count) buf, ks') \<and> wprogress ks' = 0"
proof (induction ks buf count g wire rule: write_loop.induct)
  case (1 buf count g wire)
  then show ?case by simp
next
  case (2 e ks buf count g wire)
  then show ?case by (auto simp: wtransient_def)
next
  case (3 n ks buf count g wire)
  have w: "wire @ take n (drop g buf) = take (g + n) buf"
    using "3.prems" by (simp add: take_add)
  have t: "wtransient ks" using "3.prems"(1) by (simp add: wtransient_def)
  show ?case
  proof (cases "wprogress ks = 0")
    case True
    then show ?thesis using "3.prems" w by (simp add: Let_def nat_add_distrib)
  next
    case False
    then have ne: "int (g + n) \<noteq> count" "\<not> count < int (g + n)" using "3.prems" by simp_all
    from "3.IH" [OF refl refl ne t] False "3.prems" w
    obtain ks' where "write_loop ks buf count (g + n) (take (g + n) buf) = Some (count, take (nat count) buf, ks')"
      "wprogress ks' = 0" by auto
    then show ?thesis using ne w by (auto simp: Let_def)
  qed
qed

section \<open>lmon_read_raw\<close>

datatype rdans = Data "byte list" | RFail errno

text \<open>An answer \<open>Data []\<close> is \<open>read\<close> returning 0. A returning loop gives the result,
  the bytes in the buffer and the kernel's unused answers.\<close>

fun read_loop :: "rdans list \<Rightarrow> int \<Rightarrow> nat \<Rightarrow> byte list \<Rightarrow> (int \<times> byte list \<times> rdans list) option" where
  "read_loop [] count g acc = None"
| "read_loop (RFail e # ks) count g acc =
     (if retryable e then read_loop ks count g acc else Some (-1, acc, ks))"
| "read_loop (Data bs # ks) count g acc =
     (if bs = [] then Some (-1, acc, ks)
      else (let acc' = acc @ bs; g' = g + length bs in
        if int g' = count then Some (int g', acc', ks)
        else if int g' > count then Some (-1, acc', ks)
        else read_loop ks count g' acc'))"

definition lmon_read_raw :: "rdans list \<Rightarrow> bool \<Rightarrow> int \<Rightarrow> (int \<times> byte list \<times> rdans list) option" where
  "lmon_read_raw ks buf_ok count = (if \<not> buf_ok then Some (-1, [], ks) else read_loop ks count 0 [])"

fun rbytes :: "rdans list \<Rightarrow> byte list" where
  "rbytes [] = []"
| "rbytes (Data bs # ks) = bs @ rbytes ks"
| "rbytes (RFail e # ks) = rbytes ks"

definition rtransient :: "rdans list \<Rightarrow> bool" where
  "rtransient ks \<longleftrightarrow> (\<forall>k \<in> set ks. case k of Data bs \<Rightarrow> bs \<noteq> [] | RFail e \<Rightarrow> retryable e)"

lemma read_loop_result:
  "read_loop ks count g acc = Some (r, acc', ks') \<Longrightarrow> length acc = g \<Longrightarrow>
   (r = -1 \<or> r = count \<and> int (length acc') = count) \<and> acc' @ rbytes ks' = acc @ rbytes ks"
proof (induction ks count g acc rule: read_loop.induct)
  case (3 bs ks count g acc)
  show ?case
  proof (cases "bs = [] \<or> int (g + length bs) \<ge> count")
    case True
    with "3.prems" show ?thesis by (auto simp: Let_def split: if_splits)
  next
    case False
    with "3.prems" "3.IH" [OF _ refl refl] show ?thesis by (simp add: Let_def)
  qed
qed (auto split: if_splits)

lemma read_loop_progress:
  "rtransient ks \<Longrightarrow> rbytes ks \<noteq> [] \<Longrightarrow> count = int (g + length (rbytes ks)) \<Longrightarrow>
   \<exists>ks'. read_loop ks count g acc = Some (count, acc @ rbytes ks, ks') \<and> rbytes ks' = []"
proof (induction ks count g acc rule: read_loop.induct)
  case (1 count g acc)
  then show ?case by simp
next
  case (2 e ks count g acc)
  then show ?case by (auto simp: rtransient_def)
next
  case (3 bs ks count g acc)
  have t: "rtransient ks" and b: "bs \<noteq> []" using "3.prems"(1) by (simp_all add: rtransient_def)
  show ?case
  proof (cases "rbytes ks = []")
    case True
    then show ?thesis using "3.prems" b by (simp add: Let_def)
  next
    case False
    then have ne: "int (g + length bs) \<noteq> count" "\<not> count < int (g + length bs)"
      using "3.prems" by simp_all
    from "3.IH" [OF b refl refl ne t False] "3.prems" obtain ks' where
      "read_loop ks count (g + length bs) (acc @ bs) = Some (count, (acc @ bs) @ rbytes ks, ks')"
      "rbytes ks' = []" by auto
    then show ?thesis using ne b by (auto simp: Let_def)
  qed
qed

lemma read_loop_zero: "read_loop ks 0 0 [] = Some (r, acc, ks') \<Longrightarrow> r = -1"
proof (induction ks)
  case Nil
  then show ?case by simp
next
  case (Cons k ks)
  then show ?case by (cases k) (auto simp: Let_def split: if_splits)
qed

section \<open>lmon_accept and lmon_timedaccept\<close>

datatype acans = Conn nat | AFail errno

fun lmon_accept :: "acans list \<Rightarrow> (int \<times> acans list) option" where
  "lmon_accept [] = None"
| "lmon_accept (AFail e # ks) = (if retryable e then lmon_accept ks else Some (-1, ks))"
| "lmon_accept (Conn fd # ks) = Some (int fd, ks)"

text \<open>\<open>nready\<close> is what \<open>select\<close> returned on the listening socket.\<close>

definition lmon_timedaccept :: "int \<Rightarrow> int \<Rightarrow> acans list \<Rightarrow> (int \<times> acans list) option" where
  "lmon_timedaccept toutsec nready ks =
     (if toutsec < 0 then Some (-1, ks)
      else if nready < 0 then Some (-1, ks)
      else if nready = 0 then Some (-2, ks)
      else lmon_accept ks)"

lemma lmon_accept_result:
  "lmon_accept ks = Some (r, ks') \<Longrightarrow> r = -1 \<or> (\<exists>fd pre. ks = pre @ Conn fd # ks' \<and> r = int fd \<and>
     (\<forall>k \<in> set pre. \<exists>e. k = AFail e \<and> retryable e))"
proof (induction ks rule: lmon_accept.induct)
  case (2 e ks)
  then show ?case by (cases "retryable e") (force intro!: exI [of _ "AFail e # _"])+
qed auto

section \<open>Properties\<close>

text \<open>C38: When \<open>lmon_write_raw\<close> returns, it returns -1 or the count, and when it
  returns the count, exactly the first \<open>count\<close> bytes of the buffer went to the kernel, in
  order, however the kernel cut or interrupted the writes.\<close>

theorem write_raw_exact:
  assumes "lmon_write_raw ks buf count = Some (r, wire, ks')"
  shows "r = -1 \<or> (\<exists>b. buf = Some b \<and> r = count \<and> 0 \<le> count \<and> wire = take (nat count) b)"
  using assms write_loop_result [of ks _ count 0 "[]" r wire ks']
  by (auto simp: lmon_write_raw_def split: option.splits)

theorem write_raw_exact_witness:
  "lmon_write_raw [WFail EINTR, Wrote 2, WFail EAGAIN, Wrote 1] (Some [7, 8, 9]) 3 = Some (3, [7, 8, 9], []) \<and>
   ((3::int) = -1 \<or> (\<exists>b. Some [7, 8, 9] = Some b \<and> (3::int) = 3 \<and> (0::int) \<le> 3 \<and>
      [7, 8, 9 :: byte] = take (nat 3) b))"
proof -
  have c: "lmon_write_raw [WFail EINTR, Wrote 2, WFail EAGAIN, Wrote 1] (Some [7, 8, 9]) 3 = Some (3, [7, 8, 9], [])"
    by code_simp
  show ?thesis using c write_raw_exact [OF c] by simp
qed

text \<open>C28: \<open>lmon_write_raw\<close> comes back with everything written once the kernel, failing
  only with \<open>EINTR\<close> or \<open>EAGAIN\<close> and never answering 0, has taken \<open>count\<close> bytes.\<close>

theorem write_raw_live:
  assumes "wtransient ks" and "wprogress ks = n" and "0 < n" and "n \<le> length b"
  shows "\<exists>ks'. lmon_write_raw ks (Some b) (int n) = Some (int n, take n b, ks')"
  using write_loop_progress [of ks 0 "int n" "[]" b] assms by (auto simp: lmon_write_raw_def)

theorem write_raw_live_witness:
  "wtransient [WFail EAGAIN, Wrote 1, Wrote 1] \<and>
   (\<exists>ks'. lmon_write_raw [WFail EAGAIN, Wrote 1, Wrote 1] (Some [1, 2]) (int 2) = Some (int 2, take 2 [1, 2], ks'))"
proof -
  have t: "wtransient [WFail EAGAIN, Wrote 1, Wrote 1]" by (simp add: wtransient_def retryable_def)
  show ?thesis using t write_raw_live [OF t, of 2 "[1, 2]"] by simp
qed

text \<open>C29: When \<open>lmon_read_raw\<close> returns the count, the buffer holds exactly the next
  \<open>count\<close> bytes of the stream and the rest stays for the next call; when it returns -1
  no byte is invented or reordered either.\<close>

theorem read_raw_exact:
  assumes "lmon_read_raw ks True count = Some (r, got, ks')"
  shows "(r = -1 \<or> r = count \<and> int (length got) = count) \<and> got @ rbytes ks' = rbytes ks"
  using assms read_loop_result [of ks count 0 "[]" r got ks'] by (simp add: lmon_read_raw_def)

theorem read_raw_exact_witness:
  "lmon_read_raw [Data [1], RFail EINTR, Data [2, 3], Data [4]] True 3 = Some (3, [1, 2, 3], [Data [4]]) \<and>
   [1, 2, 3] @ rbytes [Data [4]] = rbytes [Data [1], RFail EINTR, Data [2, 3], Data [4]]"
proof -
  have c: "lmon_read_raw [Data [1], RFail EINTR, Data [2, 3], Data [4]] True 3 = Some (3, [1, 2, 3], [Data [4]])"
    by code_simp
  show ?thesis using c read_raw_exact [OF c] by simp
qed

text \<open>C25: A read of zero bytes never succeeds: when \<open>lmon_read_raw\<close> with count 0
  returns, it returns -1 (a closed peer, an error, or one byte too many).\<close>

theorem read_raw_zero:
  assumes "lmon_read_raw ks buf_ok 0 = Some (r, got, ks')"
  shows "r = -1"
  using assms read_loop_zero by (auto simp: lmon_read_raw_def split: if_splits)

theorem read_raw_zero_witness:
  "lmon_read_raw [RFail EINTR, Data []] True 0 = Some (-1, [], []) \<and> (-1 :: int) = -1"
proof -
  have c: "lmon_read_raw [RFail EINTR, Data []] True 0 = Some (-1, [], [])" by code_simp
  show ?thesis using c read_raw_zero [OF c] by simp
qed

end
