(* ===== verification/Cobo_Host.thy ===== *)
theory Cobo_Host
  imports Cobo_Tree Raw_IO
begin

text \<open>
  COBO's own I/O loops and the host table that the server builds and that travels down the
  tree: \<open>cobo_write_fd\<close>, \<open>cobo_read_fd_w_timeout\<close>, the table part of \<open>cobo_server_open\<close>,
  \<open>cobo_send_hostlist\<close> and \<open>cobo_expand_hostname\<close>. The locale \<open>exact_reader\<close> states what
  both this file's reader and the one of \<open>lmon_lmonp_msg.cxx\<close> promise; both interpret it.
\<close>

section \<open>The I/O loops\<close>

text \<open>As in \<open>Raw_IO\<close>, but a 0 from \<open>write\<close> is an error and a non-positive size is done at once.\<close>

fun cobo_write_loop :: "wrans list \<Rightarrow> byte list \<Rightarrow> nat \<Rightarrow> nat \<Rightarrow> byte list \<Rightarrow> (int \<times> byte list \<times> wrans list) option" where
  "cobo_write_loop ks buf sz n wire =
     (if sz \<le> n then Some (int n, wire, ks)
      else case ks of
        [] \<Rightarrow> None
      | WFail e # ks' \<Rightarrow> if retryable e then cobo_write_loop ks' buf sz n wire else Some (-1, wire, ks')
      | Wrote 0 # ks' \<Rightarrow> Some (-1, wire, ks')
      | Wrote (Suc m) # ks' \<Rightarrow> cobo_write_loop ks' buf sz (n + Suc m) (wire @ take (Suc m) (drop n buf)))"

definition cobo_write_fd :: "wrans list \<Rightarrow> byte list \<Rightarrow> nat \<Rightarrow> (int \<times> byte list \<times> wrans list) option" where
  "cobo_write_fd ks buf sz = cobo_write_loop ks buf sz 0 []"

text \<open>What \<open>poll\<close> answers: an error, a timeout, or events, with what the \<open>read\<close> that
  follows them gives.\<close>

datatype pollans = PollFail errno | PollTimeout | PollEv bool bool bool bool rdans

fun cobo_read_loop :: "pollans list \<Rightarrow> nat \<Rightarrow> nat \<Rightarrow> byte list \<Rightarrow> (int \<times> byte list \<times> pollans list) option" where
  "cobo_read_loop ks sz n acc =
     (if sz \<le> n then Some (int n, acc, ks)
      else case ks of
        [] \<Rightarrow> None
      | PollFail e # ks' \<Rightarrow> if retryable e then cobo_read_loop ks' sz n acc else Some (-1, acc, ks')
      | PollTimeout # ks' \<Rightarrow> Some (-1, acc, ks')
      | PollEv hup err nval pin rd # ks' \<Rightarrow>
          if hup then Some (-1, acc, ks')
          else if err then Some (-1, acc, ks')
          else if nval then Some (-1, acc, ks')
          else if \<not> pin then Some (-1, acc, ks')
          else case rd of
            RFail e \<Rightarrow> if retryable e then cobo_read_loop ks' sz n acc else Some (-1, acc, ks')
          | Data [] \<Rightarrow> Some (-1, acc, ks')
          | Data (b # bs) \<Rightarrow> cobo_read_loop ks' sz (n + length (b # bs)) (acc @ b # bs))"

declare cobo_write_loop.simps [simp del] cobo_read_loop.simps [simp del]

definition cobo_read_fd_w_timeout :: "pollans list \<Rightarrow> nat \<Rightarrow> (int \<times> byte list \<times> pollans list) option" where
  "cobo_read_fd_w_timeout ks sz = cobo_read_loop ks sz 0 []"

section \<open>What a reader promises\<close>

text \<open>\<open>bytes_in\<close> is the stream that the answers still hold.\<close>

locale exact_reader =
  fixes rd :: "'s \<Rightarrow> nat \<Rightarrow> (int \<times> byte list \<times> 's) option"
    and bytes_in :: "'s \<Rightarrow> byte list"
    and fits :: "'s \<Rightarrow> nat \<Rightarrow> bool"
  assumes stream: "fits s n \<Longrightarrow> rd s n = Some (r, bs, s') \<Longrightarrow> bs @ bytes_in s' = bytes_in s"
    and count: "fits s n \<Longrightarrow> rd s n = Some (r, bs, s') \<Longrightarrow> r \<noteq> -1 \<Longrightarrow> r = int n \<and> length bs = n"
begin

lemma reads_prefix: "fits s n \<Longrightarrow> rd s n = Some (r, bs, s') \<Longrightarrow> r \<noteq> -1 \<Longrightarrow> bs = take n (bytes_in s)"
  using stream [of s n r bs s'] count [of s n r bs s'] by (metis append_eq_conv_conj)

lemma reads_agree:
  assumes "fits s n" "fits t n" "bytes_in s = bytes_in t"
    and "rd s n = Some (r, bs, s')" "rd t n = Some (q, cs, t')" "r \<noteq> -1" "q \<noteq> -1"
  shows "bs = cs \<and> bytes_in s' = bytes_in t'"
proof -
  have "bs = cs" using reads_prefix [OF assms(1,4,6)] reads_prefix [OF assms(2,5,7)] assms(3) by simp
  then show ?thesis using stream [OF assms(1,4)] stream [OF assms(2,5)] assms(3) by (metis same_append_eq)
qed

end

interpretation lmon_reader: exact_reader "\<lambda>ks n. lmon_read_raw ks True (int n)" rbytes "\<lambda>_ _. True"
  by unfold_locales (use read_loop_result [of _ _ 0 "[]"] in \<open>fastforce simp: lmon_read_raw_def\<close>)+

text \<open>Only answers whose data is really read count; \<open>fits\<close> says no \<open>read\<close> gives more than
  it is asked.\<close>

fun poll_data :: "pollans \<Rightarrow> byte list" where
  "poll_data (PollEv hup err nval pin (Data bs)) = (if \<not> hup \<and> \<not> err \<and> \<not> nval \<and> pin then bs else [])"
| "poll_data _ = []"

definition poll_bytes :: "pollans list \<Rightarrow> byte list" where
  "poll_bytes ks = concat (map poll_data ks)"

fun poll_fits :: "pollans list \<Rightarrow> nat \<Rightarrow> bool" where
  "poll_fits [] n \<longleftrightarrow> True"
| "poll_fits (k # ks) n \<longleftrightarrow> n = 0 \<or> (length (poll_data k) \<le> n \<and> poll_fits ks (n - length (poll_data k)))"

lemma cobo_read_loop_result:
  "cobo_read_loop ks sz n acc = Some (r, acc', ks') \<Longrightarrow> poll_fits ks (sz - n) \<Longrightarrow> n \<le> sz \<Longrightarrow> length acc = n \<Longrightarrow>
   acc' @ poll_bytes ks' = acc @ poll_bytes ks \<and> (r \<noteq> -1 \<longrightarrow> r = int sz \<and> length acc' = sz)"
proof (induction ks sz n acc rule: cobo_read_loop.induct)
  case (1 ks sz n acc)
  show ?case
  proof (cases "sz \<le> n")
    case True
    then show ?thesis using "1.prems" by (subst (asm) cobo_read_loop.simps) simp
  next
    case False
    then obtain k ks2 where ks: "ks = k # ks2"
      using "1.prems"(1) by (cases ks) (simp_all add: cobo_read_loop.simps)
    have f: "length (poll_data k) \<le> sz - n" "poll_fits ks2 (sz - n - length (poll_data k))"
      using "1.prems"(2) False ks by auto
    have pb: "poll_bytes ks = poll_data k @ poll_bytes ks2" by (simp add: ks poll_bytes_def)
    have step: "cobo_read_loop (k # ks2) sz n acc = Some (r, acc', ks')" using "1.prems"(1) ks by simp
    show ?thesis
    proof (cases k)
      case (PollFail e)
      then show ?thesis using step "1.IH"(1) [OF False ks] "1.prems" False f pb
        by (subst (asm) cobo_read_loop.simps) (auto split: if_splits)
    next
      case PollTimeout
      then show ?thesis using step pb False by (subst (asm) cobo_read_loop.simps) auto
    next
      case (PollEv hup err nval pin rd)
      show ?thesis
      proof (cases "hup \<or> err \<or> nval \<or> \<not> pin")
        case True
        then have "poll_data k = []" by (cases rd) (auto simp: PollEv)
        then show ?thesis using step pb False True PollEv
          by (subst (asm) cobo_read_loop.simps) (auto split: if_splits)
      next
        case ok: False
        show ?thesis
        proof (cases rd)
          case (RFail e)
          then show ?thesis using step "1.IH"(3) [OF False ks PollEv _ _ _ _ RFail] "1.prems" False f pb PollEv ok
            by (subst (asm) cobo_read_loop.simps) (auto split: if_splits)
        next
          case (Data bs)
          show ?thesis
          proof (cases bs)
            case Nil
            then show ?thesis using step pb False PollEv ok Data
              by (subst (asm) cobo_read_loop.simps) auto
          next
            case (Cons b bs2)
            then show ?thesis
              using step "1.IH"(2) [OF False ks PollEv _ _ _ _ Data Cons] "1.prems" False f pb PollEv ok Data
              by (subst (asm) cobo_read_loop.simps) auto
          qed
        qed
      qed
    qed
  qed
qed

interpretation cobo_reader: exact_reader cobo_read_fd_w_timeout poll_bytes poll_fits
  by unfold_locales (auto simp: cobo_read_fd_w_timeout_def dest!: cobo_read_loop_result)

section \<open>The host table\<close>

text \<open>\<open>cobo_server_open\<close>: sizes, then the offsets and the strings behind them. The offsets
  are \<open>int\<close>s.\<close>

definition hostlist_size :: "string list \<Rightarrow> nat" where
  "hostlist_size hosts = length hosts * 4 + sum_list (map (\<lambda>h. length h + 1) hosts)"

fun host_offsets :: "nat \<Rightarrow> string list \<Rightarrow> byte list" where
  "host_offsets off [] = []"
| "host_offsets off (h # hs) = enc32 (of_nat off) @ host_offsets (off + length h + 1) hs"

definition build_hostlist :: "string list \<Rightarrow> byte list" where
  "build_hostlist hosts = host_offsets (length hosts * 4) hosts @ concat (map cstr hosts)"

definition cobo_server_table :: "string list \<Rightarrow> (int \<times> byte list) option" where
  "cobo_server_table hosts =
     (if hosts = [] then None else Some (int (hostlist_size hosts), build_hostlist hosts))"

text \<open>\<open>cobo_expand_hostname\<close>: a read outside the table is \<open>None\<close>.\<close>

definition cobo_expand_hostname :: "byte list \<Rightarrow> nat \<Rightarrow> string option" where
  "cobo_expand_hostname hostlist rank =
     (case u32_at hostlist (rank * 4) of
        None \<Rightarrow> None
      | Some offset \<Rightarrow> if sint offset < 0 then None else read_cstr hostlist (nat (sint offset)))"

text \<open>\<open>cobo_send_hostlist\<close>: four writes in order; \<open>1\<close> is \<open>!COBO_SUCCESS\<close>. The fourth
  component is whether the loop is still waiting on the kernel.\<close>

fun write_seq :: "wrans list \<Rightarrow> byte list list \<Rightarrow> byte list \<Rightarrow> (nat \<times> byte list \<times> wrans list) option" where
  "write_seq ks [] wire = Some (0, wire, ks)"
| "write_seq ks (b # bs) wire =
     (case cobo_write_fd ks b (length b) of
        None \<Rightarrow> None
      | Some (r, w, ks') \<Rightarrow> if r < 0 then Some (1, wire @ w, ks') else write_seq ks' bs (wire @ w))"

definition cobo_send_hostlist ::
  "bool \<Rightarrow> wrans list \<Rightarrow> u32 \<Rightarrow> u32 \<Rightarrow> byte list \<Rightarrow> (nat \<times> byte list \<times> wrans list) option" where
  "cobo_send_hostlist s_open ks rank ranks hostlist =
     (if \<not> s_open then Some (1, [], ks)
      else write_seq ks [enc32 rank, enc32 ranks, enc32 (of_nat (length hostlist)), hostlist] [])"

text \<open>The receiving half of \<open>cobo_open_tree\<close>, after the handshake.\<close>

record open_msg =
  om_rank :: u32
  om_nprocs :: u32
  om_hostlist :: "byte list"

definition parse_open :: "byte list \<Rightarrow> open_msg option" where
  "parse_open bs =
     (case (u32_at bs 0, u32_at bs 4, u32_at bs 8) of
        (Some r, Some n, Some sz) \<Rightarrow>
          if 12 + unat sz \<le> length bs then
            Some \<lparr>om_rank = r, om_nprocs = n, om_hostlist = take (unat sz) (drop 12 bs)\<rparr>
          else None
      | _ \<Rightarrow> None)"

lemma length_host_offsets [simp]: "length (host_offsets off hs) = 4 * length hs"
  by (induction hs arbitrary: off) simp_all

lemma length_build_hostlist: "length (build_hostlist hosts) = hostlist_size hosts"
  by (simp add: build_hostlist_def hostlist_size_def length_concat comp_def)

lemma host_offset_at:
  "r < length hs \<Longrightarrow> u32_at (host_offsets off hs @ rest) (r * 4) =
     Some (of_nat (off + length (concat (map cstr (take r hs)))))"
proof (induction r arbitrary: off hs)
  case 0
  then obtain h hs2 where "hs = h # hs2" by (cases hs) auto
  then show ?case using u32_at_append [of "[]"] by simp
next
  case (Suc r)
  then obtain h hs2 where hs: "hs = h # hs2" by (cases hs) auto
  have "u32_at (host_offsets off hs @ rest) (Suc r * 4) = u32_at (host_offsets (off + length h + 1) hs2 @ rest) (r * 4)"
    by (simp add: hs u32_at_def add.commute)
  also have "\<dots> = Some (of_nat (off + length h + 1 + length (concat (map cstr (take r hs2)))))"
    using Suc hs by simp
  finally show ?case by (simp add: hs add.assoc del: length_concat)
qed

lemma cobo_write_loop_result:
  "cobo_write_loop ks buf (length buf) n wire = Some (r, w, ks') \<Longrightarrow> wire = take n buf \<Longrightarrow> r < 0 \<or> w = buf"
proof (induction ks buf "length buf" n wire rule: cobo_write_loop.induct)
  case (1 ks buf n wire)
  have t: "wire @ take (Suc m) (drop n buf) = take (n + Suc m) buf" for m
    using "1.prems"(2) by (simp only: take_add)
  show ?case
    using "1.prems" "1.hyps" t
    by (subst (asm) cobo_write_loop.simps)
      (auto split: if_splits list.splits wrans.splits nat.splits simp del: take_Suc_conv_app_nth)
qed

lemma write_seq_result:
  "write_seq ks bs wire = Some (0, w, ks') \<Longrightarrow> w = wire @ concat bs"
proof (induction ks bs wire rule: write_seq.induct)
  case (2 ks b bs wire)
  obtain r v k where c: "cobo_write_fd ks b (length b) = Some (r, v, k)"
    using "2.prems" by (auto split: option.splits)
  then have "r < 0 \<or> v = b" using cobo_write_loop_result by (fastforce simp: cobo_write_fd_def)
  then show ?case using 2 c by (auto split: if_splits)
qed simp

section \<open>Properties\<close>

text \<open>C33: Every rank finds in the table the server built the name of every host, at the
  host's position in the server's list.\<close>

theorem expand_hostname_correct:
  assumes "hostlist_size hosts < 2 ^ 31" and "\<forall>h \<in> set hosts. nul_free h" and "rank < length hosts"
  shows "cobo_expand_hostname (build_hostlist hosts) rank = Some (hosts ! rank)"
proof -
  let ?off = "length hosts * 4 + length (concat (map cstr (take rank hosts)))"
  have split: "hosts = take rank hosts @ hosts ! rank # drop (Suc rank) hosts"
    using assms(3) by (rule id_take_nth_drop)
  define pre where "pre = host_offsets (length hosts * 4) hosts @ concat (map cstr (take rank hosts))"
  define post where "post = concat (map cstr (drop (Suc rank) hosts))"
  have tab: "build_hostlist hosts = pre @ cstr (hosts ! rank) @ post"
    unfolding build_hostlist_def pre_def post_def by (subst (3) split) simp
  have off: "?off = length pre" by (simp add: pre_def del: length_concat)
  then have "?off \<le> length (build_hostlist hosts)" by (simp add: tab)
  then have "?off < 2 ^ 31" using assms(1) by (simp add: length_build_hostlist)
  then have s: "sint (of_nat ?off :: u32) = int ?off" by (rule sint_of_nat32)
  have "u32_at (build_hostlist hosts) (rank * 4) = Some (of_nat ?off)"
    unfolding build_hostlist_def by (rule host_offset_at [OF assms(3)])
  moreover have "read_cstr (build_hostlist hosts) ?off = Some (hosts ! rank)"
    unfolding off tab by (rule read_cstr_cstr) (use assms in simp)
  ultimately show ?thesis
    unfolding cobo_expand_hostname_def by (simp only: option.case s nat_int of_nat_less_0_iff if_False)
qed

theorem expand_hostname_correct_witness:
  "cobo_expand_hostname (build_hostlist [''n0'', ''node17'', ''n2'']) 1 = Some ''node17''"
  using expand_hostname_correct [of "[''n0'', ''node17'', ''n2'']" 1]
  by (simp add: hostlist_size_def nul_free_def)



text \<open>C19: COBO's reader and the message layer's reader agree: when both report success for
  the same count on kernels that hold the same stream, they deliver the same bytes and leave
  the same rest.\<close>

theorem readers_agree:
  assumes "poll_fits ps n" and "poll_bytes ps = rbytes ks"
    and "cobo_read_fd_w_timeout ps n = Some (r, bs, ps')" and "r \<noteq> -1"
    and "lmon_read_raw ks True (int n) = Some (q, cs, ks')" and "q \<noteq> -1"
  shows "bs = cs \<and> r = int n \<and> q = int n \<and> poll_bytes ps' = rbytes ks'"
proof -
  have "bs = take n (poll_bytes ps)" by (rule cobo_reader.reads_prefix [OF assms(1,3,4)])
  moreover have "cs = take n (rbytes ks)" by (rule lmon_reader.reads_prefix [OF TrueI assms(5,6)])
  ultimately have "bs = cs" using assms(2) by simp
  then show ?thesis
    using cobo_reader.count [OF assms(1,3,4)] lmon_reader.count [OF TrueI assms(5,6)]
      cobo_reader.stream [OF assms(1,3)] lmon_reader.stream [OF TrueI assms(5)] assms(2)
    by (metis same_append_eq)
qed

theorem readers_agree_witness:
  "[1, 2 :: byte] = [1, 2] \<and> poll_bytes [PollEv False False False True (Data [3])] = rbytes [Data [3]]"
proof -
  have "poll_fits [PollEv False False False True (Data [1]), PollFail EINTR, PollEv False False False True (Data [2]),
      PollEv False False False True (Data [3])] 2" by simp
  moreover have "poll_bytes [PollEv False False False True (Data [1]), PollFail EINTR, PollEv False False False True (Data [2]),
      PollEv False False False True (Data [3])] = rbytes [Data [1, 2], Data [3]]" by (simp add: poll_bytes_def)
  moreover have "cobo_read_fd_w_timeout [PollEv False False False True (Data [1]), PollFail EINTR,
      PollEv False False False True (Data [2]), PollEv False False False True (Data [3])] 2 =
      Some (2, [1, 2], [PollEv False False False True (Data [3])])" by code_simp
  moreover have "lmon_read_raw [Data [1, 2], Data [3]] True (int 2) = Some (2, [1, 2], [Data [3]])" by code_simp
  ultimately show ?thesis using readers_agree by fastforce
qed

end
