(* ===== verification/Std_Map.thy ===== *)
theory Std_Map
  imports LMON_Prelude "HOL-Library.List_Lexorder"
begin

text \<open>
  \<open>std::map\<close> as the sources use it: iteration runs in ascending key order, so a map is
  an association list that every operation keeps strictly sorted. The interface the
  clients rely on is the locale \<open>ordered_table\<close>; the operations below interpret it.
  The clients' group-by loop (\<open>find\<close>, then \<open>push_back\<close> or insert a fresh vector) is
  proved once inside the locale.
\<close>

type_synonym ('k, 'v) std_map = "('k \<times> 'v) list"

fun map_find :: "('k, 'v) std_map \<Rightarrow> 'k \<Rightarrow> 'v option" where
  "map_find [] k = None"
| "map_find ((a, v) # m) k = (if a = k then Some v else map_find m k)"

fun map_set :: "'k::linorder \<Rightarrow> 'v \<Rightarrow> ('k, 'v) std_map \<Rightarrow> ('k, 'v) std_map" where
  "map_set k v [] = [(k, v)]"
| "map_set k v ((a, w) # m) =
     (if k < a then (k, v) # (a, w) # m
      else if k = a then (k, v) # m
      else (a, w) # map_set k v m)"

fun map_erase :: "'k::linorder \<Rightarrow> ('k, 'v) std_map \<Rightarrow> ('k, 'v) std_map" where
  "map_erase k [] = []"
| "map_erase k ((a, w) # m) = (if k = a then m else (a, w) # map_erase k m)"

definition map_keys :: "('k, 'v) std_map \<Rightarrow> 'k list" where "map_keys m = map fst m"

definition map_inv :: "('k::linorder, 'v) std_map \<Rightarrow> bool" where
  "map_inv m \<longleftrightarrow> sorted_wrt (<) (map_keys m)"

section \<open>The interface\<close>

locale ordered_table =
  fixes find :: "'m \<Rightarrow> 'k::linorder \<Rightarrow> 'v option"
    and upd :: "'k \<Rightarrow> 'v \<Rightarrow> 'm \<Rightarrow> 'm"
    and empty :: 'm
    and keys :: "'m \<Rightarrow> 'k list"
    and inv :: "'m \<Rightarrow> bool"
  assumes inv_empty: "inv empty"
    and inv_upd: "inv m \<Longrightarrow> inv (upd k v m)"
    and find_empty: "find empty k = None"
    and find_upd: "inv m \<Longrightarrow> find (upd k v m) k' = (if k' = k then Some v else find m k')"
    and keys_find: "inv m \<Longrightarrow> k \<in> set (keys m) \<longleftrightarrow> find m k \<noteq> None"
    and keys_sorted: "inv m \<Longrightarrow> sorted_wrt (<) (keys m)"
begin

lemma keys_empty: "keys empty = []"
  using keys_find [OF inv_empty] find_empty by (metis list.set_intros(1) neq_Nil_conv)

lemma set_keys_upd: "inv m \<Longrightarrow> set (keys (upd k v m)) = insert k (set (keys m))"
  by (rule set_eqI) (simp add: keys_find inv_upd find_upd)

lemma distinct_keys: "inv m \<Longrightarrow> distinct (keys m)"
  using keys_sorted strict_sorted_iff by blast

lemma inv_fold: "inv m \<Longrightarrow> inv (fold (\<lambda>x m. upd (f x m) (g x m) m) xs m)"
  by (induction xs arbitrary: m) (simp_all add: inv_upd)

end

lemma map_find_Some_iff: "map_inv m \<Longrightarrow> map_find m k = Some v \<longleftrightarrow> (k, v) \<in> set m"
  by (induction m k rule: map_find.induct) (force simp: map_inv_def map_keys_def)+

lemma map_find_None_iff: "map_find m k = None \<longleftrightarrow> k \<notin> fst ` set m"
  by (induction m k rule: map_find.induct) auto

lemma set_map_keys: "set (map_keys m) = fst ` set m"
  by (simp add: map_keys_def)

lemma fst_map_set: "fst ` set (map_set k v m) = insert k (fst ` set m)"
  by (induction k v m rule: map_set.induct) auto

lemma map_find_set: "map_inv m \<Longrightarrow> map_find (map_set k v m) k' = (if k' = k then Some v else map_find m k')"
proof (induction k v m rule: map_set.induct)
  case (1 k v)
  then show ?case by simp
next
  case (2 k v a w m)
  have "k < a \<Longrightarrow> k \<notin> fst ` set ((a, w) # m)"
    using "2.prems" by (force simp: map_inv_def map_keys_def)
  then have "k < a \<Longrightarrow> map_find ((a, w) # m) k = None"
    by (simp add: map_find_None_iff)
  with 2 show ?case by (auto simp: map_inv_def map_keys_def)
qed

lemma map_inv_set: "map_inv m \<Longrightarrow> map_inv (map_set k v m)"
  by (induction k v m rule: map_set.induct)
    (fastforce simp: map_inv_def map_keys_def fst_map_set image_iff)+

lemma map_keys_sorted: "map_inv m \<Longrightarrow> sorted_wrt (<) (map_keys m)"
  by (simp add: map_inv_def)

interpretation smap: ordered_table map_find map_set "[]" map_keys map_inv
proof unfold_locales
  show "map_inv []" by (simp add: map_inv_def map_keys_def)
qed (auto simp: map_inv_set map_find_set map_find_None_iff set_map_keys map_keys_sorted)

section \<open>Extensionality and erasure\<close>

lemma map_inv_ext:
  assumes "map_inv m" and "map_inv n" and "\<And>k. map_find m k = map_find n k"
  shows "m = n"
proof -
  have s: "set m = set n"
    using assms by (metis map_find_Some_iff surj_pair subrelI subset_antisym)
  have "sorted_wrt (\<lambda>x y. fst x < fst y) m" "sorted_wrt (\<lambda>x y. fst x < fst y) n"
    using assms(1,2) by (simp_all add: map_inv_def map_keys_def sorted_wrt_map)
  with s show ?thesis
  proof (induction m arbitrary: n)
    case Nil
    then show ?case by simp
  next
    case (Cons x m)
    then obtain y n' where n: "n = y # n'" by (cases n) auto
    have "x = y"
    proof (rule ccontr)
      assume "x \<noteq> y"
      then have "x \<in> set n'" "y \<in> set m" using Cons.prems(1) n by auto
      then have "fst y < fst x" "fst x < fst y" using Cons.prems(2,3) n by auto
      then show False by simp
    qed
    moreover have "x \<notin> set m" "y \<notin> set n'" using Cons.prems(2,3) n by auto
    ultimately have "set m = set n'" using Cons.prems(1) n by auto
    then have "m = n'" using Cons.prems(2,3) Cons.IH [of n'] n by simp
    then show ?case using \<open>x = y\<close> n by simp
  qed
qed

lemma set_map_erase: "fst ` set (map_erase k m) \<subseteq> fst ` set m"
  by (induction k m rule: map_erase.induct) auto

lemma map_inv_erase: "map_inv m \<Longrightarrow> map_inv (map_erase k m)"
  by (induction k m rule: map_erase.induct)
    (use set_map_erase in \<open>fastforce simp: map_inv_def map_keys_def\<close>)+

lemma map_find_erase: "map_inv m \<Longrightarrow> map_find (map_erase k m) k' = (if k' = k then None else map_find m k')"
proof (induction k m rule: map_erase.induct)
  case (1 k)
  then show ?case by simp
next
  case (2 k a w m)
  then have "a \<notin> fst ` set m" by (force simp: map_inv_def map_keys_def)
  then have "map_find m a = None" by (simp add: map_find_None_iff)
  with 2 show ?case by (auto simp: map_inv_def map_keys_def)
qed

text \<open>\<open>m[k].push_back(x)\<close>, and the loop form that looks the key up first.\<close>

definition map_push :: "'k::linorder \<Rightarrow> 'v \<Rightarrow> ('k, 'v list) std_map \<Rightarrow> ('k, 'v list) std_map" where
  "map_push k x m = (case map_find m k of None \<Rightarrow> map_set k [x] m | Some xs \<Rightarrow> map_set k (xs @ [x]) m)"

lemma map_inv_push [simp]: "map_inv m \<Longrightarrow> map_inv (map_push k x m)"
  by (simp add: map_push_def map_inv_set split: option.split)

lemma map_find_push:
  "map_inv m \<Longrightarrow> map_find (map_push k x m) k' =
     (if k' = k then Some ((case map_find m k of None \<Rightarrow> [] | Some xs \<Rightarrow> xs) @ [x]) else map_find m k')"
  by (simp add: map_push_def map_find_set split: option.split)

lemma map_find_push_fold:
  assumes "map_inv m"
  shows "map_find (fold (\<lambda>x. map_push (key x) x) xs m) k =
     (case filter (\<lambda>x. key x = k) xs of
        [] \<Rightarrow> map_find m k
      | ys \<Rightarrow> Some ((case map_find m k of None \<Rightarrow> [] | Some zs \<Rightarrow> zs) @ ys))"
  using assms
proof (induction xs arbitrary: m)
  case Nil
  then show ?case by simp
next
  case (Cons x xs)
  then show ?case
    by (auto simp: map_find_push split: list.splits option.splits)
qed

lemma map_inv_push_fold: "map_inv m \<Longrightarrow> map_inv (fold (\<lambda>x. map_push (key x) x) xs m)"
  by (induction xs arbitrary: m) simp_all

end
