(* ===== verification/Rm_Map.thy ===== *)
theory Rm_Map
  imports Std_Map
begin

text \<open>
  Resource managers: the configuration records of \<open>sdbg_rm_map.hxx\<close>, the methods of
  \<open>sdbg_rm_map.cxx\<close> that fill them from \<open>rm_info.conf\<close> and the per-manager files, the launch
  string expansion, and the choice of the manager whose signature matches the launcher.
  Files are their contents; \<open>access\<close>, \<open>getenv\<close>, the symbol tables and the boost tokenizer are
  arguments.
\<close>

section \<open>Data\<close>

datatype rm_catalogue_e =
    RC_mchecker_rm | RC_slurm | RC_bglrm | RC_bgprm | RC_bgqrm | RC_bgq_slurm | RC_bgrm | RC_alps
  | RC_cray | RC_orte | RC_mpiexec_hydra | RC_gupc | RC_flux | RC_none

datatype mpir_catalogue_e = standard | x_cray | x_coloc | x_fifo | x_coloc_fifo | x_none
datatype id_method_e = by_symbol | by_pid | unknown_method
datatype id_from_e = from_launcher | from_unknown_source
datatype id_datatype_e = cstring | integer32 | integer64 | unknown_type
datatype launch_method_e = mpir_coloc | launch_helper_method | launch_method_unknown

text \<open>The union \<open>id\<close>: null, a process id or a symbol name.\<close>

datatype id_u = Null_id | Process_id int | Symbol_name string

record rm_id_t =
  id_from :: id_from_e
  id_method :: id_method_e
  id_dtype :: id_datatype_e
  id_val :: id_u

definition rm_id0 :: rm_id_t where
  "rm_id0 = \<lparr>id_from = from_unknown_source, id_method = unknown_method, id_dtype = unknown_type, id_val = Null_id\<rparr>"

record launch_method_t =
  launch_method :: launch_method_e
  launcher_command :: string

record coloc_str_param_t =
  rm_daemon_path :: string
  rm_daemon_args :: "string list"
  rm_daemon_stub :: string
  nnodes :: int
  ndaemons :: int
  sharedsec :: "string option"
  randomid :: "string option"
  resourceid :: int
  hnfilename :: "string option"

definition coloc0 :: coloc_str_param_t where
  "coloc0 = \<lparr>rm_daemon_path = ''na'', rm_daemon_args = [], rm_daemon_stub = ''na'', nnodes = -1, ndaemons = -1,
     sharedsec = None, randomid = None, resourceid = -1, hnfilename = None\<rparr>"

record resource_manager_t =
  rm :: rm_catalogue_e
  mpir :: mpir_catalogue_e
  launchers :: "string list"
  launcher_ids :: "rm_id_t list"
  job_id :: rm_id_t
  launch_helper :: launch_method_t
  kill_signals :: "int list"
  fail_detection_supported :: bool
  launch_string :: string
  expanded_launch_string :: string
  has_launcher_so :: bool
  launcher_so_name :: string
  attach_fifo_path :: string

definition resource_manager0 :: resource_manager_t where
  "resource_manager0 = \<lparr>rm = RC_none, mpir = x_none, launchers = [], launcher_ids = [], job_id = rm_id0,
     launch_helper = \<lparr>launch_method = launch_method_unknown, launcher_command = ''na''\<rparr>, kill_signals = [],
     fail_detection_supported = False, launch_string = '''', expanded_launch_string = '''',
     has_launcher_so = False, launcher_so_name = '''', attach_fifo_path = ''''\<rparr>"

section \<open>Filling a resource manager\<close>

definition rm_type_of :: "string \<Rightarrow> rm_catalogue_e" where
  "rm_type_of v =
     (if v = ''alps'' then RC_alps else if v = ''bglrm'' then RC_bglrm
      else if v = ''bgprm'' then RC_bgprm else if v = ''bgqrm'' then RC_bgqrm
      else if v = ''bgq_slurm'' then RC_bgq_slurm else if v = ''cray'' then RC_cray
      else if v = ''modelchecker'' then RC_mchecker_rm else if v = ''openrte'' then RC_orte
      else if v = ''slurm'' then RC_slurm else if v = ''flux'' then RC_flux
      else if v = ''mpiexec_hydra'' then RC_mpiexec_hydra else if v = ''gupc'' then RC_gupc
      else RC_none)"

definition fill_rm_type :: "string \<Rightarrow> resource_manager_t \<Rightarrow> resource_manager_t" where
  "fill_rm_type v r = r\<lparr>rm := rm_type_of v\<rparr>"

definition fill_mpir_type :: "string \<Rightarrow> resource_manager_t \<Rightarrow> resource_manager_t" where
  "fill_mpir_type v r = r\<lparr>mpir :=
     (if v = ''STD'' then standard else if v = ''STD_CRAY'' then x_cray
      else if v = ''STD_COLOC'' then x_coloc else if v = ''STD_FIFO'' then x_fifo
      else if v = ''STD_COLOC_FIFO'' then x_coloc_fifo else x_none)\<rparr>"

definition fill_launchers :: "string list \<Rightarrow> resource_manager_t \<Rightarrow> resource_manager_t" where
  "fill_launchers vect r = (if vect \<noteq> [] then r\<lparr>launchers := vect\<rparr> else r)"

text \<open>A \<open>substr\<close> of a position that \<open>find_first_of\<close> returned never throws.\<close>

definition sub :: "string \<Rightarrow> nat \<Rightarrow> nat option \<Rightarrow> string" where
  "sub v pos n = the (substr v pos n)"

definition fill_id :: "rm_id_t \<Rightarrow> string \<Rightarrow> rm_id_t" where
  "fill_id target v =
     (let (key, meth, idn, dt) =
        (case find_first_of ''|'' v 0 of
           None \<Rightarrow> (''na'', ''na'', ''na'', ''na'')
         | Some ix \<Rightarrow>
           (let key = sub v 0 (Some ix) in
            case find_first_of ''|'' v (ix + 1) of
              None \<Rightarrow> (key, sub v (ix + 1) None, ''na'', ''na'')
            | Some ix2 \<Rightarrow>
              (let meth = sub v (ix + 1) (Some (ix2 - (ix + 1))) in
               case find_first_of ''|'' v (ix2 + 1) of
                 Some ix3 \<Rightarrow> (key, meth, sub v (ix2 + 1) (Some (ix3 - (ix2 + 1))), sub v (ix3 + 1) None)
               | None \<Rightarrow> (key, meth, sub v (ix2 + 1) None, ''na''))));
          target = target\<lparr>id_from := (if key = ''RM_launcher'' then from_launcher else from_unknown_source)\<rparr>
      in if meth = ''sym'' then
           target\<lparr>id_method := by_symbol, id_val := Symbol_name idn, id_dtype :=
             (if dt = ''string'' then cstring
              else if dt = ''int32'' \<or> dt = ''integer'' then integer32
              else if dt = ''int64'' then integer64
              else unknown_type)\<rparr>
         else if meth = ''pid'' then target\<lparr>id_method := by_pid, id_val := Process_id 0\<rparr>
         else target\<lparr>id_method := unknown_method\<rparr>)"

definition fill_job_id :: "string \<Rightarrow> resource_manager_t \<Rightarrow> resource_manager_t" where
  "fill_job_id v r = r\<lparr>job_id := fill_id (job_id r) v\<rparr>"

definition fill_launcher_id :: "string list \<Rightarrow> resource_manager_t \<Rightarrow> resource_manager_t" where
  "fill_launcher_id vect r = r\<lparr>launcher_ids := launcher_ids r @ map (fill_id rm_id0) vect\<rparr>"

definition fill_launcher_so :: "string \<Rightarrow> resource_manager_t \<Rightarrow> resource_manager_t" where
  "fill_launcher_so v r = r\<lparr>has_launcher_so := True, launcher_so_name := v\<rparr>"

definition resolve_signal :: "string \<Rightarrow> int" where
  "resolve_signal v = (if v = ''SIGINT'' then 2 else if v = ''SIGTERM'' then 15 else -1)"

text \<open>The second argument of \<open>substr\<close> is the loop's \<open>ix2\<close>, a position.\<close>

function kill_loop :: "string \<Rightarrow> nat \<Rightarrow> int list" where
  "kill_loop v ix =
     (case find_first_of ''|'' v ix of
        Some ix2 \<Rightarrow> resolve_signal (sub v ix (Some ix2)) # kill_loop v (ix2 + 1)
      | None \<Rightarrow> [resolve_signal (sub v ix None)])"
  by auto
termination
  by (relation "measure (\<lambda>(v, ix). length v - ix)") (auto dest: find_first_of_ge)

declare kill_loop.simps [simp del]

definition fill_kill_singals :: "string \<Rightarrow> resource_manager_t \<Rightarrow> resource_manager_t" where
  "fill_kill_singals v r = r\<lparr>kill_signals := kill_signals r @ kill_loop v 0\<rparr>"

definition fill_fail_detection :: "string \<Rightarrow> resource_manager_t \<Rightarrow> resource_manager_t" where
  "fill_fail_detection v r =
     (let r = r\<lparr>fail_detection_supported := False\<rparr> in
      if v = ''true'' then r\<lparr>fail_detection_supported := True\<rparr> else r)"

text \<open>\<open>readable\<close> is \<open>access(_, R_OK) >= 0\<close>; \<open>prefix\<close> is \<open>getenv("LMON_PREFIX")\<close>.\<close>

definition fill_launch_helper ::
  "(string \<Rightarrow> bool) \<Rightarrow> string option \<Rightarrow> string \<Rightarrow> resource_manager_t \<Rightarrow> resource_manager_t" where
  "fill_launch_helper readable prefix v r =
     (if v = ''mpir'' then r\<lparr>launch_helper := (launch_helper r)\<lparr>launch_method := mpir_coloc\<rparr>\<rparr>
      else
        (let v2 = (if \<not> readable v then
                     (case prefix of None \<Rightarrow> v
                      | Some pref \<Rightarrow> let p = pref @ ''/bin/'' @ v in if \<not> readable p then v else p)
                   else v)
         in r\<lparr>launch_helper := \<lparr>launch_method = launch_helper_method, launcher_command = v2\<rparr>\<rparr>))"

definition fill_launch_string :: "string \<Rightarrow> resource_manager_t \<Rightarrow> resource_manager_t" where
  "fill_launch_string v r = r\<lparr>launch_string := v\<rparr>"
definition fill_expanded_launch_string :: "string \<Rightarrow> resource_manager_t \<Rightarrow> resource_manager_t" where
  "fill_expanded_launch_string v r = r\<lparr>expanded_launch_string := v\<rparr>"
definition fill_attach_fifo_path :: "string \<Rightarrow> resource_manager_t \<Rightarrow> resource_manager_t" where
  "fill_attach_fifo_path v r = r\<lparr>attach_fifo_path := v\<rparr>"

section \<open>Configuration files\<close>

text \<open>
  The lines the \<open>getline\<close> loop processes: a line of \<open>PATH_MAX\<close> characters or more sets the
  fail bit and ends the loop, as does the end of the file after a newline. A line is then
  read as a C string.
\<close>

definition PATH_MAX :: nat where "PATH_MAX = 4096"

function conf_lines :: "string \<Rightarrow> string list" where
  "conf_lines s =
     (if s = [] then []
      else
        (let l = takeWhile (\<lambda>c. c \<noteq> CHR 0x0A) s; rest = dropWhile (\<lambda>c. c \<noteq> CHR 0x0A) s in
         if PATH_MAX \<le> length l then []
         else takeWhile (\<lambda>c. c \<noteq> CHR 0x00) l # (if rest = [] then [] else conf_lines (tl rest))))"
  by auto
termination
proof (relation "measure length")
  fix s x xa :: string
  assume a: "s \<noteq> []" "xa = dropWhile (\<lambda>c. c \<noteq> CHR 0x0A) s" "xa \<noteq> []"
  have "length xa \<le> length s" using a(2) length_dropWhile_le by simp
  moreover have "length (tl xa) < length xa" using a(3) by (cases xa) auto
  ultimately show "(tl xa, s) \<in> measure length" by simp
qed simp

declare conf_lines.simps [simp del]

text \<open>\<open>a_line[0]\<close>, which is NUL for the empty string.\<close>

definition char0 :: "string \<Rightarrow> char" where "char0 l = (case l of [] \<Rightarrow> CHR 0x00 | c # _ \<Rightarrow> c)"

text \<open>The loop of \<open>read_supported_rm_confs\<close> after the section was found, and before.\<close>

fun conf_section :: "string list \<Rightarrow> string list" where
  "conf_section [] = []"
| "conf_section (l # ls) =
     (if char0 l = CHR ''#'' \<or> char0 l = CHR 0x00 then conf_section ls
      else if char0 l = CHR ''['' then []
      else l # conf_section ls)"

fun find_section :: "string \<Rightarrow> string list \<Rightarrow> string list" where
  "find_section os [] = []"
| "find_section os (l # ls) =
     (if char0 l = CHR ''#'' \<or> char0 l = CHR 0x00 then find_section os ls
      else if char0 l = CHR ''['' then
        (case find_first_of '']'' l 1 of
           Some ix \<Rightarrow> if sub l 1 (Some (ix - 1)) = os then conf_section ls else find_section os ls
         | None \<Rightarrow> find_section os ls)
      else find_section os ls)"

text \<open>A file that cannot be opened is \<open>None\<close>. The names found are appended to the vector.\<close>

definition read_supported_rm_confs :: "string \<Rightarrow> string option \<Rightarrow> string list \<Rightarrow> bool \<times> string list" where
  "read_supported_rm_confs os file fnames =
     (case file of
        None \<Rightarrow> (False, fnames)
      | Some s \<Rightarrow> let new = find_section os (conf_lines s) in (new \<noteq> [], fnames @ new))"

type_synonym key_values = "(string, string list) std_map"

fun parse_lines :: "string list \<Rightarrow> key_values \<Rightarrow> bool \<Rightarrow> key_values \<times> bool" where
  "parse_lines [] kv err = (kv, err)"
| "parse_lines (l # ls) kv err =
     (if char0 l = CHR ''#'' \<or> char0 l = CHR 0x0A then parse_lines ls kv err
      else case find_first_of ''='' l 0 of
        Some equal \<Rightarrow> parse_lines ls (map_push (sub l 0 (Some equal)) (sub l (equal + 1) None) kv) err
      | None \<Rightarrow> parse_lines ls kv True)"

definition with_key :: "key_values \<Rightarrow> string \<Rightarrow> (string list \<Rightarrow> resource_manager_t \<Rightarrow> resource_manager_t) \<Rightarrow>
    resource_manager_t \<Rightarrow> resource_manager_t" where
  "with_key kv k f r = (case map_find kv k of None \<Rightarrow> r | Some vs \<Rightarrow> f vs r)"

definition fill_rm :: "(string \<Rightarrow> bool) \<Rightarrow> string option \<Rightarrow> key_values \<Rightarrow> resource_manager_t \<Rightarrow> resource_manager_t" where
  "fill_rm readable prefix kv r =
     (let r = with_key kv ''RM'' (\<lambda>vs. fill_rm_type (hd vs)) r;
          r = with_key kv ''RM_MPIR'' (\<lambda>vs. fill_mpir_type (hd vs)) r;
          r = with_key kv ''RM_launcher'' fill_launchers r;
          r = with_key kv ''RM_launcher_id'' fill_launcher_id r;
          r = with_key kv ''RM_launcher_so'' (\<lambda>vs. fill_launcher_so (hd vs)) r;
          r = with_key kv ''RM_jobid'' (\<lambda>vs. fill_job_id (hd vs)) r;
          r = with_key kv ''RM_signal_for_kill'' (\<lambda>vs. fill_kill_singals (hd vs)) r;
          r = with_key kv ''RM_fail_detection'' (\<lambda>vs. fill_fail_detection (hd vs)) r;
          r = with_key kv ''RM_launch_helper'' (\<lambda>vs. fill_launch_helper readable prefix (hd vs)) r;
          r = with_key kv ''RM_launch_str'' (\<lambda>vs. fill_launch_string (hd vs)) r
      in r)"

definition parse_and_fill_rm ::
  "(string \<Rightarrow> bool) \<Rightarrow> string option \<Rightarrow> string option \<Rightarrow> resource_manager_t \<Rightarrow> bool \<times> resource_manager_t" where
  "parse_and_fill_rm readable prefix file r =
     (let (kv, err) = (case file of None \<Rightarrow> ([], False) | Some s \<Rightarrow> parse_lines (conf_lines s) [] False)
      in (err, fill_rm readable prefix kv r))"

section \<open>The resource manager in use\<close>

record rc_rm_t =
  resource_manager :: resource_manager_t
  coloc_paramset :: coloc_str_param_t
  supported_rms :: "resource_manager_t list"

definition rc_rm0 :: rc_rm_t where
  "rc_rm0 = \<lparr>resource_manager = resource_manager0, coloc_paramset = coloc0, supported_rms = []\<rparr>"

text \<open>\<open>env\<close> is \<open>getenv\<close>, \<open>files\<close> the readable files, \<open>built_in\<close> the configured prefix.\<close>

definition rc_init ::
  "(string \<Rightarrow> bool) \<Rightarrow> (string \<Rightarrow> string option) \<Rightarrow> (string \<Rightarrow> string option) \<Rightarrow> string \<Rightarrow> string \<Rightarrow> rc_rm_t \<Rightarrow> bool \<times> rc_rm_t"
where
  "rc_init readable env files built_in os_isa_string c =
     (let config_dir = (case env ''LMON_PREFIX'' of
            Some pref \<Rightarrow> pref @ ''/etc/''
          | None \<Rightarrow> (case env ''LMON_RM_CONFIG_DIR'' of
                       Some pref \<Rightarrow> pref @ ''/''
                     | None \<Rightarrow> built_in @ ''/etc/''));
          rm_info_conf_path = config_dir @ ''rm_info.conf'';
          (found, fnames) = read_supported_rm_confs os_isa_string (files rm_info_conf_path) []
      in if \<not> found then (False, c)
         else if fnames = [] then (False, c)
         else (True, c\<lparr>supported_rms := supported_rms c @
                 map (\<lambda>f. snd (parse_and_fill_rm readable (env ''LMON_PREFIX'') (files (config_dir @ f)) resource_manager0))
                   fnames\<rparr>))"

definition set_paramset ::
  "int \<Rightarrow> int \<Rightarrow> string option \<Rightarrow> string option \<Rightarrow> int \<Rightarrow> string option \<Rightarrow> rc_rm_t \<Rightarrow> bool \<times> rc_rm_t" where
  "set_paramset n_nodes n_daemons secret ran_id resource_id host_file_name c =
     (if secret = None \<or> ran_id = None then (False, c)
      else
        (let p = (coloc_paramset c)\<lparr>nnodes := n_nodes, ndaemons := n_daemons, sharedsec := secret,
                    randomid := ran_id, resourceid := resource_id\<rparr>;
             p = (if host_file_name \<noteq> None then p\<lparr>hnfilename := host_file_name\<rparr> else p)
         in (True, c\<lparr>coloc_paramset := p\<rparr>)))"

text \<open>Streaming a null \<open>char *\<close> sets the bad bit and writes nothing.\<close>

definition stream_cstr :: "string option \<Rightarrow> string" where
  "stream_cstr p = (case p of None \<Rightarrow> [] | Some s \<Rightarrow> s)"

definition expand_a_letter :: "coloc_str_param_t \<Rightarrow> char \<Rightarrow> string \<times> bool" where
  "expand_a_letter p c =
     (if c = CHR ''b'' then (rm_daemon_stub p, False)
      else if c = CHR ''c'' then (stream_cstr (randomid p), False)
      else if c = CHR ''d'' then (rm_daemon_path p, False)
      else if c = CHR ''j'' then (show_int (resourceid p), False)
      else if c = CHR ''l'' then (stream_cstr (hnfilename p), False)
      else if c = CHR ''n'' then (show_int (nnodes p), False)
      else if c = CHR ''o'' then (concat (map (\<lambda>a. a @ '' '') (rm_daemon_args p)), True)
      else if c = CHR ''s'' then (stream_cstr (sharedsec p), False)
      else if c = CHR ''h'' then (''localhost'', False)
      else (''na'', False))"

definition launcher_prefix :: "(string \<Rightarrow> string option) \<Rightarrow> string \<Rightarrow> string \<Rightarrow> launch_method_t \<Rightarrow> string list" where
  "launcher_prefix env tvcmd sshcmd h =
     (if launch_method h \<noteq> launch_helper_method then []
      else if env ''LMON_DEBUG_BES'' \<noteq> None \<and> launcher_command h \<noteq> ''LMON_REMOTE_LOGIN'' then
        [tvcmd, launcher_command h, ''-a'']
      else if launcher_command h = ''LMON_REMOTE_LOGIN'' then
        [case env ''LMON_REMOTE_LOGIN'' of Some rmthd \<Rightarrow> rmthd | None \<Rightarrow> sshcmd]
      else [launcher_command h])"

function split_words :: "string \<Rightarrow> nat \<Rightarrow> string list" where
  "split_words s ix =
     (case find_first_of '' '' s ix of
        Some ix2 \<Rightarrow> sub s ix (Some (ix2 - ix)) # split_words s (ix2 + 1)
      | None \<Rightarrow> [sub s ix None])"
  by auto
termination
  by (relation "measure (\<lambda>(s, ix). length s - ix)") (auto dest: find_first_of_ge)

declare split_words.simps [simp del]

text \<open>One round of the loop over the tokens: what stands in the token's place afterwards.
  The tokens spliced in are behind the iterator and are not expanded again.\<close>

definition expand_token :: "(string \<Rightarrow> string list) \<Rightarrow> coloc_str_param_t \<Rightarrow> string \<Rightarrow> string list" where
  "expand_token tokenizer p tok =
     (case find_first_of ''%'' tok 0 of
        None \<Rightarrow> [tok]
      | Some ix \<Rightarrow>
        (if ix + 1 < length tok then
           (let (exp_substr, split_case) = expand_a_letter p (tok ! (ix + 1));
                tok = (if exp_substr \<noteq> ''na'' then take ix tok @ exp_substr @ drop (ix + 2) tok else tok)
            in if split_case then
                 (let sub_list = tokenizer tok in if 1 < length sub_list then sub_list else [tok])
               else [tok])
         else [tok]))"

definition expand_launch_string ::
  "(string \<Rightarrow> string list) \<Rightarrow> (string \<Rightarrow> string option) \<Rightarrow> string \<Rightarrow> string \<Rightarrow> rc_rm_t \<Rightarrow> string list \<times> string \<times> rc_rm_t"
where
  "expand_launch_string tokenizer env tvcmd sshcmd c =
     (let r = resource_manager c;
          tokens = launcher_prefix env tvcmd sshcmd (launch_helper r) @ split_words (launch_string r) 0;
          tokens = concat (map (expand_token tokenizer (coloc_paramset c)) tokens);
          tokens = filter (\<lambda>t. t \<noteq> []) tokens;
          expanded = concat (map (\<lambda>t. t @ '' '') tokens)
      in (tokens, expanded, c\<lparr>resource_manager := fill_expanded_launch_string expanded r\<rparr>))"

text \<open>The signals sent to the process, in order; \<open>None\<close> is the refusal.\<close>

definition graceful_rmkill :: "int \<Rightarrow> rc_rm_t \<Rightarrow> (int \<times> int) list option" where
  "graceful_rmkill p c = (if p < 0 then None else Some (map (\<lambda>s. (p, s)) (kill_signals (resource_manager c))))"

definition need_check_launcher_so :: "rc_rm_t \<Rightarrow> bool" where
  "need_check_launcher_so c = has_launcher_so (resource_manager c)"
definition is_modelchecker :: "rc_rm_t \<Rightarrow> bool" where
  "is_modelchecker c \<longleftrightarrow> rm (resource_manager c) = RC_mchecker_rm"
definition is_coloc_sup :: "rc_rm_t \<Rightarrow> bool" where
  "is_coloc_sup c \<longleftrightarrow> mpir (resource_manager c) = x_coloc \<or> mpir (resource_manager c) = x_coloc_fifo"
definition is_attfifo_sup :: "rc_rm_t \<Rightarrow> bool" where
  "is_attfifo_sup c \<longleftrightarrow> mpir (resource_manager c) = x_fifo \<or> mpir (resource_manager c) = x_coloc_fifo"
definition is_cont_on_att :: "rc_rm_t \<Rightarrow> bool" where
  "is_cont_on_att c \<longleftrightarrow> mpir (resource_manager c) = x_cray"
definition is_rid_sup :: "rc_rm_t \<Rightarrow> bool" where
  "is_rid_sup c \<longleftrightarrow> id_from (job_id (resource_manager c)) \<noteq> from_unknown_source"
definition is_fail_detect_sup :: "rc_rm_t \<Rightarrow> bool" where
  "is_fail_detect_sup c = fail_detection_supported (resource_manager c)"
definition is_rid_via_symbol :: "rc_rm_t \<Rightarrow> bool" where
  "is_rid_via_symbol c \<longleftrightarrow> id_method (job_id (resource_manager c)) = by_symbol"
definition is_rid_via_pid :: "rc_rm_t \<Rightarrow> bool" where
  "is_rid_via_pid c \<longleftrightarrow> id_method (job_id (resource_manager c)) = by_pid"
definition set_attach_fifo_path :: "string \<Rightarrow> rc_rm_t \<Rightarrow> rc_rm_t" where
  "set_attach_fifo_path v c = c\<lparr>resource_manager := fill_attach_fifo_path v (resource_manager c)\<rparr>"

text \<open>A symbol table is a lookup; a null table is \<open>None\<close>. The \<open>break\<close>s leave the
  \<open>switch\<close> only, so all launchers and ids are looked at.\<close>

definition id_matches :: "(string \<Rightarrow> bool) option \<Rightarrow> (string \<Rightarrow> bool) option \<Rightarrow> rm_id_t \<Rightarrow> bool" where
  "id_matches main_symtab rmso_symtab i \<longleftrightarrow>
     (case id_from i of
        from_launcher \<Rightarrow>
          (if id_method i = by_symbol then
             (case id_val i of
                Symbol_name sn \<Rightarrow> (case main_symtab of Some t \<Rightarrow> t sn | None \<Rightarrow> False) \<or>
                                  (case rmso_symtab of Some t \<Rightarrow> t sn | None \<Rightarrow> False)
              | _ \<Rightarrow> False)
           else False)
      | from_unknown_source \<Rightarrow> False)"

definition has_matching_signiture ::
  "string \<Rightarrow> (string \<Rightarrow> bool) option \<Rightarrow> (string \<Rightarrow> bool) option \<Rightarrow> resource_manager_t \<Rightarrow> bool" where
  "has_matching_signiture launcher_name main_symtab rmso_symtab r \<longleftrightarrow>
     list_ex (\<lambda>l. (launcher_name = l \<or> l = ''*'') \<and>
       list_ex (id_matches main_symtab rmso_symtab) (launcher_ids r)) (launchers r)"

definition init_rm_instance ::
  "string \<Rightarrow> string \<Rightarrow> string list \<Rightarrow> (string \<Rightarrow> bool) option \<Rightarrow> (string \<Rightarrow> bool) option \<Rightarrow> string \<Rightarrow> rc_rm_t \<Rightarrow> bool \<times> rc_rm_t"
where
  "init_rm_instance launcher_name tool_path tool_opts main_symtab rmso_symtab be_stub c =
     (let m = List.find (has_matching_signiture launcher_name main_symtab rmso_symtab) (supported_rms c);
          c = (case m of Some r \<Rightarrow> c\<lparr>resource_manager := r\<rparr> | None \<Rightarrow> c);
          p = (coloc_paramset c)\<lparr>rm_daemon_path := tool_path, rm_daemon_args := tool_opts, rm_daemon_stub := be_stub\<rparr>
      in (m \<noteq> None, c\<lparr>coloc_paramset := p\<rparr>))"

section \<open>Lemmas on the parsers\<close>

lemma sub_simps:
  "pos \<le> length v \<Longrightarrow> sub v pos (Some k) = take k (drop pos v)"
  "pos \<le> length v \<Longrightarrow> sub v pos None = drop pos v"
  by (simp_all add: sub_def substr_def)

lemma find_bar: "\<forall>c \<in> set xs. c \<noteq> b \<Longrightarrow> find_first_of [b] (pre @ xs @ b # ys) (length pre) = Some (length pre + length xs)"
  by (rule find_first_of_append) auto

lemma find_bar_None: "\<forall>c \<in> set xs. c \<noteq> b \<Longrightarrow> find_first_of [b] (pre @ xs) (length pre) = None"
  by (auto simp: find_first_of_None)

fun joined :: "char \<Rightarrow> string list \<Rightarrow> string" where
  "joined b [] = []"
| "joined b [t] = t"
| "joined b (t # ts) = t @ b # joined b ts"

lemma joined_Cons: "ts \<noteq> [] \<Longrightarrow> joined b (t # ts) = t @ b # joined b ts"
  by (cases ts) simp_all

lemma resolve_bar: "CHR ''|'' \<in> set v \<Longrightarrow> resolve_signal v = -1"
  by (auto simp: resolve_signal_def)

lemma kill_loop_joined:
  "ts \<noteq> [] \<Longrightarrow> \<forall>t \<in> set ts. \<forall>c \<in> set t. c \<noteq> CHR ''|'' \<Longrightarrow> pre \<noteq> [] \<Longrightarrow>
   kill_loop (pre @ joined CHR ''|'' ts) (length pre) = replicate (length ts - 1) (-1) @ [resolve_signal (last ts)]"
proof (induction ts arbitrary: pre)
  case Nil
  then show ?case by simp
next
  case (Cons t ts)
  show ?case
  proof (cases "ts = []")
    case True
    then show ?thesis
      using Cons.prems by (subst kill_loop.simps) (simp add: find_bar_None sub_simps)
  next
    case False
    let ?v = "pre @ joined CHR ''|'' (t # ts)"
    have v: "?v = pre @ t @ CHR ''|'' # joined CHR ''|'' ts" using joined_Cons [OF False] by simp
    have f: "find_first_of ''|'' ?v (length pre) = Some (length pre + length t)"
      unfolding v by (rule find_bar) (use Cons.prems in simp)
    have "CHR ''|'' \<in> set (sub ?v (length pre) (Some (length pre + length t)))"
      using Cons.prems(3) unfolding v by (cases pre) (simp_all add: sub_simps)
    then have "resolve_signal (sub ?v (length pre) (Some (length pre + length t))) = -1" by (rule resolve_bar)
    moreover have "kill_loop ?v (length pre + length t + 1) = replicate (length ts - 1) (-1) @ [resolve_signal (last ts)]"
      using Cons.IH [OF False, of "pre @ t @ ''|''"] Cons.prems v by simp
    ultimately show ?thesis using f False by (subst kill_loop.simps) (cases ts; simp)
  qed
qed

lemma kill_loop_joined0:
  assumes "\<forall>t \<in> set (t # ts). \<forall>c \<in> set t. c \<noteq> CHR ''|''" and "ts \<noteq> []"
  shows "kill_loop (joined CHR ''|'' (t # ts)) 0 =
     resolve_signal t # replicate (length ts - 1) (-1) @ [resolve_signal (last ts)]"
proof -
  let ?v = "joined CHR ''|'' (t # ts)"
  have v: "?v = [] @ t @ CHR ''|'' # joined CHR ''|'' ts" using joined_Cons [OF assms(2)] by simp
  have "find_first_of ''|'' ?v 0 = Some (length t)"
    unfolding v using find_bar [of t "CHR ''|''" "[]"] assms(1) by simp
  moreover have "sub ?v 0 (Some (length t)) = t" unfolding v by (simp add: sub_simps)
  moreover have "kill_loop ?v (length t + 1) = replicate (length ts - 1) (-1) @ [resolve_signal (last ts)]"
    using kill_loop_joined [OF assms(2), of "t @ ''|''"] assms(1) v by simp
  ultimately show ?thesis by (subst kill_loop.simps) simp
qed

text \<open>A file made of lines, each ended by a newline.\<close>

definition unlines :: "string list \<Rightarrow> string" where "unlines ls = concat (map (\<lambda>l. l @ [CHR 0x0A]) ls)"

definition line_ok :: "string \<Rightarrow> bool" where
  "line_ok l \<longleftrightarrow> (\<forall>c \<in> set l. c \<noteq> CHR 0x0A \<and> c \<noteq> CHR 0x00) \<and> length l < PATH_MAX"

lemma conf_lines_unlines: "\<forall>l \<in> set ls. line_ok l \<Longrightarrow> conf_lines (unlines ls) = ls"
proof (induction ls)
  case Nil
  then show ?case by (simp add: unlines_def conf_lines.simps)
next
  case (Cons l ls)
  have l: "takeWhile (\<lambda>c. c \<noteq> CHR 0x0A) (unlines (l # ls)) = l"
    "dropWhile (\<lambda>c. c \<noteq> CHR 0x0A) (unlines (l # ls)) = CHR 0x0A # unlines ls"
    using Cons.prems by (simp_all add: unlines_def line_ok_def takeWhile_append2 dropWhile_append2)
  moreover have "takeWhile (\<lambda>c. c \<noteq> CHR 0x00) l = l" using Cons.prems by (simp add: line_ok_def)
  moreover have "unlines (l # ls) \<noteq> []" by (simp add: unlines_def)
  ultimately show ?case
    using Cons by (subst conf_lines.simps) (simp add: line_ok_def)
qed

lemma parse_lines_result:
  "map_inv kv \<Longrightarrow> parse_lines ls kv err = (kv', err') \<Longrightarrow>
   map_inv kv' \<and> (err' \<longleftrightarrow> err \<or> (\<exists>l \<in> set ls. char0 l \<noteq> CHR ''#'' \<and> char0 l \<noteq> CHR 0x0A \<and> CHR ''='' \<notin> set l)) \<and>
   (\<forall>k. map_find kv' k =
     (case (case map_find kv k of None \<Rightarrow> [] | Some vs \<Rightarrow> vs) @
           map (\<lambda>l. tl (dropWhile (\<lambda>c. c \<noteq> CHR ''='') l))
             (filter (\<lambda>l. char0 l \<noteq> CHR ''#'' \<and> char0 l \<noteq> CHR 0x0A \<and> CHR ''='' \<in> set l \<and> takeWhile (\<lambda>c. c \<noteq> CHR ''='') l = k) ls)
      of [] \<Rightarrow> map_find kv k | vs \<Rightarrow> Some vs))"
proof (induction ls kv err rule: parse_lines.induct)
  case (1 kv err)
  then show ?case by (auto split: option.split list.split)
next
  case (2 l ls kv err)
  show ?case
  proof (cases "char0 l = CHR ''#'' \<or> char0 l = CHR 0x0A")
    case True
    then show ?thesis using 2 by auto
  next
    case False
    show ?thesis
    proof (cases "CHR ''='' \<in> set l")
      case True
      then obtain a b where l: "l = a @ CHR ''='' # b" "CHR ''='' \<notin> set a" by (metis split_list_first)
      then have f: "find_first_of ''='' l 0 = Some (length a)"
        using find_bar [of a "CHR ''=''" "[]" b] by auto
      have na: "\<forall>c \<in> set a. c \<noteq> CHR ''=''" using l(2) by auto
      have tw: "takeWhile (\<lambda>c. c \<noteq> CHR ''='') l = a" "dropWhile (\<lambda>c. c \<noteq> CHR ''='') l = CHR ''='' # b"
        using l(1) na by (simp_all add: takeWhile_append2 dropWhile_append2)
      let ?kv = "map_push a b kv"
      have s: "sub l 0 (Some (length a)) = a" "sub l (length a + 1) None = b"
        by (simp_all add: l(1) sub_simps)
      have pl: "parse_lines ls ?kv err = (kv', err')"
        using "2.prems"(2) False f s by simp
      have inv: "map_inv ?kv" using "2.prems"(1) by simp
      have "map_inv kv' \<and> (err' \<longleftrightarrow> err \<or> (\<exists>l \<in> set ls. char0 l \<noteq> CHR ''#'' \<and> char0 l \<noteq> CHR 0x0A \<and> CHR ''='' \<notin> set l)) \<and>
         (\<forall>k. map_find kv' k =
           (case (case map_find ?kv k of None \<Rightarrow> [] | Some vs \<Rightarrow> vs) @
               map (\<lambda>l. tl (dropWhile (\<lambda>c. c \<noteq> CHR ''='') l))
                 (filter (\<lambda>l. char0 l \<noteq> CHR ''#'' \<and> char0 l \<noteq> CHR 0x0A \<and> CHR ''='' \<in> set l \<and> takeWhile (\<lambda>c. c \<noteq> CHR ''='') l = k) ls)
           of [] \<Rightarrow> map_find ?kv k | vs \<Rightarrow> Some vs))"
        using "2.IH"(3) [OF False f, unfolded s, OF inv pl] .
      then show ?thesis
        using True False tw "2.prems"(1) by (auto simp: map_find_push split: option.splits list.splits)
    next
      case eq: False
      then have f: "find_first_of ''='' l 0 = None" by (auto simp: find_first_of_None)
      then show ?thesis using 2 False eq by auto
    qed
  qed
qed

lemma conf_section_body:
  "\<forall>l \<in> set body. char0 l \<noteq> CHR ''['' \<Longrightarrow> rest = [] \<or> char0 (hd rest) = CHR ''['' \<Longrightarrow>
   conf_section (body @ rest) = filter (\<lambda>l. char0 l \<noteq> CHR ''#'' \<and> char0 l \<noteq> CHR 0x00) body"
proof (induction body)
  case Nil
  then show ?case by (cases rest) auto
next
  case (Cons l body)
  then show ?case by auto
qed

text \<open>A line that is not the header of the platform \<open>os\<close>.\<close>

definition not_header :: "string \<Rightarrow> string \<Rightarrow> bool" where
  "not_header os l \<longleftrightarrow> char0 l \<noteq> CHR ''['' \<or> CHR '']'' \<notin> set (tl l) \<or> takeWhile (\<lambda>c. c \<noteq> CHR '']'') (tl l) \<noteq> os"

lemma not_header_sub:
  assumes "not_header os l" and f: "find_first_of '']'' l 1 = Some ix" and c: "char0 l = CHR ''[''"
  shows "sub l 1 (Some (ix - 1)) \<noteq> os"
proof -
  obtain r where l: "l = CHR ''['' # r" using c by (cases l) (auto simp: char0_def)
  have "CHR '']'' \<in> set r"
  proof (rule ccontr)
    assume "CHR '']'' \<notin> set r"
    then have "\<forall>c \<in> set r. c \<noteq> CHR '']''" by blast
    then have "find_first_of '']'' l 1 = None" by (simp add: l find_first_of_None)
    then show False using f by simp
  qed
  then obtain a b where r: "r = a @ CHR '']'' # b" "CHR '']'' \<notin> set a" by (metis split_list_first)
  then have na: "\<forall>c \<in> set a. c \<noteq> CHR '']''" by auto
  have "ix = 1 + length a" using f find_bar [OF na, of "''[''" b] l r by simp
  moreover have "takeWhile (\<lambda>c. c \<noteq> CHR '']'') r = a" using r(1) na by (simp add: takeWhile_append2)
  ultimately show ?thesis using assms(1) c l r by (simp add: sub_simps not_header_def)
qed

lemma find_section_skip:
  "\<forall>l \<in> set pre. not_header os l \<Longrightarrow> find_section os (pre @ ls) = find_section os ls"
  by (induction pre) (auto dest: not_header_sub split: option.split)

lemma find_section_header:
  assumes "\<forall>c \<in> set os. c \<noteq> CHR '']''"
  shows "find_section os ((CHR ''['' # os @ CHR '']'' # tail) # ls) = conf_section ls"
proof -
  let ?l = "CHR ''['' # os @ CHR '']'' # tail"
  have "find_first_of '']'' ?l 1 = Some (1 + length os)"
    using find_bar [OF assms, of "''[''" tail] by simp
  moreover have "sub ?l 1 (Some (length os)) = os" by (simp add: sub_simps)
  ultimately show ?thesis by (simp add: char0_def)
qed

section \<open>Properties\<close>

text \<open>C34: \<open>read_supported_rm_confs\<close> finds exactly the file names of the platform's section:
  for any file in which the first header naming the platform is followed by \<open>body\<close> and then
  by another section or the end, it appends the lines of \<open>body\<close> that are neither blank nor
  comments, and reports whether there were any.\<close>

theorem supported_confs_section:
  assumes "\<forall>l \<in> set (pre @ hdr # body @ rest). line_ok l" and "hdr = CHR ''['' # os @ CHR '']'' # tail"
    and "\<forall>c \<in> set os. c \<noteq> CHR '']''" and "\<forall>l \<in> set pre. not_header os l"
    and "\<forall>l \<in> set body. char0 l \<noteq> CHR ''[''" and "rest = [] \<or> char0 (hd rest) = CHR ''[''"
    and "names = filter (\<lambda>l. char0 l \<noteq> CHR ''#'' \<and> char0 l \<noteq> CHR 0x00) body"
  shows "read_supported_rm_confs os (Some (unlines (pre @ hdr # body @ rest))) fnames = (names \<noteq> [], fnames @ names)"
proof -
  have "find_section os (pre @ hdr # body @ rest) = names"
    unfolding find_section_skip [OF assms(4)] assms(2) find_section_header [OF assms(3)] assms(7)
    by (rule conf_section_body [OF assms(5,6)])
  then show ?thesis
    using conf_lines_unlines [OF assms(1)] by (simp add: read_supported_rm_confs_def)
qed

theorem supported_confs_section_witness:
  "read_supported_rm_confs ''linux-x86_64'' (Some (unlines ([''# known'', ''[linux-ppc]'', ''rm_x.conf''] @
     ''[linux-x86_64]'' # [''rm_slurm.conf'', [], ''rm_flux.conf''] @ [''[bgq]'']))) [] =
   ([''rm_slurm.conf'', ''rm_flux.conf''] \<noteq> [], [] @ [''rm_slurm.conf'', ''rm_flux.conf''])"
  by (rule supported_confs_section [where os = "''linux-x86_64''" and tail = "[]"])
    (simp_all add: line_ok_def PATH_MAX_def char0_def not_header_def)

text \<open>C35: \<open>parse_and_fill_rm\<close> files every \<open>key=value\<close> line under its key in order of
  appearance and fills the manager from them, the first value counting for single-valued
  keys; it reports an error exactly when a line that is not a comment has no \<open>=\<close>, which a
  blank line also is.\<close>

theorem parse_rm_conf:
  assumes "\<forall>l \<in> set ls. line_ok l"
    and "parse_and_fill_rm readable prefix (Some (unlines ls)) r = (err, r')"
  shows "(err \<longleftrightarrow> (\<exists>l \<in> set ls. char0 l \<noteq> CHR ''#'' \<and> CHR ''='' \<notin> set l)) \<and>
    (\<exists>kv. r' = fill_rm readable prefix kv r \<and>
       (\<forall>k. map_find kv k =
         (case map (\<lambda>l. tl (dropWhile (\<lambda>c. c \<noteq> CHR ''='') l))
            (filter (\<lambda>l. char0 l \<noteq> CHR ''#'' \<and> CHR ''='' \<in> set l \<and> takeWhile (\<lambda>c. c \<noteq> CHR ''='') l = k) ls)
          of [] \<Rightarrow> None | vs \<Rightarrow> Some vs)))"
proof -
  obtain kv e where p: "parse_lines ls [] False = (kv, e)" by (cases "parse_lines ls [] False")
  have nl: "char0 l \<noteq> CHR 0x0A" if "l \<in> set ls" for l
    using assms(1) that by (cases l) (auto simp: char0_def line_ok_def)
  have f: "filter (\<lambda>l. char0 l \<noteq> CHR ''#'' \<and> char0 l \<noteq> CHR 0x0A \<and> CHR ''='' \<in> set l \<and> takeWhile (\<lambda>c. c \<noteq> CHR ''='') l = k) ls =
      filter (\<lambda>l. char0 l \<noteq> CHR ''#'' \<and> CHR ''='' \<in> set l \<and> takeWhile (\<lambda>c. c \<noteq> CHR ''='') l = k) ls" for k
    using nl by (intro filter_cong) auto
  have e: "err = e" "r' = fill_rm readable prefix kv r"
    using assms(2) p conf_lines_unlines [OF assms(1)] by (auto simp: parse_and_fill_rm_def)
  have r: "e \<longleftrightarrow> (\<exists>l \<in> set ls. char0 l \<noteq> CHR ''#'' \<and> char0 l \<noteq> CHR 0x0A \<and> CHR ''='' \<notin> set l)"
    "\<And>k. map_find kv k = (case map (\<lambda>l. tl (dropWhile (\<lambda>c. c \<noteq> CHR ''='') l))
            (filter (\<lambda>l. char0 l \<noteq> CHR ''#'' \<and> char0 l \<noteq> CHR 0x0A \<and> CHR ''='' \<in> set l \<and> takeWhile (\<lambda>c. c \<noteq> CHR ''='') l = k) ls)
          of [] \<Rightarrow> None | vs \<Rightarrow> Some vs)"
    using parse_lines_result [OF smap.inv_empty p, unfolded smap.find_empty option.case append_Nil] by simp_all
  show ?thesis using r nl unfolding f e by blast
qed

theorem parse_rm_conf_witness:
  "\<exists>r'. parse_and_fill_rm (\<lambda>_. True) None (Some (unlines [''RM=slurm'', [], ''RM=flux''])) resource_manager0 = (True, r')"
proof -
  obtain err r' where p: "parse_and_fill_rm (\<lambda>_. True) None (Some (unlines [''RM=slurm'', [], ''RM=flux''])) resource_manager0 = (err, r')"
    by (cases "parse_and_fill_rm (\<lambda>_. True) None (Some (unlines [''RM=slurm'', [], ''RM=flux''])) resource_manager0")
  have ok: "\<forall>l \<in> set [''RM=slurm'', [], ''RM=flux'']. line_ok l" by (simp add: line_ok_def PATH_MAX_def)
  have "err = True" using conjunct1 [OF parse_rm_conf [OF ok p]] by (simp add: char0_def)
  then show ?thesis using p by blast
qed

text \<open>C33: \<open>fill_kill_singals\<close> resolves the first and the last of the listed signals, but every
  signal between them becomes -1, since the loop passes the end position to \<open>substr\<close> as a
  length. Lists of one or two signals are read correctly.\<close>

theorem kill_signals_parsed:
  assumes "\<forall>t \<in> set (t1 # ts). \<forall>c \<in> set t. c \<noteq> CHR ''|''"
  shows "kill_signals (fill_kill_singals (joined CHR ''|'' (t1 # ts)) r) = kill_signals r @ resolve_signal t1 #
     (if ts = [] then [] else replicate (length ts - 1) (-1) @ [resolve_signal (last ts)])"
proof (cases "ts = []")
  case True
  have "find_first_of ''|'' t1 0 = None" using find_bar_None [of t1 "CHR ''|''" "[]"] assms by simp
  then show ?thesis using True by (subst fill_kill_singals_def, subst kill_loop.simps) (simp add: sub_simps)
next
  case False
  then show ?thesis using kill_loop_joined0 [OF assms] by (simp add: fill_kill_singals_def)
qed

theorem kill_signals_parsed_witness:
  "kill_signals (fill_kill_singals (joined CHR ''|'' [''SIGINT'', ''SIGTERM'', ''SIGTERM'']) resource_manager0) = [2, -1, 15]"
  using kill_signals_parsed [of "''SIGINT''" "[''SIGTERM'', ''SIGTERM'']" resource_manager0]
  by (simp add: resolve_signal_def resource_manager0_def)

text \<open>C34: \<open>fill_id\<close> takes the four \<open>|\<close>-separated fields of a launcher or job id apart: the
  origin, the method, the symbol and its type; a method other than \<open>sym\<close> or \<open>pid\<close> leaves
  the type and the union as they were.\<close>

theorem fill_id_parsed:
  assumes "\<forall>s \<in> {key, meth, idn}. \<forall>c \<in> set s. c \<noteq> CHR ''|''"
  shows "fill_id t (key @ CHR ''|'' # meth @ CHR ''|'' # idn @ CHR ''|'' # dt) =
    t\<lparr>id_from := (if key = ''RM_launcher'' then from_launcher else from_unknown_source),
      id_method := (if meth = ''sym'' then by_symbol else if meth = ''pid'' then by_pid else unknown_method),
      id_dtype := (if meth = ''sym'' then
          (if dt = ''string'' then cstring else if dt = ''int32'' \<or> dt = ''integer'' then integer32
           else if dt = ''int64'' then integer64 else unknown_type)
        else id_dtype t),
      id_val := (if meth = ''sym'' then Symbol_name idn else if meth = ''pid'' then Process_id 0 else id_val t)\<rparr>"
proof -
  let ?v = "key @ CHR ''|'' # meth @ CHR ''|'' # idn @ CHR ''|'' # dt"
  let ?b = "CHR ''|''"
  have "find_first_of [?b] ?v 0 = Some (length key)"
    using find_bar [of key ?b "[]" "meth @ ?b # idn @ ?b # dt"] assms by simp
  moreover have "find_first_of [?b] ?v (length key + 1) = Some (length key + 1 + length meth)"
    using find_bar [of meth ?b "key @ [?b]" "idn @ ?b # dt"] assms by simp
  moreover have "find_first_of [?b] ?v (length key + 1 + length meth + 1) = Some (length key + 1 + length meth + 1 + length idn)"
    using find_bar [of idn ?b "key @ ?b # meth @ [?b]" dt] assms by simp
  moreover have "sub ?v 0 (Some (length key)) = key" by (simp add: sub_simps)
  moreover have "sub ?v (length key + 1) (Some (length key + 1 + length meth - (length key + 1))) = meth"
    by (simp add: sub_simps)
  moreover have "sub ?v (length key + 1 + length meth + 1)
      (Some (length key + 1 + length meth + 1 + length idn - (length key + 1 + length meth + 1))) = idn"
    by (simp add: sub_simps)
  moreover have "sub ?v (length key + 1 + length meth + 1 + length idn + 1) None = dt"
  proof -
    have "sub (p @ dt) (length p) None = dt" for p by (simp add: sub_simps)
    from this [of "key @ ?b # meth @ ?b # idn @ [?b]"] show ?thesis by (simp add: add.assoc)
  qed
  ultimately show ?thesis
    unfolding fill_id_def Let_def by (simp only: option.case prod.case) (cases t, simp)
qed

theorem fill_id_parsed_witness:
  "fill_id rm_id0 (''RM_launcher'' @ CHR ''|'' # ''sym'' @ CHR ''|'' # ''totalview_jobid'' @ CHR ''|'' # ''string'') =
     \<lparr>id_from = from_launcher, id_method = by_symbol, id_dtype = cstring, id_val = Symbol_name ''totalview_jobid''\<rparr>"
  using fill_id_parsed [of "''RM_launcher''" "''sym''" "''totalview_jobid''" rm_id0 "''string''"]
  by (simp add: rm_id0_def)

lemma split_words_joined:
  "ws \<noteq> [] \<Longrightarrow> \<forall>w \<in> set ws. \<forall>c \<in> set w. c \<noteq> CHR '' '' \<Longrightarrow>
   split_words (pre @ joined CHR '' '' ws) (length pre) = ws"
proof (induction ws arbitrary: pre)
  case Nil
  then show ?case by simp
next
  case (Cons w ws)
  show ?case
  proof (cases "ws = []")
    case True
    then show ?thesis using Cons.prems by (subst split_words.simps) (simp add: find_bar_None sub_simps)
  next
    case False
    let ?v = "pre @ joined CHR '' '' (w # ws)"
    have v: "?v = pre @ w @ CHR '' '' # joined CHR '' '' ws" using joined_Cons [OF False] by simp
    have f: "find_first_of '' '' ?v (length pre) = Some (length pre + length w)"
      unfolding v by (rule find_bar) (use Cons.prems in simp)
    have "split_words ?v (length pre + length w + 1) = ws"
      using Cons.IH [OF False, of "pre @ w @ '' ''"] Cons.prems v by simp
    then show ?thesis using f v by (subst split_words.simps) (simp add: sub_simps)
  qed
qed

text \<open>What a token becomes that is a plain word or a single placeholder.\<close>

definition subst_word :: "coloc_str_param_t \<Rightarrow> string \<Rightarrow> string" where
  "subst_word p w =
     (if length w = 2 \<and> hd w = CHR ''%'' then
        let e = fst (expand_a_letter p (w ! 1)) in if e = ''na'' then w else e
      else w)"

definition simple_word :: "string \<Rightarrow> bool" where
  "simple_word w \<longleftrightarrow> (\<forall>c \<in> set w. c \<noteq> CHR ''%'') \<or> (\<exists>c. w = [CHR ''%'', c] \<and> c \<noteq> CHR ''o'')"

lemma expand_simple_word:
  assumes "simple_word w"
  shows "expand_token tokenizer p w = [subst_word p w]"
proof (cases "\<exists>c. w = [CHR ''%'', c] \<and> c \<noteq> CHR ''o''")
  case True
  then obtain c where w: "w = [CHR ''%'', c]" "c \<noteq> CHR ''o''" by blast
  have "find_first_of ''%'' w 0 = Some 0" by (simp add: w(1) find_first_of_def)
  moreover have "\<not> snd (expand_a_letter p c)" using w(2) by (simp add: expand_a_letter_def)
  ultimately show ?thesis
    by (cases "expand_a_letter p c") (simp add: expand_token_def subst_word_def w(1))
next
  case False
  then have "\<forall>c \<in> set w. c \<noteq> CHR ''%''" using assms by (auto simp: simple_word_def)
  then have "find_first_of ''%'' w 0 = None" by (simp add: find_first_of_None)
  moreover have "hd w \<noteq> CHR ''%''" if "length w = 2"
    using \<open>\<forall>c \<in> set w. c \<noteq> CHR ''%''\<close> that by (cases w) auto
  ultimately have "find_first_of ''%'' w 0 = None" "subst_word p w = w"
    by (auto simp: subst_word_def)
  then show ?thesis by (simp add: expand_token_def)
qed

text \<open>C39: Expanding a launch string of plain words and single placeholders (\<open>%o\<close> apart) gives
  the launch helper's words, then each word or the value of its placeholder, without the
  empty ones; the manager records the same tokens, each followed by a blank.\<close>

theorem launch_string_expanded:
  assumes "launch_string (resource_manager c) = joined CHR '' '' ws" and "ws \<noteq> []"
    and "\<forall>w \<in> set ws. simple_word w \<and> CHR '' '' \<notin> set w"
    and "expand_launch_string tokenizer env tvcmd sshcmd c = (tokens, expanded, c')"
  shows "tokens = filter (\<lambda>t. t \<noteq> []) (concat (map (expand_token tokenizer (coloc_paramset c))
       (launcher_prefix env tvcmd sshcmd (launch_helper (resource_manager c)))) @
       map (subst_word (coloc_paramset c)) ws) \<and>
     expanded = concat (map (\<lambda>t. t @ '' '') tokens) \<and>
     expanded_launch_string (resource_manager c') = expanded"
proof -
  have "\<forall>w \<in> set ws. \<forall>c \<in> set w. c \<noteq> CHR '' ''" using assms(3) by blast
  then have "split_words (launch_string (resource_manager c)) 0 = ws"
    using split_words_joined [OF assms(2), of "[]"] assms(1) by simp
  moreover have "concat (map (expand_token tokenizer p) ws) = map (subst_word p) ws" for p
    using assms(3) by (induction ws) (simp_all add: expand_simple_word)
  ultimately show ?thesis
    using assms(4) by (auto simp: expand_launch_string_def Let_def fill_expanded_launch_string_def)
qed

definition demo_rc :: rc_rm_t where
  "demo_rc = rc_rm0\<lparr>resource_manager := resource_manager0\<lparr>launch_string := ''srun -n %n  %d'',
     launch_helper := \<lparr>launch_method = mpir_coloc, launcher_command = ''na''\<rparr>\<rparr>,
     coloc_paramset := coloc0\<lparr>nnodes := 4, rm_daemon_path := ''/bin/be''\<rparr>\<rparr>"

theorem launch_string_expanded_witness:
  "\<exists>c'. expand_launch_string (\<lambda>s. [s]) (\<lambda>_. None) ''tv'' ''ssh'' demo_rc =
     ([''srun'', ''-n'', show_int 4, ''/bin/be''],
      concat (map (\<lambda>t. t @ '' '') [''srun'', ''-n'', show_int 4, ''/bin/be'']), c')"
proof -
  obtain tokens expanded c' where e: "expand_launch_string (\<lambda>s. [s]) (\<lambda>_. None) ''tv'' ''ssh'' demo_rc = (tokens, expanded, c')"
    by (cases "expand_launch_string (\<lambda>s. [s]) (\<lambda>_. None) ''tv'' ''ssh'' demo_rc")
  have l: "launch_string (resource_manager demo_rc) = joined CHR '' '' [''srun'', ''-n'', ''%n'', [], ''%d'']"
    by (simp add: demo_rc_def)
  have w: "\<forall>w \<in> set [''srun'', ''-n'', ''%n'', [], ''%d'']. simple_word w \<and> CHR '' '' \<notin> set w"
    by (simp add: simple_word_def)
  have "show_int 4 = ''4''" by code_simp
  then show ?thesis
    using launch_string_expanded [OF l _ w e] e
    by (auto simp: subst_word_def expand_a_letter_def demo_rc_def launcher_prefix_def coloc0_def)
qed

text \<open>C35: \<open>init_rm_instance\<close> picks the first supported manager whose signature matches: one that
  lists the launcher's name (or \<open>*\<close>) and identifies itself by a launcher symbol that the main
  image or the manager's library defines; it reports whether there was one, and without one
  the manager in use does not change. The tool's path and options are stored either way.\<close>

theorem rm_instance_chosen:
  assumes "init_rm_instance name path opts main so stub c = (found, c')"
  shows "(found \<longleftrightarrow> (\<exists>r \<in> set (supported_rms c). has_matching_signiture name main so r)) \<and>
    (if found then (\<exists>pre r post. supported_rms c = pre @ r # post \<and> has_matching_signiture name main so r \<and>
        (\<forall>q \<in> set pre. \<not> has_matching_signiture name main so q) \<and> resource_manager c' = r)
     else resource_manager c' = resource_manager c) \<and>
    rm_daemon_path (coloc_paramset c') = path \<and> rm_daemon_args (coloc_paramset c') = opts \<and>
    (\<forall>r. has_matching_signiture name main so r \<longleftrightarrow>
       (name \<in> set (launchers r) \<or> ''*'' \<in> set (launchers r)) \<and>
       (\<exists>i \<in> set (launcher_ids r). \<exists>sn. id_from i = from_launcher \<and> id_method i = by_symbol \<and> id_val i = Symbol_name sn \<and>
          ((\<exists>t. main = Some t \<and> t sn) \<or> (\<exists>t. so = Some t \<and> t sn))))"
proof -
  have m: "id_matches main so i \<longleftrightarrow> (\<exists>sn. id_from i = from_launcher \<and> id_method i = by_symbol \<and> id_val i = Symbol_name sn \<and>
          ((\<exists>t. main = Some t \<and> t sn) \<or> (\<exists>t. so = Some t \<and> t sn)))" for i
    by (cases "id_from i"; cases "id_val i"; cases main; cases so) (simp_all add: id_matches_def)
  have s: "has_matching_signiture name main so r \<longleftrightarrow>
       (name \<in> set (launchers r) \<or> ''*'' \<in> set (launchers r)) \<and>
       (\<exists>i \<in> set (launcher_ids r). \<exists>sn. id_from i = from_launcher \<and> id_method i = by_symbol \<and> id_val i = Symbol_name sn \<and>
          ((\<exists>t. main = Some t \<and> t sn) \<or> (\<exists>t. so = Some t \<and> t sn)))" for r
    unfolding has_matching_signiture_def list_ex_iff m by auto
  show ?thesis
  proof (cases "List.find (has_matching_signiture name main so) (supported_rms c)")
    case None
    then have "\<not> (\<exists>r \<in> set (supported_rms c). has_matching_signiture name main so r)"
      by (auto simp: find_None_iff)
    moreover have "found = False" "resource_manager c' = resource_manager c"
      "rm_daemon_path (coloc_paramset c') = path" "rm_daemon_args (coloc_paramset c') = opts"
      using assms None by (auto simp: init_rm_instance_def Let_def)
    ultimately show ?thesis using s by (intro conjI) simp_all
  next
    case (Some r)
    then obtain i where i: "i < length (supported_rms c)" "has_matching_signiture name main so (supported_rms c ! i)"
      "r = supported_rms c ! i" "\<forall>j<i. \<not> has_matching_signiture name main so (supported_rms c ! j)"
      using Some [unfolded find_Some_iff] by blast
    have pre: "\<forall>q \<in> set (take i (supported_rms c)). \<not> has_matching_signiture name main so q"
      using i(1,4) by (auto simp: in_set_conv_nth)
    have sp: "supported_rms c = take i (supported_rms c) @ r # drop (Suc i) (supported_rms c)"
      unfolding i(3) by (rule id_take_nth_drop [OF i(1)])
    have r: "has_matching_signiture name main so r" "r \<in> set (supported_rms c)" using i by simp_all
    have ex: "\<exists>pre r post. supported_rms c = pre @ r # post \<and> has_matching_signiture name main so r \<and>
        (\<forall>q \<in> set pre. \<not> has_matching_signiture name main so q) \<and> resource_manager c' = r"
      if "resource_manager c' = r" using sp r(1) pre that by blast
    have f: "found = True" "resource_manager c' = r"
      "rm_daemon_path (coloc_paramset c') = path" "rm_daemon_args (coloc_paramset c') = opts"
      using assms Some by (auto simp: init_rm_instance_def Let_def)
    have "\<exists>r \<in> set (supported_rms c). has_matching_signiture name main so r" using r by blast
    then show ?thesis using ex [OF f(2)] f(3,4) s unfolding f(1) if_True by (intro conjI) simp_all
  qed
qed

theorem rm_instance_chosen_witness:
  "\<exists>c'. init_rm_instance ''srun'' ''/bin/be'' [] (Some (\<lambda>s. s = ''MPIR_Breakpoint'')) None []
     (rc_rm0\<lparr>supported_rms := [resource_manager0, resource_manager0\<lparr>rm := RC_slurm, launchers := [''srun''],
        launcher_ids := [\<lparr>id_from = from_launcher, id_method = by_symbol, id_dtype = cstring, id_val = Symbol_name ''MPIR_Breakpoint''\<rparr>]\<rparr>]\<rparr>) =
     (True, c') \<and> (\<exists>pre r post. [resource_manager0, resource_manager0\<lparr>rm := RC_slurm, launchers := [''srun''],
        launcher_ids := [\<lparr>id_from = from_launcher, id_method = by_symbol, id_dtype = cstring, id_val = Symbol_name ''MPIR_Breakpoint''\<rparr>]\<rparr>] = pre @ r # post \<and>
        resource_manager c' = r)"
proof -
  let ?c = "rc_rm0\<lparr>supported_rms := [resource_manager0, resource_manager0\<lparr>rm := RC_slurm, launchers := [''srun''],
        launcher_ids := [\<lparr>id_from = from_launcher, id_method = by_symbol, id_dtype = cstring, id_val = Symbol_name ''MPIR_Breakpoint''\<rparr>]\<rparr>]\<rparr>"
  let ?t = "Some (\<lambda>s. s = ''MPIR_Breakpoint'')"
  obtain f c' where i: "init_rm_instance ''srun'' ''/bin/be'' [] ?t None [] ?c = (f, c')" by (meson surj_pair)
  have "has_matching_signiture ''srun'' ?t None (supported_rms ?c ! 1)"
    by (simp add: has_matching_signiture_def id_matches_def)
  then have "\<exists>r \<in> set (supported_rms ?c). has_matching_signiture ''srun'' ?t None r" by simp
  then have f: "f = True" using conjunct1 [OF rm_instance_chosen [OF i]] by simp
  have "if f then (\<exists>pre r post. supported_rms ?c = pre @ r # post \<and> has_matching_signiture ''srun'' ?t None r \<and>
        (\<forall>q \<in> set pre. \<not> has_matching_signiture ''srun'' ?t None q) \<and> resource_manager c' = r)
     else resource_manager c' = resource_manager ?c"
    using rm_instance_chosen [OF i] by blast
  then have "\<exists>pre r post. supported_rms ?c = pre @ r # post \<and> resource_manager c' = r" using f by auto
  then show ?thesis using i f by auto
qed

end
