(* ===== verification/Sdbg_Bp.thy ===== *)
theory Sdbg_Bp
  imports LMON_Prelude
begin

unbundle bit_operations_syntax

text \<open>
  Breakpoint objects: \<open>breakpoint_base_t\<close> of \<open>sdbg_base_bp.hxx\<close> and
  \<open>linux_breakpoint_t\<close> of \<open>sdbg_linux_bp.hxx\<close>, for x86-64, where addresses and
  instruction words are 64-bit, the trap is the byte \<open>0xcc\<close> and the program counter
  stands one byte past it.
\<close>

section \<open>Constants\<close>

definition T_TRAP_INSTRUCTION :: u64 where "T_TRAP_INSTRUCTION = 0xcc"
definition T_BLEND_MASK :: u64 where "T_BLEND_MASK = 0xffffffffffffff00"
definition IT_UNINIT_HEX :: u64 where "IT_UNINIT_HEX = 0xdeadbeefdeadbeef"
definition T_UNINIT_HEX :: u64 where "T_UNINIT_HEX = 0xdeadbeefdeadbeef"
definition NUM_BYTE_INCR_AFTER_SINGLESTEP :: u64 where "NUM_BYTE_INCR_AFTER_SINGLESTEP = 8"
definition NUM_BYTE_INCR_AFTER_TRAP :: u64 where "NUM_BYTE_INCR_AFTER_TRAP = 1"

section \<open>State\<close>

datatype bp_status_e = bp_unset | bp_set | bp_enabled | bp_disabled

record breakpoint =
  bp_status :: bp_status_e
  use_indirection :: bool
  address_at :: u64
  indirect_address_at :: u64
  return_addr :: u64
  trap_instruction :: u64
  orig_instruction :: u64
  blend_mask :: u64

definition linux_breakpoint0 :: breakpoint where
  "linux_breakpoint0 = \<lparr>bp_status = bp_unset, use_indirection = False,
     address_at = T_UNINIT_HEX, indirect_address_at = T_UNINIT_HEX, return_addr = T_UNINIT_HEX,
     trap_instruction = T_TRAP_INSTRUCTION, orig_instruction = IT_UNINIT_HEX,
     blend_mask = T_BLEND_MASK\<rparr>"

section \<open>Operations\<close>

definition is_enabled :: "breakpoint \<Rightarrow> bool" where "is_enabled b = (bp_status b = bp_enabled)"
definition is_disabled :: "breakpoint \<Rightarrow> bool" where "is_disabled b = (bp_status b = bp_disabled)"
definition is_set :: "breakpoint \<Rightarrow> bool" where "is_set b = (bp_status b = bp_set)"
definition is_unset :: "breakpoint \<Rightarrow> bool" where "is_unset b = (bp_status b = bp_unset)"

definition bp_do_enable :: "breakpoint \<Rightarrow> bool \<times> breakpoint" where
  "bp_do_enable b =
     (let b' = b\<lparr>bp_status := if bp_status b = bp_set \<or> bp_status b = bp_disabled then bp_enabled else bp_status b\<rparr>
      in (bp_status b' = bp_enabled, b'))"

definition bp_do_disable :: "breakpoint \<Rightarrow> bool \<times> breakpoint" where
  "bp_do_disable b =
     (let b' = b\<lparr>bp_status := if bp_status b = bp_enabled then bp_disabled else bp_status b\<rparr>
      in (bp_status b' = bp_disabled, b'))"

definition bp_do_set :: "breakpoint \<Rightarrow> bool \<times> breakpoint" where
  "bp_do_set b =
     (let b' = b\<lparr>bp_status := if bp_status b = bp_unset then bp_set else bp_status b\<rparr>
      in (bp_status b' = bp_set, b'))"

text \<open>The address the trap is written at.\<close>

definition bp_target :: "breakpoint \<Rightarrow> u64" where
  "bp_target b = (if use_indirection b then indirect_address_at b else address_at b)"

definition get_where_pc_would_be :: "breakpoint \<Rightarrow> u64" where
  "get_where_pc_would_be b = bp_target b + NUM_BYTE_INCR_AFTER_TRAP"

definition is_pc_part_of_bp_op :: "breakpoint \<Rightarrow> u64 \<Rightarrow> bool" where
  "is_pc_part_of_bp_op b pc =
     (if pc = get_where_pc_would_be b \<or>
         (pc > get_where_pc_would_be b \<and> pc \<le> bp_target b + NUM_BYTE_INCR_AFTER_SINGLESTEP)
      then True else pc = return_addr b)"

text \<open>The instruction word with the trap blended in, as \<open>enable_breakpoint\<close> computes it.\<close>

definition bp_blend :: "breakpoint \<Rightarrow> u64" where
  "bp_blend b = (orig_instruction b AND blend_mask b) OR trap_instruction b"

section \<open>Lemmas\<close>

lemmas bp_status_simps = is_enabled_def is_disabled_def is_set_def is_unset_def

lemma bp_do_enable_eq:
  "bp_do_enable b = (if is_set b \<or> is_disabled b then (True, b\<lparr>bp_status := bp_enabled\<rparr>)
                  else (is_enabled b, b))"
  by (auto simp: bp_do_enable_def bp_status_simps)

lemma bp_do_disable_eq:
  "bp_do_disable b = (if is_enabled b then (True, b\<lparr>bp_status := bp_disabled\<rparr>) else (is_disabled b, b))"
  by (auto simp: bp_do_disable_def bp_status_simps)

lemma linux_breakpoint0_sel [simp]:
  "bp_status linux_breakpoint0 = bp_unset" "use_indirection linux_breakpoint0 = False"
  "trap_instruction linux_breakpoint0 = T_TRAP_INSTRUCTION" "blend_mask linux_breakpoint0 = T_BLEND_MASK"
  by (simp_all add: linux_breakpoint0_def)

text \<open>A stop belongs to a breakpoint when the program counter is one to eight bytes
  past the address the trap was written at, or is the recorded return address; the address
  itself, where the trap has not been executed yet, does not count.\<close>

theorem bp_pc_window:
  assumes "unat (bp_target b) + 8 < 2 ^ 64"
  shows "is_pc_part_of_bp_op b pc \<longleftrightarrow>
    unat (bp_target b) < unat pc \<and> unat pc \<le> unat (bp_target b) + 8 \<or> pc = return_addr b"
proof -
  have 1: "unat (get_where_pc_would_be b) = unat (bp_target b) + 1"
    using assms by (simp add: get_where_pc_would_be_def NUM_BYTE_INCR_AFTER_TRAP_def unat_word_ariths)
  have 8: "unat (bp_target b + NUM_BYTE_INCR_AFTER_SINGLESTEP) = unat (bp_target b) + 8"
    using assms by (simp add: NUM_BYTE_INCR_AFTER_SINGLESTEP_def unat_word_ariths)
  show ?thesis
    unfolding is_pc_part_of_bp_op_def word_less_nat_alt word_le_nat_alt 1 8
    by (simp add: 1 word_unat_eq_iff) linarith
qed

theorem bp_pc_window_witness:
  "is_pc_part_of_bp_op (linux_breakpoint0\<lparr>address_at := 0x400000\<rparr>) 0x400001 \<and>
   \<not> is_pc_part_of_bp_op (linux_breakpoint0\<lparr>address_at := 0x400000\<rparr>) 0x400000"
  using bp_pc_window [of "linux_breakpoint0\<lparr>address_at := 0x400000\<rparr>" "0x400001"]
    bp_pc_window [of "linux_breakpoint0\<lparr>address_at := 0x400000\<rparr>" "0x400000"]
  by (simp add: bp_target_def linux_breakpoint0_def T_UNINIT_HEX_def)

end
