(* ===== verification/Sdbg_Symtab.thy ===== *)
theory Sdbg_Symtab
  imports Std_Map
begin

text \<open>
  The platform-independent symbol tables of \<open>sdbg_base_symtab.hxx\<close> and
  \<open>sdbg_base_symtab_impl.hxx\<close>: symbols, images, lookup by name and relocation. Reading
  the symbols out of the ELF file (\<open>linux_image_t\<close>) is not modelled; an image enters the
  model with its table.
\<close>

definition SYMTAB_UNINIT_ADDR :: u64 where "SYMTAB_UNINIT_ADDR = 0xdeadbeefdeadbeef"
definition SYMTAB_INIT_IMAGE_BASE :: u64 where "SYMTAB_INIT_IMAGE_BASE = SYMTAB_UNINIT_ADDR"
definition SYMTAB_UNINIT_STRING :: string where "SYMTAB_UNINIT_STRING = ''SDBG-NA''"

text \<open>The default constructor leaves the relocated address indeterminate: \<open>None\<close>. The
  flag \<open>sym_defined\<close> is what the virtual \<open>is_defined\<close> answers, false in the base class
  and for copies, which are sliced to the base class.\<close>

record symbol_base_t =
  sym_name :: string
  base_lib_name :: string
  raw_address :: u64
  relocated_address :: "u64 option"
  sym_defined :: bool

definition symbol_base0 :: symbol_base_t where
  "symbol_base0 = \<lparr>sym_name = SYMTAB_UNINIT_STRING, base_lib_name = SYMTAB_UNINIT_STRING,
     raw_address = SYMTAB_UNINIT_ADDR, relocated_address = None, sym_defined = False\<rparr>"

definition symbol_base1 :: "string \<Rightarrow> string \<Rightarrow> u64 \<Rightarrow> u64 \<Rightarrow> symbol_base_t" where
  "symbol_base1 n bln rd rla = \<lparr>sym_name = n, base_lib_name = bln, raw_address = rd,
     relocated_address = Some rla, sym_defined = False\<rparr>"

text \<open>\<open>operator!\<close>.\<close>

definition sym_null :: "symbol_base_t \<Rightarrow> bool" where
  "sym_null s = (sym_name s = SYMTAB_UNINIT_STRING)"

definition get_relocated_address :: "symbol_base_t \<Rightarrow> ('s, u64) act" where
  "get_relocated_address s = (case relocated_address s of None \<Rightarrow> throw Undefined_behaviour | Some a \<Rightarrow> ret a)"

record image_base_t =
  base_image_name :: string
  image_path :: string
  image_base_address :: u64
  linkage_symtab :: "(string, symbol_base_t) std_map"

definition image_base0 :: image_base_t where
  "image_base0 = \<lparr>base_image_name = SYMTAB_UNINIT_STRING, image_path = SYMTAB_UNINIT_STRING,
     image_base_address = SYMTAB_INIT_IMAGE_BASE, linkage_symtab = []\<rparr>"

text \<open>The \<open>basename\<close> of \<open>libgen.h\<close>.\<close>

definition basename :: "string \<Rightarrow> string" where
  "basename s =
     (if s = [] then ''.''
      else (case dropWhile (\<lambda>c. c = CHR ''/'') (rev s) of
              [] \<Rightarrow> ''/''
            | t \<Rightarrow> rev (takeWhile (\<lambda>c. c \<noteq> CHR ''/'') t)))"

definition image_base1 :: "string \<Rightarrow> image_base_t" where
  "image_base1 lib = image_base0\<lparr>image_path := lib, base_image_name := basename lib\<rparr>"

definition set_image_base_address :: "u64 \<Rightarrow> image_base_t \<Rightarrow> image_base_t" where
  "set_image_base_address ba im = im\<lparr>image_base_address := ba\<rparr>"

definition get_a_symbol :: "image_base_t \<Rightarrow> string \<Rightarrow> symbol_base_t" where
  "get_a_symbol im key = (case map_find (linkage_symtab im) key of Some s \<Rightarrow> s | None \<Rightarrow> symbol_base0)"

definition reloc_sym :: "u64 \<Rightarrow> symbol_base_t \<Rightarrow> symbol_base_t" where
  "reloc_sym base s = s\<lparr>relocated_address := Some (raw_address s + base)\<rparr>"

definition compute_reloc :: "image_base_t \<Rightarrow> exn + image_base_t" where
  "compute_reloc im =
     (if image_base_address im = SYMTAB_INIT_IMAGE_BASE then Inl Symtab_exn
      else Inr (im\<lparr>linkage_symtab :=
        map (\<lambda>(k, s). (k, reloc_sym (image_base_address im) s)) (linkage_symtab im)\<rparr>))"

text \<open>\<open>init(lib)\<close> sets the path and the name, then reads the file; \<open>read_linkage_symbols\<close>
  fills the table. What the file holds is the argument \<open>elf\<close>, \<open>None\<close> when reading throws.\<close>

definition init_lib :: "(string \<Rightarrow> (string, symbol_base_t) std_map option) \<Rightarrow> string \<Rightarrow>
    image_base_t \<Rightarrow> exn + image_base_t" where
  "init_lib elf lib im =
     (case elf lib of
        None \<Rightarrow> Inl Symtab_exn
      | Some tab \<Rightarrow> Inr (im\<lparr>image_path := lib, base_image_name := basename lib, linkage_symtab := tab\<rparr>))"

section \<open>Lemmas\<close>

lemma sym_null_base0 [simp]: "sym_null symbol_base0"
  by (simp add: sym_null_def symbol_base0_def)

lemma map_find_map_vals: "map_find (map (\<lambda>(k, s). (k, f s)) m) k = map_option f (map_find m k)"
  by (induction m k rule: map_find.induct) auto

lemma map_inv_map_vals: "map_inv (map (\<lambda>(k, s). (k, f s)) m) \<longleftrightarrow> map_inv m"
  by (simp add: map_inv_def map_keys_def comp_def case_prod_beta)

text \<open>\<open>compute_reloc\<close> refuses exactly the images whose base address is
  still the uninitialised marker; otherwise every symbol is found under its name at its
  raw address plus the base, wrapping at 64 bits, and a name without a symbol still gives
  the null symbol, whose address is indeterminate.\<close>

theorem relocated_lookup:
  "(compute_reloc (set_image_base_address ba im) = Inl Symtab_exn \<and> ba = SYMTAB_INIT_IMAGE_BASE) \<or>
   (ba \<noteq> SYMTAB_INIT_IMAGE_BASE \<and>
    (\<exists>im'. compute_reloc (set_image_base_address ba im) = Inr im' \<and> image_base_address im' = ba \<and>
       (\<forall>key. get_a_symbol im' key = (case map_find (linkage_symtab im) key of
          Some s \<Rightarrow> s\<lparr>relocated_address := Some (raw_address s + ba)\<rparr>
        | None \<Rightarrow> symbol_base0))))"
  by (auto simp: compute_reloc_def set_image_base_address_def get_a_symbol_def map_find_map_vals
      reloc_sym_def split: option.splits)

end
