(* ===== verification/Sdbg_Mach.thy ===== *)
theory Sdbg_Mach
  imports Sdbg_Bp Sdbg_Symtab
begin

text \<open>
  The machine layer: threads and the target process of \<open>sdbg_base_mach.hxx\<close>,
  \<open>sdbg_base_mach_impl.hxx\<close> and \<open>sdbg_linux_mach.cxx\<close>. The process is the record at
  the root of the engine's state; its methods are actions on any extension of it. The
  context stack and \<open>new_child_pid\<close> decide which light-weight process a tracer call
  addresses, so their balance is the property proved here.
\<close>

section \<open>Enumerations\<close>

datatype debug_event_e = EV_EXITED | EV_TERMINATED | EV_STOPPED | EV_NOCHILD | EV_INVALID
datatype eventing_entity_e = EV_ENTITY_THREAD | EV_ENTITY_PROCESS | EV_ENTITY_NONE
datatype lwp_state_e = LMON_RM_CREATED | LMON_RM_RUNNING | LMON_RM_STOPPED | LMON_RM_EXITED
datatype pcont_req_reason =
    RM_BE_daemon_exited | RM_MW_daemon_exited | RM_JOB_exited | RM_JOB_mpir_aborting
  | FE_requested_detach | FE_requested_kill | FE_requested_shutdown_dmon | FE_disconnected
  | ENGINE_dying_wsignal | reserved_for_rent

definition THREAD_KEY_INVALID :: int where "THREAD_KEY_INVALID = -1"

text \<open>\<open>signum\<close> and \<open>exitcode\<close> share a union; members the constructor leaves
  indeterminate are \<open>None\<close>.\<close>

record debug_event_t =
  de_ev :: debug_event_e
  de_en :: "eventing_entity_e option"
  de_u :: int
  de_rawstatus :: "int option"
  de_id :: "int option"

definition debug_event0 :: debug_event_t where
  "debug_event0 = \<lparr>de_ev = EV_INVALID, de_en = None, de_u = -1, de_rawstatus = None, de_id = None\<rparr>"

section \<open>Symbols of the launcher\<close>

definition LAUNCH_BREAKPOINT :: string where "LAUNCH_BREAKPOINT = ''MPIR_Breakpoint''"
definition LAUNCH_BEING_DEBUG :: string where "LAUNCH_BEING_DEBUG = ''MPIR_being_debugged''"
definition LAUNCH_DEBUG_STATE :: string where "LAUNCH_DEBUG_STATE = ''MPIR_debug_state''"
definition LAUNCH_PROCTABLE :: string where "LAUNCH_PROCTABLE = ''MPIR_proctable''"
definition LAUNCH_PROCTABLE_SIZE :: string where "LAUNCH_PROCTABLE_SIZE = ''MPIR_proctable_size''"
definition LAUNCH_EXEC_PATH :: string where "LAUNCH_EXEC_PATH = ''MPIR_executable_path''"
definition LAUNCH_SERVER_ARGS :: string where "LAUNCH_SERVER_ARGS = ''MPIR_server_arguments''"
definition LAUNCH_ATTACH_FIFO :: string where "LAUNCH_ATTACH_FIFO = ''MPIR_attach_fifo''"
definition LOADER_BP_SYM :: string where "LOADER_BP_SYM = ''_dl_debug_state''"
definition LOADER_R_DEBUG :: string where "LOADER_R_DEBUG = ''_r_debug''"

section \<open>Threads\<close>

text \<open>
  \<open>gprset\<close> holds the 27 words of \<open>user_regs_struct\<close>. They are indeterminate in a new
  thread, zero here; every reader runs after \<open>tracer_getregs\<close> filled them.
\<close>

definition REG_WORDS :: nat where "REG_WORDS = 27"
definition REG_RIP :: nat where "REG_RIP = 16"
definition REG_RSP :: nat where "REG_RSP = 19"

text \<open>\<open>gpr_writable_mask\<close> of the x86-64 constructor: bits 0 to 12 and 16.\<close>

definition gpr_writable :: "nat \<Rightarrow> bool" where
  "gpr_writable i = (i \<le> 12 \<or> i = 16)"

record thread_base_t =
  master_thread :: bool
  traced :: bool
  event_registered :: bool
  master_pid :: int
  ti_lid :: int
  lwp_state :: lwp_state_e
  gprset :: "u64 list"

definition linux_x86_thread0 :: thread_base_t where
  "linux_x86_thread0 = \<lparr>master_thread = False, traced = False, event_registered = False,
     master_pid = 0, ti_lid = 0, lwp_state = LMON_RM_CREATED, gprset = replicate REG_WORDS 0\<rparr>"

definition gpr_get_pc :: "u64 list \<Rightarrow> u64" where "gpr_get_pc rs = rs ! REG_RIP"
definition gpr_get_ret_addr :: "u64 list \<Rightarrow> u64" where "gpr_get_ret_addr rs = T_UNINIT_HEX"
definition gpr_get_memloc_for_ret_addr :: "u64 list \<Rightarrow> u64" where "gpr_get_memloc_for_ret_addr rs = rs ! REG_RSP"
definition gpr_set_pc :: "u64 \<Rightarrow> u64 list \<Rightarrow> u64 list" where "gpr_set_pc a rs = rs[REG_RIP := a]"

definition thr2pid :: "thread_base_t \<Rightarrow> int" where
  "thr2pid t = (if master_thread t then master_pid t else ti_lid t)"

fun check_transition :: "lwp_state_e \<Rightarrow> lwp_state_e \<Rightarrow> bool" where
  "check_transition LMON_RM_CREATED s = (s \<noteq> LMON_RM_CREATED)"
| "check_transition LMON_RM_RUNNING s = (s = LMON_RM_STOPPED \<or> s = LMON_RM_EXITED)"
| "check_transition LMON_RM_STOPPED s = (s = LMON_RM_RUNNING \<or> s = LMON_RM_EXITED)"
| "check_transition LMON_RM_EXITED s = False"

section \<open>The process\<close>

record process_base_t =
  never_trapped :: bool
  please_detach :: bool
  please_kill :: bool
  preason :: pcont_req_reason
  myimage :: "image_base_t option"
  mydynloader_image :: "image_base_t option"
  mythread_lib_image :: "image_base_t option"
  mylibc_image :: "image_base_t option"
  myrmso_image :: "image_base_t option"
  rid :: int
  launch_hidden_bp :: "breakpoint option"
  loader_hidden_bp :: "breakpoint option"
  sym_attach_fifo :: "symbol_base_t option"
  thrlist :: "(int, thread_base_t) std_map"
  thread_ctx_stack :: "int list"
  new_child_pid :: int

text \<open>The constructor from the pid of the launcher; the images \<open>basic_init\<close> creates are
  arguments. The head of \<open>thread_ctx_stack\<close> is the top of the stack. \<open>rid\<close> is indeterminate
  until it is set, and nothing reads it before; it is \<open>-1\<close> here.\<close>

definition linux_x86_process0 ::
  "int \<Rightarrow> image_base_t option \<Rightarrow> image_base_t option \<Rightarrow> image_base_t option \<Rightarrow> image_base_t option \<Rightarrow>
   image_base_t option \<Rightarrow> process_base_t" where
  "linux_x86_process0 p im dl thr libc rmso =
     \<lparr>never_trapped = True, please_detach = False, please_kill = False, preason = reserved_for_rent,
      myimage = im, mydynloader_image = dl, mythread_lib_image = thr, mylibc_image = libc,
      myrmso_image = rmso, rid = -1, launch_hidden_bp = None, loader_hidden_bp = None,
      sym_attach_fifo = None,
      thrlist = map_set p (linux_x86_thread0\<lparr>master_thread := True, master_pid := p\<rparr>) [],
      thread_ctx_stack = [], new_child_pid = 0\<rparr>"

definition get_master_thread_pid :: "('a process_base_t_scheme) \<Rightarrow> int" where
  "get_master_thread_pid p =
     (case filter (\<lambda>(k, t). master_thread t) (thrlist p) of [] \<Rightarrow> -1 | (k, t) # _ \<Rightarrow> master_pid t)"

text \<open>\<open>top()\<close> of an empty stack is undefined; the test before it does not return.\<close>

definition get_pid :: "bool \<Rightarrow> ('a process_base_t_scheme, int) act" where
  "get_pid context_sensitive p =
     (if context_sensitive then
        (if new_child_pid p \<noteq> 0 then ret (new_child_pid p) p
         else (case thread_ctx_stack p of
                 [] \<Rightarrow> throw Undefined_behaviour p
               | k # _ \<Rightarrow> (case map_find (thrlist p) k of
                            Some t \<Rightarrow> ret (thr2pid t) p
                          | None \<Rightarrow> ret THREAD_KEY_INVALID p)))
      else ret (get_master_thread_pid p) p)"

definition get_cur_thread_ctx :: "'a process_base_t_scheme \<Rightarrow> int" where
  "get_cur_thread_ctx p = (case thread_ctx_stack p of [] \<Rightarrow> THREAD_KEY_INVALID | k # _ \<Rightarrow> k)"

definition make_context :: "int \<Rightarrow> ('a process_base_t_scheme, bool) act" where
  "make_context key p =
     (if map_find (thrlist p) key \<noteq> None
        then ret True (p\<lparr>thread_ctx_stack := key # thread_ctx_stack p\<rparr>)
      else if new_child_pid p = 0 then ret False (p\<lparr>new_child_pid := key\<rparr>)
      else throw Machine_exn p)"

definition get_lwp_state :: "bool \<Rightarrow> ('a process_base_t_scheme, lwp_state_e) act" where
  "get_lwp_state use_cxt =
     bindA (get_pid use_cxt) (\<lambda>lwpid p.
       ret (case map_find (thrlist p) lwpid of Some t \<Rightarrow> lwp_state t | None \<Rightarrow> LMON_RM_EXITED) p)"

text \<open>An illegal transition is looked at and made all the same.\<close>

definition set_lwp_state :: "lwp_state_e \<Rightarrow> bool \<Rightarrow> ('a process_base_t_scheme, bool) act" where
  "set_lwp_state s use_cxt =
     bindA (get_pid use_cxt) (\<lambda>lwpid p.
       case map_find (thrlist p) lwpid of
         Some t \<Rightarrow> ret True (p\<lparr>thrlist := map_set lwpid (t\<lparr>lwp_state := s\<rparr>) (thrlist p)\<rparr>)
       | None \<Rightarrow> ret False p)"

definition check_and_undo_context :: "int \<Rightarrow> ('a process_base_t_scheme, bool) act" where
  "check_and_undo_context key p =
     (if new_child_pid p = key then ret True (p\<lparr>new_child_pid := 0\<rparr>)
      else (case thread_ctx_stack p of
              k # ks \<Rightarrow> (if k = key then ret True (p\<lparr>thread_ctx_stack := ks\<rparr>) else throw Machine_exn p)
            | [] \<Rightarrow> throw Machine_exn p))"

text \<open>The register set is returned by pointer: the key of the thread that owns it.\<close>

definition get_gprset :: "bool \<Rightarrow> 'a process_base_t_scheme \<Rightarrow> int option" where
  "get_gprset context_sensitive p =
     (if context_sensitive then
        (case thread_ctx_stack p of
           [] \<Rightarrow> None
         | k # _ \<Rightarrow> (case map_find (thrlist p) k of Some t \<Rightarrow> Some k | None \<Rightarrow> None))
      else (case filter (\<lambda>(k, t). master_thread t) (thrlist p) of [] \<Rightarrow> None | (k, t) # _ \<Rightarrow> Some k))"

text \<open>Reading and writing through that pointer; a null pointer is undefined behaviour.\<close>

definition with_gprset :: "int option \<Rightarrow> (u64 list \<Rightarrow> 'b) \<Rightarrow> ('a process_base_t_scheme, 'b) act" where
  "with_gprset rp f p =
     (case rp of None \<Rightarrow> throw Undefined_behaviour p
      | Some k \<Rightarrow> (case map_find (thrlist p) k of None \<Rightarrow> throw Undefined_behaviour p
                  | Some t \<Rightarrow> ret (f (gprset t)) p))"

definition upd_gprset :: "int option \<Rightarrow> (u64 list \<Rightarrow> u64 list) \<Rightarrow> ('a process_base_t_scheme, unit) act" where
  "upd_gprset rp f p =
     (case rp of None \<Rightarrow> throw Undefined_behaviour p
      | Some k \<Rightarrow> (case map_find (thrlist p) k of None \<Rightarrow> throw Undefined_behaviour p
                  | Some t \<Rightarrow> ret () (p\<lparr>thrlist := map_set k (t\<lparr>gprset := f (gprset t)\<rparr>) (thrlist p)\<rparr>)))"


section \<open>Well-formed thread tables\<close>

text \<open>The table is sorted, a thread is filed under the id the kernel knows it by, its register
  set has its full size, and no thread has id 0.\<close>

definition thr_ok :: "int \<Rightarrow> thread_base_t \<Rightarrow> bool" where
  "thr_ok k t \<longleftrightarrow> thr2pid t = k \<and> length (gprset t) = REG_WORDS \<and> k \<noteq> 0"

definition proc_wf :: "'a process_base_t_scheme \<Rightarrow> bool" where
  "proc_wf p \<longleftrightarrow> map_inv (thrlist p) \<and> (\<forall>k t. map_find (thrlist p) k = Some t \<longrightarrow> thr_ok k t)"

lemma proc_wfD:
  assumes "proc_wf p" and "map_find (thrlist p) k = Some t"
  shows "thr2pid t = k" "length (gprset t) = REG_WORDS" "k \<noteq> 0"
  using assms by (auto simp: proc_wf_def thr_ok_def)

lemma proc_wf_init: "p \<noteq> 0 \<Longrightarrow> proc_wf (linux_x86_process0 p im dl thr libc rmso)"
  by (auto simp: proc_wf_def linux_x86_process0_def thr_ok_def thr2pid_def linux_x86_thread0_def
      map_inv_def map_keys_def split: if_splits)

lemma proc_wf_thr_upd:
  assumes "proc_wf p" and "map_find (thrlist p) k = Some t" and "thr2pid t' = thr2pid t"
    and "length (gprset t') = length (gprset t)"
  shows "proc_wf (p\<lparr>thrlist := map_set k t' (thrlist p)\<rparr>)"
  using assms by (auto simp: proc_wf_def map_inv_set map_find_set thr_ok_def)

lemma proc_wf_ctx [simp]:
  "proc_wf (p\<lparr>thread_ctx_stack := ks\<rparr>) = proc_wf p" "proc_wf (p\<lparr>new_child_pid := c\<rparr>) = proc_wf p"
  by (simp_all add: proc_wf_def)

lemma keeps_wf_get_pid [keeps_intros]: "keeps P (get_pid c)"
  by (auto simp: keeps_def get_pid_def act_simps split: list.splits option.splits)

lemma thr2pid_upd [simp]: "thr2pid (t\<lparr>lwp_state := s\<rparr>) = thr2pid t" "thr2pid (t\<lparr>gprset := g\<rparr>) = thr2pid t"
  by (simp_all add: thr2pid_def)

lemma set_lwp_state_wf: "keeps proc_wf (set_lwp_state s c)"
  unfolding set_lwp_state_def
  by (intro keeps_intros)
    (auto simp: keeps_def act_simps proc_wf_thr_upd split: option.splits)

lemma make_context_wf: "keeps proc_wf (make_context k)"
  by (auto simp: keeps_def make_context_def act_simps)

lemma check_and_undo_context_wf: "keeps proc_wf (check_and_undo_context k)"
  by (auto simp: keeps_def check_and_undo_context_def act_simps split: list.splits)

lemma upd_gprset_wf: "(\<And>g. length (f g) = length g) \<Longrightarrow> keeps proc_wf (upd_gprset rp f)"
  by (auto simp: keeps_def upd_gprset_def act_simps proc_wf_thr_upd split: option.splits)

section \<open>The context stack\<close>

lemma get_pid_known:
  "proc_wf p \<Longrightarrow> new_child_pid p = 0 \<Longrightarrow> thread_ctx_stack p = k # ks \<Longrightarrow> map_find (thrlist p) k \<noteq> None \<Longrightarrow>
   get_pid True p = (Inr k, p)"
  by (auto simp: get_pid_def act_simps proc_wfD)

lemma undo_make_context:
  "make_context k p = (Inr b, q) \<Longrightarrow> new_child_pid p \<noteq> k \<Longrightarrow> check_and_undo_context k q = (Inr True, p)"
  by (auto simp: make_context_def check_and_undo_context_def act_simps split: if_splits)

text \<open>Outside a fork, entering the context of any id that is not 0 succeeds, makes
  every context-sensitive call address exactly that id, whether it is a thread of the table or
  a process seen for the first time, and leaving it gives the process back as it was.\<close>

theorem context_addresses:
  assumes "proc_wf p" and "new_child_pid p = 0" and "k \<noteq> 0"
  shows "\<exists>b q. make_context k p = (Inr b, q) \<and> get_pid True q = (Inr k, q) \<and>
    check_and_undo_context k q = (Inr True, p)"
proof (cases "map_find (thrlist p) k")
  case None
  then show ?thesis
    using assms by (auto simp: make_context_def get_pid_def check_and_undo_context_def act_simps)
next
  case (Some t)
  then have "make_context k p = (Inr True, p\<lparr>thread_ctx_stack := k # thread_ctx_stack p\<rparr>)"
    by (simp add: make_context_def act_simps)
  moreover have "get_pid True (p\<lparr>thread_ctx_stack := k # thread_ctx_stack p\<rparr>) =
      (Inr k, p\<lparr>thread_ctx_stack := k # thread_ctx_stack p\<rparr>)"
    using assms Some by (intro get_pid_known) simp_all
  ultimately show ?thesis using undo_make_context assms by metis
qed

theorem context_addresses_witness:
  "\<exists>b q. make_context 7 (linux_x86_process0 42 None None None None None) = (Inr b, q) \<and>
     get_pid True q = (Inr 7, q) \<and>
     check_and_undo_context 7 q = (Inr True, linux_x86_process0 42 None None None None None)"
  by (rule context_addresses) (simp_all add: proc_wf_init, simp add: linux_x86_process0_def)

end
