(* ===== verification/Linux_Ptracer.thy ===== *)
theory Linux_Ptracer
  imports Sdbg_Mach
begin

text \<open>
  The tracer: \<open>linux_ptracer_t\<close> of \<open>sdbg_linux_ptracer_impl.hxx\<close> on x86-64. The kernel
  side of \<open>ptrace(2)\<close> is part of the state: address spaces, user registers, pending
  event messages, the state letters of \<open>/proc\<close>, \<open>errno\<close>, a log of the requests that
  took effect, and \<open>kfail\<close>, which says of the \<open>n\<close>-th request whether and how it fails.
  Nothing is assumed of \<open>kfail\<close>. As glibc documents it, a successful PEEK request
  clears \<open>errno\<close> and other successful requests leave it alone.
\<close>

section \<open>The kernel\<close>

datatype ptrace_req =
    PEEKDATA | PEEKUSER | POKEDATA | POKEUSER | CONT | KILL | SINGLESTEP | SYSCALL | DETACH
  | SETOPTIONS | ATTACH | TRACEME | GETEVENTMSG | TKILL

datatype kerrno_e = EACCES | EIO | ESRCH | EINVAL | EPERM | EFAULT | EBUSY | EOTHERS

record kernel =
  kmem :: "int \<Rightarrow> u64 \<Rightarrow> byte"
  kvm :: "int \<Rightarrow> int"
  kregs :: "int \<Rightarrow> u64 list"
  kmsg :: "int \<Rightarrow> u64"
  kstat :: "int \<Rightarrow> string option"
  kfail :: "nat \<Rightarrow> kerrno_e option"
  kcount :: nat
  kerrno :: "kerrno_e option"
  klog :: "(ptrace_req \<times> int \<times> u64 \<times> u64) list"

record machine = process_base_t +
  krn :: kernel

definition mem_read :: "(u64 \<Rightarrow> byte) \<Rightarrow> u64 \<Rightarrow> nat \<Rightarrow> byte list" where
  "mem_read m a n = map (\<lambda>i. m (a + of_nat i)) [0..<n]"

definition mem_write :: "(u64 \<Rightarrow> byte) \<Rightarrow> u64 \<Rightarrow> byte list \<Rightarrow> (u64 \<Rightarrow> byte)" where
  "mem_write m a bs = (\<lambda>x. if unat (x - a) < length bs then bs ! unat (x - a) else m x)"

definition kspace :: "kernel \<Rightarrow> int \<Rightarrow> u64 \<Rightarrow> byte" where
  "kspace k lwp = kmem k (kvm k lwp)"

text \<open>The effect and the result of a request that succeeds.\<close>

fun kserve :: "ptrace_req \<Rightarrow> int \<Rightarrow> u64 \<Rightarrow> u64 \<Rightarrow> kernel \<Rightarrow> u64 \<times> kernel" where
  "kserve PEEKDATA lwp a d k = (dec64 (mem_read (kspace k lwp) a 8), k\<lparr>kerrno := None\<rparr>)"
| "kserve PEEKUSER lwp a d k = (kregs k lwp ! (unat a div 8), k\<lparr>kerrno := None\<rparr>)"
| "kserve POKEDATA lwp a d k =
     (0, k\<lparr>kmem := (kmem k)(kvm k lwp := mem_write (kspace k lwp) a (enc64 d)),
           klog := klog k @ [(POKEDATA, lwp, a, d)]\<rparr>)"
| "kserve POKEUSER lwp a d k =
     (0, k\<lparr>kregs := (kregs k)(lwp := (kregs k lwp)[unat a div 8 := d]),
           klog := klog k @ [(POKEUSER, lwp, a, d)]\<rparr>)"
| "kserve GETEVENTMSG lwp a d k = (0, k)"
| "kserve r lwp a d k = (0, k\<lparr>klog := klog k @ [(r, lwp, a, d)]\<rparr>)"

definition ksys :: "ptrace_req \<Rightarrow> int \<Rightarrow> u64 \<Rightarrow> u64 \<Rightarrow> kernel \<Rightarrow> u64 \<times> kernel" where
  "ksys r lwp a d k =
     (case kfail k (kcount k) of
        Some e \<Rightarrow> (-1, k\<lparr>kcount := Suc (kcount k), kerrno := Some e\<rparr>)
      | None \<Rightarrow> kserve r lwp a d (k\<lparr>kcount := Suc (kcount k)\<rparr>))"

definition Pptrace :: "ptrace_req \<Rightarrow> int \<Rightarrow> u64 \<Rightarrow> u64 \<Rightarrow> ('a machine_scheme, u64) act" where
  "Pptrace r lwp a d p = (let (x, k) = ksys r lwp a d (krn p) in (Inr x, p\<lparr>krn := k\<rparr>))"

section \<open>Errors\<close>

fun convert_error_code :: "kerrno_e \<Rightarrow> tracer_error_e" where
  "convert_error_code EACCES = SDBG_TRACE_EACCESS_ERR"
| "convert_error_code EIO = SDBG_TRACE_EIO_ERR"
| "convert_error_code ESRCH = SDBG_TRACE_ESRCH_ERR"
| "convert_error_code EINVAL = SDBG_TRACE_EINVAL_ERR"
| "convert_error_code EPERM = SDBG_TRACE_EPERM_ERR"
| "convert_error_code EFAULT = SDBG_TRACE_EFAULT_ERR"
| "convert_error_code EBUSY = SDBG_TRACE_EBUSY_ERR"
| "convert_error_code EOTHERS = SDBG_TRACE_FAILED"

definition errno_of :: "'a machine_scheme \<Rightarrow> kerrno_e option" where
  "errno_of p = kerrno (krn p)"

text \<open>\<open>strerror(errno)\<close> and \<open>convert_error_code(errno)\<close> of the current \<open>errno\<close>.\<close>

definition throw_errno :: "('a machine_scheme, 'b) act" where
  "throw_errno p = throw (Tracer_exn (case errno_of p of Some e \<Rightarrow> convert_error_code e
                                      | None \<Rightarrow> SDBG_TRACE_FAILED)) p"

text \<open>\<open>if (r == -1 && errno != 0) throw\<close>.\<close>

definition checked :: "('a machine_scheme, u64) act \<Rightarrow> ('a machine_scheme, u64) act" where
  "checked m = bindA m (\<lambda>r p. if r = -1 \<and> errno_of p \<noteq> None then throw_errno p else ret r p)"

text \<open>\<open>if (r != 0) throw\<close>.\<close>

definition must_be_0 :: "('a machine_scheme, u64) act \<Rightarrow> ('a machine_scheme, unit) act" where
  "must_be_0 m = bindA m (\<lambda>r p. if r \<noteq> 0 then throw_errno p else ret () p)"

definition clear_errno :: "('a machine_scheme, unit) act" where
  "clear_errno = modA (\<lambda>p. p\<lparr>krn := (krn p)\<lparr>kerrno := None\<rparr>\<rparr>)"

section \<open>Registers\<close>

fun getregs_loop :: "int \<Rightarrow> int option \<Rightarrow> nat \<Rightarrow> nat \<Rightarrow> ('a machine_scheme, unit) act" where
  "getregs_loop lwp rp i 0 = ret ()"
| "getregs_loop lwp rp i (Suc n) =
     bindA (Pptrace PEEKUSER lwp (of_nat (8 * i)) 0) (\<lambda>r p.
       if errno_of p \<noteq> None then throw_errno p
       else bindA (upd_gprset rp (\<lambda>rs. rs[i := r])) (\<lambda>_. getregs_loop lwp rp (Suc i) n) p)"

definition tracer_getregs :: "bool \<Rightarrow> ('a machine_scheme, unit) act" where
  "tracer_getregs use_cxt = bindA (get_pid use_cxt) (\<lambda>tpid p.
     case get_gprset use_cxt p of
       None \<Rightarrow> throw (Tracer_exn SDBG_TRACE_FAILED) p
     | Some k \<Rightarrow> getregs_loop tpid (Some k) 0 REG_WORDS p)"

fun setregs_loop :: "int \<Rightarrow> int option \<Rightarrow> nat \<Rightarrow> nat \<Rightarrow> ('a machine_scheme, unit) act" where
  "setregs_loop lwp rp i 0 = ret ()"
| "setregs_loop lwp rp i (Suc n) =
     (if gpr_writable i then
        bindA (with_gprset rp (\<lambda>rs. rs ! i)) (\<lambda>w.
        bindA (Pptrace POKEUSER lwp (of_nat (8 * i)) w) (\<lambda>r p.
          if errno_of p \<noteq> None then throw_errno p else setregs_loop lwp rp (Suc i) n p))
      else setregs_loop lwp rp (Suc i) n)"

definition tracer_setregs :: "bool \<Rightarrow> ('a machine_scheme, unit) act" where
  "tracer_setregs use_cxt = bindA (get_pid use_cxt) (\<lambda>tpid p.
     case get_gprset use_cxt p of
       None \<Rightarrow> throw (Tracer_exn SDBG_TRACE_FAILED) p
     | Some k \<Rightarrow> setregs_loop tpid (Some k) 0 REG_WORDS p)"

section \<open>Memory\<close>

text \<open>
  \<open>trav_end\<close> is \<open>addr + size\<close> in 64 bits. A range that reaches the last word of the
  address space, or a negative size, makes the loop wrap around or the final \<open>memcpy\<close>
  overrun its word: undefined behaviour here.
\<close>

definition range_ok :: "u64 \<Rightarrow> int \<Rightarrow> bool" where
  "range_ok addr len \<longleftrightarrow> 0 \<le> len \<and> unat addr + nat len \<le> 2 ^ 64 - 8"

fun read_words :: "int \<Rightarrow> u64 \<Rightarrow> nat \<Rightarrow> ('a machine_scheme, byte list) act" where
  "read_words lwp a 0 = ret []"
| "read_words lwp a (Suc n) =
     bindA (checked (Pptrace PEEKDATA lwp a 0)) (\<lambda>r.
     bindA (read_words lwp (a + 8) n) (\<lambda>bs. ret (enc64 r @ bs)))"

text \<open>The bytes written to \<open>buf\<close>.\<close>

definition tracer_read :: "u64 \<Rightarrow> int \<Rightarrow> bool \<Rightarrow> ('a machine_scheme, byte list) act" where
  "tracer_read addr len use_cxt = bindA (get_pid use_cxt) (\<lambda>tpid.
     if \<not> range_ok addr len then throw Undefined_behaviour
     else let n = nat len div 8; rest = nat len mod 8 in
       bindA (read_words tpid addr n) (\<lambda>bs.
         if rest = 0 then ret bs
         else bindA (checked (Pptrace PEEKDATA tpid (addr + of_nat (8 * n)) 0))
                (\<lambda>r. ret (bs @ take rest (enc64 r)))))"

text \<open>The eight mask tests of a word.\<close>

definition word_has_nul :: "u64 \<Rightarrow> bool" where
  "word_has_nul r \<longleftrightarrow>
     r AND 0xff00000000000000 = 0 \<or> r AND 0x00ff000000000000 = 0 \<or>
     r AND 0x0000ff0000000000 = 0 \<or> r AND 0x000000ff00000000 = 0 \<or>
     r AND 0x00000000ff000000 = 0 \<or> r AND 0x0000000000ff0000 = 0 \<or>
     r AND 0x000000000000ff00 = 0 \<or> r AND 0x00000000000000ff = 0"

fun read_string_words :: "int \<Rightarrow> u64 \<Rightarrow> nat \<Rightarrow> ('a machine_scheme, byte list \<times> bool) act" where
  "read_string_words lwp a 0 = ret ([], False)"
| "read_string_words lwp a (Suc n) =
     bindA (checked (Pptrace PEEKDATA lwp a 0)) (\<lambda>r.
       if word_has_nul r then ret (enc64 r, True)
       else bindA (read_string_words lwp (a + 8) n) (\<lambda>(bs, e). ret (enc64 r @ bs, e)))"

definition tracer_read_string :: "u64 \<Rightarrow> int \<Rightarrow> bool \<Rightarrow> ('a machine_scheme, byte list) act" where
  "tracer_read_string addr len use_cxt = bindA (get_pid use_cxt) (\<lambda>tpid.
     if \<not> range_ok addr len then throw Undefined_behaviour
     else let n = nat len div 8; rest = nat len mod 8 in
       bindA (read_string_words tpid addr n) (\<lambda>(bs, end_of_string).
         if rest = 0 \<or> end_of_string then ret bs
         else bindA (checked (Pptrace PEEKDATA tpid (addr + of_nat (8 * n)) 0))
                (\<lambda>r. ret (bs @ take rest (enc64 r)))))"

fun write_words :: "int \<Rightarrow> u64 \<Rightarrow> byte list \<Rightarrow> nat \<Rightarrow> ('a machine_scheme, unit) act" where
  "write_words lwp a bs 0 = ret ()"
| "write_words lwp a bs (Suc n) =
     bindA (checked (Pptrace POKEDATA lwp a (dec64 (take 8 bs))))
       (\<lambda>r. write_words lwp (a + 8) (drop 8 bs) n)"

definition tracer_write :: "u64 \<Rightarrow> byte list \<Rightarrow> bool \<Rightarrow> ('a machine_scheme, unit) act" where
  "tracer_write addr buf use_cxt = bindA (get_pid use_cxt) (\<lambda>tpid.
     if \<not> range_ok addr (int (length buf)) then throw Undefined_behaviour
     else let n = length buf div 8; tail = drop (8 * n) buf; a = addr + of_nat (8 * n) in
       bindA (write_words tpid addr buf n) (\<lambda>_.
         if tail = [] then ret ()
         else bindA (checked (Pptrace PEEKDATA tpid a 0)) (\<lambda>r.
              bindA (checked (Pptrace POKEDATA tpid a (dec64 (tail @ drop (length tail) (enc64 r)))))
                (\<lambda>_. ret ()))))"

section \<open>Control\<close>

text \<open>Methods whose only return value is \<open>SDBG_TRACE_OK\<close> return the unit value.\<close>

definition tracer_get_event_msg :: "bool \<Rightarrow> ('a machine_scheme, u64) act" where
  "tracer_get_event_msg use_cxt = bindA (get_pid use_cxt) (\<lambda>tpid.
     bindA (checked (Pptrace GETEVENTMSG tpid 0 0)) (\<lambda>_ p. ret (kmsg (krn p) tpid) p))"

definition tracer_continue :: "bool \<Rightarrow> ('a machine_scheme, unit) act" where
  "tracer_continue use_cxt = bindA (get_pid use_cxt) (\<lambda>tpid.
     seqA [clear_errno, must_be_0 (Pptrace CONT tpid 0 0), ignA (set_lwp_state LMON_RM_RUNNING use_cxt)])"

definition tracer_deliver_signal :: "int \<Rightarrow> bool \<Rightarrow> ('a machine_scheme, unit) act" where
  "tracer_deliver_signal sig use_cxt = bindA (get_pid use_cxt) (\<lambda>tpid.
     seqA [must_be_0 (Pptrace CONT tpid 0 (of_int sig)), ignA (set_lwp_state LMON_RM_RUNNING use_cxt)])"

definition SIGSTOP :: int where "SIGSTOP = 19"
definition SIGTRAP :: int where "SIGTRAP = 5"
definition SIGCONT :: int where "SIGCONT = 18"

definition tracer_stop :: "bool \<Rightarrow> ('a machine_scheme, tracer_error_e) act" where
  "tracer_stop use_cxt = bindA (get_pid use_cxt) (\<lambda>tpid.
     bindA (Pptrace TKILL tpid 0 (of_int SIGSTOP)) (\<lambda>r.
       ret (if r \<noteq> 0 then SDBG_TRACE_FAILED else SDBG_TRACE_OK)))"

definition tracer_kill :: "bool \<Rightarrow> ('a machine_scheme, unit) act" where
  "tracer_kill use_cxt = bindA (get_pid use_cxt) (\<lambda>tpid. must_be_0 (Pptrace KILL tpid 0 0))"

definition tracer_singlestep :: "bool \<Rightarrow> ('a machine_scheme, unit) act" where
  "tracer_singlestep use_cxt = bindA (get_pid use_cxt) (\<lambda>tpid.
     seqA [must_be_0 (Pptrace SINGLESTEP tpid 0 0), ignA (set_lwp_state LMON_RM_RUNNING use_cxt)])"

definition tracer_syscall :: "bool \<Rightarrow> ('a machine_scheme, unit) act" where
  "tracer_syscall use_cxt = bindA (get_pid use_cxt) (\<lambda>tpid.
     seqA [must_be_0 (Pptrace SYSCALL tpid 0 0), ignA (set_lwp_state LMON_RM_RUNNING use_cxt)])"

definition tracer_detach :: "bool \<Rightarrow> ('a machine_scheme, tracer_error_e) act" where
  "tracer_detach use_cxt = bindA (get_pid use_cxt) (\<lambda>tpid.
     bindA (Pptrace DETACH tpid 0 0) (\<lambda>r.
       if r \<noteq> 0 then bindA clear_errno (\<lambda>_. ret SDBG_TRACE_FAILED)
       else bindA (set_lwp_state LMON_RM_RUNNING use_cxt) (\<lambda>_. ret SDBG_TRACE_OK)))"

definition PTRACE_OPTIONS :: u64 where
  "PTRACE_OPTIONS = 0x8 OR 0x4 OR 0x2" \<comment> \<open>TRACECLONE, TRACEVFORK, TRACEFORK\<close>

definition set_ptrace_options :: "u64 \<Rightarrow> bool \<Rightarrow> int \<Rightarrow> ('a machine_scheme, unit) act" where
  "set_ptrace_options options use_cxt newtid = bindA (get_pid use_cxt) (\<lambda>tpid.
     bindA (Pptrace SETOPTIONS (if newtid \<noteq> -1 then newtid else tpid) 0 options) (\<lambda>r.
       whenA (r \<noteq> 0) clear_errno))"

definition tracer_unsetoptions :: "bool \<Rightarrow> int \<Rightarrow> ('a machine_scheme, unit) act" where
  "tracer_unsetoptions use_cxt newtid = set_ptrace_options 0 use_cxt newtid"

definition tracer_setoptions :: "bool \<Rightarrow> int \<Rightarrow> ('a machine_scheme, unit) act" where
  "tracer_setoptions use_cxt newtid = set_ptrace_options PTRACE_OPTIONS use_cxt newtid"

definition tracer_attach :: "bool \<Rightarrow> int \<Rightarrow> ('a machine_scheme, unit) act" where
  "tracer_attach use_cxt newtid = bindA (get_pid use_cxt) (\<lambda>tpid.
     must_be_0 (Pptrace ATTACH (if newtid \<noteq> -1 then newtid else tpid) 0 0))"

text \<open>The third field of \<open>/proc/<lwp>/stat\<close>; \<open>None\<close> when the file cannot be read.\<close>

definition tracer_status :: "bool \<Rightarrow> ('a machine_scheme, tracer_error_e) act" where
  "tracer_status use_cxt = bindA (get_pid use_cxt) (\<lambda>tpid p.
     ret (case kstat (krn p) tpid of
            None \<Rightarrow> SDBG_TRACE_ESRCH_ERR
          | Some tState \<Rightarrow> (if tState = ''T'' then SDBG_TRACE_STOPPED else SDBG_TRACE_RUNNING)) p)"

definition tracer_trace_me :: "('a machine_scheme, unit) act" where
  "tracer_trace_me = must_be_0 (Pptrace TRACEME 0 0 0)"

definition baretracer :: "ptrace_req \<Rightarrow> int \<Rightarrow> u64 \<Rightarrow> u64 \<Rightarrow> ('a machine_scheme, unit) act" where
  "baretracer tag lwp addr wd = bindA (checked (Pptrace tag lwp addr wd)) (\<lambda>_. ret ())"

section \<open>Breakpoints\<close>

text \<open>The engine passes breakpoints by reference; they are the two the process holds.\<close>

datatype bp_slot = launch_bp | loader_bp

fun get_bp :: "bp_slot \<Rightarrow> 'a process_base_t_scheme \<Rightarrow> breakpoint option" where
  "get_bp launch_bp p = launch_hidden_bp p"
| "get_bp loader_bp p = loader_hidden_bp p"

fun put_bp :: "bp_slot \<Rightarrow> breakpoint option \<Rightarrow> 'a process_base_t_scheme \<Rightarrow> 'a process_base_t_scheme" where
  "put_bp launch_bp b p = p\<lparr>launch_hidden_bp := b\<rparr>"
| "put_bp loader_bp b p = p\<lparr>loader_hidden_bp := b\<rparr>"

definition the_bp :: "bp_slot \<Rightarrow> ('a process_base_t_scheme, breakpoint) act" where
  "the_bp s p = (case get_bp s p of None \<Rightarrow> throw Undefined_behaviour p | Some b \<Rightarrow> ret b p)"

definition upd_bp :: "bp_slot \<Rightarrow> (breakpoint \<Rightarrow> breakpoint) \<Rightarrow> ('a process_base_t_scheme, unit) act" where
  "upd_bp s f = bindA (the_bp s) (\<lambda>b. modA (put_bp s (Some (f b))))"

definition enable_breakpoint :: "bp_slot \<Rightarrow> bool \<Rightarrow> bool \<Rightarrow> ('a machine_scheme, tracer_error_e) act" where
  "enable_breakpoint s use_cxt change_state = bindA (the_bp s) (\<lambda>b.
     if \<not> (is_set b \<or> is_disabled b) then ret SDBG_TRACE_STATE_UNKNOWN
     else
       bindA (whenA (use_indirection b \<and> indirect_address_at b = T_UNINIT_HEX)
         (bindA (tracer_read (address_at b) 8 use_cxt)
            (\<lambda>bs. upd_bp s (\<lambda>b. b\<lparr>indirect_address_at := dec64 bs\<rparr>)))) (\<lambda>_.
       bindA (the_bp s) (\<lambda>b.
       bindA (tracer_read (bp_target b) 8 use_cxt) (\<lambda>bs.
       bindA (upd_bp s (\<lambda>b. b\<lparr>orig_instruction := dec64 bs\<rparr>)) (\<lambda>_.
       bindA (the_bp s) (\<lambda>b.
       bindA (tracer_write (bp_target b) (enc64 (bp_blend b)) use_cxt) (\<lambda>_.
       bindA (whenA change_state (upd_bp s (\<lambda>b. snd (bp_do_enable b)))) (\<lambda>_.
       ret SDBG_TRACE_OK))))))))"

definition disable_breakpoint :: "bp_slot \<Rightarrow> bool \<Rightarrow> bool \<Rightarrow> ('a machine_scheme, tracer_error_e) act" where
  "disable_breakpoint s use_cxt change_state = bindA (the_bp s) (\<lambda>b.
     if \<not> is_enabled b then ret SDBG_TRACE_STATE_UNKNOWN
     else
       bindA (tracer_write (bp_target b) (enc64 (orig_instruction b)) use_cxt) (\<lambda>_.
       bindA (whenA change_state (upd_bp s (\<lambda>b. snd (bp_do_disable b)))) (\<lambda>_.
       ret SDBG_TRACE_OK)))"


section \<open>Bytes of words\<close>

lemma unat_div256: "unat (w :: u64) div 256 = unat (drop_bit 8 w)"
proof -
  have "unat (drop_bit 8 w) = drop_bit 8 (unat w)"
    using unat_byte_bounds(4) [of w]
    by (intro unsigned_drop_bit_eq [THEN trans]) (simp add: take_bit_nat_eq_self)
  then show ?thesis by (simp add: drop_bit_eq_div)
qed

lemma enc64_Cons: "enc64 w = ucast w # nat_le 7 (unat (drop_bit 8 w))"
proof -
  have "enc64 w = nat_le (Suc 7) (unat w)" by (simp add: enc64_def)
  then show ?thesis by (simp only: nat_le.simps unat_div256 of_nat_unat)
qed

lemma drop_mask: "drop_bit 8 (0xffffffffffffff00 :: u64) = mask 56" "drop_bit 8 (0xcc :: u64) = 0"
  by code_simp+
lemma low_mask: "ucast (0xffffffffffffff00 :: u64) = (0 :: byte)" "ucast (0xcc :: u64) = (0xcc :: byte)"
  by code_simp+

lemma enc64_blend:
  "enc64 ((w AND 0xffffffffffffff00) OR 0xcc) = 0xcc # tl (enc64 w)"
proof -
  have "drop_bit 8 (w :: u64) AND mask 56 = drop_bit 8 w"
    by (rule bit_word_eqI) (auto simp: bit_simps dest: bit_imp_le_length)
  then have "drop_bit 8 ((w AND 0xffffffffffffff00) OR 0xcc) = drop_bit 8 (w :: u64)"
    unfolding drop_bit_or drop_bit_and drop_mask by simp
  moreover have "ucast ((w AND 0xffffffffffffff00) OR 0xcc) = (0xcc :: byte)"
    unfolding unsigned_and_eq unsigned_or_eq low_mask by simp
  ultimately show ?thesis by (simp only: enc64_Cons list.sel)
qed
lemma nat_le_Suc_word: "nat_le (Suc n) (unat (w :: u64)) = ucast w # nat_le n (unat (drop_bit 8 w))"
  by (simp only: nat_le.simps unat_div256 of_nat_unat)

lemma set_nat_le: "set (nat_le n (unat (w :: u64))) = (\<lambda>i. ucast (drop_bit (8 * i) w)) ` {..<n}"
proof (induction n arbitrary: w)
  case 0
  then show ?case by simp
next
  case (Suc n)
  show ?case
    unfolding nat_le_Suc_word list.set Suc.IH lessThan_Suc_eq_insert_0 image_insert image_image
    by (simp add: drop_bit_drop_bit add.commute)
qed

lemma byte_and_mask: "ucast (drop_bit n w) = (0 :: byte) \<longleftrightarrow> (w :: u64) AND push_bit n (mask 8) = 0"
proof
  assume a: "ucast (drop_bit n w) = (0 :: byte)"
  show "w AND push_bit n (mask 8) = 0"
  proof (rule bit_word_eqI)
    fix j assume "j < LENGTH(64)"
    have "\<not> bit (ucast (drop_bit n w) :: byte) (j - n)" unfolding a by simp
    then show "bit (w AND push_bit n (mask 8)) j = bit (0 :: u64) j"
      by (auto simp: bit_simps)
  qed
next
  assume a: "w AND push_bit n (mask 8) = 0"
  show "ucast (drop_bit n w) = (0 :: byte)"
  proof (rule bit_word_eqI)
    fix j assume j: "j < LENGTH(8)"
    have "\<not> bit (w AND push_bit n (mask 8)) (n + j)" unfolding a by simp
    with j show "bit (ucast (drop_bit n w) :: byte) j = bit (0 :: byte) j"
      by (auto simp: bit_simps dest: bit_imp_le_length)
  qed
qed

lemma push_masks:
  "push_bit 0 (mask 8) = (0xff :: u64)" "push_bit 8 (mask 8) = (0xff00 :: u64)"
  "push_bit 16 (mask 8) = (0xff0000 :: u64)" "push_bit 24 (mask 8) = (0xff000000 :: u64)"
  "push_bit 32 (mask 8) = (0xff00000000 :: u64)" "push_bit 40 (mask 8) = (0xff0000000000 :: u64)"
  "push_bit 48 (mask 8) = (0xff000000000000 :: u64)" "push_bit 56 (mask 8) = (0xff00000000000000 :: u64)"
  by code_simp+

lemma mask8: "mask 8 = (0xff :: u64)" by code_simp

lemma lessThan8: "{..<8} = {7, 6, 5, 4, 3, 2, 1, 0 :: nat}"
  by (auto simp: eval_nat_numeral lessThan_Suc)

lemma zero_in_enc64: "0 \<in> set (enc64 r) \<longleftrightarrow> (\<exists>i \<in> {7, 6, 5, 4, 3, 2, 1, 0}. r AND push_bit (8 * i) (mask 8) = 0)"
  unfolding enc64_def set_nat_le lessThan8 byte_and_mask [symmetric] by (auto simp: image_iff)
lemma word_has_nul_iff: "word_has_nul r \<longleftrightarrow> 0 \<in> set (enc64 r)"
  unfolding zero_in_enc64 word_has_nul_def by (simp add: push_masks mask8)

section \<open>Memory ranges\<close>

lemma length_mem_read [simp]: "length (mem_read m a n) = n"
  by (simp add: mem_read_def)

lemma nth_mem_read: "i < n \<Longrightarrow> mem_read m a n ! i = m (a + of_nat i)"
  by (simp add: mem_read_def)

lemma mem_read_add: "mem_read m a (n + k) = mem_read m a n @ mem_read m (a + of_nat n) k"
  by (rule nth_equalityI) (auto simp: nth_mem_read nth_append add.assoc simp flip: of_nat_add)

lemma take_mem_read: "k \<le> n \<Longrightarrow> take k (mem_read m a n) = mem_read m a k"
  by (rule nth_equalityI) (simp_all add: nth_mem_read)

lemma unat_offset: "i < 2 ^ 64 \<Longrightarrow> unat ((a + of_nat i) - (a :: u64)) = i"
  by (simp add: unat_of_nat)

lemma mem_read_write:
  "length bs \<le> 2 ^ 64 \<Longrightarrow> mem_read (mem_write m a bs) a (length bs) = bs"
  by (rule nth_equalityI) (auto simp: nth_mem_read mem_write_def unat_of_nat)

lemma mem_write_read: "n \<le> 2 ^ 64 \<Longrightarrow> mem_write m a (mem_read m a n) = m"
  by (rule ext) (auto simp: mem_write_def nth_mem_read)

lemma mem_write_twice:
  "length xs = length ys \<Longrightarrow> mem_write (mem_write m a xs) a ys = mem_write m a ys"
  by (rule ext) (auto simp: mem_write_def)

lemma mem_write_append:
  assumes "length xs + length ys \<le> 2 ^ 64"
  shows "mem_write (mem_write m a xs) (a + of_nat (length xs)) ys = mem_write m a (xs @ ys)"
proof (cases "length xs = 2 ^ 64")
  case True
  then have "ys = []" using assms by simp
  then show ?thesis by (simp add: mem_write_def)
next
  case False
  then have l: "length xs < 2 ^ 64" using assms by linarith
  then have n: "unat (of_nat (length xs) :: u64) = length xs" by (simp add: unat_of_nat)
  show ?thesis
  proof (rule ext)
    fix x
    let ?d = "unat (x - a)"
    define D where "D = x - a"
    have "unat (D - of_nat (length xs)) =
        (if length xs \<le> unat D then unat D - length xs else unat D + 2 ^ 64 - length xs)"
      using n by (simp add: unat_sub_if')
    then have e: "unat (x - (a + of_nat (length xs))) =
        (if length xs \<le> ?d then ?d - length xs else ?d + 2 ^ 64 - length xs)"
      by (simp add: D_def diff_diff_eq)
    show "mem_write (mem_write m a xs) (a + of_nat (length xs)) ys x = mem_write m a (xs @ ys) x"
    proof (cases "length xs \<le> ?d")
      case True
      then show ?thesis unfolding mem_write_def e by (auto simp: nth_append)
    next
      case False
      then have "\<not> ?d + 2 ^ 64 - length xs < length ys" using assms by linarith
      with False show ?thesis unfolding mem_write_def e by (auto simp: nth_append)
    qed
  qed
qed

lemma mem_write_Nil [simp]: "mem_write m a [] = m"
  by (rule ext) (simp add: mem_write_def)

section \<open>What the requests change\<close>

text \<open>\<open>quiet\<close>: only the request counter and \<open>errno\<close> differ. \<open>wrote\<close>: also the log and
  the address spaces, which are now \<open>m\<close>.\<close>

definition quiet :: "'a machine_scheme \<Rightarrow> 'a machine_scheme \<Rightarrow> bool" where
  "quiet p q \<longleftrightarrow> q = p\<lparr>krn := (krn p)\<lparr>kcount := kcount (krn q), kerrno := kerrno (krn q)\<rparr>\<rparr>"

definition wrote :: "(int \<Rightarrow> u64 \<Rightarrow> byte) \<Rightarrow> 'a machine_scheme \<Rightarrow> 'a machine_scheme \<Rightarrow> bool" where
  "wrote m p q \<longleftrightarrow> q = p\<lparr>krn := (krn p)\<lparr>kmem := m, kcount := kcount (krn q),
     kerrno := kerrno (krn q), klog := klog (krn q)\<rparr>\<rparr>"

lemma quiet_refl [simp]: "quiet p p" by (simp add: quiet_def)

lemma quietI: "quiet p (p\<lparr>krn := (krn p)\<lparr>kcount := n, kerrno := e\<rparr>\<rparr>)" by (simp add: quiet_def)

lemma quietD:
  assumes "quiet p q"
  obtains n e where "q = p\<lparr>krn := (krn p)\<lparr>kcount := n, kerrno := e\<rparr>\<rparr>"
  using assms by (auto simp: quiet_def)

lemma wroteI: "wrote m p (p\<lparr>krn := (krn p)\<lparr>kmem := m, kcount := n, kerrno := e, klog := l\<rparr>\<rparr>)"
  by (simp add: wrote_def)

lemma wroteD:
  assumes "wrote m p q"
  obtains n e l where "q = p\<lparr>krn := (krn p)\<lparr>kmem := m, kcount := n, kerrno := e, klog := l\<rparr>\<rparr>"
  using assms by (auto simp: wrote_def)

lemma quiet_trans: "quiet p q \<Longrightarrow> quiet q r \<Longrightarrow> quiet p r"
  by (auto elim!: quietD intro: quietI)

lemma wrote_trans: "wrote m p q \<Longrightarrow> wrote m' q r \<Longrightarrow> wrote m' p r"
  by (auto elim!: wroteD intro: wroteI)

lemma wrote_quiet: "wrote m p q \<Longrightarrow> quiet q r \<Longrightarrow> wrote m p r"
  by (elim wroteD quietD) (simp add: wrote_def)

lemma quiet_wrote: "quiet p q \<Longrightarrow> wrote m q r \<Longrightarrow> wrote m p r"
  by (elim wroteD quietD) (simp add: wrote_def)

lemma quiet_is_wrote: "quiet p q \<Longrightarrow> wrote (kmem (krn p)) p q"
  by (elim quietD) (simp add: wrote_def)

lemma kspace_upd [simp]:
  "kspace (k\<lparr>kcount := n\<rparr>) = kspace k" "kspace (k\<lparr>kerrno := e\<rparr>) = kspace k"
  "kspace (k\<lparr>klog := l\<rparr>) = kspace k"
  "kspace (k\<lparr>kmem := (kmem k)(kvm k lwp := m)\<rparr>) lwp = m"
  by (simp_all add: kspace_def fun_eq_iff)

lemma quiet_kspace: "quiet p q \<Longrightarrow> kspace (krn q) = kspace (krn p)"
  by (elim quietD) (simp add: kspace_def fun_eq_iff)

lemma checked_peek:
  "checked (Pptrace PEEKDATA lwp a d) p =
     (case kfail (krn p) (kcount (krn p)) of
        Some e \<Rightarrow> (Inl (Tracer_exn (convert_error_code e)),
                   p\<lparr>krn := (krn p)\<lparr>kcount := Suc (kcount (krn p)), kerrno := Some e\<rparr>\<rparr>)
      | None \<Rightarrow> (Inr (dec64 (mem_read (kspace (krn p) lwp) a 8)),
                 p\<lparr>krn := (krn p)\<lparr>kcount := Suc (kcount (krn p)), kerrno := None\<rparr>\<rparr>))"
  by (simp add: checked_def Pptrace_def ksys_def act_simps throw_errno_def errno_of_def kspace_def
      split: option.split)

lemma checked_poke:
  "checked (Pptrace POKEDATA lwp a d) p =
     (case kfail (krn p) (kcount (krn p)) of
        Some e \<Rightarrow> (Inl (Tracer_exn (convert_error_code e)),
                   p\<lparr>krn := (krn p)\<lparr>kcount := Suc (kcount (krn p)), kerrno := Some e\<rparr>\<rparr>)
      | None \<Rightarrow> (Inr 0, p\<lparr>krn := (krn p)\<lparr>
            kmem := (kmem (krn p))(kvm (krn p) lwp := mem_write (kspace (krn p) lwp) a (enc64 d)),
            kcount := Suc (kcount (krn p)), klog := klog (krn p) @ [(POKEDATA, lwp, a, d)]\<rparr>\<rparr>))"
  by (simp add: checked_def Pptrace_def ksys_def act_simps throw_errno_def errno_of_def kspace_def
      split: option.split)

lemma read_words_spec:
  "read_words lwp a n p = (r, q) \<Longrightarrow>
   quiet p q \<and> (case r of Inr bs \<Rightarrow> bs = mem_read (kspace (krn p) lwp) a (8 * n)
                        | Inl e \<Rightarrow> (\<exists>e'. e = Tracer_exn e'))"
proof (induction n arbitrary: a p r q)
  case 0
  then show ?case by (auto simp: act_simps mem_read_def)
next
  case (Suc n)
  show ?case
  proof (cases "kfail (krn p) (kcount (krn p))")
    case (Some e)
    then show ?thesis using Suc.prems
      by (auto simp: act_simps checked_peek intro: quietI)
  next
    case None
    let ?p = "p\<lparr>krn := (krn p)\<lparr>kcount := Suc (kcount (krn p)), kerrno := None\<rparr>\<rparr>"
    obtain r1 q1 where r1: "read_words lwp (a + 8) n ?p = (r1, q1)" by fastforce
    have q: "quiet p ?p" by (rule quietI)
    note IH = Suc.IH [OF r1] and k = quiet_kspace [OF q]
    have m: "mem_read (kspace (krn p) lwp) a (8 * Suc n) =
        mem_read (kspace (krn p) lwp) a 8 @ mem_read (kspace (krn p) lwp) (a + 8) (8 * n)"
      using mem_read_add [of "kspace (krn p) lwp" a 8 "8 * n"] by (simp del: mult_Suc_right add: mult_Suc_right [symmetric])
    from IH show ?thesis
      using Suc.prems None r1 quiet_trans [OF q]
      by (auto simp: act_simps checked_peek m k enc64_dec64 simp del: mult_Suc_right split: sum.splits)
  qed
qed


lemma get_pid_state: "get_pid c p = (r, q) \<Longrightarrow> q = p"
  by (auto simp: get_pid_def act_simps split: if_splits list.splits option.splits)

lemma get_pid_quiet: "quiet p q \<Longrightarrow> get_pid c p = (Inr lwp, p) \<Longrightarrow> get_pid c q = (Inr lwp, q)"
  by (elim quietD) (auto simp: get_pid_def get_master_thread_pid_def act_simps split: if_splits list.splits option.splits)

lemma get_pid_wrote: "wrote m p q \<Longrightarrow> get_pid c p = (Inr lwp, p) \<Longrightarrow> get_pid c q = (Inr lwp, q)"
  by (elim wroteD) (auto simp: get_pid_def get_master_thread_pid_def act_simps split: if_splits list.splits option.splits)

lemma tracer_read_spec:
  assumes "tracer_read a len c p = (Inr bs, q)" and "get_pid c p = (Inr lwp, p)"
  shows "quiet p q \<and> bs = mem_read (kspace (krn p) lwp) a (nat len)"
proof -
  let ?n = "nat len div 8" and ?r = "nat len mod 8"
  obtain r1 q1 where w: "read_words lwp a ?n p = (r1, q1)" by fastforce
  note rw = read_words_spec [OF w]
  have len: "nat len = 8 * ?n + ?r" by simp
  have m: "mem_read (kspace (krn p) lwp) a (nat len) = mem_read (kspace (krn p) lwp) a (8 * ?n) @
      mem_read (kspace (krn p) lwp) (a + of_nat (8 * ?n)) ?r"
    by (subst len, subst mem_read_add) simp
  show ?thesis
  proof (cases "?r = 0")
    case True
    then show ?thesis using assms w rw m
      by (auto simp: tracer_read_def act_simps Let_def mem_read_def split: if_splits sum.splits)
  next
    case False
    have r8: "take ?r (mem_read f x 8) = mem_read f x ?r" for f x
      by (rule take_mem_read) simp
    from False assms w rw have k: "kspace (krn q1) = kspace (krn p)"
      by (simp add: quiet_kspace)
    show ?thesis
      using False assms w rw
      by (auto simp: tracer_read_def act_simps Let_def checked_peek enc64_dec64 k r8 m
          split: if_splits sum.splits option.splits intro!: quiet_trans [OF _ quietI])
  qed
qed

text \<open>Nothing the tracer reads with changes the process or its memory, whether it succeeds or not.\<close>

lemma quiet_bind:
  assumes "\<And>r q. m p = (r, q) \<Longrightarrow> quiet p q"
    and "\<And>x q r s. m p = (Inr x, q) \<Longrightarrow> f x q = (r, s) \<Longrightarrow> quiet q s"
    and "bindA m f p = (r, s)"
  shows "quiet p s"
  using assms by (fastforce simp: bindA_def split: prod.splits sum.splits intro: quiet_trans)

lemma quiet_peek: "checked (Pptrace PEEKDATA lwp a d) p = (r, q) \<Longrightarrow> quiet p q"
  by (auto simp: checked_peek split: option.splits intro: quietI)

lemma quiet_get_pid: "get_pid c p = (r, q) \<Longrightarrow> quiet p q"
  by (drule get_pid_state) simp

lemma tracer_read_quiet: "tracer_read a len c p = (r, q) \<Longrightarrow> quiet p q"
  unfolding tracer_read_def
  apply (erule quiet_bind [rotated 2])
   apply (erule quiet_get_pid)
  apply (auto simp: Let_def throw_def split: if_splits)
  apply (erule quiet_bind [rotated 2])
   apply (drule read_words_spec, simp)
  apply (auto simp: ret_def split: if_splits)
  apply (erule quiet_bind [rotated 2])
   apply (erule quiet_peek)
  apply (simp add: ret_def)
  done

lemma write_words_spec:
  assumes "write_words lwp a bs n p = (Inr u, q)" and "8 * n \<le> length bs" and "8 * n \<le> 2 ^ 64"
  shows "wrote ((kmem (krn p))(kvm (krn p) lwp := mem_write (kspace (krn p) lwp) a (take (8 * n) bs))) p q"
  using assms
proof (induction n arbitrary: a bs p)
  case 0
  then show ?case
    by (auto simp: act_simps kspace_def fun_upd_idem wrote_def)
next
  case (Suc n)
  then show ?case
  proof (cases "kfail (krn p) (kcount (krn p))")
    case None
    let ?m = "mem_write (kspace (krn p) lwp) a (take 8 bs)"
    let ?p = "p\<lparr>krn := (krn p)\<lparr>kmem := (kmem (krn p))(kvm (krn p) lwp := ?m),
        kcount := Suc (kcount (krn p)), klog := klog (krn p) @ [(POKEDATA, lwp, a, dec64 (take 8 bs))]\<rparr>\<rparr>"
    have e: "enc64 (dec64 (take 8 bs)) = take 8 bs" using Suc.prems(2) by (intro enc64_dec64) simp
    have "write_words lwp (a + 8) (drop 8 bs) n ?p = (Inr u, q)"
      using Suc.prems(1) None by (simp add: act_simps checked_poke e)
    moreover have "8 * n \<le> length (drop 8 bs)" "8 * n \<le> 2 ^ 64" using Suc.prems(2,3) by simp_all
    ultimately have "wrote ((kmem (krn ?p))(kvm (krn ?p) lwp :=
        mem_write (kspace (krn ?p) lwp) (a + 8) (take (8 * n) (drop 8 bs)))) ?p q"
      by (rule Suc.IH)
    moreover have "kmem (krn ?p) = (kmem (krn p))(kvm (krn p) lwp := ?m)" "kvm (krn ?p) = kvm (krn p)"
      "kspace (krn ?p) lwp = ?m" by simp_all
    ultimately have "wrote ((kmem (krn p))(kvm (krn p) lwp :=
        mem_write ?m (a + 8) (take (8 * n) (drop 8 bs)))) ?p q"
      by (simp only: fun_upd_upd)
    moreover have "mem_write ?m (a + 8) (take (8 * n) (drop 8 bs)) = mem_write (kspace (krn p) lwp) a (take (8 * Suc n) bs)"
    proof -
      have "length (take 8 bs) = 8" "length (take (8 * n) (drop 8 bs)) = 8 * n"
        using Suc.prems(2) by simp_all
      then show ?thesis
        using mem_write_append [of "take 8 bs" "take (8 * n) (drop 8 bs)" "kspace (krn p) lwp" a] Suc.prems(3)
        by (simp add: take_add del: length_take length_drop)
    qed
    ultimately have "wrote ((kmem (krn p))(kvm (krn p) lwp :=
        mem_write (kspace (krn p) lwp) a (take (8 * Suc n) bs))) ?p q"
      by (simp only:)
    moreover have "wrote ((kmem (krn p))(kvm (krn p) lwp := ?m)) p ?p"
      by (simp add: wrote_def)
    ultimately show ?thesis by (rule wrote_trans [rotated])
  qed (auto simp: act_simps checked_poke)
qed

lemma tracer_write_spec:
  assumes "tracer_write a bs c p = (Inr u, q)" and "get_pid c p = (Inr lwp, p)"
  shows "wrote ((kmem (krn p))(kvm (krn p) lwp := mem_write (kspace (krn p) lwp) a bs)) p q"
proof -
  let ?n = "length bs div 8" and ?t = "drop (8 * (length bs div 8)) bs"
  have ok: "range_ok a (int (length bs))"
    using assms by (auto simp: tracer_write_def act_simps Let_def split: if_splits)
  then have len: "length bs \<le> 2 ^ 64 - 8" by (simp add: range_ok_def)
  have n: "8 * ?n \<le> length bs" by simp
  obtain r1 q1 where w: "write_words lwp a bs ?n p = (r1, q1)" by fastforce
  from assms w ok obtain u1 where r1: "r1 = Inr u1"
    by (cases r1) (auto simp: tracer_write_def act_simps Let_def)
  from n len have n64: "8 * ?n \<le> 2 ^ 64" by linarith
  note ww = write_words_spec [OF w [unfolded r1] n n64]
  show ?thesis
  proof (cases "?t = []")
    case True
    then have "take (8 * ?n) bs = bs" by simp
    then show ?thesis using True assms w r1 ww ok
      by (simp add: tracer_write_def act_simps Let_def)
  next
    case False
    let ?a = "a + of_nat (8 * ?n)"
    let ?w = "?t @ drop (length ?t) (mem_read (kspace (krn q1) lwp) ?a 8)"
    have t: "length ?t < 8" "length ?w = 8" by simp_all
    have sp: "kspace (krn q1) lwp = mem_write (kspace (krn p) lwp) a (take (8 * ?n) bs)"
      "kvm (krn q1) = kvm (krn p)"
      using ww by (auto elim!: wroteD simp: kspace_def)
    have tail: "mem_write (kspace (krn q1) lwp) ?a ?w = mem_write (kspace (krn q1) lwp) ?a ?t"
    proof (rule ext)
      fix x
      show "mem_write (kspace (krn q1) lwp) ?a ?w x = mem_write (kspace (krn q1) lwp) ?a ?t x"
        using t by (auto simp: mem_write_def nth_append nth_mem_read)
    qed
    have whole: "mem_write (mem_write (kspace (krn p) lwp) a (take (8 * ?n) bs)) ?a ?t =
        mem_write (kspace (krn p) lwp) a bs"
      using mem_write_append [of "take (8 * ?n) bs" ?t "kspace (krn p) lwp" a] len n
      by (simp add: min_absorb2)
    have "wrote ((kmem (krn q1))(kvm (krn q1) lwp := mem_write (kspace (krn q1) lwp) ?a ?w)) q1 q"
      using False assms w r1 ok t
      by (auto simp: tracer_write_def act_simps Let_def checked_peek checked_poke enc64_dec64 wrote_def
          split: option.splits)
    from wrote_trans [OF ww this] show ?thesis
      unfolding tail unfolding sp whole using ww by (auto elim!: wroteD simp: kspace_def intro: wroteI)
  qed
qed


section \<open>Reading and writing the target\<close>

definition reliable :: "'a machine_scheme \<Rightarrow> bool" where
  "reliable p \<longleftrightarrow> (\<forall>n. kfail (krn p) n = None)"

lemma reliable_quiet: "quiet p q \<Longrightarrow> reliable p \<Longrightarrow> reliable q"
  by (elim quietD) (simp add: reliable_def)

lemma reliable_wrote: "wrote m p q \<Longrightarrow> reliable p \<Longrightarrow> reliable q"
  by (elim wroteD) (simp add: reliable_def)

lemma read_words_live: "reliable p \<Longrightarrow> \<exists>bs q. read_words lwp a n p = (Inr bs, q)"
proof (induction n arbitrary: a p)
  case 0
  then show ?case by (simp add: act_simps)
next
  case (Suc n)
  let ?p = "p\<lparr>krn := (krn p)\<lparr>kcount := Suc (kcount (krn p)), kerrno := None\<rparr>\<rparr>"
  have "reliable ?p" using Suc.prems by (simp add: reliable_def)
  from Suc.IH [OF this] obtain bs q where "read_words lwp (a + 8) n ?p = (Inr bs, q)" by blast
  with Suc.prems show ?case
    by (simp add: act_simps checked_peek reliable_def)
qed

lemma tracer_read_live:
  assumes "reliable p" and "range_ok a len" and "get_pid c p = (Inr lwp, p)"
  shows "\<exists>q. tracer_read a len c p = (Inr (mem_read (kspace (krn p) lwp) a (nat len)), q) \<and> quiet p q"
proof -
  obtain bs q where r: "read_words lwp a (nat len div 8) p = (Inr bs, q)"
    using read_words_live [OF assms(1)] by blast
  have "reliable q" using read_words_spec [OF r] reliable_quiet assms(1) by blast
  then obtain cs q' where t: "tracer_read a len c p = (Inr cs, q')"
    using r assms(2,3)
    by (cases "nat len mod 8 = 0")
      (simp_all add: tracer_read_def act_simps Let_def checked_peek reliable_def)
  with tracer_read_spec [OF t assms(3)] show ?thesis by auto
qed

lemma write_words_live: "reliable p \<Longrightarrow> \<exists>q. write_words lwp a bs n p = (Inr (), q) \<and> reliable q"
proof (induction n arbitrary: a bs p)
  case 0
  then show ?case by (simp add: act_simps)
next
  case (Suc n)
  let ?p = "snd (checked (Pptrace POKEDATA lwp a (dec64 (take 8 bs))) p)"
  have "reliable ?p" using Suc.prems by (simp add: reliable_def checked_poke)
  from Suc.IH [OF this] Suc.prems show ?case
    by (auto simp: act_simps checked_poke reliable_def)
qed

lemma tracer_write_live:
  assumes "reliable p" and "range_ok a (int (length bs))" and "get_pid c p = (Inr lwp, p)"
  shows "\<exists>q. tracer_write a bs c p = (Inr (), q)"
proof -
  obtain q where "write_words lwp a bs (length bs div 8) p = (Inr (), q)" and "reliable q"
    using write_words_live [OF assms(1)] by blast
  then show ?thesis using assms(2,3)
    by (cases "drop (8 * (length bs div 8)) bs = []")
      (simp_all add: tracer_write_def act_simps Let_def checked_peek checked_poke reliable_def)
qed

lemma mem_write_outside: "\<not> unat (x - a) < length bs \<Longrightarrow> mem_write m a bs x = m x"
  by (simp add: mem_write_def)

text \<open>With a kernel that serves every request, \<open>tracer_write\<close> of any number of
  bytes, multiple of the word size or not, succeeds, \<open>tracer_read\<close> of the range gives the
  same bytes, and no byte outside the range or in another address space has changed.\<close>

theorem tracer_write_read:
  assumes "reliable p" and "range_ok a (int (length bs))" and "get_pid c p = (Inr lwp, p)"
  shows "\<exists>q r. tracer_write a bs c p = (Inr (), q) \<and>
    tracer_read a (int (length bs)) c q = (Inr bs, r) \<and>
    (\<forall>s x. kmem (krn r) s x \<noteq> kmem (krn p) s x \<longrightarrow> s = kvm (krn p) lwp \<and> unat (x - a) < length bs)"
proof -
  obtain q where w: "tracer_write a bs c p = (Inr (), q)"
    using tracer_write_live [OF assms] by blast
  note ws = tracer_write_spec [OF w assms(3)]
  have q: "reliable q" "get_pid c q = (Inr lwp, q)"
    using ws assms reliable_wrote get_pid_wrote by blast+
  have sp: "kspace (krn q) lwp = mem_write (kspace (krn p) lwp) a bs"
    using ws by (auto elim!: wroteD)
  have len: "length bs \<le> 2 ^ 64" using assms(2) by (simp add: range_ok_def)
  obtain r where r: "tracer_read a (int (length bs)) c q = (Inr bs, r)" "quiet q r"
    using tracer_read_live [OF q(1) assms(2) q(2)] mem_read_write [OF len] sp by auto
  have "\<forall>s x. kmem (krn r) s x \<noteq> kmem (krn p) s x \<longrightarrow> s = kvm (krn p) lwp \<and> unat (x - a) < length bs"
    using ws r(2) by (auto elim!: wroteD quietD simp: kspace_def mem_write_def split: if_splits)
  with w r(1) show ?thesis by blast
qed

definition demo_machine :: machine where
  "demo_machine = \<lparr>never_trapped = False, please_detach = False, please_kill = False,
     preason = reserved_for_rent, myimage = None, mydynloader_image = None,
     mythread_lib_image = None, mylibc_image = None, myrmso_image = None, rid = -1,
     launch_hidden_bp = Some (snd (bp_do_set (linux_breakpoint0\<lparr>address_at := 0x400000\<rparr>))),
     loader_hidden_bp = None, sym_attach_fifo = None,
     thrlist = [(42, linux_x86_thread0\<lparr>master_thread := True, master_pid := 42\<rparr>)],
     thread_ctx_stack = [42], new_child_pid = 0,
     krn = \<lparr>kmem = (\<lambda>_ a. ucast a), kvm = (\<lambda>_. 1), kregs = (\<lambda>_. replicate 27 0), kmsg = (\<lambda>_. 0),
       kstat = (\<lambda>_. Some ''t''), kfail = (\<lambda>_. None), kcount = 0, kerrno = None, klog = []\<rparr>\<rparr>"

lemma demo_machine_pid: "get_pid c demo_machine = (Inr 42, demo_machine)"
  by (simp add: get_pid_def demo_machine_def act_simps thr2pid_def get_master_thread_pid_def)

lemma demo_machine_reliable: "reliable demo_machine"
  by (simp add: reliable_def demo_machine_def)

theorem tracer_write_read_witness:
  "\<exists>q r. tracer_write 0x600000 [1, 2, 3, 4, 5, 6, 7, 8, 9, 10, 11] True demo_machine = (Inr (), q) \<and>
    tracer_read 0x600000 11 True q = (Inr [1, 2, 3, 4, 5, 6, 7, 8, 9, 10, 11], r)"
  using tracer_write_read [OF demo_machine_reliable _ demo_machine_pid,
      of "0x600000" "[1, 2, 3, 4, 5, 6, 7, 8, 9, 10, 11]" True]
  by (auto simp: range_ok_def)

section \<open>Reading strings\<close>

lemma read_string_words_spec:
  "read_string_words lwp a n p = (r, q) \<Longrightarrow>
   quiet p q \<and> (case r of
     Inr (bs, e) \<Rightarrow> \<exists>k \<le> n. bs = mem_read (kspace (krn p) lwp) a (8 * k) \<and>
        (e \<longrightarrow> 0 < k \<and> 0 \<in> set (drop (8 * (k - 1)) bs) \<and> 0 \<notin> set (take (8 * (k - 1)) bs)) \<and>
        (\<not> e \<longrightarrow> k = n \<and> 0 \<notin> set bs)
   | Inl e \<Rightarrow> (\<exists>e'. e = Tracer_exn e'))"
proof (induction n arbitrary: a p r q)
  case 0
  then show ?case by (auto simp: act_simps mem_read_def)
next
  case (Suc n)
  show ?case
  proof (cases "kfail (krn p) (kcount (krn p))")
    case (Some e)
    then show ?thesis using Suc.prems
      by (auto simp: act_simps checked_peek intro: quietI)
  next
    case None
    let ?p = "p\<lparr>krn := (krn p)\<lparr>kcount := Suc (kcount (krn p)), kerrno := None\<rparr>\<rparr>"
    let ?w = "mem_read (kspace (krn p) lwp) a 8"
    have q: "quiet p ?p" by (rule quietI)
    have z: "word_has_nul (dec64 ?w) \<longleftrightarrow> 0 \<in> set ?w"
      by (simp add: word_has_nul_iff enc64_dec64)
    show ?thesis
    proof (cases "0 \<in> set ?w")
      case True
      then have "r = Inr (?w, True)" "q = ?p" using Suc.prems None z
        by (auto simp: act_simps checked_peek enc64_dec64)
      with True q show ?thesis by (auto intro!: exI [of _ 1])
    next
      case False
      obtain r1 q1 where r1: "read_string_words lwp (a + 8) n ?p = (r1, q1)" by fastforce
      note IH = Suc.IH [OF r1]
      have m: "mem_read (kspace (krn p) lwp) a (8 * Suc k) = ?w @ mem_read (kspace (krn p) lwp) (a + 8) (8 * k)" for k
        using mem_read_add [of "kspace (krn p) lwp" a 8 "8 * k"]
        by (simp del: mult_Suc_right add: mult_Suc_right [symmetric])
      have eq: "q = q1 \<and> r = (case r1 of Inl e \<Rightarrow> Inl e | Inr (bs, e) \<Rightarrow> Inr (?w @ bs, e))"
        using Suc.prems None z False r1
        by (auto simp: act_simps checked_peek enc64_dec64 split: sum.splits)
      have "quiet p q" using quiet_trans [OF q] IH eq by simp
      moreover have "case r of
         Inr (bs, e) \<Rightarrow> \<exists>k \<le> Suc n. bs = mem_read (kspace (krn p) lwp) a (8 * k) \<and>
            (e \<longrightarrow> 0 < k \<and> 0 \<in> set (drop (8 * (k - 1)) bs) \<and> 0 \<notin> set (take (8 * (k - 1)) bs)) \<and>
            (\<not> e \<longrightarrow> k = Suc n \<and> 0 \<notin> set bs)
       | Inl e \<Rightarrow> (\<exists>e'. e = Tracer_exn e')"
      proof (cases r1)
        case (Inl e)
        then show ?thesis using IH eq by auto
      next
        case (Inr be)
        then obtain bs e k where k: "be = (bs, e)" "k \<le> n"
            "bs = mem_read (kspace (krn p) lwp) (a + 8) (8 * k)"
            "e \<longrightarrow> 0 < k \<and> 0 \<in> set (drop (8 * (k - 1)) bs) \<and> 0 \<notin> set (take (8 * (k - 1)) bs)"
            "\<not> e \<longrightarrow> k = n \<and> 0 \<notin> set bs"
          using IH by (cases be) auto
        have d: "8 * k - length ?w = 8 * (k - 1)" by simp
        show ?thesis
          using eq Inr k False
          by (auto simp: m simp del: mult_Suc_right intro!: exI [of _ "Suc k"])
            (auto simp: d diff_mult_distrib2)
      qed
      ultimately show ?thesis by blast
    qed
  qed
qed


lemma read_string_words_live: "reliable p \<Longrightarrow> \<exists>be q. read_string_words lwp a n p = (Inr be, q)"
proof (induction n arbitrary: a p)
  case 0
  then show ?case by (simp add: act_simps) blast
next
  case (Suc n)
  let ?p = "p\<lparr>krn := (krn p)\<lparr>kcount := Suc (kcount (krn p)), kerrno := None\<rparr>\<rparr>"
  have "reliable ?p" using Suc.prems by (simp add: reliable_def)
  from Suc.IH [OF this] obtain be q where "read_string_words lwp (a + 8) n ?p = (Inr be, q)" by blast
  with Suc.prems show ?case
    by (cases be) (auto simp: act_simps checked_peek reliable_def)
qed

text \<open>What is in the buffer is a prefix of the memory, and it stops early only at a word with a NUL.\<close>

lemma tracer_read_string_live:
  assumes "reliable p" and "range_ok a len" and "get_pid c p = (Inr lwp, p)"
  shows "\<exists>m q. tracer_read_string a len c p = (Inr (mem_read (kspace (krn p) lwp) a m), q) \<and> quiet p q \<and>
    (m = nat len \<and> 0 \<notin> set (mem_read (kspace (krn p) lwp) a (8 * (nat len div 8))) \<or>
     m \<le> nat len \<and> (\<exists>k. m = 8 * Suc k \<and> 0 \<in> set (drop (8 * k) (mem_read (kspace (krn p) lwp) a m)) \<and>
        0 \<notin> set (mem_read (kspace (krn p) lwp) a (8 * k))))"
proof -
  let ?n = "nat len div 8" and ?f = "kspace (krn p) lwp"
  obtain bs e q where r: "read_string_words lwp a ?n p = (Inr (bs, e), q)"
    using read_string_words_live [OF assms(1)] by (metis surj_pair)
  note sp = read_string_words_spec [OF r, simplified]
  have q: "quiet p q" "kspace (krn q) = kspace (krn p)" "reliable q"
    using sp reliable_quiet quiet_kspace assms(1) by blast+
  show ?thesis
  proof (cases e)
    case True
    then obtain k where k: "k \<le> ?n" "bs = mem_read ?f a (8 * k)" "0 < k"
        "0 \<in> set (drop (8 * (k - 1)) bs)" "0 \<notin> set (take (8 * (k - 1)) bs)" using sp by auto
    then obtain j where j: "k = Suc j" by (cases k) auto
    have "tracer_read_string a len c p = (Inr (mem_read ?f a (8 * Suc j)), q)"
      using r assms(2,3) True k(2) j by (simp add: tracer_read_string_def act_simps Let_def)
    moreover have "0 \<in> set (drop (8 * j) (mem_read ?f a (8 * Suc j)))"
      using k(2,4) j by simp
    moreover have "0 \<notin> set (mem_read ?f a (8 * j))"
      using k(2,5) j by (simp add: take_mem_read)
    moreover have "8 * Suc j \<le> nat len" using k(1) j by simp
    ultimately show ?thesis using q(1) by blast
  next
    case False
    then have bs: "bs = mem_read ?f a (8 * ?n)" "0 \<notin> set bs" using sp by auto
    let ?r = "nat len mod 8"
    have len: "mem_read ?f a (nat len) = mem_read ?f a (8 * ?n) @ mem_read ?f (a + of_nat (8 * ?n)) ?r"
      using mem_read_add [of ?f a "8 * ?n" ?r] by simp
    have r8: "take ?r (mem_read ?f x 8) = mem_read ?f x ?r" for x
      by (rule take_mem_read) simp
    show ?thesis
    proof (cases "?r = 0")
      case True
      then have "8 * ?n = nat len" using mult_div_mod_eq [of 8 "nat len"] by simp
      then have "tracer_read_string a len c p = (Inr (mem_read ?f a (nat len)), q)"
        using r assms(2,3) True bs by (simp add: tracer_read_string_def act_simps Let_def)
      then show ?thesis using bs q(1) by auto
    next
      case False
      obtain q' where t: "tracer_read_string a len c p = (Inr (mem_read ?f a (nat len)), q')" "quiet q q'"
        using r assms(2,3) False \<open>\<not> e\<close> bs q r8 len
        by (auto simp: tracer_read_string_def act_simps Let_def checked_peek reliable_def enc64_dec64 quietI)
      then show ?thesis using bs q(1) quiet_trans by blast
    qed
  qed
qed

lemma round_up_aux: "n = 8 * q + r \<Longrightarrow> r < 8 \<Longrightarrow> q \<le> m \<Longrightarrow> n \<le> 8 * (m + 1)" for n q r m :: nat
  by simp

lemma word_round:
  fixes n l :: nat
  assumes "8 * (n div 8) \<le> l"
  shows "n \<le> 8 * (l div 8 + 1)"
proof -
  have "n div 8 \<le> l div 8" using div_le_mono [OF assms, of 8] by simp
  moreover have "n = 8 * (n div 8) + n mod 8" "n mod 8 < 8" by simp_all
  ultimately show ?thesis by (intro round_up_aux)
qed

lemma tracer_read_string_cstr:
  assumes "reliable p" and "range_ok a len" and "get_pid c p = (Inr lwp, p)"
    and "nul_free s" and "mem_read (kspace (krn p) lwp) a (length s + 1) = cstr s"
  shows "\<exists>bs q. tracer_read_string a len c p = (Inr bs, q) \<and> quiet p q \<and>
    read_cstr bs 0 = (if length s < nat len then Some s else None) \<and>
    length bs \<le> 8 * (length s div 8 + 1)"
proof -
  let ?f = "kspace (krn p) lwp"
  obtain m q where t: "tracer_read_string a len c p = (Inr (mem_read ?f a m), q)" "quiet p q"
    and m: "m = nat len \<and> 0 \<notin> set (mem_read ?f a (8 * (nat len div 8))) \<or>
     m \<le> nat len \<and> (\<exists>k. m = 8 * Suc k \<and> 0 \<in> set (drop (8 * k) (mem_read ?f a m)) \<and>
        0 \<notin> set (mem_read ?f a (8 * k)))"
    using tracer_read_string_live [OF assms(1-3)] by blast
  have nz: "0 \<notin> set (map char_byte s)"
    using assms(4) by (auto simp: nul_free_def char_byte_eq_0 [symmetric] dest!: sym [of 0])
  have short: "mem_read ?f a n = take n (map char_byte s)" if "n \<le> length s" for n
  proof -
    have "mem_read ?f a n = take n (mem_read ?f a (length s + 1))"
      using that by (simp add: take_mem_read)
    then show ?thesis using assms(5) that by (simp add: cstr_def)
  qed
  have long: "mem_read ?f a n = cstr s @ mem_read ?f (a + of_nat (length s + 1)) (n - (length s + 1))"
    if "length s < n" for n
    using mem_read_add [of ?f a "length s + 1" "n - (length s + 1)"] that assms(5) by simp
  have zero: "0 \<in> set (mem_read ?f a n) \<longleftrightarrow> length s < n" for n
  proof (cases "length s < n")
    case True
    then show ?thesis using long [OF True] by (simp add: cstr_def)
  next
    case False
    then show ?thesis using short [of n] nz by (auto dest: in_set_takeD)
  qed
  have rc: "read_cstr (mem_read ?f a m) 0 = (if length s < m then Some s else None)"
  proof (cases "length s < m")
    case True
    then show ?thesis using read_cstr_cstr [OF assms(4), of "[]"] long [OF True] by simp
  next
    case False
    then show ?thesis using zero [of m] by (simp add: read_cstr_def)
  qed
  have "(length s < m) = (length s < nat len) \<and> m \<le> 8 * (length s div 8 + 1)"
    using m
  proof (elim disjE conjE exE)
    assume "m = nat len" "0 \<notin> set (mem_read ?f a (8 * (nat len div 8)))"
    then have "8 * (nat len div 8) \<le> length s" "m = nat len"
      using zero [of "8 * (nat len div 8)"] by simp_all
    with word_round show ?thesis by blast
  next
    fix k assume k: "m \<le> nat len" "m = 8 * Suc k" "0 \<in> set (drop (8 * k) (mem_read ?f a m))"
      "0 \<notin> set (mem_read ?f a (8 * k))"
    then have "length s < m" using zero [of m] in_set_dropD by fast
    moreover have "\<not> length s < 8 * k" using zero [of "8 * k"] k(4) by simp
    ultimately show ?thesis using k(1,2) by simp
  qed
  then show ?thesis using t rc by auto
qed

text \<open>\<open>tracer_read_string\<close> of a C string in the target's memory leaves
  exactly that string in the buffer when it fits, and never asks for a word beyond the one
  holding its terminator; when it does not fit, the buffer holds no terminator at all.\<close>

theorem tracer_read_string_correct:
  assumes "reliable p" and "range_ok a len" and "get_pid c p = (Inr lwp, p)"
    and "nul_free s" and "mem_read (kspace (krn p) lwp) a (length s + 1) = cstr s"
  shows "\<exists>bs q. tracer_read_string a len c p = (Inr bs, q) \<and> quiet p q \<and>
    read_cstr bs 0 = (if length s < nat len then Some s else None) \<and>
    length bs \<le> 8 * (length s div 8 + 1)"
  using assms by (rule tracer_read_string_cstr)

text \<open>A machine whose memory at \<open>0x600000\<close> is the string \<open>node7\<close>.\<close>

definition demo_string_machine :: machine where
  "demo_string_machine = demo_machine\<lparr>krn := (krn demo_machine)\<lparr>
     kmem := (\<lambda>_. mem_write (\<lambda>_. 0) 0x600000 (cstr ''node7''))\<rparr>\<rparr>"

theorem tracer_read_string_correct_witness:
  "\<exists>bs q. tracer_read_string 0x600000 1024 True demo_string_machine = (Inr bs, q) \<and>
     read_cstr bs 0 = Some ''node7'' \<and> length bs \<le> 8"
proof -
  have "reliable demo_string_machine"
    using demo_machine_reliable by (simp add: demo_string_machine_def reliable_def)
  moreover have "get_pid True demo_string_machine = (Inr 42, demo_string_machine)"
    by (simp add: demo_string_machine_def get_pid_def demo_machine_def act_simps thr2pid_def)
  moreover have "nul_free ''node7''" by (simp add: nul_free_def)
  moreover have "mem_read (kspace (krn demo_string_machine) 42) 0x600000 (length ''node7'' + 1) = cstr ''node7''"
    using mem_read_write [of "cstr ''node7''" "\<lambda>_. 0" "0x600000"]
    by (simp add: demo_string_machine_def kspace_def demo_machine_def)
  ultimately show ?thesis
    using tracer_read_string_correct [of demo_string_machine "0x600000" 1024 True 42 "''node7''"]
    by (auto simp: range_ok_def)
qed

end
