(* ===== verification/Bp_Trap.thy ===== *)
theory Bp_Trap
  imports Linux_Ptracer
begin

text \<open>
  What enabling and disabling a breakpoint does to the memory of the target. The tracer
  reads and writes a whole instruction word; the theorems say that only the trap byte ever
  differs, and that disabling puts the old byte back, in the traced process as well as in a
  forked child that inherited a copy of its memory.
\<close>

lemma krn_put_bp [simp]: "krn (put_bp s b p) = krn p"
  by (cases s; simp)

lemma put_bp_simps [simp]:
  "get_bp s (put_bp s b p) = b" "thrlist (put_bp s b p) = thrlist p" "thread_ctx_stack (put_bp s b p) = thread_ctx_stack p"
  "new_child_pid (put_bp s b p) = new_child_pid p"
  by (cases s; simp)+

lemma get_pid_put_bp: "get_pid c p = (Inr lwp, p) \<Longrightarrow> get_pid c (put_bp s b p) = (Inr lwp, put_bp s b p)"
  by (auto simp: get_pid_def get_master_thread_pid_def act_simps split: if_splits list.splits option.splits)

lemma get_bp_quiet: "quiet p q \<Longrightarrow> get_bp s q = get_bp s p"
  by (elim quietD; cases s; simp)

lemma get_bp_wrote: "wrote m p q \<Longrightarrow> get_bp s q = get_bp s p"
  by (elim wroteD; cases s; simp)

lemma the_bp_Inr: "the_bp s p = (Inr b, q) \<longleftrightarrow> get_bp s p = Some b \<and> q = p"
  by (auto simp: the_bp_def act_simps split: option.splits)

lemma upd_bp_Inr: "upd_bp s f p = (Inr u, q) \<longleftrightarrow> (\<exists>b. get_bp s p = Some b \<and> q = put_bp s (Some (f b)) p)"
  by (auto simp: upd_bp_def bindA_Inr the_bp_Inr modA_def)

lemma enable_breakpoint_OK:
  assumes "enable_breakpoint s c ch p = (Inr SDBG_TRACE_OK, q)" and "get_bp s p = Some b"
    and "\<not> use_indirection b" and "get_pid c p = (Inr lwp, p)"
  defines "b1 \<equiv> b\<lparr>orig_instruction := dec64 (mem_read (kspace (krn p) lwp) (address_at b) 8)\<rparr>"
  shows "get_bp s q = Some (if ch then b1\<lparr>bp_status := bp_enabled\<rparr> else b1)"
    and "kmem (krn q) = (kmem (krn p))(kvm (krn p) lwp :=
           mem_write (kspace (krn p) lwp) (address_at b) (enc64 (bp_blend b1)))"
    and "kvm (krn q) = kvm (krn p)"
    and "is_set b \<or> is_disabled b"
proof -
  have t: "bp_target b = address_at b" "bp_target b1 = address_at b"
    using assms(3) by (simp_all add: bp_target_def b1_def)
  show st: "is_set b \<or> is_disabled b"
    using assms(1,2) by (auto simp: enable_breakpoint_def bindA_Inr the_bp_Inr ret_def split: if_splits)
  obtain bs p1 p2 p3 where r: "tracer_read (address_at b) 8 c p = (Inr bs, p1)"
    and p2: "p2 = put_bp s (Some (b\<lparr>orig_instruction := dec64 bs\<rparr>)) p1"
    and w: "tracer_write (bp_target (b\<lparr>orig_instruction := dec64 bs\<rparr>))
        (enc64 (bp_blend (b\<lparr>orig_instruction := dec64 bs\<rparr>))) c p2 = (Inr (), p3)"
    and q: "whenA ch (upd_bp s (\<lambda>b. snd (bp_do_enable b))) p3 = (Inr (), q)"
    using assms(1-3) st get_bp_quiet tracer_read_quiet
    by (fastforce simp: enable_breakpoint_def bindA_Inr the_bp_Inr upd_bp_Inr ret_def whenA_def t)
  have rs: "quiet p p1" "bs = mem_read (kspace (krn p) lwp) (address_at b) 8"
    using tracer_read_spec [OF r assms(4)] by simp_all
  then have b1: "b\<lparr>orig_instruction := dec64 bs\<rparr> = b1" by (simp add: b1_def)
  have "get_pid c p2 = (Inr lwp, p2)"
    using get_pid_put_bp get_pid_quiet [OF rs(1) assms(4)] p2 by blast
  from tracer_write_spec [OF w this]
  have wr: "wrote ((kmem (krn p))(kvm (krn p) lwp :=
      mem_write (kspace (krn p) lwp) (address_at b) (enc64 (bp_blend b1)))) p2 p3"
    using rs(1) quiet_kspace [OF rs(1)] by (auto simp: p2 b1 t elim!: quietD)
  have g: "get_bp s p3 = Some b1" using get_bp_wrote [OF wr] p2 b1 by simp
  have k: "krn q = krn p3"
    using q by (auto simp: whenA_def ret_def upd_bp_Inr split: if_splits)
  show "get_bp s q = Some (if ch then b1\<lparr>bp_status := bp_enabled\<rparr> else b1)"
    using q g st by (auto simp: whenA_def ret_def upd_bp_Inr bp_do_enable_eq b1_def bp_status_simps split: if_splits)
  show "kmem (krn q) = (kmem (krn p))(kvm (krn p) lwp :=
      mem_write (kspace (krn p) lwp) (address_at b) (enc64 (bp_blend b1)))"
    using wr k by (auto elim!: wroteD)
  show "kvm (krn q) = kvm (krn p)"
    using wr k rs(1) p2 by (auto elim!: wroteD quietD)
qed

lemma mem_write_Cons_same:
  assumes "length bs \<le> 7"
  shows "mem_write m a (x # mem_read m (a + 1) (length bs)) = m(a := x)"
proof -
  have eq: "mem_read m (a + 1) (length bs) = mem_read (mem_write m a [x]) (a + 1) (length bs)"
  proof (rule nth_equalityI)
    fix i assume i: "i < length (mem_read m (a + 1) (length bs))"
    have "unat (a + 1 + of_nat i - a) = i + 1"
      using i assms unat_offset [of "i + 1" a] by (simp add: add.assoc)
    then show "mem_read m (a + 1) (length bs) ! i = mem_read (mem_write m a [x]) (a + 1) (length bs) ! i"
      using i by (simp add: nth_mem_read mem_write_def)
  qed simp
  have "mem_write m a (x # mem_read m (a + 1) (length bs)) =
      mem_write (mem_write m a [x]) (a + of_nat (length [x])) (mem_read m (a + 1) (length bs))"
    using assms by (subst mem_write_append) simp_all
  also have "\<dots> = mem_write m a [x]"
    unfolding eq using mem_write_read [of "length bs" "mem_write m a [x]" "a + 1"] assms by simp
  also have "mem_write m a [x] = m(a := x)"
    by (rule ext) (auto simp: mem_write_def unat_eq_0)
  finally show ?thesis .
qed

lemma mem_write_blend:
  "mem_write m a (enc64 ((dec64 (mem_read m a 8) AND 0xffffffffffffff00) OR 0xcc)) = m(a := 0xcc)"
proof -
  have "mem_read m a 8 = m a # mem_read m (a + 1) 7"
    using mem_read_add [of m a 1 7] by (simp add: mem_read_def)
  then have "tl (mem_read m a 8) = mem_read m (a + 1) (length (replicate 7 ()))" by simp
  then show ?thesis
    unfolding enc64_blend using mem_write_Cons_same [of "replicate 7 ()" m a "0xcc"]
    by (simp add: enc64_dec64)
qed

text \<open>The breakpoints of the engine are created by \<open>linux_breakpoint_t\<close>: direct, with the
  x86-64 trap and mask.\<close>

definition bp_x86 :: "breakpoint \<Rightarrow> bool" where
  "bp_x86 b \<longleftrightarrow> \<not> use_indirection b \<and> trap_instruction b = T_TRAP_INSTRUCTION \<and> blend_mask b = T_BLEND_MASK"

lemma enable_plants:
  assumes "enable_breakpoint s c ch p = (Inr SDBG_TRACE_OK, q)" and "get_bp s p = Some b"
    and "bp_x86 b" and "get_pid c p = (Inr lwp, p)"
  shows "kmem (krn q) = (kmem (krn p))(kvm (krn p) lwp := (kspace (krn p) lwp)(address_at b := 0xcc))"
    and "get_bp s q = Some (b\<lparr>orig_instruction := dec64 (mem_read (kspace (krn p) lwp) (address_at b) 8),
           bp_status := if ch then bp_enabled else bp_status b\<rparr>)"
    and "bp_status b \<in> {bp_set, bp_disabled}"
proof -
  have x: "\<not> use_indirection b" using assms(3) by (simp add: bp_x86_def)
  note e = enable_breakpoint_OK [OF assms(1,2) x assms(4)]
  show "kmem (krn q) = (kmem (krn p))(kvm (krn p) lwp := (kspace (krn p) lwp)(address_at b := 0xcc))"
    using e(2) assms(3) mem_write_blend
    by (simp add: bp_blend_def bp_x86_def T_TRAP_INSTRUCTION_def T_BLEND_MASK_def)
  show "get_bp s q = Some (b\<lparr>orig_instruction := dec64 (mem_read (kspace (krn p) lwp) (address_at b) 8),
           bp_status := if ch then bp_enabled else bp_status b\<rparr>)"
    using e(1) by simp
  show "bp_status b \<in> {bp_set, bp_disabled}" using e(4) by (auto simp: bp_status_simps)
qed

text \<open>Enabling a breakpoint, when the tracer reports success, has changed exactly
  one byte of the memory the thread sees, the one at its address, to the trap; the breakpoint
  was set or disabled before, is enabled after (when the state is to change) and has saved
  the eight original bytes.\<close>

theorem enable_plants_trap:
  assumes "enable_breakpoint s c ch p = (Inr SDBG_TRACE_OK, q)" and "get_bp s p = Some b"
    and "bp_x86 b" and "get_pid c p = (Inr lwp, p)"
  shows "kmem (krn q) = (kmem (krn p))(kvm (krn p) lwp := (kspace (krn p) lwp)(address_at b := 0xcc)) \<and>
    get_bp s q = Some (b\<lparr>orig_instruction := dec64 (mem_read (kspace (krn p) lwp) (address_at b) 8),
      bp_status := if ch then bp_enabled else bp_status b\<rparr>) \<and>
    bp_status b \<in> {bp_set, bp_disabled}"
  using enable_plants [OF assms] by simp

lemma reliable_put_bp [simp]: "reliable (put_bp s b p) = reliable p"
  by (simp add: reliable_def)

lemma enable_breakpoint_live:
  assumes "reliable p" and "get_bp s p = Some b" and "\<not> use_indirection b" and "is_set b \<or> is_disabled b"
    and "range_ok (address_at b) 8" and "get_pid c p = (Inr lwp, p)"
  shows "\<exists>q. enable_breakpoint s c ch p = (Inr SDBG_TRACE_OK, q) \<and> reliable q \<and> get_pid c q = (Inr lwp, q)"
proof -
  obtain p1 where r: "tracer_read (address_at b) 8 c p = (Inr (mem_read (kspace (krn p) lwp) (address_at b) 8), p1)"
    and p1: "quiet p p1"
    using tracer_read_live [OF assms(1,5,6)] by auto
  let ?b = "b\<lparr>orig_instruction := dec64 (mem_read (kspace (krn p) lwp) (address_at b) 8)\<rparr>"
  let ?p2 = "put_bp s (Some ?b) p1"
  have t: "bp_target b = address_at b" "bp_target ?b = address_at b"
    using assms(3) by (simp_all add: bp_target_def)
  have p2: "reliable ?p2" "get_pid c ?p2 = (Inr lwp, ?p2)"
    using reliable_quiet [OF p1 assms(1)] get_pid_put_bp [OF get_pid_quiet [OF p1 assms(6)]] by simp_all
  obtain p3 where w: "tracer_write (address_at b) (enc64 (bp_blend ?b)) c ?p2 = (Inr (), p3)"
    using tracer_write_live [OF p2(1) _ p2(2)] assms(5) by fastforce
  note wr = tracer_write_spec [OF w p2(2)]
  have p3: "reliable p3" "get_pid c p3 = (Inr lwp, p3)" "get_bp s p3 = Some ?b"
    using reliable_wrote [OF wr p2(1)] get_pid_wrote [OF wr p2(2)] get_bp_wrote [OF wr] by simp_all
  have b1: "get_bp s p1 = Some b" using get_bp_quiet [OF p1] assms(2) by simp
  let ?q = "if ch then put_bp s (Some (snd (bp_do_enable ?b))) p3 else p3"
  have "enable_breakpoint s c ch p = (Inr SDBG_TRACE_OK, ?q)"
    using assms(2-4) r b1 w p3(3) t
    by (simp add: enable_breakpoint_def bindA_def the_bp_def upd_bp_def whenA_def modA_def ret_def)
  moreover have "reliable ?q \<and> get_pid c ?q = (Inr lwp, ?q)"
    using p3 by (simp add: get_pid_put_bp)
  ultimately show ?thesis by blast
qed

definition demo_bp :: breakpoint where
  "demo_bp = snd (bp_do_set (linux_breakpoint0\<lparr>address_at := 0x400000\<rparr>))"

lemma demo_bp_x86: "bp_x86 demo_bp" "address_at demo_bp = 0x400000" "get_bp launch_bp demo_machine = Some demo_bp"
  by (simp_all add: bp_x86_def demo_bp_def bp_do_set_def demo_machine_def linux_breakpoint0_def)

definition demo_enabled :: machine where
  "demo_enabled = snd (enable_breakpoint launch_bp True True demo_machine)"

lemma demo_enabled_run:
  "enable_breakpoint launch_bp True True demo_machine = (Inr SDBG_TRACE_OK, demo_enabled)"
  "reliable demo_enabled" "get_pid True demo_enabled = (Inr 42, demo_enabled)"
proof -
  have "is_set demo_bp" by (simp add: demo_bp_def bp_do_set_def linux_breakpoint0_def is_set_def)
  then obtain q where q: "enable_breakpoint launch_bp True True demo_machine = (Inr SDBG_TRACE_OK, q)"
      "reliable q" "get_pid True q = (Inr 42, q)"
    using enable_breakpoint_live [OF demo_machine_reliable demo_bp_x86(3) _ _ _ demo_machine_pid]
      demo_bp_x86(1,2) by (auto simp: bp_x86_def range_ok_def)
  then show "enable_breakpoint launch_bp True True demo_machine = (Inr SDBG_TRACE_OK, demo_enabled)"
    "reliable demo_enabled" "get_pid True demo_enabled = (Inr 42, demo_enabled)"
    by (simp_all add: demo_enabled_def)
qed

theorem enable_plants_trap_witness:
  "kmem (krn demo_enabled) 1 0x400000 = 0xcc \<and> kmem (krn demo_enabled) 1 0x400001 = 0x01"
  using enable_plants_trap [OF demo_enabled_run(1) demo_bp_x86(3,1) demo_machine_pid]
  by (simp add: demo_bp_x86 demo_machine_def kspace_def)

lemma disable_breakpoint_OK:
  assumes "disable_breakpoint s c ch p = (Inr SDBG_TRACE_OK, q)" and "get_bp s p = Some b"
    and "\<not> use_indirection b" and "get_pid c p = (Inr lwp, p)"
  shows "get_bp s q = Some (if ch then b\<lparr>bp_status := bp_disabled\<rparr> else b)"
    and "kmem (krn q) = (kmem (krn p))(kvm (krn p) lwp :=
           mem_write (kspace (krn p) lwp) (address_at b) (enc64 (orig_instruction b)))"
    and "is_enabled b"
proof -
  show en: "is_enabled b"
    using assms(1,2) by (auto simp: disable_breakpoint_def bindA_Inr the_bp_Inr ret_def split: if_splits)
  obtain p1 where w: "tracer_write (address_at b) (enc64 (orig_instruction b)) c p = (Inr (), p1)"
    and q: "whenA ch (upd_bp s (\<lambda>b. snd (bp_do_disable b))) p1 = (Inr (), q)"
    using assms(1-3) en
    by (fastforce simp: disable_breakpoint_def bindA_Inr the_bp_Inr ret_def bp_target_def)
  note wr = tracer_write_spec [OF w assms(4)]
  have g: "get_bp s p1 = Some b" using get_bp_wrote [OF wr] assms(2) by simp
  show "get_bp s q = Some (if ch then b\<lparr>bp_status := bp_disabled\<rparr> else b)"
    using q g en by (auto simp: whenA_def ret_def upd_bp_Inr bp_do_disable_eq split: if_splits)
  have "krn q = krn p1"
    using q by (auto simp: whenA_def ret_def upd_bp_Inr split: if_splits)
  then show "kmem (krn q) = (kmem (krn p))(kvm (krn p) lwp :=
      mem_write (kspace (krn p) lwp) (address_at b) (enc64 (orig_instruction b)))"
    using wr by (auto elim!: wroteD)
qed

text \<open>A breakpoint enabled through one thread and later disabled, through the same
  or another one, in an address space that still shows the memory with the trap (the
  launcher's own, or the copy of a forked child) leaves that space byte for byte as the
  launcher's was before the trap, and no other address space is touched.\<close>

theorem disable_restores_memory:
  assumes "enable_breakpoint s c True p = (Inr SDBG_TRACE_OK, q)" and "get_bp s p = Some b"
    and "bp_x86 b" and "get_pid c p = (Inr lwp, p)"
    and "get_bp s q' = get_bp s q" and "kspace (krn q') lwp' = kspace (krn q) lwp"
    and "get_pid c' q' = (Inr lwp', q')"
    and "disable_breakpoint s c' ch q' = (Inr SDBG_TRACE_OK, r)"
  shows "kmem (krn r) = (kmem (krn q'))(kvm (krn q') lwp' := kspace (krn p) lwp)"
proof -
  let ?m = "kspace (krn p) lwp" and ?a = "address_at b"
  let ?b = "b\<lparr>orig_instruction := dec64 (mem_read ?m ?a 8), bp_status := bp_enabled\<rparr>"
  have x: "\<not> use_indirection b" using assms(3) by (simp add: bp_x86_def)
  note e = enable_plants [OF assms(1-4)]
  have "get_bp s q' = Some ?b" using e(2) assms(5) by simp
  from disable_breakpoint_OK(2) [OF assms(8) this _ assms(7)] x
  have d: "kmem (krn r) = (kmem (krn q'))(kvm (krn q') lwp' :=
      mem_write (kspace (krn q) lwp) ?a (mem_read ?m ?a 8))"
    using assms(6) by (simp add: enc64_dec64)
  have "kvm (krn q) = kvm (krn p)" using enable_breakpoint_OK(3) [OF assms(1,2) x assms(4)] .
  then have "kspace (krn q) lwp = ?m(?a := 0xcc)" using e(1) by (simp add: kspace_def)
  also have "\<dots> = mem_write ?m ?a (0xcc # tl (mem_read ?m ?a 8))"
    using mem_write_blend [of ?m ?a] by (simp add: enc64_blend enc64_dec64)
  finally have "mem_write (kspace (krn q) lwp) ?a (mem_read ?m ?a 8) = ?m"
    by (simp add: mem_write_twice mem_write_read)
  with d show ?thesis by simp
qed

lemma disable_breakpoint_live:
  assumes "reliable p" and "get_bp s p = Some b" and "\<not> use_indirection b" and "is_enabled b"
    and "range_ok (address_at b) 8" and "get_pid c p = (Inr lwp, p)"
  shows "\<exists>q. disable_breakpoint s c ch p = (Inr SDBG_TRACE_OK, q)"
proof -
  have t: "bp_target b = address_at b" using assms(3) by (simp add: bp_target_def)
  obtain p1 where w: "tracer_write (address_at b) (enc64 (orig_instruction b)) c p = (Inr (), p1)"
    using tracer_write_live [OF assms(1) _ assms(6)] assms(5) by fastforce
  have "get_bp s p1 = Some b"
    using get_bp_wrote [OF tracer_write_spec [OF w assms(6)]] assms(2) by simp
  then show ?thesis using assms(2,4) w t
    by (simp add: disable_breakpoint_def bindA_def the_bp_def upd_bp_def whenA_def modA_def ret_def)
qed

theorem disable_restores_memory_witness:
  "\<exists>r. disable_breakpoint launch_bp True True demo_enabled = (Inr SDBG_TRACE_OK, r) \<and>
     kmem (krn r) 1 = kmem (krn demo_machine) 1"
proof -
  have b: "get_bp launch_bp demo_enabled = Some (demo_bp\<lparr>
      orig_instruction := dec64 (mem_read (kspace (krn demo_machine) 42) (address_at demo_bp) 8),
      bp_status := bp_enabled\<rparr>)"
    using enable_plants(2) [OF demo_enabled_run(1) demo_bp_x86(3,1) demo_machine_pid] by simp
  obtain r where r: "disable_breakpoint launch_bp True True demo_enabled = (Inr SDBG_TRACE_OK, r)"
    using disable_breakpoint_live [OF demo_enabled_run(2) b _ _ _ demo_enabled_run(3)] demo_bp_x86
    by (auto simp: bp_x86_def range_ok_def is_enabled_def)
  have "kvm (krn demo_enabled) 42 = 1"
    using enable_breakpoint_OK(3) [OF demo_enabled_run(1) demo_bp_x86(3) _ demo_machine_pid] demo_bp_x86(1)
    by (simp add: bp_x86_def demo_machine_def)
  then show ?thesis
    using r disable_restores_memory [OF demo_enabled_run(1) demo_bp_x86(3,1) demo_machine_pid refl refl
        demo_enabled_run(3) r]
    by (simp add: kspace_def demo_machine_def)
qed

end
