(* ===== verification/Lmonp_Msg.thy ===== *)
theory Lmonp_Msg
  imports Raw_IO
begin

text \<open>
  The LMONP message of \<open>lmon_lmonp_msg.h\<close> and the operations of \<open>lmon_lmonp_msg.cxx\<close>
  on it: the enumerations with the values the compiler gives them, the header as a record
  and as the 28 bytes the wire carries, the header helpers, the payload offsets, and the
  calls that move whole messages. The locale \<open>byte_channel\<close> states what a receiver relies
  on; \<open>lmon_read_raw\<close> interprets it.
\<close>

unbundle bit_operations_syntax

section \<open>Enumerations\<close>

datatype lmon_msg_field_selector_e =
    field_class | field_type | field_security1 | field_security2 | field_long_num_tasks
  | field_lmon_payload_length | field_usr_payload_length

datatype lmonp_msg_class_e = lmonp_fetofe | lmonp_fetobe | lmonp_fetomw

fun class_code :: "lmonp_msg_class_e \<Rightarrow> nat" where
  "class_code lmonp_fetofe = 0"
| "class_code lmonp_fetobe = 1"
| "class_code lmonp_fetomw = 2"

datatype lmonp_fe_to_fe_msg_e =
    lmonp_conn_ack_no_error | lmonp_conn_ack_parse_error | lmonp_stop_at_launch_bp_spawned
  | lmonp_rminfo | lmonp_stop_at_launch_bp_abort | lmonp_proctable_avail
  | lmonp_resourcehandle_avail | lmonp_stop_at_first_exec | lmonp_stop_at_first_attach
  | lmonp_stop_at_loader_bp | lmonp_stop_at_thread_creation | lmonp_stop_at_thread_death
  | lmonp_stop_at_fork_bp | lmonp_stop_not_interested | lmonp_terminated | lmonp_exited
  | lmonp_detach_done | lmonp_kill_done | lmonp_stop_tracing | lmonp_bedmon_exited
  | lmonp_mwdmon_exited | lmonp_detach | lmonp_kill | lmonp_shutdownbe | lmonp_cont_launch_bp
  | lmonp_invalid

definition fetofe_all :: "lmonp_fe_to_fe_msg_e list" where
  "fetofe_all = [lmonp_conn_ack_no_error, lmonp_conn_ack_parse_error,
     lmonp_stop_at_launch_bp_spawned, lmonp_rminfo, lmonp_stop_at_launch_bp_abort,
     lmonp_proctable_avail, lmonp_resourcehandle_avail, lmonp_stop_at_first_exec,
     lmonp_stop_at_first_attach, lmonp_stop_at_loader_bp, lmonp_stop_at_thread_creation,
     lmonp_stop_at_thread_death, lmonp_stop_at_fork_bp, lmonp_stop_not_interested,
     lmonp_terminated, lmonp_exited, lmonp_detach_done, lmonp_kill_done, lmonp_stop_tracing,
     lmonp_bedmon_exited, lmonp_mwdmon_exited, lmonp_detach, lmonp_kill, lmonp_shutdownbe,
     lmonp_cont_launch_bp, lmonp_invalid]"

datatype lmonp_fe_to_be_msg_e =
    lmonp_febe_security_chk | lmonp_febe_proctab | lmonp_febe_usrdata | lmonp_febe_launch
  | lmonp_febe_launch_dontstop | lmonp_febe_attach | lmonp_febe_attach_stop
  | lmonp_febe_assist_mw_coloc | lmonp_febe_rm_type | lmonp_befe_hostname
  | lmonp_befe_usrdata | lmonp_befe_cont_launch_bp | lmonp_befe_ready

definition fetobe_all :: "lmonp_fe_to_be_msg_e list" where
  "fetobe_all = [lmonp_febe_security_chk, lmonp_febe_proctab, lmonp_febe_usrdata,
     lmonp_febe_launch, lmonp_febe_launch_dontstop, lmonp_febe_attach, lmonp_febe_attach_stop,
     lmonp_febe_assist_mw_coloc, lmonp_febe_rm_type, lmonp_befe_hostname, lmonp_befe_usrdata,
     lmonp_befe_cont_launch_bp, lmonp_befe_ready]"

datatype lmonp_fe_to_mw_msg_e =
    lmonp_femw_security_chk | lmonp_femw_proctab | lmonp_femw_usrdata | lmonp_mwfe_hostname
  | lmonp_mwfe_usrdata | lmonp_mwfe_ready

definition fetomw_all :: "lmonp_fe_to_mw_msg_e list" where
  "fetomw_all = [lmonp_femw_security_chk, lmonp_femw_proctab, lmonp_femw_usrdata,
     lmonp_mwfe_hostname, lmonp_mwfe_usrdata, lmonp_mwfe_ready]"

text \<open>The value of an enumerator is its position in the declaration.\<close>

fun pos_of :: "'a list \<Rightarrow> 'a \<Rightarrow> nat" where
  "pos_of [] x = 0"
| "pos_of (y # ys) x = (if x = y then 0 else Suc (pos_of ys x))"

definition fetofe_code :: "lmonp_fe_to_fe_msg_e \<Rightarrow> nat" where "fetofe_code = pos_of fetofe_all"
definition fetobe_code :: "lmonp_fe_to_be_msg_e \<Rightarrow> nat" where "fetobe_code = pos_of fetobe_all"
definition fetomw_code :: "lmonp_fe_to_mw_msg_e \<Rightarrow> nat" where "fetomw_code = pos_of fetomw_all"

lemma nth_pos_of: "x \<in> set xs \<Longrightarrow> xs ! pos_of xs x = x \<and> pos_of xs x < length xs"
  by (induction xs) auto

lemma fetofe_all_complete: "m \<in> set fetofe_all" by (cases m) (simp_all add: fetofe_all_def)
lemma fetobe_all_complete: "m \<in> set fetobe_all" by (cases m) (simp_all add: fetobe_all_def)
lemma fetomw_all_complete: "m \<in> set fetomw_all" by (cases m) (simp_all add: fetomw_all_def)

lemma fetofe_code: "fetofe_code m < 26" "fetofe_all ! fetofe_code m = m"
  using nth_pos_of [OF fetofe_all_complete [of m]] by (simp_all add: fetofe_code_def fetofe_all_def)
lemma fetobe_code: "fetobe_code b < 13" "fetobe_all ! fetobe_code b = b"
  using nth_pos_of [OF fetobe_all_complete [of b]] by (simp_all add: fetobe_code_def fetobe_all_def)
lemma fetomw_code: "fetomw_code w < 6" "fetomw_all ! fetomw_code w = w"
  using nth_pos_of [OF fetomw_all_complete [of w]] by (simp_all add: fetomw_code_def fetomw_all_def)

section \<open>The header\<close>

text \<open>
  The three unions of \<open>lmonp_t\<close> are kept as the bits they hold: a 13-bit type, a 16-bit
  key or task count, and 32 bits that are the second key or the two string counts.
\<close>

record lmonp_t =
  msgclass :: "3 word"
  msgtype :: "13 word"
  num_tasks :: u16
  security_key2 :: u32
  long_num_tasks :: u32
  lmon_payload_length :: u32
  usr_payload_length :: u32

definition num_exec_name :: "lmonp_t \<Rightarrow> u16" where
  "num_exec_name h = ucast (security_key2 h)"
definition num_host_name :: "lmonp_t \<Rightarrow> u16" where
  "num_host_name h = ucast (drop_bit 16 (security_key2 h))"

definition exec_and_hn :: "u16 \<Rightarrow> u16 \<Rightarrow> u32" where
  "exec_and_hn e h = ucast e OR push_bit 16 (ucast h)"

definition lmonp_zero :: lmonp_t where
  "lmonp_zero = \<lparr>msgclass = 0, msgtype = 0, num_tasks = 0, security_key2 = 0, long_num_tasks = 0,
     lmon_payload_length = 0, usr_payload_length = 0\<rparr>"

definition lmonp_size :: nat where "lmonp_size = 28"
definition LMON_NTASKS_THRE :: nat where "LMON_NTASKS_THRE = 32769"
definition N_Fields_MPIR_PROCDESC_EXT :: nat where "N_Fields_MPIR_PROCDESC_EXT = 5"

text \<open>The object's 28 bytes: two 4-byte bit-field units, 2 bytes, 2 bytes of padding
  (zeroed by the \<open>memset\<close> of every header that is sent), and four 4-byte words.\<close>

definition enc_hdr :: "lmonp_t \<Rightarrow> byte list" where
  "enc_hdr h = enc32 (ucast (msgclass h)) @ enc32 (ucast (msgtype h)) @ enc16 (num_tasks h) @ [0, 0] @
     enc32 (security_key2 h) @ enc32 (long_num_tasks h) @ enc32 (lmon_payload_length h) @
     enc32 (usr_payload_length h)"

definition dec_hdr :: "byte list \<Rightarrow> lmonp_t" where
  "dec_hdr bs = \<lparr>msgclass = ucast (dec32 (take 4 bs)), msgtype = ucast (dec32 (take 4 (drop 4 bs))),
     num_tasks = dec16 (take 2 (drop 8 bs)), security_key2 = dec32 (take 4 (drop 12 bs)),
     long_num_tasks = dec32 (take 4 (drop 16 bs)), lmon_payload_length = dec32 (take 4 (drop 20 bs)),
     usr_payload_length = dec32 (take 4 (drop 24 bs))\<rparr>"

lemma length_enc_hdr [simp, byte_simps]: "length (enc_hdr h) = 28"
  by (simp add: enc_hdr_def)

lemma enc_hdr_not_Nil [simp]: "enc_hdr h \<noteq> []"
  using length_enc_hdr [of h] by (metis list.size(3) zero_neq_numeral)

lemma ucast_ucast_3_32 [simp]: "ucast (ucast (c :: 3 word) :: u32) = c"
  by (rule bit_word_eqI) (simp add: bit_simps)

lemma ucast_ucast_13_32 [simp]: "ucast (ucast (c :: 13 word) :: u32) = c"
  by (rule bit_word_eqI) (simp add: bit_simps)

lemma dec_enc_hdr [simp, byte_simps]: "dec_hdr (enc_hdr h @ rest) = h"
  by (simp add: dec_hdr_def enc_hdr_def)

lemma exec_and_hn_split:
  "ucast (exec_and_hn e h) = e" "ucast (drop_bit 16 (exec_and_hn e h)) = h"
proof -
  show "ucast (exec_and_hn e h) = e"
    by (rule bit_word_eqI) (simp add: exec_and_hn_def bit_simps)
  show "ucast (drop_bit 16 (exec_and_hn e h)) = h"
    by (rule bit_word_eqI) (auto simp: exec_and_hn_def bit_simps dest: bit_imp_le_length)
qed

section \<open>Header operations\<close>

text \<open>A null \<open>msg\<close> is \<open>None\<close>. The result is the return code and the object afterwards;
  an unknown class leaves the cleared header with the class stored.\<close>

definition init_msg_header :: "lmonp_t \<Rightarrow> int \<times> lmonp_t" where
  "init_msg_header msg = (0, lmonp_zero)"

definition set_msg_header ::
  "lmonp_t option \<Rightarrow> int \<Rightarrow> int \<Rightarrow> u16 \<Rightarrow> u32 \<Rightarrow> u16 \<Rightarrow> u16 \<Rightarrow> u32 \<Rightarrow> u32 \<Rightarrow> u32 \<Rightarrow> int \<times> lmonp_t option"
where
  "set_msg_header msg mc type seckey_or_numtasks key2 n_exec n_host lntask lmonlen usrlen =
     (case msg of None \<Rightarrow> (-1, None)
      | Some m \<Rightarrow>
        (let m = lmonp_zero\<lparr>msgclass := of_int mc\<rparr> in
         if mc \<notin> {0, 1, 2} then (-1, Some m)
         else
           (let m = m\<lparr>msgtype := of_int type\<rparr>;
                m = m\<lparr>num_tasks := seckey_or_numtasks\<rparr>;
                m = (if key2 \<noteq> 0 then m\<lparr>security_key2 := key2\<rparr>
                     else m\<lparr>security_key2 := exec_and_hn n_exec n_host\<rparr>);
                m = m\<lparr>long_num_tasks := lntask, lmon_payload_length := lmonlen,
                      usr_payload_length := usrlen\<rparr>
            in (0, Some m))))"

text \<open>Pointers into a message are offsets from its start; \<open>None\<close> is \<open>NULL\<close>.\<close>

definition get_lmonpayload_begin :: "lmonp_t option \<Rightarrow> nat option" where
  "get_lmonpayload_begin msg =
     (case msg of None \<Rightarrow> None
      | Some h \<Rightarrow> if lmon_payload_length h \<le> 0 then None else Some lmonp_size)"

definition get_usrpayload_begin :: "lmonp_t option \<Rightarrow> nat option" where
  "get_usrpayload_begin msg =
     (case msg of None \<Rightarrow> None
      | Some h \<Rightarrow> if usr_payload_length h \<le> 0 then None
                  else Some (lmonp_size + unat (lmon_payload_length h)))"

definition msg_ntasks :: "lmonp_t \<Rightarrow> nat" where
  "msg_ntasks h = (if unat (num_tasks h) < LMON_NTASKS_THRE then unat (num_tasks h)
                   else unat (long_num_tasks h))"

definition get_strtab_begin :: "lmonp_t \<Rightarrow> nat option" where
  "get_strtab_begin msg =
     (if unat (msgclass msg) = class_code lmonp_fetofe then
        (if unat (msgtype msg) = fetofe_code lmonp_proctable_avail then
           map_option (\<lambda>p. p + msg_ntasks msg * 4 * N_Fields_MPIR_PROCDESC_EXT)
             (get_lmonpayload_begin (Some msg))
         else None)
      else if unat (msgclass msg) = class_code lmonp_fetobe then
        (if unat (msgtype msg) = fetobe_code lmonp_febe_proctab then
           map_option (\<lambda>p. p + msg_ntasks msg * 4 * N_Fields_MPIR_PROCDESC_EXT)
             (get_lmonpayload_begin (Some msg))
         else if unat (msgtype msg) = fetobe_code lmonp_befe_hostname then
           map_option (\<lambda>p. p + msg_ntasks msg * 4) (get_lmonpayload_begin (Some msg))
         else None)
      else if unat (msgclass msg) = class_code lmonp_fetomw then
        (if unat (msgtype msg) = fetomw_code lmonp_mwfe_hostname then
           map_option (\<lambda>p. p + msg_ntasks msg * 4) (get_lmonpayload_begin (Some msg))
         else None)
      else None)"

section \<open>Printing\<close>

definition lmonp_fe_to_fe_str :: "string list" where
  "lmonp_fe_to_fe_str =
     [''lmonp_conn_ack_no_error'', ''lmonp_conn_ack_parse_error'',
      ''lmonp_stop_at_launch_bp_spawned'', ''lmonp_rminfo'', ''lmonp_stop_at_launch_bp_abort'',
      ''lmonp_proctable_avail'', ''lmonp_resourcehandle_avail'', ''lmonp_stop_at_first_exec'',
      ''lmonp_stop_at_first_attach'', ''lmonp_stop_at_loader_bp'',
      ''lmonp_stop_at_thread_creation'', ''lmonp_stop_at_thread_death'',
      ''lmonp_stop_at_fork_bp'', ''lmonp_stop_not_interested'', ''lmonp_terminated'',
      ''lmonp_exited'', ''lmonp_detach_done'', ''lmonp_kill_done'', ''lmonp_stop_tracing'',
      ''lmonp_bedmon_exited'', ''lmonp_mwdmon_exited'', ''lmonp_detach'', ''lmonp_kill'',
      ''lmonp_shutdownbe'', ''lmonp_cont_launch_bp'', ''lmonp_invalid'']"

definition lmonp_fe_to_be_str :: "string list" where
  "lmonp_fe_to_be_str =
     [''lmonp_febe_security_chk'', ''lmonp_febe_proctab'', ''lmonp_febe_usrdata'',
      ''lmonp_febe_launch'', ''lmonp_febe_launch_dontstop'', ''lmonp_febe_attach'',
      ''lmonp_febe_attach_stop'', ''lmonp_febe_assist_mw_coloc'', ''lmonp_febe_rm_type'',
      ''lmonp_befe_hostname'', ''lmonp_befe_usrdata'', ''lmonp_befe_cont_launch_bp'',
      ''lmonp_befe_ready'']"

definition lmonp_fe_to_wm_str :: "string list" where
  "lmonp_fe_to_wm_str =
     [''lmonp_femw_security_chk'', ''lmonp_femw_proctab'', ''lmonp_femw_usrdata'',
      ''lmonp_mwfe_hostname'', ''lmonp_mwfe_usrdata'', ''lmonp_mwfe_ready'']"

text \<open>A read past the end of a name table is undefined behaviour. The answer is
  \<open>NULL\<close> (\<open>None\<close>) or the string.\<close>

definition table_at :: "string list \<Rightarrow> nat \<Rightarrow> exn + string option" where
  "table_at tab i = (if i < length tab then Inr (Some (tab ! i)) else Inl Undefined_behaviour)"

fun lmon_msg_to_str :: "lmon_msg_field_selector_e \<Rightarrow> lmonp_t option \<Rightarrow> exn + string option" where
  "lmon_msg_to_str s None = Inr None"
| "lmon_msg_to_str field_class (Some msg) =
     Inr (if unat (msgclass msg) = class_code lmonp_fetofe then Some ''lmonp_fetofe''
          else if unat (msgclass msg) = class_code lmonp_fetobe then Some ''lmonp_fetobe''
          else if unat (msgclass msg) = class_code lmonp_fetomw then Some ''lmonp_fetomw''
          else None)"
| "lmon_msg_to_str field_type (Some msg) =
     (if unat (msgclass msg) = class_code lmonp_fetofe then
        table_at lmonp_fe_to_fe_str (unat (msgtype msg))
      else if unat (msgclass msg) = class_code lmonp_fetobe then
        table_at lmonp_fe_to_be_str (unat (msgtype msg))
      else if unat (msgclass msg) = class_code lmonp_fetomw then
        table_at lmonp_fe_to_be_str (unat (msgtype msg))
      else Inr None)"
| "lmon_msg_to_str field_security1 (Some msg) = Inr (Some (show_int (int (unat (num_tasks msg)))))"
| "lmon_msg_to_str field_security2 (Some msg) = Inr (Some (show_int (sint (security_key2 msg))))"
| "lmon_msg_to_str field_long_num_tasks (Some msg) = Inr (Some (show_int (sint (long_num_tasks msg))))"
| "lmon_msg_to_str field_lmon_payload_length (Some msg) =
     Inr (Some (show_int (sint (lmon_payload_length msg))))"
| "lmon_msg_to_str field_usr_payload_length (Some msg) =
     Inr (Some (show_int (sint (usr_payload_length msg))))"

lemma fe_str_names: "i < 26 \<Longrightarrow> table_at lmonp_fe_to_fe_str i = Inr (Some (lmonp_fe_to_fe_str ! i))"
  by (simp add: table_at_def lmonp_fe_to_fe_str_def)

datatype my_lmon_kind_e = lmon_fe_driver | lmon_fe_watchdog | lmon_fe | lmon_be | lmon_mw

text \<open>The lines written to \<open>cout\<close>; \<open>None\<close> is a kind outside the enumeration.\<close>

definition kind_label :: "my_lmon_kind_e \<Rightarrow> string" where
  "kind_label k = (case k of lmon_fe_driver \<Rightarrow> ''[lmon_fe_driver]: ''
     | lmon_fe_watchdog \<Rightarrow> ''[lmon_fe_watchdog]: '' | lmon_fe \<Rightarrow> ''[lmon_fe]:''
     | lmon_be \<Rightarrow> ''[lmon_be]:'' | lmon_mw \<Rightarrow> ''[lmon_mw]:'')"

definition print_msg_header :: "string \<Rightarrow> my_lmon_kind_e option \<Rightarrow> lmonp_t \<Rightarrow> int \<times> string list" where
  "print_msg_header iamusedby k msg =
     (case k of None \<Rightarrow> (-1, [])
      | Some k \<Rightarrow>
        (let who = (if iamusedby \<noteq> ''Not Set'' then ''['' @ iamusedby @ '']'' else []) @ kind_label k in
         (0, [who @ ''msg->msgclass: '' @ show_nat (unat (msgclass msg)),
              who @ ''msg->type.fetofe_type: '' @ show_nat (unat (msgtype msg)),
              who @ ''msg->lmon_payload_length: '' @ show_nat (unat (lmon_payload_length msg)),
              who @ ''msg->usr_payload_length: '' @ show_nat (unat (usr_payload_length msg))])))"

section \<open>Moving whole messages\<close>

text \<open>\<open>msgsize\<close> is an \<open>int\<close> that receives a 64-bit sum. The message is the header
  and whatever follows it in memory.\<close>

definition msgsize_of :: "lmonp_t \<Rightarrow> int" where
  "msgsize_of h = sint (of_nat (lmonp_size + unat (lmon_payload_length h) + unat (usr_payload_length h)) :: u32)"

definition write_lmonp_long_msg :: "wrans list \<Rightarrow> byte list \<Rightarrow> int \<Rightarrow> (int \<times> byte list \<times> wrans list) option" where
  "write_lmonp_long_msg ks msg msglength =
     (let msgsize = msgsize_of (dec_hdr msg) in
      if msgsize \<noteq> msglength then Some (-1, [], ks) else lmon_write_raw ks (Some msg) msgsize)"

definition read_lmonp_msgheader :: "rdans list \<Rightarrow> (int \<times> byte list \<times> rdans list) option" where
  "read_lmonp_msgheader ks = lmon_read_raw ks True (int lmonp_size)"

definition read_lmonp_payloads :: "rdans list \<Rightarrow> int \<Rightarrow> (int \<times> byte list \<times> rdans list) option" where
  "read_lmonp_payloads ks len = lmon_read_raw ks True len"

text \<open>A message in memory: its header, the LMON payload and the user payload, with the
  lengths the header states, of a total that fits \<open>int\<close>.\<close>

definition wf_msg :: "lmonp_t \<Rightarrow> byte list \<Rightarrow> bool" where
  "wf_msg h payload \<longleftrightarrow>
     length payload = unat (lmon_payload_length h) + unat (usr_payload_length h) \<and>
     lmonp_size + length payload < 2 ^ 31"

lemma msgsize_of_wf: "wf_msg h payload \<Longrightarrow> msgsize_of h = int (length (enc_hdr h @ payload))"
  unfolding wf_msg_def msgsize_of_def lmonp_size_def
  by (subst sint_of_nat32) simp_all

section \<open>What a receiver relies on\<close>

text \<open>
  \<open>offers s bss\<close>: the peer's bytes are \<open>concat bss\<close>, and no single \<open>read\<close> issued for
  one of the pieces runs over its end (\<open>read\<close> never returns more than it is asked).
\<close>

locale byte_channel =
  fixes recv :: "'s \<Rightarrow> int \<Rightarrow> (int \<times> byte list \<times> 's) option"
    and offers :: "'s \<Rightarrow> byte list list \<Rightarrow> bool"
  assumes recv_offer: "offers s (b # bss) \<Longrightarrow> b \<noteq> [] \<Longrightarrow>
      \<exists>s'. recv s (int (length b)) = Some (int (length b), b, s') \<and> offers s' bss"
begin

lemma recv_two:
  assumes "offers s (a # b # bss)" and "a \<noteq> []" and "b \<noteq> []"
  shows "\<exists>s1 s2. recv s (int (length a)) = Some (int (length a), a, s1) \<and>
     recv s1 (int (length b)) = Some (int (length b), b, s2) \<and> offers s2 bss"
  using recv_offer [OF assms(1,2)] recv_offer [OF _ assms(3)] by blast

end

definition kernel_offers :: "rdans list \<Rightarrow> byte list list \<Rightarrow> bool" where
  "kernel_offers ks bss \<longleftrightarrow>
     (\<exists>kss tl. ks = concat kss @ tl \<and> map rbytes kss = bss \<and> rtransient (concat kss @ tl) \<and> rbytes tl = [])"

lemma read_loop_append:
  "read_loop ks count g acc = Some (r, acc', ks') \<Longrightarrow>
   read_loop (ks @ rest) count g acc = Some (r, acc', ks' @ rest)"
  by (induction ks count g acc rule: read_loop.induct) (auto simp: Let_def split: if_splits)

lemma read_loop_suffix:
  "read_loop ks count g acc = Some (r, acc', ks') \<Longrightarrow> \<exists>pre. ks = pre @ ks'"
  by (induction ks count g acc rule: read_loop.induct)
    (fastforce simp: Let_def Cons_eq_append_conv split: if_splits)+

lemma rbytes_append [simp]: "rbytes (a @ b) = rbytes a @ rbytes b"
  by (induction a rule: rbytes.induct) auto

lemma rtransient_append [simp]: "rtransient (a @ b) \<longleftrightarrow> rtransient a \<and> rtransient b"
  by (auto simp: rtransient_def)

lemma kernel_recv:
  assumes o: "kernel_offers ks (b # bss)" and b: "b \<noteq> []"
  shows "\<exists>ks'. lmon_read_raw ks True (int (length b)) = Some (int (length b), b, ks') \<and> kernel_offers ks' bss"
proof -
  obtain kss tl where k: "ks = concat kss @ tl" "map rbytes kss = b # bss"
    "rtransient (concat kss @ tl)" "rbytes tl = []"
    using o unfolding kernel_offers_def by (elim exE conjE)
  then obtain k1 ks2 where kss: "kss = k1 # ks2" "rbytes k1 = b" "map rbytes ks2 = bss"
    by auto
  with k b obtain l where l: "read_loop k1 (int (length b)) 0 [] = Some (int (length b), b, l)" "rbytes l = []"
    using read_loop_progress [of k1 "int (length b)" 0 "[]"] by auto
  obtain pre where "k1 = pre @ l" using read_loop_suffix [OF l(1)] by auto
  then have "kernel_offers (l @ concat ks2 @ tl) bss"
  proof (cases ks2)
    case Nil
    then show ?thesis using k kss l(2) \<open>k1 = pre @ l\<close> unfolding kernel_offers_def
      by (intro exI [of _ "[]"] exI [of _ "l @ tl"]) simp
  next
    case (Cons k2 ks3)
    then show ?thesis using k kss l(2) \<open>k1 = pre @ l\<close> unfolding kernel_offers_def
      by (intro exI [of _ "(l @ k2) # ks3"] exI [of _ tl]) simp
  qed
  then show ?thesis
    using read_loop_append [OF l(1), of "concat ks2 @ tl"] k(1) kss(1)
    by (auto simp: lmon_read_raw_def)
qed

interpretation sock: byte_channel "\<lambda>ks. lmon_read_raw ks True" kernel_offers
  by unfold_locales (rule kernel_recv)

text \<open>A header and a payload read one after the other.\<close>

lemma read_message:
  assumes "kernel_offers ks [enc_hdr h, payload]" and "payload \<noteq> []"
  shows "\<exists>ks1 ks2. read_lmonp_msgheader ks = Some (28, enc_hdr h, ks1) \<and>
     read_lmonp_payloads ks1 (int (length payload)) = Some (int (length payload), payload, ks2)"
proof -
  have ne: "enc_hdr h \<noteq> []" using length_enc_hdr [of h] by (metis list.size(3) zero_neq_numeral)
  show ?thesis
    using sock.recv_two [OF assms(1) ne assms(2)]
    by (auto simp: read_lmonp_msgheader_def read_lmonp_payloads_def lmonp_size_def)
qed

lemma write_message:
  assumes "wf_msg h payload" and "wtransient ks" and "wprogress ks = 28 + length payload"
  shows "\<exists>ks'. write_lmonp_long_msg ks (enc_hdr h @ payload) (28 + int (length payload)) =
     Some (28 + int (length payload), enc_hdr h @ payload, ks')"
proof -
  have m: "msgsize_of h = 28 + int (length payload)"
    using msgsize_of_wf [OF assms(1)] by simp
  have "nat (28 + int (length payload)) = 28 + length payload" by simp
  with m show ?thesis
    using write_loop_progress [OF assms(2), of 0 "28 + int (length payload)" "[]" "enc_hdr h @ payload"] assms(3)
    by (auto simp: write_lmonp_long_msg_def lmon_write_raw_def)
qed

lemma write_message_mismatch:
  "msgsize_of (dec_hdr msg) \<noteq> n \<Longrightarrow> write_lmonp_long_msg ks msg n = Some (-1, [], ks)"
  by (simp add: write_lmonp_long_msg_def)

section \<open>Properties\<close>

text \<open>C37: A message that \<open>write_lmonp_long_msg\<close> sends is received unchanged by
  \<open>read_lmonp_msgheader\<close> followed by \<open>read_lmonp_payloads\<close> for the lengths the received
  header states, for every way the two kernels cut the transfer and interrupt the calls.\<close>

theorem message_roundtrip:
  assumes "wf_msg h payload" and "payload \<noteq> []"
    and "wtransient ks" and "wprogress ks = 28 + length payload"
    and "kernel_offers rks [enc_hdr h, payload]"
  shows "\<exists>wire ks' hb rks1 rks2.
     write_lmonp_long_msg ks (enc_hdr h @ payload) (28 + int (length payload)) =
       Some (28 + int (length payload), wire, ks') \<and> wire = hb @ payload \<and>
     read_lmonp_msgheader rks = Some (28, hb, rks1) \<and> dec_hdr hb = h \<and>
     read_lmonp_payloads rks1 (int (unat (lmon_payload_length (dec_hdr hb)) +
         unat (usr_payload_length (dec_hdr hb)))) = Some (int (length payload), payload, rks2)"
proof -
  have "dec_hdr (enc_hdr h) = h" using dec_enc_hdr [of h "[]"] by simp
  moreover have "unat (lmon_payload_length h) + unat (usr_payload_length h) = length payload"
    using assms(1) by (simp add: wf_msg_def)
  moreover obtain ks' where "write_lmonp_long_msg ks (enc_hdr h @ payload) (28 + int (length payload)) =
      Some (28 + int (length payload), enc_hdr h @ payload, ks')"
    using write_message [OF assms(1,3,4)] by blast
  moreover obtain rks1 rks2 where "read_lmonp_msgheader rks = Some (28, enc_hdr h, rks1)"
    "read_lmonp_payloads rks1 (int (length payload)) = Some (int (length payload), payload, rks2)"
    using read_message [OF assms(5,2)] by blast
  ultimately show ?thesis by (auto simp del: of_nat_unat of_nat_add)
qed

definition demo_hdr :: lmonp_t where
  "demo_hdr = lmonp_zero\<lparr>msgclass := 1, msgtype := 2, lmon_payload_length := 1, usr_payload_length := 2\<rparr>"

theorem message_roundtrip_witness:
  "\<exists>wire ks' hb rks1 rks2.
     write_lmonp_long_msg [Wrote 3, WFail EINTR, Wrote 28] (enc_hdr demo_hdr @ [5, 6, 7]) (28 + int (length [5, 6, 7 :: byte])) =
       Some (28 + int (length [5, 6, 7 :: byte]), wire, ks') \<and> wire = hb @ [5, 6, 7] \<and>
     read_lmonp_msgheader [Data (enc_hdr demo_hdr), Data [5], RFail EAGAIN, Data [6, 7]] = Some (28, hb, rks1) \<and>
     dec_hdr hb = demo_hdr \<and>
     read_lmonp_payloads rks1 (int (unat (lmon_payload_length (dec_hdr hb)) +
         unat (usr_payload_length (dec_hdr hb)))) = Some (int (length [5, 6, 7 :: byte]), [5, 6, 7], rks2)"
proof (rule message_roundtrip)
  show "wf_msg demo_hdr [5, 6, 7]" by (simp add: wf_msg_def demo_hdr_def lmonp_zero_def lmonp_size_def)
  show "wtransient [Wrote 3, WFail EINTR, Wrote 28]" by (simp add: wtransient_def retryable_def)
  have ne: "enc_hdr demo_hdr \<noteq> []" using length_enc_hdr [of demo_hdr] by (metis list.size(3) zero_neq_numeral)
  show "kernel_offers [Data (enc_hdr demo_hdr), Data [5], RFail EAGAIN, Data [6, 7]] [enc_hdr demo_hdr, [5, 6, 7]]"
    unfolding kernel_offers_def
    by (intro exI [of _ "[[Data (enc_hdr demo_hdr)], [Data [5], RFail EAGAIN, Data [6, 7]]]"] exI [of _ "[]"])
      (simp add: rtransient_def retryable_def ne)
qed simp_all

text \<open>C26: \<open>set_msg_header\<close> succeeds exactly for a message and a known class, and then
  every field holds what was passed, the second security key taking the place of the two
  string counts exactly when it is not zero.\<close>

theorem set_msg_header_fields:
  assumes "set_msg_header msg mc type k key2 ne nh lnt ll ul = (rc, msg')"
  shows "(rc = 0 \<longleftrightarrow> msg \<noteq> None \<and> mc \<in> {0, 1, 2}) \<and> (rc \<noteq> 0 \<longrightarrow> rc = -1) \<and>
    (rc = 0 \<longrightarrow> (\<exists>h. msg' = Some h \<and> msgclass h = of_int mc \<and> msgtype h = of_int type \<and>
       num_tasks h = k \<and> long_num_tasks h = lnt \<and> lmon_payload_length h = ll \<and>
       usr_payload_length h = ul \<and>
       (if key2 = 0 then num_exec_name h = ne \<and> num_host_name h = nh else security_key2 h = key2)))"
  using assms
  by (auto simp: set_msg_header_def Let_def num_exec_name_def num_host_name_def exec_and_hn_split
    lmonp_zero_def split: option.splits if_splits)

theorem set_msg_header_fields_witness:
  "set_msg_header (Some lmonp_zero) 0 5 3 0 1 2 0 80 0 =
     (0, Some \<lparr>msgclass = 0, msgtype = 5, num_tasks = 3, security_key2 = 131073, long_num_tasks = 0,
       lmon_payload_length = 80, usr_payload_length = 0\<rparr>) \<and> (0::int) = 0 \<and>
   ((0::int) = 0 \<longleftrightarrow> Some lmonp_zero \<noteq> None \<and> (0::int) \<in> {0, 1, 2})"
proof -
  have c: "set_msg_header (Some lmonp_zero) 0 5 3 0 1 2 0 80 0 =
     (0, Some \<lparr>msgclass = 0, msgtype = 5, num_tasks = 3, security_key2 = 131073, long_num_tasks = 0,
       lmon_payload_length = 80, usr_payload_length = 0\<rparr>)" by code_simp
  show ?thesis using c set_msg_header_fields [OF c] by simp
qed

text \<open>C8: In a message laid out in memory, \<open>get_lmonpayload_begin\<close> and
  \<open>get_usrpayload_begin\<close> point at the two payloads, and are \<open>NULL\<close> exactly when the
  payload is empty.\<close>

theorem payload_begins:
  assumes "wf_msg h (lp @ up)" and "length lp = unat (lmon_payload_length h)"
  shows "(case get_lmonpayload_begin (Some h) of None \<Rightarrow> lp = []
          | Some p \<Rightarrow> lp \<noteq> [] \<and> take (length lp) (drop p (enc_hdr h @ lp @ up)) = lp) \<and>
         (case get_usrpayload_begin (Some h) of None \<Rightarrow> up = []
          | Some p \<Rightarrow> up \<noteq> [] \<and> drop p (enc_hdr h @ lp @ up) = up)"
  using assms
  by (auto simp: get_lmonpayload_begin_def get_usrpayload_begin_def wf_msg_def lmonp_size_def unat_eq_zero)

theorem payload_begins_witness:
  "get_usrpayload_begin (Some demo_hdr) = Some 29 \<and>
   (case get_usrpayload_begin (Some demo_hdr) of None \<Rightarrow> [6, 7 :: byte] = []
    | Some p \<Rightarrow> [6, 7 :: byte] \<noteq> [] \<and> drop p (enc_hdr demo_hdr @ [5] @ [6, 7]) = [6, 7])"
proof -
  have "wf_msg demo_hdr ([5] @ [6, 7])" "length [5 :: byte] = unat (lmon_payload_length demo_hdr)"
    by (simp_all add: wf_msg_def demo_hdr_def lmonp_zero_def lmonp_size_def)
  from payload_begins [OF this] show ?thesis
    by (simp add: get_usrpayload_begin_def demo_hdr_def lmonp_zero_def lmonp_size_def)
qed

text \<open>C27: \<open>lmon_msg_to_str\<close> names every front-end and back-end message type by its own
  table and never reads past one, but names every middleware type out of the back-end
  table, so that the string is wrong for each of the six.\<close>

theorem msg_type_names:
  "lmon_msg_to_str field_type (Some (lmonp_zero\<lparr>msgclass := 0, msgtype := of_nat (fetofe_code f)\<rparr>)) =
     Inr (Some (lmonp_fe_to_fe_str ! fetofe_code f)) \<and>
   lmon_msg_to_str field_type (Some (lmonp_zero\<lparr>msgclass := 1, msgtype := of_nat (fetobe_code b)\<rparr>)) =
     Inr (Some (lmonp_fe_to_be_str ! fetobe_code b)) \<and>
   lmon_msg_to_str field_type (Some (lmonp_zero\<lparr>msgclass := 2, msgtype := of_nat (fetomw_code w)\<rparr>)) \<noteq>
     Inr (Some (lmonp_fe_to_wm_str ! fetomw_code w))"
proof -
  have "unat (of_nat n :: 13 word) = n" if "n < 26" for n :: nat
    using that by (simp add: unat_of_nat)
  note u = this
  have "lmon_msg_to_str field_type (Some (lmonp_zero\<lparr>msgclass := 0, msgtype := of_nat (fetofe_code f)\<rparr>)) =
     Inr (Some (lmonp_fe_to_fe_str ! fetofe_code f))"
    using u [OF fetofe_code(1) [of f]] fetofe_code(1) [of f] by (simp add: fe_str_names)
  moreover have "lmon_msg_to_str field_type (Some (lmonp_zero\<lparr>msgclass := 1, msgtype := of_nat (fetobe_code b)\<rparr>)) =
     Inr (Some (lmonp_fe_to_be_str ! fetobe_code b))"
    using u [of "fetobe_code b"] fetobe_code(1) [of b] by (simp add: table_at_def lmonp_fe_to_be_str_def)
  moreover have "lmon_msg_to_str field_type (Some (lmonp_zero\<lparr>msgclass := 2, msgtype := of_nat (fetomw_code w)\<rparr>)) \<noteq>
     Inr (Some (lmonp_fe_to_wm_str ! fetomw_code w))"
    by (cases w) (simp_all add: fetomw_code_def fetomw_all_def table_at_def lmonp_fe_to_be_str_def
      lmonp_fe_to_wm_str_def)
  ultimately show ?thesis by blast
qed

end
