(* ===== verification/Proctab.thy ===== *)
theory Proctab
  imports Lmonp_Msg Std_Map
begin

text \<open>
  The RPDTAB on the wire: \<open>ship_proctab_msg\<close>, \<open>ship_resourcehandle_msg\<close>,
  \<open>ship_rminfo_msg\<close> and \<open>say_fetofe_msg\<close> of the engine
  (\<open>sdbg_base_launchmon_impl.hxx\<close>) and \<open>parse_raw_RPDTAB_msg\<close> of the API
  (\<open>lmon_lmonp_msg.cxx\<close>). The theorem of the component is that parsing what was shipped
  gives the table back; its lemmas follow the two passes of the sender (the string table,
  then the entries) and the loop of the receiver.
\<close>

section \<open>Entries\<close>

record MPIR_PROCDESC =
  host_name :: string
  executable_name :: string
  pid :: u32

record MPIR_PROCDESC_EXT =
  pd :: MPIR_PROCDESC
  mpirank :: u32
  cnodeid :: u32

type_synonym proctable = "(string, MPIR_PROCDESC_EXT list) std_map"

datatype launchmon_rc_e =
    LAUNCHMON_OK | LAUNCHMON_BP_PROLOGUE | LAUNCHMON_STOP_TRACE | LAUNCHMON_FAILED
  | LAUNCHMON_MPIR_DEBUG_ABORT | LAUNCHMON_MAINPROG_EXITED

text \<open>The nested iteration over the map and its vectors.\<close>

definition entries :: "proctable \<Rightarrow> MPIR_PROCDESC_EXT list" where
  "entries tab = concat (map snd tab)"

section \<open>The sender\<close>

text \<open>First pass: the map from names to offsets, the names in order of appearance, the
  next offset and the two counters, all \<open>unsigned int\<close>.\<close>

record strtab_st =
  execHostName :: "(string, u32) std_map"
  orderedEHName :: "string list"
  offset :: u32
  num_unique_exec :: u32
  num_unique_hn :: u32

definition strtab0 :: strtab_st where
  "strtab0 = \<lparr>execHostName = [], orderedEHName = [], offset = 0, num_unique_exec = 0, num_unique_hn = 0\<rparr>"

definition add_exec :: "string \<Rightarrow> strtab_st \<Rightarrow> strtab_st" where
  "add_exec s st = (case map_find (execHostName st) s of
     None \<Rightarrow> st\<lparr>execHostName := map_set s (offset st) (execHostName st),
                orderedEHName := orderedEHName st @ [s],
                num_unique_exec := num_unique_exec st + 1,
                offset := offset st + of_nat (length s + 1)\<rparr>
   | Some _ \<Rightarrow> st)"

definition add_host :: "string \<Rightarrow> strtab_st \<Rightarrow> strtab_st" where
  "add_host s st = (case map_find (execHostName st) s of
     None \<Rightarrow> st\<lparr>execHostName := map_set s (offset st) (execHostName st),
                orderedEHName := orderedEHName st @ [s],
                num_unique_hn := num_unique_hn st + 1,
                offset := offset st + of_nat (length s + 1)\<rparr>
   | Some _ \<Rightarrow> st)"

fun build_strtab :: "MPIR_PROCDESC_EXT list \<Rightarrow> strtab_st \<Rightarrow> strtab_st" where
  "build_strtab [] st = st"
| "build_strtab (e # es) st =
     build_strtab es (add_host (host_name (pd e)) (add_exec (executable_name (pd e)) st))"

text \<open>Second pass. \<open>execHostName[s]\<close> inserts 0 for a missing name; the names are all
  there after the first pass.\<close>

definition ehn_at :: "(string, u32) std_map \<Rightarrow> string \<Rightarrow> u32" where
  "ehn_at m s = (case map_find m s of None \<Rightarrow> 0 | Some o1 \<Rightarrow> o1)"

definition enc_entry :: "(string, u32) std_map \<Rightarrow> MPIR_PROCDESC_EXT \<Rightarrow> byte list" where
  "enc_entry m e = enc32 (ehn_at m (host_name (pd e))) @ enc32 (ehn_at m (executable_name (pd e))) @
     enc32 (pid (pd e)) @ enc32 (mpirank e) @ enc32 (cnodeid e)"

definition proctab_payload :: "strtab_st \<Rightarrow> MPIR_PROCDESC_EXT list \<Rightarrow> byte list" where
  "proctab_payload st es =
     concat (map (enc_entry (execHostName st)) es) @ concat (map cstr (orderedEHName st))"

text \<open>
  The message in \<open>sendbuf\<close> and its size. \<open>pcount\<close> is the engine's field, not the number
  of entries; a payload larger than the buffer it sized, or a buffer smaller than a header,
  is an out-of-bounds write.
\<close>

definition proctab_sendbuf ::
  "proctable \<Rightarrow> int \<Rightarrow> lmonp_fe_to_fe_msg_e \<Rightarrow> exn + (byte list \<times> int)" where
  "proctab_sendbuf tab pcount t =
     (let st = build_strtab (entries tab) strtab0;
          tabsize = int N_Fields_MPIR_PROCDESC_EXT * 4 * pcount + uint (offset st);
          msgsize = sint (of_int (int lmonp_size + tabsize) :: u32);
          hdr = (if pcount < int LMON_NTASKS_THRE then
                   set_msg_header (Some lmonp_zero) (int (class_code lmonp_fetofe)) (int (fetofe_code t))
                     (of_int pcount) 0 (ucast (num_unique_exec st)) (ucast (num_unique_hn st)) 0
                     (of_int tabsize) 0
                 else
                   set_msg_header (Some lmonp_zero) (int (class_code lmonp_fetofe)) (int (fetofe_code t))
                     (of_nat LMON_NTASKS_THRE) 0 (ucast (num_unique_exec st)) (ucast (num_unique_hn st))
                     (of_int pcount) (of_int tabsize) 0);
          payload = proctab_payload st (entries tab)
      in if msgsize < int lmonp_size then Inl Undefined_behaviour
         else case get_lmonpayload_begin (snd hdr) of
           None \<Rightarrow> (if payload = [] then Inr (enc_hdr (the (snd hdr)), msgsize) else Inl Undefined_behaviour)
         | Some p \<Rightarrow>
             (if msgsize < int (p + length payload) then Inl Undefined_behaviour
              else Inr (enc_hdr (the (snd hdr)) @ payload @
                        replicate (nat msgsize - (p + length payload)) 0, msgsize)))"

text \<open>The result of the write is ignored. The second component is the socket's.\<close>

definition ship_proctab_msg ::
  "bool \<Rightarrow> proctable \<Rightarrow> int \<Rightarrow> lmonp_fe_to_fe_msg_e \<Rightarrow> wrans list \<Rightarrow>
   exn + (launchmon_rc_e \<times> (int \<times> byte list \<times> wrans list) option)" where
  "ship_proctab_msg API_mode tab pcount t ks =
     (if \<not> API_mode then Inr (LAUNCHMON_FAILED, Some (0, [], ks))
      else case proctab_sendbuf tab pcount t of
        Inl e \<Rightarrow> Inl e
      | Inr (buf, n) \<Rightarrow> Inr (LAUNCHMON_OK, write_lmonp_long_msg ks buf n))"

definition say_fetofe_msg ::
  "bool \<Rightarrow> lmonp_fe_to_fe_msg_e \<Rightarrow> wrans list \<Rightarrow> (launchmon_rc_e \<times> byte list \<times> wrans list) option" where
  "say_fetofe_msg API_mode msg_type ks =
     (if \<not> API_mode then Some (LAUNCHMON_FAILED, [], ks)
      else
        (let hdr = the (snd (set_msg_header (Some lmonp_zero) (int (class_code lmonp_fetofe))
                       (int (fetofe_code msg_type)) 0 0 0 0 0 0 0)) in
         case write_lmonp_long_msg ks (enc_hdr hdr) (int lmonp_size) of
           None \<Rightarrow> None
         | Some (r, wire, ks') \<Rightarrow> Some (if r < 0 then LAUNCHMON_FAILED else LAUNCHMON_OK, wire, ks')))"

definition ship_fixed_payload ::
  "bool \<Rightarrow> lmonp_fe_to_fe_msg_e \<Rightarrow> byte list \<Rightarrow> wrans list \<Rightarrow>
   launchmon_rc_e \<times> (int \<times> byte list \<times> wrans list) option" where
  "ship_fixed_payload API_mode t bytes ks =
     (if \<not> API_mode then (LAUNCHMON_FAILED, Some (0, [], ks))
      else
        (let msg = (snd (init_msg_header lmonp_zero))\<lparr>msgclass := of_nat (class_code lmonp_fetofe)\<rparr>;
             msg = msg\<lparr>msgtype := of_nat (fetofe_code t)\<rparr>;
             msg = msg\<lparr>lmon_payload_length := of_nat (length bytes)\<rparr>
         in (LAUNCHMON_OK, write_lmonp_long_msg ks (enc_hdr msg @ bytes) (msgsize_of msg))))"

definition ship_resourcehandle_msg ::
  "bool \<Rightarrow> lmonp_fe_to_fe_msg_e \<Rightarrow> u64 \<Rightarrow> wrans list \<Rightarrow>
   launchmon_rc_e \<times> (int \<times> byte list \<times> wrans list) option" where
  "ship_resourcehandle_msg API_mode t rid ks = ship_fixed_payload API_mode t (enc64 rid) ks"

definition ship_rminfo_msg ::
  "bool \<Rightarrow> lmonp_fe_to_fe_msg_e \<Rightarrow> u32 \<Rightarrow> u32 \<Rightarrow> wrans list \<Rightarrow>
   launchmon_rc_e \<times> (int \<times> byte list \<times> wrans list) option" where
  "ship_rminfo_msg API_mode t rmpid rmtype ks =
     ship_fixed_payload API_mode t (enc32 rmpid @ enc32 rmtype) ks"

section \<open>The receiver\<close>

text \<open>\<open>buf\<close> is the message in memory; reading outside it is undefined behaviour.\<close>

definition read_entry :: "byte list \<Rightarrow> nat \<Rightarrow> nat \<Rightarrow> MPIR_PROCDESC_EXT option" where
  "read_entry buf ent strtab =
     (case (u32_at buf ent, u32_at buf (ent + 4), u32_at buf (ent + 8), u32_at buf (ent + 12),
            u32_at buf (ent + 16)) of
        (Some hn_ix, Some exec_ix, Some p, Some r, Some cn) \<Rightarrow>
          (case (read_cstr buf (strtab + unat hn_ix), read_cstr buf (strtab + unat exec_ix)) of
             (Some hn, Some ex) \<Rightarrow>
               Some \<lparr>pd = \<lparr>host_name = hn, executable_name = ex, pid = p\<rparr>, mpirank = r, cnodeid = cn\<rparr>
           | _ \<Rightarrow> None)
      | _ \<Rightarrow> None)"

fun parse_tasks :: "byte list \<Rightarrow> nat \<Rightarrow> nat \<Rightarrow> nat \<Rightarrow> proctable \<Rightarrow> exn + (int \<times> proctable)" where
  "parse_tasks buf ent strtab 0 tab = Inr (0, tab)"
| "parse_tasks buf ent strtab (Suc n) tab =
     (case read_entry buf ent strtab of
        None \<Rightarrow> Inl Undefined_behaviour
      | Some e \<Rightarrow> parse_tasks buf (ent + 20) strtab n (map_push (host_name (pd e)) e tab))"

definition parse_raw_RPDTAB_msg :: "byte list option \<Rightarrow> proctable \<Rightarrow> exn + (int \<times> proctable)" where
  "parse_raw_RPDTAB_msg proctabMsg pTab =
     (case proctabMsg of
        None \<Rightarrow> Inr (-1, pTab)
      | Some buf \<Rightarrow>
        (if pTab \<noteq> [] then Inr (-1, pTab)
         else
           (let msg = dec_hdr buf in
            case get_lmonpayload_begin (Some msg) of
              None \<Rightarrow> Inr (-2, pTab)
            | Some mpirent \<Rightarrow>
              (case get_strtab_begin msg of
                 None \<Rightarrow> Inr (-3, pTab)
               | Some strtab \<Rightarrow> parse_tasks buf mpirent strtab (msg_ntasks msg) pTab))))"

section \<open>The string table\<close>

text \<open>Each mapped name has the offset of its bytes in the packed table.\<close>

definition strtab_bytes :: "strtab_st \<Rightarrow> byte list" where
  "strtab_bytes st = concat (map cstr (orderedEHName st))"

definition strtab_ok :: "strtab_st \<Rightarrow> bool" where
  "strtab_ok st \<longleftrightarrow> map_inv (execHostName st) \<and> offset st = of_nat (length (strtab_bytes st)) \<and>
     (\<forall>s o1. map_find (execHostName st) s = Some o1 \<longrightarrow>
        (\<exists>pre post. orderedEHName st = pre @ s # post \<and> o1 = of_nat (length (concat (map cstr pre)))))"

lemma strtab0_ok: "strtab_ok strtab0"
  by (simp add: strtab_ok_def strtab0_def strtab_bytes_def smap.inv_empty)

lemma length_strtab_snoc:
  "length (concat (map cstr (xs @ [s]))) = length (concat (map cstr xs)) + (length s + 1)"
  by simp

lemma add_name_ok:
  assumes ok: "strtab_ok st"
    and upd: "execHostName st' = map_set s (offset st) (execHostName st)"
      "orderedEHName st' = orderedEHName st @ [s]" "offset st' = offset st + of_nat (length s + 1)"
  shows "strtab_ok st'"
proof -
  have inv: "map_inv (execHostName st)" and off: "offset st = of_nat (length (strtab_bytes st))"
    using ok by (simp_all add: strtab_ok_def)
  have "offset st' = of_nat (length (strtab_bytes st'))"
    using off upd(2,3) length_strtab_snoc by (simp add: strtab_bytes_def)
  moreover have "\<exists>pre post. orderedEHName st' = pre @ s2 # post \<and> o1 = of_nat (length (concat (map cstr pre)))"
    if "map_find (execHostName st') s2 = Some o1" for s2 o1
  proof (cases "s2 = s")
    case True
    then show ?thesis using that inv off upd
      by (intro exI [of _ "orderedEHName st"] exI [of _ "[]"]) (simp add: map_find_set strtab_bytes_def)
  next
    case False
    then have "map_find (execHostName st) s2 = Some o1" using that inv upd(1) by (simp add: map_find_set)
    then obtain pre post where "orderedEHName st = pre @ s2 # post"
      "o1 = of_nat (length (concat (map cstr pre)))" using ok unfolding strtab_ok_def by blast
    then show ?thesis using upd(2) by (intro exI [of _ pre] exI [of _ "post @ [s]"]) simp
  qed
  ultimately show ?thesis using inv upd(1) by (simp add: strtab_ok_def map_inv_set)
qed

lemma add_exec_ok: "strtab_ok st \<Longrightarrow> strtab_ok (add_exec s st)"
  by (cases "map_find (execHostName st) s")
    (auto simp: add_exec_def intro: add_name_ok [of st _ s])

lemma add_host_ok: "strtab_ok st \<Longrightarrow> strtab_ok (add_host s st)"
  by (cases "map_find (execHostName st) s")
    (auto simp: add_host_def intro: add_name_ok [of st _ s])

lemma build_strtab_ok: "strtab_ok st \<Longrightarrow> strtab_ok (build_strtab es st)"
  by (induction es st rule: build_strtab.induct) (simp_all add: add_exec_ok add_host_ok)

lemma add_dom:
  "map_inv (execHostName st) \<Longrightarrow> map_find (execHostName (add_exec s st)) k \<noteq> None \<longleftrightarrow>
     k = s \<or> map_find (execHostName st) k \<noteq> None"
  "map_inv (execHostName st) \<Longrightarrow> map_find (execHostName (add_host s st)) k \<noteq> None \<longleftrightarrow>
     k = s \<or> map_find (execHostName st) k \<noteq> None"
  by (auto simp: add_exec_def add_host_def map_find_set split: option.split)

lemma strtab_ok_inv: "strtab_ok st \<Longrightarrow> map_inv (execHostName st)"
  by (simp add: strtab_ok_def)

lemma build_strtab_dom:
  "strtab_ok st \<Longrightarrow> map_find (execHostName (build_strtab es st)) k \<noteq> None \<longleftrightarrow>
     map_find (execHostName st) k \<noteq> None \<or> k \<in> (\<Union>e \<in> set es. {host_name (pd e), executable_name (pd e)})"
  by (induction es st rule: build_strtab.induct)
    (auto simp del: not_None_eq simp: add_dom add_exec_ok add_host_ok strtab_ok_inv)

lemma ordered_names:
  "set (orderedEHName (build_strtab es st)) \<subseteq> set (orderedEHName st) \<union>
     (\<Union>e \<in> set es. {host_name (pd e), executable_name (pd e)})"
  by (induction es st rule: build_strtab.induct)
    (fastforce simp: add_exec_def add_host_def split: option.splits)+

text \<open>Each name is stored once.\<close>

lemma distinct_ordered:
  assumes "strtab_ok st" and "distinct (orderedEHName st)"
    and "\<forall>s \<in> set (orderedEHName st). map_find (execHostName st) s \<noteq> None"
  shows "distinct (orderedEHName (build_strtab es st)) \<and>
     (\<forall>s \<in> set (orderedEHName (build_strtab es st)). map_find (execHostName (build_strtab es st)) s \<noteq> None)"
  using assms
proof (induction es st rule: build_strtab.induct)
  case (1 st)
  then show ?case by simp
next
  case (2 e es st)
  have "strtab_ok (add_host (host_name (pd e)) (add_exec (executable_name (pd e)) st))"
    using "2.prems"(1) by (simp add: add_exec_ok add_host_ok)
  moreover have a: "distinct (orderedEHName (add_exec s st)) \<and>
      (\<forall>s2 \<in> set (orderedEHName (add_exec s st)). map_find (execHostName (add_exec s st)) s2 \<noteq> None)"
    if "distinct (orderedEHName st)" "strtab_ok st"
      "\<forall>s \<in> set (orderedEHName st). map_find (execHostName st) s \<noteq> None" for s st
    using that by (auto simp: add_exec_def map_find_set strtab_ok_inv split: option.split)
  moreover have b: "distinct (orderedEHName (add_host s st)) \<and>
      (\<forall>s2 \<in> set (orderedEHName (add_host s st)). map_find (execHostName (add_host s st)) s2 \<noteq> None)"
    if "distinct (orderedEHName st)" "strtab_ok st"
      "\<forall>s \<in> set (orderedEHName st). map_find (execHostName st) s \<noteq> None" for s st
    using that by (auto simp: add_host_def map_find_set strtab_ok_inv split: option.split)
  ultimately show ?case using "2.IH" "2.prems" add_exec_ok by simp
qed

section \<open>The receiver's loop\<close>

lemma length_enc_entry [simp, byte_simps]: "length (enc_entry m e) = 20"
  by (simp add: enc_entry_def)

lemma u32_at_skip:
  "u32_at (pre @ b) (length pre + n) = u32_at b n"
  by (simp add: u32_at_def)

lemma read_entry_enc:
  assumes "read_cstr (pre @ enc_entry m e @ post) (strtab + unat (ehn_at m (host_name (pd e)))) = Some (host_name (pd e))"
    and "read_cstr (pre @ enc_entry m e @ post) (strtab + unat (ehn_at m (executable_name (pd e)))) = Some (executable_name (pd e))"
  shows "read_entry (pre @ enc_entry m e @ post) (length pre) strtab = Some e"
proof -
  let ?b = "enc_entry m e @ post"
  have "u32_at ?b 0 = Some (ehn_at m (host_name (pd e)))" "u32_at ?b 4 = Some (ehn_at m (executable_name (pd e)))"
    "u32_at ?b 8 = Some (pid (pd e))" "u32_at ?b 12 = Some (mpirank e)" "u32_at ?b 16 = Some (cnodeid e)"
    by (simp_all add: u32_at_def enc_entry_def)
  moreover have "u32_at (pre @ ?b) (length pre) = u32_at ?b 0"
    using u32_at_skip [of pre ?b 0] by simp
  ultimately show ?thesis
    using assms by (simp add: read_entry_def u32_at_skip)
qed

lemma parse_tasks_enc:
  assumes "buf = pre @ concat (map (enc_entry m) es) @ post"
    and "\<forall>e \<in> set es. \<forall>s \<in> {host_name (pd e), executable_name (pd e)}.
           read_cstr buf (strtab + unat (ehn_at m s)) = Some s"
  shows "parse_tasks buf (length pre) strtab (length es) tab =
     Inr (0, fold (\<lambda>e. map_push (host_name (pd e)) e) es tab)"
  using assms
proof (induction es arbitrary: pre tab)
  case Nil
  then show ?case by simp
next
  case (Cons e es)
  have b: "buf = pre @ enc_entry m e @ concat (map (enc_entry m) es) @ post" using Cons.prems(1) by simp
  then have "read_entry buf (length pre) strtab = Some e"
    using read_entry_enc [of pre m e "concat (map (enc_entry m) es) @ post" strtab] Cons.prems(2)
    by (simp add: b [symmetric])
  moreover have "length pre + 20 = length (pre @ enc_entry m e)" by simp
  ultimately show ?case
    using Cons.IH [of "pre @ enc_entry m e" "map_push (host_name (pd e)) e tab"] b Cons.prems(2)
    by (simp del: length_append)
qed

section \<open>A table the engine can hold\<close>

text \<open>What \<open>acquire_proctable\<close> builds: vectors filed under their host, no empty vector,
  C strings, one entry per task, and a message size that \<open>int\<close> can hold.\<close>

definition names_of :: "MPIR_PROCDESC_EXT \<Rightarrow> string set" where
  "names_of e = {host_name (pd e), executable_name (pd e)}"

definition wf_proctab :: "proctable \<Rightarrow> int \<Rightarrow> bool" where
  "wf_proctab tab pcount \<longleftrightarrow> map_inv tab \<and> tab \<noteq> [] \<and>
     (\<forall>(k, es) \<in> set tab. es \<noteq> [] \<and> (\<forall>e \<in> set es. host_name (pd e) = k)) \<and>
     (\<forall>e \<in> set (entries tab). nul_free (host_name (pd e)) \<and> nul_free (executable_name (pd e))) \<and>
     pcount = int (length (entries tab)) \<and>
     28 + 20 * length (entries tab) + length (strtab_bytes (build_strtab (entries tab) strtab0)) < 2 ^ 31"

lemma filter_entries:
  "sorted_wrt (<) (map fst tab) \<Longrightarrow> \<forall>(k, es) \<in> set tab. \<forall>e \<in> set es. host_name (pd e) = k \<Longrightarrow>
   filter (\<lambda>e. host_name (pd e) = k) (entries tab) = (case map_find tab k of None \<Rightarrow> [] | Some es \<Rightarrow> es)"
proof (induction tab)
  case Nil
  then show ?case by (simp add: entries_def)
next
  case (Cons x tab)
  obtain a es where x: "x = (a, es)" by (cases x)
  have ih: "filter (\<lambda>e. host_name (pd e) = k) (entries tab) =
      (case map_find tab k of None \<Rightarrow> [] | Some es \<Rightarrow> es)"
    using Cons by simp
  have f: "filter (\<lambda>e. host_name (pd e) = k) es = (if a = k then es else [])"
    using Cons.prems(2) x by (auto simp: filter_id_conv filter_empty_conv)
  show ?case
  proof (cases "a = k")
    case True
    then have "k \<notin> fst ` set tab" using Cons.prems(1) x by auto
    then have "map_find tab k = None" by (simp add: map_find_None_iff)
    then show ?thesis using ih f x True by (simp add: entries_def)
  next
    case False
    then show ?thesis using ih f x by (simp add: entries_def)
  qed
qed

text \<open>Filing the entries again under their hosts gives the same map.\<close>

lemma regroup:
  assumes "map_inv tab"
    and "\<forall>(k, es) \<in> set tab. es \<noteq> [] \<and> (\<forall>e \<in> set es. host_name (pd e) = k)"
  shows "fold (\<lambda>e. map_push (host_name (pd e)) e) (entries tab) [] = tab"
proof (rule map_inv_ext)
  show "map_inv (fold (\<lambda>e. map_push (host_name (pd e)) e) (entries tab) [])"
    by (simp add: map_inv_push_fold smap.inv_empty)
  show "map_inv tab" by fact
  fix k
  have g: "filter (\<lambda>e. host_name (pd e) = k) (entries tab) =
      (case map_find tab k of None \<Rightarrow> [] | Some es \<Rightarrow> es)"
    using assms by (intro filter_entries) (auto simp: map_inv_def map_keys_def)
  have "map_find tab k = Some es \<Longrightarrow> es \<noteq> []" for es
    using assms by (auto simp: map_find_Some_iff)
  then show "map_find (fold (\<lambda>e. map_push (host_name (pd e)) e) (entries tab) []) k = map_find tab k"
    by (subst map_find_push_fold) (auto simp: g smap.inv_empty split: option.split list.split)
qed

lemma strtab_lookup:
  assumes "strtab_ok st" and "map_find (execHostName st) s = Some o1" and "nul_free s"
    and "length (strtab_bytes st) < 2 ^ 31" and "off = length pre"
  shows "read_cstr (pre @ strtab_bytes st) (off + unat (ehn_at (execHostName st) s)) = Some s"
proof -
  obtain a b where ab: "orderedEHName st = a @ s # b" "o1 = of_nat (length (concat (map cstr a)))"
    using assms(1,2) unfolding strtab_ok_def by blast
  have sb: "strtab_bytes st = concat (map cstr a) @ cstr s @ concat (map cstr b)"
    by (simp add: strtab_bytes_def ab(1))
  then have "length (concat (map cstr a)) < 2 ^ 31" using assms(4) by simp
  then have "unat o1 = length (concat (map cstr a))"
    unfolding ab(2) by (subst unat_of_nat) simp
  then have "off + unat (ehn_at (execHostName st) s) = length (pre @ concat (map cstr a))"
    using assms(2,5) by (simp add: ehn_at_def)
  then show ?thesis
    using read_cstr_cstr [OF assms(3), of "pre @ concat (map cstr a)" "concat (map cstr b)"]
    by (simp add: sb)
qed

section \<open>The message that is shipped\<close>

definition proctab_hdr :: "strtab_st \<Rightarrow> nat \<Rightarrow> lmonp_fe_to_fe_msg_e \<Rightarrow> lmonp_t" where
  "proctab_hdr st n t = \<lparr>msgclass = 0, msgtype = of_nat (fetofe_code t),
     num_tasks = of_nat (min n LMON_NTASKS_THRE),
     security_key2 = exec_and_hn (ucast (num_unique_exec st)) (ucast (num_unique_hn st)),
     long_num_tasks = (if n < LMON_NTASKS_THRE then 0 else of_nat n),
     lmon_payload_length = of_nat (20 * n + length (strtab_bytes st)), usr_payload_length = 0\<rparr>"

lemma length_proctab_payload:
  "length (proctab_payload st es) = 20 * length es + length (strtab_bytes st)"
proof -
  have "length (concat (map (enc_entry (execHostName st)) es)) = 20 * length es"
    by (induction es) simp_all
  then show ?thesis by (simp add: proctab_payload_def strtab_bytes_def del: length_concat)
qed

lemma msg_ntasks_proctab: "n < 2 ^ 31 \<Longrightarrow> msg_ntasks (proctab_hdr st n t) = n"
  by (simp add: msg_ntasks_def proctab_hdr_def LMON_NTASKS_THRE_def unat_of_nat min_def)

lemma proctab_sendbuf_wf:
  assumes "wf_proctab tab pcount" and st: "st = build_strtab (entries tab) strtab0"
  shows "proctab_sendbuf tab pcount t =
     Inr (enc_hdr (proctab_hdr st (length (entries tab)) t) @ proctab_payload st (entries tab),
          28 + int (length (proctab_payload st (entries tab))))"
    and "wf_msg (proctab_hdr st (length (entries tab)) t) (proctab_payload st (entries tab))"
    and "entries tab \<noteq> []"
proof -
  let ?n = "length (entries tab)" and ?l = "length (strtab_bytes st)"
  have w: "pcount = int ?n" "28 + 20 * ?n + ?l < 2 ^ 31"
    using assms by (simp_all add: wf_proctab_def)
  have "strtab_ok st" using build_strtab_ok [OF strtab0_ok] by (simp add: st)
  then have off: "uint (offset st) = int ?l"
    using w(2) unfolding strtab_ok_def by (simp add: uint_nat unat_of_nat)
  have tab: "int N_Fields_MPIR_PROCDESC_EXT * 4 * pcount + uint (offset st) = int (20 * ?n + ?l)"
    by (simp add: N_Fields_MPIR_PROCDESC_EXT_def w(1) off)
  have size: "sint (of_int (int lmonp_size + int (20 * ?n + ?l)) :: u32) = 28 + int (20 * ?n + ?l)"
    using sint_of_nat32 [of "28 + (20 * ?n + ?l)"] w(2)
    by (simp only: lmonp_size_def of_nat_add [symmetric] of_int_of_nat_eq)
  have pos: "0 < 20 * ?n + ?l"
    using assms(1) by (cases tab) (auto simp: wf_proctab_def entries_def)
  show ne: "entries tab \<noteq> []"
    using assms(1) by (cases tab) (auto simp: wf_proctab_def entries_def)
  have len: "unat (of_nat (20 * ?n + ?l) :: u32) = 20 * ?n + ?l"
    using w(2) by (subst unat_of_nat) simp
  have hdr: "(if pcount < int LMON_NTASKS_THRE then
       set_msg_header (Some lmonp_zero) (int (class_code lmonp_fetofe)) (int (fetofe_code t))
         (of_int pcount) 0 (ucast (num_unique_exec st)) (ucast (num_unique_hn st)) 0
         (of_int (int (20 * ?n + ?l))) 0
     else set_msg_header (Some lmonp_zero) (int (class_code lmonp_fetofe)) (int (fetofe_code t))
         (of_nat LMON_NTASKS_THRE) 0 (ucast (num_unique_exec st)) (ucast (num_unique_hn st))
         (of_int pcount) (of_int (int (20 * ?n + ?l))) 0) = (0, Some (proctab_hdr st ?n t))"
    by (simp add: set_msg_header_def proctab_hdr_def lmonp_zero_def w(1) Let_def min_def)
  have gp: "get_lmonpayload_begin (Some (proctab_hdr st ?n t)) = Some 28"
    using len pos by (auto simp: get_lmonpayload_begin_def proctab_hdr_def lmonp_size_def unat_eq_0 [symmetric])
  show "wf_msg (proctab_hdr st ?n t) (proctab_payload st (entries tab))"
    using w(2) len by (simp add: wf_msg_def length_proctab_payload proctab_hdr_def lmonp_size_def)
  show "proctab_sendbuf tab pcount t =
     Inr (enc_hdr (proctab_hdr st ?n t) @ proctab_payload st (entries tab),
          28 + int (length (proctab_payload st (entries tab))))"
    unfolding proctab_sendbuf_def Let_def st [symmetric] tab hdr size
    by (simp add: gp length_proctab_payload lmonp_size_def)
qed

lemma strtab_covers:
  "e \<in> set es \<Longrightarrow> s \<in> names_of e \<Longrightarrow> map_find (execHostName (build_strtab es strtab0)) s \<noteq> None"
  by (subst build_strtab_dom [OF strtab0_ok]) (auto simp: names_of_def)

text \<open>What the parser makes of the shipped buffer, with the header of the engine or with the one
  the front end puts in its place for the daemons.\<close>

definition febe_proctab_hdr :: "strtab_st \<Rightarrow> nat \<Rightarrow> lmonp_t" where
  "febe_proctab_hdr st n = (proctab_hdr st n lmonp_proctable_avail)\<lparr>msgclass := of_nat (class_code lmonp_fetobe),
     msgtype := of_nat (fetobe_code lmonp_febe_proctab)\<rparr>"

lemma parse_shipped_hdr:
  assumes "wf_proctab tab pcount" and st: "st = build_strtab (entries tab) strtab0"
    and h: "h = proctab_hdr st (length (entries tab)) lmonp_proctable_avail \<or> h = febe_proctab_hdr st (length (entries tab))"
  shows "parse_raw_RPDTAB_msg (Some (enc_hdr h @ proctab_payload st (entries tab))) [] = Inr (0, tab)"
proof -
  let ?es = "entries tab"
  let ?buf = "enc_hdr h @ proctab_payload st ?es"
  have w: "map_inv tab" "28 + 20 * length ?es + length (strtab_bytes st) < 2 ^ 31"
    "\<forall>(k, es) \<in> set tab. es \<noteq> [] \<and> (\<forall>e \<in> set es. host_name (pd e) = k)"
    "\<forall>e \<in> set ?es. nul_free (host_name (pd e)) \<and> nul_free (executable_name (pd e))"
    using assms by (simp_all add: wf_proctab_def)
  have ok: "strtab_ok st" using build_strtab_ok [OF strtab0_ok] by (simp add: st)
  have len: "unat (of_nat (20 * length ?es + length (strtab_bytes st)) :: u32) = 20 * length ?es + length (strtab_bytes st)"
    using w(2) by (subst unat_of_nat) simp
  have pos: "?es \<noteq> []" by (rule proctab_sendbuf_wf(3) [OF assms(1,2)])
  have gp: "get_lmonpayload_begin (Some h) = Some 28"
    using len pos h
    by (auto simp: get_lmonpayload_begin_def proctab_hdr_def febe_proctab_hdr_def lmonp_size_def unat_eq_0 [symmetric])
  have ty: "unat (of_nat (fetofe_code lmonp_proctable_avail) :: 13 word) = fetofe_code lmonp_proctable_avail"
    "unat (of_nat (fetobe_code lmonp_febe_proctab) :: 13 word) = fetobe_code lmonp_febe_proctab"
    by (simp_all add: fetofe_code_def fetofe_all_def fetobe_code_def fetobe_all_def)
  have nt: "msg_ntasks h = length ?es" using w(2) msg_ntasks_proctab [of "length ?es" st lmonp_proctable_avail] h
    by (auto simp: febe_proctab_hdr_def msg_ntasks_def)
  have gs: "get_strtab_begin h = Some (28 + 20 * length ?es)"
    using ty h by (simp add: get_strtab_begin_def gp nt N_Fields_MPIR_PROCDESC_EXT_def)
      (auto simp: proctab_hdr_def febe_proctab_hdr_def)
  have buf: "?buf = (enc_hdr h @ concat (map (enc_entry (execHostName st)) ?es)) @ strtab_bytes st"
    by (simp add: proctab_payload_def strtab_bytes_def)
  have names: "\<forall>e \<in> set ?es. \<forall>s \<in> {host_name (pd e), executable_name (pd e)}.
      read_cstr ?buf (28 + 20 * length ?es + unat (ehn_at (execHostName st) s)) = Some s"
  proof (intro ballI)
    fix e s assume e: "e \<in> set ?es" and s: "s \<in> {host_name (pd e), executable_name (pd e)}"
    then obtain o1 where "map_find (execHostName st) s = Some o1"
      using strtab_covers [of e ?es s] by (auto simp: st names_of_def)
    moreover have "nul_free s" using w(4) e s by auto
    ultimately show "read_cstr ?buf (28 + 20 * length ?es + unat (ehn_at (execHostName st) s)) = Some s"
      unfolding buf using w(2) length_proctab_payload [of st ?es]
      by (intro strtab_lookup [OF ok]) (simp_all add: proctab_payload_def strtab_bytes_def)
  qed
  have "parse_tasks ?buf (length (enc_hdr h)) (28 + 20 * length ?es) (length ?es) [] =
      Inr (0, fold (\<lambda>e. map_push (host_name (pd e)) e) ?es [])"
    by (rule parse_tasks_enc [where post = "strtab_bytes st", OF _ names])
      (simp add: proctab_payload_def strtab_bytes_def)
  then show ?thesis
    using gp gs nt regroup [OF w(1,3)] by (simp add: parse_raw_RPDTAB_msg_def)
qed

lemmas parse_shipped = parse_shipped_hdr [OF _ _ disjI1, OF _ _ refl]

section \<open>Properties\<close>

text \<open>C8: Shipping the RPDTAB and reading it back is the identity: for a table the engine
  can hold, \<open>ship_proctab_msg\<close> writes one message, and a peer that reads its header and its
  payload and runs \<open>parse_raw_RPDTAB_msg\<close> on it gets return code 0 and exactly the table,
  whatever the chunking on either side.\<close>

theorem ship_proctab_roundtrip:
  assumes "wf_proctab tab pcount" and "proctab_sendbuf tab pcount lmonp_proctable_avail = Inr (buf, n)"
    and "wtransient ks" and "wprogress ks = length buf"
    and "kernel_offers rks [take 28 buf, drop 28 buf]"
  shows "\<exists>ks' hb rks1 body rks2.
     ship_proctab_msg True tab pcount lmonp_proctable_avail ks = Inr (LAUNCHMON_OK, Some (n, buf, ks')) \<and>
     read_lmonp_msgheader rks = Some (28, hb, rks1) \<and>
     read_lmonp_payloads rks1 (int (unat (lmon_payload_length (dec_hdr hb)))) = Some (int (length body), body, rks2) \<and>
     parse_raw_RPDTAB_msg (Some (hb @ body)) [] = Inr (0, tab)"
proof -
  define st where "st = build_strtab (entries tab) strtab0"
  define h where "h = proctab_hdr st (length (entries tab)) lmonp_proctable_avail"
  define pl where "pl = proctab_payload st (entries tab)"
  note sb = proctab_sendbuf_wf(1,2) [OF assms(1) st_def, where t = lmonp_proctable_avail, folded h_def pl_def]
  have buf: "buf = enc_hdr h @ pl" "n = 28 + int (length pl)" using sb(1) assms(2) by simp_all
  have ne: "pl \<noteq> []" using proctab_sendbuf_wf(3) [OF assms(1) st_def] length_proctab_payload [of st "entries tab"] by (auto simp: pl_def)
  have len: "unat (lmon_payload_length h) = length pl"
    using sb(2) by (simp add: wf_msg_def h_def proctab_hdr_def)
  have o: "kernel_offers rks [enc_hdr h, pl]" using assms(5) buf(1) by simp
  have "parse_raw_RPDTAB_msg (Some (enc_hdr h @ pl)) [] = Inr (0, tab)"
    using parse_shipped [OF assms(1) st_def] by (simp add: h_def pl_def)
  moreover obtain ks' where "write_lmonp_long_msg ks buf n = Some (n, buf, ks')"
    using write_message [OF sb(2) assms(3)] assms(4) buf by auto
  moreover have "dec_hdr (enc_hdr h) = h" using dec_enc_hdr [of h "[]"] by simp
  ultimately show ?thesis
    using read_message [OF o ne] assms(2) len by (fastforce simp: ship_proctab_msg_def simp del: of_nat_unat)
qed

definition demo_tab :: proctable where
  "demo_tab = [(''n1'', [\<lparr>pd = \<lparr>host_name = ''n1'', executable_name = ''a'', pid = 10\<rparr>, mpirank = 0, cnodeid = 0xffffffff\<rparr>,
                         \<lparr>pd = \<lparr>host_name = ''n1'', executable_name = ''a'', pid = 11\<rparr>, mpirank = 2, cnodeid = 0xffffffff\<rparr>]),
               (''n2'', [\<lparr>pd = \<lparr>host_name = ''n2'', executable_name = ''b'', pid = 12\<rparr>, mpirank = 1, cnodeid = 0xffffffff\<rparr>])]"

lemma demo_tab_sizes: "length (strtab_bytes (build_strtab (entries demo_tab) strtab0)) = 10"
  "length (entries demo_tab) = 3"
  by (code_simp, simp add: demo_tab_def entries_def)

lemma demo_tab_wf: "wf_proctab demo_tab 3"
proof -
  have "map_inv demo_tab" by code_simp
  then show ?thesis
    by (simp add: wf_proctab_def demo_tab_sizes) (simp add: demo_tab_def entries_def nul_free_def)
qed

theorem ship_proctab_roundtrip_witness:
  "\<exists>buf n ks' hb rks1 body rks2.
     ship_proctab_msg True demo_tab 3 lmonp_proctable_avail [Wrote 98] = Inr (LAUNCHMON_OK, Some (n, buf, ks')) \<and>
     read_lmonp_msgheader [Data (take 28 buf), RFail EINTR, Data (drop 28 buf)] = Some (28, hb, rks1) \<and>
     read_lmonp_payloads rks1 (int (unat (lmon_payload_length (dec_hdr hb)))) = Some (int (length body), body, rks2) \<and>
     parse_raw_RPDTAB_msg (Some (hb @ body)) [] = Inr (0, demo_tab)"
proof -
  define pl where "pl = proctab_payload (build_strtab (entries demo_tab) strtab0) (entries demo_tab)"
  define h where "h = proctab_hdr (build_strtab (entries demo_tab) strtab0) (length (entries demo_tab)) lmonp_proctable_avail"
  have sb: "proctab_sendbuf demo_tab 3 lmonp_proctable_avail = Inr (enc_hdr h @ pl, 28 + int (length pl))"
    using proctab_sendbuf_wf(1) [OF demo_tab_wf refl, of lmonp_proctable_avail] by (simp add: pl_def h_def)
  have len: "length pl = 70" by (simp add: pl_def length_proctab_payload demo_tab_sizes)
  let ?buf = "enc_hdr h @ pl"
  have tr: "rtransient [Data (enc_hdr h), RFail EINTR, Data pl]"
    using len enc_hdr_not_Nil [of h] by (auto simp: rtransient_def retryable_def)
  have o: "kernel_offers [Data (take 28 ?buf), RFail EINTR, Data (drop 28 ?buf)] [take 28 ?buf, drop 28 ?buf]"
    unfolding kernel_offers_def
    by (intro exI [of _ "[[Data (enc_hdr h)], [RFail EINTR, Data pl]]"] exI [of _ "[]"]) (use tr in simp)
  have t: "wtransient [Wrote 98]" by (simp add: wtransient_def)
  have w: "wprogress [Wrote 98] = length ?buf" using len by simp
  show ?thesis
    by (rule exI, rule exI, rule ship_proctab_roundtrip [OF demo_tab_wf sb t w o])
qed

end
