(* ===== verification/Launchmon_Base.thy ===== *)
theory Launchmon_Base
  imports Bp_Trap Proctab Rm_Map
begin

text \<open>
  The platform-independent half of the engine: \<open>launchmon_base_t\<close> of
  \<open>sdbg_base_launchmon.hxx\<close> and \<open>sdbg_base_launchmon_impl.hxx\<close>. The engine's state
  extends the traced machine with the members of the class, the options and the resource
  manager the process points to, both directions of the front-end socket, and a log of the
  effects on the outside. The operations are the requests to stop the launcher, the MPIR
  state machine and the handlers of socket and daemon events. Time (\<open>last_seen\<close>,
  \<open>usleep\<close>) is left out: it only chooses the timeout of \<open>poll\<close>.
\<close>

section \<open>State\<close>

datatype launchmon_event_e =
    LM_HIT_A_BP | LM_STOP_AT_LAUNCH_BP | LM_STOP_AT_FIRST_EXEC | LM_STOP_AT_FIRST_ATTACH
  | LM_STOP_AT_LOADER_BP | LM_STOP_AT_THREAD_CREATION | LM_STOP_NEW_THREAD_TRACE
  | LM_STOP_NEW_FORKED_PROCESS | LM_STOP_NOT_INTERESTED | LM_STOP_FOR_DETACH | LM_STOP_FOR_KILL
  | LM_REQUEST_NEW_THREAD | LM_RELAY_SIGNAL | LM_TERMINATED | LM_EXITED | LM_INVALID

datatype engine_state_e = mpir_start | mpir_null | mpir_spawned | mpir_abort | mpir_unknown

definition MPIR_NULL :: int where "MPIR_NULL = 0"
definition MPIR_DEBUG_SPAWNED :: int where "MPIR_DEBUG_SPAWNED = 1"
definition MPIR_DEBUG_ABORTING :: int where "MPIR_DEBUG_ABORTING = 2"

text \<open>The answers of \<open>poll\<close>: an event, with or without \<open>POLLIN\<close>, none, or an error.\<close>

datatype pollans = Poll_event bool | Poll_none | Poll_fail errno

datatype effect =
    Setenv string string | Sig int int | Remove string | Spawn "string list" | Wrote_file string string
  | Fifo_wakeup string

record engine_opts =
  opt_attach :: bool
  opt_debugtarget :: string
  opt_envMap :: "(string, string) std_map"
  opt_sec_info :: string

text \<open>What the engine asks the system: symbols of files, the auxiliary vector and the maps of
  a process, the working directory, its own pid, whether a file opens for writing or a FIFO
  opens, the pid \<open>fork\<close> returns, the length up to which a chain of link maps is followed,
  and the arguments of the launch-string expansion.\<close>

record outside =
  o_elf :: "string \<Rightarrow> (string, symbol_base_t) std_map option"
  o_auxv :: "int \<Rightarrow> (nat \<times> u64) list option"
  o_maps :: "int \<Rightarrow> string list option"
  o_getcwd :: "string option"
  o_getpid :: int
  o_can_write :: "string \<Rightarrow> bool"
  o_fifo_opens :: "string \<Rightarrow> bool"
  o_fork :: int
  o_link_map_max :: nat
  o_tokenizer :: "string \<Rightarrow> string list"
  o_getenv :: "string \<Rightarrow> string option"
  o_tvcmd :: string
  o_sshcmd :: string

record engine = machine +
  engine_state :: engine_state_e
  resid :: int
  pcount :: int
  toollauncherpid :: int
  API_mode :: bool
  proctable_copy :: proctable
  rmgr :: rc_rm_t
  myopts :: engine_opts
  out :: outside
  fe_sent :: "byte list"
  fe_writes :: "wrans list"
  fe_reads :: "rdans list"
  fe_polls :: "pollans list"
  waits :: "(int \<times> int) list"
  effects :: "effect list"

type_synonym 'a eng = "(engine, 'a) act"

definition do_effect :: "effect \<Rightarrow> unit eng" where
  "do_effect e = modA (\<lambda>s. s\<lparr>effects := effects s @ [e]\<rparr>)"

text \<open>\<open>waits\<close> holds the pairs of return value and status of the coming calls of \<open>waitpid\<close>.\<close>

section \<open>Messages to the front end\<close>

text \<open>The result of a write on the socket: what reached the wire and the rest of the answers;
  \<open>None\<close> is a write that does not return.\<close>

definition sent :: "'r \<Rightarrow> byte list \<Rightarrow> wrans list \<Rightarrow> 'r eng" where
  "sent r wire ks = bindA (modA (\<lambda>s. s\<lparr>fe_sent := fe_sent s @ wire, fe_writes := ks\<rparr>)) (\<lambda>_. ret r)"

definition e_say :: "lmonp_fe_to_fe_msg_e \<Rightarrow> launchmon_rc_e eng" where
  "e_say t s = (case say_fetofe_msg (API_mode s) t (fe_writes s) of
     None \<Rightarrow> throw No_return s
   | Some (rc, wire, ks) \<Rightarrow> sent rc wire ks s)"

definition e_ship_proctab :: "lmonp_fe_to_fe_msg_e \<Rightarrow> launchmon_rc_e eng" where
  "e_ship_proctab t s = (case ship_proctab_msg (API_mode s) (proctable_copy s) (pcount s) t (fe_writes s) of
     Inl e \<Rightarrow> throw e s
   | Inr (rc, None) \<Rightarrow> throw No_return s
   | Inr (rc, Some (n, wire, ks)) \<Rightarrow> sent rc wire ks s)"

definition e_ship_resourcehandle :: "lmonp_fe_to_fe_msg_e \<Rightarrow> int \<Rightarrow> launchmon_rc_e eng" where
  "e_ship_resourcehandle t id1 s = (case ship_resourcehandle_msg (API_mode s) t (of_int id1) (fe_writes s) of
     (rc, None) \<Rightarrow> throw No_return s
   | (rc, Some (n, wire, ks)) \<Rightarrow> sent rc wire ks s)"

definition e_ship_rminfo :: "lmonp_fe_to_fe_msg_e \<Rightarrow> int \<Rightarrow> rm_catalogue_e \<Rightarrow> launchmon_rc_e eng" where
  "e_ship_rminfo t rmpid rmtype s = (case ship_rminfo_msg (API_mode s) t (of_int rmpid)
       (of_nat (pos_of [RC_mchecker_rm, RC_slurm, RC_bglrm, RC_bgprm, RC_bgqrm, RC_bgq_slurm, RC_bgrm,
          RC_alps, RC_cray, RC_orte, RC_mpiexec_hydra, RC_gupc, RC_flux, RC_none] rmtype)) (fe_writes s) of
     (rc, None) \<Rightarrow> throw No_return s
   | (rc, Some (n, wire, ks)) \<Rightarrow> sent rc wire ks s)"

section \<open>Requests\<close>

text \<open>One round of the loop over the threads: stop the thread if \<open>/proc\<close> shows it running.\<close>

definition stop_thread :: "int \<Rightarrow> unit eng" where
  "stop_thread k =
     seqA [ignA (make_context k),
           bindA (tracer_status True) (\<lambda>st. whenA (st = SDBG_TRACE_RUNNING) (ignA (tracer_stop True))),
           ignA (check_and_undo_context k)]"

definition stop_threads :: "unit eng" where
  "stop_threads = bindA (getA (map_keys \<circ> thrlist)) (\<lambda>ks. forA stop_thread ks)"

definition request_detach :: "pcont_req_reason \<Rightarrow> bool eng" where
  "request_detach reason s =
     (if please_detach s \<or> please_kill s then ret False s
      else bindA (seqA [stop_threads, modA (\<lambda>s. s\<lparr>please_detach := True\<rparr>), modA (\<lambda>s. s\<lparr>preason := reason\<rparr>)])
             (\<lambda>_. ret True) s)"

definition request_kill :: "pcont_req_reason \<Rightarrow> bool eng" where
  "request_kill reason s =
     (if please_detach s \<or> please_kill s then ret False s
      else bindA (seqA [stop_threads, modA (\<lambda>s. s\<lparr>please_kill := True\<rparr>), modA (\<lambda>s. s\<lparr>preason := reason\<rparr>)])
             (\<lambda>_. ret True) s)"

definition set_event_registered :: "int \<Rightarrow> bool \<Rightarrow> unit eng" where
  "set_event_registered k v s = (case map_find (thrlist s) k of
     None \<Rightarrow> throw Undefined_behaviour s
   | Some t \<Rightarrow> ret () (s\<lparr>thrlist := map_set k (t\<lparr>event_registered := v\<rparr>) (thrlist s)\<rparr>))"

definition cont_thread :: "int \<Rightarrow> unit eng" where
  "cont_thread k s =
     (case map_find (thrlist s) k of
        None \<Rightarrow> ret () s
      | Some t \<Rightarrow> whenA (event_registered t)
          (seqA [ignA (make_context k), tracer_continue True, set_event_registered k False,
                 ignA (check_and_undo_context k)]) s)"

definition request_cont_launch_bp :: "bool eng" where
  "request_cont_launch_bp =
     bindA (getA (map_keys \<circ> thrlist)) (\<lambda>ks. bindA (forA cont_thread ks) (\<lambda>_. ret True))"

section \<open>The MPIR state\<close>

definition set_engine_state :: "int \<Rightarrow> unit eng" where
  "set_engine_state n = modA (\<lambda>s. s\<lparr>engine_state :=
     (if n = MPIR_DEBUG_SPAWNED then mpir_spawned
      else if n = MPIR_DEBUG_ABORTING then mpir_abort
      else if n = MPIR_NULL then mpir_null
      else mpir_unknown)\<rparr>)"

definition validate_mpir_state_transition :: "engine \<Rightarrow> int \<Rightarrow> bool" where
  "validate_mpir_state_transition s n =
     (if n = MPIR_DEBUG_SPAWNED then engine_state s = mpir_start \<or> engine_state s = mpir_null
      else if n = MPIR_DEBUG_ABORTING then
        engine_state s = mpir_start \<or> engine_state s = mpir_null \<or> engine_state s = mpir_spawned
      else if n = MPIR_NULL then
        engine_state s = mpir_start \<or> engine_state s = mpir_null \<or> engine_state s = mpir_spawned
      else False)"

section \<open>Events that do not come from the launcher\<close>

fun poll_loop :: "pollans list \<Rightarrow> (pollans \<times> pollans list) option" where
  "poll_loop [] = None"
| "poll_loop (Poll_fail EINTR # ks) = poll_loop ks"
| "poll_loop (k # ks) = Some (k, ks)"

text \<open>The cases of the \<open>switch\<close> on the type of a well-formed message.\<close>

definition dispatch_fe_msg :: "nat \<Rightarrow> launchmon_rc_e eng" where
  "dispatch_fe_msg t =
     (if t = fetofe_code lmonp_detach then
        bindA (request_detach FE_requested_detach) (\<lambda>_. ret LAUNCHMON_OK)
      else if t = fetofe_code lmonp_kill then
        bindA (request_kill FE_requested_kill) (\<lambda>_. ret LAUNCHMON_OK)
      else if t = fetofe_code lmonp_shutdownbe then
        bindA (request_detach FE_requested_shutdown_dmon) (\<lambda>_. ret LAUNCHMON_OK)
      else if t = fetofe_code lmonp_cont_launch_bp then
        bindA request_cont_launch_bp (\<lambda>_. ret LAUNCHMON_OK)
      else ret LAUNCHMON_FAILED)"

definition handle_incoming_socket_event :: "launchmon_rc_e eng" where
  "handle_incoming_socket_event = catchA LAUNCHMON_FAILED (\<lambda>s.
     if \<not> API_mode s then ret LAUNCHMON_OK s
     else (case poll_loop (fe_polls s) of
       None \<Rightarrow> throw No_return s
     | Some (k, ks) \<Rightarrow>
         (let s = s\<lparr>fe_polls := ks\<rparr> in
          if k \<noteq> Poll_event True then ret LAUNCHMON_OK s
          else (case read_lmonp_msgheader (fe_reads s) of
            None \<Rightarrow> throw No_return s
          | Some (numbytes, buf, rest) \<Rightarrow>
              (let s = s\<lparr>fe_reads := rest\<rparr>; msg = dec_hdr buf in
               if numbytes = -1 then
                 bindA (request_detach FE_disconnected) (\<lambda>_. ret LAUNCHMON_OK) s
               else if numbytes \<noteq> int lmonp_size \<or> unat (msgclass msg) \<noteq> class_code lmonp_fetofe then
                 ret LAUNCHMON_FAILED s
               else dispatch_fe_msg (unat (msgtype msg)) s))))) "

definition handle_daemon_exit_event :: "launchmon_rc_e eng" where
  "handle_daemon_exit_event = catchA LAUNCHMON_FAILED (\<lambda>s.
     bindA (whenA (is_fail_detect_sup (rmgr s)) (ignA (request_detach RM_BE_daemon_exited)))
       (\<lambda>_. ret LAUNCHMON_OK) s)"


section \<open>What a request does\<close>

definition running :: "engine \<Rightarrow> int \<Rightarrow> bool" where
  "running s k \<longleftrightarrow> (case kstat (krn s) k of None \<Rightarrow> False | Some st \<Rightarrow> st \<noteq> ''T'')"

definition tkill_all :: "int list \<Rightarrow> kernel \<Rightarrow> kernel" where
  "tkill_all ks K = fold (\<lambda>k K. snd (ksys TKILL k 0 (of_int SIGSTOP) K)) ks K"

lemma ksys_TKILL_kstat [simp]: "kstat (snd (ksys TKILL k a d K)) = kstat K"
  by (simp add: ksys_def split: option.split)

lemma tkill_all_Cons: "tkill_all (k # ks) K = tkill_all ks (snd (ksys TKILL k 0 (of_int SIGSTOP) K))"
  by (simp add: tkill_all_def)

lemma tkill_all_Nil [simp]: "tkill_all [] K = K"
  by (simp add: tkill_all_def)

lemma tkill_all_reliable:
  assumes "\<forall>n. kfail K n = None"
  shows "kmem (tkill_all ks K) = kmem K" "kregs (tkill_all ks K) = kregs K"
    "klog (tkill_all ks K) = klog K @ map (\<lambda>k. (TKILL, k, 0, of_int SIGSTOP)) ks"
    "\<forall>n. kfail (tkill_all ks K) n = None"
  using assms by (induction ks arbitrary: K) (simp_all add: tkill_all_Cons ksys_def)

text \<open>The context of a known thread: one push, one pop, and in between its own id.\<close>

lemma make_context_known:
  "map_find (thrlist s) k \<noteq> None \<Longrightarrow>
   make_context k s = (Inr True, s\<lparr>thread_ctx_stack := k # thread_ctx_stack s\<rparr>)"
  by (simp add: make_context_def act_simps)

lemma undo_known:
  "new_child_pid s \<noteq> k \<Longrightarrow> thread_ctx_stack s = k # ks \<Longrightarrow>
   check_and_undo_context k s = (Inr True, s\<lparr>thread_ctx_stack := ks\<rparr>)"
  by (simp add: check_and_undo_context_def act_simps)

lemma stop_thread_eq:
  assumes "proc_wf s" and "new_child_pid s = 0" and "map_find (thrlist s) k = Some t"
  shows "stop_thread k s = (Inr (), s\<lparr>krn := tkill_all (if running s k then [k] else []) (krn s)\<rparr>)"
proof -
  let ?s = "s\<lparr>thread_ctx_stack := k # thread_ctx_stack s\<rparr>"
  have k: "k \<noteq> 0" using proc_wfD(3) [OF assms(1,3)] .
  have m: "make_context k s = (Inr True, ?s)"
    using assms(3) by (simp add: make_context_known)
  have g: "get_pid True (?s\<lparr>krn := K\<rparr>) = (Inr k, ?s\<lparr>krn := K\<rparr>)" for K
    using assms by (intro get_pid_known) (simp_all add: proc_wf_def)
  have g0: "get_pid True ?s = (Inr k, ?s)"
    using g [of "krn s"] by simp
  have u: "check_and_undo_context k (?s\<lparr>krn := K\<rparr>) = (Inr True, s\<lparr>krn := K\<rparr>)" for K
    using undo_known [of "?s\<lparr>krn := K\<rparr>" k "thread_ctx_stack s"] k assms(2) by simp
  have u0: "check_and_undo_context k ?s = (Inr True, s)" using u [of "krn s"] by simp
  have st: "tracer_status True ?s = (Inr (case kstat (krn s) k of None \<Rightarrow> SDBG_TRACE_ESRCH_ERR
      | Some l \<Rightarrow> if l = ''T'' then SDBG_TRACE_STOPPED else SDBG_TRACE_RUNNING), ?s)"
    by (simp add: tracer_status_def bindA_def g0 ret_def)
  have sp: "\<exists>r. tracer_stop True ?s = (Inr r, ?s\<lparr>krn := tkill_all [k] (krn s)\<rparr>)"
    by (simp add: tracer_stop_def bindA_def g0 ret_def Pptrace_def Let_def case_prod_beta tkill_all_Cons)
  show ?thesis
  proof (cases "running s k")
    case True
    then obtain l where "kstat (krn s) k = Some l" "l \<noteq> ''T''"
      by (auto simp: running_def split: option.splits)
    then show ?thesis using True sp u [of "tkill_all [k] (krn s)"]
      by (auto simp: stop_thread_def ignA_def m bindA_def ret_def st whenA_def)
  next
    case False
    then have "(case kstat (krn s) k of None \<Rightarrow> SDBG_TRACE_ESRCH_ERR
        | Some l \<Rightarrow> if l = ''T'' then SDBG_TRACE_STOPPED else SDBG_TRACE_RUNNING) \<noteq> SDBG_TRACE_RUNNING"
      by (auto simp: running_def split: option.splits)
    then show ?thesis using False u0
      by (simp add: stop_thread_def ignA_def m bindA_def ret_def st whenA_def)
  qed
qed

lemma running_krn [simp]: "running (s\<lparr>krn := tkill_all ks (krn s)\<rparr>) = running s"
proof -
  have "kstat (tkill_all ks K) = kstat K" for K
    by (induction ks arbitrary: K) (simp_all add: tkill_all_Cons)
  then show ?thesis by (simp add: running_def fun_eq_iff)
qed

lemma proc_wf_krn [simp]: "proc_wf (s\<lparr>krn := K\<rparr>) = proc_wf s"
  by (simp add: proc_wf_def)

lemma stop_all_eq:
  assumes "proc_wf s" and "new_child_pid s = 0" and "\<forall>k \<in> set ks. map_find (thrlist s) k \<noteq> None"
  shows "forA stop_thread ks s = (Inr (), s\<lparr>krn := tkill_all (filter (running s) ks) (krn s)\<rparr>)"
  using assms
proof (induction ks arbitrary: s)
  case Nil
  then show ?case by (simp add: ret_def)
next
  case (Cons k ks)
  obtain t where t: "map_find (thrlist s) k = Some t" using Cons.prems(3) by auto
  let ?s = "s\<lparr>krn := tkill_all (if running s k then [k] else []) (krn s)\<rparr>"
  have r: "running ?s = running s" by simp
  from Cons.IH [of ?s] Cons.prems
  have "forA stop_thread ks ?s = (Inr (), ?s\<lparr>krn := tkill_all (filter (running ?s) ks) (krn ?s)\<rparr>)"
    by simp
  then show ?case
    unfolding r using stop_thread_eq [OF Cons.prems(1,2) t]
    by (simp add: bindA_def tkill_all_Cons)
qed

lemma stop_threads_eq:
  assumes "proc_wf s" and "new_child_pid s = 0"
  shows "stop_threads s =
    (Inr (), s\<lparr>krn := tkill_all (filter (running s) (map_keys (thrlist s))) (krn s)\<rparr>)"
proof -
  have "\<forall>k \<in> set (map_keys (thrlist s)). map_find (thrlist s) k \<noteq> None"
    using assms(1) smap.keys_find by (auto simp: proc_wf_def)
  from stop_all_eq [OF assms this] show ?thesis
    by (simp add: stop_threads_def getA_def bindA_def)
qed

lemmas request_simps = request_detach_def request_kill_def bindA_def seqA.simps stop_threads_eq modA_def ret_def

lemma request_detach_eq:
  "proc_wf s \<Longrightarrow> new_child_pid s = 0 \<Longrightarrow>
   request_detach reason s =
     (if please_detach s \<or> please_kill s then (Inr False, s)
      else (Inr True, s\<lparr>please_detach := True, preason := reason,
              krn := tkill_all (filter (running s) (map_keys (thrlist s))) (krn s)\<rparr>))"
  by (simp add: request_simps)

lemma request_kill_eq:
  "proc_wf s \<Longrightarrow> new_child_pid s = 0 \<Longrightarrow>
   request_kill reason s =
     (if please_detach s \<or> please_kill s then (Inr False, s)
      else (Inr True, s\<lparr>please_kill := True, preason := reason,
              krn := tkill_all (filter (running s) (map_keys (thrlist s))) (krn s)\<rparr>))"
  by (simp add: request_simps)

datatype stop_request = Detach_req pcont_req_reason | Kill_req pcont_req_reason

fun do_request :: "stop_request \<Rightarrow> unit eng" where
  "do_request (Detach_req r) = ignA (request_detach r)"
| "do_request (Kill_req r) = ignA (request_kill r)"

fun request_marks :: "stop_request \<Rightarrow> engine \<Rightarrow> engine" where
  "request_marks (Detach_req r) s = s\<lparr>please_detach := True, preason := r\<rparr>"
| "request_marks (Kill_req r) s = s\<lparr>please_kill := True, preason := r\<rparr>"

lemma do_request_pending: "please_detach s \<or> please_kill s \<Longrightarrow> do_request r s = (Inr (), s)"
  by (cases r) (simp_all add: ignA_def bindA_def request_detach_def request_kill_def ret_def)

lemma do_requests_pending: "please_detach s \<or> please_kill s \<Longrightarrow> forA do_request rs s = (Inr (), s)"
  by (induction rs) (simp_all add: bindA_def do_request_pending ret_def)

text \<open>C10: (invariant) Of any sequence of detach and kill requests the first one counts: its flag and its
  reason are recorded, never a second flag or another reason; it sends \<open>SIGSTOP\<close> to
  exactly the threads \<open>/proc\<close> shows running, in ascending order, and the later requests
  send nothing. Nothing else of the engine changes, whatever the kernel answers.\<close>

theorem first_request_wins:
  assumes "proc_wf s" and "new_child_pid s = 0" and "\<not> please_detach s" and "\<not> please_kill s"
  shows "forA do_request (r # rs) s =
    (Inr (), (request_marks r s)\<lparr>krn := tkill_all (filter (running s) (map_keys (thrlist s))) (krn s)\<rparr>)"
proof -
  let ?K = "tkill_all (filter (running s) (map_keys (thrlist s))) (krn s)"
  have r: "do_request r s = (Inr (), (request_marks r s)\<lparr>krn := ?K\<rparr>)"
    using assms by (cases r) (simp_all add: ignA_def bindA_def request_detach_eq request_kill_eq ret_def)
  have "please_detach ((request_marks r s)\<lparr>krn := ?K\<rparr>) \<or> please_kill ((request_marks r s)\<lparr>krn := ?K\<rparr>)"
    by (cases r) simp_all
  from do_requests_pending [OF this] r show ?thesis
    by (simp add: bindA_def)
qed

definition demo_outside :: outside where
  "demo_outside = \<lparr>o_elf = (\<lambda>_. None), o_auxv = (\<lambda>_. None), o_maps = (\<lambda>_. None), o_getcwd = Some ''/tmp'',
     o_getpid = 99, o_can_write = (\<lambda>_. True), o_fifo_opens = (\<lambda>_. True), o_fork = 77, o_link_map_max = 100,
     o_tokenizer = (\<lambda>s. [s]), o_getenv = (\<lambda>_. None), o_tvcmd = ''totalview'', o_sshcmd = ''ssh''\<rparr>"

definition demo_engine :: engine where
  "demo_engine = machine.extend demo_machine (engine.fields mpir_start (-1) (-1) (-1) True [] rc_rm0
     \<lparr>opt_attach = False, opt_debugtarget = ''srun'', opt_envMap = [], opt_sec_info = ''s:1''\<rparr> demo_outside
     [] [Wrote 28] [Data (enc_hdr lmonp_zero)] [Poll_event True] [] [])"

lemma demo_engine_wf: "proc_wf demo_engine" "new_child_pid demo_engine = 0"
  "\<not> please_detach demo_engine" "\<not> please_kill demo_engine"
  by (simp_all add: demo_engine_def machine.defs engine.defs demo_machine_def proc_wf_def map_inv_def map_keys_def
      thr_ok_def thr2pid_def linux_x86_thread0_def)

theorem first_request_wins_witness:
  "preason (snd (forA do_request [Detach_req FE_disconnected, Kill_req FE_requested_kill] demo_engine)) = FE_disconnected"
  using first_request_wins [OF demo_engine_wf, of "Detach_req FE_disconnected" "[Kill_req FE_requested_kill]"]
  by simp


lemma demo_socket:
  "read_lmonp_msgheader (fe_reads demo_engine) = Some (28, enc_hdr lmonp_zero, [])"
  "poll_loop (fe_polls demo_engine) = Some (Poll_event True, [])" "API_mode demo_engine"
  by (simp_all add: demo_engine_def machine.defs engine.defs read_lmonp_msgheader_def lmon_read_raw_def
      lmonp_size_def Let_def)



end
