(* ===== verification/Launchmon_Setup.thy ===== *)
theory Launchmon_Setup
  imports Launchmon_Base
begin

text \<open>
  The private methods of \<open>linux_launchmon_t\<close> (\<open>sdbg_linux_launchmon.cxx\<close>) the
  event handlers are built from: finding the dynamic loader, the MPIR variables of the
  launcher, its shared objects, the process table, stepping over breakpoints, and
  launching the tool daemons. Tracing output is left out.
\<close>

section \<open>C library functions the code calls\<close>

definition c_str :: "string \<Rightarrow> string" where
  "c_str s = takeWhile (\<lambda>c. c \<noteq> CHR 0x00) s"

text \<open>The tokens of the successive calls of \<open>strtok\<close> with one delimiter; a call past the
  last one returns a null pointer.\<close>

fun strtoks :: "char \<Rightarrow> string \<Rightarrow> string \<Rightarrow> string list" where
  "strtoks d acc [] = (if acc = [] then [] else [acc])"
| "strtoks d acc (c # cs) =
     (if c = d then (if acc = [] then strtoks d [] cs else acc # strtoks d [] cs)
      else strtoks d (acc @ [c]) cs)"

definition nth_tok :: "string list \<Rightarrow> nat \<Rightarrow> string option" where
  "nth_tok ts i = (if i < length ts then Some (ts ! i) else None)"

text \<open>The C string in a buffer the tracer filled; the rest of the buffer is indeterminate.\<close>

definition buf_cstr :: "byte list \<Rightarrow> ('s, string) act" where
  "buf_cstr bs = (case read_cstr bs 0 of None \<Rightarrow> throw Undefined_behaviour | Some v \<Rightarrow> ret v)"

definition digit_val :: "char \<Rightarrow> nat option" where
  "digit_val c = (let n = of_char c :: nat in
     if 48 \<le> n \<and> n \<le> 57 then Some (n - 48)
     else if 97 \<le> n \<and> n \<le> 102 then Some (n - 87)
     else if 65 \<le> n \<and> n \<le> 70 then Some (n - 55)
     else None)"

text \<open>The number the leading digits of a base make, and whether there are any.\<close>

fun scan_digits :: "nat \<Rightarrow> nat \<Rightarrow> string \<Rightarrow> nat" where
  "scan_digits b acc [] = acc"
| "scan_digits b acc (c # cs) = (case digit_val c of
     Some d \<Rightarrow> (if d < b then scan_digits b (acc * b + d) cs else acc)
   | None \<Rightarrow> acc)"

definition starts_digit :: "nat \<Rightarrow> string \<Rightarrow> bool" where
  "starts_digit b s = (case s of [] \<Rightarrow> False | c # _ \<Rightarrow> (case digit_val c of Some d \<Rightarrow> d < b | None \<Rightarrow> False))"

text \<open>\<open>sscanf("%lx")\<close> on the digits of an address range: \<open>None\<close> when nothing matches, the
  largest value when the digits overflow.\<close>

definition scan_lx :: "string \<Rightarrow> u64 option" where
  "scan_lx s = (if starts_digit 16 s then Some (of_nat (min (scan_digits 16 0 s) (2 ^ 64 - 1))) else None)"

definition LONG_MAX :: int where "LONG_MAX = 2 ^ 63 - 1"

definition isspace :: "char \<Rightarrow> bool" where
  "isspace c \<longleftrightarrow> c = CHR 0x20 \<or> (9 \<le> (of_char c :: nat) \<and> (of_char c :: nat) \<le> 13)"

definition strtol10 :: "string \<Rightarrow> int" where
  "strtol10 s =
     (let t = dropWhile isspace s;
          neg = (case t of [] \<Rightarrow> False | c # _ \<Rightarrow> c = CHR ''-'');
          u = (case t of [] \<Rightarrow> [] | c # cs \<Rightarrow> if c = CHR ''-'' \<or> c = CHR ''+'' then cs else t);
          n = int (scan_digits 10 0 u)
      in if neg then max (- LONG_MAX - 1) (- n) else min LONG_MAX n)"

definition MAX_STRING_SIZE :: int where "MAX_STRING_SIZE = 1024"

section \<open>The base address of the dynamic loader\<close>

definition AT_BASE :: nat where "AT_BASE = 7"

text \<open>At the end of the file \<open>fread\<close> returns 0, never a negative number, and leaves the
  buffer as it was: without an \<open>AT_BASE\<close> entry the loop does not end.\<close>

definition get_auxv :: "int \<Rightarrow> u64 eng" where
  "get_auxv lwp s = (case o_auxv (out s) lwp of
     None \<Rightarrow> ret T_UNINIT_HEX s
   | Some vs \<Rightarrow> (case filter (\<lambda>(ty, v). ty = AT_BASE) vs of
       [] \<Rightarrow> throw No_return s
     | (ty, v) # _ \<Rightarrow> ret v s))"

text \<open>One line of \<open>/proc/pid/maps\<close>: the loop ends with \<open>Some\<close>.\<close>

definition maps_line :: "string \<Rightarrow> string \<Rightarrow> exn + u64 option" where
  "maps_line dynname aline =
     (let ts = strtoks CHR '' '' [] (c_str aline) in
      case (nth_tok ts 0, nth_tok ts 1, nth_tok ts 5) of
        (Some vir_addr_range, Some perm, Some libname) \<Rightarrow>
          (if basename (butlast libname) = c_str dynname \<and> perm = ''r-xp'' then
             (case nth_tok (strtoks CHR ''-'' [] vir_addr_range) 0 of
                None \<Rightarrow> Inl Undefined_behaviour
              | Some lowerpc \<Rightarrow> Inr (Some (case scan_lx lowerpc of Some a \<Rightarrow> a | None \<Rightarrow> T_UNINIT_HEX)))
           else Inr None)
      | _ \<Rightarrow> Inl Undefined_behaviour)"

fun maps_lines :: "string \<Rightarrow> string list \<Rightarrow> exn + u64" where
  "maps_lines dynname [] = Inr T_UNINIT_HEX"
| "maps_lines dynname (l # ls) = (case maps_line dynname l of
     Inl e \<Rightarrow> Inl e
   | Inr (Some a) \<Rightarrow> Inr a
   | Inr None \<Rightarrow> maps_lines dynname ls)"

definition get_va_from_procfs :: "int \<Rightarrow> string \<Rightarrow> u64 eng" where
  "get_va_from_procfs lwp dynname s = (case o_maps (out s) lwp of
     None \<Rightarrow> ret T_UNINIT_HEX s
   | Some ls \<Rightarrow> (case maps_lines dynname ls of Inl e \<Rightarrow> throw e s | Inr a \<Rightarrow> ret a s))"

section \<open>Images and symbols\<close>

text \<open>Images are objects the process points to; the code changes them in place.\<close>

datatype image_slot = main_im | dynloader_im | thr_im | libc_im | rmso_im

fun get_im :: "image_slot \<Rightarrow> engine \<Rightarrow> image_base_t option" where
  "get_im main_im s = myimage s"
| "get_im dynloader_im s = mydynloader_image s"
| "get_im thr_im s = mythread_lib_image s"
| "get_im libc_im s = mylibc_image s"
| "get_im rmso_im s = myrmso_image s"

fun put_im :: "image_slot \<Rightarrow> image_base_t \<Rightarrow> engine \<Rightarrow> engine" where
  "put_im main_im i s = s\<lparr>myimage := Some i\<rparr>"
| "put_im dynloader_im i s = s\<lparr>mydynloader_image := Some i\<rparr>"
| "put_im thr_im i s = s\<lparr>mythread_lib_image := Some i\<rparr>"
| "put_im libc_im i s = s\<lparr>mylibc_image := Some i\<rparr>"
| "put_im rmso_im i s = s\<lparr>myrmso_image := Some i\<rparr>"

definition the_im :: "image_slot \<Rightarrow> image_base_t eng" where
  "the_im sl s = (case get_im sl s of None \<Rightarrow> throw Undefined_behaviour s | Some i \<Rightarrow> ret i s)"

text \<open>\<open>set_image_base_address\<close> and \<open>compute_reloc\<close>.\<close>

definition relocate_im :: "image_slot \<Rightarrow> u64 \<Rightarrow> unit eng" where
  "relocate_im sl base = bindA (the_im sl) (\<lambda>i s.
     let i1 = set_image_base_address base i in
     case compute_reloc i1 of
       Inl e \<Rightarrow> throw e (put_im sl i1 s)
     | Inr i2 \<Rightarrow> ret () (put_im sl i2 s))"

text \<open>\<open>init\<close>, \<open>read_linkage_symbols\<close> and the relocation of a library found mapped.\<close>

definition load_im :: "image_slot \<Rightarrow> string \<Rightarrow> u64 \<Rightarrow> unit eng" where
  "load_im sl slname base = bindA (the_im sl) (\<lambda>i s.
     case init_lib (o_elf (out s)) slname i of
       Inl e \<Rightarrow> throw e (put_im sl (i\<lparr>image_path := slname, base_image_name := basename slname\<rparr>) s)
     | Inr i1 \<Rightarrow> relocate_im sl base (put_im sl i1 s))"

text \<open>A symbol of the main image or, when that has none and there is a library of the
  resource manager, of the library.\<close>

definition find_symbol :: "string \<Rightarrow> symbol_base_t eng" where
  "find_symbol name = bindA (the_im main_im) (\<lambda>i s.
     let d = get_a_symbol i name in
     case myrmso_image s of
       Some r \<Rightarrow> ret (if sym_null d then get_a_symbol r name else d) s
     | None \<Rightarrow> ret d s)"

definition read_int32 :: "u64 \<Rightarrow> bool \<Rightarrow> int eng" where
  "read_int32 a c = bindA (tracer_read a 4 c) (\<lambda>bs. ret (sint (dec32 bs)))"

definition read_va :: "u64 \<Rightarrow> bool \<Rightarrow> u64 eng" where
  "read_va a c = bindA (tracer_read a 8 c) (\<lambda>bs. ret (dec64 bs))"


section \<open>The MPIR variables of an image\<close>

definition remove_launch_bp :: "unit eng" where
  "remove_launch_bp s = (case launch_hidden_bp s of
     None \<Rightarrow> ret () s
   | Some b \<Rightarrow> seqA [whenA (is_enabled b) (ignA (disable_breakpoint launch_bp True True)),
                    modA (\<lambda>s. s\<lparr>launch_hidden_bp := None\<rparr>)] s)"

definition new_bp :: "u64 \<Rightarrow> breakpoint" where
  "new_bp a = snd (bp_do_set (linux_breakpoint0\<lparr>address_at := a\<rparr>))"

definition plant_launch_bp :: "image_base_t \<Rightarrow> unit eng" where
  "plant_launch_bp im = (let launch_bp_sym = get_a_symbol im LAUNCH_BREAKPOINT in
     whenA (\<not> sym_null launch_bp_sym \<and> sym_defined launch_bp_sym)
       (seqA [remove_launch_bp,
              bindA (get_relocated_address launch_bp_sym) (\<lambda>a. modA (\<lambda>s. s\<lparr>launch_hidden_bp := Some (new_bp a)\<rparr>)),
              ignA (enable_breakpoint launch_bp True True)]))"

definition mark_being_debugged :: "image_base_t \<Rightarrow> unit eng" where
  "mark_being_debugged im = (let debug_state = get_a_symbol im LAUNCH_BEING_DEBUG in
     whenA (\<not> sym_null debug_state)
       (bindA (get_relocated_address debug_state) (\<lambda>a. tracer_write a (enc32 1) True)))"

definition BG_SERVERARG_LENGTH :: nat where "BG_SERVERARG_LENGTH = 1024"
definition BG_EXECPATH_LENGTH :: nat where "BG_EXECPATH_LENGTH = 256"

definition str_image :: "string \<Rightarrow> byte list" where
  "str_image v = map char_byte v @ [0]"

definition serverargs :: "string list \<Rightarrow> byte list" where
  "serverargs alist = (let b = concat (map str_image alist) in b @ replicate (BG_SERVERARG_LENGTH - length b) 0)"

definition sec_tok :: "engine \<Rightarrow> nat \<Rightarrow> string option" where
  "sec_tok s i = nth_tok (strtoks CHR '':'' [] (c_str (opt_sec_info (myopts s)))) i"

definition e_expand :: "(string list \<times> string) eng" where
  "e_expand s = (let o' = out s;
     (alist, expstr, c) = expand_launch_string (o_tokenizer o') (o_getenv o') (o_tvcmd o') (o_sshcmd o') (rmgr s)
     in ret (alist, expstr) (s\<lparr>rmgr := c\<rparr>))"

text \<open>The daemon path and its arguments, for a resource manager that launches the daemons
  itself. The value is whether to go on; a path that does not fit ends the whole method.\<close>

definition pass_daemon_args :: "image_base_t \<Rightarrow> bool eng" where
  "pass_daemon_args im = (let executablepath = get_a_symbol im LAUNCH_EXEC_PATH;
                             sa = get_a_symbol im LAUNCH_SERVER_ARGS in
     if sym_null executablepath \<or> sym_null sa then ret True
     else bindA (get_relocated_address executablepath) (\<lambda>ep_addr.
       bindA (getA (\<lambda>s. rm_daemon_path (coloc_paramset (rmgr s)))) (\<lambda>daemon_pth.
         if BG_EXECPATH_LENGTH < length daemon_pth + 1 then ret False
         else
           bindA (tracer_write ep_addr (str_image daemon_pth) True) (\<lambda>_.
           bindA (modA (\<lambda>s. s\<lparr>rmgr := snd (set_paramset 0 0 (sec_tok s 0) (sec_tok s 1) (-1) None (rmgr s))\<rparr>)) (\<lambda>_.
           bindA e_expand (\<lambda>(alist, expstr).
           bindA (get_relocated_address sa) (\<lambda>sa_addr.
             if expstr \<noteq> [] \<and> length expstr < BG_SERVERARG_LENGTH then
               bindA (tracer_write sa_addr (serverargs alist) True) (\<lambda>_. ret True)
             else ret True)))))))"

definition find_attach_fifo :: "image_base_t \<Rightarrow> unit eng" where
  "find_attach_fifo im = (let af_sym = get_a_symbol im LAUNCH_ATTACH_FIFO in
     modA (\<lambda>s. if is_attfifo_sup (rmgr s) \<and> \<not> sym_null af_sym \<and> sym_attach_fifo s = None
               then s\<lparr>sym_attach_fifo := Some (af_sym\<lparr>sym_defined := False\<rparr>)\<rparr> else s))"

definition handle_mpir_variables :: "image_base_t \<Rightarrow> bool eng" where
  "handle_mpir_variables im = catchA False (bindA (seqA [plant_launch_bp im, mark_being_debugged im]) (\<lambda>_.
     bindA (getA (\<lambda>s. is_coloc_sup (rmgr s))) (\<lambda>coloc.
       if coloc then
         bindA (pass_daemon_args im) (\<lambda>go.
           if go then bindA (find_attach_fifo im) (\<lambda>_. ret True)
           else ret True)
       else ret True)))"

section \<open>The hidden breakpoints\<close>

definition each_bp :: "(bp_slot \<Rightarrow> unit eng) \<Rightarrow> unit eng" where
  "each_bp f = forA (\<lambda>sl s. if get_bp sl s = None then ret () s else f sl s) [launch_bp, loader_bp]"

definition disable_all_BPs :: "bool \<Rightarrow> bool \<Rightarrow> bool eng" where
  "disable_all_BPs use_cxt change_state = catchA False
     (bindA (each_bp (\<lambda>sl. ignA (disable_breakpoint sl use_cxt change_state))) (\<lambda>_. ret True))"

definition enable_all_BPs :: "bool \<Rightarrow> bool \<Rightarrow> bool eng" where
  "enable_all_BPs use_cxt change_state = catchA False
     (bindA (each_bp (\<lambda>sl. ignA (enable_breakpoint sl use_cxt change_state))) (\<lambda>_. ret True))"

text \<open>Stepping over a breakpoint.\<close>

definition return_address :: "u64 eng" where
  "return_address s = bindA (with_gprset (get_gprset True s) gpr_get_ret_addr) (\<lambda>retaddr s.
     if retaddr = T_UNINIT_HEX then
       bindA (with_gprset (get_gprset True s) gpr_get_memloc_for_ret_addr) (\<lambda>a. read_va a True) s
     else ret retaddr s) s"

definition handle_bp_prologue :: "bp_slot \<Rightarrow> launchmon_rc_e eng" where
  "handle_bp_prologue sl = catchA LAUNCHMON_FAILED
     (bindA (tracer_getregs True) (\<lambda>_.
      bindA return_address (\<lambda>retaddr.
      bindA (seqA [upd_bp sl (\<lambda>b. b\<lparr>return_addr := retaddr\<rparr>),
                   ignA (disable_breakpoint sl True True),
                   bindA (the_bp sl) (\<lambda>b s. upd_gprset (get_gprset True s) (gpr_set_pc (address_at b)) s),
                   tracer_setregs True,
                   tracer_singlestep True]) (\<lambda>_. ret LAUNCHMON_BP_PROLOGUE))))"

text \<open>An exception returns \<open>LAUNCHMON_FAILED\<close>, which is \<open>true\<close> as a \<open>bool\<close>.\<close>

definition is_bp_prologue_done :: "bp_slot \<Rightarrow> bool eng" where
  "is_bp_prologue_done sl = catchA True
     (bindA (tracer_getregs True) (\<lambda>_.
      bindA (the_bp sl) (\<lambda>b.
        if is_disabled b then bindA (enable_breakpoint sl True True) (\<lambda>_. ret True)
        else bindA (handle_bp_prologue sl) (\<lambda>rc. ret (rc \<noteq> LAUNCHMON_BP_PROLOGUE)))))"

section \<open>Shared objects of the launcher\<close>

definition LIBPTHREAD_IDEN :: string where "LIBPTHREAD_IDEN = ''libpthread.''"
definition LIBC_IDEN :: string where "LIBC_IDEN = ''libc.''"

definition unloaded :: "image_base_t \<Rightarrow> bool" where
  "unloaded i \<longleftrightarrow> image_base_address i = SYMTAB_UNINIT_ADDR"

definition visit_link_map :: "u64 \<Rightarrow> string \<Rightarrow> bool \<Rightarrow> bool eng" where
  "visit_link_map l_addr slname rc =
     (let bn = basename slname in
      if take (length LIBPTHREAD_IDEN) bn = LIBPTHREAD_IDEN then
        bindA (the_im thr_im) (\<lambda>i.
          if unloaded i then bindA (load_im thr_im slname l_addr) (\<lambda>_. ret True) else ret rc)
      else if take (length LIBC_IDEN) bn = LIBC_IDEN then
        bindA (the_im libc_im) (\<lambda>i.
          bindA (whenA (unloaded i) (load_im libc_im slname l_addr)) (\<lambda>_. ret rc))
      else bindA (getA rmgr) (\<lambda>c.
        let rmso = launcher_so_name (resource_manager c) in
        if need_check_launcher_so c \<and> take (length rmso) bn = rmso then
          bindA (the_im rmso_im) (\<lambda>i.
            bindA (whenA (unloaded i)
              (seqA [load_im rmso_im slname l_addr,
                     bindA (the_im main_im) (\<lambda>m. ignA (handle_mpir_variables m)),
                     bindA (the_im rmso_im) (\<lambda>r. ignA (handle_mpir_variables r))])) (\<lambda>_. ret rc))
        else ret rc))"

text \<open>The \<open>do ... while\<close> over the chain: \<open>link_map\<close> is \<open>l_addr\<close>, \<open>l_name\<close>, \<open>l_ld\<close>,
  \<open>l_next\<close>, \<open>l_prev\<close>. The chain is in the launcher's memory and may be a cycle, so the walk
  has fuel.\<close>

fun walk_link_maps :: "nat \<Rightarrow> u64 \<Rightarrow> bool \<Rightarrow> bool eng" where
  "walk_link_maps 0 where_to_read rc = throw No_return"
| "walk_link_maps (Suc n) where_to_read rc =
     bindA (tracer_read where_to_read 40 True) (\<lambda>a_map.
       let l_addr = dec64 (take 8 a_map); l_name = dec64 (take 8 (drop 8 a_map));
           l_next = dec64 (take 8 (drop 24 a_map)) in
       bindA (if l_name \<noteq> 0 then
                bindA (tracer_read_string l_name MAX_STRING_SIZE True) (\<lambda>bs.
                bindA (buf_cstr bs) (\<lambda>slname. visit_link_map l_addr slname rc))
              else ret rc) (\<lambda>rc.
         if l_next \<noteq> 0 \<and> l_next \<noteq> T_UNINIT_HEX then walk_link_maps n l_next rc else ret rc))"

text \<open>\<open>r_debug\<close> holds \<open>r_map\<close> at offset 8.\<close>

definition walk_r_debug :: "bool eng" where
  "walk_r_debug =
     bindA (the_im dynloader_im) (\<lambda>i.
     bindA (get_relocated_address (get_a_symbol i LOADER_R_DEBUG)) (\<lambda>a.
     bindA (tracer_read a 40 True) (\<lambda>bs.
       let r_map = dec64 (take 8 (drop 8 bs)) in
       if r_map = 0 then throw Aborted
       else bindA (getA (o_link_map_max \<circ> out)) (\<lambda>n. walk_link_maps n r_map False))))"

definition check_dependent_SOs :: "bool eng" where
  "check_dependent_SOs = catchA True (\<lambda>s.
     case (mythread_lib_image s, mylibc_image s, myrmso_image s) of
       (Some t, Some c, Some r) \<Rightarrow>
         (if \<not> unloaded c \<and> \<not> unloaded t \<and> (\<not> need_check_launcher_so (rmgr s) \<or> \<not> unloaded r)
          then ret False s else walk_r_debug s)
     | _ \<Rightarrow> ret False s)"



section \<open>The process table\<close>

definition continue_on_attach :: "bool \<Rightarrow> bool eng" where
  "continue_on_attach use_cxt = catchA False (\<lambda>s.
     if myimage s = None then ret False s
     else bindA (find_symbol LAUNCH_PROCTABLE_SIZE) (\<lambda>debug_ps.
       bindA (get_relocated_address debug_ps) (\<lambda>procsize_addr.
       bindA (read_int32 procsize_addr use_cxt) (\<lambda>local_pcount.
         if local_pcount < 0 then ret False
         else if 0 < local_pcount then ret False
         else bindA (tracer_continue use_cxt) (\<lambda>_. ret True)))) s)"

text \<open>An \<open>MPIR_PROCDESC\<close> of the launcher is two pointers, an \<open>int\<close> and padding.\<close>

definition MPIR_PROCDESC_SIZE :: nat where "MPIR_PROCDESC_SIZE = 24"

text \<open>The pid is read where the code reads it; an entry past what was read is indeterminate,
  and so is a name that fills its buffer without a terminator.\<close>

definition fetch_entry :: "byte list \<Rightarrow> bool \<Rightarrow> nat \<Rightarrow> unit eng" where
  "fetch_entry launcher_proctable use_cxt i =
     (let e = take MPIR_PROCDESC_SIZE (drop (MPIR_PROCDESC_SIZE * i) launcher_proctable) in
      if length e < MPIR_PROCDESC_SIZE then throw Undefined_behaviour
      else
        bindA (tracer_read_string (dec64 (take 8 e)) MAX_STRING_SIZE use_cxt) (\<lambda>hb.
        bindA (tracer_read_string (dec64 (take 8 (drop 8 e))) MAX_STRING_SIZE use_cxt) (\<lambda>eb.
        bindA (buf_cstr hb) (\<lambda>hn.
        bindA (buf_cstr eb) (\<lambda>en.
          modA (\<lambda>s. s\<lparr>proctable_copy := map_push hn
            \<lparr>pd = \<lparr>host_name = hn, executable_name = en, pid = dec32 (take 4 (drop 16 e))\<rparr>,
             mpirank = of_nat i, cnodeid = -1\<rparr> (proctable_copy s)\<rparr>))))))"

fun fetch_entries :: "byte list \<Rightarrow> bool \<Rightarrow> nat \<Rightarrow> nat \<Rightarrow> unit eng" where
  "fetch_entries tab use_cxt i 0 = ret ()"
| "fetch_entries tab use_cxt i (Suc n) =
     bindA (fetch_entry tab use_cxt i) (\<lambda>_. fetch_entries tab use_cxt (Suc i) n)"

definition set_ids :: "int \<Rightarrow> unit eng" where
  "set_ids v = modA (\<lambda>s. s\<lparr>resid := v, rid := v\<rparr>)"

text \<open>The resource id. \<open>integer64\<close> is accepted by the configuration and read by no branch.
  Taking the name of a symbol out of an id that has none is undefined.\<close>

definition acquire_rid :: "bool \<Rightarrow> bool eng" where
  "acquire_rid use_cxt = bindA (getA rmgr) (\<lambda>c.
     if \<not> is_rid_sup c then ret True
     else if is_rid_via_symbol c then
       (case id_val (job_id (resource_manager c)) of
          Symbol_name rid_sym \<Rightarrow>
            bindA (find_symbol rid_sym) (\<lambda>rsym.
              (case id_dtype (job_id (resource_manager c)) of
                 cstring \<Rightarrow>
                   bindA (get_relocated_address rsym) (\<lambda>a.
                   bindA (read_va a use_cxt) (\<lambda>where_is_rid.
                   bindA (tracer_read_string where_is_rid MAX_STRING_SIZE use_cxt) (\<lambda>bs.
                   bindA (buf_cstr bs) (\<lambda>resource_id.
                     let v = strtol10 resource_id in
                     if v < 0 \<or> LONG_MAX \<le> v then ret False
                     else bindA (set_ids v) (\<lambda>_. ret True)))))
               | integer32 \<Rightarrow>
                   bindA (get_relocated_address rsym) (\<lambda>a.
                   bindA (tracer_read a 4 use_cxt) (\<lambda>bs.
                   bindA (set_ids (int (unat (dec32 bs)))) (\<lambda>_. ret True)))
               | integer64 \<Rightarrow> ret True
               | unknown_type \<Rightarrow> ret True))
        | _ \<Rightarrow> throw Undefined_behaviour)
     else if is_rid_via_pid c then
       bindA (get_pid False) (\<lambda>v. bindA (set_ids v) (\<lambda>_. ret True))
     else ret True)"

text \<open>The size of the read is an \<open>int\<close>.\<close>

definition fetch_proctable :: "bool \<Rightarrow> unit eng" where
  "fetch_proctable use_cxt =
     bindA (find_symbol LAUNCH_PROCTABLE) (\<lambda>debug_pt.
     bindA (get_relocated_address debug_pt) (\<lambda>proctable_addr.
     bindA (read_va proctable_addr use_cxt) (\<lambda>proctable_loc.
     bindA (getA pcount) (\<lambda>n.
     bindA (tracer_read proctable_loc (sint (of_int (int MPIR_PROCDESC_SIZE * n) :: u32)) use_cxt) (\<lambda>tab.
       fetch_entries tab use_cxt 0 (nat n))))))"

definition acquire_proctable :: "bool \<Rightarrow> bool eng" where
  "acquire_proctable use_cxt = catchA False (\<lambda>s.
     if myimage s = None then ret False s
     else bindA (find_symbol LAUNCH_PROCTABLE_SIZE) (\<lambda>debug_ps.
       bindA (get_relocated_address debug_ps) (\<lambda>procsize_addr.
       bindA (read_int32 procsize_addr use_cxt) (\<lambda>local_pcount.
       bindA (modA (\<lambda>s. s\<lparr>pcount := local_pcount\<rparr>)) (\<lambda>_.
         if local_pcount \<le> 0 then ret False
         else bindA (fetch_proctable use_cxt) (\<lambda>_.
              bindA (getA proctable_copy) (\<lambda>tab. if tab = [] then ret False else acquire_rid use_cxt)))))) s)"

section \<open>Launching the tool daemons\<close>

definition LMON_HOSTS_FN_BASE :: string where "LMON_HOSTS_FN_BASE = ''hostnamefn''"

text \<open>\<open>sprintf\<close> into a buffer of ten characters.\<close>

fun pid_list :: "MPIR_PROCDESC_EXT list \<Rightarrow> string option" where
  "pid_list [] = Some []"
| "pid_list (e # es) = (let buf = show_int (sint (pid (pd e))) @ '':'' in
     if 10 < length buf + 1 then None else map_option (\<lambda>r. buf @ r) (pid_list es))"

definition export_host :: "string \<times> MPIR_PROCDESC_EXT list \<Rightarrow> unit eng" where
  "export_host = (\<lambda>(hn, es). case pid_list es of
     None \<Rightarrow> throw Undefined_behaviour
   | Some pidlist \<Rightarrow> do_effect (Setenv (''LAUNCHMON_'' @ hn) pidlist))"

text \<open>The name of the file of host names: in the working directory, else in \<open>/tmp\<close>; \<open>None\<close>
  when neither opens. The path of the directory leaves room for the name or the buffer
  overflows.\<close>

definition hosts_file :: "outside \<Rightarrow> exn + string option" where
  "hosts_file w = (case o_getcwd w of
     None \<Rightarrow> Inr None
   | Some cwd \<Rightarrow>
       (let suf = ''.'' @ show_int (o_getpid w);
            hnfn = cwd @ ''/'' @ LMON_HOSTS_FN_BASE @ suf;
            hnfn2 = ''/tmp/'' @ LMON_HOSTS_FN_BASE @ suf
        in if PATH_MAX \<le> length hnfn then Inl Undefined_behaviour
           else if o_can_write w hnfn then Inr (Some hnfn)
           else if o_can_write w hnfn2 then Inr (Some hnfn2)
           else Inr None))"

definition spawn_daemons :: "string \<Rightarrow> bool eng" where
  "spawn_daemons hnfn =
     bindA (getA proctable_copy) (\<lambda>tab.
     bindA (do_effect (Wrote_file hnfn (concat (map (\<lambda>(hn, es). hn @ [CHR 0x0A]) tab)))) (\<lambda>_.
     bindA (modA (\<lambda>s. s\<lparr>rmgr := snd (set_paramset (int (length tab)) (int (length tab)) (sec_tok s 0)
                                  (sec_tok s 1) (resid s) (Some hnfn) (rmgr s))\<rparr>)) (\<lambda>_.
     bindA e_expand (\<lambda>(alist, expandstr).
     bindA (getA (o_fork \<circ> out)) (\<lambda>child.
     bindA (modA (\<lambda>s. s\<lparr>toollauncherpid := child\<rparr>)) (\<lambda>_.
       if child = 0 then throw No_return \<comment> \<open>the child executes the launcher\<close>
       else bindA (whenA (0 < child) (do_effect (Spawn alist))) (\<lambda>_. ret False)))))))"

text \<open>The value is \<open>LAUNCHMON_OK\<close>, which is \<open>false\<close>, on success as well.\<close>

definition launch_tool_daemons :: "bool eng" where
  "launch_tool_daemons s =
     (if proctable_copy s = [] then ret False s
      else
        bindA (whenA (\<not> API_mode s \<and> \<not> is_modelchecker (rmgr s)) (forA export_host (proctable_copy s))) (\<lambda>_.
          if is_modelchecker (rmgr s) then ret False
          else bindA (forA (\<lambda>(k, v). do_effect (Setenv k v)) (opt_envMap (myopts s))) (\<lambda>_.
            if is_coloc_sup (rmgr s) then ret False
            else (case hosts_file (out s) of
                    Inl e \<Rightarrow> throw e
                  | Inr None \<Rightarrow> ret False
                  | Inr (Some hnfn) \<Rightarrow> spawn_daemons hnfn))) s)"

definition free_engine_resources :: "unit eng" where
  "free_engine_resources s = (case hnfilename (coloc_paramset (rmgr s)) of
     None \<Rightarrow> ret () s
   | Some hostnamesfn \<Rightarrow> do_effect (Remove hostnamesfn) s)"

text \<open>\<open>graceful_rmkill\<close> on the engine's state.\<close>

definition e_graceful_rmkill :: "int \<Rightarrow> unit eng" where
  "e_graceful_rmkill p s = (case graceful_rmkill p (rmgr s) of
     None \<Rightarrow> ret () s
   | Some sigs \<Rightarrow> forA (\<lambda>(q, sg). do_effect (Sig q sg)) sigs s)"


end
