(* ===== verification/Linux_Launchmon.thy ===== *)
theory Linux_Launchmon
  imports Launchmon_Setup
begin

text \<open>
  The event handlers of \<open>linux_launchmon_t\<close> (\<open>sdbg_linux_launchmon.cxx\<close>), the
  translation of \<open>waitpid\<close> events into engine events, and the dispatch of
  \<open>launchmon_base_t::invoke_handler\<close>. Every handler is the whole method; its \<open>try\<close>
  block is \<open>catchA\<close>.
\<close>

section \<open>Translating events\<close>

definition LINUX_TRACER_EVENT_CLONE :: int where "LINUX_TRACER_EVENT_CLONE = 3"

definition stopped_event :: "engine \<Rightarrow> debug_event_t \<Rightarrow> u64 \<Rightarrow> launchmon_event_e eng" where
  "stopped_event s event pc =
     (if never_trapped s then
        ret (if opt_attach (myopts s) then LM_STOP_AT_FIRST_ATTACH else LM_STOP_AT_FIRST_EXEC)
      else if please_detach s then ret LM_STOP_FOR_DETACH
      else if please_kill s then ret LM_STOP_FOR_KILL
      else if (case launch_hidden_bp s of Some b \<Rightarrow> is_pc_part_of_bp_op b pc | None \<Rightarrow> False) then
        ret LM_STOP_AT_LAUNCH_BP
      else if (case loader_hidden_bp s of Some b \<Rightarrow> is_pc_part_of_bp_op b pc | None \<Rightarrow> False) then
        ret LM_STOP_AT_LOADER_BP
      else if de_u event = SIGTRAP then
        (case de_rawstatus event of
           None \<Rightarrow> throw Undefined_behaviour
         | Some rs \<Rightarrow> ret (if rs div 65536 = LINUX_TRACER_EVENT_CLONE
                           then LM_STOP_AT_THREAD_CREATION else LM_STOP_NOT_INTERESTED))
      else if de_u event = SIGSTOP then
        bindA (get_pid True) (\<lambda>k. ret (case map_find (thrlist s) k of
            Some t \<Rightarrow> (if \<not> traced t then LM_STOP_NEW_THREAD_TRACE else LM_RELAY_SIGNAL)
          | None \<Rightarrow> LM_RELAY_SIGNAL))
      else ret LM_RELAY_SIGNAL)"

definition decipher_an_event :: "debug_event_t \<Rightarrow> launchmon_event_e eng" where
  "decipher_an_event event = (case de_ev event of
     EV_STOPPED \<Rightarrow>
       bindA (set_lwp_state LMON_RM_STOPPED True) (\<lambda>_.
       bindA (tracer_getregs True) (\<lambda>_.
       bindA (\<lambda>s. with_gprset (get_gprset True s) gpr_get_pc s) (\<lambda>pc s. stopped_event s event pc s)))
   | EV_EXITED \<Rightarrow> bindA (set_lwp_state LMON_RM_EXITED True) (\<lambda>_. ret LM_EXITED)
   | EV_TERMINATED \<Rightarrow> bindA (set_lwp_state LMON_RM_EXITED True) (\<lambda>_. ret LM_EXITED)
   | EV_NOCHILD \<Rightarrow> ret LM_INVALID
   | EV_INVALID \<Rightarrow> ret LM_INVALID)"

section \<open>Starting and attaching\<close>

definition handle_attach_event :: "launchmon_rc_e eng" where
  "handle_attach_event = catchA LAUNCHMON_FAILED
     (bindA (tracer_attach False (-1)) (\<lambda>_. ret LAUNCHMON_OK))"

definition plant_loader_bp :: "unit eng" where
  "plant_loader_bp = bindA (the_im dynloader_im) (\<lambda>i.
     bindA (get_relocated_address (get_a_symbol i LOADER_BP_SYM)) (\<lambda>addr_dl_bp.
       seqA [modA (\<lambda>s. s\<lparr>loader_hidden_bp := Some (new_bp addr_dl_bp)\<rparr>),
             ignA (enable_breakpoint loader_bp True True)]))"

definition set_mpir_of_main :: "unit eng" where
  "set_mpir_of_main = seqA [relocate_im main_im 0,
     bindA (the_im main_im) (\<lambda>m. ignA (handle_mpir_variables m))]"

text \<open>What happens once the tasks exist: the table, the resource id and the resource manager
  go to the front end, then the daemons are launched.\<close>

definition announce_job :: "lmonp_fe_to_fe_msg_e \<Rightarrow> unit eng" where
  "announce_job msg = seqA [
     ignA (acquire_proctable True),
     ignA (e_ship_proctab lmonp_proctable_avail),
     bindA (getA resid) (\<lambda>r. ignA (e_ship_resourcehandle lmonp_resourcehandle_avail r)),
     bindA (get_pid False) (\<lambda>p. bindA (getA (\<lambda>s. rm (resource_manager (rmgr s))))
       (\<lambda>m. ignA (e_ship_rminfo lmonp_rminfo p m))),
     ignA (e_say msg),
     ignA launch_tool_daemons]"

text \<open>The first answer of \<open>get_va_from_procfs\<close> is overwritten.\<close>

definition find_loader_base :: "u64 eng" where
  "find_loader_base =
     bindA (getA get_master_thread_pid) (\<lambda>p.
     bindA (the_im dynloader_im) (\<lambda>i.
     bindA (get_va_from_procfs p (base_image_name i)) (\<lambda>_.
     bindA (get_auxv p) (\<lambda>lpc.
       if lpc = T_UNINIT_HEX then get_va_from_procfs p (base_image_name i) else ret lpc))))"

definition wake_attach_fifo :: "unit eng" where
  "wake_attach_fifo = bindA (getA sym_attach_fifo) (\<lambda>fs. case fs of
     None \<Rightarrow> ret ()
   | Some sy \<Rightarrow>
       bindA (get_relocated_address sy) (\<lambda>fifo_addr.
       bindA (tracer_read_string fifo_addr 256 True) (\<lambda>bs.
       bindA (buf_cstr bs) (\<lambda>fip.
         seqA [modA (\<lambda>s. s\<lparr>rmgr := set_attach_fifo_path fip (rmgr s)\<rparr>),
               tracer_continue True,
               (\<lambda>s. whenA (o_fifo_opens (out s) fip) (do_effect (Fifo_wakeup fip)) s)]))))"

definition release_attached :: "unit eng" where
  "release_attached = bindA (getA rmgr) (\<lambda>c.
     if is_coloc_sup c then
       (if is_attfifo_sup c then wake_attach_fifo else tracer_continue True)
     else
       bindA (if is_cont_on_att c then continue_on_attach True else ret False) (\<lambda>continued.
         whenA (\<not> continued) (seqA [announce_job lmonp_stop_at_first_attach, tracer_continue True])))"

definition handle_trap_after_attach_event :: "launchmon_rc_e eng" where
  "handle_trap_after_attach_event = catchA LAUNCHMON_FAILED (\<lambda>s.
     if myimage s = None then ret LAUNCHMON_FAILED s
     else if mydynloader_image s = None then ret LAUNCHMON_FAILED s
     else bindA set_mpir_of_main (\<lambda>_.
       bindA find_loader_base (\<lambda>lpc.
         if lpc = T_UNINIT_HEX then ret LAUNCHMON_FAILED
         else bindA (seqA [relocate_im dynloader_im lpc, plant_loader_bp, ignA check_dependent_SOs,
                           modA (\<lambda>s. s\<lparr>never_trapped := False\<rparr>), release_attached])
                (\<lambda>_. ret LAUNCHMON_OK))) s)"

text \<open>The handler of \<open>symtab_exception_t\<close> that calls \<open>abort\<close>.\<close>

definition abort_on_symtab :: "'a eng \<Rightarrow> 'a eng" where
  "abort_on_symtab m s = (case m s of (Inl Symtab_exn, t) \<Rightarrow> (Inl Aborted, t) | r \<Rightarrow> r)"

definition dl_linked_addr :: "u64 eng" where
  "dl_linked_addr = bindA (get_pid True) (\<lambda>p. bindA (get_auxv p) (\<lambda>a.
     if a = T_UNINIT_HEX
     then (\<lambda>s. with_gprset (get_gprset True s) (\<lambda>rs. gpr_get_pc rs AND 0xfffffffffff000) s)
     else ret a))"

definition handle_trap_after_exec_event :: "launchmon_rc_e eng" where
  "handle_trap_after_exec_event = catchA LAUNCHMON_FAILED (abort_on_symtab (\<lambda>s.
     if myimage s = None then ret LAUNCHMON_FAILED s
     else if mydynloader_image s = None then ret LAUNCHMON_FAILED s
     else bindA set_mpir_of_main (\<lambda>_.
       bindA dl_linked_addr (\<lambda>a.
         bindA (seqA [relocate_im dynloader_im a, plant_loader_bp,
                      modA (\<lambda>s. s\<lparr>never_trapped := False\<rparr>),
                      tracer_setoptions True (-1), tracer_continue True])
           (\<lambda>_. ret LAUNCHMON_OK))) s))"

section \<open>Breakpoints\<close>

definition detach_stopped_slave :: "int \<Rightarrow> unit eng" where
  "detach_stopped_slave k s = (case map_find (thrlist s) k of
     None \<Rightarrow> ret () s
   | Some t \<Rightarrow> whenA (\<not> master_thread t)
       (seqA [ignA (make_context k),
              bindA (tracer_status True) (\<lambda>st. whenA (st = SDBG_TRACE_STOPPED) (ignA (tracer_detach True))),
              ignA (check_and_undo_context k)]) s)"

text \<open>The tasks abort: let go of the launcher. The inner \<open>bdbg\<close>, 0, hides the state read,
  so \<open>set_engine_state\<close> gets 0.\<close>

definition abort_job :: "symbol_base_t \<Rightarrow> unit eng" where
  "abort_job debug_state = seqA [
     ignA (disable_all_BPs True True),
     bindA (get_relocated_address debug_state) (\<lambda>a. tracer_write a (enc32 0) True),
     bindA (getA (map_keys \<circ> thrlist)) (\<lambda>ks. forA detach_stopped_slave ks),
     bindA (tracer_status False) (\<lambda>st. whenA (st = SDBG_TRACE_STOPPED) (ignA (tracer_detach False))),
     set_engine_state 0,
     ignA (e_say lmonp_stop_at_launch_bp_abort)]"

definition mpir_step :: "int \<Rightarrow> symbol_base_t \<Rightarrow> launchmon_rc_e eng" where
  "mpir_step bdbg debug_state =
     (if bdbg = MPIR_DEBUG_SPAWNED then
        bindA (seqA [announce_job lmonp_stop_at_launch_bp_spawned, set_engine_state bdbg,
          (\<lambda>s. if API_mode s then set_event_registered (get_cur_thread_ctx s) True s
               else tracer_continue True s)]) (\<lambda>_. ret LAUNCHMON_OK)
      else if bdbg = MPIR_DEBUG_ABORTING then
        bindA (abort_job debug_state) (\<lambda>_. ret LAUNCHMON_MPIR_DEBUG_ABORT)
      else bindA (seqA [set_engine_state bdbg, tracer_continue True]) (\<lambda>_. ret LAUNCHMON_OK))"

definition handle_launch_bp_event :: "launchmon_rc_e eng" where
  "handle_launch_bp_event = catchA LAUNCHMON_FAILED
     (bindA (is_bp_prologue_done launch_bp) (\<lambda>done s.
        if \<not> done then ret LAUNCHMON_OK s
        else if myimage s = None then ret LAUNCHMON_FAILED s
        else bindA (find_symbol LAUNCH_DEBUG_STATE) (\<lambda>debug_state_var.
             bindA (get_relocated_address debug_state_var) (\<lambda>debug_state_addr.
             bindA (read_int32 debug_state_addr True) (\<lambda>bdbg.
             bindA (find_symbol LAUNCH_BEING_DEBUG) (\<lambda>debug_state s.
               if \<not> validate_mpir_state_transition s bdbg
               then bindA (tracer_continue True) (\<lambda>_. ret LAUNCHMON_OK) s
               else mpir_step bdbg debug_state s)))) s))"

definition handle_loader_bp_event :: "launchmon_rc_e eng" where
  "handle_loader_bp_event = catchA LAUNCHMON_FAILED
     (bindA (is_bp_prologue_done loader_bp) (\<lambda>done.
        if \<not> done then ret LAUNCHMON_OK
        else bindA (seqA [ignA check_dependent_SOs, tracer_continue True]) (\<lambda>_. ret LAUNCHMON_OK)))"

section \<open>Ending the session\<close>

definition let_go_slave :: "int \<Rightarrow> unit eng" where
  "let_go_slave k s = (case map_find (thrlist s) k of
     None \<Rightarrow> ret () s
   | Some t \<Rightarrow> whenA (\<not> master_thread t)
       (seqA [ignA (make_context k), tracer_unsetoptions True (-1), ignA (tracer_detach True),
              ignA (check_and_undo_context k)]) s)"

text \<open>The part the two command handlers share: breakpoints out, slave threads detached,
  \<open>MPIR_being_debugged\<close> cleared, main thread detached.\<close>

definition let_go :: "unit eng" where
  "let_go = seqA [
     ignA (disable_all_BPs False True),
     bindA (getA (map_keys \<circ> thrlist)) (\<lambda>ks. forA let_go_slave ks),
     bindA (find_symbol LAUNCH_BEING_DEBUG) (\<lambda>sy. bindA (get_relocated_address sy)
       (\<lambda>a. tracer_write a (enc32 0) False)),
     tracer_unsetoptions False (-1),
     ignA (tracer_detach False)]"

definition report_detach :: "pcont_req_reason \<Rightarrow> unit eng" where
  "report_detach r = (case r of
     RM_BE_daemon_exited \<Rightarrow> ignA (e_say lmonp_bedmon_exited)
   | RM_MW_daemon_exited \<Rightarrow> ignA (e_say lmonp_mwdmon_exited)
   | RM_JOB_mpir_aborting \<Rightarrow> ignA (e_say lmonp_stop_at_launch_bp_abort)
   | FE_requested_detach \<Rightarrow> ignA (e_say lmonp_detach_done)
   | FE_requested_shutdown_dmon \<Rightarrow>
       seqA [bindA (getA toollauncherpid) e_graceful_rmkill, ignA (e_say lmonp_detach_done)]
   | FE_disconnected \<Rightarrow> bindA (getA toollauncherpid) e_graceful_rmkill
   | ENGINE_dying_wsignal \<Rightarrow> ignA (e_say lmonp_stop_tracing)
   | reserved_for_rent \<Rightarrow> ret ()
   | FE_requested_kill \<Rightarrow> ret ()
   | RM_JOB_exited \<Rightarrow> ret ())"

definition handle_detach_cmd_event :: "launchmon_rc_e eng" where
  "handle_detach_cmd_event = catchA LAUNCHMON_FAILED
     (bindA (seqA [let_go, bindA (getA preason) report_detach, free_engine_resources])
       (\<lambda>_. ret LAUNCHMON_STOP_TRACE))"

definition handle_kill_cmd_event :: "launchmon_rc_e eng" where
  "handle_kill_cmd_event = catchA LAUNCHMON_FAILED
     (bindA (seqA [let_go,
        bindA (get_pid False) e_graceful_rmkill,
        (\<lambda>s. whenA (\<not> is_coloc_sup (rmgr s)) (e_graceful_rmkill (toollauncherpid s)) s),
        (\<lambda>s. whenA (preason s = FE_requested_kill) (ignA (e_say lmonp_kill_done)) s),
        free_engine_resources])
       (\<lambda>_. ret LAUNCHMON_STOP_TRACE))"

definition handle_exit_event :: "launchmon_rc_e eng" where
  "handle_exit_event = catchA LAUNCHMON_FAILED (\<lambda>s.
     if get_cur_thread_ctx s \<noteq> get_master_thread_pid s then
       ret LAUNCHMON_OK (s\<lparr>thrlist := map_erase (get_cur_thread_ctx s) (thrlist s)\<rparr>)
     else bindA (seqA [ignA (e_say lmonp_exited), free_engine_resources])
            (\<lambda>_. ret LAUNCHMON_MAINPROG_EXITED) s)"

definition handle_term_event :: "launchmon_rc_e eng" where
  "handle_term_event = bindA (e_say lmonp_terminated) (\<lambda>_. ret LAUNCHMON_OK)"

section \<open>Threads, forks and signals\<close>

text \<open>The context is the forked child's, which shares the breakpoints of its parent.\<close>

definition handle_newproc_forked_event :: "launchmon_rc_e eng" where
  "handle_newproc_forked_event = catchA LAUNCHMON_FAILED
     (bindA (seqA [ignA (disable_all_BPs True False), ignA (tracer_detach True)]) (\<lambda>_. ret LAUNCHMON_OK))"

definition handle_thrcreate_request :: "int \<Rightarrow> launchmon_rc_e eng" where
  "handle_thrcreate_request newlwpid = catchA LAUNCHMON_FAILED (\<lambda>s.
     ret LAUNCHMON_OK (if map_find (thrlist s) newlwpid = None
       then s\<lparr>thrlist := map_set newlwpid (linux_x86_thread0\<lparr>ti_lid := newlwpid\<rparr>) (thrlist s)\<rparr> else s))"

text \<open>The event message is a \<open>long\<close>, cut to an \<open>int\<close>; a negative one is only reported.\<close>

definition handle_thrcreate_trap_event :: "launchmon_rc_e eng" where
  "handle_thrcreate_trap_event = catchA LAUNCHMON_FAILED
     (bindA (tracer_get_event_msg True) (\<lambda>newlwpid.
      bindA (handle_thrcreate_request (sint (ucast newlwpid :: u32))) (\<lambda>_.
      bindA (tracer_continue True) (\<lambda>_. ret LAUNCHMON_OK))))"

definition set_traced :: "int \<Rightarrow> unit eng" where
  "set_traced k s = (case map_find (thrlist s) k of
     None \<Rightarrow> throw Undefined_behaviour s
   | Some t \<Rightarrow> ret () (s\<lparr>thrlist := map_set k (t\<lparr>traced := True\<rparr>) (thrlist s)\<rparr>))"

definition handle_newthread_trace_event :: "launchmon_rc_e eng" where
  "handle_newthread_trace_event = catchA LAUNCHMON_FAILED
     (bindA (seqA [tracer_setoptions True (-1), (\<lambda>s. set_traced (get_cur_thread_ctx s) s),
                   tracer_continue True]) (\<lambda>_. ret LAUNCHMON_OK))"

definition handle_not_interested_event :: "launchmon_rc_e eng" where
  "handle_not_interested_event = catchA LAUNCHMON_FAILED
     (bindA (tracer_continue True) (\<lambda>_. ret LAUNCHMON_OK))"

definition handle_relay_signal_event :: "int \<Rightarrow> launchmon_rc_e eng" where
  "handle_relay_signal_event sig = catchA LAUNCHMON_FAILED
     (let what_to_send = (if sig \<noteq> SIGSTOP then sig else SIGCONT) in
      bindA (seqA [tracer_setoptions True (-1), tracer_deliver_signal what_to_send True])
        (\<lambda>_. ret LAUNCHMON_OK))"

section \<open>Dispatch\<close>

definition invoke_handler :: "launchmon_event_e \<Rightarrow> int \<Rightarrow> launchmon_rc_e eng" where
  "invoke_handler ev data = (case ev of
     LM_STOP_AT_FIRST_EXEC \<Rightarrow> handle_trap_after_exec_event
   | LM_STOP_AT_FIRST_ATTACH \<Rightarrow> handle_trap_after_attach_event
   | LM_STOP_FOR_DETACH \<Rightarrow> handle_detach_cmd_event
   | LM_STOP_FOR_KILL \<Rightarrow> handle_kill_cmd_event
   | LM_STOP_AT_LAUNCH_BP \<Rightarrow> handle_launch_bp_event
   | LM_STOP_AT_LOADER_BP \<Rightarrow> handle_loader_bp_event
   | LM_REQUEST_NEW_THREAD \<Rightarrow> handle_thrcreate_request data
   | LM_STOP_AT_THREAD_CREATION \<Rightarrow> handle_thrcreate_trap_event
   | LM_STOP_NEW_THREAD_TRACE \<Rightarrow> handle_newthread_trace_event
   | LM_STOP_NEW_FORKED_PROCESS \<Rightarrow> handle_newproc_forked_event
   | LM_RELAY_SIGNAL \<Rightarrow> handle_relay_signal_event data
   | LM_STOP_NOT_INTERESTED \<Rightarrow> handle_not_interested_event
   | LM_TERMINATED \<Rightarrow> handle_term_event
   | LM_EXITED \<Rightarrow> handle_exit_event
   | LM_HIT_A_BP \<Rightarrow> ret LAUNCHMON_FAILED
   | LM_INVALID \<Rightarrow> ret LAUNCHMON_FAILED)"

end
