(* ===== verification/Event_Manager.thy ===== *)
theory Event_Manager
  imports Linux_Launchmon
begin

text \<open>
  The event loop: \<open>sdbg_event_manager_impl.hxx\<close>, which turns the answers of
  \<open>waitpid\<close> into events and hands them to the engine, and the part of
  \<open>sdbg_base_driver_impl.hxx\<close> and \<open>sdbg_signal_hlr_impl.hxx\<close> that drives it.
\<close>

section \<open>Waiting\<close>

definition e_waitpid :: "(int \<times> int) eng" where
  "e_waitpid s = (case waits s of [] \<Rightarrow> throw No_return s | a # as \<Rightarrow> ret a (s\<lparr>waits := as\<rparr>))"

text \<open>The macros of \<open>sys/wait.h\<close>; \<open>mod\<close> is the bit mask, also of a negative status.\<close>

definition WIFEXITED :: "int \<Rightarrow> bool" where "WIFEXITED st \<longleftrightarrow> st mod 128 = 0"
definition WEXITSTATUS :: "int \<Rightarrow> int" where "WEXITSTATUS st = (st div 256) mod 256"
definition WIFSIGNALED :: "int \<Rightarrow> bool" where "WIFSIGNALED st \<longleftrightarrow> 0 < st mod 128 \<and> st mod 128 < 127"
definition WTERMSIG :: "int \<Rightarrow> int" where "WTERMSIG st = st mod 128"
definition WIFSTOPPED :: "int \<Rightarrow> bool" where "WIFSTOPPED st \<longleftrightarrow> st mod 256 = 127"
definition WSTOPSIG :: "int \<Rightarrow> int" where "WSTOPSIG st = (st div 256) mod 256"

definition status_event :: "eventing_entity_e \<Rightarrow> int \<Rightarrow> int \<Rightarrow> bool \<times> debug_event_t" where
  "status_event entity rpid status =
     (let rc = debug_event0\<lparr>de_en := Some entity, de_id := Some rpid\<rparr> in
      if WIFEXITED status then
        (True, rc\<lparr>de_ev := EV_EXITED, de_u := WEXITSTATUS status, de_rawstatus := Some status\<rparr>)
      else if WIFSIGNALED status then
        (True, rc\<lparr>de_ev := EV_TERMINATED, de_u := WTERMSIG status, de_rawstatus := Some status\<rparr>)
      else if WIFSTOPPED status then
        (True, rc\<lparr>de_ev := EV_STOPPED, de_u := WSTOPSIG status, de_rawstatus := Some status\<rparr>)
      else (False, rc\<lparr>de_rawstatus := Some status\<rparr>))"

text \<open>The second \<open>waitpid\<close> writes \<open>status\<close> again.\<close>

definition wait_for_all :: "(bool \<times> debug_event_t) eng" where
  "wait_for_all =
     bindA e_waitpid (\<lambda>(rpid, status).
       if rpid \<le> 0 then
         bindA e_waitpid (\<lambda>(rpid, status).
           if rpid \<le> 0 then
             ret (False, debug_event0\<lparr>de_ev := EV_NOCHILD, de_en := Some EV_ENTITY_NONE, de_id := Some rpid\<rparr>)
           else ret (status_event EV_ENTITY_THREAD rpid status))
       else ret (status_event EV_ENTITY_PROCESS rpid status))"

section \<open>Dispatching an event\<close>

definition in_context :: "int \<Rightarrow> launchmon_rc_e eng \<Rightarrow> launchmon_rc_e eng" where
  "in_context k m = bindA (make_context k) (\<lambda>_. bindA m (\<lambda>rc. bindA (check_and_undo_context k) (\<lambda>_. ret rc)))"

definition handle_lwp_event :: "int \<Rightarrow> debug_event_t \<Rightarrow> launchmon_rc_e eng" where
  "handle_lwp_event k event = in_context k
     (bindA (decipher_an_event event) (\<lambda>ev. invoke_handler ev (de_u event)))"

definition process_event :: "int \<Rightarrow> debug_event_t \<Rightarrow> launchmon_rc_e eng" where
  "process_event k event =
     bindA (get_pid False) (\<lambda>launcher s.
       if k = launcher then handle_lwp_event k event s
       else if k = toollauncherpid s then
         (if de_ev event = EV_EXITED \<or> de_ev event = EV_TERMINATED then handle_daemon_exit_event s
          else ret LAUNCHMON_OK s)
       else if de_ev event = EV_STOPPED then
         in_context k (invoke_handler LM_STOP_NEW_FORKED_PROCESS k) s
       else ret LAUNCHMON_OK s)"

definition thread_event :: "int \<Rightarrow> debug_event_t \<Rightarrow> launchmon_rc_e eng" where
  "thread_event k event =
     bindA (\<lambda>s. if map_find (thrlist s) k = None \<and> de_ev event = EV_STOPPED
               then invoke_handler LM_REQUEST_NEW_THREAD k s else ret LAUNCHMON_OK s) (\<lambda>rc s.
       if map_find (thrlist s) k \<noteq> None then handle_lwp_event k event s else ret rc s)"

definition poll_processes :: "bool eng" where
  "poll_processes =
     bindA wait_for_all (\<lambda>(got, event).
     bindA (case (got, de_en event, de_id event) of
              (True, Some EV_ENTITY_PROCESS, Some k) \<Rightarrow> process_event k event
            | (True, Some EV_ENTITY_THREAD, Some k) \<Rightarrow> thread_event k event
            | _ \<Rightarrow> ret LAUNCHMON_OK) (\<lambda>rc.
       ret (rc = LAUNCHMON_OK)))"

definition poll_FE_socket :: "bool eng" where
  "poll_FE_socket = bindA handle_incoming_socket_event (\<lambda>rc. ret (rc = LAUNCHMON_OK))"

definition multiplex_events :: "bool eng" where
  "multiplex_events = bindA poll_FE_socket (\<lambda>rc. if rc then poll_processes else ret rc)"

section \<open>The main loop and the signal handler\<close>

fun main_loop :: "nat \<Rightarrow> unit eng" where
  "main_loop 0 = throw No_return"
| "main_loop (Suc n) = bindA multiplex_events (\<lambda>go. if go then main_loop n else ret ())"

text \<open>\<open>nMaxEvs\<close> bounds the rounds of the signal handler, which ends in \<open>abort\<close>.\<close>

definition nMaxEvs :: nat where "nMaxEvs = 15"

fun drain_events :: "nat \<Rightarrow> unit eng" where
  "drain_events 0 = ret ()"
| "drain_events (Suc n) = bindA poll_processes (\<lambda>go. if go then drain_events n else ret ())"

definition sighandler :: "unit eng" where
  "sighandler = seqA [ignA (request_detach ENGINE_dying_wsignal), drain_events nMaxEvs, throw Aborted]"

end
