(* ===== verification/Engine_Frame.thy ===== *)
theory Engine_Frame
  imports Event_Manager
begin

text \<open>
  What the engine can do to its state. The locale \<open>engine_frame\<close> lists the primitive
  updates the handlers are made of; a predicate closed under them is kept by every
  handler, whatever the kernel answers and whichever exception is thrown. \<open>loop_frame\<close>
  adds the updates of the event loop. The interpretations at the end are the invariants.
\<close>

named_theorems frame "operations that keep the predicate of a frame"

lemma keepsI: "(\<And>s. P s \<Longrightarrow> P (snd (m s))) \<Longrightarrow> keeps P m"
  by (simp add: keeps_def)

lemma keeps_at: "(\<And>t. keeps P (m t)) \<Longrightarrow> keeps P (\<lambda>s. m s s)"
  by (simp add: keeps_def)

lemmas [keeps_intros] = keeps_option keeps_let keeps_pair

lemma keeps_throw_errno: "keeps P throw_errno"
  by (simp add: keeps_def throw_errno_def throw_def)

lemma keeps_errno:
  "keeps P m \<Longrightarrow> keeps P (\<lambda>p. if errno_of p \<noteq> None then throw_errno p else m p)"
  by (simp add: keeps_def throw_errno_def throw_def)

locale read_frame =
  fixes P :: "engine \<Rightarrow> bool"
  assumes fr_krn: "P s \<Longrightarrow> P (s\<lparr>krn := K\<rparr>)"
    and fr_ids: "P s \<Longrightarrow> P (s\<lparr>resid := v, rid := v\<rparr>)"
begin

lemma Pptrace_keeps [frame]: "keeps P (Pptrace r lwp a d)"
  by (rule keepsI) (simp add: Pptrace_def case_prod_beta Let_def fr_krn)

lemma checked_keeps [frame]: "keeps P m \<Longrightarrow> keeps P (checked m)"
  unfolding checked_def by (intro keeps_intros, assumption)
    (simp add: keeps_def throw_errno_def throw_def ret_def)

lemma must_be_0_keeps [frame]: "keeps P m \<Longrightarrow> keeps P (must_be_0 m)"
  unfolding must_be_0_def by (intro keeps_intros, assumption)
    (simp add: keeps_def throw_errno_def throw_def ret_def)

lemma clear_errno_keeps [frame]: "keeps P clear_errno"
  by (simp add: clear_errno_def keeps_def modA_def fr_krn)

lemma get_pid_keeps [frame]: "keeps P (get_pid c)"
  by (rule keeps_wf_get_pid)

lemma read_words_keeps [frame]: "keeps P (read_words lwp a n)"
  by (induction n arbitrary: a) (auto intro!: keeps_intros frame)

lemma read_string_words_keeps [frame]: "keeps P (read_string_words lwp a n)"
  by (induction n arbitrary: a) (auto intro!: keeps_intros frame)

lemma read_keeps [frame]: "keeps P (tracer_read a n c)"
  unfolding tracer_read_def by (intro keeps_intros frame)

lemma read_string_keeps [frame]: "keeps P (tracer_read_string a n c)"
  unfolding tracer_read_string_def by (intro keeps_intros frame)

lemma event_msg_keeps [frame]: "keeps P (tracer_get_event_msg c)"
  unfolding tracer_get_event_msg_def by (intro keeps_intros frame) (simp add: keeps_def ret_def)

lemma status_keeps [frame]: "keeps P (tracer_status c)"
  unfolding tracer_status_def by (intro keeps_intros frame) (simp add: keeps_def ret_def)

lemma pure_keeps [frame]: "keeps P (get_relocated_address sy)" "keeps P (buf_cstr bs)"
  by (simp_all add: get_relocated_address_def buf_cstr_def split: option.split)

lemma lookup_keeps [frame]: "keeps P (get_auxv p)" "keeps P (get_va_from_procfs p d)" "keeps P (the_im im)"
  by (auto simp: keeps_def get_auxv_def get_va_from_procfs_def the_im_def ret_def throw_def
      split: option.split list.split sum.split)

lemma find_symbol_keeps [frame]: "keeps P (find_symbol nm)"
  unfolding find_symbol_def
  by (intro keeps_intros frame) (auto simp: keeps_def Let_def ret_def split: option.split)

lemma read_scalar_keeps [frame]: "keeps P (read_int32 a c)" "keeps P (read_va a c)"
  unfolding read_int32_def read_va_def by (intro keeps_intros frame)+

lemma set_ids_keeps [frame]: "keeps P (set_ids v)"
  unfolding set_ids_def by (intro keeps_intros fr_ids)

lemma acquire_rid_keeps [frame]: "keeps P (acquire_rid c)"
  unfolding acquire_rid_def Let_def
  by (auto intro!: keeps_intros frame split: id_u.split id_datatype_e.split)

end

locale engine_frame = read_frame +
  assumes fr_ctx: "P s \<Longrightarrow> P (s\<lparr>thread_ctx_stack := ks\<rparr>)"
    and fr_child: "P s \<Longrightarrow> P (s\<lparr>new_child_pid := c\<rparr>)"
    and fr_thr: "P s \<Longrightarrow> map_find (thrlist s) k = Some t \<Longrightarrow> thr2pid t' = thr2pid t \<Longrightarrow>
      length (gprset t') = length (gprset t) \<Longrightarrow> P (s\<lparr>thrlist := map_set k t' (thrlist s)\<rparr>)"
    and fr_new: "P s \<Longrightarrow> map_find (thrlist s) k = None \<Longrightarrow>
      P (s\<lparr>thrlist := map_set k (linux_x86_thread0\<lparr>ti_lid := k\<rparr>) (thrlist s)\<rparr>)"
    and fr_erase: "P s \<Longrightarrow> P (s\<lparr>thrlist := map_erase k (thrlist s)\<rparr>)"
    and fr_bp: "P s \<Longrightarrow> P (put_bp sl b s)"
    and fr_im: "P s \<Longrightarrow> P (put_im im i s)"
    and fr_trapped: "P s \<Longrightarrow> P (s\<lparr>never_trapped := False\<rparr>)"
    and fr_fifo: "P s \<Longrightarrow> P (s\<lparr>sym_attach_fifo := sy\<rparr>)"
    and fr_rmgr: "P s \<Longrightarrow> P (s\<lparr>rmgr := c'\<rparr>)"
    and fr_pcount: "P s \<Longrightarrow> P (s\<lparr>pcount := n\<rparr>)"
    and fr_tab: "P s \<Longrightarrow> P (s\<lparr>proctable_copy := tab\<rparr>)"
    and fr_tool: "P s \<Longrightarrow> P (s\<lparr>toollauncherpid := q\<rparr>)"
    and fr_effects: "P s \<Longrightarrow> P (s\<lparr>effects := es\<rparr>)"
    and fr_sent: "P s \<Longrightarrow> P (s\<lparr>fe_sent := fe_sent s @ wire, fe_writes := ws\<rparr>)"
    and fr_mpir: "P s \<Longrightarrow> x \<noteq> mpir_abort \<Longrightarrow> P (s\<lparr>engine_state := x\<rparr>)"
begin

lemma set_lwp_state_keeps [frame]: "keeps P (set_lwp_state st c)"
  unfolding set_lwp_state_def
  by (intro keeps_intros frame) (auto simp: keeps_def ret_def fr_thr split: option.split)

lemma make_context_keeps [frame]: "keeps P (make_context k)"
  by (auto simp: keeps_def make_context_def act_simps fr_ctx fr_child)

lemma undo_context_keeps [frame]: "keeps P (check_and_undo_context k)"
  by (auto simp: keeps_def check_and_undo_context_def act_simps fr_ctx fr_child split: list.splits)

lemma upd_gprset_keeps: "(\<And>g. length (f g) = length g) \<Longrightarrow> keeps P (upd_gprset rp f)"
  by (auto simp: keeps_def upd_gprset_def act_simps fr_thr split: option.splits)

lemma with_gprset_keeps [frame]: "keeps P (with_gprset rp f)"
  by (auto simp: keeps_def with_gprset_def act_simps split: option.splits)

lemma getregs_loop_keeps [frame]: "keeps P (getregs_loop lwp rp i n)"
proof (induction n arbitrary: i)
  case (Suc n)
  show ?case unfolding getregs_loop.simps
    by (intro keeps_intros keeps_errno frame Suc.IH upd_gprset_keeps) simp
qed simp

lemma setregs_loop_keeps [frame]: "keeps P (setregs_loop lwp rp i n)"
proof (induction n arbitrary: i)
  case (Suc n)
  show ?case unfolding setregs_loop.simps
    by (intro keeps_intros keeps_errno frame Suc.IH)
qed simp

lemma getregs_keeps [frame]: "keeps P (tracer_getregs c)"
  unfolding tracer_getregs_def
  by (intro keeps_intros frame) (auto simp: keeps_def act_simps split: option.split intro: keepsD [OF getregs_loop_keeps])

lemma setregs_keeps [frame]: "keeps P (tracer_setregs c)"
  unfolding tracer_setregs_def
  by (intro keeps_intros frame) (auto simp: keeps_def act_simps split: option.split intro: keepsD [OF setregs_loop_keeps])

lemma write_words_keeps [frame]: "keeps P (write_words lwp a bs n)"
  by (induction n arbitrary: a bs) (auto intro!: keeps_intros frame)

lemma write_keeps [frame]: "keeps P (tracer_write a bs c)"
  unfolding tracer_write_def by (intro keeps_intros frame)

lemma control_keeps [frame]:
  "keeps P (tracer_continue c)" "keeps P (tracer_deliver_signal sig c)" "keeps P (tracer_singlestep c)"
  "keeps P (tracer_attach c n)" "keeps P (tracer_stop c)"
  unfolding tracer_continue_def tracer_deliver_signal_def tracer_singlestep_def tracer_attach_def tracer_stop_def
  by (auto intro!: keeps_intros frame)

lemma detach_keeps [frame]: "keeps P (tracer_detach c)"
  unfolding tracer_detach_def by (intro keeps_intros frame)

lemma options_keeps [frame]: "keeps P (tracer_setoptions c n)" "keeps P (tracer_unsetoptions c n)"
  unfolding tracer_setoptions_def tracer_unsetoptions_def set_ptrace_options_def
  by (intro keeps_intros frame)+

lemma the_bp_keeps [frame]: "keeps P (the_bp sl)"
  by (simp add: keeps_def the_bp_def act_simps split: option.split)

lemma upd_bp_keeps [frame]: "keeps P (upd_bp sl f)"
  unfolding upd_bp_def by (intro keeps_intros frame fr_bp)

lemma enable_keeps [frame]: "keeps P (enable_breakpoint sl c ch)"
  unfolding enable_breakpoint_def by (intro keeps_intros frame)

lemma disable_keeps [frame]: "keeps P (disable_breakpoint sl c ch)"
  unfolding disable_breakpoint_def by (intro keeps_intros frame)

lemma effect_keeps [frame]: "keeps P (do_effect e)"
  unfolding do_effect_def by (intro keeps_intros fr_effects)

lemma relocate_keeps [frame]: "keeps P (relocate_im im base)"
  unfolding relocate_im_def
  by (intro keeps_intros frame) (auto simp: keeps_def Let_def ret_def throw_def fr_im split: sum.split)

lemma load_keeps [frame]: "keeps P (load_im im nm base)"
  unfolding load_im_def
  by (intro keeps_intros frame)
    (auto simp: keeps_def ret_def throw_def fr_im split: sum.split intro!: keepsD [OF relocate_keeps])

section \<open>The setup methods\<close>

lemma remove_bp_keeps [frame]: "keeps P remove_launch_bp"
proof -
  have "keeps P (modA (\<lambda>s. s\<lparr>launch_hidden_bp := None\<rparr>))"
    using fr_bp [of _ launch_bp None] by (intro keeps_intros) simp
  then have k: "keeps P (seqA [whenA (is_enabled b) (ignA (disable_breakpoint launch_bp True True)),
      modA (\<lambda>s. s\<lparr>launch_hidden_bp := None\<rparr>)])" for b
    by (auto intro!: keeps_intros frame)
  show ?thesis
    by (rule keepsI)
      (auto simp: remove_launch_bp_def ret_def simp del: seqA.simps intro: keepsD [OF k] split: option.split)
qed

lemma set_launch_bp_keeps [frame]: "keeps P (modA (\<lambda>s. s\<lparr>launch_hidden_bp := b\<rparr>))"
  using fr_bp [of _ launch_bp b] by (intro keeps_intros) simp

lemma set_loader_bp_keeps [frame]: "keeps P (modA (\<lambda>s. s\<lparr>loader_hidden_bp := b\<rparr>))"
  using fr_bp [of _ loader_bp b] by (intro keeps_intros) simp

lemma plant_launch_keeps [frame]: "keeps P (plant_launch_bp i)"
  unfolding plant_launch_bp_def by (auto intro!: keeps_intros frame simp: Let_def)

lemma mark_keeps [frame]: "keeps P (mark_being_debugged i)"
  unfolding mark_being_debugged_def by (intro keeps_intros frame)

lemma expand_keeps [frame]: "keeps P e_expand"
  by (simp add: keeps_def e_expand_def Let_def ret_def fr_rmgr split: prod.split)

lemma rmgr_keeps [frame]: "keeps P (modA (\<lambda>s. s\<lparr>rmgr := f s\<rparr>))"
  by (intro keeps_intros fr_rmgr)

lemma pass_args_keeps [frame]: "keeps P (pass_daemon_args i)"
  unfolding pass_daemon_args_def by (intro keeps_intros frame)

lemma fifo_keeps [frame]: "keeps P (find_attach_fifo i)"
  unfolding find_attach_fifo_def by (auto intro!: keeps_intros fr_fifo simp: Let_def)

lemma mpir_variables_keeps [frame]: "keeps P (handle_mpir_variables i)"
  unfolding handle_mpir_variables_def by (auto intro!: keeps_intros frame)

lemma each_bp_keeps: "(\<And>sl. keeps P (f sl)) \<Longrightarrow> keeps P (each_bp f)"
  unfolding each_bp_def by (intro keeps_intros) (simp add: keeps_def ret_def)

lemma all_bps_keeps [frame]: "keeps P (disable_all_BPs c ch)" "keeps P (enable_all_BPs c ch)"
  unfolding disable_all_BPs_def enable_all_BPs_def by (intro keeps_intros frame each_bp_keeps)+

lemma with_cur_gprset_keeps [frame]: "keeps P (\<lambda>s. with_gprset (get_gprset c s) f s)"
  by (rule keepsI) (rule keepsD [OF with_gprset_keeps])

lemma return_address_keeps [frame]: "keeps P return_address"
proof -
  have "keeps P (\<lambda>s. if r = T_UNINIT_HEX
      then bindA (with_gprset (get_gprset True s) gpr_get_memloc_for_ret_addr) (\<lambda>a. read_va a True) s
      else ret r s)" for r
    by (rule keepsI) (simp add: ret_def keepsD [OF keeps_bindA [OF with_gprset_keeps read_scalar_keeps(2)]])
  then show ?thesis
    by (intro keepsI) (simp add: return_address_def keepsD [OF keeps_bindA [OF with_gprset_keeps]])
qed

lemma set_cur_pc_keeps [frame]: "keeps P (\<lambda>s. upd_gprset (get_gprset c s) (gpr_set_pc a) s)"
  by (rule keepsI) (rule keepsD [OF upd_gprset_keeps], simp_all add: gpr_set_pc_def)

lemma prologue_keeps [frame]: "keeps P (handle_bp_prologue sl)" "keeps P (is_bp_prologue_done sl)"
proof -
  show p: "keeps P (handle_bp_prologue sl)"
    unfolding handle_bp_prologue_def by (auto intro!: keeps_intros frame)
  show "keeps P (is_bp_prologue_done sl)"
    unfolding is_bp_prologue_done_def by (intro keeps_intros frame p)
qed

lemma visit_keeps [frame]: "keeps P (visit_link_map a nm rc)"
  unfolding visit_link_map_def Let_def by (auto intro!: keeps_intros frame)

lemma walk_keeps [frame]: "keeps P (walk_link_maps n w rc)"
  by (induction n arbitrary: w rc) (auto intro!: keeps_intros frame simp: Let_def)

lemma walk_r_debug_keeps [frame]: "keeps P walk_r_debug"
  unfolding walk_r_debug_def by (intro keeps_intros frame)

lemma dependent_SOs_keeps [frame]: "keeps P check_dependent_SOs"
  unfolding check_dependent_SOs_def
  by (intro keeps_intros keepsI) (auto simp: ret_def intro: keepsD [OF walk_r_debug_keeps] split: option.split)

lemma fetch_entry_keeps [frame]: "keeps P (fetch_entry tab c i)"
  unfolding fetch_entry_def Let_def by (auto intro!: keeps_intros frame fr_tab)

lemma fetch_entries_keeps [frame]: "keeps P (fetch_entries tab c i n)"
  by (induction n arbitrary: i) (auto intro!: keeps_intros frame)

lemma fetch_proctable_keeps [frame]: "keeps P (fetch_proctable c)"
  unfolding fetch_proctable_def by (intro keeps_intros frame)

lemma keeps_cond: "keeps P m \<Longrightarrow> keeps P n \<Longrightarrow> keeps P (\<lambda>s. if b s then m s else n s)"
  by (simp add: keeps_def)

lemma acquire_proctable_keeps [frame]: "keeps P (acquire_proctable c)"
  unfolding acquire_proctable_def by (intro keeps_intros keeps_cond frame fr_pcount)

lemma continue_on_attach_keeps [frame]: "keeps P (continue_on_attach c)"
  unfolding continue_on_attach_def by (intro keeps_intros keeps_cond frame)

lemma export_keeps [frame]: "keeps P (export_host he)"
  unfolding export_host_def by (intro keeps_intros frame)

lemma spawn_keeps [frame]: "keeps P (spawn_daemons f)"
  unfolding spawn_daemons_def by (intro keeps_intros frame fr_tool)

lemma keeps_from: "(\<And>t. keeps P (m t)) \<Longrightarrow> P s \<Longrightarrow> P (snd (m t s))"
  by (simp add: keeps_def)

lemma keeps_sum: "(\<And>e. keeps P (f e)) \<Longrightarrow> (\<And>x. keeps P (g x)) \<Longrightarrow> keeps P (case r of Inl e \<Rightarrow> f e | Inr x \<Rightarrow> g x)"
  by (cases r) auto

lemma export_all_keeps [frame]: "keeps P (forA export_host es)" "keeps P (forA (\<lambda>(k, v). do_effect (Setenv k v)) vs)"
  by (intro keeps_intros frame)+

lemma hosts_keeps: "keeps P (case hosts_file w of
    Inl e \<Rightarrow> throw e | Inr None \<Rightarrow> ret False | Inr (Some hnfn) \<Rightarrow> spawn_daemons hnfn)"
  by (intro keeps_sum keeps_option frame) simp_all

lemma launch_keeps [frame]: "keeps P launch_tool_daemons"
proof (rule keepsI)
  fix s assume "P s"
  let ?m = "bindA (whenA (\<not> API_mode s \<and> \<not> is_modelchecker (rmgr s)) (forA export_host (proctable_copy s))) (\<lambda>_.
          if is_modelchecker (rmgr s) then ret False
          else bindA (forA (\<lambda>(k, v). do_effect (Setenv k v)) (opt_envMap (myopts s))) (\<lambda>_.
            if is_coloc_sup (rmgr s) then ret False
            else (case hosts_file (out s) of
                    Inl e \<Rightarrow> throw e
                  | Inr None \<Rightarrow> ret False
                  | Inr (Some hnfn) \<Rightarrow> spawn_daemons hnfn)))"
  have "keeps P ?m"
    by (rule keeps_bindA, rule keeps_whenA, rule export_all_keeps, rule keeps_if, rule keeps_ret,
        rule keeps_bindA, rule export_all_keeps, rule keeps_if, rule keeps_ret, rule hosts_keeps)
  from keepsD [OF this \<open>P s\<close>] have m: "P (snd (?m s))" .
  show "P (snd (launch_tool_daemons s))"
  proof (cases "proctable_copy s = []")
    case True
    then show ?thesis using \<open>P s\<close> by (simp add: launch_tool_daemons_def ret_def)
  next
    case False
    then have "launch_tool_daemons s = ?m s"
      unfolding launch_tool_daemons_def by (rule if_not_P)
    with m show ?thesis by (simp only:)
  qed
qed

lemma say_keeps [frame]:
  "keeps P (e_say t)" "keeps P (e_ship_proctab t)" "keeps P (e_ship_resourcehandle t v)" "keeps P (e_ship_rminfo t p m)"
  by (auto simp: keeps_def e_say_def e_ship_proctab_def e_ship_resourcehandle_def e_ship_rminfo_def sent_def act_simps
      fr_sent split: option.split sum.split prod.split)

lemma free_keeps [frame]: "keeps P free_engine_resources"
  by (auto simp: keeps_def free_engine_resources_def ret_def intro: keepsD [OF effect_keeps] split: option.split)

lemma rmkill_keeps [frame]: "keeps P (e_graceful_rmkill p)"
proof -
  have "keeps P (forA (\<lambda>(q, sg). do_effect (Sig q sg)) sigs)" for sigs
    by (intro keeps_intros frame)
  from keepsD [OF this] show ?thesis
    by (auto simp: keeps_def e_graceful_rmkill_def ret_def split: option.split)
qed

section \<open>The handlers\<close>

lemma stopped_event_keeps [frame]: "keeps P (stopped_event t ev pc)"
  unfolding stopped_event_def by (intro keeps_intros frame)

lemma stopped_event_at_keeps [frame]: "keeps P (\<lambda>s. stopped_event s ev pc s)"
  by (rule keeps_at) (rule stopped_event_keeps)

lemma decipher_keeps [frame]: "keeps P (decipher_an_event ev)"
  unfolding decipher_an_event_def
  by (cases "de_ev ev"; simp only: debug_event_e.case; intro keeps_intros frame)

lemma attach_event_keeps [frame]: "keeps P handle_attach_event"
  unfolding handle_attach_event_def by (intro keeps_intros frame)

lemma plant_loader_keeps [frame]: "keeps P plant_loader_bp"
  unfolding plant_loader_bp_def by (auto intro!: keeps_intros frame)

lemma set_mpir_keeps [frame]: "keeps P set_mpir_of_main"
  unfolding set_mpir_of_main_def by (auto intro!: keeps_intros frame)

lemma announce_keeps [frame]: "keeps P (announce_job t)"
  unfolding announce_job_def by (auto intro!: keeps_intros frame)

lemma loader_base_keeps [frame]: "keeps P find_loader_base"
  unfolding find_loader_base_def by (intro keeps_intros frame)

lemma keeps_state_whenA: "keeps P m \<Longrightarrow> keeps P (\<lambda>s. whenA (b s) m s)"
  by (simp add: keeps_def whenA_def ret_def)

lemma wake_keeps [frame]: "keeps P wake_attach_fifo"
  unfolding wake_attach_fifo_def by (auto intro!: keeps_intros frame keeps_state_whenA split: option.split)

lemma release_keeps [frame]: "keeps P release_attached"
  unfolding release_attached_def by (auto intro!: keeps_intros frame)

lemma trapped_keeps [frame]: "keeps P (modA (\<lambda>s. s\<lparr>never_trapped := False\<rparr>))"
  by (intro keeps_intros fr_trapped)

lemma after_attach_keeps [frame]: "keeps P handle_trap_after_attach_event"
  unfolding handle_trap_after_attach_event_def
  by (intro keeps_intros keeps_cond frame) (auto intro!: keeps_intros frame)

lemma abort_on_symtab_keeps: "keeps P m \<Longrightarrow> keeps P (abort_on_symtab m)"
  unfolding keeps_def abort_on_symtab_def
  by (fastforce split: prod.splits sum.splits exn.splits)

lemma linked_addr_keeps [frame]: "keeps P dl_linked_addr"
  unfolding dl_linked_addr_def by (intro keeps_intros frame)

lemma after_exec_keeps [frame]: "keeps P handle_trap_after_exec_event"
  unfolding handle_trap_after_exec_event_def
  by (intro keeps_intros keeps_cond abort_on_symtab_keeps frame) (auto intro!: keeps_intros frame)

lemma mpir_keeps: "n \<noteq> MPIR_DEBUG_ABORTING \<Longrightarrow> keeps P (set_engine_state n)"
  unfolding set_engine_state_def by (auto intro!: keeps_intros fr_mpir)

lemma detach_slave_keeps [frame]: "keeps P (detach_stopped_slave k)" "keeps P (let_go_slave k)"
proof -
  have a: "keeps P (whenA b (seqA [ignA (make_context k),
      bindA (tracer_status True) (\<lambda>st. whenA (st = SDBG_TRACE_STOPPED) (ignA (tracer_detach True))),
      ignA (check_and_undo_context k)]))" for b
    by (auto intro!: keeps_intros frame)
  have b: "keeps P (whenA b (seqA [ignA (make_context k), tracer_unsetoptions True (-1), ignA (tracer_detach True),
      ignA (check_and_undo_context k)]))" for b
    by (auto intro!: keeps_intros frame)
  show "keeps P (detach_stopped_slave k)"
    by (rule keepsI)
      (auto simp: detach_stopped_slave_def ret_def simp del: seqA.simps intro: keepsD [OF a] split: option.split)
  show "keeps P (let_go_slave k)"
    by (rule keepsI)
      (auto simp: let_go_slave_def ret_def simp del: seqA.simps intro: keepsD [OF b] split: option.split)
qed

lemma abort_job_keeps [frame]: "keeps P (abort_job sy)"
  unfolding abort_job_def by (auto intro!: keeps_intros frame mpir_keeps simp: MPIR_DEBUG_ABORTING_def)

lemma set_event_keeps [frame]: "keeps P (set_event_registered k v)" "keeps P (set_traced k)"
  by (auto simp: keeps_def set_event_registered_def set_traced_def act_simps thr2pid_def fr_thr split: option.split)

lemma set_event_at_keeps [frame]: "keeps P (\<lambda>s. set_event_registered (g s) v s)" "keeps P (\<lambda>s. set_traced (g s) s)"
  by (rule keepsI, rule keepsD [OF set_event_keeps(1)], assumption)
    (rule keepsI, rule keepsD [OF set_event_keeps(2)], assumption)

lemma mpir_step_keeps [frame]: "keeps P (mpir_step n sy)"
proof -
  have "keeps P (\<lambda>s. if API_mode s then set_event_registered (get_cur_thread_ctx s) True s
      else tracer_continue True s)"
    by (rule keepsI) (simp add: keepsD [OF set_event_keeps(1)] keepsD [OF control_keeps(1)])
  then show ?thesis
    unfolding mpir_step_def
    by (auto intro!: keeps_intros frame mpir_keeps simp: MPIR_DEBUG_ABORTING_def MPIR_DEBUG_SPAWNED_def)
qed

lemma launch_bp_keeps [frame]: "keeps P handle_launch_bp_event"
proof -
  have "keeps P (\<lambda>s. if \<not> validate_mpir_state_transition s n
      then bindA (tracer_continue True) (\<lambda>_. ret LAUNCHMON_OK) s else mpir_step n sy s)" for n sy
    by (rule keeps_cond) (intro keeps_intros frame)+
  then show ?thesis
    unfolding handle_launch_bp_event_def by (intro keeps_intros keeps_cond frame)
qed

lemma loader_bp_keeps [frame]: "keeps P handle_loader_bp_event"
  unfolding handle_loader_bp_event_def by (auto intro!: keeps_intros frame)

lemma let_go_keeps [frame]: "keeps P let_go"
  unfolding let_go_def by (auto intro!: keeps_intros frame)

lemma report_keeps [frame]: "keeps P (report_detach r)"
  unfolding report_detach_def by (cases r) (auto intro!: keeps_intros frame)

lemma detach_cmd_keeps [frame]: "keeps P handle_detach_cmd_event"
  unfolding handle_detach_cmd_event_def by (auto intro!: keeps_intros frame)

lemma rmkill_at_keeps [frame]: "keeps P (\<lambda>s. whenA (b s) (e_graceful_rmkill (g s)) s)"
  "keeps P (\<lambda>s. whenA (b s) (ignA (e_say t)) s)"
  by (rule keepsI, rule keepsD [OF keeps_whenA [OF rmkill_keeps]], assumption)
    (rule keepsI, rule keepsD [OF keeps_whenA [OF keeps_ignA [OF say_keeps(1)]]], assumption)

lemma kill_cmd_keeps [frame]: "keeps P handle_kill_cmd_event"
  unfolding handle_kill_cmd_event_def by (auto intro!: keeps_intros frame)

lemma exit_keeps [frame]: "keeps P handle_exit_event" "keeps P handle_term_event"
proof -
  have "keeps P (bindA (seqA [ignA (e_say lmonp_exited), free_engine_resources]) (\<lambda>_. ret LAUNCHMON_MAINPROG_EXITED))"
    by (auto intro!: keeps_intros frame)
  then show "keeps P handle_exit_event"
    unfolding handle_exit_event_def
    by (intro keeps_catchA keepsI) (simp add: ret_def fr_erase keepsD)
  show "keeps P handle_term_event"
    unfolding handle_term_event_def by (intro keeps_intros frame)
qed

lemma forked_keeps [frame]: "keeps P handle_newproc_forked_event"
  unfolding handle_newproc_forked_event_def by (auto intro!: keeps_intros frame)

lemma thrcreate_keeps [frame]: "keeps P (handle_thrcreate_request k)"
  unfolding handle_thrcreate_request_def
  by (intro keeps_intros keepsI) (simp add: ret_def fr_new)

lemma thread_keeps [frame]: "keeps P handle_thrcreate_trap_event" "keeps P handle_newthread_trace_event"
  "keeps P handle_not_interested_event" "keeps P (handle_relay_signal_event sg)"
  unfolding handle_thrcreate_trap_event_def handle_newthread_trace_event_def handle_not_interested_event_def
    handle_relay_signal_event_def Let_def
  by (auto intro!: keeps_intros frame)

lemma invoke_keeps [frame]: "keeps P (invoke_handler ev n)"
  unfolding invoke_handler_def
  by (cases ev) (simp_all only: launchmon_event_e.case frame keeps_ret)

section \<open>Events\<close>

lemma in_context_keeps: "keeps P m \<Longrightarrow> keeps P (in_context k m)"
  unfolding in_context_def by (intro keeps_intros frame)

lemma lwp_event_keeps [frame]: "keeps P (handle_lwp_event k ev)"
  unfolding handle_lwp_event_def by (intro in_context_keeps keeps_intros frame)

lemma thread_event_keeps [frame]: "keeps P (thread_event k ev)"
  unfolding thread_event_def by (intro keeps_intros keeps_cond frame)

end

locale loop_frame = engine_frame +
  assumes fr_pdetach: "P s \<Longrightarrow> P (s\<lparr>please_detach := True\<rparr>)"
    and fr_pkill: "P s \<Longrightarrow> P (s\<lparr>please_kill := True\<rparr>)"
    and fr_reason: "P s \<Longrightarrow> P (s\<lparr>preason := r\<rparr>)"
    and fr_polls: "P s \<Longrightarrow> P (s\<lparr>fe_polls := pl\<rparr>)"
    and fr_reads: "P s \<Longrightarrow> P (s\<lparr>fe_reads := rest\<rparr>)"
    and fr_waits: "P s \<Longrightarrow> waits s = a # as \<Longrightarrow> P (s\<lparr>waits := as\<rparr>)"
begin

lemma stop_threads_keeps [frame]: "keeps P stop_threads"
proof -
  have "keeps P (stop_thread k)" for k
    unfolding stop_thread_def by (auto intro!: keeps_intros frame)
  then show ?thesis unfolding stop_threads_def by (intro keeps_intros)
qed

lemma request_keeps [frame]: "keeps P (request_detach r)" "keeps P (request_kill r)"
proof -
  have d: "keeps P (bindA (seqA [stop_threads, modA (\<lambda>s. s\<lparr>please_detach := True\<rparr>), modA (\<lambda>s. s\<lparr>preason := r\<rparr>)])
      (\<lambda>_. ret True))"
    by (auto intro!: keeps_intros frame fr_pdetach fr_reason)
  have k: "keeps P (bindA (seqA [stop_threads, modA (\<lambda>s. s\<lparr>please_kill := True\<rparr>), modA (\<lambda>s. s\<lparr>preason := r\<rparr>)])
      (\<lambda>_. ret True))"
    by (auto intro!: keeps_intros frame fr_pkill fr_reason)
  show "keeps P (request_detach r)"
    using d by (simp add: keeps_def request_detach_def ret_def)
  show "keeps P (request_kill r)"
    using k by (simp add: keeps_def request_kill_def ret_def)
qed

lemma cont_launch_keeps [frame]: "keeps P request_cont_launch_bp"
proof -
  have c: "keeps P (whenA b (seqA [ignA (make_context k), tracer_continue True, set_event_registered k False,
      ignA (check_and_undo_context k)]))" for b k
    by (auto intro!: keeps_intros frame)
  have "keeps P (cont_thread k)" for k
    by (rule keepsI)
      (auto simp: cont_thread_def ret_def simp del: seqA.simps intro: keepsD [OF c] split: option.split)
  then show ?thesis unfolding request_cont_launch_bp_def by (intro keeps_intros)
qed

lemma dispatch_keeps [frame]: "keeps P (dispatch_fe_msg t)"
  unfolding dispatch_fe_msg_def by (intro keeps_intros frame)

lemma socket_keeps [frame]: "keeps P handle_incoming_socket_event"
proof -
  have r: "keeps P (bindA (request_detach FE_disconnected) (\<lambda>_. ret LAUNCHMON_OK))"
    by (intro keeps_intros frame)
  show ?thesis
    unfolding handle_incoming_socket_event_def
    by (intro keeps_catchA keepsI)
      (auto simp: ret_def throw_def Let_def fr_polls fr_reads keepsD [OF r] keepsD [OF dispatch_keeps]
        split: option.split prod.split)
qed

lemma daemon_exit_keeps [frame]: "keeps P handle_daemon_exit_event"
proof -
  have "keeps P (bindA (whenA b (ignA (request_detach RM_BE_daemon_exited))) (\<lambda>_. ret LAUNCHMON_OK))" for b
    by (intro keeps_intros frame)
  from keepsD [OF this] show ?thesis
    unfolding handle_daemon_exit_event_def by (intro keeps_catchA keepsI)
qed

lemma process_event_keeps [frame]: "keeps P (process_event k ev)"
  unfolding process_event_def by (intro keeps_intros keeps_cond in_context_keeps frame)

lemma waitpid_keeps [frame]: "keeps P e_waitpid"
  by (auto simp: keeps_def e_waitpid_def ret_def throw_def fr_waits split: list.split)

lemma wait_for_all_keeps [frame]: "keeps P wait_for_all"
  unfolding wait_for_all_def by (intro keeps_intros frame)

lemma entity_event_keeps [frame]:
  "keeps P (case (got, en, i) of
      (True, Some EV_ENTITY_PROCESS, Some k) \<Rightarrow> process_event k ev
    | (True, Some EV_ENTITY_THREAD, Some k) \<Rightarrow> thread_event k ev
    | _ \<Rightarrow> ret LAUNCHMON_OK)"
  by (auto intro: frame split: option.split eventing_entity_e.split bool.split)

lemma poll_keeps [frame]: "keeps P poll_processes" "keeps P poll_FE_socket"
  unfolding poll_processes_def poll_FE_socket_def by (intro keeps_intros frame)+

lemma multiplex_keeps [frame]: "keeps P multiplex_events"
  unfolding multiplex_events_def by (intro keeps_intros frame)

lemma main_loop_keeps [frame]: "keeps P (main_loop n)"
  by (induction n) (auto intro!: keeps_intros frame)

lemma drain_keeps [frame]: "keeps P (drain_events n)"
  by (induction n) (auto intro!: keeps_intros frame)

lemma sighandler_keeps [frame]: "keeps P sighandler"
  unfolding sighandler_def by (auto intro!: keeps_intros frame)

end

section \<open>Instances\<close>

text \<open>The thread table: sorted, every thread filed under its own id with a full register set.\<close>

definition thread_table :: "engine \<Rightarrow> bool" where
  "thread_table s \<longleftrightarrow> map_inv (thrlist s) \<and>
     (\<forall>k t. map_find (thrlist s) k = Some t \<longrightarrow> thr2pid t = k \<and> length (gprset t) = REG_WORDS)"

lemma thread_table_cong: "thrlist s' = thrlist s \<Longrightarrow> thread_table s' = thread_table s"
  by (simp add: thread_table_def)

lemma put_bp_other [simp]:
  "thrlist (put_bp sl b s) = thrlist s" "engine_state (put_bp sl b s') = engine_state s'"
  "waits (put_bp sl b s') = waits s'" "fe_sent (put_bp sl b s') = fe_sent s'"
  by (cases sl; simp)+

lemma put_im_other [simp]:
  "thrlist (put_im im i s) = thrlist s" "engine_state (put_im im i s) = engine_state s"
  "waits (put_im im i s) = waits s" "fe_sent (put_im im i s) = fe_sent s"
  by (cases im; simp)+

interpretation threads: loop_frame thread_table
  by unfold_locales
    (auto simp: thread_table_def map_inv_set map_find_set map_inv_erase map_find_erase thr2pid_def
      linux_x86_thread0_def REG_WORDS_def split: if_splits)

interpretation mpir: loop_frame "\<lambda>s. engine_state s \<noteq> mpir_abort"
  by unfold_locales simp_all

interpretation answers: loop_frame "\<lambda>s. length (waits s) \<le> n" for n
  by unfold_locales simp_all

interpretation wire: loop_frame "\<lambda>s. \<exists>x. fe_sent s = base @ x" for base
  by unfold_locales auto

end
