(* ===== verification/Event_Loop.thy ===== *)
theory Event_Loop
  imports Engine_Frame
begin

text \<open>
  What holds of the whole event loop, from the frames of \<open>Engine_Frame\<close>: the invariants
  of its state, its termination, and how a session ends.
\<close>

section \<open>Every round uses up an answer\<close>

lemma e_waitpid_uses: "e_waitpid s = (Inr x, t) \<Longrightarrow> length (waits t) < length (waits s)"
  by (auto simp: e_waitpid_def ret_def throw_def split: list.splits)

lemma wait_for_all_uses: "wait_for_all s = (Inr x, t) \<Longrightarrow> length (waits t) < length (waits s)"
  by (auto simp: wait_for_all_def bindA_Inr ret_def split: if_splits dest!: e_waitpid_uses)

lemma poll_uses: "poll_processes s = (Inr go, t) \<Longrightarrow> length (waits t) < length (waits s)"
proof -
  assume "poll_processes s = (Inr go, t)"
  then obtain got ev u rc where w: "wait_for_all s = (Inr (got, ev), u)"
    and t: "(case (got, de_en ev, de_id ev) of
        (True, Some EV_ENTITY_PROCESS, Some k) \<Rightarrow> process_event k ev
      | (True, Some EV_ENTITY_THREAD, Some k) \<Rightarrow> thread_event k ev
      | _ \<Rightarrow> ret LAUNCHMON_OK) u = (Inr rc, t)"
    by (auto simp: poll_processes_def bindA_Inr ret_def)
  have "length (waits t) \<le> length (waits u)"
    using keepsD [OF answers.entity_event_keeps [where n = "length (waits u)" and got = got and en = "de_en ev" and i = "de_id ev" and ev = ev],
      of u]
    by (simp only: t snd_conv order_refl)
  with wait_for_all_uses [OF w] show ?thesis by simp
qed

lemma multiplex_uses: "multiplex_events s = (Inr True, t) \<Longrightarrow> length (waits t) < length (waits s)"
proof -
  assume "multiplex_events s = (Inr True, t)"
  then obtain u go where f: "poll_FE_socket s = (Inr True, u)" and p: "poll_processes u = (Inr go, t)"
    by (auto simp: multiplex_events_def bindA_Inr ret_def split: if_splits)
  have "length (waits u) \<le> length (waits s)"
    using keepsD [OF answers.poll_keeps(2) [where n = "length (waits s)"], of s] f by simp
  with poll_uses [OF p] show ?thesis by simp
qed

lemma main_loop_fuel: "length (waits s) < n \<Longrightarrow> length (waits s) < m \<Longrightarrow> main_loop n s = main_loop m s"
proof (induction n arbitrary: m s)
  case (Suc n)
  then obtain m' where m: "m = Suc m'" by (cases m) auto
  show ?case
  proof (cases "multiplex_events s")
    case (Pair r t)
    show ?thesis
    proof (cases "r = Inr True")
      case True
      then have "length (waits t) < length (waits s)" using Pair multiplex_uses by blast
      with Suc.prems m have "main_loop n t = main_loop m' t" by (intro Suc.IH) simp_all
      then show ?thesis using Pair True m by (simp add: bindA_def)
    next
      case False
      then show ?thesis using Pair m by (auto simp: bindA_def split: sum.split)
    qed
  qed
qed simp

text \<open>The main loop ends: as every round that goes on uses up at least one answer of
  \<open>waitpid\<close>, as many rounds as there are answers, plus one, are enough, and a larger bound
  gives the same result and the same state.\<close>

theorem main_loop_terminates:
  "main_loop (Suc (length (waits s)) + k) s = main_loop (Suc (length (waits s))) s"
  by (rule main_loop_fuel) simp_all

text \<open>The thread table stays well-formed through every run of the main loop and of the
  signal handler, whatever the kernel, the launcher and the front end do and whatever is
  thrown: it is sorted, and each thread is filed under the id its requests go to, with a
  full register set.\<close>

theorem thread_table_kept:
  assumes "thread_table s"
  shows "thread_table (snd (main_loop n s)) \<and> thread_table (snd (sighandler s))"
  using keepsD [OF threads.main_loop_keeps assms] keepsD [OF threads.sighandler_keeps assms] by blast

lemma demo_table: "thread_table demo_engine"
  by (simp add: thread_table_def demo_engine_def machine.defs engine.defs demo_machine_def map_inv_def map_keys_def
      thr2pid_def linux_x86_thread0_def)

theorem thread_table_kept_witness: "thread_table (snd (main_loop 3 demo_engine))"
  using thread_table_kept [OF demo_table] by blast

text \<open>The engine never reaches the state \<open>mpir_abort\<close>: on an abort of the job the handler
  passes the inner \<open>bdbg\<close>, 0, to \<open>set_engine_state\<close>, so what it records is
  \<open>mpir_null\<close>. Everything already sent to the front end stays a prefix of what is sent.\<close>

theorem never_mpir_abort:
  assumes "engine_state s \<noteq> mpir_abort"
  shows "engine_state (snd (main_loop n s)) \<noteq> mpir_abort \<and>
    (\<exists>x. fe_sent (snd (main_loop n s)) = fe_sent s @ x)"
  using keepsD [OF mpir.main_loop_keeps assms] keepsD [OF wire.main_loop_keeps [where base = "fe_sent s"], of s] by simp

lemma demo_start: "engine_state demo_engine \<noteq> mpir_abort"
  by (simp add: demo_engine_def engine.defs machine.defs)

theorem never_mpir_abort_witness: "engine_state (snd (main_loop 3 demo_engine)) \<noteq> mpir_abort"
  using never_mpir_abort [OF demo_start] by blast

end
