(* ===== verification/Bp_Refine.thy ===== *)
theory Bp_Refine
  imports Bp_Trap
begin

text \<open>
  Breakpoints as a refinement. The abstract memory of the launcher is the one its program
  would see without a tracer: every enabled breakpoint's word taken back. Enabling and
  disabling, with any failures of the kernel on the way, are no steps of the abstract
  memory, and a write of the engine beside the breakpoints is the same write of it.
\<close>

section \<open>Ranges of addresses\<close>

definition apart :: "u64 \<Rightarrow> nat \<Rightarrow> u64 \<Rightarrow> nat \<Rightarrow> bool" where
  "apart a n b m \<longleftrightarrow> n \<le> unat (b - a) \<and> m \<le> unat (a - b)"

lemma apart_disjoint: "apart a n b m \<Longrightarrow> unat (x - a) < n \<Longrightarrow> \<not> unat (x - b) < m"
proof
  assume ap: "apart a n b m" and i: "unat (x - a) < n" and j: "unat (x - b) < m"
  have d: "u - v = of_nat (unat u - unat v)" if "unat v \<le> unat u" for u v :: u64
    using that by (simp add: of_nat_diff)
  have u: "unat (of_nat (unat v - unat w) :: u64) = unat v - unat w" for v w :: u64
    using unat_byte_bounds(4) [of v] by (simp add: unat_of_nat)
  show False
  proof (cases "unat (x - b) \<le> unat (x - a)")
    case True
    have "b - a = (x - a) - (x - b)" by simp
    then have "unat (b - a) = unat (x - a) - unat (x - b)" using d [OF True] u by metis
    with ap i show False unfolding apart_def by linarith
  next
    case False
    have "a - b = (x - b) - (x - a)" by simp
    then have "unat (a - b) = unat (x - b) - unat (x - a)" using d [of "x - a" "x - b"] u False by (metis nat_le_linear)
    with ap j show False unfolding apart_def by linarith
  qed
qed

lemma mem_write_apart:
  "apart a (length bs) b (length cs) \<Longrightarrow> mem_write (mem_write m a bs) b cs = mem_write (mem_write m b cs) a bs"
  by (rule ext) (use apart_disjoint in \<open>auto simp: mem_write_def\<close>)

lemma mem_read_apart:
  assumes "apart a (length bs) b n" and "n \<le> 2 ^ 64"
  shows "mem_read (mem_write m a bs) b n = mem_read m b n"
proof (rule nth_equalityI)
  fix i assume "i < length (mem_read (mem_write m a bs) b n)"
  then have i: "i < n" by simp
  have "unat (b + of_nat i - b) < n" using i assms(2) unat_offset [of i b] by simp
  then have "\<not> unat (b + of_nat i - a) < length bs" using apart_disjoint [OF assms(1)] by blast
  then show "mem_read (mem_write m a bs) b n ! i = mem_read m b n ! i"
    using i by (simp add: nth_mem_read mem_write_def)
qed simp

section \<open>The abstract memory\<close>

definition un_trap :: "breakpoint option \<Rightarrow> (u64 \<Rightarrow> byte) \<Rightarrow> (u64 \<Rightarrow> byte)" where
  "un_trap ob m = (case ob of
     None \<Rightarrow> m
   | Some b \<Rightarrow> if is_enabled b then mem_write m (address_at b) (enc64 (orig_instruction b)) else m)"

definition program_memory :: "'a machine_scheme \<Rightarrow> int \<Rightarrow> (u64 \<Rightarrow> byte)" where
  "program_memory p lwp = un_trap (launch_hidden_bp p) (un_trap (loader_hidden_bp p) (kspace (krn p) lwp))"

text \<open>The two breakpoints are the engine's own and do not overlap.\<close>

definition bps_ok :: "'a process_base_t_scheme \<Rightarrow> bool" where
  "bps_ok p \<longleftrightarrow>
     (case launch_hidden_bp p of None \<Rightarrow> True | Some b \<Rightarrow> bp_x86 b) \<and>
     (case loader_hidden_bp p of None \<Rightarrow> True | Some b \<Rightarrow> bp_x86 b) \<and>
     (case (launch_hidden_bp p, loader_hidden_bp p) of
        (Some a, Some b) \<Rightarrow> apart (address_at a) 8 (address_at b) 8 | _ \<Rightarrow> True)"

datatype mem_op = Enable bp_slot | Disable bp_slot | Write u64 "byte list"

fun mem_step :: "bool \<Rightarrow> mem_op \<Rightarrow> ('a machine_scheme, unit) act" where
  "mem_step c (Enable sl) = catchA () (ignA (enable_breakpoint sl c True))"
| "mem_step c (Disable sl) = catchA () (ignA (disable_breakpoint sl c True))"
| "mem_step c (Write a bs) = tracer_write a bs c"

fun abs_step :: "mem_op \<Rightarrow> (u64 \<Rightarrow> byte) \<Rightarrow> (u64 \<Rightarrow> byte)" where
  "abs_step (Enable sl) m = m"
| "abs_step (Disable sl) m = m"
| "abs_step (Write a bs) m = mem_write m a bs"

text \<open>A write beside the breakpoints.\<close>

fun beside :: "'a process_base_t_scheme \<Rightarrow> mem_op \<Rightarrow> bool" where
  "beside p (Enable sl) = True"
| "beside p (Disable sl) = True"
| "beside p (Write a bs) =
     ((case launch_hidden_bp p of None \<Rightarrow> True | Some b \<Rightarrow> apart a (length bs) (address_at b) 8) \<and>
      (case loader_hidden_bp p of None \<Rightarrow> True | Some b \<Rightarrow> apart a (length bs) (address_at b) 8))"

section \<open>What an operation does, whatever its result\<close>

lemma tracer_write_word:
  "tracer_write a (enc64 w) c = bindA (get_pid c) (\<lambda>t.
     if \<not> range_ok a 8 then throw Undefined_behaviour
     else bindA (checked (Pptrace POKEDATA t a w)) (\<lambda>_. ret ()))"
proof -
  have t8: "take 8 (enc64 w) = enc64 w" by simp
  have w: "write_words t a (enc64 w) (Suc 0) = bindA (checked (Pptrace POKEDATA t a w)) (\<lambda>r. ret ())" for t :: int
    by (simp only: write_words.simps t8 dec_enc)
  have d: "length (enc64 w) div 8 = Suc 0" "drop (8 * Suc 0) (enc64 w) = []" "int (length (enc64 w)) = 8"
    by simp_all
  have r: "bindA (bindA m (\<lambda>_. ret ())) (\<lambda>_. ret ()) = bindA m (\<lambda>_. ret ())" for m :: "('a machine_scheme, u64) act"
    by (simp add: bindA_def ret_def fun_eq_iff split: prod.split sum.split)
  show ?thesis
    by (simp only: tracer_write_def Let_def d w if_True refl r cong: if_cong)
qed

lemma write_word_fail:
  assumes "tracer_write a (enc64 w) c p = (r, q)" and "r \<noteq> Inr ()"
  shows "quiet p q"
proof -
  obtain g p1 where g: "get_pid c p = (g, p1)" by fastforce
  then have p1: "p1 = p" by (rule get_pid_state)
  show ?thesis
  proof (cases g)
    case (Inl e)
    then show ?thesis using assms(1) g p1 by (simp add: tracer_write_word bindA_def)
  next
    case (Inr t)
    then show ?thesis using assms g p1
      by (cases "kfail (krn p) (kcount (krn p))")
        (auto simp: tracer_write_word bindA_def throw_def ret_def checked_poke split: if_splits intro: quietI)
  qed
qed

text \<open>The breakpoint in the slot, the memory and what decides the addressed thread.\<close>

definition same_ctx :: "'a machine_scheme \<Rightarrow> 'a machine_scheme \<Rightarrow> bool" where
  "same_ctx p q \<longleftrightarrow> thrlist q = thrlist p \<and> thread_ctx_stack q = thread_ctx_stack p \<and>
     new_child_pid q = new_child_pid p \<and> kvm (krn q) = kvm (krn p)"

lemma same_ctx_simps [simp]: "same_ctx p p" "same_ctx p (put_bp s b q) = same_ctx p q"
  by (simp_all add: same_ctx_def)

lemma same_ctx_trans: "same_ctx p q \<Longrightarrow> same_ctx q r \<Longrightarrow> same_ctx p r"
  by (simp add: same_ctx_def)

lemma same_ctx_quiet: "quiet p q \<Longrightarrow> same_ctx p q"
  by (elim quietD) (simp add: same_ctx_def)

lemma same_ctx_wrote: "wrote m p q \<Longrightarrow> same_ctx p q"
  by (elim wroteD) (simp add: same_ctx_def)

lemma same_ctx_get_pid: "same_ctx p q \<Longrightarrow> get_pid c p = (Inr lwp, p) \<Longrightarrow> get_pid c q = (Inr lwp, q)"
  by (auto simp: same_ctx_def get_pid_def get_master_thread_pid_def act_simps split: if_splits list.splits option.splits)

fun other :: "bp_slot \<Rightarrow> bp_slot" where
  "other launch_bp = loader_bp"
| "other loader_bp = launch_bp"

lemma get_other_put [simp]: "get_bp (other s) (put_bp s b p) = get_bp (other s) p"
  by (cases s; simp)

lemma get_bp_other_quiet: "quiet p q \<Longrightarrow> get_bp s q = get_bp s p"
  by (rule get_bp_quiet)

text \<open>The memory of \<open>p\<close> and \<open>q\<close> is the same, and a breakpoint may only have a new
  saved word while it is not enabled.\<close>

definition stutter :: "bp_slot \<Rightarrow> 'a machine_scheme \<Rightarrow> 'a machine_scheme \<Rightarrow> bool" where
  "stutter s p q \<longleftrightarrow> kmem (krn q) = kmem (krn p) \<and>
     (get_bp s q = get_bp s p \<or>
      (\<exists>b w. get_bp s p = Some b \<and> \<not> is_enabled b \<and> get_bp s q = Some (b\<lparr>orig_instruction := w\<rparr>)))"

definition planted :: "bp_slot \<Rightarrow> int \<Rightarrow> 'a machine_scheme \<Rightarrow> 'a machine_scheme \<Rightarrow> bool" where
  "planted s lwp p q \<longleftrightarrow> (\<exists>b. get_bp s p = Some b \<and> \<not> is_enabled b \<and>
     kmem (krn q) = (kmem (krn p))(kvm (krn p) lwp := (kspace (krn p) lwp)(address_at b := 0xcc)) \<and>
     get_bp s q = Some (b\<lparr>orig_instruction := dec64 (mem_read (kspace (krn p) lwp) (address_at b) 8),
       bp_status := bp_enabled\<rparr>))"

lemma quiet_kmem: "quiet p q \<Longrightarrow> kmem (krn q) = kmem (krn p)"
  by (elim quietD) simp

lemma enable_effect:
  assumes e: "enable_breakpoint s c True p = (r, q)" and g: "get_pid c p = (Inr lwp, p)"
    and x: "\<And>b. get_bp s p = Some b \<Longrightarrow> bp_x86 b"
  shows "same_ctx p q \<and> get_bp (other s) q = get_bp (other s) p \<and> (stutter s p q \<or> planted s lwp p q)"
proof (cases "get_bp s p")
  case None
  then have "q = p" using e by (simp add: enable_breakpoint_def bindA_def the_bp_def throw_def)
  then show ?thesis by (simp add: stutter_def)
next
  case (Some b)
  show ?thesis
  proof (cases "is_set b \<or> is_disabled b")
    case False
    then have "q = p" using e Some by (simp add: enable_breakpoint_def bindA_def the_bp_def ret_def)
    then show ?thesis by (simp add: stutter_def)
  next
    case st: True
    have ne: "\<not> is_enabled b" using st by (auto simp: bp_status_simps)
    have st': "\<not> (\<not> is_set b \<and> \<not> is_disabled b)" using st by blast
    have ui: "\<not> use_indirection b" using x [OF Some] by (simp add: bp_x86_def)
    then have t: "bp_target b = address_at b" "\<And>w. bp_target (b\<lparr>orig_instruction := w\<rparr>) = address_at b"
      by (simp_all add: bp_target_def)
    obtain r1 p1 where r1: "tracer_read (address_at b) 8 c p = (r1, p1)" by fastforce
    note q1 = tracer_read_quiet [OF r1]
    have b1: "get_bp s p1 = Some b" "get_bp (other s) p1 = get_bp (other s) p"
      using get_bp_quiet [OF q1] Some by simp_all
    show ?thesis
    proof (cases r1)
      case (Inl ex)
      then have "q = p1" using e Some ui r1
        by (simp add: enable_breakpoint_def bindA_def the_bp_def ret_def whenA_def t st')
      then show ?thesis using q1 b1 Some by (simp add: stutter_def same_ctx_quiet quiet_kmem)
    next
      case (Inr bs)
      let ?b = "b\<lparr>orig_instruction := dec64 bs\<rparr>"
      let ?p2 = "put_bp s (Some ?b) p1"
      obtain r3 p3 where w: "tracer_write (address_at b) (enc64 (bp_blend ?b)) c ?p2 = (r3, p3)" by fastforce
      have c2: "same_ctx p ?p2" using same_ctx_quiet [OF q1] by simp
      show ?thesis
      proof (cases "r3 = Inr ()")
        case False
        note q3 = write_word_fail [OF w False]
        have "q = p3" using e Some ui r1 Inr w b1 False
          by (cases r3) (simp_all add: enable_breakpoint_def bindA_def the_bp_def ret_def whenA_def upd_bp_def modA_def t st')
        then show ?thesis
          using same_ctx_trans [OF c2 same_ctx_quiet [OF q3]] get_bp_quiet [OF q3] quiet_kmem [OF q3]
            quiet_kmem [OF q1] b1 Some ne by (auto simp: stutter_def)
      next
        case True
        have g2: "get_pid c ?p2 = (Inr lwp, ?p2)" using same_ctx_get_pid [OF c2 g] .
        note wr = tracer_write_spec [OF w [unfolded True] g2]
        have b3: "get_bp s p3 = Some ?b" using get_bp_wrote [OF wr] by simp
        have "r = Inr SDBG_TRACE_OK \<and> q = put_bp s (Some (snd (bp_do_enable ?b))) p3"
          using e Some ui r1 Inr w b1 True b3
          by (simp add: enable_breakpoint_def bindA_def the_bp_def ret_def whenA_def upd_bp_def modA_def t st')
        then have q: "r = Inr SDBG_TRACE_OK" "q = put_bp s (Some (snd (bp_do_enable ?b))) p3" by simp_all
        have "planted s lwp p q"
          using enable_plants [OF e [unfolded q(1)] Some x [OF Some] g] Some ne
          by (simp add: planted_def)
        then show ?thesis
          using same_ctx_trans [OF c2 same_ctx_wrote [OF wr]] get_bp_wrote [OF wr] b1 q(2) by simp
      qed
    qed
  qed
qed

lemma disable_effect:
  assumes e: "disable_breakpoint s c True p = (r, q)" and g: "get_pid c p = (Inr lwp, p)"
    and x: "\<And>b. get_bp s p = Some b \<Longrightarrow> bp_x86 b"
  shows "same_ctx p q \<and> get_bp (other s) q = get_bp (other s) p \<and>
    (stutter s p q \<or> (\<exists>b. get_bp s p = Some b \<and> is_enabled b \<and> get_bp s q = Some (b\<lparr>bp_status := bp_disabled\<rparr>) \<and>
       kmem (krn q) = (kmem (krn p))(kvm (krn p) lwp :=
         mem_write (kspace (krn p) lwp) (address_at b) (enc64 (orig_instruction b)))))"
proof (cases "get_bp s p")
  case None
  then have "q = p" using e by (simp add: disable_breakpoint_def bindA_def the_bp_def throw_def)
  then show ?thesis by (simp add: stutter_def)
next
  case (Some b)
  have ui: "\<not> use_indirection b" using x [OF Some] by (simp add: bp_x86_def)
  then have t: "bp_target b = address_at b" by (simp add: bp_target_def)
  show ?thesis
  proof (cases "is_enabled b")
    case False
    then have "q = p" using e Some by (simp add: disable_breakpoint_def bindA_def the_bp_def ret_def)
    then show ?thesis by (simp add: stutter_def)
  next
    case en: True
    obtain r3 p3 where w: "tracer_write (address_at b) (enc64 (orig_instruction b)) c p = (r3, p3)" by fastforce
    show ?thesis
    proof (cases "r3 = Inr ()")
      case False
      note q3 = write_word_fail [OF w False]
      have "q = p3" using e Some en w False t
        by (cases r3) (simp_all add: disable_breakpoint_def bindA_def the_bp_def ret_def)
      then show ?thesis
        using same_ctx_quiet [OF q3] get_bp_quiet [OF q3] quiet_kmem [OF q3] by (simp add: stutter_def)
    next
      case True
      note wr = tracer_write_spec [OF w [unfolded True] g]
      have b3: "get_bp s p3 = Some b" using get_bp_wrote [OF wr] Some by simp
      have q: "r = Inr SDBG_TRACE_OK \<and> q = put_bp s (Some (snd (bp_do_disable b))) p3"
        using e Some en w True b3 t
        by (simp add: disable_breakpoint_def bindA_def the_bp_def ret_def whenA_def upd_bp_def modA_def)
      then show ?thesis
        using same_ctx_wrote [OF wr] get_bp_wrote [OF wr] disable_breakpoint_OK [OF e [THEN trans] Some ui g] Some en
          disable_breakpoint_OK [of s c True p q b lwp] e ui g by auto
    qed
  qed
qed


section \<open>The refinement\<close>

definition shape :: "bp_slot \<Rightarrow> 'a process_base_t_scheme \<Rightarrow> (u64 \<times> bool) option" where
  "shape s p = map_option (\<lambda>b. (address_at b, bp_x86 b)) (get_bp s p)"

lemma shape_cong:
  assumes "shape s q = shape s p" and "shape (other s) q = shape (other s) p"
  shows "bps_ok q = bps_ok p" "beside q op = beside p op"
proof -
  have l: "shape launch_bp q = shape launch_bp p" "shape loader_bp q = shape loader_bp p"
    using assms by (cases s; simp)+
  show "bps_ok q = bps_ok p"
    using l by (auto simp: shape_def bps_ok_def split: option.splits)
  show "beside q op = beside p op"
    using l by (cases op) (auto simp: shape_def split: option.splits)
qed

lemma bps_okD:
  assumes "bps_ok p"
  shows "get_bp s p = Some b \<Longrightarrow> bp_x86 b"
    "get_bp s p = Some b \<Longrightarrow> get_bp (other s) p = Some d \<Longrightarrow> apart (address_at b) 8 (address_at d) 8"
  using assms by (cases s; simp add: bps_ok_def apart_def split: option.splits)+

lemma un_trap_write_apart:
  "(\<And>b. o' = Some b \<Longrightarrow> apart a (length bs) (address_at b) 8) \<Longrightarrow>
   un_trap o' (mem_write m a bs) = mem_write (un_trap o' m) a bs"
proof (cases o')
  case (Some d)
  assume "\<And>b. o' = Some b \<Longrightarrow> apart a (length bs) (address_at b) 8"
  with Some have "apart a (length bs) (address_at d) (length (enc64 (orig_instruction d)))" by simp
  from mem_write_apart [OF this] Some show ?thesis by (simp add: un_trap_def)
qed (simp add: un_trap_def)

lemma program_memory_slot:
  assumes "bps_ok p"
  shows "program_memory p lwp = un_trap (get_bp s p) (un_trap (get_bp (other s) p) (kspace (krn p) lwp))"
proof (cases s)
  case loader_bp
  have "un_trap (launch_hidden_bp p) (un_trap (loader_hidden_bp p) m) =
      un_trap (loader_hidden_bp p) (un_trap (launch_hidden_bp p) m)" for m
  proof (cases "loader_hidden_bp p")
    case (Some d)
    then show ?thesis
      using bps_okD(2) [OF assms, of loader_bp d]
      by (subst (1 2) un_trap_def) (auto simp: un_trap_write_apart)
  qed (simp add: un_trap_def)
  then show ?thesis using loader_bp by (simp add: program_memory_def)
qed (simp add: program_memory_def)

lemma plant_back: "mem_write (m(a := x)) a (mem_read m a 8) = m"
proof
  fix y
  have "mem_read m a 8 ! unat (y - a) = m y" if "unat (y - a) < 8"
    using that by (simp add: nth_mem_read)
  then show "mem_write (m(a := x)) a (mem_read m a 8) y = m y"
    by (auto simp: mem_write_def)
qed

lemma stutter_memory:
  assumes "stutter s p q" and "same_ctx p q" and "get_bp (other s) q = get_bp (other s) p"
  shows "shape s q = shape s p" "kspace (krn q) lwp = kspace (krn p) lwp" "un_trap (get_bp s q) m = un_trap (get_bp s p) m"
  using assms by (auto simp: stutter_def same_ctx_def kspace_def shape_def un_trap_def bp_x86_def is_enabled_def)

lemma enable_refines:
  assumes "bps_ok p" and "get_pid c p = (Inr lwp, p)"
    and q_def: "q = snd (enable_breakpoint s c True p)"
  shows "same_ctx p q \<and> bps_ok q \<and> beside q = beside p \<and> program_memory q lwp = program_memory p lwp"
proof -
  obtain r where e: "enable_breakpoint s c True p = (r, q)" by (metis prod.collapse q_def)
  have x: "bp_x86 b" if "get_bp s p = Some b" for b using bps_okD(1) [OF assms(1) that] .
  note ef = enable_effect [OF e assms(2) x]
  have sh: "shape s q = shape s p" "shape (other s) q = shape (other s) p"
    using ef by (auto simp: stutter_def planted_def shape_def bp_x86_def)
  have ok: "bps_ok q" using shape_cong(1) [OF sh] assms(1) by simp
  have "program_memory q lwp = program_memory p lwp"
  proof (cases "stutter s p q")
    case True
    then show ?thesis
      using ef stutter_memory [OF True] program_memory_slot [OF ok, of lwp s] program_memory_slot [OF assms(1), of lwp s]
      by simp
  next
    case False
    let ?m = "kspace (krn p) lwp"
    obtain b where b: "get_bp s p = Some b" "\<not> is_enabled b"
      and k: "kmem (krn q) = (kmem (krn p))(kvm (krn p) lwp := ?m(address_at b := 0xcc))"
      and bq: "get_bp s q = Some (b\<lparr>orig_instruction := dec64 (mem_read ?m (address_at b) 8), bp_status := bp_enabled\<rparr>)"
      using ef False by (auto simp: planted_def)
    have kq: "kspace (krn q) lwp = ?m(address_at b := 0xcc)"
      using ef k by (simp add: kspace_def same_ctx_def)
    have "mem_write (un_trap (get_bp (other s) p) (?m(address_at b := 0xcc))) (address_at b) (mem_read ?m (address_at b) 8) =
        un_trap (get_bp (other s) p) (mem_write (?m(address_at b := 0xcc)) (address_at b) (mem_read ?m (address_at b) 8))"
      using bps_okD(2) [OF assms(1) b(1)] by (intro un_trap_write_apart [symmetric]) simp
    then show ?thesis
      using ef b(2) by (simp add: program_memory_slot [OF ok, of lwp s] program_memory_slot [OF assms(1), of lwp s]
        kq bq b(1) plant_back) (simp add: un_trap_def is_enabled_def enc64_dec64)
  qed
  then show ?thesis using ef ok shape_cong(2) [OF sh] by auto
qed

lemma disable_refines:
  assumes "bps_ok p" and "get_pid c p = (Inr lwp, p)"
    and q_def: "q = snd (disable_breakpoint s c True p)"
  shows "same_ctx p q \<and> bps_ok q \<and> beside q = beside p \<and> program_memory q lwp = program_memory p lwp"
proof -
  obtain r where e: "disable_breakpoint s c True p = (r, q)" by (metis prod.collapse q_def)
  have x: "bp_x86 b" if "get_bp s p = Some b" for b using bps_okD(1) [OF assms(1) that] .
  note ef = disable_effect [OF e assms(2) x]
  have sh: "shape s q = shape s p" "shape (other s) q = shape (other s) p"
    using ef by (auto simp: stutter_def shape_def bp_x86_def)
  have ok: "bps_ok q" using shape_cong(1) [OF sh] assms(1) by simp
  have "program_memory q lwp = program_memory p lwp"
  proof (cases "stutter s p q")
    case True
    then show ?thesis
      using ef stutter_memory [OF True] program_memory_slot [OF ok, of lwp s] program_memory_slot [OF assms(1), of lwp s]
      by simp
  next
    case False
    let ?m = "kspace (krn p) lwp"
    obtain b where b: "get_bp s p = Some b" "is_enabled b"
      and k: "kmem (krn q) = (kmem (krn p))(kvm (krn p) lwp :=
        mem_write ?m (address_at b) (enc64 (orig_instruction b)))"
      and bq: "get_bp s q = Some (b\<lparr>bp_status := bp_disabled\<rparr>)"
      using ef False by auto
    have kq: "kspace (krn q) lwp = mem_write ?m (address_at b) (enc64 (orig_instruction b))"
      using ef k by (simp add: kspace_def same_ctx_def)
    have "un_trap (get_bp (other s) p) (mem_write ?m (address_at b) (enc64 (orig_instruction b))) =
        mem_write (un_trap (get_bp (other s) p) ?m) (address_at b) (enc64 (orig_instruction b))"
      using bps_okD(2) [OF assms(1) b(1)] by (intro un_trap_write_apart) simp
    then show ?thesis
      using ef b(2) by (simp add: program_memory_slot [OF ok, of lwp s] program_memory_slot [OF assms(1), of lwp s]
        kq bq b(1)) (simp add: un_trap_def is_enabled_def)
  qed
  then show ?thesis using ef ok shape_cong(2) [OF sh] by auto
qed

lemma write_refines:
  assumes "tracer_write a bs c p = (Inr (), q)" and "get_pid c p = (Inr lwp, p)" and "beside p (Write a bs)"
  shows "same_ctx p q \<and> bps_ok q = bps_ok p \<and> beside q = beside p \<and>
    program_memory q lwp = mem_write (program_memory p lwp) a bs"
proof -
  note wr = tracer_write_spec [OF assms(1,2)]
  have b: "get_bp s q = get_bp s p" for s using get_bp_wrote [OF wr] .
  have sh: "shape s q = shape s p" for s using b by (simp add: shape_def)
  have k: "kspace (krn q) lwp = mem_write (kspace (krn p) lwp) a bs"
    using wr by (auto elim!: wroteD)
  have "un_trap (get_bp s p) (mem_write m a bs) = mem_write (un_trap (get_bp s p) m) a bs" for s m
    using assms(3) by (intro un_trap_write_apart) (cases s; simp)
  from this [of launch_bp] this [of loader_bp] b [of launch_bp] b [of loader_bp]
  have "program_memory q lwp = mem_write (program_memory p lwp) a bs"
    by (simp add: program_memory_def k)
  then show ?thesis
    using same_ctx_wrote [OF wr] shape_cong [OF sh [of launch_bp] sh] by auto
qed


lemma mem_step_refines:
  assumes "mem_step c x p = (Inr (), q)" and "bps_ok p" and "get_pid c p = (Inr lwp, p)" and "beside p x"
  shows "same_ctx p q \<and> bps_ok q \<and> beside q = beside p \<and>
    program_memory q lwp = abs_step x (program_memory p lwp)"
proof (cases x)
  case (Enable sl)
  then have "q = snd (enable_breakpoint sl c True p)"
    using assms(1) by (auto simp: catchA_def ignA_def bindA_def ret_def split: prod.splits sum.splits if_splits)
  from enable_refines [OF assms(2,3) this] Enable show ?thesis by simp
next
  case (Disable sl)
  then have "q = snd (disable_breakpoint sl c True p)"
    using assms(1) by (auto simp: catchA_def ignA_def bindA_def ret_def split: prod.splits sum.splits if_splits)
  from disable_refines [OF assms(2,3) this] Disable show ?thesis by simp
next
  case (Write a bs)
  then show ?thesis using write_refines [of a bs c p q lwp] assms by simp
qed

text \<open>C7: (refinement) The breakpoints are invisible in the abstract memory: after any sequence of enabling
  and disabling the two breakpoints, with exceptions caught as the handlers catch them, and
  of writes beside them, the memory with every enabled trap taken back is the one that the
  writes alone make of it.\<close>

theorem breakpoints_refine:
  assumes "forA (mem_step c) ops p = (Inr (), q)" and "bps_ok p" and "get_pid c p = (Inr lwp, p)"
    and "\<forall>x \<in> set ops. beside p x"
  shows "program_memory q lwp = fold abs_step ops (program_memory p lwp)"
  using assms
proof (induction ops arbitrary: p)
  case Nil
  then show ?case by (simp add: ret_def)
next
  case (Cons x ops)
  from Cons.prems(1) obtain p1 where s: "mem_step c x p = (Inr (), p1)" and r: "forA (mem_step c) ops p1 = (Inr (), q)"
    by (auto simp: bindA_Inr)
  from Cons.prems(4) have "beside p x" by simp
  note st = mem_step_refines [OF s Cons.prems(2,3) this]
  have "program_memory q lwp = fold abs_step ops (program_memory p1 lwp)"
    using st r Cons.prems(4) same_ctx_get_pid [OF _ Cons.prems(3)] by (intro Cons.IH) auto
  then show ?case using st by simp
qed

lemma demo_bps_ok: "bps_ok demo_machine" "beside demo_machine (Write 0x600000 [1, 2])"
  using demo_bp_x86(1) by (simp_all add: bps_ok_def demo_machine_def demo_bp_def apart_def bp_do_set_def linux_breakpoint0_def)

theorem breakpoints_refine_witness:
  "\<exists>q. forA (mem_step True) [Enable launch_bp, Write 0x600000 [1, 2]] demo_machine = (Inr (), q) \<and>
     kmem (krn demo_enabled) 1 0x400000 = 0xcc \<and> program_memory q 42 0x400000 = 0 \<and> program_memory q 42 0x600001 = 2"
proof -
  obtain q where w: "tracer_write 0x600000 [1, 2] True demo_enabled = (Inr (), q)"
    using tracer_write_live [OF demo_enabled_run(2) _ demo_enabled_run(3), of "0x600000" "[1, 2]"]
    by (auto simp: range_ok_def)
  have r: "forA (mem_step True) [Enable launch_bp, Write 0x600000 [1, 2]] demo_machine = (Inr (), q)"
    using demo_enabled_run(1) w by (simp add: bindA_def catchA_def ignA_def ret_def)
  have "\<forall>x \<in> set [Enable launch_bp, Write 0x600000 [1, 2]]. beside demo_machine x"
    using demo_bps_ok(2) by simp
  note b = breakpoints_refine [OF r demo_bps_ok(1) demo_machine_pid this]
  have p: "program_memory demo_machine 42 = (\<lambda>a. ucast a)"
    by (simp add: program_memory_def un_trap_def is_enabled_def kspace_def demo_machine_def bp_do_set_def
        linux_breakpoint0_def)
  have "kmem (krn demo_enabled) 1 0x400000 = 0xcc"
    using enable_plants(1) [OF demo_enabled_run(1) demo_bp_x86(3,1) demo_machine_pid]
    by (simp add: demo_bp_x86 demo_machine_def kspace_def)
  then show ?thesis using r b by (simp add: p mem_write_def)
qed


end
