(* ===== verification/Proctab_Fetch.thy ===== *)
theory Proctab_Fetch
  imports Engine_Frame Bp_Refine
begin

text \<open>
  The process table from the launcher's memory to the front end: what
  \<open>acquire_proctable\<close> reads is the table \<open>MPIR_proctable\<close> describes, and what the
  front end parses out of the message \<open>ship_proctab_msg\<close> sends next is that table.
\<close>

section \<open>The table in the launcher's memory\<close>

definition string_at :: "(u64 \<Rightarrow> byte) \<Rightarrow> u64 \<Rightarrow> string \<Rightarrow> bool" where
  "string_at m a v \<longleftrightarrow> nul_free v \<and> length v < nat MAX_STRING_SIZE \<and> range_ok a MAX_STRING_SIZE \<and>
     mem_read m a (length v + 1) = cstr v"

definition job_at :: "(u64 \<Rightarrow> byte) \<Rightarrow> u64 \<Rightarrow> MPIR_PROCDESC list \<Rightarrow> bool" where
  "job_at m loc ts \<longleftrightarrow> range_ok loc (int (MPIR_PROCDESC_SIZE * length ts)) \<and> MPIR_PROCDESC_SIZE * length ts < 2 ^ 31 \<and>
     (\<forall>i < length ts.
        let e = mem_read m (loc + of_nat (MPIR_PROCDESC_SIZE * i)) MPIR_PROCDESC_SIZE in
        string_at m (dec64 (take 8 e)) (host_name (ts ! i)) \<and>
        string_at m (dec64 (take 8 (drop 8 e))) (executable_name (ts ! i)) \<and>
        dec32 (take 4 (drop 16 e)) = pid (ts ! i))"

definition entry_of :: "MPIR_PROCDESC list \<Rightarrow> nat \<Rightarrow> MPIR_PROCDESC_EXT" where
  "entry_of ts i = \<lparr>pd = ts ! i, mpirank = of_nat i, cnodeid = -1\<rparr>"

definition table_of :: "MPIR_PROCDESC list \<Rightarrow> proctable \<Rightarrow> proctable" where
  "table_of ts tab = fold (\<lambda>e. map_push (host_name (pd e)) e) (map (entry_of ts) [0..<length ts]) tab"

text \<open>The relocated address of the symbol \<open>find_symbol\<close> finds.\<close>

definition sym_addr :: "engine \<Rightarrow> string \<Rightarrow> u64 option" where
  "sym_addr s name = (case myimage s of
     None \<Rightarrow> None
   | Some i \<Rightarrow> relocated_address (let d = get_a_symbol i name in
       case myrmso_image s of Some r \<Rightarrow> if sym_null d then get_a_symbol r name else d | None \<Rightarrow> d))"

lemma find_addr:
  assumes "sym_addr s name = Some a"
  shows "bindA (find_symbol name) (\<lambda>d. bindA (get_relocated_address d) f) s = f a s"
  using assms
  by (auto simp: sym_addr_def find_symbol_def get_relocated_address_def the_im_def bindA_def Let_def ret_def
      split: option.splits if_splits)

section \<open>Reading it\<close>

text \<open>Reads leave the engine as it is but for the kernel's counter and \<open>errno\<close>.\<close>

lemma quiet_reads:
  "quiet p q \<Longrightarrow> reliable p \<Longrightarrow> get_pid c p = (Inr lwp, p) \<Longrightarrow>
   reliable q \<and> get_pid c q = (Inr lwp, q) \<and> kspace (krn q) = kspace (krn p)"
  using reliable_quiet get_pid_quiet quiet_kspace by blast

lemma read_name:
  assumes "reliable s" and "get_pid c s = (Inr lwp, s)" and "string_at (kspace (krn s) lwp) a v"
  shows "\<exists>bs q. tracer_read_string a MAX_STRING_SIZE c s = (Inr bs, q) \<and> quiet s q \<and> buf_cstr bs = ret v"
proof -
  have at: "range_ok a MAX_STRING_SIZE" "nul_free v" "mem_read (kspace (krn s) lwp) a (length v + 1) = cstr v"
    "length v < nat MAX_STRING_SIZE"
    using assms(3) by (simp_all add: string_at_def)
  obtain bs q where "tracer_read_string a MAX_STRING_SIZE c s = (Inr bs, q)" "quiet s q" "read_cstr bs 0 = Some v"
    using tracer_read_string_cstr [OF assms(1) at(1) assms(2) at(2,3)] at(4) by auto
  then show ?thesis by (auto simp: buf_cstr_def)
qed

lemma fetch_entry_spec:
  assumes "reliable s" and "get_pid c s = (Inr lwp, s)" and "job_at (kspace (krn s) lwp) loc ts" and "i < length ts"
    and "tab = mem_read (kspace (krn s) lwp) loc (MPIR_PROCDESC_SIZE * length ts)"
  shows "\<exists>q. fetch_entry tab c i s = (Inr (), q\<lparr>proctable_copy :=
           map_push (host_name (ts ! i)) (entry_of ts i) (proctable_copy s)\<rparr>) \<and> quiet s q"
proof -
  let ?m = "kspace (krn s) lwp" and ?S = MPIR_PROCDESC_SIZE
  define e where "e = mem_read ?m (loc + of_nat (?S * i)) ?S"
  have split: "?S * length ts = ?S * i + (?S + ?S * (length ts - Suc i))"
    using assms(4) by (simp add: MPIR_PROCDESC_SIZE_def)
  have e: "take ?S (drop (?S * i) tab) = e"
    unfolding assms(5) by (subst split, subst mem_read_add)
      (simp add: take_mem_read e_def)
  have at: "string_at ?m (dec64 (take 8 e)) (host_name (ts ! i))"
    "string_at ?m (dec64 (take 8 (drop 8 e))) (executable_name (ts ! i))" "dec32 (take 4 (drop 16 e)) = pid (ts ! i)"
    using assms(3,4) by (simp_all add: job_at_def e_def Let_def)
  obtain hb q1 where h: "tracer_read_string (dec64 (take 8 e)) MAX_STRING_SIZE c s = (Inr hb, q1)" "quiet s q1"
    "(buf_cstr hb :: string eng) = ret (host_name (ts ! i))"
    using read_name [OF assms(1,2) at(1)] by blast
  have k1: "reliable q1" "get_pid c q1 = (Inr lwp, q1)"
    "string_at (kspace (krn q1) lwp) (dec64 (take 8 (drop 8 e))) (executable_name (ts ! i))"
    using quiet_reads [OF h(2) assms(1,2)] at(2) by simp_all
  obtain eb q2 where x: "tracer_read_string (dec64 (take 8 (drop 8 e))) MAX_STRING_SIZE c q1 = (Inr eb, q2)"
    "quiet q1 q2" "(buf_cstr eb :: string eng) = ret (executable_name (ts ! i))"
    using read_name [OF k1] by blast
  have eta: "\<lparr>host_name = host_name t, executable_name = executable_name t, pid = pid t\<rparr> = t" for t :: MPIR_PROCDESC
    by (cases t) simp
  have len: "length e = ?S" by (simp add: e_def)
  have pc: "proctable_copy q2 = proctable_copy s"
    using h(2) x(2) by (auto elim!: quietD)
  have "fetch_entry tab c i s = (Inr (), q2\<lparr>proctable_copy :=
      map_push (host_name (ts ! i)) (entry_of ts i) (proctable_copy s)\<rparr>)"
    unfolding fetch_entry_def Let_def e
    by (simp add: len bindA_def h(1,3) x(1,3) ret_def modA_def pc at(3) entry_of_def eta)
  moreover have "quiet s q2" using quiet_trans h(2) x(2) by blast
  ultimately show ?thesis by blast
qed

lemma fetch_entries_spec:
  assumes "reliable s" and "get_pid c s = (Inr lwp, s)" and "job_at (kspace (krn s) lwp) loc ts" and "i + n \<le> length ts"
    and "tab = mem_read (kspace (krn s) lwp) loc (MPIR_PROCDESC_SIZE * length ts)"
  shows "\<exists>q. fetch_entries tab c i n s = (Inr (), q\<lparr>proctable_copy :=
           fold (\<lambda>e. map_push (host_name (pd e)) e) (map (entry_of ts) [i..<i + n]) (proctable_copy s)\<rparr>) \<and> quiet s q"
  using assms
proof (induction n arbitrary: i s)
  case 0
  have "quiet s s" by simp
  moreover have "s = s\<lparr>proctable_copy := proctable_copy s\<rparr>" by simp
  ultimately show ?case by (auto simp: ret_def intro!: exI [of _ s])
next
  case (Suc n)
  obtain q where f: "fetch_entry tab c i s = (Inr (), q\<lparr>proctable_copy :=
      map_push (host_name (ts ! i)) (entry_of ts i) (proctable_copy s)\<rparr>)" "quiet s q"
    using fetch_entry_spec [OF Suc.prems(1,2,3) _ Suc.prems(5), of i] Suc.prems(4) by auto
  let ?t = "q\<lparr>proctable_copy := map_push (host_name (ts ! i)) (entry_of ts i) (proctable_copy s)\<rparr>"
  note k = quiet_reads [OF f(2) Suc.prems(1,2)]
  have g: "get_pid c ?t = (Inr lwp, ?t)"
    using k by (auto simp: get_pid_def get_master_thread_pid_def act_simps split: if_splits list.splits option.splits)
  have t: "reliable ?t" "get_pid c ?t = (Inr lwp, ?t)" "job_at (kspace (krn ?t) lwp) loc ts" "Suc i + n \<le> length ts"
    "tab = mem_read (kspace (krn ?t) lwp) loc (MPIR_PROCDESC_SIZE * length ts)"
    using k g Suc.prems(3,4,5) by (simp_all add: reliable_def)
  obtain r where r: "fetch_entries tab c (Suc i) n ?t = (Inr (), r\<lparr>proctable_copy :=
      fold (\<lambda>e. map_push (host_name (pd e)) e) (map (entry_of ts) [Suc i..<Suc i + n]) (proctable_copy ?t)\<rparr>)" "quiet ?t r"
    using Suc.IH [OF t] by blast
  have h: "host_name (pd (entry_of ts i)) = host_name (ts ! i)" by (simp add: entry_of_def)
  have l: "map (entry_of ts) [i..<i + Suc n] = entry_of ts i # map (entry_of ts) [Suc i..<Suc i + n]"
    by (simp add: upt_rec)
  obtain a b where "r = ?t\<lparr>krn := (krn ?t)\<lparr>kcount := a, kerrno := b\<rparr>\<rparr>" using r(2) by (elim quietD)
  moreover obtain a' b' where "q = s\<lparr>krn := (krn s)\<lparr>kcount := a', kerrno := b'\<rparr>\<rparr>" using f(2) by (elim quietD)
  ultimately have "quiet s (r\<lparr>proctable_copy := proctable_copy s\<rparr>)"
    by (simp add: quiet_def)
  then show ?case
    using f(1) r(1) by (intro exI [of _ "r\<lparr>proctable_copy := proctable_copy s\<rparr>"])
      (simp add: bindA_def l h del: upt_Suc list.map add_Suc_right)
qed

text \<open>The addressed thread of an engine whose other fields changed.\<close>

lemma get_pid_pcount: "get_pid c s = (Inr lwp, s) \<Longrightarrow> get_pid c (s\<lparr>pcount := n\<rparr>) = (Inr lwp, s\<lparr>pcount := n\<rparr>)"
  for s :: engine
  by (auto simp: get_pid_def get_master_thread_pid_def act_simps split: if_splits list.splits option.splits)

lemma sym_addr_quiet: "quiet s q \<Longrightarrow> sym_addr q = sym_addr s"
  by (elim quietD) (simp add: sym_addr_def fun_eq_iff Let_def split: option.split)

lemma sym_addr_pcount [simp]: "sym_addr (s\<lparr>pcount := n\<rparr>) = sym_addr s"
  by (simp add: sym_addr_def fun_eq_iff Let_def split: option.split)

text \<open>The launcher's symbols and what they point to.\<close>

definition job_symbols :: "engine \<Rightarrow> (u64 \<Rightarrow> byte) \<Rightarrow> MPIR_PROCDESC list \<Rightarrow> bool" where
  "job_symbols s m ts \<longleftrightarrow> (\<exists>sz tb.
     sym_addr s LAUNCH_PROCTABLE_SIZE = Some sz \<and> sym_addr s LAUNCH_PROCTABLE = Some tb \<and>
     range_ok sz 4 \<and> range_ok tb 8 \<and> ts \<noteq> [] \<and>
     dec32 (mem_read m sz 4) = of_nat (length ts) \<and> job_at m (dec64 (mem_read m tb 8)) ts)"

lemma fetch_proctable_spec:
  assumes "reliable s" and "get_pid c s = (Inr lwp, s)" and "job_symbols s (kspace (krn s) lwp) ts"
    and "pcount s = int (length ts)"
  shows "\<exists>q. fetch_proctable c s = (Inr (), q\<lparr>proctable_copy := table_of ts (proctable_copy s)\<rparr>) \<and> quiet s q"
proof -
  let ?m = "kspace (krn s) lwp"
  obtain tb where tb: "sym_addr s LAUNCH_PROCTABLE = Some tb" "range_ok tb 8" "job_at ?m (dec64 (mem_read ?m tb 8)) ts"
    using assms(3) by (auto simp: job_symbols_def)
  let ?loc = "dec64 (mem_read ?m tb 8)" and ?n = "MPIR_PROCDESC_SIZE * length ts"
  obtain q1 where r1: "tracer_read tb 8 c s = (Inr (mem_read ?m tb 8), q1)" "quiet s q1"
    using tracer_read_live [OF assms(1) tb(2) assms(2)] by auto
  have k1: "reliable q1" "get_pid c q1 = (Inr lwp, q1)" "kspace (krn q1) lwp = ?m"
    using quiet_reads [OF r1(2) assms(1,2)] by simp_all
  have ro: "range_ok ?loc (int ?n)" "?n < 2 ^ 31" using tb(3) by (simp_all add: job_at_def)
  have sz: "sint (of_int (int MPIR_PROCDESC_SIZE * int (length ts)) :: u32) = int ?n"
    by (simp only: of_nat_mult [symmetric] of_int_of_nat_eq sint_of_nat32 [OF ro(2)])
  obtain q2 where r2: "tracer_read ?loc (int ?n) c q1 = (Inr (mem_read ?m ?loc ?n), q2)" "quiet q1 q2"
    using tracer_read_live [OF k1(1) ro(1) k1(2)] k1(3) by (auto simp del: of_nat_mult)
  have k2: "reliable q2" "get_pid c q2 = (Inr lwp, q2)" "kspace (krn q2) lwp = ?m"
    using quiet_reads [OF r2(2) k1(1,2)] k1(3) by simp_all
  obtain q where f: "fetch_entries (mem_read ?m ?loc ?n) c 0 (length ts) q2 = (Inr (), q\<lparr>proctable_copy :=
      fold (\<lambda>e. map_push (host_name (pd e)) e) (map (entry_of ts) [0..<0 + length ts]) (proctable_copy q2)\<rparr>)" "quiet q2 q"
    using fetch_entries_spec [OF k2(1,2), of ?loc ts 0 "length ts"] tb(3) k2(3) by auto
  have pc: "pcount q1 = int (length ts)" "proctable_copy q2 = proctable_copy s"
    using r1(2) r2(2) assms(4) by (auto elim!: quietD)
  have "fetch_proctable c s = (Inr (), q\<lparr>proctable_copy := table_of ts (proctable_copy s)\<rparr>)"
    unfolding fetch_proctable_def find_addr [OF tb(1)]
    using f(1) by (simp add: read_va_def bindA_def r1(1) ret_def getA_def pc sz r2(1) table_of_def del: of_nat_mult of_int_mult)
  moreover have "quiet s q" using quiet_trans r1(2) r2(2) f(2) by blast
  ultimately show ?thesis by blast
qed

interpretation shipped: read_frame
  "\<lambda>s. (proctable_copy s, pcount s, API_mode s, fe_writes s, fe_sent s) = v" for v
  by unfold_locales simp_all

lemma map_push_not_Nil: "map_push k x m \<noteq> []"
proof -
  have "map_set k v m \<noteq> []" for v by (cases m) (auto split: if_splits)
  then show ?thesis by (simp add: map_push_def split: option.split)
qed

lemma fold_push_not_Nil: "xs \<noteq> [] \<Longrightarrow> fold (\<lambda>e. map_push (key e) e) xs m \<noteq> []"
  by (cases xs rule: rev_cases) (simp_all add: map_push_not_Nil)

lemma table_of_not_Nil: "ts \<noteq> [] \<Longrightarrow> table_of ts tab \<noteq> []"
  by (simp add: table_of_def fold_push_not_Nil)

lemma acquire_spec:
  assumes "reliable s" and "get_pid c s = (Inr lwp, s)" and "job_symbols s (kspace (krn s) lwp) ts"
    and "length ts < 2 ^ 31"
  shows "\<exists>r t. acquire_proctable c s = (r, t) \<and>
    (proctable_copy t, pcount t, API_mode t, fe_writes t, fe_sent t) =
      (table_of ts (proctable_copy s), int (length ts), API_mode s, fe_writes s, fe_sent s) \<and>
    (\<not> is_rid_sup (rmgr s) \<longrightarrow> r = Inr True)"
proof -
  let ?m = "kspace (krn s) lwp" and ?n = "int (length ts)"
  obtain sz where sz: "sym_addr s LAUNCH_PROCTABLE_SIZE = Some sz" "range_ok sz 4" "ts \<noteq> []"
      "dec32 (mem_read ?m sz 4) = of_nat (length ts)"
    using assms(3) by (auto simp: job_symbols_def)
  obtain i0 where im: "myimage s = Some i0" using sz(1) by (auto simp: sym_addr_def split: option.splits)
  obtain q1 where r1: "tracer_read sz 4 c s = (Inr (mem_read ?m sz 4), q1)" "quiet s q1"
    using tracer_read_live [OF assms(1) sz(2) assms(2)] by auto
  note k1 = quiet_reads [OF r1(2) assms(1,2)]
  let ?s = "q1\<lparr>pcount := ?n\<rparr>"
  have s1: "reliable ?s" "get_pid c ?s = (Inr lwp, ?s)" "job_symbols ?s (kspace (krn ?s) lwp) ts" "pcount ?s = ?n"
    using k1 assms(3) sym_addr_quiet [OF r1(2)] get_pid_pcount by (simp_all add: reliable_def job_symbols_def)
  obtain q where f: "fetch_proctable c ?s = (Inr (), q\<lparr>proctable_copy := table_of ts (proctable_copy ?s)\<rparr>)" "quiet ?s q"
    using fetch_proctable_spec [OF s1] by blast
  let ?t = "q\<lparr>proctable_copy := table_of ts (proctable_copy ?s)\<rparr>"
  have n: "sint (dec32 (mem_read ?m sz 4)) = ?n" using sz(4) sint_of_nat32 [OF assms(4)] by simp
  have pos: "\<not> ?n \<le> 0" using sz(3) by simp
  have nil: "proctable_copy ?t \<noteq> []" using table_of_not_Nil [OF sz(3)] by simp
  have a: "acquire_proctable c s = catchA False (\<lambda>_. acquire_rid c ?t) s"
    unfolding acquire_proctable_def
    using im nil by (simp add: catchA_def find_addr [OF sz(1)])
      (simp add: read_int32_def bindA_def r1(1) ret_def n modA_def f(1) getA_def sz(3))
  have t: "(proctable_copy ?t, pcount ?t, API_mode ?t, fe_writes ?t, fe_sent ?t) =
      (table_of ts (proctable_copy s), ?n, API_mode s, fe_writes s, fe_sent s)" "rmgr ?t = rmgr s"
    using r1(2) f(2) by (auto elim!: quietD)
  have "snd (acquire_proctable c s) = snd (acquire_rid c ?t)"
    by (simp add: a catchA_def split: prod.split sum.split)
  moreover have "\<not> is_rid_sup (rmgr s) \<Longrightarrow> acquire_proctable c s = (Inr True, ?t)"
    using t(2) by (simp add: a catchA_def acquire_rid_def bindA_def getA_def ret_def)
  ultimately show ?thesis
    using keepsD [OF shipped.acquire_rid_keeps, OF t(1), of c]
    by (cases "acquire_proctable c s") auto
qed

section \<open>The table is one the engine can ship\<close>

lemma length_entries_set:
  "map_inv m \<Longrightarrow> length (entries (map_set k v m)) + (case map_find m k of None \<Rightarrow> 0 | Some w \<Rightarrow> length w) =
     length (entries m) + length v"
proof (induction k v m rule: map_set.induct)
  case (2 k v a w m)
  have m: "map_inv m" using 2(2) by (simp add: map_inv_def map_keys_def)
  have "k < a \<Longrightarrow> map_find m k = None"
    using 2(2) by (force simp: map_find_None_iff map_inv_def map_keys_def)
  then show ?case using 2(1) m by (auto simp: entries_def)
qed (simp add: entries_def)

lemma length_entries_push: "map_inv m \<Longrightarrow> length (entries (map_push k x m)) = Suc (length (entries m))"
  using length_entries_set [of m k "[x]"] length_entries_set [of m k "the (map_find m k) @ [x]"]
  by (auto simp: map_push_def split: option.split)

lemma length_entries_fold:
  "map_inv m \<Longrightarrow> length (entries (fold (\<lambda>e. map_push (key e) e) xs m)) = length xs + length (entries m)"
  by (induction xs arbitrary: m) (simp_all add: length_entries_push)

lemma table_of_inv: "map_inv (table_of ts [])"
  by (simp add: table_of_def map_inv_push_fold smap.inv_empty)

lemma table_of_find:
  "map_find (table_of ts []) h =
     (case filter (\<lambda>i. host_name (ts ! i) = h) [0..<length ts] of
        [] \<Rightarrow> None | is \<Rightarrow> Some (map (entry_of ts) is))"
proof -
  have "filter (\<lambda>e. host_name (pd e) = h) (map (entry_of ts) [0..<length ts]) =
      map (entry_of ts) (filter (\<lambda>i. host_name (ts ! i) = h) [0..<length ts])"
    by (simp add: filter_map comp_def entry_of_def)
  then show ?thesis
    by (simp add: table_of_def map_find_push_fold [OF smap.inv_empty] split: list.split)
qed

definition message_size :: "MPIR_PROCDESC list \<Rightarrow> nat" where
  "message_size ts = 28 + 20 * length ts + length (strtab_bytes (build_strtab (entries (table_of ts [])) strtab0))"

lemma table_of_wf:
  assumes "ts \<noteq> []" and "\<forall>t \<in> set ts. nul_free (host_name t) \<and> nul_free (executable_name t)"
    and "message_size ts < 2 ^ 31"
  shows "wf_proctab (table_of ts []) (int (length ts))"
proof -
  have n: "length (entries (table_of ts [])) = length ts"
    using length_entries_fold [OF smap.inv_empty] by (simp add: table_of_def entries_def)
  have mem: "es \<noteq> [] \<and> (\<forall>e \<in> set es. host_name (pd e) = k \<and> (\<exists>i < length ts. e = entry_of ts i))"
    if "(k, es) \<in> set (table_of ts [])" for k es
  proof -
    have "map_find (table_of ts []) k = Some es"
      using that map_find_Some_iff [OF table_of_inv] by blast
    then have "es \<noteq> [] \<and> es = map (entry_of ts) (filter (\<lambda>i. host_name (ts ! i) = k) [0..<length ts])"
      by (auto simp: table_of_find split: list.splits)
    then show ?thesis by (auto simp: entry_of_def)
  qed
  then have "nul_free (host_name (pd e)) \<and> nul_free (executable_name (pd e))" if "e \<in> set (entries (table_of ts []))" for e
    using that assms(2) by (fastforce simp: entries_def entry_of_def)
  then show ?thesis
    using mem n assms(1,3) table_of_inv table_of_not_Nil
    by (fastforce simp: wf_proctab_def message_size_def)
qed


section \<open>End to end\<close>

text \<open>C28: (functional) What \<open>acquire_proctable\<close> reads is the job: with a kernel that serves its requests
  and an \<open>MPIR_proctable\<close> of any number of tasks in the launcher's memory, the engine's
  table afterwards holds, under every host, exactly the tasks of that host in rank order
  with their names, pid and rank, added to what it held before, and \<open>pcount\<close> is their
  number, whatever becomes of the resource id; without one the method succeeds.\<close>

theorem acquire_reads_job:
  assumes "reliable s" and "get_pid c s = (Inr lwp, s)" and "job_symbols s (kspace (krn s) lwp) ts"
    and "proctable_copy s = []"
  shows "\<exists>r t. acquire_proctable c s = (r, t) \<and> (\<not> is_rid_sup (rmgr s) \<longrightarrow> r = Inr True) \<and>
    pcount t = int (length ts) \<and>
    (\<forall>h. map_find (proctable_copy t) h =
       (case filter (\<lambda>i. host_name (ts ! i) = h) [0..<length ts] of
          [] \<Rightarrow> None
        | is \<Rightarrow> Some (map (entry_of ts) is)))"
proof -
  have "length ts < 2 ^ 31"
    using assms(3) by (auto simp: job_symbols_def job_at_def MPIR_PROCDESC_SIZE_def)
  from acquire_spec [OF assms(1-3) this] assms(4) table_of_find [of ts] show ?thesis by auto
qed

text \<open>C2: (roundtrip) From the launcher's memory to the front end: the engine reads the job, ships the
  table in one message, and the table the front end parses out of the bytes on the wire has
  under every host exactly the tasks \<open>MPIR_proctable\<close> lists for it, in rank order.\<close>

theorem table_reaches_front_end:
  assumes "reliable s" and "get_pid True s = (Inr lwp, s)" and "job_symbols s (kspace (krn s) lwp) ts"
    and "API_mode s" and "proctable_copy s = []" and "message_size ts < 2 ^ 31"
    and "wtransient (fe_writes s)" and "wprogress (fe_writes s) = message_size ts"
    and "acquire_proctable True s = (Inr b, s1)"
  shows "\<exists>t buf tab. e_ship_proctab lmonp_proctable_avail s1 = (Inr LAUNCHMON_OK, t) \<and>
    fe_sent t = fe_sent s @ buf \<and> parse_raw_RPDTAB_msg (Some buf) [] = Inr (0, tab) \<and>
    (\<forall>h. map_find tab h = (case filter (\<lambda>i. host_name (ts ! i) = h) [0..<length ts] of
        [] \<Rightarrow> None | is \<Rightarrow> Some (map (entry_of ts) is)))"
proof -
  have j: "length ts < 2 ^ 31" "ts \<noteq> []" "\<forall>t \<in> set ts. nul_free (host_name t) \<and> nul_free (executable_name t)"
    using assms(3) by (auto simp: job_symbols_def job_at_def MPIR_PROCDESC_SIZE_def string_at_def Let_def in_set_conv_nth)
  have s1: "proctable_copy s1 = table_of ts []" "pcount s1 = int (length ts)" "API_mode s1" "fe_writes s1 = fe_writes s"
    "fe_sent s1 = fe_sent s"
    using acquire_spec [OF assms(1-3) j(1)] assms(4,5,9) by auto
  note wf = table_of_wf [OF j(2,3) assms(6)]
  define st where "st = build_strtab (entries (table_of ts [])) strtab0"
  define h where "h = proctab_hdr st (length (entries (table_of ts []))) lmonp_proctable_avail"
  define pl where "pl = proctab_payload st (entries (table_of ts []))"
  note sb = proctab_sendbuf_wf(1,2) [OF wf st_def, where t = lmonp_proctable_avail, folded h_def pl_def]
  have n: "length (entries (table_of ts [])) = length ts"
    using wf by (simp add: wf_proctab_def)
  have len: "wprogress (fe_writes s) = length (enc_hdr h @ pl)"
    using assms(8) by (simp add: message_size_def pl_def length_proctab_payload st_def n)
  obtain ks' where w: "write_lmonp_long_msg (fe_writes s) (enc_hdr h @ pl) (28 + int (length pl)) =
      Some (28 + int (length pl), enc_hdr h @ pl, ks')"
    using write_message [OF sb(2) assms(7)] len by auto
  have "e_ship_proctab lmonp_proctable_avail s1 =
      (Inr LAUNCHMON_OK, s1\<lparr>fe_sent := fe_sent s1 @ enc_hdr h @ pl, fe_writes := ks'\<rparr>)"
    by (simp add: e_ship_proctab_def s1 ship_proctab_msg_def sb(1) w sent_def act_simps)
  moreover have "parse_raw_RPDTAB_msg (Some (enc_hdr h @ pl)) [] = Inr (0, table_of ts [])"
    using parse_shipped [OF wf st_def] by (simp add: h_def pl_def)
  ultimately show ?thesis
    using table_of_find [of ts] s1(5) by auto
qed

text \<open>A launcher with two tasks of one executable on one host, its table at \<open>0x1020\<close>.\<close>

definition demo_tasks :: "MPIR_PROCDESC list" where
  "demo_tasks = [\<lparr>host_name = ''n1'', executable_name = ''a'', pid = 10\<rparr>,
                 \<lparr>host_name = ''n1'', executable_name = ''a'', pid = 11\<rparr>]"

definition demo_block :: "byte list" where
  "demo_block = enc32 2 @ enc32 0 @ enc64 0x1020 @ cstr ''n1'' @ [0] @ cstr ''a'' @ replicate 10 0 @
     enc64 0x1010 @ enc64 0x1014 @ enc32 10 @ enc32 0 @ enc64 0x1010 @ enc64 0x1014 @ enc32 11 @ enc32 0"

definition demo_symbol :: "string \<Rightarrow> u64 \<Rightarrow> symbol_base_t" where
  "demo_symbol n a = symbol_base1 n ''srun'' a a"

definition demo_job_memory :: "u64 \<Rightarrow> byte" where
  "demo_job_memory = mem_write (\<lambda>_. 0) 0x1000 demo_block"

definition demo_job_engine :: engine where
  "demo_job_engine = demo_engine\<lparr>
     myimage := Some (image_base0\<lparr>linkage_symtab :=
       [(LAUNCH_PROCTABLE, demo_symbol LAUNCH_PROCTABLE 0x1008),
        (LAUNCH_PROCTABLE_SIZE, demo_symbol LAUNCH_PROCTABLE_SIZE 0x1000)]\<rparr>),
     krn := (krn demo_engine)\<lparr>kmem := \<lambda>_. demo_job_memory\<rparr>,
     fe_writes := [Wrote 73]\<rparr>"

lemma mem_read_block:
  assumes "k + n \<le> length bs" and "length bs \<le> 2 ^ 64"
  shows "mem_read (mem_write m a bs) (a + of_nat k) n = take n (drop k bs)"
proof (rule nth_equalityI)
  show "length (mem_read (mem_write m a bs) (a + of_nat k) n) = length (take n (drop k bs))"
    using assms by simp
  fix i assume "i < length (mem_read (mem_write m a bs) (a + of_nat k) n)"
  then have i: "i < n" by simp
  have "unat (a + of_nat k + of_nat i - a) = k + i"
    using unat_offset [of "k + i" a] i assms by (simp add: add.assoc)
  then show "mem_read (mem_write m a bs) (a + of_nat k) n ! i = take n (drop k bs) ! i"
    using i assms by (simp add: nth_mem_read mem_write_def)
qed

lemma demo_block_length: "length demo_block = 80"
  by (simp add: demo_block_def)

lemma demo_reads: "k + n \<le> 80 \<Longrightarrow> a = 0x1000 + of_nat k \<Longrightarrow> mem_read demo_job_memory a n = take n (drop k demo_block)"
  using mem_read_block [of k n demo_block] demo_block_length by (simp add: demo_job_memory_def)

lemma demo_strings: "string_at demo_job_memory 0x1010 ''n1''" "string_at demo_job_memory 0x1014 ''a''"
  using demo_reads [of 16 "Suc (Suc (Suc 0))" "0x1010"] demo_reads [of 20 "Suc (Suc 0)" "0x1014"]
  by (simp_all add: string_at_def nul_free_def MAX_STRING_SIZE_def range_ok_def demo_block_def cstr_def)

lemma demo_job_at: "job_at demo_job_memory 0x1020 demo_tasks"
proof -
  have r: "mem_read demo_job_memory 0x1020 24 = enc64 0x1010 @ enc64 0x1014 @ enc32 10 @ enc32 0"
    "mem_read demo_job_memory 0x1038 24 = enc64 0x1010 @ enc64 0x1014 @ enc32 11 @ enc32 0"
    using demo_reads [of 32 24 "0x1020"] demo_reads [of 56 24 "0x1038"]
    by (simp_all add: demo_block_def cstr_def)
  have two: "length demo_tasks = 2" "i < 2 \<longleftrightarrow> i = 0 \<or> i = 1" for i :: nat
    by (auto simp: demo_tasks_def)
  show ?thesis
    using demo_strings r
    by (auto simp: job_at_def two range_ok_def MPIR_PROCDESC_SIZE_def Let_def) (simp_all add: demo_tasks_def)
qed


lemma demo_job:
  "reliable demo_job_engine" "get_pid c demo_job_engine = (Inr 42, demo_job_engine)"
  "API_mode demo_job_engine" "proctable_copy demo_job_engine = []" "\<not> is_rid_sup (rmgr demo_job_engine)"
  "kspace (krn demo_job_engine) lwp = demo_job_memory" "fe_writes demo_job_engine = [Wrote 73]"
  by (simp_all add: demo_job_engine_def demo_engine_def demo_machine_def machine.defs engine.defs reliable_def
      get_pid_def get_master_thread_pid_def act_simps thr2pid_def is_rid_sup_def rc_rm0_def resource_manager0_def
      rm_id0_def kspace_def)

lemma demo_job_symbols: "job_symbols demo_job_engine demo_job_memory demo_tasks"
proof -
  have "sym_addr demo_job_engine LAUNCH_PROCTABLE_SIZE = Some 0x1000"
    "sym_addr demo_job_engine LAUNCH_PROCTABLE = Some 0x1008"
    by (simp_all add: sym_addr_def demo_job_engine_def get_a_symbol_def image_base0_def demo_symbol_def
        symbol_base1_def LAUNCH_PROCTABLE_SIZE_def LAUNCH_PROCTABLE_def demo_engine_def machine.defs demo_machine_def Let_def)
  moreover have "mem_read demo_job_memory 0x1000 4 = enc32 2" "mem_read demo_job_memory 0x1008 8 = enc64 0x1020"
    using demo_reads [of 0 4 "0x1000"] demo_reads [of 8 8 "0x1008"] by (simp_all add: demo_block_def)
  ultimately show ?thesis
    using demo_job_at by (simp add: job_symbols_def range_ok_def) (simp add: demo_tasks_def)
qed

lemma demo_message_size: "message_size demo_tasks = 73"
proof -
  have "length (strtab_bytes (build_strtab (entries (table_of demo_tasks [])) strtab0)) = 5" by code_simp
  then show ?thesis by (simp add: message_size_def) (simp add: demo_tasks_def)
qed

lemma demo_job_run: "\<exists>t. acquire_proctable True demo_job_engine = (Inr True, t)"
  using acquire_spec [OF demo_job(1) demo_job(2) [of True], of demo_tasks] demo_job demo_job_symbols
  by (auto simp: demo_tasks_def)

theorem acquire_reads_job_witness:
  "pcount (snd (acquire_proctable True demo_job_engine)) = 2"
  using acquire_reads_job [OF demo_job(1) demo_job(2) [of True], of demo_tasks] demo_job(4,6) demo_job_symbols
  by (auto simp: demo_tasks_def)

theorem table_reaches_front_end_witness:
  "\<exists>s1 t buf tab. acquire_proctable True demo_job_engine = (Inr True, s1) \<and>
     e_ship_proctab lmonp_proctable_avail s1 = (Inr LAUNCHMON_OK, t) \<and>
     parse_raw_RPDTAB_msg (Some buf) [] = Inr (0, tab) \<and>
     map_find tab ''n1'' = Some [entry_of demo_tasks 0, entry_of demo_tasks 1]"
proof -
  obtain s1 where r: "acquire_proctable True demo_job_engine = (Inr True, s1)" using demo_job_run by blast
  have w: "message_size demo_tasks < 2 ^ 31" "wtransient (fe_writes demo_job_engine)"
    "wprogress (fe_writes demo_job_engine) = message_size demo_tasks"
    by (simp_all add: demo_message_size demo_job(7) wtransient_def)
  have "filter (\<lambda>i. host_name (demo_tasks ! i) = ''n1'') [0..<length demo_tasks] = [0, 1]"
    by (simp add: demo_tasks_def upt_rec)
  with table_reaches_front_end [OF demo_job(1) demo_job(2) _ demo_job(3,4) w r]
  show ?thesis
    using r demo_job(6) demo_job_symbols by fastforce
qed


end
