(* ===== verification/Session_End.thy ===== *)
theory Session_End
  imports Event_Loop Bp_Refine Proctab_Fetch
begin

text \<open>
  How a session ends and what it leaves behind: a pending request stops the event loop at
  the next stop of the launcher, the command handlers leave the launcher's memory without
  traps and detached, and a forked child is released with its own memory cleaned while the
  launcher keeps its breakpoints.
\<close>

section \<open>A pending request stops the loop\<close>

definition pending :: "engine \<Rightarrow> bool" where
  "pending s \<longleftrightarrow> \<not> never_trapped s \<and> (please_detach s \<or> please_kill s)"

lemma put_other [simp]:
  "never_trapped (put_bp sl b s) = never_trapped s" "please_detach (put_bp sl b s) = please_detach s"
  "please_kill (put_bp sl b s) = please_kill s" "never_trapped (put_im im i s') = never_trapped s'"
  "please_detach (put_im im i s') = please_detach s'" "please_kill (put_im im i s') = please_kill s'"
  by (cases sl; simp)+ (cases im; simp)+

interpretation pending: engine_frame pending
  by unfold_locales (auto simp: pending_def)

lemma decipher_pending:
  assumes "pending s" and "de_ev ev = EV_STOPPED" and "decipher_an_event ev s = (Inr x, t)"
  shows "x = LM_STOP_FOR_DETACH \<or> x = LM_STOP_FOR_KILL"
proof -
  let ?regs = "bindA (set_lwp_state LMON_RM_STOPPED True) (\<lambda>_. bindA (tracer_getregs True) (\<lambda>_.
      (\<lambda>s. with_gprset (get_gprset True s) gpr_get_pc s)))"
  have "keeps pending ?regs" 
    by (intro keeps_intros pending.set_lwp_state_keeps pending.getregs_keeps pending.with_cur_gprset_keeps)
  moreover have "decipher_an_event ev s = bindA ?regs (\<lambda>pc s. stopped_event s ev pc s) s"
    by (simp add: decipher_an_event_def assms(2) bindA_def split: prod.split sum.split)
  moreover obtain r u where "?regs s = (r, u)" by fastforce
  ultimately have u: "pending u" and e: "bindA (\<lambda>_. (r, u)) (\<lambda>pc s. stopped_event s ev pc s) s = (Inr x, t)"
    using keepsD [of pending ?regs s] assms(1,3) by (auto simp: bindA_def)
  then show ?thesis
    by (auto simp: bindA_def stopped_event_def pending_def ret_def split: sum.splits if_splits)
qed

lemma ends_not_ok: "fst (catchA LAUNCHMON_FAILED (bindA m (\<lambda>_. ret LAUNCHMON_STOP_TRACE)) s) \<noteq> Inr LAUNCHMON_OK"
  by (auto simp: catchA_def bindA_def ret_def split: prod.split sum.split)

lemma invoke_request_not_ok:
  "x = LM_STOP_FOR_DETACH \<or> x = LM_STOP_FOR_KILL \<Longrightarrow> fst (invoke_handler x n s) \<noteq> Inr LAUNCHMON_OK"
  by (auto simp: invoke_handler_def handle_detach_cmd_event_def handle_kill_cmd_event_def ends_not_ok)

lemma lwp_event_not_ok:
  assumes "pending s" and "de_ev ev = EV_STOPPED"
  shows "fst (handle_lwp_event k ev s) \<noteq> Inr LAUNCHMON_OK"
proof
  assume "fst (handle_lwp_event k ev s) = Inr LAUNCHMON_OK"
  then obtain b s1 x s2 s3 where c: "make_context k s = (Inr b, s1)" and d: "decipher_an_event ev s1 = (Inr x, s2)"
    and i: "invoke_handler x (de_u ev) s2 = (Inr LAUNCHMON_OK, s3)"
    by (auto simp: handle_lwp_event_def in_context_def bindA_def ret_def split: prod.splits sum.splits)
  have "pending s1" using keepsD [OF pending.make_context_keeps assms(1)] c by (metis snd_conv)
  from invoke_request_not_ok [OF decipher_pending [OF this assms(2) d]] i show False by (metis fst_conv)
qed

text \<open>C11: (safety) A pending detach or kill request ends the loop at the next stop: when \<open>waitpid\<close>
  reports the launcher, or one of its known threads, stopped for whatever signal, after the
  first trap, the round does not return true, so the main loop and the signal handler go no
  further.\<close>

theorem request_ends_loop:
  assumes "\<not> never_trapped s" and "please_detach s \<or> please_kill s" and "0 < k" and "WIFSTOPPED st"
    and "(waits s = (k, st) # ws \<and> k = get_master_thread_pid s) \<or>
         (waits s = (j, st0) # (k, st) # ws \<and> j \<le> 0 \<and> map_find (thrlist s) k \<noteq> None)"
  shows "fst (poll_processes s) \<noteq> Inr True \<and> drain_events (Suc n) s = drain_events 1 s"
proof -
  have st: "\<not> WIFEXITED st" "\<not> WIFSIGNALED st"
    using assms(4) mod_mod_cancel [of 128 256 st] by (simp_all add: WIFSTOPPED_def WIFEXITED_def WIFSIGNALED_def)
  have p: "pending (s\<lparr>waits := w\<rparr>)" for w using assms(1,2) by (simp add: pending_def)
  define ev where "ev = (\<lambda>en. debug_event0\<lparr>de_en := Some en, de_id := Some k, de_ev := EV_STOPPED,
      de_u := WSTOPSIG st, de_rawstatus := Some st\<rparr>)"
  have se: "status_event en k st = (True, ev en)" for en
    using assms(4) st by (simp add: status_event_def ev_def)
  have en: "de_en (ev en) = Some en" "de_id (ev en) = Some k" "de_ev (ev en) = EV_STOPPED" for en
    by (simp_all add: ev_def debug_event0_def)
  have nok: "fst (handle_lwp_event k (ev en) (s\<lparr>waits := w\<rparr>)) \<noteq> Inr LAUNCHMON_OK" for en w
    by (rule lwp_event_not_ok [OF p en(3)])
  have poll: "fst (poll_processes s) \<noteq> Inr True"
    using assms(5)
  proof (elim disjE conjE)
    assume w: "waits s = (k, st) # ws" "k = get_master_thread_pid s"
    with se [of EV_ENTITY_PROCESS] have "wait_for_all s = (Inr (True, ev EV_ENTITY_PROCESS), s\<lparr>waits := ws\<rparr>)"
      using assms(3) by (simp add: wait_for_all_def e_waitpid_def bindA_def ret_def se)
    moreover have "get_master_thread_pid (s\<lparr>waits := ws\<rparr>) = k" using w(2) by (simp add: get_master_thread_pid_def)
    ultimately show ?thesis
      using nok [of EV_ENTITY_PROCESS ws]
      by (cases "handle_lwp_event k (ev EV_ENTITY_PROCESS) (s\<lparr>waits := ws\<rparr>)")
        (auto simp: poll_processes_def bindA_def en process_event_def get_pid_def ret_def split: sum.split)
  next
    assume w: "waits s = (j, st0) # (k, st) # ws" "j \<le> 0" "map_find (thrlist s) k \<noteq> None"
    then have "wait_for_all s = (Inr (True, ev EV_ENTITY_THREAD), s\<lparr>waits := ws\<rparr>)"
      using assms(3) by (simp add: wait_for_all_def e_waitpid_def bindA_def ret_def se)
    then show ?thesis
      using nok [of EV_ENTITY_THREAD ws] w(3)
      by (cases "handle_lwp_event k (ev EV_ENTITY_THREAD) (s\<lparr>waits := ws\<rparr>)")
        (auto simp: poll_processes_def bindA_def en thread_event_def ret_def split: sum.split)
  qed
  then have "drain_events (Suc m) s = drain_events (Suc 0) s" for m
    by (auto simp: bindA_def split: prod.split sum.split)
  with poll show ?thesis by simp
qed

definition demo_ending :: engine where
  "demo_ending = demo_engine\<lparr>please_detach := True, waits := [(42, 4991)]\<rparr>"

theorem request_ends_loop_witness: "fst (poll_processes demo_ending) \<noteq> Inr True"
proof -
  have d: "\<not> never_trapped demo_ending" "please_detach demo_ending \<or> please_kill demo_ending"
    "waits demo_ending = [(42, 4991)]" "get_master_thread_pid demo_ending = 42"
    by (simp_all add: demo_ending_def demo_engine_def demo_machine_def machine.defs engine.defs get_master_thread_pid_def)
  have "WIFSTOPPED 4991" by (simp add: WIFSTOPPED_def)
  from request_ends_loop [OF d(1,2) _ this, of 42 "[]"] d(3,4) show ?thesis by simp
qed

section \<open>Taking the breakpoints out\<close>

definition off :: "bool \<Rightarrow> breakpoint option \<Rightarrow> breakpoint option" where
  "off ch ob = map_option (\<lambda>b. if ch \<and> is_enabled b then b\<lparr>bp_status := bp_disabled\<rparr> else b) ob"

definition bp_reach :: "breakpoint option \<Rightarrow> bool" where
  "bp_reach ob \<longleftrightarrow> (case ob of None \<Rightarrow> True | Some b \<Rightarrow> bp_x86 b \<and> range_ok (address_at b) 8)"

lemma put_get_bp [simp]: "put_bp sl (get_bp sl s) s = s"
  by (cases sl; simp)

lemma disable_slot:
  assumes "reliable s" and "get_pid c s = (Inr lwp, s)" and "bp_reach (get_bp sl s)"
  shows "\<exists>K. (if get_bp sl s = None then ret () s else ignA (disable_breakpoint sl c ch) s) =
      (Inr (), put_bp sl (off ch (get_bp sl s)) (s\<lparr>krn := K\<rparr>)) \<and>
    kvm K = kvm (krn s) \<and> (\<forall>n. kfail K n = None) \<and>
    kmem K = (kmem (krn s))(kvm (krn s) lwp := un_trap (get_bp sl s) (kspace (krn s) lwp)) \<and>
    (\<exists>x. klog K = klog (krn s) @ x)"
proof (cases "\<exists>b. get_bp sl s = Some b \<and> is_enabled b")
  case False
  have same: "off ch (get_bp sl s) = get_bp sl s" "un_trap (get_bp sl s) m = m" for m
    using False by (cases "get_bp sl s"; auto simp: off_def un_trap_def)+
  have "(if get_bp sl s = None then ret () s else ignA (disable_breakpoint sl c ch) s) = (Inr (), s)"
    using False by (auto simp: ignA_def bindA_def disable_breakpoint_def the_bp_def ret_def split: option.split)
  then show ?thesis
    using assms(1) same by (intro exI [of _ "krn s"]) (simp add: reliable_def kspace_def)
next
  case True
  then obtain b where b: "get_bp sl s = Some b" "is_enabled b" by blast
  then have x: "\<not> use_indirection b" "range_ok (address_at b) 8" using assms(3) by (auto simp: bp_reach_def bp_x86_def)
  then have t: "bp_target b = address_at b" by (simp add: bp_target_def)
  let ?m = "mem_write (kspace (krn s) lwp) (address_at b) (enc64 (orig_instruction b))"
  obtain p3 where w: "tracer_write (address_at b) (enc64 (orig_instruction b)) c s = (Inr (), p3)"
    using tracer_write_live [OF assms(1) _ assms(2)] x(2) by fastforce
  note wr = tracer_write_spec [OF w assms(2)]
  then obtain n e l where p3: "p3 = s\<lparr>krn := (krn s)\<lparr>kmem := (kmem (krn s))(kvm (krn s) lwp := ?m),
      kcount := n, kerrno := e, klog := l\<rparr>\<rparr>" by (elim wroteD)
  have "\<exists>x. klog (krn p3) = klog (krn s) @ x"
    using w assms(1,2) x(2) by (auto simp: tracer_write_word bindA_def ret_def checked_poke reliable_def)
  then have lg: "\<exists>x. l = klog (krn s) @ x" by (simp add: p3)
  have b3: "get_bp sl p3 = Some b" using get_bp_wrote [OF wr] b(1) by simp
  have "ignA (disable_breakpoint sl c ch) s = (Inr (), put_bp sl (off ch (get_bp sl s)) p3)"
    using b w t b3 by (auto simp: ignA_def bindA_def disable_breakpoint_def the_bp_def ret_def whenA_def upd_bp_def modA_def
        off_def bp_do_disable_eq) (use put_get_bp [of sl p3] in \<open>simp add: b3\<close>)
  then show ?thesis
    using b assms(1) lg
    by (intro exI [of _ "krn p3"]) (simp add: p3 un_trap_def reliable_def)
qed

lemma get_pid_cong:
  "thrlist q = thrlist p \<Longrightarrow> thread_ctx_stack q = thread_ctx_stack p \<Longrightarrow> new_child_pid q = new_child_pid p \<Longrightarrow>
   get_pid c p = (Inr lwp, p) \<Longrightarrow> get_pid c q = (Inr lwp, q)"
  by (auto simp: get_pid_def get_master_thread_pid_def act_simps split: if_splits list.splits option.splits)

lemma disable_all_spec:
  assumes "reliable s" and "get_pid c s = (Inr lwp, s)" and "bps_ok s"
    and "bp_reach (launch_hidden_bp s)" and "bp_reach (loader_hidden_bp s)"
  shows "\<exists>K. disable_all_BPs c ch s = (Inr True, s\<lparr>launch_hidden_bp := off ch (launch_hidden_bp s),
      loader_hidden_bp := off ch (loader_hidden_bp s), krn := K\<rparr>) \<and>
    kvm K = kvm (krn s) \<and> (\<forall>n. kfail K n = None) \<and>
    kmem K = (kmem (krn s))(kvm (krn s) lwp := program_memory s lwp) \<and> (\<exists>x. klog K = klog (krn s) @ x)"
proof -
  obtain K1 where a: "(if get_bp launch_bp s = None then ret () s else ignA (disable_breakpoint launch_bp c ch) s) =
      (Inr (), s\<lparr>krn := K1, launch_hidden_bp := off ch (launch_hidden_bp s)\<rparr>)"
    and k1: "kvm K1 = kvm (krn s)" "\<forall>n. kfail K1 n = None"
      "kmem K1 = (kmem (krn s))(kvm (krn s) lwp := un_trap (launch_hidden_bp s) (kspace (krn s) lwp))"
      "\<exists>x. klog K1 = klog (krn s) @ x"
    using disable_slot [OF assms(1,2), of launch_bp ch] assms(4) by auto
  let ?s = "s\<lparr>krn := K1, launch_hidden_bp := off ch (launch_hidden_bp s)\<rparr>"
  have "get_pid c ?s = (Inr lwp, ?s)" by (rule get_pid_cong [OF _ _ _ assms(2)]) simp_all
  moreover have "reliable ?s" "bp_reach (get_bp loader_bp ?s)"
    using k1 assms(5) by (simp_all add: reliable_def)
  ultimately have "reliable ?s" "get_pid c ?s = (Inr lwp, ?s)" "bp_reach (get_bp loader_bp ?s)" by simp_all
  from disable_slot [OF this, of ch] obtain K2 where
    b: "(if get_bp loader_bp ?s = None then ret () ?s else ignA (disable_breakpoint loader_bp c ch) ?s) =
      (Inr (), ?s\<lparr>krn := K2, loader_hidden_bp := off ch (loader_hidden_bp s)\<rparr>)"
    and k2: "kvm K2 = kvm K1" "\<forall>n. kfail K2 n = None"
      "kmem K2 = (kmem K1)(kvm K1 lwp := un_trap (loader_hidden_bp s) (kspace K1 lwp))" "\<exists>x. klog K2 = klog K1 @ x"
    by auto
  have "un_trap (loader_hidden_bp s) (kspace K1 lwp) = program_memory s lwp"
    using k1 program_memory_slot [OF assms(3), of lwp loader_bp] by (simp add: kspace_def)
  moreover have "disable_all_BPs c ch s = (Inr True, ?s\<lparr>krn := K2, loader_hidden_bp := off ch (loader_hidden_bp s)\<rparr>)"
    using a b by (simp add: disable_all_BPs_def each_bp_def catchA_def bindA_def ret_def)
  ultimately show ?thesis using k1 k2 by (intro exI [of _ K2]) auto
qed

text \<open>C27: (safety) A forked child is let go unharmed: in its context the handler gives the child its memory
  without the traps it inherited and detaches from it, and changes no other address space
  and neither of the engine's breakpoints, so the launcher stays trapped.\<close>

theorem forked_child_released:
  assumes "reliable s" and "new_child_pid s = child" and "child \<noteq> 0" and "bps_ok s"
    and "bp_reach (launch_hidden_bp s)" and "bp_reach (loader_hidden_bp s)"
  shows "\<exists>t. handle_newproc_forked_event s = (Inr LAUNCHMON_OK, t) \<and>
    kmem (krn t) = (kmem (krn s))(kvm (krn s) child := program_memory s child) \<and>
    launch_hidden_bp t = launch_hidden_bp s \<and> loader_hidden_bp t = loader_hidden_bp s \<and>
    last (klog (krn t)) = (DETACH, child, 0, 0)"
proof -
  have g: "get_pid True s = (Inr child, s)" using assms(2,3) by (simp add: get_pid_def ret_def)
  obtain K where d: "disable_all_BPs True False s = (Inr True, s\<lparr>launch_hidden_bp := off False (launch_hidden_bp s),
      loader_hidden_bp := off False (loader_hidden_bp s), krn := K\<rparr>)"
    and k: "kvm K = kvm (krn s)" "\<forall>n. kfail K n = None"
      "kmem K = (kmem (krn s))(kvm (krn s) child := program_memory s child)"
    using disable_all_spec [OF assms(1) g assms(4-6)] by blast
  have o: "off False ob = ob" for ob by (cases ob) (simp_all add: off_def)
  let ?s = "s\<lparr>krn := K\<rparr>"
  have g2: "get_pid True (?s\<lparr>krn := K'\<rparr>) = (Inr child, ?s\<lparr>krn := K'\<rparr>)" for K'
    using assms(2,3) by (simp add: get_pid_def ret_def)
  show ?thesis
    using d k(2) g2 [of K] g2
    by (cases "map_find (thrlist s) child")
      (simp_all add: handle_newproc_forked_event_def catchA_def bindA_def ignA_def ret_def o tracer_detach_def
        Pptrace_def ksys_def set_lwp_state_def k)
qed


definition demo_forked :: engine where
  "demo_forked = demo_engine\<lparr>new_child_pid := 77,
     launch_hidden_bp := Some (demo_bp\<lparr>bp_status := bp_enabled, orig_instruction := 0x1122334455667788\<rparr>),
     krn := (krn demo_engine)\<lparr>kvm := (\<lambda>p. if p = 77 then 2 else 1)\<rparr>\<rparr>"

theorem forked_child_released_witness:
  "\<exists>t. handle_newproc_forked_event demo_forked = (Inr LAUNCHMON_OK, t) \<and>
     kmem (krn t) 2 0x400000 = 0x88 \<and> kmem (krn t) 1 = kmem (krn demo_forked) 1 \<and>
     last (klog (krn t)) = (DETACH, 77, 0, 0)"
proof -
  have d: "reliable demo_forked" "new_child_pid demo_forked = 77" "(77 :: int) \<noteq> 0" "bps_ok demo_forked"
    "bp_reach (launch_hidden_bp demo_forked)" "bp_reach (loader_hidden_bp demo_forked)" "kvm (krn demo_forked) 77 = 2"
    using demo_bp_x86(1,2)
    by (simp_all add: demo_forked_def demo_engine_def demo_machine_def machine.defs engine.defs reliable_def
        bps_ok_def bp_reach_def bp_x86_def range_ok_def)
  have m: "program_memory demo_forked 77 0x400000 = 0x88"
    using demo_bp_x86(2) by (simp add: program_memory_def un_trap_def demo_forked_def is_enabled_def mem_write_def enc64_Cons)
  show ?thesis using forked_child_released [OF d(1-6)] m by (auto simp: d(7))
qed

section \<open>Letting the launcher go\<close>

text \<open>What the loop over the slave threads may change: the thread table but for its keys and
  its master, and the kernel but for the memories.\<close>

definition slaves_step :: "engine \<Rightarrow> engine \<Rightarrow> bool" where
  "slaves_step s t \<longleftrightarrow> (\<exists>K L x. t = s\<lparr>krn := K, thrlist := L\<rparr> \<and> kvm K = kvm (krn s) \<and> kmem K = kmem (krn s) \<and>
     (\<forall>n. kfail K n = None) \<and> klog K = klog (krn s) @ x) \<and> proc_wf t \<and>
     get_master_thread_pid t = get_master_thread_pid s \<and>
     (\<forall>k. map_option master_thread (map_find (thrlist t) k) = map_option master_thread (map_find (thrlist s) k))"

lemma map_set_existing:
  "map_inv m \<Longrightarrow> map_find m k = Some t \<Longrightarrow> map_set k u m = map (\<lambda>(a, w). if a = k then (a, u) else (a, w)) m"
proof (induction k u m rule: map_set.induct)
  case (2 k u a w m)
  have m: "map_inv m" "\<forall>b \<in> fst ` set m. a < b" using 2(2) by (auto simp: map_inv_def map_keys_def)
  have "\<not> k < a" if "k \<noteq> a" using 2(3) that m(2) map_find_None_iff [of m k] by (force split: if_splits)
  moreover have "map (\<lambda>(b, w). if b = a then (b, u) else (b, w)) m = m"
    using m(2) by (intro map_idI) (auto simp: image_iff)
  ultimately show ?case using 2 m(1) by (auto split: if_splits)
qed simp

lemma master_pid_upd:
  assumes "map_inv (thrlist s)" and "map_find (thrlist s) k = Some t" and "master_thread u = master_thread t"
    and "master_pid u = master_pid t"
  shows "get_master_thread_pid (s\<lparr>thrlist := map_set k u (thrlist s)\<rparr>) = get_master_thread_pid s"
proof -
  let ?f = "\<lambda>(a, w). if a = k then (a, u) else (a, w)"
  have u: "(k, w) \<in> set (thrlist s) \<Longrightarrow> w = t" for w
    using map_find_Some_iff [OF assms(1), of k w] assms(2) by simp
  have f: "filter (\<lambda>(k, t). master_thread t) (map ?f xs) = map ?f (filter (\<lambda>(k, t). master_thread t) xs)"
    if "set xs \<subseteq> set (thrlist s)" for xs
    using that u assms(3) by (induction xs) (auto split: if_splits)
  show ?thesis
  proof (cases "filter (\<lambda>(k, t). master_thread t) (thrlist s)")
    case Nil
    then show ?thesis
      using f [of "thrlist s"] by (simp add: get_master_thread_pid_def map_set_existing [OF assms(1,2)])
  next
    case (Cons x xs)
    obtain a w where x: "x = (a, w)" by fastforce
    have "x \<in> set (filter (\<lambda>(k, t). master_thread t) (thrlist s))" by (simp add: Cons)
    then have "a = k \<Longrightarrow> w = t" using u x by simp
    then show ?thesis
      using f [of "thrlist s"] Cons x assms(4)
      by (simp add: get_master_thread_pid_def map_set_existing [OF assms(1,2)])
  qed
qed

lemma slaves_step_refl: "proc_wf s \<Longrightarrow> reliable s \<Longrightarrow> slaves_step s s"
  unfolding slaves_step_def
  by (intro conjI exI [of _ "krn s"] exI [of _ "thrlist s"] exI [of _ "[]"]) (simp_all add: reliable_def)

lemma slaves_step_trans:
  assumes "slaves_step s t" and "slaves_step t u"
  shows "slaves_step s u"
proof -
  obtain K L x where t: "t = s\<lparr>krn := K, thrlist := L\<rparr>" "kvm K = kvm (krn s)" "kmem K = kmem (krn s)"
      "klog K = klog (krn s) @ x"
    using assms(1) by (auto simp: slaves_step_def)
  obtain K' L' x' where u: "u = t\<lparr>krn := K', thrlist := L'\<rparr>" "kvm K' = kvm (krn t)" "kmem K' = kmem (krn t)"
      "\<forall>n. kfail K' n = None" "klog K' = klog (krn t) @ x'"
    using assms(2) by (auto simp: slaves_step_def)
  have "u = s\<lparr>krn := K', thrlist := L'\<rparr> \<and> kvm K' = kvm (krn s) \<and> kmem K' = kmem (krn s) \<and>
      (\<forall>n. kfail K' n = None) \<and> klog K' = klog (krn s) @ (x @ x')"
    using t u by simp
  then show ?thesis
    using assms unfolding slaves_step_def by (intro conjI exI [of _ K'] exI [of _ L'] exI [of _ "x @ x'"]) simp_all
qed

text \<open>A request to the kernel in a context whose id is known.\<close>

lemma reliable_request:
  assumes "\<forall>n. kfail K n = None" and "r \<in> {SETOPTIONS, DETACH}"
  shows "\<exists>K'. ksys r k a d K = (0, K') \<and> kvm K' = kvm K \<and> kmem K' = kmem K \<and> (\<forall>n. kfail K' n = None) \<and>
    klog K' = klog K @ [(r, k, a, d)]"
  using assms by (auto simp: ksys_def)

lemma unsetoptions_run:
  assumes "get_pid c s = (Inr k, s)" and "\<forall>n. kfail (krn s) n = None"
  shows "\<exists>K. tracer_unsetoptions c (-1) s = (Inr (), s\<lparr>krn := K\<rparr>) \<and> kvm K = kvm (krn s) \<and> kmem K = kmem (krn s) \<and>
    (\<forall>n. kfail K n = None) \<and> klog K = klog (krn s) @ [(SETOPTIONS, k, 0, 0)]"
  using reliable_request [OF assms(2), of SETOPTIONS k 0 0] assms(1)
  by (auto simp: tracer_unsetoptions_def set_ptrace_options_def bindA_def Pptrace_def whenA_def ret_def)

lemma detach_run:
  assumes "\<And>K. get_pid c (s\<lparr>krn := K\<rparr>) = (Inr k, s\<lparr>krn := K\<rparr>)" and "\<forall>n. kfail (krn s) n = None"
    and "map_find (thrlist s) k = Some t"
  shows "\<exists>K. tracer_detach c s = (Inr SDBG_TRACE_OK, s\<lparr>krn := K,
      thrlist := map_set k (t\<lparr>lwp_state := LMON_RM_RUNNING\<rparr>) (thrlist s)\<rparr>) \<and> kvm K = kvm (krn s) \<and>
    kmem K = kmem (krn s) \<and> (\<forall>n. kfail K n = None) \<and> klog K = klog (krn s) @ [(DETACH, k, 0, 0)]"
proof -
  have "get_pid c s = (Inr k, s)" using assms(1) [of "krn s"] by simp
  then show ?thesis
    using reliable_request [OF assms(2), of DETACH k 0 0] assms(1,3)
    by (auto simp: tracer_detach_def bindA_def Pptrace_def ret_def set_lwp_state_def)
qed

lemma let_go_slave_run:
  assumes wf: "proc_wf s" and "new_child_pid s = 0" and "reliable s" and t: "map_find (thrlist s) k = Some t"
    and "\<not> master_thread t"
  shows "\<exists>u. let_go_slave k s = (Inr (), u) \<and> slaves_step s u \<and> (DETACH, k, 0, 0) \<in> set (klog (krn u))"
proof -
  let ?s = "s\<lparr>thread_ctx_stack := k # thread_ctx_stack s\<rparr>"
  have m: "make_context k s = (Inr True, ?s)" using t by (simp add: make_context_known)
  have k0: "k \<noteq> 0" using proc_wfD(3) [OF wf t] .
  have g: "get_pid True (?s\<lparr>krn := K\<rparr>) = (Inr k, ?s\<lparr>krn := K\<rparr>)" for K
    using assms(1,2) t by (intro get_pid_known) simp_all
  have g0: "get_pid True ?s = (Inr k, ?s)" using g [of "krn s"] by simp
  obtain K1 where a: "tracer_unsetoptions True (-1) ?s = (Inr (), ?s\<lparr>krn := K1\<rparr>)"
    and k1: "kvm K1 = kvm (krn s)" "kmem K1 = kmem (krn s)" "\<forall>n. kfail K1 n = None"
      "klog K1 = klog (krn s) @ [(SETOPTIONS, k, 0, 0)]"
    using unsetoptions_run [OF g0] assms(3) by (auto simp: reliable_def)
  have "get_pid True (?s\<lparr>krn := K1\<rparr>\<lparr>krn := K\<rparr>) = (Inr k, ?s\<lparr>krn := K1\<rparr>\<lparr>krn := K\<rparr>)" for K using g [of K] by simp
  from detach_run [OF this, of t] obtain K2 where
    b: "tracer_detach True (?s\<lparr>krn := K1\<rparr>) = (Inr SDBG_TRACE_OK, ?s\<lparr>krn := K2,
      thrlist := map_set k (t\<lparr>lwp_state := LMON_RM_RUNNING\<rparr>) (thrlist s)\<rparr>)"
    and k2: "kvm K2 = kvm K1" "kmem K2 = kmem K1" "\<forall>n. kfail K2 n = None" "klog K2 = klog K1 @ [(DETACH, k, 0, 0)]"
    using k1(3) t by auto
  let ?L = "map_set k (t\<lparr>lwp_state := LMON_RM_RUNNING\<rparr>) (thrlist s)"
  let ?u = "s\<lparr>krn := K2, thrlist := ?L\<rparr>"
  have c: "check_and_undo_context k (?s\<lparr>krn := K2, thrlist := ?L\<rparr>) = (Inr True, ?u)"
    using undo_known [of "?s\<lparr>krn := K2, thrlist := ?L\<rparr>" k "thread_ctx_stack s"] assms(2) k0 by simp
  have r: "let_go_slave k s = (Inr (), ?u)"
    using t assms(5) m a b c by (simp add: let_go_slave_def whenA_def bindA_def ignA_def ret_def)
  have inv: "map_inv (thrlist s)" using wf by (simp add: proc_wf_def)
  have gm: "get_master_thread_pid ?u = get_master_thread_pid s"
    using master_pid_upd [OF inv t, of "t\<lparr>lwp_state := LMON_RM_RUNNING\<rparr>"] by (simp add: get_master_thread_pid_def)
  have "proc_wf ?u"
    using wf t by (auto simp: proc_wf_def map_find_set map_inv_set thr_ok_def)
  moreover have "\<forall>j. map_option master_thread (map_find ?L j) = map_option master_thread (map_find (thrlist s) j)"
    using t inv by (simp add: map_find_set)
  ultimately have "slaves_step s ?u"
    unfolding slaves_step_def using k1 k2 gm
    by (intro conjI exI [of _ K2] exI [of _ ?L] exI [of _ "[(SETOPTIONS, k, 0, 0), (DETACH, k, 0, 0)]"]) simp_all
  then show ?thesis using r k2(4) by (intro exI [of _ ?u]) simp
qed

text \<open>The loop over the table.\<close>

definition slave :: "'a process_base_t_scheme \<Rightarrow> int \<Rightarrow> bool" where
  "slave p k \<longleftrightarrow> (case map_find (thrlist p) k of None \<Rightarrow> False | Some t \<Rightarrow> \<not> master_thread t)"

lemma slaves_stepD:
  assumes "slaves_step s t"
  shows "proc_wf t" "reliable t" "new_child_pid t = new_child_pid s" "slave t = slave s"
    "set (klog (krn s)) \<subseteq> set (klog (krn t))"
proof -
  show "slave t = slave s"
  proof (rule ext)
    fix k show "slave t k = slave s k"
      using assms
      by (cases "map_find (thrlist t) k"; cases "map_find (thrlist s) k")
        (auto simp: slaves_step_def slave_def dest: spec [of _ k])
  qed
qed (use assms in \<open>auto simp: slaves_step_def reliable_def\<close>)

lemma let_go_slaves_run:
  "proc_wf s \<Longrightarrow> new_child_pid s = 0 \<Longrightarrow> reliable s \<Longrightarrow>
   \<exists>u. forA let_go_slave ks s = (Inr (), u) \<and> slaves_step s u \<and>
     (\<forall>k \<in> set ks. slave s k \<longrightarrow> (DETACH, k, 0, 0) \<in> set (klog (krn u)))"
proof (induction ks arbitrary: s)
  case Nil
  then show ?case using slaves_step_refl by (auto simp: ret_def)
next
  case (Cons k ks)
  have "\<exists>v. let_go_slave k s = (Inr (), v) \<and> slaves_step s v \<and> (slave s k \<longrightarrow> (DETACH, k, 0, 0) \<in> set (klog (krn v)))"
  proof (cases "slave s k")
    case True
    then obtain t where "map_find (thrlist s) k = Some t" "\<not> master_thread t"
      by (auto simp: slave_def split: option.splits)
    then show ?thesis using let_go_slave_run [OF Cons.prems(1,2,3)] by blast
  next
    case False
    then have "let_go_slave k s = (Inr (), s)"
      by (auto simp: slave_def let_go_slave_def whenA_def ret_def split: option.splits)
    then show ?thesis using False slaves_step_refl [OF Cons.prems(1,3)] by blast
  qed
  then obtain v where v: "let_go_slave k s = (Inr (), v)" "slaves_step s v"
    "slave s k \<longrightarrow> (DETACH, k, 0, 0) \<in> set (klog (krn v))" by blast
  note d = slaves_stepD [OF v(2)]
  from Cons.IH [OF d(1) _ d(2)] d(3) Cons.prems(2) obtain u where u: "forA let_go_slave ks v = (Inr (), u)"
    "slaves_step v u" "\<forall>k \<in> set ks. slave v k \<longrightarrow> (DETACH, k, 0, 0) \<in> set (klog (krn u))" by auto
  then show ?case
    using v d(4) slaves_stepD(5) [OF u(2)] slaves_step_trans [OF v(2) u(2)]
    by (intro exI [of _ u]) (auto simp: bindA_def)
qed

text \<open>The kernel's log only grows.\<close>

definition logged :: "(ptrace_req \<times> int \<times> u64 \<times> u64) set \<Rightarrow> 'a machine_scheme \<Rightarrow> bool" where
  "logged l s \<longleftrightarrow> l \<subseteq> set (klog (krn s))"

lemma Pptrace_logged: "keeps (logged l) (Pptrace r lwp a d)"
  by (rule keepsI, cases r)
    (auto simp: logged_def Pptrace_def ksys_def case_prod_beta Let_def split: option.split)

lemma checked_logged: "keeps (logged l) m \<Longrightarrow> keeps (logged l) (checked m)"
  unfolding checked_def by (intro keeps_intros, assumption)
    (simp add: keeps_def throw_errno_def throw_def ret_def)

lemma write_logged: "keeps (logged l) (tracer_write a bs c)"
proof -
  have "keeps (logged l) (write_words t b cs n)" for t b cs n
    by (induction n arbitrary: b cs) (auto intro!: keeps_intros checked_logged Pptrace_logged)
  then show ?thesis
    unfolding tracer_write_def by (intro keeps_intros checked_logged Pptrace_logged keeps_wf_get_pid)
qed

lemma sym_addr_cong: "myimage t = myimage s \<Longrightarrow> myrmso_image t = myrmso_image s \<Longrightarrow> sym_addr t = sym_addr s"
  by (simp add: sym_addr_def fun_eq_iff Let_def cong: option.case_cong)

lemma let_go_spec:
  assumes wf: "proc_wf s" and "new_child_pid s = 0" and "reliable s" and "bps_ok s"
    and "bp_reach (launch_hidden_bp s)" and "bp_reach (loader_hidden_bp s)"
    and m: "get_master_thread_pid s = m" "map_find (thrlist s) m \<noteq> None"
    and a: "sym_addr s LAUNCH_BEING_DEBUG = Some a" "range_ok a 4"
  shows "\<exists>t. let_go s = (Inr (), t) \<and> kspace (krn t) m = mem_write (program_memory s m) a (enc32 0) \<and>
    (\<forall>k. slave s k \<longrightarrow> (DETACH, k, 0, 0) \<in> set (klog (krn t))) \<and> last (klog (krn t)) = (DETACH, m, 0, 0)"
proof -
  have g: "get_pid False q = (Inr m, q)" if "get_master_thread_pid q = m" for q :: engine
    using that by (simp add: get_pid_def ret_def)
  obtain K1 where d: "disable_all_BPs False True s = (Inr True, s\<lparr>launch_hidden_bp := off True (launch_hidden_bp s),
      loader_hidden_bp := off True (loader_hidden_bp s), krn := K1\<rparr>)"
    and k1: "kvm K1 = kvm (krn s)" "\<forall>n. kfail K1 n = None"
      "kmem K1 = (kmem (krn s))(kvm (krn s) m := program_memory s m)"
    using disable_all_spec [OF assms(3) g [OF m(1)] assms(4-6), of True] by blast
  let ?s = "s\<lparr>launch_hidden_bp := off True (launch_hidden_bp s), loader_hidden_bp := off True (loader_hidden_bp s), krn := K1\<rparr>"
  have s1: "proc_wf ?s" "new_child_pid ?s = 0" "reliable ?s" "get_master_thread_pid ?s = m"
    "slave ?s = slave s" "thrlist ?s = thrlist s"
    using wf assms(2) m(1) k1(2)
    by (simp_all add: proc_wf_def reliable_def get_master_thread_pid_def slave_def fun_eq_iff)
  have sy: "sym_addr ?s = sym_addr s" by (rule sym_addr_cong) simp_all
  from let_go_slaves_run [OF s1(1-3), of "map_keys (thrlist ?s)"] obtain u where
    u: "forA let_go_slave (map_keys (thrlist ?s)) ?s = (Inr (), u)" "slaves_step ?s u"
      "\<forall>k \<in> set (map_keys (thrlist ?s)). slave ?s k \<longrightarrow> (DETACH, k, 0, 0) \<in> set (klog (krn u))" by blast
  have us: "\<forall>k. slave s k \<longrightarrow> (DETACH, k, 0, 0) \<in> set (klog (krn u))"
    using u(3) s1(5,6) wf by (auto simp: slave_def proc_wf_def map_find_Some_iff map_keys_def image_iff split: option.splits) force
  have ug: "get_master_thread_pid u = m" "get_pid False u = (Inr m, u)"
    using u(2) s1(4) g by (simp_all add: slaves_step_def)
  have ua: "sym_addr u LAUNCH_BEING_DEBUG = Some a"
    using u(2) a(1) sy sym_addr_cong [of u ?s] by (auto simp: slaves_step_def)
  obtain w where w: "tracer_write a (enc32 0) False u = (Inr (), w)"
    using tracer_write_live [OF slaves_stepD(2) [OF u(2)] _ ug(2), of a "enc32 0"] a(2) by auto
  note wr = tracer_write_spec [OF w ug(2)]
  have wk: "kspace (krn w) m = mem_write (program_memory s m) a (enc32 0)" "reliable w"
    using wr u(2) k1 reliable_wrote [OF wr slaves_stepD(2) [OF u(2)]]
    by (auto simp: slaves_step_def kspace_def elim!: wroteD)
  have wl: "set (klog (krn u)) \<subseteq> set (klog (krn w))"
    using keepsD [OF write_logged, of "set (klog (krn u))" u a "enc32 0" False] w by (simp add: logged_def)
  have wt: "thrlist w = thrlist u" "get_pid False w = (Inr m, w)"
    using get_pid_wrote [OF wr ug(2)] wr by (auto elim!: wroteD)
  obtain K3 where o: "tracer_unsetoptions False (-1) w = (Inr (), w\<lparr>krn := K3\<rparr>)"
    and k3: "kvm K3 = kvm (krn w)" "kmem K3 = kmem (krn w)" "\<forall>n. kfail K3 n = None"
      "klog K3 = klog (krn w) @ [(SETOPTIONS, m, 0, 0)]"
    using unsetoptions_run [OF wt(2)] wk(2) by (auto simp: reliable_def)
  have "map_option master_thread (map_find (thrlist u) m) \<noteq> None"
    using u(2) m(2) s1(6) by (simp add: slaves_step_def)
  then obtain tm where tm: "map_find (thrlist w) m = Some tm" using wt(1) by auto
  have "get_pid False (w\<lparr>krn := K3\<rparr>\<lparr>krn := K\<rparr>) = (Inr m, w\<lparr>krn := K3\<rparr>\<lparr>krn := K\<rparr>)" for K
    using wt(1) ug(1) by (simp add: get_pid_def ret_def get_master_thread_pid_def)
  from detach_run [OF this, of tm] obtain K4 L where
    e: "tracer_detach False (w\<lparr>krn := K3\<rparr>) = (Inr SDBG_TRACE_OK, w\<lparr>krn := K4, thrlist := L\<rparr>)"
    and k4: "kvm K4 = kvm K3" "kmem K4 = kmem K3" "klog K4 = klog K3 @ [(DETACH, m, 0, 0)]"
    using k3(3) tm by auto
  have f: "bindA (find_symbol LAUNCH_BEING_DEBUG) (\<lambda>sy. bindA (get_relocated_address sy)
      (\<lambda>a. tracer_write a (enc32 0) False)) u = (Inr (), w)"
    using w by (simp add: find_addr [OF ua])
  have f2: "bindA (bindA (find_symbol LAUNCH_BEING_DEBUG) (\<lambda>sy. bindA (get_relocated_address sy)
      (\<lambda>a. tracer_write a (enc32 0) False))) k u = k () w" for k :: "unit \<Rightarrow> unit eng"
    by (rule bindA_run) (rule f)
  have "let_go s = (Inr (), w\<lparr>krn := K4, thrlist := L\<rparr>)"
    using d u(1) o e by (simp add: let_go_def ignA_def ret_def getA_def bindA_run f2)
  then show ?thesis
    using wk(1) k3 k4 us wl by (intro exI [of _ "w\<lparr>krn := K4, thrlist := L\<rparr>"]) (auto simp: kspace_def)
qed

lemma report_detach_krn: "keeps (\<lambda>s. krn s = K) (bindA (getA preason) report_detach)"
  "keeps (\<lambda>s. krn s = K) free_engine_resources" "keeps (\<lambda>s. krn s = K) (e_graceful_rmkill p)"
  "keeps (\<lambda>s. krn s = K) (e_say t)"
proof -
  have e: "keeps (\<lambda>s. krn s = K) (do_effect x)" for x by (simp add: do_effect_def keeps_def modA_def)
  have "keeps (\<lambda>s. krn s = K) (forA (\<lambda>(q, sg). do_effect (Sig q sg)) sigs)" for sigs
    by (intro keeps_intros e)
  from keepsD [OF this] show k: "keeps (\<lambda>s. krn s = K) (e_graceful_rmkill p)" for p
    by (auto simp: keeps_def e_graceful_rmkill_def ret_def split: option.split)
  show sy: "keeps (\<lambda>s. krn s = K) (e_say t)" for t
    by (auto simp: keeps_def e_say_def sent_def bindA_def modA_def ret_def throw_def split: option.split)
  show "keeps (\<lambda>s. krn s = K) free_engine_resources"
    using e by (auto simp: keeps_def free_engine_resources_def ret_def split: option.split)
  have "keeps (\<lambda>s. krn s = K) (report_detach r)" for r
    by (cases r) (auto simp: report_detach_def intro!: keeps_intros k sy)
  then show "keeps (\<lambda>s. krn s = K) (bindA (getA preason) report_detach)"
    by (intro keeps_intros)
qed

lemma kill_tail_krn: "keeps (\<lambda>s. krn s = K) (\<lambda>s. whenA (b s) (e_graceful_rmkill (g s)) s)"
  "keeps (\<lambda>s. krn s = K) (\<lambda>s. whenA (b s) (ignA (e_say t)) s)"
  by (rule keepsI, rule keepsD [OF keeps_whenA [OF report_detach_krn(3)]], assumption)
    (rule keepsI, rule keepsD [OF keeps_whenA [OF keeps_ignA [OF report_detach_krn(4)]]], assumption)

lemma catch_after:
  assumes "m s = (Inr (), t)" and "keeps (\<lambda>q. krn q = krn t) (seqA ms)"
  shows "krn (snd (catchA e (bindA (seqA (m # ms)) (\<lambda>_. ret r)) s)) = krn t"
proof -
  obtain x q where "seqA ms t = (x, q)" by fastforce
  then show ?thesis
    using keepsD [OF assms(2), of t] assms(1) by (cases x) (simp_all add: catchA_def bindA_def ret_def)
qed

text \<open>C6: (safety) On a kernel that serves every request, the handlers of a detach and of a kill
  command leave the launcher as they found it: no breakpoint byte stays in its memory,
  \<open>MPIR_being_debugged\<close> is cleared and no other byte differs from the program's own; every
  slave thread has been detached, and the main thread last of all.\<close>

theorem launcher_let_go:
  assumes "h = handle_detach_cmd_event \<or> h = handle_kill_cmd_event"
    and "proc_wf s" and "new_child_pid s = 0" and "reliable s" and "bps_ok s"
    and "bp_reach (launch_hidden_bp s)" and "bp_reach (loader_hidden_bp s)"
    and "get_master_thread_pid s = m" and "map_find (thrlist s) m \<noteq> None"
    and "sym_addr s LAUNCH_BEING_DEBUG = Some a" and "range_ok a 4"
  shows "kspace (krn (snd (h s))) m = mem_write (program_memory s m) a (enc32 0) \<and>
    (\<forall>k. slave s k \<longrightarrow> (DETACH, k, 0, 0) \<in> set (klog (krn (snd (h s))))) \<and>
    last (klog (krn (snd (h s)))) = (DETACH, m, 0, 0)"
proof -
  obtain t where t: "let_go s = (Inr (), t)" and post: "kspace (krn t) m = mem_write (program_memory s m) a (enc32 0)"
    "\<forall>k. slave s k \<longrightarrow> (DETACH, k, 0, 0) \<in> set (klog (krn t))" "last (klog (krn t)) = (DETACH, m, 0, 0)"
    using let_go_spec [OF assms(2-11)] by blast
  have "krn (snd (h s)) = krn t"
    using assms(1)
  proof
    assume h: "h = handle_detach_cmd_event"
    have "keeps (\<lambda>q. krn q = krn t) (seqA [bindA (getA preason) report_detach, free_engine_resources])"
      unfolding seqA.simps by (intro keeps_bindA keeps_ret report_detach_krn)
    from catch_after [of let_go s t, OF t this] show ?thesis
      unfolding h handle_detach_cmd_event_def .
  next
    assume h: "h = handle_kill_cmd_event"
    have "keeps (\<lambda>q. krn q = krn t) (seqA [bindA (get_pid False) e_graceful_rmkill,
        (\<lambda>s. whenA (\<not> is_coloc_sup (rmgr s)) (e_graceful_rmkill (toollauncherpid s)) s),
        (\<lambda>s. whenA (preason s = FE_requested_kill) (ignA (e_say lmonp_kill_done)) s), free_engine_resources])"
      unfolding seqA.simps by (intro keeps_bindA keeps_ret report_detach_krn kill_tail_krn keeps_wf_get_pid)
    from catch_after [of let_go s t, OF t this] show ?thesis
      unfolding h handle_kill_cmd_event_def .
  qed
  then show ?thesis using post by simp
qed

definition demo_leaving :: engine where
  "demo_leaving = demo_engine\<lparr>
     myimage := Some (image_base0\<lparr>linkage_symtab := [(LAUNCH_BEING_DEBUG, demo_symbol LAUNCH_BEING_DEBUG 0x601000)]\<rparr>),
     launch_hidden_bp := Some (demo_bp\<lparr>bp_status := bp_enabled, orig_instruction := 0x1122334455667788\<rparr>),
     thrlist := [(42, linux_x86_thread0\<lparr>master_thread := True, master_pid := 42\<rparr>), (43, linux_x86_thread0\<lparr>ti_lid := 43\<rparr>)]\<rparr>"

theorem launcher_let_go_witness:
  "kspace (krn (snd (handle_detach_cmd_event demo_leaving))) 42 =
     mem_write (program_memory demo_leaving 42) 0x601000 (enc32 0) \<and>
   (DETACH, 43, 0, 0) \<in> set (klog (krn (snd (handle_detach_cmd_event demo_leaving)))) \<and>
   last (klog (krn (snd (handle_detach_cmd_event demo_leaving)))) = (DETACH, 42, 0, 0)"
proof -
  have d: "proc_wf demo_leaving" "new_child_pid demo_leaving = 0" "reliable demo_leaving" "bps_ok demo_leaving"
    "bp_reach (launch_hidden_bp demo_leaving)" "bp_reach (loader_hidden_bp demo_leaving)"
    "get_master_thread_pid demo_leaving = 42" "map_find (thrlist demo_leaving) 42 \<noteq> None" "slave demo_leaving 43"
    using demo_bp_x86(1,2)
    by (simp_all add: demo_leaving_def demo_engine_def demo_machine_def machine.defs engine.defs reliable_def
        bps_ok_def bp_reach_def bp_x86_def range_ok_def proc_wf_def map_inv_def map_keys_def thr_ok_def thr2pid_def
        linux_x86_thread0_def get_master_thread_pid_def slave_def)
  have a: "sym_addr demo_leaving LAUNCH_BEING_DEBUG = Some 0x601000"
    by (simp add: sym_addr_def demo_leaving_def get_a_symbol_def image_base0_def demo_symbol_def
        symbol_base1_def demo_engine_def machine.defs demo_machine_def Let_def)
  have r: "range_ok 0x601000 4" by (simp add: range_ok_def)
  show ?thesis
    using launcher_let_go [of handle_detach_cmd_event, OF _ d(1-8) a r] d(9) by simp
qed

end
