(* ===== verification/Be_Sync.thy ===== *)
theory Be_Sync
  imports Proctab Rm_Map Linux_Ptracer
begin

text \<open>
  The layer by which the daemons take control of the tasks on their node:
  \<^verbatim>\<open>lmon_be_sync_mpi.cxx\<close>, which dispatches on the resource manager, and
  \<^verbatim>\<open>lmon_be_sync_mpi_generic.cxx\<close>, which works by signals and, for a job that is being
  launched under SLURM or Flux, by \<open>ptrace\<close>. On a machine that is not a Blue Gene the two
  Blue Gene layers are stubs. The system answers each request and each \<open>waitpid\<close> as it likes
  and keeps a log, from which the state of every task follows.
\<close>

section \<open>Return codes\<close>

datatype lmon_rc_e =
    LMON_OK | LMON_EINVAL | LMON_EBDARG | LMON_ELNCHR | LMON_EINIT | LMON_ESYS | LMON_ESUBCOM | LMON_ESUBSYNC
  | LMON_ETOUT | LMON_ENOMEM | LMON_ENCLLB | LMON_ECLLB | LMON_ENEGCB | LMON_ENOPLD | LMON_EBDMSG | LMON_EDUNAV
  | LMON_ETRUNC | LMON_EBUG | LMON_NOTIMPL | LMON_YES | LMON_NO

section \<open>The system\<close>

datatype task_req = Kill int | Attach | Detach

datatype waitans = Reaped | Wait_fail errno

text \<open>\<open>os_ok\<close> says whether the \<open>n\<close>-th request succeeds. \<open>fastpath\<close> is the static variable
  \<open>dontstop_fastpath\<close>, \<open>mpao_wr\<close> the configuration \<open>LMON_SLURM_MPAO_WR\<close>.\<close>

record task_os =
  os_log :: "(task_req \<times> int \<times> bool) list"
  os_ok :: "nat \<Rightarrow> bool"
  os_waits :: "waitans list"
  fastpath :: int
  mpao_wr :: bool

type_synonym 'a tos = "(task_os, 'a) act"

definition os_req :: "task_req \<Rightarrow> int \<Rightarrow> bool tos" where
  "os_req r p s = (let ok = os_ok s (length (os_log s)) in ret ok (s\<lparr>os_log := os_log s @ [(r, p, ok)]\<rparr>))"

text \<open>One request for each task; a failure is noted and the loop goes on.\<close>

fun all_req :: "task_req \<Rightarrow> int list \<Rightarrow> lmon_rc_e \<Rightarrow> lmon_rc_e tos" where
  "all_req r [] rc = ret rc"
| "all_req r (p # ps) rc = bindA (os_req r p) (\<lambda>ok. all_req r ps (if ok then rc else LMON_EINVAL))"

text \<open>The loop around \<open>waitpid\<close>: an error other than \<open>EINTR\<close> is noted and the call made
  again, so a lasting error ends it only when the answers do.\<close>

fun wait_loop :: "waitans list \<Rightarrow> lmon_rc_e \<Rightarrow> (lmon_rc_e \<times> waitans list) option" where
  "wait_loop [] rc = None"
| "wait_loop (Reaped # ws) rc = Some (rc, ws)"
| "wait_loop (Wait_fail e # ws) rc = wait_loop ws (if e = EINTR then rc else LMON_EINVAL)"

definition await_task :: "lmon_rc_e \<Rightarrow> lmon_rc_e tos" where
  "await_task rc s = (case wait_loop (os_waits s) rc of
     None \<Rightarrow> throw No_return s
   | Some (rc, ws) \<Rightarrow> ret rc (s\<lparr>os_waits := ws\<rparr>))"

text \<open>The loops run to \<open>psize\<close>; reading the table past its end is undefined.\<close>

definition over_tasks :: "MPIR_PROCDESC_EXT list \<Rightarrow> int \<Rightarrow> (int list \<Rightarrow> 'a tos) \<Rightarrow> 'a tos" where
  "over_tasks ptab psize f =
     (if int (length ptab) < psize then throw Undefined_behaviour
      else f (map (\<lambda>e. sint (pid (pd e))) (take (nat psize) ptab)))"

section \<open>Generic Linux\<close>

definition procctl_stop_generic :: "MPIR_PROCDESC_EXT list \<Rightarrow> int \<Rightarrow> lmon_rc_e tos" where
  "procctl_stop_generic ptab psize = over_tasks ptab psize (\<lambda>ps. all_req (Kill SIGSTOP) ps LMON_OK)"

definition procctl_init_generic :: "MPIR_PROCDESC_EXT list \<Rightarrow> int \<Rightarrow> int \<Rightarrow> lmon_rc_e tos" where
  "procctl_init_generic ptab islaunch psize = procctl_stop_generic ptab psize"

text \<open>A task that could not be attached is not waited for.\<close>

fun attach_tasks :: "int list \<Rightarrow> lmon_rc_e \<Rightarrow> lmon_rc_e tos" where
  "attach_tasks [] rc = ret rc"
| "attach_tasks (p # ps) rc = bindA (os_req Attach p) (\<lambda>ok.
     if ok then bindA (await_task rc) (\<lambda>rc. attach_tasks ps rc) else attach_tasks ps LMON_EINVAL)"

definition procctl_init_ptrace :: "MPIR_PROCDESC_EXT list \<Rightarrow> int \<Rightarrow> int \<Rightarrow> lmon_rc_e tos" where
  "procctl_init_ptrace ptab islaunch psize = over_tasks ptab psize (\<lambda>ps. attach_tasks ps LMON_OK)"

definition procctl_run_generic :: "int \<Rightarrow> MPIR_PROCDESC_EXT list \<Rightarrow> int \<Rightarrow> lmon_rc_e tos" where
  "procctl_run_generic signum ptab psize = over_tasks ptab psize (\<lambda>ps.
     bindA (if signum \<noteq> SIGCONT then all_req (Kill SIGCONT) ps LMON_OK else ret LMON_OK) (\<lambda>rc.
       all_req (Kill signum) ps rc))"

definition procctl_initdone_generic :: "MPIR_PROCDESC_EXT list \<Rightarrow> int \<Rightarrow> lmon_rc_e tos" where
  "procctl_initdone_generic ptab psize = ret LMON_OK"

definition procctl_done_generic :: "MPIR_PROCDESC_EXT list \<Rightarrow> int \<Rightarrow> lmon_rc_e tos" where
  "procctl_done_generic ptab psize = ret LMON_OK"

definition procctl_perf_generic :: "MPIR_PROCDESC_EXT list \<Rightarrow> int \<Rightarrow> lmon_rc_e tos" where
  "procctl_perf_generic ptab psize = ret LMON_EINVAL"

fun await_tasks :: "int list \<Rightarrow> lmon_rc_e \<Rightarrow> lmon_rc_e tos" where
  "await_tasks [] rc = ret rc"
| "await_tasks (p # ps) rc = bindA (await_task rc) (await_tasks ps)"

definition procctl_initdone_ptrace :: "MPIR_PROCDESC_EXT list \<Rightarrow> int \<Rightarrow> lmon_rc_e tos" where
  "procctl_initdone_ptrace ptab psize = over_tasks ptab psize (\<lambda>ps.
     bindA (\<lambda>s. if mpao_wr s then await_tasks ps LMON_OK s else ret LMON_OK s) (\<lambda>rc.
     bindA (procctl_stop_generic ptab psize) (\<lambda>_.
       all_req Detach ps rc)))"

section \<open>Blue Gene, elsewhere\<close>

definition procctl_init_bg :: "MPIR_PROCDESC_EXT list \<Rightarrow> int \<Rightarrow> int \<Rightarrow> lmon_rc_e tos" where
  "procctl_init_bg ptab islaunch psize = ret LMON_EINVAL"
definition procctl_stop_bg :: "MPIR_PROCDESC_EXT list \<Rightarrow> int \<Rightarrow> lmon_rc_e tos" where
  "procctl_stop_bg ptab psize = ret LMON_EINVAL"
definition procctl_run_bg :: "int \<Rightarrow> MPIR_PROCDESC_EXT list \<Rightarrow> int \<Rightarrow> lmon_rc_e tos" where
  "procctl_run_bg signum ptab psize = ret LMON_EINVAL"
definition procctl_perf_bg :: "MPIR_PROCDESC_EXT list \<Rightarrow> int \<Rightarrow> lmon_rc_e tos" where
  "procctl_perf_bg ptab psize = ret LMON_EINVAL"
definition procctl_initdone_bg :: "MPIR_PROCDESC_EXT list \<Rightarrow> int \<Rightarrow> int \<Rightarrow> lmon_rc_e tos" where
  "procctl_initdone_bg ptab islaunch psize = ret LMON_EINVAL"
definition procctl_done_bg :: "MPIR_PROCDESC_EXT list \<Rightarrow> int \<Rightarrow> lmon_rc_e tos" where
  "procctl_done_bg ptab psize = ret LMON_EINVAL"

definition procctl_init_bgq :: "MPIR_PROCDESC_EXT list \<Rightarrow> int \<Rightarrow> int \<Rightarrow> lmon_rc_e tos" where
  "procctl_init_bgq ptab islaunch psize = ret LMON_EINVAL"
definition procctl_stop_bgq :: "MPIR_PROCDESC_EXT list \<Rightarrow> int \<Rightarrow> lmon_rc_e tos" where
  "procctl_stop_bgq ptab psize = ret LMON_EINVAL"
definition procctl_run_bgq :: "int \<Rightarrow> MPIR_PROCDESC_EXT list \<Rightarrow> int \<Rightarrow> lmon_rc_e tos" where
  "procctl_run_bgq signum ptab psize = ret LMON_EINVAL"
definition procctl_perf_bgq :: "MPIR_PROCDESC_EXT list \<Rightarrow> int \<Rightarrow> lmon_rc_e tos" where
  "procctl_perf_bgq ptab psize = ret LMON_EINVAL"
definition procctl_initdone_bgq :: "MPIR_PROCDESC_EXT list \<Rightarrow> int \<Rightarrow> int \<Rightarrow> lmon_rc_e tos" where
  "procctl_initdone_bgq ptab islaunch psize = ret LMON_EINVAL"
definition procctl_done_bgq :: "MPIR_PROCDESC_EXT list \<Rightarrow> int \<Rightarrow> lmon_rc_e tos" where
  "procctl_done_bgq ptab psize = ret LMON_EINVAL"

section \<open>Dispatch on the resource manager\<close>

text \<open>The groups of cases of the six \<open>switch\<close>es.\<close>

datatype rm_group = Ptrace_rm | Generic_rm | Bg_rm | Bgq_rm | Other_rm

fun rm_case :: "rm_catalogue_e \<Rightarrow> rm_group" where
  "rm_case RC_slurm = Ptrace_rm"
| "rm_case RC_flux = Ptrace_rm"
| "rm_case RC_orte = Generic_rm"
| "rm_case RC_alps = Generic_rm"
| "rm_case RC_cray = Generic_rm"
| "rm_case RC_gupc = Generic_rm"
| "rm_case RC_mpiexec_hydra = Generic_rm"
| "rm_case RC_bglrm = Bg_rm"
| "rm_case RC_bgprm = Bg_rm"
| "rm_case RC_bgqrm = Bgq_rm"
| "rm_case RC_bgq_slurm = Bgq_rm"
| "rm_case RC_mchecker_rm = Other_rm"
| "rm_case RC_none = Other_rm"
| "rm_case RC_bgrm = Other_rm"

definition unless_fast :: "lmon_rc_e tos \<Rightarrow> lmon_rc_e tos" where
  "unless_fast m s = (if fastpath s \<noteq> 0 then ret LMON_OK s else m s)"

definition procctl_init :: "rm_catalogue_e \<Rightarrow> MPIR_PROCDESC_EXT list \<Rightarrow> int \<Rightarrow> int \<Rightarrow> int \<Rightarrow> lmon_rc_e tos" where
  "procctl_init rmtype ptab islaunch psize dontstop =
     bindA (whenA (dontstop = 0 \<or> dontstop = 1) (modA (\<lambda>s. s\<lparr>fastpath := dontstop\<rparr>))) (\<lambda>_.
       case rm_case rmtype of
         Ptrace_rm \<Rightarrow> if islaunch \<noteq> 0 then procctl_init_ptrace ptab islaunch psize
                      else procctl_init_generic ptab islaunch psize
       | Generic_rm \<Rightarrow> procctl_init_generic ptab islaunch psize
       | Bg_rm \<Rightarrow> procctl_init_bg ptab islaunch psize
       | Bgq_rm \<Rightarrow> unless_fast (procctl_init_bgq ptab islaunch psize)
       | Other_rm \<Rightarrow> ret LMON_EINVAL)"

definition procctl_stop :: "rm_catalogue_e \<Rightarrow> MPIR_PROCDESC_EXT list \<Rightarrow> int \<Rightarrow> lmon_rc_e tos" where
  "procctl_stop rmtype ptab psize = (case rm_case rmtype of
     Ptrace_rm \<Rightarrow> procctl_stop_generic ptab psize
   | Generic_rm \<Rightarrow> procctl_stop_generic ptab psize
   | Bg_rm \<Rightarrow> procctl_stop_bg ptab psize
   | Bgq_rm \<Rightarrow> unless_fast (procctl_stop_bgq ptab psize)
   | Other_rm \<Rightarrow> ret LMON_EINVAL)"

definition procctl_run :: "rm_catalogue_e \<Rightarrow> int \<Rightarrow> MPIR_PROCDESC_EXT list \<Rightarrow> int \<Rightarrow> lmon_rc_e tos" where
  "procctl_run rmtype signum ptab psize = (case rm_case rmtype of
     Ptrace_rm \<Rightarrow> procctl_run_generic signum ptab psize
   | Generic_rm \<Rightarrow> procctl_run_generic signum ptab psize
   | Bg_rm \<Rightarrow> procctl_run_bg signum ptab psize
   | Bgq_rm \<Rightarrow> unless_fast (procctl_run_bgq signum ptab psize)
   | Other_rm \<Rightarrow> ret LMON_EINVAL)"

definition procctl_initdone :: "rm_catalogue_e \<Rightarrow> MPIR_PROCDESC_EXT list \<Rightarrow> int \<Rightarrow> int \<Rightarrow> lmon_rc_e tos" where
  "procctl_initdone rmtype ptab islaunch psize = (case rm_case rmtype of
     Ptrace_rm \<Rightarrow> if islaunch = 1 then procctl_initdone_ptrace ptab psize else procctl_initdone_generic ptab psize
   | Generic_rm \<Rightarrow> procctl_initdone_generic ptab psize
   | Bg_rm \<Rightarrow> procctl_initdone_bg ptab islaunch psize
   | Bgq_rm \<Rightarrow> unless_fast (procctl_initdone_bgq ptab islaunch psize)
   | Other_rm \<Rightarrow> ret LMON_EINVAL)"

definition procctl_done :: "rm_catalogue_e \<Rightarrow> MPIR_PROCDESC_EXT list \<Rightarrow> int \<Rightarrow> lmon_rc_e tos" where
  "procctl_done rmtype ptab psize = (case rm_case rmtype of
     Ptrace_rm \<Rightarrow> procctl_done_generic ptab psize
   | Generic_rm \<Rightarrow> procctl_done_generic ptab psize
   | Bg_rm \<Rightarrow> procctl_done_bg ptab psize
   | Bgq_rm \<Rightarrow> unless_fast (procctl_done_bgq ptab psize)
   | Other_rm \<Rightarrow> ret LMON_EINVAL)"

definition procctl_perf :: "rm_catalogue_e \<Rightarrow> MPIR_PROCDESC_EXT list \<Rightarrow> int \<Rightarrow> lmon_rc_e tos" where
  "procctl_perf rmtype ptab psize = (case rm_case rmtype of
     Ptrace_rm \<Rightarrow> procctl_perf_generic ptab psize
   | Generic_rm \<Rightarrow> procctl_perf_generic ptab psize
   | Bg_rm \<Rightarrow> procctl_perf_bg ptab psize
   | Bgq_rm \<Rightarrow> procctl_perf_bgq ptab psize
   | Other_rm \<Rightarrow> ret LMON_EINVAL)"

text \<open>An error that lasts keeps the daemon in the loop.\<close>

lemma lasting_error_never_ends: "e \<noteq> EINTR \<Longrightarrow> wait_loop (replicate n (Wait_fail e)) rc = None"
  by (induction n arbitrary: rc) simp_all

section \<open>The state of the tasks\<close>

text \<open>What the log makes of a task: traced or not, and stopped by a signal or not. A traced
  task halts at its next event and stays stopped after \<open>PTRACE_DETACH\<close> if a \<open>SIGSTOP\<close> waits.\<close>

fun task_event :: "task_req \<times> int \<times> bool \<Rightarrow> int \<Rightarrow> bool \<times> bool \<Rightarrow> bool \<times> bool" where
  "task_event (r, p, ok) k (tr, st) =
     (if k \<noteq> p \<or> \<not> ok then (tr, st)
      else case r of Attach \<Rightarrow> (True, st) | Detach \<Rightarrow> (False, st)
        | Kill g \<Rightarrow> (tr, if g = SIGSTOP then True else if g = SIGCONT then False else st))"

definition task_after :: "(task_req \<times> int \<times> bool) list \<Rightarrow> int \<Rightarrow> bool \<times> bool" where
  "task_after log k = fold (\<lambda>ev. task_event ev k) log (False, False)"

lemma task_after_append: "task_after (l @ l') k = fold (\<lambda>ev. task_event ev k) l' (task_after l k)"
  by (simp add: task_after_def)

definition reqs :: "task_req \<Rightarrow> int list \<Rightarrow> (task_req \<times> int \<times> bool) list" where
  "reqs r ps = map (\<lambda>p. (r, p, True)) ps"

lemma fold_reqs:
  "fold (\<lambda>ev. task_event ev k) (reqs r ps) x = (if k \<in> set ps then task_event (r, k, True) k x else x)"
proof (induction ps arbitrary: x)
  case (Cons p ps)
  have "task_event (r, k, True) k (task_event (r, k, True) k x) = task_event (r, k, True) k x"
    by (cases x; cases r) simp_all
  moreover have "p \<noteq> k \<Longrightarrow> task_event (r, p, True) k x = x" by (cases x) simp
  ultimately show ?case
    using Cons [of "task_event (r, p, True) k x"] by (cases "p = k") (simp_all add: reqs_def del: task_event.simps)
qed (simp add: reqs_def)

section \<open>A system that serves every request\<close>

definition pids_of :: "MPIR_PROCDESC_EXT list \<Rightarrow> int list" where
  "pids_of ptab = map (\<lambda>e. sint (pid (pd e))) ptab"

lemma over_whole: "over_tasks ptab (int (length ptab)) f = f (pids_of ptab)"
  by (simp add: over_tasks_def pids_of_def)

definition serves :: "task_os \<Rightarrow> nat \<Rightarrow> bool" where
  "serves s n \<longleftrightarrow> (\<forall>i. os_ok s i) \<and> (\<forall>w \<in> set (os_waits s). w = Reaped \<or> w = Wait_fail EINTR) \<and>
     n \<le> length (filter (\<lambda>w. w = Reaped) (os_waits s))"

lemma all_req_served: "(\<And>i. os_ok s i) \<Longrightarrow> all_req r ps rc s = (Inr rc, s\<lparr>os_log := os_log s @ reqs r ps\<rparr>)"
  by (induction ps arbitrary: s) (simp_all add: ret_def bindA_def os_req_def Let_def reqs_def)

lemma wait_loop_served:
  "(\<forall>w \<in> set ws. w = Reaped \<or> w = Wait_fail EINTR) \<Longrightarrow> Suc n \<le> length (filter (\<lambda>w. w = Reaped) ws) \<Longrightarrow>
   \<exists>ws'. wait_loop ws rc = Some (rc, ws') \<and> set ws' \<subseteq> set ws \<and> n \<le> length (filter (\<lambda>w. w = Reaped) ws')"
  by (induction ws rc rule: wait_loop.induct) (auto split: if_splits)

lemma await_served:
  assumes "serves s (Suc n)"
  shows "\<exists>ws. await_task rc s = (Inr rc, s\<lparr>os_waits := ws\<rparr>) \<and> serves (s\<lparr>os_waits := ws\<rparr>) n"
proof -
  obtain ws where "wait_loop (os_waits s) rc = Some (rc, ws)" "set ws \<subseteq> set (os_waits s)"
    "n \<le> length (filter (\<lambda>w. w = Reaped) ws)"
    using wait_loop_served [of "os_waits s" n rc] assms by (auto simp: serves_def)
  then show ?thesis using assms by (intro exI [of _ ws]) (auto simp: await_task_def ret_def serves_def)
qed

lemma serves_log [simp]: "serves (s\<lparr>os_log := l\<rparr>) n = serves s n"
  by (simp add: serves_def)

lemma attach_served:
  "serves s (length ps + n) \<Longrightarrow> \<exists>ws. attach_tasks ps rc s = (Inr rc, s\<lparr>os_log := os_log s @ reqs Attach ps, os_waits := ws\<rparr>) \<and>
     serves (s\<lparr>os_waits := ws\<rparr>) n"
proof (induction ps arbitrary: s)
  case Nil
  then show ?case by (intro exI [of _ "os_waits s"]) (simp add: ret_def reqs_def)
next
  case (Cons p ps)
  let ?s = "s\<lparr>os_log := os_log s @ [(Attach, p, True)]\<rparr>"
  have ok: "os_ok s i" for i using Cons.prems by (simp add: serves_def)
  obtain ws where a: "await_task rc ?s = (Inr rc, ?s\<lparr>os_waits := ws\<rparr>)" "serves (?s\<lparr>os_waits := ws\<rparr>) (length ps + n)"
    using await_served [of ?s "length ps + n" rc] Cons.prems by auto
  from Cons.IH [OF this(2)] obtain ws' where
    "attach_tasks ps rc (?s\<lparr>os_waits := ws\<rparr>) = (Inr rc, ?s\<lparr>os_log := os_log ?s @ reqs Attach ps, os_waits := ws'\<rparr>)"
    "serves (s\<lparr>os_waits := ws'\<rparr>) n" by (auto simp: serves_def)
  then show ?case
    using a(1) ok by (intro exI [of _ ws']) (simp add: bindA_def os_req_def Let_def ret_def reqs_def)
qed

lemma await_all_served:
  "serves s (length ps + n) \<Longrightarrow> \<exists>ws. await_tasks ps rc s = (Inr rc, s\<lparr>os_waits := ws\<rparr>) \<and> serves (s\<lparr>os_waits := ws\<rparr>) n"
proof (induction ps arbitrary: s)
  case Nil
  then show ?case by (intro exI [of _ "os_waits s"]) (simp add: ret_def)
next
  case (Cons p ps)
  obtain ws where a: "await_task rc s = (Inr rc, s\<lparr>os_waits := ws\<rparr>)" "serves (s\<lparr>os_waits := ws\<rparr>) (length ps + n)"
    using await_served [of s "length ps + n" rc] Cons.prems by auto
  from Cons.IH [OF this(2)] obtain ws' where
    "await_tasks ps rc (s\<lparr>os_waits := ws\<rparr>) = (Inr rc, s\<lparr>os_waits := ws'\<rparr>)" "serves (s\<lparr>os_waits := ws'\<rparr>) n"
    by auto
  then show ?case using a(1) by (intro exI [of _ ws']) (simp add: bindA_def)
qed

text \<open>Stopping the tasks of a table, launched or attached to, and setting them running again.\<close>

lemma tasks_stopped:
  assumes "rm_case m = Ptrace_rm \<or> rm_case m = Generic_rm" and "islaunch = 0 \<or> islaunch = 1"
    and "serves s (2 * length ptab)" and "\<forall>k. \<not> fst (task_after (os_log s) k)"
  shows "\<exists>t u. procctl_init m ptab islaunch (int (length ptab)) ds s = (Inr LMON_OK, t) \<and>
    procctl_initdone m ptab islaunch (int (length ptab)) t = (Inr LMON_OK, u) \<and> (\<forall>i. os_ok u i) \<and>
    (\<forall>k. task_after (os_log u) k = (if k \<in> set (pids_of ptab) then (False, True) else task_after (os_log s) k))"
proof -
  let ?n = "int (length ptab)" and ?ps = "pids_of ptab"
  obtain q where q: "q = (if ds = 0 \<or> ds = 1 then s\<lparr>fastpath := ds\<rparr> else s)" by blast
  have first: "bindA (whenA (ds = 0 \<or> ds = 1) (modA (\<lambda>s. s\<lparr>fastpath := ds\<rparr>))) F s = F () q" for F :: "unit \<Rightarrow> 'b tos"
    by (simp add: q bindA_def whenA_def modA_def ret_def)
  have len: "length ?ps = length ptab" by (simp add: pids_of_def)
  have s: "serves q (2 * length ptab)" "os_log q = os_log s" using assms(3) by (simp_all add: q serves_def)
  have unt: "task_after (os_log s) k = (False, snd (task_after (os_log s) k))" for k
    using assms(4) by (metis (full_types) prod.collapse)
  show ?thesis
  proof (cases "rm_case m = Ptrace_rm \<and> islaunch = 1")
    case True
    obtain ws where a: "attach_tasks ?ps LMON_OK q = (Inr LMON_OK, q\<lparr>os_log := os_log s @ reqs Attach ?ps, os_waits := ws\<rparr>)"
      and w: "serves (q\<lparr>os_waits := ws\<rparr>) (length ?ps)"
      using attach_served [of q ?ps "length ?ps" LMON_OK] s len by (auto simp: mult_2)
    let ?t = "q\<lparr>os_log := os_log s @ reqs Attach ?ps, os_waits := ws\<rparr>"
    have "\<exists>ws'. (if mpao_wr ?t then await_tasks ?ps LMON_OK ?t else ret LMON_OK ?t) = (Inr LMON_OK, ?t\<lparr>os_waits := ws'\<rparr>)"
      using await_all_served [of ?t ?ps 0 LMON_OK] w by (auto simp: ret_def serves_def)
    then obtain ws' where b: "(if mpao_wr ?t then await_tasks ?ps LMON_OK ?t else ret LMON_OK ?t) = (Inr LMON_OK, ?t\<lparr>os_waits := ws'\<rparr>)"
      by blast
    let ?u = "?t\<lparr>os_waits := ws', os_log := (os_log ?t @ reqs (Kill SIGSTOP) ?ps) @ reqs Detach ?ps\<rparr>"
    have ok: "os_ok q i" for i using s by (simp add: serves_def)
    have "procctl_init m ptab islaunch ?n ds s = (Inr LMON_OK, ?t)"
      using True a by (simp add: procctl_init_def procctl_init_ptrace_def over_whole first)
    moreover have "procctl_initdone m ptab islaunch ?n ?t = (Inr LMON_OK, ?u)"
      using True b ok
      by (simp add: procctl_initdone_def procctl_initdone_ptrace_def procctl_stop_generic_def over_whole bindA_def all_req_served)
    moreover have "task_after (os_log ?u) k = (if k \<in> set ?ps then (False, True) else task_after (os_log s) k)" for k
      using unt [of k] by (cases "task_after (os_log s) k") (simp add: task_after_append fold_reqs)
    ultimately show ?thesis using ok by (intro exI [of _ ?t] exI [of _ ?u]) simp
  next
    case False
    let ?t = "q\<lparr>os_log := os_log s @ reqs (Kill SIGSTOP) ?ps\<rparr>"
    have ok: "os_ok q i" for i using s by (simp add: serves_def)
    have "procctl_init m ptab islaunch ?n ds s = (Inr LMON_OK, ?t)"
      using False assms(1,2) ok s(2)
      by (auto simp: procctl_init_def procctl_init_generic_def procctl_stop_generic_def over_whole first all_req_served)
    moreover have "procctl_initdone m ptab islaunch ?n ?t = (Inr LMON_OK, ?t)"
      using False assms(1,2) by (auto simp: procctl_initdone_def procctl_initdone_generic_def ret_def)
    moreover have "task_after (os_log ?t) k = (if k \<in> set ?ps then (False, True) else task_after (os_log s) k)" for k
      using unt [of k] by (cases "task_after (os_log s) k") (simp add: task_after_append fold_reqs)
    ultimately show ?thesis using ok by (intro exI [of _ ?t]) simp
  qed
qed

lemma tasks_run:
  assumes "rm_case m = Ptrace_rm \<or> rm_case m = Generic_rm" and "\<forall>i. os_ok u i"
    and "\<forall>k. \<not> fst (task_after (os_log u) k)"
  shows "\<exists>v. procctl_run m 0 ptab (int (length ptab)) u = (Inr LMON_OK, v) \<and>
    (\<forall>k. task_after (os_log v) k = (if k \<in> set (pids_of ptab) then (False, False) else task_after (os_log u) k))"
proof -
  let ?n = "int (length ptab)" and ?ps = "pids_of ptab"
  let ?v = "u\<lparr>os_log := (os_log u @ reqs (Kill SIGCONT) ?ps) @ reqs (Kill 0) ?ps\<rparr>"
  have "task_after (os_log u) k = (False, snd (task_after (os_log u) k))" for k
    using assms(3) by (metis (full_types) prod.collapse)
  then have "task_after (os_log ?v) k = (if k \<in> set ?ps then (False, False) else task_after (os_log u) k)" for k
    using task_event.simps [of "Kill SIGCONT" k True k False "snd (task_after (os_log u) k)"]
    by (auto simp: task_after_append fold_reqs SIGCONT_def SIGSTOP_def)
  moreover have "procctl_run m 0 ptab ?n u = (Inr LMON_OK, ?v)"
    using assms(1,2)
    by (auto simp: procctl_run_def procctl_run_generic_def over_whole all_req_served bindA_def SIGCONT_def)
  ultimately show ?thesis by blast
qed

section \<open>Properties\<close>

text \<open>C32: (functional) Taking control of a job: with a system that serves the requests, the init and
  initdone steps leave every task of the table stopped and untraced, whether the job was
  launched (attached to with \<open>ptrace\<close> under SLURM and Flux) or attached to, and touch no other
  process; the run step with signal 0, which the daemons use when the user does not want the
  job stopped, sets them all running again.\<close>

theorem tasks_under_control:
  assumes "rm_case m = Ptrace_rm \<or> rm_case m = Generic_rm" and "islaunch = 0 \<or> islaunch = 1"
    and "serves s (2 * length ptab)" and "\<forall>k. \<not> fst (task_after (os_log s) k)"
  shows "\<exists>t u v. procctl_init m ptab islaunch (int (length ptab)) ds s = (Inr LMON_OK, t) \<and>
    procctl_initdone m ptab islaunch (int (length ptab)) t = (Inr LMON_OK, u) \<and>
    procctl_run m 0 ptab (int (length ptab)) u = (Inr LMON_OK, v) \<and>
    (\<forall>k. task_after (os_log u) k = (if k \<in> set (pids_of ptab) then (False, True) else task_after (os_log s) k)) \<and>
    (\<forall>k. task_after (os_log v) k = (if k \<in> set (pids_of ptab) then (False, False) else task_after (os_log s) k))"
proof -
  obtain t u where tu: "procctl_init m ptab islaunch (int (length ptab)) ds s = (Inr LMON_OK, t)"
      "procctl_initdone m ptab islaunch (int (length ptab)) t = (Inr LMON_OK, u)" "\<forall>i. os_ok u i"
      "\<forall>k. task_after (os_log u) k = (if k \<in> set (pids_of ptab) then (False, True) else task_after (os_log s) k)"
    using tasks_stopped [OF assms] by blast
  obtain v where "procctl_run m 0 ptab (int (length ptab)) u = (Inr LMON_OK, v)"
    "\<forall>k. task_after (os_log v) k = (if k \<in> set (pids_of ptab) then (False, False) else task_after (os_log u) k)"
    using tasks_run [OF assms(1) tu(3)] tu(4) assms(4) by (metis fst_conv)
  then show ?thesis using tu by (intro exI conjI) auto
qed

definition demo_tasks_os :: task_os where
  "demo_tasks_os = \<lparr>os_log = [], os_ok = \<lambda>_. True, os_waits = [Reaped, Wait_fail EINTR, Reaped], fastpath = 0, mpao_wr = True\<rparr>"

definition demo_ptab :: "MPIR_PROCDESC_EXT list" where
  "demo_ptab = [\<lparr>pd = \<lparr>host_name = ''n1'', executable_name = ''a'', pid = 10\<rparr>, mpirank = 0, cnodeid = -1\<rparr>]"

theorem tasks_under_control_witness:
  "\<exists>t u. procctl_init RC_slurm demo_ptab 1 1 0 demo_tasks_os = (Inr LMON_OK, t) \<and>
     procctl_initdone RC_slurm demo_ptab 1 1 t = (Inr LMON_OK, u) \<and> task_after (os_log u) 10 = (False, True)"
proof -
  have p: "rm_case RC_slurm = Ptrace_rm \<or> rm_case RC_slurm = Generic_rm" "(1 :: int) = 0 \<or> (1 :: int) = 1"
    "serves demo_tasks_os (2 * length demo_ptab)" "\<forall>k. \<not> fst (task_after (os_log demo_tasks_os) k)"
    by (simp_all add: serves_def demo_tasks_os_def demo_ptab_def task_after_def)
  have n: "int (length demo_ptab) = 1" "10 \<in> set (pids_of demo_ptab)" by (simp_all add: demo_ptab_def pids_of_def)
  show ?thesis using tasks_under_control [OF p, of 0] n by (metis (full_types))
qed

text \<open>The outcome of making the requests \<open>rs\<close>.\<close>

definition swept :: "(task_req \<times> int) list \<Rightarrow> lmon_rc_e \<Rightarrow> task_os \<Rightarrow> (exn + lmon_rc_e) \<times> task_os \<Rightarrow> bool" where
  "swept rs rc s x \<longleftrightarrow> (\<exists>l. map (\<lambda>(r, p, ok). (r, p)) l = rs \<and>
     x = (Inr (if \<forall>(r, p, ok) \<in> set l. ok then rc else LMON_EINVAL), s\<lparr>os_log := os_log s @ l\<rparr>))"

lemma swept_ret: "swept [] rc s (ret rc s)"
  unfolding swept_def by (intro exI [of _ "[]"]) (simp add: ret_def)

lemma swept_append:
  assumes "swept rs rc s (m s)" and "\<And>rc t. swept rs' rc t (f rc t)"
  shows "swept (rs @ rs') rc s (bindA m f s)"
proof -
  obtain l where l: "map (\<lambda>(r, p, ok). (r, p)) l = rs"
    "m s = (Inr (if \<forall>(r, p, ok) \<in> set l. ok then rc else LMON_EINVAL), s\<lparr>os_log := os_log s @ l\<rparr>)"
    using assms(1) by (auto simp: swept_def)
  let ?rc = "if \<forall>(r, p, ok) \<in> set l. ok then rc else LMON_EINVAL" and ?t = "s\<lparr>os_log := os_log s @ l\<rparr>"
  obtain l' where l': "map (\<lambda>(r, p, ok). (r, p)) l' = rs'"
    "f ?rc ?t = (Inr (if \<forall>(r, p, ok) \<in> set l'. ok then ?rc else LMON_EINVAL), ?t\<lparr>os_log := os_log ?t @ l'\<rparr>)"
    using assms(2) [of ?rc ?t] unfolding swept_def by blast
  show ?thesis
    unfolding swept_def using l l' by (intro exI [of _ "l @ l'"]) (auto simp: bindA_def)
qed

lemma swept_all: "swept (map (Pair r) ps) rc s (all_req r ps rc s)"
proof (induction ps arbitrary: rc s)
  case Nil
  then show ?case using swept_ret by simp
next
  case (Cons p ps)
  let ?ok = "os_ok s (length (os_log s))"
  obtain l where "map (\<lambda>(r, p, ok). (r, p)) l = map (Pair r) ps"
      "all_req r ps (if ?ok then rc else LMON_EINVAL) (s\<lparr>os_log := os_log s @ [(r, p, ?ok)]\<rparr>) =
      (Inr (if \<forall>(r, p, ok) \<in> set l. ok then if ?ok then rc else LMON_EINVAL else LMON_EINVAL),
       s\<lparr>os_log := os_log s @ [(r, p, ?ok)] @ l\<rparr>)"
    using Cons [of "if ?ok then rc else LMON_EINVAL" "s\<lparr>os_log := os_log s @ [(r, p, ?ok)]\<rparr>"]
    by (auto simp: swept_def)
  then show ?case
    unfolding swept_def
    by (intro exI [of _ "(r, p, ?ok) # l"]) (simp add: bindA_def os_req_def Let_def ret_def)
qed

text \<open>A failure does not stop a sweep: whatever the system answers, a stop, and each of the two
  rounds of a run, makes its request for every task of the table, in order, and the result is
  \<open>LMON_EINVAL\<close> exactly when one of the requests failed.\<close>

theorem sweep_reaches_every_task:
  assumes "rm_case m = Ptrace_rm \<or> rm_case m = Generic_rm"
  shows "swept (map (Pair (Kill SIGSTOP)) (pids_of ptab)) LMON_OK s (procctl_stop m ptab (int (length ptab)) s) \<and>
    swept ((if g \<noteq> SIGCONT then map (Pair (Kill SIGCONT)) (pids_of ptab) else []) @ map (Pair (Kill g)) (pids_of ptab))
      LMON_OK s (procctl_run m g ptab (int (length ptab)) s)"
proof
  have "procctl_stop m ptab (int (length ptab)) = all_req (Kill SIGSTOP) (pids_of ptab) LMON_OK"
    using assms by (auto simp: procctl_stop_def procctl_stop_generic_def over_whole)
  then show "swept (map (Pair (Kill SIGSTOP)) (pids_of ptab)) LMON_OK s (procctl_stop m ptab (int (length ptab)) s)"
    by (simp only: swept_all)
  have two: "swept (map (Pair a) ps @ map (Pair b) ps) rc s (bindA (all_req a ps rc) (all_req b ps) s)" for a b ps rc s
    by (rule swept_append) (rule swept_all)+
  have "procctl_run m g ptab (int (length ptab)) =
      bindA (if g \<noteq> SIGCONT then all_req (Kill SIGCONT) (pids_of ptab) LMON_OK else ret LMON_OK) (all_req (Kill g) (pids_of ptab))"
    using assms by (auto simp: procctl_run_def procctl_run_generic_def over_whole)
  then show "swept ((if g \<noteq> SIGCONT then map (Pair (Kill SIGCONT)) (pids_of ptab) else []) @ map (Pair (Kill g)) (pids_of ptab))
      LMON_OK s (procctl_run m g ptab (int (length ptab)) s)"
    using two [of "Kill SIGCONT" "pids_of ptab" "Kill g" LMON_OK s] swept_all
    by (cases "g = SIGCONT") (simp_all add: bindA_def [of "ret LMON_OK"] ret_def)
qed

theorem sweep_reaches_every_task_witness:
  "swept [(Kill SIGSTOP, 10)] LMON_OK (demo_tasks_os\<lparr>os_ok := \<lambda>_. False\<rparr>)
     (procctl_stop RC_alps demo_ptab (int (length demo_ptab)) (demo_tasks_os\<lparr>os_ok := \<lambda>_. False\<rparr>))"
  using sweep_reaches_every_task [of RC_alps demo_ptab "demo_tasks_os\<lparr>os_ok := \<lambda>_. False\<rparr>" 0]
  by (simp add: demo_ptab_def pids_of_def)

end
