(* ===== verification/Cobo_Net.thy ===== *)
theory Cobo_Net
  imports Cobo_Tree
begin

text \<open>
  Ranks that run concurrently and talk over sockets: a rank's remaining program is a tree of
  reads and writes, a connection is a FIFO of bytes in each direction, and any rank that can
  move may move next. Every program is deterministic and owns the reading end of its
  connections, so the interleaving does not matter: when one schedule ends in a state where
  nothing can move, every schedule ends there after the same number of steps. The two phases
  the collectives are made of, towards the root and away from it, are proved once for any
  programs of their shape.
\<close>

section \<open>Programs and the network\<close>

text \<open>\<open>Recv q n f\<close> blocks until \<open>n\<close> bytes from \<open>q\<close> are there (the loop of
  \<open>cobo_read_fd\<close>); \<open>Send q bs k\<close> is \<open>cobo_write_fd\<close>.\<close>

datatype 'r comm =
    Done 'r
  | Recv nat nat "byte list \<Rightarrow> 'r comm"
  | Send nat "byte list" "'r comm"

type_synonym 'r net = "(nat \<Rightarrow> 'r comm) \<times> (nat \<times> nat \<Rightarrow> byte list)"

inductive nstep :: "nat \<Rightarrow> 'r net \<Rightarrow> 'r net \<Rightarrow> bool" where
  send: "P r = Send q bs k \<Longrightarrow> nstep r (P, C) (P(r := k), C((r, q) := C (r, q) @ bs))"
| recv: "P r = Recv q n f \<Longrightarrow> n \<le> length (C (q, r)) \<Longrightarrow>
    nstep r (P, C) (P(r := f (take n (C (q, r)))), C((q, r) := drop n (C (q, r))))"

inductive_cases nstepE: "nstep r (P, C) t"

inductive nsteps :: "nat \<Rightarrow> 'r net \<Rightarrow> 'r net \<Rightarrow> bool" where
  none: "nsteps 0 s s"
| more: "nstep r s t \<Longrightarrow> nsteps k t u \<Longrightarrow> nsteps (Suc k) s u"

inductive_cases nsteps0E: "nsteps 0 s t"
inductive_cases nstepsSucE: "nsteps (Suc k) s t"

definition stuck :: "'r net \<Rightarrow> bool" where "stuck s \<longleftrightarrow> (\<forall>r t. \<not> nstep r s t)"

lemma nsteps_trans: "nsteps j s t \<Longrightarrow> nsteps k t u \<Longrightarrow> nsteps (j + k) s u"
  by (induction rule: nsteps.induct) (auto intro: nsteps.intros)

lemma nsteps_one: "nstep r s t \<Longrightarrow> nsteps (Suc 0) s t"
  by (auto intro: nsteps.intros)

section \<open>Interleaving does not matter\<close>

lemma nstep_det: "nstep r s t \<Longrightarrow> nstep r s u \<Longrightarrow> t = u"
  by (cases s) (auto elim!: nstepE)

lemma sendI: "P r = Send q bs k \<Longrightarrow> P' = P(r := k) \<Longrightarrow> C' = C((r, q) := C (r, q) @ bs) \<Longrightarrow>
    nstep r (P, C) (P', C')"
  by (simp add: nstep.send)

lemma recvI: "P r = Recv q n f \<Longrightarrow> n \<le> length (C (q, r)) \<Longrightarrow> P' = P(r := f (take n (C (q, r)))) \<Longrightarrow>
    C' = C((q, r) := drop n (C (q, r))) \<Longrightarrow> nstep r (P, C) (P', C')"
  by (simp add: nstep.recv)

lemma nstepD:
  "nstep r (P, C) t \<Longrightarrow> (\<exists>q bs k. t = (P(r := k), C((r, q) := C (r, q) @ bs)) \<and> P r = Send q bs k) \<or>
     (\<exists>q n f. t = (P(r := f (take n (C (q, r)))), C((q, r) := drop n (C (q, r)))) \<and> P r = Recv q n f \<and>
        n \<le> length (C (q, r)))"
  by (erule nstepE) auto

lemma nstep_diamond:
  assumes "nstep r s t" and "nstep q s u" and "r \<noteq> q"
  shows "\<exists>v. nstep q t v \<and> nstep r u v"
proof -
  obtain P C where s: "s = (P, C)" by (cases s)
  from nstepD [OF assms(1)[unfolded s]] show ?thesis
  proof (elim disjE exE)
    fix a bs k assume r: "t = (P(r := k), C((r, a) := C (r, a) @ bs)) \<and> P r = Send a bs k"
    from nstepD [OF assms(2)[unfolded s]] show ?thesis
    proof (elim disjE exE)
      fix b cs l assume q: "u = (P(q := l), C((q, b) := C (q, b) @ cs)) \<and> P q = Send b cs l"
      let ?v = "(P(r := k, q := l), C((r, a) := C (r, a) @ bs, (q, b) := C (q, b) @ cs))"
      have "nstep q t ?v" unfolding conjunct1 [OF r] by (rule sendI) (use q r assms(3) in auto)
      moreover have "nstep r u ?v" unfolding conjunct1 [OF q]
        by (rule sendI) (use q r assms(3) in \<open>auto simp: fun_eq_iff\<close>)
      ultimately show ?thesis by blast
    next
      fix b n f assume q: "u = (P(q := f (take n (C (b, q)))), C((b, q) := drop n (C (b, q)))) \<and>
          P q = Recv b n f \<and> n \<le> length (C (b, q))"
      let ?C = "C((r, a) := C (r, a) @ bs)"
      let ?v = "(P(r := k, q := f (take n (C (b, q)))), ?C((b, q) := drop n (?C (b, q))))"
      have "nstep q t ?v" unfolding conjunct1 [OF r] by (rule recvI [where f = f and q = b and n = n]) (use q r assms(3) in auto)
      moreover have "nstep r u ?v" unfolding conjunct1 [OF q]
        by (rule sendI) (use q r assms(3) in \<open>auto simp: fun_eq_iff\<close>)
      ultimately show ?thesis by blast
    qed
  next
    fix a n f assume r: "t = (P(r := f (take n (C (a, r)))), C((a, r) := drop n (C (a, r)))) \<and>
        P r = Recv a n f \<and> n \<le> length (C (a, r))"
    from nstepD [OF assms(2)[unfolded s]] show ?thesis
    proof (elim disjE exE)
      fix b cs l assume q: "u = (P(q := l), C((q, b) := C (q, b) @ cs)) \<and> P q = Send b cs l"
      let ?D = "C((q, b) := C (q, b) @ cs)"
      let ?v = "(P(q := l, r := f (take n (C (a, r)))), ?D((a, r) := drop n (?D (a, r))))"
      have "nstep r u ?v" unfolding conjunct1 [OF q] by (rule recvI [where f = f and q = a and n = n]) (use q r assms(3) in auto)
      moreover have "nstep q t ?v" unfolding conjunct1 [OF r]
        by (rule sendI) (use q r assms(3) in \<open>auto simp: fun_eq_iff\<close>)
      ultimately show ?thesis by blast
    next
      fix b m g assume q: "u = (P(q := g (take m (C (b, q)))), C((b, q) := drop m (C (b, q)))) \<and>
          P q = Recv b m g \<and> m \<le> length (C (b, q))"
      let ?v = "(P(r := f (take n (C (a, r))), q := g (take m (C (b, q)))),
          C((a, r) := drop n (C (a, r)), (b, q) := drop m (C (b, q))))"
      have "nstep q t ?v" unfolding conjunct1 [OF r] by (rule recvI [where f = g and q = b and n = m]) (use q r assms(3) in auto)
      moreover have "nstep r u ?v" unfolding conjunct1 [OF q]
        by (rule recvI [where f = f and q = a and n = n]) (use q r assms(3) in \<open>auto simp: fun_eq_iff\<close>)
      ultimately show ?thesis by blast
    qed
  qed
qed

lemma peel_step:
  "nsteps n s f \<Longrightarrow> stuck f \<Longrightarrow> nstep r s t \<Longrightarrow> \<exists>m. n = Suc m \<and> nsteps m t f"
proof (induction n s f arbitrary: r t rule: nsteps.induct)
  case (none s)
  then show ?case unfolding stuck_def by blast
next
  case (more q s s1 k f)
  show ?case
  proof (cases "r = q")
    case True
    have "t = s1" using nstep_det [OF more.prems(2)] more.hyps(1) by (simp add: True)
    then show ?thesis using more.hyps(2) by blast
  next
    case False
    then obtain v where v: "nstep r s1 v" "nstep q t v"
      using nstep_diamond [OF more.hyps(1) more.prems(2)] by blast
    then obtain m where "k = Suc m" "nsteps m v f" using more by blast
    then show ?thesis using nsteps.more [OF v(2)] by blast
  qed
qed

text \<open>All schedules agree: whatever was done so far, the remaining steps lead to the same
  state, and there are exactly the missing number of them.\<close>

lemma schedules_agree:
  "nsteps k s t \<Longrightarrow> nsteps n s f \<Longrightarrow> stuck f \<Longrightarrow> k \<le> n \<and> nsteps (n - k) t f"
proof (induction k s t arbitrary: n rule: nsteps.induct)
  case (none s)
  then show ?case by simp
next
  case (more r s s1 k t)
  obtain m where "n = Suc m" "nsteps m s1 f"
    using peel_step [OF more.prems more.hyps(1)] by blast
  then show ?case using more by auto
qed

lemma all_done_stuck: "(\<And>r. \<exists>x. P r = Done x) \<Longrightarrow> stuck (P, C)"
  unfolding stuck_def by (metis comm.distinct(1,3) nstep.cases prod.inject)

section \<open>The two phases of a collective\<close>

fun recv_all :: "(nat \<times> nat) list \<Rightarrow> (byte list \<Rightarrow> 's \<Rightarrow> 's) \<Rightarrow> 's \<Rightarrow> ('s \<Rightarrow> 'r comm) \<Rightarrow> 'r comm" where
  "recv_all [] f s k = k s"
| "recv_all ((c, n) # cs) f s k = Recv c n (\<lambda>b. recv_all cs f (f b s) k)"

fun send_all :: "(nat \<times> byte list) list \<Rightarrow> 'r comm \<Rightarrow> 'r comm" where
  "send_all [] k = k"
| "send_all ((c, b) # ms) k = Send c b (send_all ms k)"

lemma recv_all_steps:
  assumes "P x = recv_all cs f s k" and "distinct (map fst cs)"
    and "\<forall>(c, n) \<in> set cs. length (C (c, x)) = n"
    and "P' = P(x := k (fold (\<lambda>(c, n). f (C (c, x))) cs s))"
    and "\<forall>a b. C' (a, b) = (if b = x \<and> a \<in> fst ` set cs then [] else C (a, b))"
  shows "nsteps (length cs) (P, C) (P', C')"
  using assms
proof (induction cs arbitrary: P C s)
  case Nil
  then have "P' = P" "C' = C" by auto
  then show ?case by (auto intro: nsteps.none)
next
  case (Cons cn cs)
  obtain c n where cn: "cn = (c, n)" by (cases cn)
  let ?P = "P(x := recv_all cs f (f (C (c, x)) s) k)" and ?C = "C((c, x) := [])"
  have st: "nstep x (P, C) (?P, ?C)"
    by (rule recvI [where q = c and n = n and f = "\<lambda>b. recv_all cs f (f b s) k"]) (use Cons.prems cn in auto)
  have d: "c \<notin> fst ` set cs" using Cons.prems(2) cn by simp
  have f: "fold (\<lambda>(c, n). f (?C (c, x))) cs s2 = fold (\<lambda>(c, n). f (C (c, x))) cs s2" for s2
    by (rule fold_cong) (use d in force)+
  have "nsteps (length cs) (?P, ?C) (P', C')"
  proof (rule Cons.IH)
    show "\<forall>(c2, n2) \<in> set cs. length (?C (c2, x)) = n2" using Cons.prems(3) d by force
    show "P' = ?P(x := k (fold (\<lambda>(c, n). f (?C (c, x))) cs (f (C (c, x)) s)))"
      unfolding f using Cons.prems(4) cn by (simp add: fun_eq_iff)
  qed (use Cons.prems cn in auto)
  then show ?case using nsteps.more [OF st] by simp
qed

lemma send_all_steps:
  assumes "P x = send_all ms k" and "distinct (map fst ms)" and "\<forall>c \<in> fst ` set ms. C (x, c) = []"
    and "P' = P(x := k)"
    and "\<forall>a b. C' (a, b) = (if a = x \<and> b \<in> fst ` set ms then the (map_of ms b) else C (a, b))"
  shows "nsteps (length ms) (P, C) (P', C')"
  using assms
proof (induction ms arbitrary: P C)
  case Nil
  then have "P' = P" "C' = C" by auto
  then show ?case by (auto intro: nsteps.none)
next
  case (Cons m ms)
  obtain c b where m: "m = (c, b)" by (cases m)
  let ?P = "P(x := send_all ms k)" and ?C = "C((x, c) := b)"
  have st: "nstep x (P, C) (?P, ?C)"
    by (rule sendI) (use Cons.prems m in auto)
  have d: "c \<notin> fst ` set ms" using Cons.prems(2) m by simp
  have "nsteps (length ms) (?P, ?C) (P', C')"
    by (rule Cons.IH) (use Cons.prems m d in auto)
  then show ?case using nsteps.more [OF st] by simp
qed

text \<open>
  Towards the root: a rank folds in what its children send, last child first, and sends the
  outcome to its parent. Away from it: a rank waits for its parent's bytes and sends each
  child its share. \<open>k\<close> is what the rank does afterwards.
\<close>

definition up_phase ::
  "cobo \<Rightarrow> (nat \<Rightarrow> nat) \<Rightarrow> (byte list \<Rightarrow> 's \<Rightarrow> 's) \<Rightarrow> 's \<Rightarrow> ('s \<Rightarrow> byte list) \<Rightarrow> ('s \<Rightarrow> 'r comm) \<Rightarrow> 'r comm" where
  "up_phase t bytes_of f s0 out k =
     recv_all (map (\<lambda>(c, i). (c, bytes_of i)) (children_down t)) f s0
       (\<lambda>s. if cobo_me t \<noteq> 0 then Send (cobo_parent t) (out s) (k s) else k s)"

definition down_phase ::
  "cobo \<Rightarrow> nat \<Rightarrow> byte list \<Rightarrow> (byte list \<Rightarrow> (nat \<times> byte list) list) \<Rightarrow> (byte list \<Rightarrow> 'r comm) \<Rightarrow> 'r comm" where
  "down_phase t sz b0 msgs k =
     (if cobo_me t \<noteq> 0 then Recv (cobo_parent t) sz (\<lambda>b. send_all (msgs b) (k b))
      else send_all (msgs b0) (k b0))"

definition on_ranks :: "nat \<Rightarrow> (nat \<Rightarrow> 'r comm) \<Rightarrow> (nat \<Rightarrow> 'r comm) \<Rightarrow> nat \<Rightarrow> 'r comm" where
  "on_ranks n Q P = (\<lambda>r. if r < n then Q r else P r)"

abbreviation tree_of :: "nat \<Rightarrow> nat \<Rightarrow> cobo" where "tree_of n x \<equiv> cobo_compute_children x n"

lemma children_down_mem:
  assumes "x < n" and "(c, i) \<in> set (children_down (tree_of n x))"
  shows "x < c" "c < n" "cobo_parent (tree_of n c) = x"
proof -
  have "c \<in> set (map fst (children_down (tree_of n x)))" using assms(2) by force
  then have m: "c \<in> set (cobo_child (tree_of n x))" by (simp only: children_down_fst [OF assms(1)]) simp
  then show "x < c" "c < n" using tree_child_bounds [OF assms(1)] by auto
  then show "cobo_parent (tree_of n c) = x" using m tree_child_iff [OF assms(1)] by auto
qed

lemma children_down_all:
  assumes "x < n" and "a < n" and "a \<noteq> 0" and "cobo_parent (tree_of n a) = x"
  shows "a \<in> fst ` set (children_down (tree_of n x))"
proof -
  have "a \<in> set (cobo_child (tree_of n x))" using assms tree_child_iff by blast
  then have "a \<in> set (map fst (children_down (tree_of n x)))" by (simp only: children_down_fst [OF assms(1)]) simp
  then show ?thesis by simp
qed

text \<open>One rank of the phase towards the root, its children being done.\<close>

lemma up_rank:
  assumes x: "x < n" and P: "P x = up_phase (tree_of n x) bytes_of f s0 out k"
    and c: "\<forall>(c, i) \<in> set (children_down (tree_of n x)). C (c, x) = V c \<and> length (V c) = bytes_of i"
    and S: "Sx = fold (\<lambda>(c, i). f (V c)) (children_down (tree_of n x)) s0" and V: "V x = out Sx"
    and e: "x \<noteq> 0 \<longrightarrow> C (x, cobo_parent (tree_of n x)) = []"
  shows "\<exists>j. nsteps j (P, C) (P(x := k (Sx)), \<lambda>(a, b).
     if b = x \<and> a \<in> fst ` set (children_down (tree_of n x)) then []
     else if x \<noteq> 0 \<and> a = x \<and> b = cobo_parent (tree_of n x) then V x else C (a, b))"
proof -
  let ?cd = "children_down (tree_of n x)" and ?p = "cobo_parent (tree_of n x)"
  let ?cs = "map (\<lambda>(c, i). (c, bytes_of i)) ?cd"
  let ?k = "\<lambda>s. if x \<noteq> 0 then Send ?p (out s) (k s) else k s"
  define C1 where "C1 = (\<lambda>(a, b). if b = x \<and> a \<in> fst ` set ?cd then [] else C (a, b))"
  have d: "distinct (map fst ?cs)"
    using children_down_fst [OF x] tree_child_distinct [OF x] by (simp add: comp_def split_def)
  have "fold (\<lambda>(c, n). f (C (c, x))) ?cs s0 = fold (\<lambda>(c, i). f (V c)) ?cd s0"
    unfolding fold_map by (rule fold_cong) (use c in \<open>auto simp: fun_eq_iff\<close>)
  then have v: "fold (\<lambda>(c, n). f (C (c, x))) ?cs s0 = Sx" by (simp add: S)
  have st1: "nsteps (length ?cs) (P, C) (P(x := ?k (Sx)), C1)"
    by (rule recv_all_steps [where x = x and f = f and s = s0 and k = ?k])
      (use P x d c v in \<open>auto simp: up_phase_def C1_def image_image split_def\<close>)
  show ?thesis
  proof (cases "x = 0")
    case True
    then have "(\<lambda>(a, b). if b = x \<and> a \<in> fst ` set ?cd then []
        else if x \<noteq> 0 \<and> a = x \<and> b = ?p then V x else C (a, b)) = C1"
      by (auto simp: fun_eq_iff C1_def)
    then show ?thesis using st1 True by (intro exI [of _ "length ?cs"]) simp
  next
    case False
    have "x \<notin> fst ` set ?cd" using children_down_mem(1) [OF x] by force
    then have "C1 (x, ?p) = []" using e False by (simp add: C1_def)
    then have "nstep x (P(x := ?k (Sx)), C1) (P(x := k (Sx)), \<lambda>(a, b).
       if b = x \<and> a \<in> fst ` set ?cd then [] else if x \<noteq> 0 \<and> a = x \<and> b = ?p then V x else C (a, b))"
      using False tree_parent_less [OF x False]
      by (intro sendI [where q = ?p and bs = "V x"]) (auto simp: fun_eq_iff C1_def V)
    then show ?thesis using nsteps_trans [OF st1 nsteps_one] by blast
  qed
qed

text \<open>What is under way when exactly the ranks from \<open>m\<close> up are done.\<close>

definition up_chan :: "nat \<Rightarrow> (nat \<Rightarrow> byte list) \<Rightarrow> nat \<Rightarrow> nat \<times> nat \<Rightarrow> byte list" where
  "up_chan n V m = (\<lambda>(a, b). if m \<le> a \<and> a < n \<and> a \<noteq> 0 \<and> b = cobo_parent (tree_of n a) \<and> b < m then V a else [])"

lemma up_chan_step:
  assumes x: "x < n"
  shows "(\<lambda>(a, b). if b = x \<and> a \<in> fst ` set (children_down (tree_of n x)) then []
      else if x \<noteq> 0 \<and> a = x \<and> b = cobo_parent (tree_of n x) then V x else up_chan n V (Suc x) (a, b)) =
    up_chan n V x"
proof (rule ext, clarify)
  fix a b
  let ?kid = "b = x \<and> a \<in> fst ` set (children_down (tree_of n x))"
  show "(if ?kid then [] else if x \<noteq> 0 \<and> a = x \<and> b = cobo_parent (tree_of n x) then V x
      else up_chan n V (Suc x) (a, b)) = up_chan n V x (a, b)"
  proof (cases "b = x")
    case True
    have "\<not> ?kid \<Longrightarrow> Suc x \<le> a \<and> a < n \<and> a \<noteq> 0 \<Longrightarrow> b \<noteq> cobo_parent (tree_of n a)"
      using children_down_all [OF x, of a] True by blast
    then show ?thesis using tree_parent_less [OF x] True by (auto simp: up_chan_def)
  next
    case False
    then show ?thesis using tree_parent_less [OF x] x
      by (cases "a = x") (auto simp: up_chan_def)
  qed
qed

lemma up_steps:
  assumes P: "\<forall>x<n. P x = up_phase (tree_of n x) bytes_of f (init x) (out x) (K x)"
    and V: "\<forall>x<n. V x = out x (S x)"
    and S: "\<forall>x<n. S x = fold (\<lambda>(c, i). f (V c)) (children_down (tree_of n x)) (init x)"
    and len: "\<forall>x<n. \<forall>(c, i) \<in> set (children_down (tree_of n x)). length (V c) = bytes_of i"
  shows "\<exists>j. nsteps j (P, \<lambda>_. []) (on_ranks n (\<lambda>r. K r (S r)) P, \<lambda>_. [])"
proof -
  have "m \<le> n \<Longrightarrow> \<exists>j. nsteps j (P, \<lambda>_. []) (\<lambda>r. if n - m \<le> r \<and> r < n then K r (S r) else P r, up_chan n V (n - m))" for m
  proof (induction m)
    case 0
    have "up_chan n V (n - 0) = (\<lambda>_. [])" by (auto simp: fun_eq_iff up_chan_def)
    moreover have "(\<lambda>r. if n - 0 \<le> r \<and> r < n then K r (S r) else P r) = P" by (auto simp: fun_eq_iff)
    ultimately show ?case using nsteps.none by metis
  next
    case (Suc m)
    let ?x = "n - Suc m"
    have x: "?x < n" and m: "n - m = Suc ?x" using Suc.prems by auto
    let ?P = "\<lambda>r. if Suc ?x \<le> r \<and> r < n then K r (S r) else P r"
    obtain j where j: "nsteps j (P, \<lambda>_. []) (?P, up_chan n V (Suc ?x))" using Suc m by auto
    have kids: "\<forall>(c, i) \<in> set (children_down (tree_of n ?x)).
        up_chan n V (Suc ?x) (c, ?x) = V c \<and> length (V c) = bytes_of i"
    proof (intro ballI, clarify)
      fix c i assume ci: "(c, i) \<in> set (children_down (tree_of n ?x))"
      have "\<forall>(c, i) \<in> set (children_down (tree_of n ?x)). length (V c) = bytes_of i" using len x by blast
      then have "length (V c) = bytes_of i" using ci by auto
      then show "up_chan n V (Suc ?x) (c, ?x) = V c \<and> length (V c) = bytes_of i"
        using children_down_mem [OF x ci] by (auto simp: up_chan_def)
    qed
    have P1: "?P ?x = up_phase (tree_of n ?x) bytes_of f (init ?x) (out ?x) (K ?x)" using P x by simp
    have e: "?x \<noteq> 0 \<longrightarrow> up_chan n V (Suc ?x) (?x, cobo_parent (tree_of n ?x)) = []"
      by (simp add: up_chan_def)
    have S1: "S ?x = fold (\<lambda>(c, i). f (V c)) (children_down (tree_of n ?x)) (init ?x)" using S x by blast
    have V1: "V ?x = out ?x (S ?x)" using V x by blast
    obtain i where i: "nsteps i (?P, up_chan n V (Suc ?x)) (?P(?x := K ?x (S ?x)), up_chan n V ?x)"
      using up_rank [where P = ?P and C = "up_chan n V (Suc ?x)" and Sx = "S ?x" and V = V and k = "K ?x",
        OF x P1 kids S1 V1 e]
      unfolding up_chan_step [OF x] by (elim exE)
    have P2: "?P(?x := K ?x (S ?x)) = (\<lambda>r. if ?x \<le> r \<and> r < n then K r (S r) else P r)"
      using x by (auto simp: fun_eq_iff)
    show ?case by (rule exI, rule nsteps_trans [OF j i [unfolded P2]])
  qed
  from this [of n] have "\<exists>j. nsteps j (P, \<lambda>_. []) (\<lambda>r. if r < n then K r (S r) else P r, up_chan n V 0)" by simp
  moreover have "up_chan n V 0 = (\<lambda>_. [])" by (auto simp: fun_eq_iff up_chan_def)
  ultimately show ?thesis by (simp add: on_ranks_def)
qed

lemma down_rank:
  assumes x: "x < n" and P: "P x = down_phase (tree_of n x) sz b0 msgs k"
    and b: "if x = 0 then b = b0 else C (cobo_parent (tree_of n x), x) = b \<and> length b = sz"
    and d: "distinct (map fst (msgs b))" "\<forall>c \<in> fst ` set (msgs b). x < c \<and> C (x, c) = []"
  shows "\<exists>j. nsteps j (P, C) (P(x := k b), \<lambda>(a, e).
     if x \<noteq> 0 \<and> a = cobo_parent (tree_of n x) \<and> e = x then []
     else if a = x \<and> e \<in> fst ` set (msgs b) then the (map_of (msgs b) e) else C (a, e))"
proof (cases "x = 0")
  case True
  then have "nsteps (length (msgs b)) (P, C) (P(x := k b), \<lambda>(a, e).
     if x \<noteq> 0 \<and> a = cobo_parent (tree_of n x) \<and> e = x then []
     else if a = x \<and> e \<in> fst ` set (msgs b) then the (map_of (msgs b) e) else C (a, e))"
    using P x b d by (intro send_all_steps [where x = x and k = "k b"]) (auto simp: down_phase_def)
  then show ?thesis by blast
next
  case False
  let ?p = "cobo_parent (tree_of n x)"
  have st: "nstep x (P, C) (P(x := send_all (msgs b) (k b)), C((?p, x) := []))"
    by (rule recvI [where q = ?p and n = sz and f = "\<lambda>b. send_all (msgs b) (k b)"])
      (use P x b False in \<open>auto simp: down_phase_def\<close>)
  have p: "?p < x" by (rule tree_parent_less [OF x False])
  have "nsteps (length (msgs b)) (P(x := send_all (msgs b) (k b)), C((?p, x) := [])) (P(x := k b), \<lambda>(a, e).
     if x \<noteq> 0 \<and> a = ?p \<and> e = x then []
     else if a = x \<and> e \<in> fst ` set (msgs b) then the (map_of (msgs b) e) else C (a, e))"
    using False d p by (intro send_all_steps [where x = x and k = "k b"]) auto
  then show ?thesis using nsteps.more [OF st] by blast
qed

definition down_chan :: "nat \<Rightarrow> (nat \<Rightarrow> byte list) \<Rightarrow> nat \<Rightarrow> nat \<times> nat \<Rightarrow> byte list" where
  "down_chan n B m = (\<lambda>(a, b). if m \<le> b \<and> b < n \<and> b \<noteq> 0 \<and> a = cobo_parent (tree_of n b) \<and> a < m then B b else [])"

lemma down_chan_step:
  assumes x: "x < n" and kids: "fst ` set ms = set (cobo_child (tree_of n x))"
    and share: "\<forall>(c, m) \<in> set ms. m = B c"
  shows "(\<lambda>(a, e). if x \<noteq> 0 \<and> a = cobo_parent (tree_of n x) \<and> e = x then []
      else if a = x \<and> e \<in> fst ` set ms then the (map_of ms e) else down_chan n B x (a, e)) =
    down_chan n B (Suc x)"
proof (rule ext, clarify)
  fix a e
  have kid: "e \<in> fst ` set ms \<longleftrightarrow> x < e \<and> e < n \<and> e \<noteq> 0 \<and> cobo_parent (tree_of n e) = x"
    using kids tree_child_iff [OF x] tree_child_bounds [OF x] by auto
  have v: "e \<in> fst ` set ms \<Longrightarrow> the (map_of ms e) = B e"
  proof -
    assume "e \<in> fst ` set ms"
    then obtain m where m: "map_of ms e = Some m" using map_of_eq_None_iff [of ms e] by auto
    then have "(e, m) \<in> set ms" by (rule map_of_SomeD)
    then have "m = B e" using share by auto
    then show ?thesis using m by simp
  qed
  show "(if x \<noteq> 0 \<and> a = cobo_parent (tree_of n x) \<and> e = x then []
      else if a = x \<and> e \<in> fst ` set ms then the (map_of ms e) else down_chan n B x (a, e)) =
    down_chan n B (Suc x) (a, e)"
  proof (cases "a = x")
    case a: True
    have ap: "x \<noteq> 0 \<Longrightarrow> a \<noteq> cobo_parent (tree_of n x)" using tree_parent_less [OF x] a by fastforce
    show ?thesis
    proof (cases "e \<in> fst ` set ms")
      case True
      then have "down_chan n B (Suc x) (a, e) = B e"
        unfolding kid by (simp add: down_chan_def a)
      then show ?thesis using True a ap v [OF True] by (cases "x = 0") simp_all
    next
      case False
      then have "down_chan n B (Suc x) (a, e) = []" unfolding kid by (auto simp: down_chan_def a)
      moreover have "down_chan n B x (a, e) = []" by (simp add: down_chan_def a)
      ultimately show ?thesis using False by simp
    qed
  next
    case a: False
    show ?thesis
    proof (cases "e = x")
      case True
      then show ?thesis using tree_parent_less [OF x] a by (simp add: down_chan_def)
    next
      case False
      then have "x \<le> e \<longleftrightarrow> Suc x \<le> e" "a < x \<longleftrightarrow> a < Suc x" using a by linarith+
      then show ?thesis using a False by (simp add: down_chan_def)
    qed
  qed
qed

lemma down_steps:
  assumes P: "\<forall>x<n. P x = down_phase (tree_of n x) (sz x) b0 (msgs x) (K x)"
    and B: "B 0 = b0"
    and len: "\<forall>x<n. x \<noteq> 0 \<longrightarrow> length (B x) = sz x"
    and m: "\<forall>x<n. distinct (map fst (msgs x (B x))) \<and> fst ` set (msgs x (B x)) = set (cobo_child (tree_of n x)) \<and>
        (\<forall>(c, m) \<in> set (msgs x (B x)). m = B c)"
  shows "\<exists>j. nsteps j (P, \<lambda>_. []) (on_ranks n (\<lambda>r. K r (B r)) P, \<lambda>_. [])"
proof -
  have "m \<le> n \<Longrightarrow> \<exists>j. nsteps j (P, \<lambda>_. []) (\<lambda>r. if r < m then K r (B r) else P r, down_chan n B m)" for m
  proof (induction m)
    case 0
    have "down_chan n B 0 = (\<lambda>_. [])" by (auto simp: fun_eq_iff down_chan_def)
    then show ?case using nsteps.none by (intro exI [of _ 0]) simp
  next
    case (Suc x)
    then have x: "x < n" by simp
    let ?P = "\<lambda>r. if r < x then K r (B r) else P r"
    obtain j where j: "nsteps j (P, \<lambda>_. []) (?P, down_chan n B x)" using Suc by auto
    have ms: "distinct (map fst (msgs x (B x)))" "fst ` set (msgs x (B x)) = set (cobo_child (tree_of n x))"
      "\<forall>(c, m) \<in> set (msgs x (B x)). m = B c" using m x by blast+
    have P1: "?P x = down_phase (tree_of n x) (sz x) b0 (msgs x) (K x)" using P x by simp
    have b: "if x = 0 then B x = b0 else down_chan n B x (cobo_parent (tree_of n x), x) = B x \<and> length (B x) = sz x"
      using B len x tree_parent_less [OF x] by (simp add: down_chan_def)
    have e: "\<forall>c \<in> fst ` set (msgs x (B x)). x < c \<and> down_chan n B x (x, c) = []"
      unfolding ms(2) using tree_child_bounds [OF x] by (auto simp: down_chan_def)
    obtain i where i: "nsteps i (?P, down_chan n B x) (?P(x := K x (B x)), down_chan n B (Suc x))"
      using down_rank [where P = ?P and C = "down_chan n B x" and b = "B x" and k = "K x" and msgs = "msgs x",
          OF x P1 b ms(1) e] unfolding down_chan_step [OF x ms(2,3)] by (elim exE)
    have P2: "?P(x := K x (B x)) = (\<lambda>r. if r < Suc x then K r (B r) else P r)"
      by (auto simp: fun_eq_iff less_Suc_eq)
    show ?case by (rule exI, rule nsteps_trans [OF j i [unfolded P2]])
  qed
  from this [of n] have "\<exists>j. nsteps j (P, \<lambda>_. []) (\<lambda>r. if r < n then K r (B r) else P r, down_chan n B n)" by simp
  moreover have "down_chan n B n = (\<lambda>_. [])" by (auto simp: fun_eq_iff down_chan_def)
  ultimately show ?thesis by (simp add: on_ranks_def)
qed

section \<open>The same program on every rank\<close>

definition spmd :: "nat \<Rightarrow> (nat \<Rightarrow> 'r comm) \<Rightarrow> 'r \<Rightarrow> 'r net" where
  "spmd n prog d = (\<lambda>r. if r < n then prog r else Done d, \<lambda>_. [])"

text \<open>Every schedule ends, and ends in \<open>f\<close>: no deadlock, no livelock, one outcome.\<close>

definition converges :: "'r net \<Rightarrow> 'r net \<Rightarrow> bool" where
  "converges s f \<longleftrightarrow> stuck f \<and> (\<exists>N. nsteps N s f \<and> (\<forall>k t. nsteps k s t \<longrightarrow> k \<le> N \<and> nsteps (N - k) t f))"

lemma convergesI: "nsteps N s f \<Longrightarrow> stuck f \<Longrightarrow> converges s f"
  unfolding converges_def using schedules_agree by blast

lemma spmd_done_stuck: "stuck (spmd n (\<lambda>r. Done (R r)) d)"
  unfolding spmd_def by (rule all_done_stuck) simp

lemma converges_done:
  "\<exists>j. nsteps j s (spmd n (\<lambda>r. Done (R r)) d) \<Longrightarrow> converges s (spmd n (\<lambda>r. Done (R r)) d)"
  by (elim exE, rule convergesI, assumption, rule spmd_done_stuck)

lemma spmd_phase:
  "(\<exists>j. nsteps j (fst (spmd n p d), \<lambda>_. []) (on_ranks n q (fst (spmd n p d)), \<lambda>_. [])) \<Longrightarrow>
   \<exists>j. nsteps j (spmd n p d) (spmd n q d)"
proof -
  have "on_ranks n q (fst (spmd n p d)) = fst (spmd n q d)" by (auto simp: on_ranks_def spmd_def)
  then show "(\<exists>j. nsteps j (fst (spmd n p d), \<lambda>_. []) (on_ranks n q (fst (spmd n p d)), \<lambda>_. [])) \<Longrightarrow> ?thesis"
    by (simp add: spmd_def)
qed

lemma spmd_up:
  assumes "\<And>x. x < n \<Longrightarrow> p x = up_phase (tree_of n x) bytes_of f (init x) (out x) (K x)"
    and "\<And>x. x < n \<Longrightarrow> V x = out x (S x)"
    and "\<And>x. x < n \<Longrightarrow> S x = fold (\<lambda>(c, i). f (V c)) (children_down (tree_of n x)) (init x)"
    and "\<And>x c i. x < n \<Longrightarrow> (c, i) \<in> set (children_down (tree_of n x)) \<Longrightarrow> length (V c) = bytes_of i"
  shows "\<exists>j. nsteps j (spmd n p d) (spmd n (\<lambda>x. K x (S x)) d)"
  by (rule spmd_phase, rule up_steps [where V = V and f = f and bytes_of = bytes_of and init = init and out = out])
    (use assms in \<open>auto simp: spmd_def\<close>)

lemma spmd_down:
  assumes "\<And>x. x < n \<Longrightarrow> p x = down_phase (tree_of n x) (sz x) b0 (msgs x) (K x)"
    and "B 0 = b0" and "\<And>x. x < n \<Longrightarrow> x \<noteq> 0 \<Longrightarrow> length (B x) = sz x"
    and "\<And>x. x < n \<Longrightarrow> distinct (map fst (msgs x (B x)))"
    and "\<And>x. x < n \<Longrightarrow> fst ` set (msgs x (B x)) = set (cobo_child (tree_of n x))"
    and "\<And>x c m. x < n \<Longrightarrow> (c, m) \<in> set (msgs x (B x)) \<Longrightarrow> m = B c"
  shows "\<exists>j. nsteps j (spmd n p d) (spmd n (\<lambda>x. K x (B x)) d)"
proof (rule spmd_phase, rule down_steps [where B = B and msgs = msgs and sz = sz and ?b0.0 = b0])
  show "\<forall>x<n. distinct (map fst (msgs x (B x))) \<and> fst ` set (msgs x (B x)) = set (cobo_child (tree_of n x)) \<and>
      (\<forall>(c, m) \<in> set (msgs x (B x)). m = B c)"
    using assms(4,5,6) by blast
qed (use assms in \<open>auto simp: spmd_def\<close>)

end
