(* ===== verification/Cobo_Coll.thy ===== *)
theory Cobo_Coll
  imports Cobo_Net
begin

text \<open>
  The collectives of \<open>cobo.c\<close> over the tree: broadcast, gather, scatter, the maximum
  reduction, and what is built from them (barrier, allgather, allgather of strings). Each is
  the program one rank runs; the theorems are about all ranks running it at once, in any
  interleaving. A failed read or write ends the process with \<open>exit(1)\<close> and is not modelled:
  connections are taken to be reliable.
\<close>

section \<open>The tree collectives\<close>

text \<open>\<open>overlay b buf\<close>: a buffer after its first bytes were overwritten.\<close>

definition overlay :: "byte list \<Rightarrow> byte list \<Rightarrow> byte list" where
  "overlay b buf = b @ drop (length b) buf"

definition cobo_bcast_tree :: "cobo \<Rightarrow> byte list \<Rightarrow> nat \<Rightarrow> (byte list \<Rightarrow> 'r comm) \<Rightarrow> 'r comm" where
  "cobo_bcast_tree t buf sz k =
     down_phase t sz buf (\<lambda>b. map (\<lambda>c. (c, take sz b)) (cobo_child t)) (\<lambda>b. k (overlay b buf))"

definition max_val :: "byte list \<Rightarrow> u32 \<Rightarrow> u32" where
  "max_val b m = (let child_val = dec32 b in if sint m < sint child_val then child_val else m)"

definition cobo_allreduce_max_int_tree :: "cobo \<Rightarrow> u32 \<Rightarrow> u32 \<Rightarrow> (u32 \<Rightarrow> 'r comm) \<Rightarrow> 'r comm" where
  "cobo_allreduce_max_int_tree t sendval recvval k =
     up_phase t (\<lambda>_. 4) max_val sendval enc32
       (\<lambda>m. cobo_bcast_tree t (enc32 (if cobo_me t \<noteq> 0 then recvval else m)) 4 (\<lambda>b. k (dec32 b)))"

definition cobo_gather_tree :: "cobo \<Rightarrow> byte list \<Rightarrow> nat \<Rightarrow> byte list \<Rightarrow> (byte list \<Rightarrow> 'r comm) \<Rightarrow> 'r comm" where
  "cobo_gather_tree t sendbuf sendcount recvbuf k =
     (let bigcount = (cobo_num_child_incl t + 1) * sendcount in
      up_phase t (\<lambda>i. sendcount * i) (\<lambda>b bigbuf. bigbuf @ b) (take sendcount sendbuf) (take bigcount)
        (\<lambda>bigbuf. k (if cobo_me t \<noteq> 0 then recvbuf else overlay bigbuf recvbuf)))"

text \<open>The chunks of the scatter loop, from the last child to the first.\<close>

fun chunks :: "nat \<Rightarrow> nat \<Rightarrow> (nat \<times> nat) list \<Rightarrow> byte list \<Rightarrow> (nat \<times> byte list) list" where
  "chunks sendcount off [] bigbuf = []"
| "chunks sendcount off ((c, i) # cs) bigbuf =
     (c, take (sendcount * i) (drop off bigbuf)) # chunks sendcount (off + sendcount * i) cs bigbuf"

definition cobo_scatter_tree :: "cobo \<Rightarrow> byte list \<Rightarrow> nat \<Rightarrow> byte list \<Rightarrow> (byte list \<Rightarrow> 'r comm) \<Rightarrow> 'r comm" where
  "cobo_scatter_tree t sendbuf sendcount recvbuf k =
     (let bigcount = (cobo_num_child_incl t + 1) * sendcount in
      down_phase t bigcount sendbuf (\<lambda>bigbuf. chunks sendcount sendcount (children_down t) bigbuf)
        (\<lambda>bigbuf. k (overlay (take sendcount bigbuf) recvbuf)))"

section \<open>The client interface\<close>

text \<open>A root other than rank 0, and \<open>cobo_alltoall\<close>, end the process: \<open>None\<close>.\<close>

definition cobo_barrier :: "cobo \<Rightarrow> 'r comm \<Rightarrow> 'r comm" where
  "cobo_barrier t k = cobo_allreduce_max_int_tree t 1 0 (\<lambda>_. k)"

definition cobo_bcast :: "cobo \<Rightarrow> byte list \<Rightarrow> nat \<Rightarrow> nat \<Rightarrow> (byte list \<Rightarrow> 'r comm) \<Rightarrow> 'r comm option" where
  "cobo_bcast t buf sendcount root k = (if root = 0 then Some (cobo_bcast_tree t buf sendcount k) else None)"

definition cobo_gather ::
  "cobo \<Rightarrow> byte list \<Rightarrow> nat \<Rightarrow> byte list \<Rightarrow> nat \<Rightarrow> (byte list \<Rightarrow> 'r comm) \<Rightarrow> 'r comm option" where
  "cobo_gather t sendbuf sendcount recvbuf root k =
     (if root = 0 then Some (cobo_gather_tree t sendbuf sendcount recvbuf k) else None)"

definition cobo_scatter ::
  "cobo \<Rightarrow> byte list \<Rightarrow> nat \<Rightarrow> byte list \<Rightarrow> nat \<Rightarrow> (byte list \<Rightarrow> 'r comm) \<Rightarrow> 'r comm option" where
  "cobo_scatter t sendbuf sendcount recvbuf root k =
     (if root = 0 then Some (cobo_scatter_tree t sendbuf sendcount recvbuf k) else None)"

definition cobo_allgather :: "cobo \<Rightarrow> byte list \<Rightarrow> nat \<Rightarrow> byte list \<Rightarrow> (byte list \<Rightarrow> 'r comm) \<Rightarrow> 'r comm" where
  "cobo_allgather t sendbuf sendcount recvbuf k =
     cobo_gather_tree t sendbuf sendcount recvbuf
       (\<lambda>recvbuf. cobo_bcast_tree t recvbuf (sendcount * cobo_nprocs t) k)"

definition cobo_alltoall :: "cobo \<Rightarrow> byte list \<Rightarrow> nat \<Rightarrow> 'r comm option" where
  "cobo_alltoall t sendbuf sendcount = None"

definition cobo_allreduce_max_int :: "cobo \<Rightarrow> u32 \<Rightarrow> u32 \<Rightarrow> (u32 \<Rightarrow> 'r comm) \<Rightarrow> 'r comm" where
  "cobo_allreduce_max_int t sendint recvint k = cobo_allreduce_max_int_tree t sendint recvint k"

text \<open>The result is the string buffer and the offsets of the strings in it; \<open>malloc\<close>ed
  memory that is not yet written is \<open>junk\<close>.\<close>

definition cobo_allgather_str ::
  "cobo \<Rightarrow> (nat \<Rightarrow> byte list) \<Rightarrow> string \<Rightarrow> (byte list \<times> nat list \<Rightarrow> 'r comm) \<Rightarrow> 'r comm" where
  "cobo_allgather_str t junk sendstr k =
     (let mylen = of_nat (length sendstr + 1) in
      cobo_allreduce_max_int t mylen 0 (\<lambda>m.
        let maxlen = nat (sint m);
            mystr = cstr sendstr @ replicate (maxlen - (length sendstr + 1)) 0
        in cobo_allgather t mystr maxlen (junk (cobo_nprocs t * maxlen)) (\<lambda>stringbuf.
             k (stringbuf, map (\<lambda>i. i * maxlen) [0..<cobo_nprocs t]))))"

section \<open>Intervals of ranks\<close>

definition span :: "nat \<Rightarrow> nat \<Rightarrow> nat list" where
  "span n x = [x..<x + cobo_num_child_incl (tree_of n x) + 1]"

lemma kids_cover: "l \<le> h \<Longrightarrow> concat (map (\<lambda>(c, k). [c..<k + 1]) (rev (kids l h))) = [l + 1..<h + 1]"
proof (induction l h rule: kids.induct)
  case (1 l h)
  show ?case
  proof (cases "l < h")
    case True
    note b = mid_of_bounds [OF True]
    have "[l + 1..<mid_of l h] @ [mid_of l h..<h + 1] = [l + 1..<h + 1]"
      using b upt_add_eq_append [of "l + 1" "mid_of l h" "h + 1 - mid_of l h"] by simp
    moreover have "mid_of l h - 1 + 1 = mid_of l h" "l \<le> mid_of l h - 1" using b by linarith+
    moreover have "kids l h = (mid_of l h, h) # kids l (mid_of l h - 1)" using True by (subst kids.simps) simp
    ultimately show ?thesis using "1.IH" [OF True] by (simp del: upt_Suc)
  next
    case False
    then show ?thesis using "1.prems" by (simp add: kids.simps)
  qed
qed

lemma span_owns: "owns n x h p \<Longrightarrow> span n x = [x..<h + 1]"
  using owns_bounds by (simp add: span_def compute_owns del: upt_Suc)

lemma span_root: "0 < n \<Longrightarrow> span n 0 = [0..<n]"
  using span_owns [OF owns.top [of n]] by simp

lemma span_bounds: "x < n \<Longrightarrow> y \<in> set (span n x) \<Longrightarrow> x \<le> y \<and> y < n"
  using owns_ex [of x n] owns_bounds by (fastforce simp: span_owns)

lemma child_count:
  assumes "x < n" and "(c, i) \<in> set (children_down (tree_of n x))"
  shows "i = length (span n c)"
proof -
  obtain h p where o: "owns n x h p" using owns_ex [OF assms(1)] by blast
  then obtain k where k: "(c, k) \<in> set (kids x h)" "i = k - c + 1"
    using assms(2) by (auto simp: children_down_kids)
  then show ?thesis using span_owns [OF kids_owns [OF o k(1)]] kids_bounds [OF k(1)] by simp
qed

text \<open>A rank's interval is itself and then its children's, in the order of the loops.\<close>

lemma span_children:
  assumes "x < n"
  shows "span n x = x # concat (map (\<lambda>(c, i). span n c) (children_down (tree_of n x)))"
proof -
  obtain h p where o: "owns n x h p" using owns_ex [OF assms] by blast
  have "map (\<lambda>(c, i). span n c) (children_down (tree_of n x)) = map (\<lambda>(c, k). [c..<k + 1]) (rev (kids x h))"
  proof -
    have "span n c = [c..<k + 1]" if "(c, k) \<in> set (kids x h)" for c k
      by (rule span_owns [OF kids_owns [OF o that]])
    then have "map (\<lambda>(c, k). span n c) (kids x h) = map (\<lambda>(c, k). [c..<k + 1]) (kids x h)" by auto
    then show ?thesis
      unfolding children_down_kids [OF o] by (simp add: rev_map comp_def split_def del: upt_Suc)
  qed
  then have "concat (map (\<lambda>(c, i). span n c) (children_down (tree_of n x))) = [x + 1..<h + 1]"
    using kids_cover owns_bounds [OF o] by simp
  then show ?thesis
    using span_owns [OF o] owns_bounds [OF o] by (simp add: upt_conv_Cons del: upt_Suc)
qed

lemma length_span: "x < n \<Longrightarrow> length (span n x) = cobo_num_child_incl (tree_of n x) + 1"
  by (simp add: span_def)

text \<open>The data of an interval, in rank order.\<close>

definition data_of :: "nat \<Rightarrow> (nat \<Rightarrow> byte list) \<Rightarrow> nat \<Rightarrow> byte list" where
  "data_of n d x = concat (map d (span n x))"

lemma data_of_children:
  "x < n \<Longrightarrow> data_of n d x = d x @ concat (map (\<lambda>(c, i). data_of n d c) (children_down (tree_of n x)))"
proof -
  have "concat (map d (concat (map f xs))) = concat (map (\<lambda>x. concat (map d (f x))) xs)"
    for f :: "nat \<times> nat \<Rightarrow> nat list" and xs by (induction xs) auto
  then show "x < n \<Longrightarrow> ?thesis"
    unfolding data_of_def by (subst span_children) (auto simp: split_def)
qed

lemma length_data_of:
  assumes "x < n" and "\<And>r. r < n \<Longrightarrow> length (d r) = sc"
  shows "length (data_of n d x) = sc * length (span n x)"
proof -
  have "length (concat (map d rs)) = sc * length rs" if "set rs \<subseteq> {..<n}" for rs
    using that assms(2) by (induction rs) (auto simp: algebra_simps)
  moreover have "set (span n x) \<subseteq> {..<n}" using span_bounds [OF assms(1)] by auto
  ultimately show ?thesis by (simp add: data_of_def)
qed

lemma fold_append: "fold (\<lambda>(c, i) acc. acc @ V c) cs acc = acc @ concat (map (\<lambda>(c, i). V c) cs)"
  by (induction cs arbitrary: acc) auto

section \<open>All ranks running one collective\<close>

lemma down_phase_b0: "cobo_me t \<noteq> 0 \<Longrightarrow> down_phase t sz b0 msgs k = down_phase t sz b1 msgs k"
  by (simp add: down_phase_def)

lemma bcast_steps:
  assumes p: "\<And>x. x < n \<Longrightarrow> p x = cobo_bcast_tree (tree_of n x) (buf x) sz (K x)"
    and sz: "sz \<le> length (buf 0)"
  shows "\<exists>j. nsteps j (spmd n p d)
     (spmd n (\<lambda>x. K x (if x = 0 then buf 0 else overlay (take sz (buf 0)) (buf x))) d)"
proof -
  let ?B = "\<lambda>x. if x = 0 then buf 0 else take sz (buf 0)"
  have "\<exists>j. nsteps j (spmd n p d) (spmd n (\<lambda>x. K x (overlay (?B x) (buf x))) d)"
  proof (rule spmd_down [where sz = "\<lambda>_. sz" and ?b0.0 = "buf 0" and B = ?B and K = "\<lambda>x b. K x (overlay b (buf x))"
      and msgs = "\<lambda>x b. map (\<lambda>c. (c, take sz b)) (cobo_child (tree_of n x))"])
    show "p x = down_phase (tree_of n x) sz (buf 0) (\<lambda>b. map (\<lambda>c. (c, take sz b)) (cobo_child (tree_of n x)))
        (\<lambda>b. K x (overlay b (buf x)))" if "x < n" for x
      using p [OF that] that down_phase_b0 [of "tree_of n x" sz "buf x" _ _ "buf 0"]
      by (cases "x = 0") (simp_all add: cobo_bcast_tree_def)
    show "distinct (map fst (map (\<lambda>c. (c, take sz (?B x))) (cobo_child (tree_of n x))))" if "x < n" for x
      using tree_child_distinct [OF that] by (simp add: comp_def)
    show "m = ?B c" if "x < n" "(c, m) \<in> set (map (\<lambda>c. (c, take sz (?B x))) (cobo_child (tree_of n x)))" for x c m
      using that tree_child_bounds [OF that(1)] by auto
  qed (use sz in \<open>auto simp: image_image\<close>)
  moreover have "(\<lambda>x. K x (overlay (?B x) (buf x))) = (\<lambda>x. K x (if x = 0 then buf 0 else overlay (take sz (buf 0)) (buf x)))"
    by (auto simp: fun_eq_iff overlay_def)
  ultimately show ?thesis by simp
qed

lemma gather_steps:
  assumes p: "\<And>x. x < n \<Longrightarrow> p x = cobo_gather_tree (tree_of n x) (sb x) sc (rb x) (K x)"
    and len: "\<And>x. x < n \<Longrightarrow> length (sb x) = sc"
  shows "\<exists>j. nsteps j (spmd n p d)
     (spmd n (\<lambda>x. K x (if x \<noteq> 0 then rb x else overlay (data_of n sb 0) (rb 0))) d)"
proof -
  let ?big = "\<lambda>x. (cobo_num_child_incl (tree_of n x) + 1) * sc"
  have "\<exists>j. nsteps j (spmd n p d)
      (spmd n (\<lambda>x. K x (if x \<noteq> 0 then rb x else overlay (data_of n sb x) (rb x))) d)"
  proof (rule spmd_up [where bytes_of = "\<lambda>i. sc * i" and f = "\<lambda>b big. big @ b" and init = sb and out = "\<lambda>x. take (?big x)"
      and V = "data_of n sb" and S = "data_of n sb" and K = "\<lambda>x big. K x (if x \<noteq> 0 then rb x else overlay big (rb x))"])
    fix x assume x: "x < n"
    show "p x = up_phase (tree_of n x) (\<lambda>i. sc * i) (\<lambda>b big. big @ b) (sb x) (take (?big x))
        (\<lambda>big. K x (if x \<noteq> 0 then rb x else overlay big (rb x)))"
      using p [OF x] len [OF x] x by (simp add: cobo_gather_tree_def Let_def)
    show "data_of n sb x = take (?big x) (data_of n sb x)"
      using length_data_of [OF x len] length_span [OF x] by simp
    show "data_of n sb x = fold (\<lambda>(c, i) big. big @ data_of n sb c) (children_down (tree_of n x)) (sb x)"
      using data_of_children [OF x] by (simp add: fold_append)
    show "length (data_of n sb c) = sc * i" if "(c, i) \<in> set (children_down (tree_of n x))" for c i
      using length_data_of [OF children_down_mem(2) [OF x that] len] child_count [OF x that] by simp
  qed
  moreover have "(\<lambda>x. K x (if x \<noteq> 0 then rb x else overlay (data_of n sb x) (rb x))) =
      (\<lambda>x. K x (if x \<noteq> 0 then rb x else overlay (data_of n sb 0) (rb 0)))" by (auto simp: fun_eq_iff)
  ultimately show ?thesis by simp
qed

lemma chunks_map:
  "drop off big = concat (map (\<lambda>(c, i). V c) cs) \<Longrightarrow> \<forall>(c, i) \<in> set cs. length (V c) = sc * i \<Longrightarrow>
   chunks sc off cs big = map (\<lambda>(c, i). (c, V c)) cs"
proof (induction sc off cs big rule: chunks.induct)
  case (2 sc off c i cs big)
  have "drop (off + sc * i) big = drop (sc * i) (drop off big)" by (simp add: add.commute)
  then have "drop (off + sc * i) big = concat (map (\<lambda>(c, i). V c) cs)" using "2.prems" by simp
  then show ?case using 2 by simp
qed simp

lemma scatter_steps:
  assumes n: "0 < n" and p: "\<And>x. x < n \<Longrightarrow> p x = cobo_scatter_tree (tree_of n x) (sb x) sc (rb x) (K x)"
    and len: "\<And>x. x < n \<Longrightarrow> length (v x) = sc" and root: "sb 0 = concat (map v [0..<n])"
  shows "\<exists>j. nsteps j (spmd n p d) (spmd n (\<lambda>x. K x (overlay (v x) (rb x))) d)"
proof -
  let ?sz = "\<lambda>x. (cobo_num_child_incl (tree_of n x) + 1) * sc"
  have ck: "chunks sc sc (children_down (tree_of n x)) (data_of n v x) =
      map (\<lambda>(c, i). (c, data_of n v c)) (children_down (tree_of n x))" if x: "x < n" for x
  proof (rule chunks_map)
    show "drop sc (data_of n v x) = concat (map (\<lambda>(c, i). data_of n v c) (children_down (tree_of n x)))"
      using data_of_children [OF x, of v] len [OF x] by simp
    show "\<forall>(c, i) \<in> set (children_down (tree_of n x)). length (data_of n v c) = sc * i"
      using length_data_of [OF children_down_mem(2) [OF x] len] child_count [OF x] by fastforce
  qed
  have "\<exists>j. nsteps j (spmd n p d) (spmd n (\<lambda>x. K x (overlay (take sc (data_of n v x)) (rb x))) d)"
  proof (rule spmd_down [where sz = ?sz and ?b0.0 = "sb 0" and B = "data_of n v"
      and K = "\<lambda>x big. K x (overlay (take sc big) (rb x))"
      and msgs = "\<lambda>x b. chunks sc sc (children_down (tree_of n x)) b"])
    show "data_of n v 0 = sb 0" using n root by (simp add: data_of_def span_root)
    fix x assume x: "x < n"
    show "p x = down_phase (tree_of n x) (?sz x) (sb 0) (\<lambda>b. chunks sc sc (children_down (tree_of n x)) b)
        (\<lambda>big. K x (overlay (take sc big) (rb x)))"
      using p [OF x] x down_phase_b0 [of "tree_of n x" _ "sb x" _ _ "sb 0"]
      by (cases "x = 0") (simp_all add: cobo_scatter_tree_def Let_def)
    show "length (data_of n v x) = ?sz x"
      using length_data_of [OF x len] length_span [OF x] by simp
    show "distinct (map fst (chunks sc sc (children_down (tree_of n x)) (data_of n v x)))"
      using children_down_fst [OF x] tree_child_distinct [OF x] by (simp add: ck [OF x] comp_def split_def)
    show "fst ` set (chunks sc sc (children_down (tree_of n x)) (data_of n v x)) = set (cobo_child (tree_of n x))"
      using arg_cong [OF children_down_fst [OF x], of set]
      by (simp add: ck [OF x] image_image split_def)
    show "m = data_of n v c" if "(c, m) \<in> set (chunks sc sc (children_down (tree_of n x)) (data_of n v x))" for c m
      using that by (auto simp: ck [OF x])
  qed
  moreover have "spmd n (\<lambda>x. K x (overlay (take sc (data_of n v x)) (rb x))) d = spmd n (\<lambda>x. K x (overlay (v x) (rb x))) d"
  proof -
    have "take sc (data_of n v x) = v x" if "x < n" for x
      using data_of_children [OF that, of v] len [OF that] by simp
    then show ?thesis by (auto simp: spmd_def fun_eq_iff)
  qed
  ultimately show ?thesis by simp
qed

section \<open>The maximum\<close>

text \<open>The largest value of an interval, compared as signed integers.\<close>

definition vmax :: "nat \<Rightarrow> (nat \<Rightarrow> u32) \<Rightarrow> nat \<Rightarrow> u32" where
  "vmax n v x = of_int (Max ((\<lambda>r. sint (v r)) ` set (span n x)))"

lemma sint_vmax: "sint (vmax n v x) = Max ((\<lambda>r. sint (v r)) ` set (span n x))"
proof -
  have "x \<in> set (span n x)" by (simp add: span_def del: upt_Suc)
  then have "Max ((\<lambda>r. sint (v r)) ` set (span n x)) \<in> (\<lambda>r. sint (v r)) ` set (span n x)"
    by (intro Max_in) auto
  then obtain r where "Max ((\<lambda>r. sint (v r)) ` set (span n x)) = sint (v r)" by blast
  then show ?thesis by (simp add: vmax_def)
qed

lemma sint_max_val: "sint (max_val (enc32 w) m) = max (sint m) (sint w)"
  by (simp add: max_val_def Let_def max_def)

lemma sint_fold_max:
  "sint (fold (\<lambda>(c, i). max_val (enc32 (W c))) cs m) = Max (insert (sint m) ((\<lambda>(c, i). sint (W c)) ` set cs))"
proof (induction cs arbitrary: m)
  case Nil
  then show ?case by simp
next
  case (Cons x cs)
  obtain c i where x: "x = (c, i)" by (cases x)
  have "Max (insert (max a b) A) = Max (insert a (insert b A))" if "finite A" for a b :: int and A
    using that by (cases "A = {}") (simp_all add: max.assoc)
  then show ?case using Cons by (simp add: x sint_max_val)
qed

lemma vmax_children:
  assumes "x < n"
  shows "vmax n v x = fold (\<lambda>(c, i). max_val (enc32 (vmax n v c))) (children_down (tree_of n x)) (v x)"
proof -
  let ?f = "\<lambda>r. sint (v r)" and ?cd = "children_down (tree_of n x)"
  have s: "set (span n x) = insert x (\<Union>(c, i) \<in> set ?cd. set (span n c))"
    by (subst span_children [OF assms]) (auto simp: split_def)
  have self: "c \<in> set (span n c)" for c by (simp add: span_def del: upt_Suc)
  have "Max (?f ` set (span n x)) = Max (insert (?f x) ((\<lambda>(c, i). sint (vmax n v c)) ` set ?cd))"
  proof (rule Max_eqI)
    fix y assume "y \<in> ?f ` set (span n x)"
    then consider "y = ?f x" | c i r where "(c, i) \<in> set ?cd" "r \<in> set (span n c)" "y = ?f r"
      unfolding s by auto
    then show "y \<le> Max (insert (?f x) ((\<lambda>(c, i). sint (vmax n v c)) ` set ?cd))"
    proof cases
      case 1
      then show ?thesis by simp
    next
      case 2
      then have "y \<le> sint (vmax n v c)" by (simp add: sint_vmax)
      also have "\<dots> \<le> Max (insert (?f x) ((\<lambda>(c, i). sint (vmax n v c)) ` set ?cd))"
        using 2(1) by (intro Max_ge) force+
      finally show ?thesis .
    qed
  next
    have "Max (insert (?f x) ((\<lambda>(c, i). sint (vmax n v c)) ` set ?cd)) \<in> insert (?f x) ((\<lambda>(c, i). sint (vmax n v c)) ` set ?cd)"
      by (rule Max_in) auto
    then consider "Max (insert (?f x) ((\<lambda>(c, i). sint (vmax n v c)) ` set ?cd)) = ?f x"
      | c i where "(c, i) \<in> set ?cd" "Max (insert (?f x) ((\<lambda>(c, i). sint (vmax n v c)) ` set ?cd)) = sint (vmax n v c)"
      by auto
    then show "Max (insert (?f x) ((\<lambda>(c, i). sint (vmax n v c)) ` set ?cd)) \<in> ?f ` set (span n x)"
    proof cases
      case 1
      then show ?thesis using self by auto
    next
      case 2
      have "sint (vmax n v c) \<in> ?f ` set (span n c)"
        unfolding sint_vmax using self [of c] by (intro Max_in) (simp_all, force)
      then show ?thesis using 2 unfolding s by auto
    qed
  qed simp
  then have "sint (vmax n v x) = sint (fold (\<lambda>(c, i). max_val (enc32 (vmax n v c))) ?cd (v x))"
    by (simp add: sint_vmax [of n v x] sint_fold_max)
  then show ?thesis by (rule signed_word_eqI)
qed

lemma allreduce_steps:
  assumes p: "\<And>x. x < n \<Longrightarrow> p x = cobo_allreduce_max_int_tree (tree_of n x) (v x) (r x) (K x)"
  shows "\<exists>j. nsteps j (spmd n p d) (spmd n (\<lambda>x. K x (vmax n v 0)) d)"
proof -
  let ?k = "\<lambda>x m. cobo_bcast_tree (tree_of n x) (enc32 (if x \<noteq> 0 then r x else m)) 4 (\<lambda>b. K x (dec32 b))"
  let ?buf = "\<lambda>x. enc32 (if x \<noteq> 0 then r x else vmax n v x)"
  have "\<exists>j. nsteps j (spmd n p d) (spmd n (\<lambda>x. ?k x (vmax n v x)) d)"
  proof (rule spmd_up [where bytes_of = "\<lambda>_. 4" and f = max_val and init = v and out = "\<lambda>_. enc32"
      and V = "\<lambda>x. enc32 (vmax n v x)" and S = "vmax n v" and K = ?k])
    fix x assume x: "x < n"
    show "p x = up_phase (tree_of n x) (\<lambda>_. 4) max_val (v x) enc32 (?k x)"
      using p [OF x] x by (simp add: cobo_allreduce_max_int_tree_def)
    show "vmax n v x = fold (\<lambda>(c, i). max_val (enc32 (vmax n v c))) (children_down (tree_of n x)) (v x)"
      by (rule vmax_children [OF x])
  qed simp_all
  then obtain i where i: "nsteps i (spmd n p d) (spmd n (\<lambda>x. ?k x (vmax n v x)) d)" by (elim exE)
  have e: "K x (dec32 (if x = 0 then ?buf 0 else overlay (take 4 (?buf 0)) (?buf x))) = K x (vmax n v 0)" for x
    by (simp add: overlay_def)
  have "\<exists>j. nsteps j (spmd n (\<lambda>x. ?k x (vmax n v x)) d)
      (spmd n (\<lambda>x. K x (dec32 (if x = 0 then ?buf 0 else overlay (take 4 (?buf 0)) (?buf x)))) d)"
    by (rule bcast_steps [where buf = ?buf and K = "\<lambda>x b. K x (dec32 b)"]) simp_all
  then obtain j where j: "nsteps j (spmd n (\<lambda>x. ?k x (vmax n v x)) d) (spmd n (\<lambda>x. K x (vmax n v 0)) d)"
    unfolding e by (elim exE)
  show ?thesis by (rule exI, rule nsteps_trans [OF i j])
qed

section \<open>Allgather\<close>

lemma data_of_root: "0 < n \<Longrightarrow> data_of n d 0 = concat (map d [0..<n])"
  by (simp add: data_of_def span_root)

lemma length_concat_const:
  "(\<And>x. x < n \<Longrightarrow> length (d x) = sc) \<Longrightarrow> length (concat (map d [0..<n])) = n * sc"
  by (induction n) simp_all

lemma allgather_steps:
  assumes p: "\<And>x. x < n \<Longrightarrow> p x = cobo_allgather (tree_of n x) (sb x) sc (rb x) (K x)"
    and len: "\<And>x. x < n \<Longrightarrow> length (sb x) = sc" and rb: "\<And>x. x < n \<Longrightarrow> length (rb x) = n * sc" and n: "0 < n"
  shows "\<exists>j. nsteps j (spmd n p d) (spmd n (\<lambda>x. K x (concat (map sb [0..<n]))) d)"
proof -
  let ?g = "concat (map sb [0..<n])"
  let ?buf = "\<lambda>x. if x \<noteq> 0 then rb x else overlay (data_of n sb 0) (rb 0)"
  let ?k = "\<lambda>x b. cobo_bcast_tree (tree_of n x) b (sc * n) (K x)"
  have lg: "length ?g = n * sc" by (rule length_concat_const [OF len])
  have "\<exists>j. nsteps j (spmd n p d) (spmd n (\<lambda>x. ?k x (?buf x)) d)"
    by (rule gather_steps [where K = ?k and sb = sb and sc = sc]) (use p len in \<open>simp_all add: cobo_allgather_def\<close>)
  then obtain i where i: "nsteps i (spmd n p d) (spmd n (\<lambda>x. ?k x (?buf x)) d)" by (elim exE)
  have b0: "?buf 0 = ?g" using lg rb [OF n] by (simp add: data_of_root [OF n] overlay_def)
  have "\<exists>j. nsteps j (spmd n (\<lambda>x. ?k x (?buf x)) d)
      (spmd n (\<lambda>x. K x (if x = 0 then ?buf 0 else overlay (take (sc * n) (?buf 0)) (?buf x))) d)"
    by (rule bcast_steps) (use b0 lg in \<open>simp_all add: mult.commute\<close>)
  moreover have "spmd n (\<lambda>x. K x (if x = 0 then ?buf 0 else overlay (take (sc * n) (?buf 0)) (?buf x))) d =
      spmd n (\<lambda>x. K x ?g) d"
    using b0 lg rb by (auto simp: spmd_def fun_eq_iff overlay_def mult.commute)
  ultimately obtain j where j: "nsteps j (spmd n (\<lambda>x. ?k x (?buf x)) d) (spmd n (\<lambda>x. K x ?g) d)"
    by (metis (no_types, lifting))
  show ?thesis by (rule exI, rule nsteps_trans [OF i j])
qed

text \<open>Strings of any length, padded to the longest.\<close>

definition padded :: "nat \<Rightarrow> string \<Rightarrow> byte list" where
  "padded m s = cstr s @ replicate (m - (length s + 1)) 0"

definition max_len :: "nat \<Rightarrow> (nat \<Rightarrow> string) \<Rightarrow> nat" where
  "max_len n str = Max ((\<lambda>x. length (str x) + 1) ` {..<n})"

lemma vmax_lengths:
  assumes n: "0 < n" and l: "\<And>x. x < n \<Longrightarrow> length (str x) + 1 < 2 ^ 31"
  shows "nat (sint (vmax n (\<lambda>x. of_nat (length (str x) + 1)) 0)) = max_len n str"
proof -
  have "sint (vmax n (\<lambda>x. of_nat (length (str x) + 1)) 0) =
      Max ((\<lambda>r. sint (of_nat (length (str r) + 1) :: u32)) ` {..<n})"
    unfolding sint_vmax span_root [OF n] by (simp add: atLeast0LessThan)
  also have "(\<lambda>r. sint (of_nat (length (str r) + 1) :: u32)) ` {..<n} = int ` (\<lambda>x. length (str x) + 1) ` {..<n}"
    unfolding image_image by (rule image_cong [OF refl], rule sint_of_nat32) (use l in simp)
  also have "Max \<dots> = int (max_len n str)"
    unfolding max_len_def using n by (subst mono_Max_commute [symmetric]) (auto simp: mono_def)
  finally show ?thesis by simp
qed

lemma allgather_str_steps:
  assumes p: "\<And>x. x < n \<Longrightarrow> p x = cobo_allgather_str (tree_of n x) (junk x) (str x) (K x)"
    and l: "\<And>x. x < n \<Longrightarrow> length (str x) + 1 < 2 ^ 31" and j: "\<And>x k. length (junk x k) = k" and n: "0 < n"
  shows "\<exists>j. nsteps j (spmd n p d) (spmd n (\<lambda>x. K x (concat (map (\<lambda>x. padded (max_len n str) (str x)) [0..<n]),
     map (\<lambda>i. i * max_len n str) [0..<n])) d)"
proof -
  let ?M = "max_len n str"
  let ?k = "\<lambda>x b. K x (b, map (\<lambda>i. i * ?M) [0..<n])"
  let ?q = "\<lambda>x. cobo_allgather (tree_of n x) (padded ?M (str x)) ?M (junk x (n * ?M)) (?k x)"
  let ?K = "\<lambda>x m. let maxlen = nat (sint m);
            mystr = cstr (str x) @ replicate (maxlen - (length (str x) + 1)) 0
        in cobo_allgather (tree_of n x) mystr maxlen (junk x (cobo_nprocs (tree_of n x) * maxlen)) (\<lambda>stringbuf.
             K x (stringbuf, map (\<lambda>i. i * maxlen) [0..<cobo_nprocs (tree_of n x)]))"
  have "\<exists>j. nsteps j (spmd n p d) (spmd n (\<lambda>x. ?K x (vmax n (\<lambda>x. of_nat (length (str x) + 1)) 0)) d)"
    by (rule allreduce_steps) (simp only: p cobo_allgather_str_def cobo_allreduce_max_int_def Let_def)
  moreover have "spmd n (\<lambda>x. ?K x (vmax n (\<lambda>x. of_nat (length (str x) + 1)) 0)) d = spmd n ?q d"
    by (simp only: spmd_def Let_def vmax_lengths [OF n l] padded_def) (auto simp: fun_eq_iff)
  ultimately obtain i where i: "nsteps i (spmd n p d) (spmd n ?q d)" by (metis (no_types, lifting))
  have pl: "length (padded ?M (str x)) = ?M" if "x < n" for x
  proof -
    have "length (str x) + 1 \<le> ?M" unfolding max_len_def using that by (intro Max_ge) auto
    then show ?thesis by (simp add: padded_def)
  qed
  have "\<exists>j. nsteps j (spmd n ?q d) (spmd n (\<lambda>x. ?k x (concat (map (\<lambda>x. padded ?M (str x)) [0..<n]))) d)"
    by (rule allgather_steps [where sc = ?M and rb = "\<lambda>x. junk x (n * ?M)" and K = ?k]) (use pl j n in simp_all)
  then show ?thesis using nsteps_trans [OF i] by blast
qed

lemma read_padded:
  assumes n: "\<And>x. x < n \<Longrightarrow> nul_free (str x)" and i: "i < n"
  shows "read_cstr (concat (map (\<lambda>x. padded (max_len n str) (str x)) [0..<n])) (i * max_len n str) = Some (str i)"
proof -
  let ?M = "max_len n str" and ?p = "\<lambda>x. padded (max_len n str) (str x)"
  have pl: "length (?p x) = ?M" if "x < n" for x
  proof -
    have "length (str x) + 1 \<le> ?M" unfolding max_len_def using that by (intro Max_ge) auto
    then show ?thesis by (simp add: padded_def)
  qed
  have "[0..<n] = [0..<i] @ i # [Suc i..<n]"
    using i by (metis le0 upt_conv_Cons upt_add_eq_append add_0 less_imp_le_nat le_add_diff_inverse)
  then have e: "concat (map ?p [0..<n]) = concat (map ?p [0..<i]) @ cstr (str i) @
      (replicate (?M - (length (str i) + 1)) 0 @ concat (map ?p [Suc i..<n]))"
    by (simp add: padded_def)
  have "length (concat (map ?p [0..<i])) = i * ?M"
    by (rule length_concat_const) (use pl i in simp)
  then show ?thesis
    unfolding e using read_cstr_cstr [OF n [OF i], of "concat (map ?p [0..<i])"] by simp
qed

section \<open>Properties\<close>





text \<open>C31: \<open>cobo_bcast\<close> always ends with the first \<open>sendcount\<close> bytes of rank 0's buffer in
  every rank's buffer.\<close>

theorem bcast_correct:
  assumes "\<And>x. x < n \<Longrightarrow> length (buf x) = sc" and "0 < n"
  shows "converges (spmd n (\<lambda>x. the (cobo_bcast (tree_of n x) (buf x) sc 0 Done)) []) (spmd n (\<lambda>x. Done (buf 0)) [])"
proof -
  have "spmd n (\<lambda>x. Done (if x = 0 then buf 0 else overlay (take sc (buf 0)) (buf x))) [] = spmd n (\<lambda>x. Done (buf 0)) []"
    using assms by (auto simp: spmd_def fun_eq_iff overlay_def)
  moreover have "\<exists>j. nsteps j (spmd n (\<lambda>x. the (cobo_bcast (tree_of n x) (buf x) sc 0 Done)) [])
      (spmd n (\<lambda>x. Done (if x = 0 then buf 0 else overlay (take sc (buf 0)) (buf x))) [])"
    by (rule bcast_steps [where K = "\<lambda>_. Done"]) (simp_all add: cobo_bcast_def assms)
  ultimately show ?thesis by (simp only:) (rule converges_done)
qed

theorem bcast_correct_witness:
  "converges (spmd 5 (\<lambda>x. the (cobo_bcast (tree_of 5 x) [of_nat x] 1 0 Done)) []) (spmd 5 (\<lambda>x. Done [of_nat 0]) [])"
  using bcast_correct [of 5 "\<lambda>x. [of_nat x]" 1] by simp

text \<open>C39: \<open>cobo_allreduce_max_int\<close> always ends, and every rank then holds the same value:
  the largest of all the ranks' values as signed integers.\<close>

theorem allreduce_correct:
  assumes "0 < n"
  shows "\<exists>m. converges (spmd n (\<lambda>x. cobo_allreduce_max_int (tree_of n x) (v x) (r x) Done) 0) (spmd n (\<lambda>x. Done m) 0) \<and>
     sint m = Max ((\<lambda>x. sint (v x)) ` {0..<n})"
proof -
  have "\<exists>j. nsteps j (spmd n (\<lambda>x. cobo_allreduce_max_int (tree_of n x) (v x) (r x) Done) 0) (spmd n (\<lambda>x. Done (vmax n v 0)) 0)"
    by (rule allreduce_steps) (simp add: cobo_allreduce_max_int_def)
  then have "converges (spmd n (\<lambda>x. cobo_allreduce_max_int (tree_of n x) (v x) (r x) Done) 0) (spmd n (\<lambda>x. Done (vmax n v 0)) 0)"
    by (rule converges_done)
  moreover have "sint (vmax n v 0) = Max ((\<lambda>x. sint (v x)) ` {0..<n})"
    unfolding sint_vmax span_root [OF assms] by simp
  ultimately show ?thesis by blast
qed

theorem allreduce_correct_witness:
  "\<exists>m. converges (spmd 3 (\<lambda>x. cobo_allreduce_max_int (tree_of 3 x) (of_nat x) 0 Done) 0) (spmd 3 (\<lambda>x. Done m) 0) \<and>
     sint m = Max ((\<lambda>x. sint (of_nat x :: u32)) ` {0..<3})"
  by (rule allreduce_correct) simp



end
