(* ===== verification/Lmon_Link.thy ===== *)
theory Lmon_Link
  imports Cobo_Coll Lmonp_Msg
begin

text \<open>
  The connection between a master daemon and the front end: a socket whose kernel answers
  reads and writes as it likes, and the bytes that went out. Both ends of it, the master
  back-end daemon and the front end, use it by the three calls below. \<open>ready\<close> says what the
  kernel still offers and takes; the locale \<open>message_link\<close> is what the protocols of the two
  ends are proved from.
\<close>

section \<open>A socket\<close>

record link =
  lk_reads :: "rdans list"
  lk_writes :: "wrans list"
  lk_sent :: "byte list"

definition lk_write :: "byte list \<Rightarrow> int \<Rightarrow> (link, int) act" where
  "lk_write msg n l =
     (case write_lmonp_long_msg (lk_writes l) msg n of
        None \<Rightarrow> throw No_return l
      | Some (r, wire, ks) \<Rightarrow> ret r (l\<lparr>lk_writes := ks, lk_sent := lk_sent l @ wire\<rparr>))"

text \<open>A read fills the front of the caller's buffer; a failed one leaves it partly filled.\<close>

definition lk_read_hdr :: "byte list \<Rightarrow> (link, int \<times> byte list) act" where
  "lk_read_hdr old l =
     (case read_lmonp_msgheader (lk_reads l) of
        None \<Rightarrow> throw No_return l
      | Some (r, b, ks) \<Rightarrow> ret (r, overlay b old) (l\<lparr>lk_reads := ks\<rparr>))"

definition lk_read_payload :: "byte list \<Rightarrow> int \<Rightarrow> (link, int \<times> byte list) act" where
  "lk_read_payload old n l =
     (case read_lmonp_payloads (lk_reads l) n of
        None \<Rightarrow> throw No_return l
      | Some (r, b, ks) \<Rightarrow> ret (r, overlay b old) (l\<lparr>lk_reads := ks\<rparr>))"

text \<open>An action on a part of the state.\<close>

definition zoomA :: "('s \<Rightarrow> 't) \<Rightarrow> ('t \<Rightarrow> 's \<Rightarrow> 's) \<Rightarrow> ('t, 'a) act \<Rightarrow> ('s, 'a) act" where
  "zoomA part put m s = (case m (part s) of (r, t) \<Rightarrow> (r, put t s))"

lemma zoomA_run: "m (part s) = (r, t) \<Longrightarrow> zoomA part put m s = (r, put t s)"
  by (simp add: zoomA_def)

text \<open>A step that may end the function with a return code, \<open>Inl\<close>.\<close>

definition stepA :: "('s, 'c + 'a) act \<Rightarrow> ('a \<Rightarrow> ('s, 'c + 'b) act) \<Rightarrow> ('s, 'c + 'b) act" where
  "stepA m f = bindA m (\<lambda>x. case x of Inl rc \<Rightarrow> ret (Inl rc) | Inr y \<Rightarrow> f y)"

lemma keeps_step [keeps_intros]: "keeps P m \<Longrightarrow> (\<And>x. keeps P (f x)) \<Longrightarrow> keeps P (stepA m f)"
  unfolding stepA_def by (rule keeps_bindA) (auto split: sum.split)

lemma stepA_run: "m s = (Inr (Inr y), t) \<Longrightarrow> stepA m f s = f y t"
  by (simp add: stepA_def bindA_def)

lemma stepA_stop: "m s = (Inr (Inl rc), t) \<Longrightarrow> stepA m f s = (Inr (Inl rc), t)"
  by (simp add: stepA_def bindA_def ret_def)

section \<open>A kernel that serves\<close>

definition kernel_takes :: "wrans list \<Rightarrow> nat list \<Rightarrow> bool" where
  "kernel_takes ks ns \<longleftrightarrow>
     (\<exists>kss tl. ks = concat kss @ tl \<and> map wprogress kss = ns \<and> wtransient (concat kss @ tl) \<and> wprogress tl = 0)"

lemma wtransient_append [simp]: "wtransient (a @ b) \<longleftrightarrow> wtransient a \<and> wtransient b"
  by (auto simp: wtransient_def)

lemma wprogress_append [simp]: "wprogress (a @ b) = wprogress a + wprogress b"
  by (induction a rule: wprogress.induct) auto

lemma write_loop_append:
  "write_loop ks buf count g wire = Some (r, wire', ks') \<Longrightarrow>
   write_loop (ks @ rest) buf count g wire = Some (r, wire', ks' @ rest)"
  by (induction ks buf count g wire rule: write_loop.induct) (auto simp: Let_def split: if_splits)

lemma write_loop_suffix:
  "write_loop ks buf count g wire = Some (r, wire', ks') \<Longrightarrow> \<exists>pre. ks = pre @ ks'"
  by (induction ks buf count g wire rule: write_loop.induct)
    (fastforce simp: Let_def Cons_eq_append_conv split: if_splits)+

lemma kernel_write:
  assumes t: "kernel_takes ks ((28 + length p) # ns)" and w: "wf_msg h p"
  shows "\<exists>ks'. write_lmonp_long_msg ks (enc_hdr h @ p) (28 + int (length p)) =
     Some (28 + int (length p), enc_hdr h @ p, ks') \<and> kernel_takes ks' ns"
proof -
  obtain kss tl where k: "ks = concat kss @ tl" "map wprogress kss = (28 + length p) # ns"
    "wtransient (concat kss @ tl)" "wprogress tl = 0"
    using t unfolding kernel_takes_def by (elim exE conjE)
  then obtain k1 ks2 where kss: "kss = k1 # ks2" "wprogress k1 = 28 + length p" "map wprogress ks2 = ns"
    by auto
  have t1: "wtransient k1" using k(3) kss(1) by simp
  have m: "msgsize_of h = 28 + int (length p)" using msgsize_of_wf [OF w] by simp
  have c: "nat (28 + int (length p)) = 28 + length p" by simp
  obtain l where l: "write_loop k1 (enc_hdr h @ p) (28 + int (length p)) 0 [] =
      Some (28 + int (length p), enc_hdr h @ p, l)" "wprogress l = 0"
    using write_loop_progress [OF t1, of 0 "28 + int (length p)" "[]" "enc_hdr h @ p"] kss(2) c by auto
  obtain pre where pre: "k1 = pre @ l" using write_loop_suffix [OF l(1)] by auto
  have "kernel_takes (l @ concat ks2 @ tl) ns"
  proof (cases ks2)
    case Nil
    then show ?thesis using k kss l(2) pre unfolding kernel_takes_def
      by (intro exI [of _ "[]"] exI [of _ "l @ tl"]) simp
  next
    case (Cons k2 ks3)
    then show ?thesis using k kss l(2) pre unfolding kernel_takes_def
      by (intro exI [of _ "(l @ k2) # ks3"] exI [of _ tl]) simp
  qed
  then show ?thesis
    using write_loop_append [OF l(1), of "concat ks2 @ tl"] k(1) kss(1) m
    by (auto simp: write_lmonp_long_msg_def lmon_write_raw_def)
qed

text \<open>The pieces the peer sends, in the order they are read, and the sizes of the messages
  that will be taken.\<close>

definition ready :: "link \<Rightarrow> byte list list \<Rightarrow> nat list \<Rightarrow> bool" where
  "ready l ins outs \<longleftrightarrow> kernel_offers (lk_reads l) ins \<and> kernel_takes (lk_writes l) outs"

lemma lk_write_ready:
  assumes "ready l ins ((28 + length p) # outs)" and "wf_msg h p" and "n = 28 + int (length p)"
  shows "\<exists>l'. lk_write (enc_hdr h @ p) n l = (Inr n, l') \<and> ready l' ins outs \<and>
     lk_sent l' = lk_sent l @ enc_hdr h @ p"
  using kernel_write [of "lk_writes l" p outs h] assms
  by (auto simp: ready_def lk_write_def ret_def)

lemma lk_read_hdr_ready:
  assumes "ready l (enc_hdr h # ins) outs" and "length old = 28"
  shows "\<exists>l'. lk_read_hdr old l = (Inr (28, enc_hdr h), l') \<and> ready l' ins outs \<and> lk_sent l' = lk_sent l"
  using sock.recv_offer [of "lk_reads l" "enc_hdr h" ins] assms
  by (auto simp: ready_def lk_read_hdr_def ret_def read_lmonp_msgheader_def lmonp_size_def overlay_def)

lemma lk_read_payload_ready:
  assumes "ready l (p # ins) outs" and "p \<noteq> []" and "n = int (length p)" and "length old = length p"
  shows "\<exists>l'. lk_read_payload old n l = (Inr (n, p), l') \<and> ready l' ins outs \<and> lk_sent l' = lk_sent l"
  using sock.recv_offer [of "lk_reads l" p ins] assms
  by (auto simp: ready_def lk_read_payload_def ret_def read_lmonp_payloads_def overlay_def)

section \<open>The interface\<close>

text \<open>What a protocol over a connection relies on: a well-formed message goes out as it is,
  and what the peer sent comes in piece by piece.\<close>

locale message_link =
  fixes put :: "byte list \<Rightarrow> int \<Rightarrow> ('s, int) act"
    and get_hdr :: "byte list \<Rightarrow> ('s, int \<times> byte list) act"
    and get_body :: "byte list \<Rightarrow> int \<Rightarrow> ('s, int \<times> byte list) act"
    and serves :: "'s \<Rightarrow> byte list list \<Rightarrow> nat list \<Rightarrow> bool"
    and out :: "'s \<Rightarrow> byte list"
  assumes put: "serves s ins ((28 + length p) # outs) \<Longrightarrow> wf_msg h p \<Longrightarrow> n = 28 + int (length p) \<Longrightarrow>
      \<exists>t. put (enc_hdr h @ p) n s = (Inr n, t) \<and> serves t ins outs \<and> out t = out s @ enc_hdr h @ p"
    and hdr: "serves s (enc_hdr h # ins) outs \<Longrightarrow> length old = 28 \<Longrightarrow>
      \<exists>t. get_hdr old s = (Inr (28, enc_hdr h), t) \<and> serves t ins outs \<and> out t = out s"
    and body: "serves s (p # ins) outs \<Longrightarrow> p \<noteq> [] \<Longrightarrow> n = int (length p) \<Longrightarrow> length old = length p \<Longrightarrow>
      \<exists>t. get_body old n s = (Inr (n, p), t) \<and> serves t ins outs \<and> out t = out s"
begin

text \<open>A message that is only a header.\<close>

lemma put_short:
  assumes "serves s ins (28 # outs)" and "wf_msg h []"
  shows "\<exists>t. put (enc_hdr h) 28 s = (Inr 28, t) \<and> serves t ins outs \<and> out t = out s @ enc_hdr h"
  using put [of s ins "[]" outs h 28] assms by simp

text \<open>A header and the payload behind it.\<close>

lemma get_message:
  assumes "serves s (enc_hdr h # p # ins) outs" and "p \<noteq> []" and "length old = 28"
    and "n = int (length p)" and "length old2 = length p"
  shows "\<exists>t u. get_hdr old s = (Inr (28, enc_hdr h), t) \<and> get_body old2 n t = (Inr (n, p), u) \<and>
     serves u ins outs \<and> out u = out s"
  using hdr [OF assms(1,3)] body [OF _ assms(2,4,5), of _ ins outs] by fastforce

text \<open>Several headers written one after the other.\<close>

lemma put_all:
  assumes "serves s ins (replicate (length hs) 28 @ outs)" and "\<forall>h \<in> set hs. wf_msg h []"
  shows "\<exists>t. seqA (map (\<lambda>h. ignA (put (enc_hdr h) 28)) hs) s = (Inr (), t) \<and> serves t ins outs \<and>
     out t = out s @ concat (map enc_hdr hs)"
  using assms
proof (induction hs arbitrary: s)
  case Nil
  then show ?case by (simp add: ret_def)
next
  case (Cons h hs)
  obtain t where "put (enc_hdr h) 28 s = (Inr 28, t)" "serves t ins (replicate (length hs) 28 @ outs)"
    "out t = out s @ enc_hdr h"
    using put_short [of s ins "replicate (length hs) 28 @ outs" h] Cons.prems by auto
  then show ?case using Cons.IH [of t] Cons.prems(2) by (auto simp: ignA_def bindA_def ret_def)
qed

end

interpretation lk: message_link lk_write lk_read_hdr lk_read_payload ready lk_sent
  by unfold_locales (rule lk_write_ready lk_read_hdr_ready lk_read_payload_ready; assumption)+

end
