(* ===== verification/Lmon_Daemon.thy ===== *)
theory Lmon_Daemon
  imports Be_Sync Lmon_Link
begin

text \<open>
  What the back-end and the middleware daemons share: \<^verbatim>\<open>lmon_daemon_internal.cxx\<close>, built over
  COBO. A daemon's collective calls are programs of \<open>Cobo_Net\<close>; what a daemon does between
  two of them is an action on its own state. Host names, files and the environment are what
  the system answers.
\<close>

section \<open>Programs of a daemon\<close>

text \<open>A daemon ends with a return code or not (\<open>exn\<close>), and with its state.\<close>

type_synonym 's dres = "(exn + lmon_rc_e) \<times> 's"
type_synonym 's dprog = "'s dres comm"

definition act_then :: "('s, lmon_rc_e + 'a) act \<Rightarrow> 's \<Rightarrow> ('a \<Rightarrow> 's \<Rightarrow> 's dprog) \<Rightarrow> 's dprog" where
  "act_then m s k = (case m s of (Inl e, t) \<Rightarrow> Done (Inl e, t)
     | (Inr (Inl rc), t) \<Rightarrow> Done (Inr rc, t) | (Inr (Inr x), t) \<Rightarrow> k x t)"

lemma act_then_run: "m s = (Inr (Inr x), t) \<Longrightarrow> act_then m s k = k x t"
  by (simp add: act_then_def)

lemma act_then_stop: "m s = (Inr (Inl rc), t) \<Longrightarrow> act_then m s k = Done (Inr rc, t)"
  by (simp add: act_then_def)

section \<open>The collective calls\<close>

definition LMON_DAEMON_MASTER :: nat where "LMON_DAEMON_MASTER = 0"
definition LMON_DAEMON_HN_MAX :: nat where "LMON_DAEMON_HN_MAX = 108"

text \<open>COBO ends the process where it fails, so a call that returns has succeeded.\<close>

definition daemon_internal_barrier :: "cobo \<Rightarrow> (lmon_rc_e \<Rightarrow> 's dprog) \<Rightarrow> 's dprog" where
  "daemon_internal_barrier t k = cobo_barrier t (k LMON_OK)"

definition daemon_internal_broadcast ::
  "cobo \<Rightarrow> 's \<Rightarrow> byte list \<Rightarrow> nat \<Rightarrow> (lmon_rc_e \<Rightarrow> byte list \<Rightarrow> 's dprog) \<Rightarrow> 's dprog" where
  "daemon_internal_broadcast t s buf numbyte k =
     (case cobo_bcast t buf numbyte LMON_DAEMON_MASTER (k LMON_OK) of
        None \<Rightarrow> Done (Inl Aborted, s) | Some p \<Rightarrow> p)"

definition daemon_internal_gather ::
  "cobo \<Rightarrow> 's \<Rightarrow> byte list \<Rightarrow> nat \<Rightarrow> byte list \<Rightarrow> (lmon_rc_e \<Rightarrow> byte list \<Rightarrow> 's dprog) \<Rightarrow> 's dprog" where
  "daemon_internal_gather t s sendbuf numbyte_per_elem recvbuf k =
     (case cobo_gather t sendbuf numbyte_per_elem recvbuf LMON_DAEMON_MASTER (k LMON_OK) of
        None \<Rightarrow> Done (Inl Aborted, s) | Some p \<Rightarrow> p)"

definition daemon_internal_scatter ::
  "cobo \<Rightarrow> 's \<Rightarrow> byte list \<Rightarrow> nat \<Rightarrow> byte list \<Rightarrow> (lmon_rc_e \<Rightarrow> byte list \<Rightarrow> 's dprog) \<Rightarrow> 's dprog" where
  "daemon_internal_scatter t s sendbuf numbyte_per_element recvbuf k =
     (case cobo_scatter t sendbuf numbyte_per_element recvbuf LMON_DAEMON_MASTER (k LMON_OK) of
        None \<Rightarrow> Done (Inl Aborted, s) | Some p \<Rightarrow> p)"

text \<open>The statics \<open>ICCL_rank\<close> and \<open>ICCL_size\<close>; the master's connection is COBO's parent socket.\<close>

definition daemon_internal_getConnFd :: "int \<Rightarrow> int option \<Rightarrow> lmon_rc_e \<times> int option" where
  "daemon_internal_getConnFd iccl_rank parent_socket =
     (if iccl_rank = 0 then (case parent_socket of None \<Rightarrow> (LMON_EDUNAV, None) | Some fd \<Rightarrow> (LMON_OK, Some fd))
      else (LMON_EDUNAV, None))"

definition daemon_internal_getMyRank :: "int \<Rightarrow> lmon_rc_e \<times> int option" where
  "daemon_internal_getMyRank iccl_rank = (if iccl_rank < 0 then (LMON_EINVAL, None) else (LMON_OK, Some iccl_rank))"

definition daemon_internal_getSize :: "int \<Rightarrow> lmon_rc_e \<times> int option" where
  "daemon_internal_getSize iccl_size = (if iccl_size < 0 then (LMON_EINVAL, None) else (LMON_OK, Some iccl_size))"

section \<open>Start-up\<close>

text \<open>The two options of LaunchMON on the command line go to the environment and off the
  command line, on the assumption that they come last: \<open>argc\<close> shrinks by their number, the
  argument there becomes the terminator and the places behind it are overwritten. The result is
  what is exported and the new array.\<close>

definition opt_value :: "string \<Rightarrow> string \<Rightarrow> string option" where
  "opt_value name a =
     (if 2 \<le> length a \<and> hd a = CHR ''-'' \<and> take (length name) (drop 2 a) = name
      then Some (drop (2 + length name) a) else None)"

fun scan_opts :: "string list \<Rightarrow> (string \<times> string) list" where
  "scan_opts [] = []"
| "scan_opts (a # as) =
     (case opt_value ''lmonsharedsec='' a of
        Some v \<Rightarrow> (''LMON_SHARED_SECRET'', v) # scan_opts as
      | None \<Rightarrow> (case opt_value ''lmonsecchk='' a of
          Some v \<Rightarrow> (''LMON_SEC_CHK'', v) # scan_opts as
        | None \<Rightarrow> scan_opts as))"

definition init_args :: "string list \<Rightarrow> (string \<times> string) list \<times> string option list" where
  "init_args argv =
     (let env = scan_opts (tl argv); n = length env; argc = length argv - n
      in (env, map Some (take argc argv) @ [None] @
               map (\<lambda>i. Some (''LMONNOOP'' @ show_int (int i) @ ''='' @ show_int (int i))) [1..<n + 1]))"

text \<open>\<open>cobo_open\<close> gives the rank and the number of daemons, or fails.\<close>

definition daemon_internal_init ::
  "string list \<Rightarrow> (int \<times> int) option \<Rightarrow> lmon_rc_e \<times> (string \<times> string) list \<times> string option list" where
  "daemon_internal_init argv opened =
     ((case opened of None \<Rightarrow> LMON_EINVAL
       | Some (r, n) \<Rightarrow> if r = -1 \<or> n = -1 then LMON_EINVAL else LMON_OK), init_args argv)"

definition daemon_internal_finalize :: "bool \<Rightarrow> lmon_rc_e" where
  "daemon_internal_finalize closed = (if closed then LMON_OK else LMON_EINVAL)"

section \<open>Who to connect to\<close>

text \<open>\<open>sprintf\<close> into the caller's buffer of \<open>LMON_KEY_LENGTH\<close> bytes.\<close>

definition LMON_KEY_LENGTH :: nat where "LMON_KEY_LENGTH = 16"

definition daemon_getSharedKeyAndID ::
  "(string \<Rightarrow> string option) \<Rightarrow> (string \<Rightarrow> int) \<Rightarrow> exn + (lmon_rc_e \<times> (byte list \<times> int) option)" where
  "daemon_getSharedKeyAndID env atoi =
     (case env ''LMON_SHARED_SECRET'' of
        None \<Rightarrow> Inr (LMON_EINVAL, None)
      | Some sk \<Rightarrow>
          (if LMON_KEY_LENGTH < length sk + 1 then Inl Undefined_behaviour
           else (case env ''LMON_SEC_CHK'' of
             None \<Rightarrow> Inr (LMON_EINVAL, None)
           | Some c \<Rightarrow> Inr (LMON_OK, Some (map char_byte sk @ replicate (LMON_KEY_LENGTH - length sk) 0, atoi c)))))"

text \<open>\<open>inet_pton\<close> returns 0 for a text that is not an address, and that is not below 0.\<close>

definition daemon_getWhereToConnect ::
  "(string \<Rightarrow> string option) \<Rightarrow> (string \<Rightarrow> int) \<Rightarrow> (string \<Rightarrow> int \<times> u32) \<Rightarrow> lmon_rc_e \<times> (u16 \<times> u32) option" where
  "daemon_getWhereToConnect env atoi pton =
     (case env ''LMON_FE_WHERETOCONNECT_PORT'' of
        None \<Rightarrow> (LMON_EINVAL, None)
      | Some portinfo \<Rightarrow> (case env ''LMON_FE_WHERETOCONNECT_ADDR'' of
          None \<Rightarrow> (LMON_EINVAL, None)
        | Some ipinfo \<Rightarrow> (let (r, a) = pton ipinfo in
            if r < 0 then (LMON_ESYS, None) else (LMON_OK, Some (of_int (atoi portinfo), a)))))"

section \<open>Host names\<close>

text \<open>A file is the list of its lines that end in a newline; the loop does not see a last line
  that does not. \<open>find_not_of\<close> is \<open>find_first_not_of\<close>.\<close>

definition find_not_of :: "string \<Rightarrow> string \<Rightarrow> nat \<Rightarrow> nat option" where
  "find_not_of cs s pos = find_char (\<lambda>c. c \<notin> set cs) (drop pos s) pos"

definition upto_pos :: "string \<Rightarrow> nat \<Rightarrow> nat option \<Rightarrow> string" where
  "upto_pos s l p = (case p of None \<Rightarrow> drop l s | Some p \<Rightarrow> take (p - l) (drop l s))"

text \<open>A line that is only the field name makes the second \<open>substr\<close> throw, which nobody catches.\<close>

fun personality_lines :: "string \<Rightarrow> string list \<Rightarrow> exn + string option" where
  "personality_lines fieldName [] = Inr None"
| "personality_lines fieldName (ln # lns) =
     (case find_not_of ''='' ln 0 of
        None \<Rightarrow> personality_lines fieldName lns
      | Some l \<Rightarrow>
          (let p = find_first_of ''='' ln l in
           if fieldName = upto_pos ln l p then
             (case p of None \<Rightarrow> Inl Aborted
              | Some p \<Rightarrow> (case find_not_of ''='' ln p of
                  None \<Rightarrow> Inl Aborted
                | Some l2 \<Rightarrow> Inr (Some (upto_pos ln l2 (find_first_of ''='' ln l2)))))
           else personality_lines fieldName lns))"

definition getPersonalityField :: "string list option \<Rightarrow> string \<Rightarrow> exn + string option" where
  "getPersonalityField file fieldName = (case file of None \<Rightarrow> Inr None | Some lns \<Rightarrow> personality_lines fieldName lns)"

text \<open>Words between blanks and tabs; the first character of a blank line does not exist. The
  search goes on after a match, so the last one counts.\<close>

fun host_tokens :: "nat \<Rightarrow> string \<Rightarrow> nat option \<Rightarrow> nat option \<Rightarrow> string list" where
  "host_tokens 0 ln l p = []"
| "host_tokens (Suc n) ln l p =
     (case l of
        None \<Rightarrow> []
      | Some l \<Rightarrow> upto_pos ln l p #
          (let l2 = (case p of None \<Rightarrow> None | Some p \<Rightarrow> find_not_of [CHR 0x09, CHR '' ''] ln p);
               p2 = (case l2 of None \<Rightarrow> None | Some l2 \<Rightarrow> find_first_of [CHR 0x09, CHR '' ''] ln l2)
           in host_tokens n ln l2 p2))"

fun hosts_lines :: "string \<Rightarrow> string list \<Rightarrow> string option \<Rightarrow> exn + string option" where
  "hosts_lines al [] found = Inr found"
| "hosts_lines al (ln # lns) found =
     (case find_not_of [CHR 0x09, CHR '' ''] ln 0 of
        None \<Rightarrow> Inl Undefined_behaviour
      | Some l \<Rightarrow>
          (if ln ! l = CHR ''#'' then hosts_lines al lns found
           else (let tokens = host_tokens (length ln) ln (Some l) (find_first_of [CHR 0x09, CHR '' ''] ln l)
                 in hosts_lines al lns (if al \<in> set tokens then Some (hd tokens) else found))))"

definition resolvHNAlias :: "string list option \<Rightarrow> string \<Rightarrow> exn + string option" where
  "resolvHNAlias file al = (case file of None \<Rightarrow> Inr None | Some lns \<Rightarrow> hosts_lines al lns None)"

text \<open>What \<open>gethostbyname\<close> returns; the addresses are the answers of \<open>inet_ntop\<close>.\<close>

record hostent =
  h_name :: string
  h_aliases :: "string list"
  h_addr_list :: "string option list"

definition sgi_names :: "string \<Rightarrow> string \<Rightarrow> string list" where
  "sgi_names my_hostname h_nameStr =
     (if h_nameStr = my_hostname then []
      else (case find_first_of ''.'' h_nameStr 0 of
        None \<Rightarrow> []
      | Some dot_pos \<Rightarrow> map (\<lambda>ib. take dot_pos h_nameStr @ ib @ drop dot_pos h_nameStr) [''.ib0'', ''.ib1'']))"

definition host_aliases_of :: "bool \<Rightarrow> string \<Rightarrow> hostent \<Rightarrow> string list" where
  "host_aliases_of sgi my_hostname hent =
     (let my_ip = (case h_addr_list hent of Some a # _ \<Rightarrow> Some a | _ \<Rightarrow> None);
          my_ipStr = (case my_ip of Some a \<Rightarrow> a | None \<Rightarrow> ''na'')
      in my_hostname # (case my_ip of Some a \<Rightarrow> [a] | None \<Rightarrow> []) @
         (if h_name hent \<noteq> my_hostname then [h_name hent] else []) @
         filter (\<lambda>al. al \<noteq> my_hostname \<and> al \<noteq> h_name hent) (h_aliases hent) @
         filter (\<lambda>ip. ip \<noteq> my_ipStr) (concat (map (\<lambda>a. case a of Some ip \<Rightarrow> [ip] | None \<Rightarrow> []) (h_addr_list hent))) @
         (if sgi then sgi_names my_hostname (h_name hent) else []))"

text \<open>The name, the address text and the aliases, the last behind those already there; \<open>snprintf\<close>
  cuts the address of an I/O node.\<close>

definition daemon_gethostname ::
  "bool \<Rightarrow> bool \<Rightarrow> string option \<Rightarrow> hostent option \<Rightarrow> string list option \<Rightarrow> string list \<Rightarrow>
   exn + (lmon_rc_e \<times> string \<times> string \<times> string list)" where
  "daemon_gethostname sgi bgion hostname resolved personality aliases =
     (case hostname of
        None \<Rightarrow> Inr (LMON_ESYS, [], [], aliases)
      | Some h \<Rightarrow> (case resolved of
          None \<Rightarrow>
            (if bgion then
               (case getPersonalityField personality ''BG_IP'' of
                  Inl e \<Rightarrow> Inl e
                | Inr None \<Rightarrow> Inr (LMON_ESYS, h, [], aliases)
                | Inr (Some ip) \<Rightarrow> (let ip = take (LMON_DAEMON_HN_MAX - 1) ip in Inr (LMON_OK, ip, ip, aliases)))
             else Inr (LMON_ESYS, h, [], aliases))
        | Some hent \<Rightarrow>
            Inr (LMON_OK, h, (case h_addr_list hent of Some a # _ \<Rightarrow> a | _ \<Rightarrow> []),
                 aliases @ host_aliases_of sgi h hent)))"

definition is_bluegene_ion :: "(string \<Rightarrow> bool) \<Rightarrow> bool" where
  "is_bluegene_ion readable \<longleftrightarrow> readable ''/proc/personality.sh'' \<or> readable ''/jobs/tools/protocol''"

section \<open>Lemmas\<close>

lemma scan_opts_append: "scan_opts (xs @ ys) = scan_opts xs @ scan_opts ys"
  by (induction xs) (simp_all split: option.split)

lemma scan_opts_none: "\<forall>a \<in> set xs. scan_opts [a] = [] \<Longrightarrow> scan_opts xs = []"
  by (induction xs) (auto split: option.splits)

lemma scan_opts_all: "\<forall>a \<in> set xs. scan_opts [a] \<noteq> [] \<Longrightarrow> length (scan_opts xs) = length xs"
  by (induction xs) (auto split: option.splits)

text \<open>With the options last, the command line of the tool is what it was without them.\<close>

lemma init_args_last:
  assumes "\<forall>a \<in> set args. scan_opts [a] = []" and "\<forall>a \<in> set opts. scan_opts [a] \<noteq> []"
  shows "fst (init_args (prog # args @ opts)) = scan_opts opts \<and>
    take (length args + 2) (snd (init_args (prog # args @ opts))) = map Some (prog # args) @ [None]"
  using scan_opts_all [OF assms(2)] scan_opts_none [OF assms(1)]
  by (simp add: init_args_def scan_opts_append Let_def)

text \<open>Elsewhere they stay, and the tool's own last arguments are lost.\<close>

lemma init_args_first:
  "init_args [''tool'', ''--lmonsecchk=7'', ''-v''] =
     ([(''LMON_SEC_CHK'', ''7'')], [Some ''tool'', Some ''--lmonsecchk=7'', None, Some ''LMONNOOP1=1''])"
  by code_simp

text \<open>A daemon looks for its tasks under its own name first.\<close>

lemma own_name_first: "hd (host_aliases_of sgi h hent) = h"
  by (simp add: host_aliases_of_def Let_def)

lemma host_aliases_named: "h_name hent \<in> set (host_aliases_of sgi h hent) \<and> set (h_aliases hent) \<subseteq> set (host_aliases_of sgi h hent)"
  by (auto simp: host_aliases_of_def Let_def)

lemma personality_demo:
  "personality_lines ''BG_IP'' [''BG_ID=1'', ''BG_IP=10.0.0.7''] = Inr (Some ''10.0.0.7'')"
  "personality_lines ''BG_IP'' [''BG_IP''] = Inl Aborted"
  by code_simp+

text \<open>The last matching line of the table counts.\<close>

lemma hosts_last_wins:
  "resolvHNAlias (Some [''10.0.0.1 ion1 ion'', ''#10.0.0.2 ion'', ''10.0.0.3 ion'']) ''ion'' = Inr (Some ''10.0.0.3'')"
  by code_simp

end
