(* ===== verification/Lmon_Spawner.thy ===== *)
theory Lmon_Spawner
  imports Lmon_Link
begin

text \<open>
  The spawners of middleware daemons, \<^verbatim>\<open>sdbg_base_spawner.hxx\<close>, \<^verbatim>\<open>sdbg_rsh_spawner\<close> and the
  front end's half of \<^verbatim>\<open>lmon_coloc_spawner.cxx\<close>. A spawner forks; its children call \<open>execvp\<close>
  and do not come back, so what a spawner does is the list of argument vectors they run.
\<close>

section \<open>The base class\<close>

datatype spawner_kind = Coloc_spawner | Rsh_spawner

record spawner =
  sp_kind :: spawner_kind
  remote_launch_cmd :: string
  launch_cmd_args :: "string list"
  daemon_path :: string
  daemon_args :: "string list"
  sp_hosts :: "string list"
  sp_master_fd :: int
  sp_execs :: "string list list"

definition LMON_HOST_DELIM :: string where "LMON_HOST_DELIM = '':''"

definition new_spawner :: "spawner_kind \<Rightarrow> string \<Rightarrow> string list \<Rightarrow> string \<Rightarrow> string list \<Rightarrow> string list \<Rightarrow> spawner" where
  "new_spawner k rac racargs dpath dmonopts hosts =
     \<lparr>sp_kind = k, remote_launch_cmd = rac, launch_cmd_args = racargs, daemon_path = dpath, daemon_args = dmonopts,
      sp_hosts = hosts, sp_master_fd = -1, sp_execs = []\<rparr>"

definition combineHosts :: "spawner \<Rightarrow> string list \<Rightarrow> bool \<times> string list" where
  "combineHosts sp combHosts = (sp_hosts sp \<noteq> [], combHosts @ sp_hosts sp)"

definition addHosts :: "string list option \<Rightarrow> spawner \<Rightarrow> int \<times> spawner" where
  "addHosts hl sp = (case hl of
     None \<Rightarrow> (int (length (sp_hosts sp)), sp)
   | Some hs \<Rightarrow> (int (length (sp_hosts sp @ hs)), sp\<lparr>sp_hosts := sp_hosts sp @ hs\<rparr>))"

section \<open>Spawning by a remote shell\<close>

definition LMON_RSHSPAWNER_OPT :: string where "LMON_RSHSPAWNER_OPT = ''--lmon-rsh''"
definition LMON_NO_HOST :: string where "LMON_NO_HOST = ''nohost''"

text \<open>\<open>RSHCMD\<close> is found when the program is configured. \<open>strtok\<close> over the whole argument.\<close>

fun strtok_all :: "char \<Rightarrow> string \<Rightarrow> string \<Rightarrow> string list" where
  "strtok_all d [] tok = (if tok = [] then [] else [rev tok])"
| "strtok_all d (c # cs) tok =
     (if c = d then (if tok = [] then [] else [rev tok]) @ strtok_all d cs [] else strtok_all d cs (c # tok))"

definition rsh_of_arg :: "string \<Rightarrow> string \<Rightarrow> string list \<Rightarrow> string \<Rightarrow> spawner" where
  "rsh_of_arg RSHCMD dpath dmonopts hlsarg = new_spawner Rsh_spawner RSHCMD [] dpath dmonopts
     (filter (\<lambda>h. h \<noteq> LMON_NO_HOST) (strtok_all CHR '':'' hlsarg []))"

definition rsh_of_hosts :: "string \<Rightarrow> string \<Rightarrow> string list \<Rightarrow> string list \<Rightarrow> spawner" where
  "rsh_of_hosts RSHCMD dpath dmonopts hosts = new_spawner Rsh_spawner RSHCMD [] dpath dmonopts hosts"

text \<open>\<open>execute_rsh\<close>.\<close>

definition execute_rsh :: "spawner \<Rightarrow> string \<Rightarrow> string \<Rightarrow> string list" where
  "execute_rsh sp headhost hostsarg =
     remote_launch_cmd sp # launch_cmd_args sp @ headhost # daemon_path sp # daemon_args sp @ [hostsarg]"

text \<open>The loops append the hosts from an index on, with the delimiter after each; the last one
  goes without it. \<open>j + 1 < halfhosts\<close> is the left loop's bound and \<open>size - 1\<close> the right one's.\<close>

function cat_hosts :: "string list \<Rightarrow> nat \<Rightarrow> nat \<Rightarrow> string \<Rightarrow> nat \<times> string" where
  "cat_hosts hosts i b s = (if i < b then cat_hosts hosts (Suc i) b (s @ hosts ! i @ LMON_HOST_DELIM) else (i, s))"
  by pat_completeness auto
termination by (relation "measure (\<lambda>(_, i, b, _). b - i)") auto

declare cat_hosts.simps [simp del]

definition rsh_arg :: "string list \<Rightarrow> nat \<Rightarrow> nat \<Rightarrow> string" where
  "rsh_arg hosts start k =
     (let (i, s) = cat_hosts hosts start k (LMON_RSHSPAWNER_OPT @ ''='');
          (i, s) = (if i = k then (i + 1, s @ hosts ! i) else (i, s))
      in if i = start then s @ LMON_NO_HOST else s)"

definition rsh_spawn :: "spawner \<Rightarrow> bool \<times> spawner" where
  "rsh_spawn sp =
     (let hs = sp_hosts sp; halfhosts = length hs div 2;
          right_start_index = halfhosts + 1; left_start_index = 1 in
      if hs = [] then (False, sp)
      else (True, sp\<lparr>sp_execs := sp_execs sp @
        [execute_rsh sp (hs ! 0) (rsh_arg hs left_start_index (halfhosts - 1))] @
        (if halfhosts > 0 then [execute_rsh sp (hs ! halfhosts) (rsh_arg hs right_start_index (length hs - 1))] else [])\<rparr>))"

section \<open>Spawning beside the back-end daemons\<close>

definition coloc_fe :: "int \<Rightarrow> string \<Rightarrow> string list \<Rightarrow> string list \<Rightarrow> spawner" where
  "coloc_fe bemasterfd dpath dmonopts hostvect =
     (new_spawner Coloc_spawner ''coloc'' [] dpath dmonopts hostvect)\<lparr>sp_master_fd := bemasterfd\<rparr>"

definition coloc_be :: "int \<Rightarrow> spawner" where
  "coloc_be bemasterfd = (new_spawner Coloc_spawner ''coloc'' [] [] [] [])\<lparr>sp_master_fd := bemasterfd\<rparr>"

text \<open>The path, the arguments and an ending null. The size is an \<open>int\<close>.\<close>

definition coloc_payload :: "string \<Rightarrow> string list \<Rightarrow> byte list" where
  "coloc_payload path args = cstr path @ concat (map cstr args) @ [0]"

definition coloc_hdr :: "nat \<Rightarrow> lmonp_t" where
  "coloc_hdr plsize = the (snd (set_msg_header (Some lmonp_zero) (int (class_code lmonp_fetobe))
     (int (fetobe_code lmonp_febe_assist_mw_coloc)) 0 0 0 0 0 (of_nat plsize) 0))"

definition coloc_frontend :: "spawner \<Rightarrow> (link, bool) act" where
  "coloc_frontend sp =
     (let pl = coloc_payload (daemon_path sp) (daemon_args sp); msgsize = lmonp_size + length pl in
      if sp_master_fd sp < 0 then ret False
      else if 2 ^ 31 \<le> msgsize then throw Undefined_behaviour
      else bindA (lk_write (enc_hdr (coloc_hdr (length pl)) @ pl) (int msgsize)) (\<lambda>r. ret (\<not> r < 0)))"

text \<open>\<open>get_next_cstr\<close> on what is left of the payload: \<open>Some None\<close> for its \<open>NULL\<close>, \<open>None\<close> when
  the walk leaves the buffer.\<close>

definition get_next_cstr :: "byte list \<Rightarrow> byte list option option" where
  "get_next_cstr s = (case s of [] \<Rightarrow> None
     | b # _ \<Rightarrow> if b = 0 then Some None
         else (case dropWhile (\<lambda>b. b \<noteq> 0) s of [] \<Rightarrow> None | _ # r \<Rightarrow> Some (Some r)))"

lemma get_next_cstr_shorter: "get_next_cstr s = Some (Some r) \<Longrightarrow> length r < length s"
  using length_dropWhile_le [of "\<lambda>b. b \<noteq> 0" s]
  by (auto simp: get_next_cstr_def split: list.splits if_splits)

function coloc_args :: "byte list \<Rightarrow> string list option" where
  "coloc_args s = (case get_next_cstr s of
     None \<Rightarrow> None
   | Some None \<Rightarrow> Some []
   | Some (Some r) \<Rightarrow> (case read_cstr r 0 of None \<Rightarrow> None
       | Some a \<Rightarrow> (case coloc_args r of None \<Rightarrow> None | Some as \<Rightarrow> Some (a # as))))"
  by pat_completeness auto
termination by (relation "measure length") (auto dest: get_next_cstr_shorter)

declare coloc_args.simps [simp del]

definition parse_mw_assist_lmonpl :: "byte list \<Rightarrow> spawner \<Rightarrow> spawner option" where
  "parse_mw_assist_lmonpl pl sp = (case read_cstr pl 0 of None \<Rightarrow> None
     | Some path \<Rightarrow> (case coloc_args pl of None \<Rightarrow> None
         | Some as \<Rightarrow> Some (sp\<lparr>daemon_path := path, daemon_args := daemon_args sp @ as\<rparr>)))"

text \<open>\<open>execute_daemon\<close>, in the child.\<close>

definition execute_daemon :: "spawner \<Rightarrow> spawner" where
  "execute_daemon sp = sp\<lparr>sp_execs := sp_execs sp @ [daemon_path sp # daemon_args sp]\<rparr>"

definition spawner_spawn :: "spawner \<Rightarrow> (link, bool \<times> spawner) act" where
  "spawner_spawn sp = (case sp_kind sp of
     Coloc_spawner \<Rightarrow> bindA (coloc_frontend sp) (\<lambda>b. ret (b, sp))
   | Rsh_spawner \<Rightarrow> ret (rsh_spawn sp))"

section \<open>What the payload says\<close>

lemma dropWhile_cstr:
  assumes "nul_free a"
  shows "dropWhile (\<lambda>b. b \<noteq> 0) (cstr a @ r) = 0 # r"
proof -
  have "\<forall>b \<in> set (map char_byte a). b \<noteq> 0" using assms by (auto simp: nul_free_def char_byte_eq_0)
  then show ?thesis unfolding cstr_def append_assoc by (subst dropWhile_append2) auto
qed

lemma next_of_cstr:
  assumes "nul_free a" and "a \<noteq> []"
  shows "get_next_cstr (cstr a @ r) = Some (Some r)"
proof -
  obtain c cs where a: "a = c # cs" using assms(2) by (cases a) auto
  have "char_byte c \<noteq> 0" using assms(1) by (simp add: a nul_free_def char_byte_eq_0)
  then show ?thesis using dropWhile_cstr [OF assms(1), of r]
    by (simp add: get_next_cstr_def a cstr_def)
qed

text \<open>The walk does not stop at the ending null: it is one more, empty, argument.\<close>

lemma coloc_args_payload:
  assumes "nul_free path" "path \<noteq> []" and "\<forall>a \<in> set args. nul_free a \<and> a \<noteq> []"
  shows "coloc_args (cstr path @ concat (map cstr args) @ [0]) = Some (args @ [[]])"
  using assms
proof (induction args arbitrary: path)
  case Nil
  have "get_next_cstr (cstr path @ [0]) = Some (Some [0])" by (rule next_of_cstr [OF Nil(1,2)])
  moreover have "coloc_args [0] = Some []" by (subst coloc_args.simps) (simp add: get_next_cstr_def)
  ultimately show ?case by (subst coloc_args.simps) (simp add: read_cstr_def)
next
  case (Cons a args)
  let ?r = "cstr a @ concat (map cstr args) @ [0]"
  have a: "nul_free a" "a \<noteq> []" using Cons.prems(3) by auto
  have "get_next_cstr (cstr path @ ?r) = Some (Some ?r)" by (rule next_of_cstr [OF Cons.prems(1,2)])
  moreover have "read_cstr ?r 0 = Some a"
    using read_cstr_cstr [OF a(1), of "[]" "concat (map cstr args) @ [0]"] by simp
  moreover have "coloc_args ?r = Some (args @ [[]])" by (rule Cons.IH) (use a Cons.prems(3) in auto)
  ultimately show ?case by (subst coloc_args.simps) simp
qed

end
