(* ===== verification/Lmon_Be.thy ===== *)
theory Lmon_Be
  imports Lmon_Daemon Lmon_Spawner
begin

text \<open>
  The back-end daemon's interface, \<^verbatim>\<open>lmon_be.cxx\<close>: one record per daemon and one definition
  per call. A call that synchronises the daemons is a program over COBO; what the master
  exchanges with the front end in between is an action on its connection. Memory never runs
  out, and a buffer that is not yet written holds \<open>junk\<close>.
\<close>

unbundle bit_operations_syntax

section \<open>State\<close>

text \<open>\<open>tracingmode_e\<close>.\<close>

definition trm_attach :: u32 where "trm_attach = 0"
definition trm_launch :: u32 where "trm_launch = 1"
definition trm_launch_dontstop :: u32 where "trm_launch_dontstop = 2"
definition trm_attach_stop :: u32 where "trm_attach_stop = 3"

text \<open>\<open>be_launch\<close>, \<open>be_rmtype\<close> and \<open>be_msg_size\<close> are the four bytes the daemons broadcast. The
  client's \<open>pack\<close> gives its return code and what it put in the buffer, its \<open>unpack\<close> the return
  code and the new value of what \<open>udata\<close> points to, \<open>be_user\<close>.\<close>

record 'u be_data =
  be_rank :: int
  be_width :: int
  be_pack :: "('u \<Rightarrow> int \<times> byte list) option"
  be_unpack :: "(byte list \<Rightarrow> 'u \<Rightarrow> int \<times> 'u) option"
  be_hostname :: string
  be_ip :: string
  be_aliases :: "string list"
  be_launch :: u32
  be_rmtype :: u32
  be_msg :: "byte list option"
  be_msg_size :: u32
  be_cache :: proctable
  be_user :: 'u
  be_link :: link
  be_tasks :: task_os
  be_spawner :: "spawner option"

type_synonym ('u, 'a) be = "('u be_data, 'a) act"
type_synonym ('u, 'a) be_step = "('u be_data, lmon_rc_e + 'a) act"
type_synonym 'u be_prog = "'u be_data dprog"

definition on_link :: "(link, 'a) act \<Rightarrow> ('u, 'a) be" where
  "on_link = zoomA be_link (\<lambda>l s. s\<lparr>be_link := l\<rparr>)"

definition on_tasks :: "(task_os, 'a) act \<Rightarrow> ('u, 'a) be" where
  "on_tasks = zoomA be_tasks (\<lambda>t s. s\<lparr>be_tasks := t\<rparr>)"

text \<open>A step that fails with \<open>rc\<close> unless the called function returned \<open>LMON_OK\<close>.\<close>

definition need :: "lmon_rc_e \<Rightarrow> lmon_rc_e \<Rightarrow> ('u, unit) be_step" where
  "need rc r = ret (if r \<noteq> LMON_OK then Inl rc else Inr ())"

definition is_master :: "'u be_data \<Rightarrow> bool" where "is_master s \<longleftrightarrow> be_rank s = int LMON_DAEMON_MASTER"

text \<open>\<open>BEGIN_MASTER_ONLY\<close> \<dots> \<open>END_MASTER_ONLY\<close>.\<close>

definition master_only :: "('u, unit) be_step \<Rightarrow> ('u, unit) be_step" where
  "master_only m s = (if is_master s then m s else (Inr (Inr ()), s))"

section \<open>Calls on the daemon layer\<close>

definition be_amIMaster :: "'u be_data \<Rightarrow> lmon_rc_e" where
  "be_amIMaster s = (if be_rank s < 0 then LMON_EINVAL else if be_rank s = 0 then LMON_YES else LMON_NO)"

definition be_getMyRank :: "int \<Rightarrow> lmon_rc_e \<times> int option" where
  "be_getMyRank iccl_rank = (case daemon_internal_getMyRank iccl_rank of
     (rc, v) \<Rightarrow> if rc \<noteq> LMON_OK then (LMON_EINVAL, v) else (LMON_OK, v))"

definition be_getSize :: "int \<Rightarrow> lmon_rc_e \<times> int option" where
  "be_getSize iccl_size = (case daemon_internal_getSize iccl_size of
     (rc, v) \<Rightarrow> if rc \<noteq> LMON_OK then (LMON_EINVAL, v) else (LMON_OK, v))"

definition subcom :: "lmon_rc_e \<Rightarrow> lmon_rc_e" where
  "subcom rc = (if rc \<noteq> LMON_OK then LMON_ESUBCOM else LMON_OK)"

definition be_barrier :: "cobo \<Rightarrow> (lmon_rc_e \<Rightarrow> 's dprog) \<Rightarrow> 's dprog" where
  "be_barrier t k = daemon_internal_barrier t (\<lambda>rc. k (subcom rc))"

definition be_broadcast ::
  "cobo \<Rightarrow> 's \<Rightarrow> byte list \<Rightarrow> nat \<Rightarrow> (lmon_rc_e \<Rightarrow> byte list \<Rightarrow> 's dprog) \<Rightarrow> 's dprog" where
  "be_broadcast t s buf n k = daemon_internal_broadcast t s buf n (\<lambda>rc. k (subcom rc))"

definition be_gather ::
  "cobo \<Rightarrow> 's \<Rightarrow> byte list \<Rightarrow> nat \<Rightarrow> byte list \<Rightarrow> (lmon_rc_e \<Rightarrow> byte list \<Rightarrow> 's dprog) \<Rightarrow> 's dprog" where
  "be_gather t s sendbuf n recvbuf k = daemon_internal_gather t s sendbuf n recvbuf (\<lambda>rc. k (subcom rc))"

definition be_scatter ::
  "cobo \<Rightarrow> 's \<Rightarrow> byte list \<Rightarrow> nat \<Rightarrow> byte list \<Rightarrow> (lmon_rc_e \<Rightarrow> byte list \<Rightarrow> 's dprog) \<Rightarrow> 's dprog" where
  "be_scatter t s sendbuf n recvbuf k = daemon_internal_scatter t s sendbuf n recvbuf (\<lambda>rc. k (subcom rc))"

text \<open>A broadcast into a variable of the daemon, after which the call goes on.\<close>

definition bcast_into ::
  "cobo \<Rightarrow> ('s \<Rightarrow> byte list) \<Rightarrow> (byte list \<Rightarrow> 's \<Rightarrow> 's) \<Rightarrow> nat \<Rightarrow> 's \<Rightarrow> ('s \<Rightarrow> 's dprog) \<Rightarrow> 's dprog" where
  "bcast_into t get put n s k = be_broadcast t s (get s) n (\<lambda>rc b.
     if rc \<noteq> LMON_OK then Done (Inr LMON_ESUBCOM, put b s) else k (put b s))"

definition then_barrier :: "cobo \<Rightarrow> 's \<Rightarrow> 's dprog" where
  "then_barrier t s = be_barrier t (\<lambda>rc. Done (Inr (if rc \<noteq> LMON_OK then LMON_ESUBCOM else LMON_OK), s))"

section \<open>The task table of a daemon\<close>

text \<open>The message is parsed when the cache is empty. The first alias that names a host of the
  table counts; for none of them the size is 0.\<close>

definition fill_cache :: "('u, unit) be_step" where
  "fill_cache s =
     (case be_msg s of
        None \<Rightarrow> ret (Inl LMON_EINVAL) s
      | Some m \<Rightarrow>
          (if be_cache s \<noteq> [] then ret (Inr ()) s
           else (case parse_raw_RPDTAB_msg (Some m) (be_cache s) of
             Inl e \<Rightarrow> throw e s
           | Inr (rc, tab) \<Rightarrow> ret (if rc < 0 then Inl LMON_EINVAL else Inr ()) (s\<lparr>be_cache := tab\<rparr>))))"

fun first_alias :: "string list \<Rightarrow> proctable \<Rightarrow> MPIR_PROCDESC_EXT list" where
  "first_alias [] tab = []"
| "first_alias (a # as) tab = (case map_find tab a of Some es \<Rightarrow> es | None \<Rightarrow> first_alias as tab)"

definition be_getMyProctabSize :: "('u, int) be_step" where
  "be_getMyProctabSize = stepA fill_cache (\<lambda>_ s. ret (Inr (int (length (first_alias (be_aliases s) (be_cache s))))) s)"

text \<open>The return code, the entries copied and the size. A negative number of elements is
  compared as unsigned.\<close>

definition be_getMyProctab :: "int \<Rightarrow> ('u, lmon_rc_e \<times> MPIR_PROCDESC_EXT list \<times> int) be_step" where
  "be_getMyProctab proctab_num_elem = stepA fill_cache (\<lambda>_ s.
     let es = first_alias (be_aliases s) (be_cache s); size = int (length es)
     in ret (Inr (if 0 \<le> proctab_num_elem \<and> proctab_num_elem < size then LMON_ETRUNC else LMON_OK,
          if proctab_num_elem < 0 then es else take (nat proctab_num_elem) es, size)) s)"

text \<open>The two calls as the daemon itself makes them.\<close>

definition own_tasks :: "('u, MPIR_PROCDESC_EXT list \<times> int) be_step" where
  "own_tasks = (\<lambda>s. case be_getMyProctabSize s of
       (Inl e, t) \<Rightarrow> (Inl e, t)
     | (Inr (Inl _), t) \<Rightarrow> (Inr (Inl LMON_EDUNAV), t)
     | (Inr (Inr n), t) \<Rightarrow> (case be_getMyProctab n t of
         (Inl e, u) \<Rightarrow> (Inl e, u)
       | (Inr (Inl _), u) \<Rightarrow> (Inr (Inl LMON_EDUNAV), u)
       | (Inr (Inr (rc, es, n)), u) \<Rightarrow> (Inr (if rc \<noteq> LMON_OK then Inl LMON_EDUNAV else Inr (es, n)), u)))"

section \<open>Start-up\<close>

text \<open>What the start-up asks of the system and of libgcrypt: \<open>en_cipher key\<close> is the encryption
  of 16 bytes by the ECB-mode cipher under \<open>key\<close>.\<close>

record be_env =
  en_sgi :: bool
  en_readable :: "string \<Rightarrow> bool"
  en_hostname :: "string option"
  en_resolved :: "hostent option"
  en_personality :: "string list option"
  en_argv :: "string list"
  en_cobo :: "(int \<times> int) option"
  en_parent :: "int option"
  en_getenv :: "string \<Rightarrow> string option"
  en_atoi :: "string \<Rightarrow> int"
  en_pton :: "string \<Rightarrow> int \<times> u32"
  en_socket :: int
  en_connect :: "u16 \<times> u32 \<Rightarrow> int"
  en_gcry_open :: bool
  en_gcry_setkey :: bool
  en_gcry_encrypt :: bool
  en_cipher :: "byte list \<Rightarrow> byte list \<Rightarrow> byte list"

definition LMON_VERSION :: int where "LMON_VERSION = 900100"

definition fetobe_hdr :: "lmonp_fe_to_be_msg_e \<Rightarrow> u16 \<Rightarrow> u32 \<Rightarrow> lmonp_t" where
  "fetobe_hdr ty k key2 = the (snd (set_msg_header (Some lmonp_zero) (int (class_code lmonp_fetobe))
     (int (fetobe_code ty)) k key2 0 0 0 0 0))"

text \<open>The encrypted session id goes out in four headers, a word in each.\<close>

fun send_words :: "byte list list \<Rightarrow> ('u, unit) be_step" where
  "send_words [] = ret (Inr ())"
| "send_words (w # ws) =
     bindA (on_link (lk_write (enc_hdr (fetobe_hdr lmonp_febe_security_chk 0 (dec32 w))) (int lmonp_size))) (\<lambda>r.
       if r < 0 then ret (Inl LMON_ESYS) else send_words ws)"

definition four_words :: "byte list \<Rightarrow> byte list list" where
  "four_words bs = map (\<lambda>i. take 4 (drop (4 * i) bs)) [0..<LMON_KEY_LENGTH div 4]"

definition sess_block :: "int \<Rightarrow> byte list" where
  "sess_block intsessID = enc32 (of_int intsessID) @ replicate (LMON_KEY_LENGTH - 4) 0"

definition env_after :: "(string \<times> string) list \<Rightarrow> (string \<Rightarrow> string option) \<Rightarrow> string \<Rightarrow> string option" where
  "env_after new env v = (case map_of (rev new) v of Some x \<Rightarrow> Some x | None \<Rightarrow> env v)"

definition be_connect :: "be_env \<Rightarrow> (string \<Rightarrow> string option) \<Rightarrow> lmon_rc_e" where
  "be_connect e env =
     (if fst (daemon_internal_getConnFd 0 (en_parent e)) = LMON_OK then LMON_OK
      else if en_socket e < 0 then LMON_ESYS
      else (case daemon_getWhereToConnect env (en_atoi e) (en_pton e) of
        (rc, a) \<Rightarrow> if rc \<noteq> LMON_OK then LMON_ESYS
          else (case a of Some a \<Rightarrow> if en_connect e a < 0 then LMON_ESYS else LMON_OK | None \<Rightarrow> LMON_ESYS)))"

definition be_security :: "be_env \<Rightarrow> (string \<Rightarrow> string option) \<Rightarrow> ('u, unit) be_step" where
  "be_security e env =
     (if be_connect e env \<noteq> LMON_OK then ret (Inl LMON_ESYS)
      else (case daemon_getSharedKeyAndID env (en_atoi e) of
        Inl x \<Rightarrow> throw x
      | Inr (_, None) \<Rightarrow> ret (Inl LMON_ESYS)
      | Inr (rc, Some (shared_key, intsessID)) \<Rightarrow>
          (if rc \<noteq> LMON_OK \<or> \<not> en_gcry_open e \<or> \<not> en_gcry_setkey e \<or> \<not> en_gcry_encrypt e then ret (Inl LMON_ESYS)
           else send_words (four_words (en_cipher e shared_key (sess_block intsessID))))))"

definition be_identify :: "be_env \<Rightarrow> int \<Rightarrow> ('u, (string \<Rightarrow> string option) \<times> int \<times> int) be_step" where
  "be_identify e ver s =
     (if ver \<noteq> LMON_VERSION then ret (Inl LMON_EINVAL) s
      else (case daemon_gethostname (en_sgi e) (is_bluegene_ion (en_readable e)) (en_hostname e) (en_resolved e)
               (en_personality e) (be_aliases s) of
        Inl x \<Rightarrow> throw x s
      | Inr (rc, h, ip, als) \<Rightarrow>
          (let s = s\<lparr>be_hostname := h, be_ip := ip, be_aliases := als\<rparr> in
           if rc \<noteq> LMON_OK then ret (Inl LMON_ESUBCOM) s
           else (case daemon_internal_init (en_argv e) (en_cobo e) of (rc, new, _) \<Rightarrow>
             if rc \<noteq> LMON_OK then ret (Inl LMON_ESUBCOM) s
             else (case en_cobo e of None \<Rightarrow> ret (Inl LMON_ESUBCOM) s
               | Some (r, n) \<Rightarrow>
                   (case daemon_internal_getMyRank r of (rc, _) \<Rightarrow> if rc \<noteq> LMON_OK then ret (Inl LMON_ESUBCOM) s
                    else (case daemon_internal_getSize n of (rc, _) \<Rightarrow> if rc \<noteq> LMON_OK then ret (Inl LMON_ESUBCOM) (s\<lparr>be_rank := r\<rparr>)
                    else ret (Inr (env_after new (en_getenv e), r, n))
                      (s\<lparr>be_rank := r, be_width := n, be_pack := None, be_unpack := None,
                         be_msg := None, be_msg_size := 0\<rparr>))))))))"

text \<open>The master needs the connection of COBO to the front end for its spawner.\<close>

definition be_new_spawner :: "int option \<Rightarrow> ('u, unit) be_step" where
  "be_new_spawner connfd s = ret (Inr ()) (s\<lparr>be_spawner := Some (coloc_be
     (case connfd of Some fd \<Rightarrow> if is_master s then fd else -1 | None \<Rightarrow> -1))\<rparr>)"

definition be_init :: "be_env \<Rightarrow> int \<Rightarrow> 'u be_data \<Rightarrow> 'u be_prog" where
  "be_init e ver s = act_then (be_identify e ver) s (\<lambda>(env, r, n).
     \<lambda>s. act_then (stepA (master_only (need LMON_ESUBCOM (fst (daemon_internal_getConnFd r (en_parent e)))))
          (\<lambda>_. stepA (be_new_spawner (en_parent e)) (\<lambda>_. master_only (be_security e env)))) s (\<lambda>_ s.
       then_barrier (tree_of (nat n) (nat r)) s))"

section \<open>Registration\<close>

definition be_regPackForBeToFe :: "('u \<Rightarrow> int \<times> byte list) option \<Rightarrow> ('u, lmon_rc_e) be" where
  "be_regPackForBeToFe packBefe s = ret LMON_OK (s\<lparr>be_pack := packBefe\<rparr>)"

definition be_regUnpackForFeToBe :: "(byte list \<Rightarrow> 'u \<Rightarrow> int \<times> 'u) option \<Rightarrow> ('u, lmon_rc_e) be" where
  "be_regUnpackForFeToBe unpackFebe s = ret LMON_OK (s\<lparr>be_unpack := unpackFebe\<rparr>)"

section \<open>The hosts message\<close>

text \<open>The buffer of \<open>LMON_DAEMON_HN_MAX\<close> bytes, zeroed before the name is put in.\<close>

definition hn_bytes :: "string \<Rightarrow> byte list" where
  "hn_bytes h = take LMON_DAEMON_HN_MAX (cstr h @ replicate LMON_DAEMON_HN_MAX 0)"

definition gathered_names :: "byte list \<Rightarrow> nat \<Rightarrow> string list option" where
  "gathered_names buf n = those (map (\<lambda>i. read_cstr buf (LMON_DAEMON_HN_MAX * i)) [0..<n])"

text \<open>First pass: each name once, its offset in the string table and a mark that it is not yet
  packed. Second pass: the index of every name, and the table.\<close>

fun hn_pass1 :: "string list \<Rightarrow> (string, u32 \<times> u32) std_map \<Rightarrow> u32 \<Rightarrow> (string, u32 \<times> u32) std_map \<times> u32" where
  "hn_pass1 [] m off = (m, off)"
| "hn_pass1 (h # hs) m off =
     (if map_find m h = None then hn_pass1 hs (map_set h (off, 0) m) (off + of_nat (length h + 1))
      else hn_pass1 hs m off)"

fun hn_pass2 :: "string list \<Rightarrow> (string, u32 \<times> u32) std_map \<Rightarrow> byte list \<times> byte list" where
  "hn_pass2 [] m = ([], [])"
| "hn_pass2 (h # hs) m =
     (case map_find m h of
        None \<Rightarrow> ([], [])
      | Some (off, packed) \<Rightarrow>
          (let (idx, str) = hn_pass2 hs (if packed = 0 then map_set h (off, 1) m else m)
           in (enc32 off @ idx, (if packed = 0 then cstr h else []) @ str)))"

definition hostname_hdr :: "int \<Rightarrow> u32 \<Rightarrow> lmonp_t" where
  "hostname_hdr width off =
     the (snd (if width < int LMON_NTASKS_THRE then
         set_msg_header (Some lmonp_zero) (int (class_code lmonp_fetobe)) (int (fetobe_code lmonp_befe_hostname))
           (of_int width) 0 0 (of_int width) 0 (off + of_int (width * 4)) 0
       else set_msg_header (Some lmonp_zero) (int (class_code lmonp_fetobe)) (int (fetobe_code lmonp_befe_hostname))
           (of_nat LMON_NTASKS_THRE) 0 0 (of_int width) (of_int width) (off + of_int (width * 4)) 0))"

definition ship_hostnames :: "byte list \<Rightarrow> ('u, unit) be_step" where
  "ship_hostnames hngatherbuf s =
     (case gathered_names hngatherbuf (nat (be_width s)) of
        None \<Rightarrow> throw Undefined_behaviour s
      | Some names \<Rightarrow>
          (let (m, off) = hn_pass1 names [] 0;
               sendbufsize = sint (of_int (int lmonp_size + be_width s * 4 + uint off) :: u32);
               hdr = hostname_hdr (be_width s) off
           in case (get_lmonpayload_begin (Some hdr), get_strtab_begin hdr) of
                (Some p, Some q) \<Rightarrow>
                  (let (idx, str) = hn_pass2 names m in
                   if q \<noteq> p + length idx \<or> sendbufsize < int (q + length str) then throw Undefined_behaviour s
                   else bindA (on_link (lk_write (enc_hdr hdr @ idx @ str) sendbufsize)) (\<lambda>_. ret (Inr ())) s)
              | _ \<Rightarrow> ret (Inl LMON_EBDMSG) s))"

section \<open>What the front end sends\<close>

text \<open>The type of a message in \<open>recvmsg\<close>; a failed read of a header is not noticed.\<close>

definition has_type :: "byte list \<Rightarrow> lmonp_fe_to_be_msg_e \<Rightarrow> bool" where
  "has_type recvmsg ty \<longleftrightarrow> unat (msgtype (dec_hdr recvmsg)) = fetobe_code ty"

definition both_lengths :: "lmonp_t \<Rightarrow> u32" where
  "both_lengths h = lmon_payload_length h + usr_payload_length h"

definition recv_proctab :: "(nat \<Rightarrow> byte list) \<Rightarrow> ('u, byte list) be_step" where
  "recv_proctab junk = bindA (on_link (lk_read_hdr (junk lmonp_size))) (\<lambda>(_, recvmsg).
     if \<not> has_type recvmsg lmonp_febe_proctab then ret (Inl LMON_EBDMSG)
     else
       (let h = dec_hdr recvmsg;
            n = unat (both_lengths h);
            sz = of_nat (lmonp_size + n) :: u32
        in bindA (modA (\<lambda>s. s\<lparr>be_msg_size := sz\<rparr>)) (\<lambda>_.
           if sint sz < int (lmonp_size + n) then throw Undefined_behaviour
           else bindA (modA (\<lambda>s. s\<lparr>be_msg := Some (recvmsg @ junk n)\<rparr>)) (\<lambda>_.
           if get_lmonpayload_begin (Some h) = None then ret (Inl LMON_EBDMSG)
           else bindA (on_link (lk_read_payload (junk n) (sint (both_lengths h)))) (\<lambda>(bytesread, b).
           bindA (modA (\<lambda>s. s\<lparr>be_msg := Some (recvmsg @ b)\<rparr>)) (\<lambda>_.
           if (of_int bytesread :: u32) \<noteq> both_lengths h then ret (Inl LMON_EBDMSG)
           else ret (Inr recvmsg)))))))"

definition recv_mode :: "byte list \<Rightarrow> ('u, byte list) be_step" where
  "recv_mode old = bindA (on_link (lk_read_hdr old)) (\<lambda>(_, recvmsg).
     let go = (\<lambda>m. bindA (modA (\<lambda>s. s\<lparr>be_launch := m\<rparr>)) (\<lambda>_. ret (Inr recvmsg))) in
     if has_type recvmsg lmonp_febe_attach then go trm_attach
     else if has_type recvmsg lmonp_febe_launch then go trm_launch
     else if has_type recvmsg lmonp_febe_launch_dontstop then go trm_launch_dontstop
     else if has_type recvmsg lmonp_febe_attach_stop then go trm_attach_stop
     else ret (Inl LMON_EBDMSG))"

definition recv_rmtype :: "byte list \<Rightarrow> ('u, byte list) be_step" where
  "recv_rmtype old = bindA (on_link (lk_read_hdr old)) (\<lambda>(_, recvmsg).
     if \<not> has_type recvmsg lmonp_febe_rm_type then ret (Inl LMON_EBDMSG)
     else bindA (modA (\<lambda>s. s\<lparr>be_rmtype := ucast (num_tasks (dec_hdr recvmsg))\<rparr>)) (\<lambda>_. ret (Inr recvmsg)))"

text \<open>Calling \<open>unpack\<close> when none is registered is a call of \<open>NULL\<close>.\<close>

definition recv_udata :: "(nat \<Rightarrow> byte list) \<Rightarrow> byte list \<Rightarrow> ('u, unit) be_step" where
  "recv_udata junk old = bindA (on_link (lk_read_hdr old)) (\<lambda>(_, recvmsg).
     if \<not> has_type recvmsg lmonp_febe_usrdata then ret (Inl LMON_EBDMSG)
     else
       (let len = usr_payload_length (dec_hdr recvmsg) in
        if sint len \<le> 0 then ret (Inr ())
        else bindA (on_link (lk_read_payload (junk (unat len)) (sint len))) (\<lambda>(_, usrpl) s.
          case be_unpack s of None \<Rightarrow> throw Undefined_behaviour s
          | Some f \<Rightarrow> ret (Inr ()) (s\<lparr>be_user := snd (f usrpl (be_user s))\<rparr>))))"

definition master_exchange :: "(nat \<Rightarrow> byte list) \<Rightarrow> byte list \<Rightarrow> ('u, unit) be_step" where
  "master_exchange junk hngatherbuf =
     stepA (ship_hostnames hngatherbuf) (\<lambda>_.
     stepA (recv_proctab junk) (\<lambda>msg.
     stepA (recv_mode msg) (\<lambda>msg.
     stepA (recv_rmtype msg) (recv_udata junk))))"

section \<open>The handshake\<close>

text \<open>A code outside the enumeration takes the \<open>default\<close> of every \<open>switch\<close>, as \<open>RC_none\<close> does.\<close>

definition rm_codes :: "rm_catalogue_e list" where
  "rm_codes = [RC_mchecker_rm, RC_slurm, RC_bglrm, RC_bgprm, RC_bgqrm, RC_bgq_slurm, RC_bgrm, RC_alps, RC_cray,
     RC_orte, RC_mpiexec_hydra, RC_gupc, RC_flux, RC_none]"

definition rm_of :: "u32 \<Rightarrow> rm_catalogue_e" where
  "rm_of w = (if unat w < length rm_codes then rm_codes ! unat w else RC_none)"

definition dontstop_of :: "u32 \<Rightarrow> int" where
  "dontstop_of m = (if m = trm_launch_dontstop \<or> m = trm_attach then 1 else 0)"

definition islaunch_of :: "u32 \<Rightarrow> int" where
  "islaunch_of m = (if m = trm_launch \<or> m = trm_launch_dontstop then 1 else 0)"

definition sync_begin :: "('u, MPIR_PROCDESC_EXT list \<times> int) be_step" where
  "sync_begin = stepA own_tasks (\<lambda>(proctab, n) s.
     stepA (bindA (on_tasks (procctl_init (rm_of (be_rmtype s)) proctab (islaunch_of (be_launch s)) n
         (dontstop_of (be_launch s)))) (need LMON_ESUBSYNC)) (\<lambda>_. ret (Inr (proctab, n))) s)"

definition say_cont_launch :: "('u, unit) be_step" where
  "say_cont_launch = bindA (on_link (lk_write (enc_hdr (fetobe_hdr lmonp_befe_cont_launch_bp 0 0)) (int lmonp_size)))
     (\<lambda>r. ret (if r < 0 then Inl LMON_ESYS else Inr ()))"

definition sync_end :: "MPIR_PROCDESC_EXT list \<Rightarrow> int \<Rightarrow> ('u, unit) be_step" where
  "sync_end proctab n s =
     stepA (bindA (on_tasks (procctl_initdone (rm_of (be_rmtype s)) proctab (islaunch_of (be_launch s)) n))
       (need LMON_ESUBSYNC)) (\<lambda>_.
     if dontstop_of (be_launch s) = 1 then
       bindA (on_tasks (procctl_run (rm_of (be_rmtype s)) 0 proctab n)) (need LMON_ESUBSYNC)
     else ret (Inr ())) s"

text \<open>The barrier in the middle is not checked. A slave's \<open>malloc\<close> of a negative size fails.\<close>

definition sync_tasks :: "cobo \<Rightarrow> 'u be_data \<Rightarrow> 'u be_prog" where
  "sync_tasks t s = act_then sync_begin s (\<lambda>(proctab, n) s.
     be_barrier t (\<lambda>_.
     act_then (stepA (master_only say_cont_launch) (\<lambda>_. sync_end proctab n)) s (\<lambda>_ s.
     then_barrier t s)))"

definition slave_buffer :: "(nat \<Rightarrow> byte list) \<Rightarrow> ('u, unit) be_step" where
  "slave_buffer junk s =
     (if is_master s then ret (Inr ()) s
      else if sint (be_msg_size s) < 0 then ret (Inl LMON_ENOMEM) (s\<lparr>be_msg := None\<rparr>)
      else ret (Inr ()) (s\<lparr>be_msg := Some (junk (nat (sint (be_msg_size s))))\<rparr>))"

definition msg_buffer :: "'u be_data \<Rightarrow> byte list" where
  "msg_buffer s = (case be_msg s of None \<Rightarrow> [] | Some m \<Rightarrow> m)"

definition share_job :: "cobo \<Rightarrow> (nat \<Rightarrow> byte list) \<Rightarrow> 'u be_data \<Rightarrow> 'u be_prog" where
  "share_job t junk s =
     bcast_into t (\<lambda>s. enc32 (be_launch s)) (\<lambda>b s. s\<lparr>be_launch := dec32 b\<rparr>) 4 s (\<lambda>s.
     bcast_into t (\<lambda>s. enc32 (be_rmtype s)) (\<lambda>b s. s\<lparr>be_rmtype := dec32 b\<rparr>) 4 s (\<lambda>s.
     bcast_into t (\<lambda>s. enc32 (be_msg_size s)) (\<lambda>b s. s\<lparr>be_msg_size := dec32 b\<rparr>) 4 s (\<lambda>s.
     act_then (slave_buffer junk) s (\<lambda>_ s.
     bcast_into t msg_buffer (\<lambda>b s. s\<lparr>be_msg := Some b\<rparr>) (nat (sint (be_msg_size s))) s (sync_tasks t)))))"

definition be_handshake :: "cobo \<Rightarrow> (nat \<Rightarrow> byte list) \<Rightarrow> 'u be_data \<Rightarrow> 'u be_prog" where
  "be_handshake t junk s =
     be_gather t s (hn_bytes (be_hostname s)) LMON_DAEMON_HN_MAX
       (if is_master s then junk (LMON_DAEMON_HN_MAX * nat (be_width s)) else []) (\<lambda>rc hngatherbuf.
     if rc \<noteq> LMON_OK then Done (Inr LMON_ESUBCOM, s)
     else act_then (master_only (master_exchange junk hngatherbuf)) s (\<lambda>_ s. share_job t junk s))"

section \<open>Ready and user data\<close>

text \<open>A pack function that fills more than the buffer overruns it. \<open>ready\<close> does not look at its
  return code, nor at the result of the write.\<close>

definition LMON_MAX_USRPAYLOAD :: nat where "LMON_MAX_USRPAYLOAD = 4194304"

definition befe_hdr :: "lmonp_fe_to_be_msg_e \<Rightarrow> lmonp_t \<Rightarrow> nat \<Rightarrow> lmonp_t" where
  "befe_hdr ty m len = m\<lparr>msgclass := of_nat (class_code lmonp_fetobe), msgtype := of_nat (fetobe_code ty),
     num_tasks := 0, security_key2 := 0, lmon_payload_length := 0, usr_payload_length := of_nat len\<rparr>"

definition usr_hdr :: lmonp_t where
  "usr_hdr = the (snd (set_msg_header (Some lmonp_zero) (int (class_code lmonp_fetobe))
     (int (fetobe_code lmonp_befe_usrdata)) 0 0 0 0 0 0 (of_nat LMON_MAX_USRPAYLOAD)))"

text \<open>Without user data the header comes from \<open>malloc\<close> and \<open>long_num_tasks\<close> is never written;
  bits of the object that no field names are sent as zeros here.\<close>

definition say_ready :: "(nat \<Rightarrow> byte list) \<Rightarrow> bool \<Rightarrow> ('u, unit) be_step" where
  "say_ready junk has_udata s =
     (let (m, pl) = (case be_pack s of
            Some pack \<Rightarrow> if has_udata then (usr_hdr, snd (pack (be_user s))) else (dec_hdr (junk lmonp_size), [])
          | None \<Rightarrow> (dec_hdr (junk lmonp_size), []))
      in if LMON_MAX_USRPAYLOAD < length pl then throw Undefined_behaviour s
         else bindA (on_link (lk_write (enc_hdr (befe_hdr lmonp_befe_ready m (length pl)) @ pl)
                (int (lmonp_size + length pl)))) (\<lambda>_. ret (Inr ())) s)"

definition be_ready :: "cobo \<Rightarrow> (nat \<Rightarrow> byte list) \<Rightarrow> bool \<Rightarrow> 'u be_data \<Rightarrow> 'u be_prog" where
  "be_ready t junk has_udata s = act_then (master_only (say_ready junk has_udata)) s (\<lambda>_ s. then_barrier t s)"

text \<open>The codes of \<open>lmon_rc_e\<close> as the daemons broadcast them. In the call the parenthesis is
  misplaced: the length is \<open>sizeof(lrc) != LMON_OK\<close>, one byte, and the result is compared
  with nothing.\<close>

definition rc_codes :: "lmon_rc_e list" where
  "rc_codes = [LMON_OK, LMON_EINVAL, LMON_EBDARG, LMON_ELNCHR, LMON_EINIT, LMON_ESYS, LMON_ESUBCOM, LMON_ESUBSYNC,
     LMON_ETOUT, LMON_ENOMEM, LMON_ENCLLB, LMON_ECLLB, LMON_ENEGCB, LMON_ENOPLD, LMON_EBDMSG, LMON_EDUNAV,
     LMON_ETRUNC, LMON_EBUG, LMON_NOTIMPL, LMON_YES, LMON_NO]"

definition rc_word :: "lmon_rc_e \<Rightarrow> u32" where "rc_word rc = of_nat (pos_of rc_codes rc)"

definition rc_of_word :: "u32 \<Rightarrow> lmon_rc_e" where "rc_of_word w = rc_codes ! (unat w mod length rc_codes)"

definition share_rc :: "cobo \<Rightarrow> lmon_rc_e \<Rightarrow> 's \<Rightarrow> 's dprog" where
  "share_rc t lrc s = be_broadcast t s (enc32 (rc_word lrc)) 1 (\<lambda>rc b.
     Done (Inr (if rc \<noteq> LMON_OK then LMON_ESUBCOM else rc_of_word (dec32 b)), s))"

text \<open>The master's part gives the code that is shared; a slave's code is \<open>LMON_OK\<close>.\<close>

definition take_udata :: "(nat \<Rightarrow> byte list) \<Rightarrow> ('u, lmon_rc_e) be" where
  "take_udata junk = bindA (on_link (lk_read_hdr (junk lmonp_size))) (\<lambda>(r, recvmsg).
     let len = usr_payload_length (dec_hdr recvmsg) in
     if r < 0 then ret LMON_ESYS
     else if \<not> has_type recvmsg lmonp_febe_usrdata then ret LMON_EBDMSG
     else if sint len \<le> 0 then ret LMON_ENOPLD
     else bindA (on_link (lk_read_payload (junk (unat len)) (sint len))) (\<lambda>(_, usrpl) s.
       case be_unpack s of None \<Rightarrow> ret LMON_ENCLLB s
       | Some f \<Rightarrow> (let (rc, u) = f usrpl (be_user s) in
           ret (if rc < 0 then LMON_ENEGCB else LMON_OK) (s\<lparr>be_user := u\<rparr>))))"

definition give_udata :: "(nat \<Rightarrow> byte list) \<Rightarrow> bool \<Rightarrow> ('u, lmon_rc_e) be" where
  "give_udata junk has_udata s =
     (case (if has_udata then be_pack s else None) of
        Some pack \<Rightarrow>
          (let (rc, pl) = pack (be_user s) in
           if LMON_MAX_USRPAYLOAD < length pl then throw Undefined_behaviour s
           else if rc < 0 then ret LMON_ENEGCB s
           else bindA (on_link (lk_write (enc_hdr (befe_hdr lmonp_befe_usrdata usr_hdr (length pl)) @ pl)
                  (int (lmonp_size + length pl)))) (\<lambda>r. ret (if r < 0 then LMON_ESYS else LMON_OK)) s)
      | None \<Rightarrow>
          bindA (on_link (lk_write (enc_hdr (befe_hdr lmonp_befe_usrdata (dec_hdr (junk lmonp_size)) 0))
            (int lmonp_size))) (\<lambda>r. ret (if r < 0 then LMON_ESYS else LMON_ENCLLB)) s)"

definition master_rc :: "('u, lmon_rc_e) be \<Rightarrow> ('u, lmon_rc_e) be_step" where
  "master_rc m s = (if is_master s then bindA m (\<lambda>rc. ret (Inr rc)) s else ret (Inr LMON_OK) s)"

definition be_recvUsrData :: "cobo \<Rightarrow> (nat \<Rightarrow> byte list) \<Rightarrow> 'u be_data \<Rightarrow> 'u be_prog" where
  "be_recvUsrData t junk s = act_then (master_rc (take_udata junk)) s (share_rc t)"

definition be_sendUsrData :: "cobo \<Rightarrow> (nat \<Rightarrow> byte list) \<Rightarrow> bool \<Rightarrow> 'u be_data \<Rightarrow> 'u be_prog" where
  "be_sendUsrData t junk has_udata s = act_then (master_rc (give_udata junk has_udata)) s (share_rc t)"

section \<open>Assisting in the launch of middleware daemons\<close>

text \<open>The master's spawner reads the request and broadcasts its length and its payload; every
  daemon then parses it and forks. A spawner that fails makes the call fail with
  \<open>LMON_ESUBCOM\<close>; without a spawner there is nothing to do.\<close>

definition coloc_request :: "(nat \<Rightarrow> byte list) \<Rightarrow> ('u, byte list) be_step" where
  "coloc_request junk = bindA (on_link (lk_read_hdr (junk lmonp_size))) (\<lambda>(_, msg).
     let h = dec_hdr msg; leng = lmon_payload_length h in
     if unat (msgclass h) \<noteq> class_code lmonp_fetobe \<or> \<not> has_type msg lmonp_febe_assist_mw_coloc \<or> leng = 0
     then ret (Inl LMON_ESUBCOM)
     else bindA (on_link (lk_read_payload (junk (unat leng)) (sint leng))) (\<lambda>(bytesread, lmonpl).
       ret (if bytesread \<noteq> sint (both_lengths h) then Inl LMON_ESUBCOM else Inr lmonpl)))"

definition coloc_fork :: "byte list \<Rightarrow> ('u, unit) be_step" where
  "coloc_fork lmonpl s = (case be_spawner s of
     None \<Rightarrow> ret (Inr ()) s
   | Some sp \<Rightarrow> (case parse_mw_assist_lmonpl lmonpl sp of
       None \<Rightarrow> throw Undefined_behaviour s
     | Some sp' \<Rightarrow> ret (Inr ()) (s\<lparr>be_spawner := Some (execute_daemon sp')\<rparr>)))"

definition coloc_share :: "cobo \<Rightarrow> byte list \<Rightarrow> (u32 \<Rightarrow> byte list) \<Rightarrow> 'u be_data \<Rightarrow> 'u be_prog" where
  "coloc_share t leng pl s = be_broadcast t s leng 4 (\<lambda>rc b.
     if rc \<noteq> LMON_OK then Done (Inr LMON_ESUBCOM, s)
     else be_broadcast t s (pl (dec32 b)) (unat (dec32 b)) (\<lambda>rc lmonpl.
       if rc \<noteq> LMON_OK then Done (Inr LMON_ESUBCOM, s)
       else act_then (coloc_fork lmonpl) s (\<lambda>_ s. Done (Inr LMON_OK, s))))"

definition be_assist_mw_coloc :: "cobo \<Rightarrow> (nat \<Rightarrow> byte list) \<Rightarrow> 'u be_data \<Rightarrow> 'u be_prog" where
  "be_assist_mw_coloc t junk s =
     (if be_spawner s = None then Done (Inr LMON_OK, s)
      else if is_master s then act_then (coloc_request junk) s (\<lambda>lmonpl s.
        coloc_share t (enc32 (of_nat (length lmonpl))) (\<lambda>_. lmonpl) s)
      else coloc_share t (junk 4) (\<lambda>leng. junk (unat leng)) s)"

section \<open>The end\<close>

text \<open>\<open>closed\<close> is the result of \<open>cobo_close\<close>. The deleted spawner's pointer is not cleared.\<close>

definition be_finalize :: "bool \<Rightarrow> ('u, unit) be_step" where
  "be_finalize closed = stepA own_tasks (\<lambda>(proctab, n) s.
     stepA (bindA (on_tasks (procctl_done (rm_of (be_rmtype s)) proctab n)) (need LMON_ESYS)) (\<lambda>_.
     stepA (need LMON_ESUBCOM (daemon_internal_finalize closed)) (\<lambda>_.
     bindA (modA (\<lambda>s. s\<lparr>be_msg := None, be_cache := []\<rparr>)) (\<lambda>_. ret (Inr ())))) s)"

end
