(* ===== verification/Be_Handshake.thy ===== *)
theory Be_Handshake
  imports Lmon_Be
begin

text \<open>
  The handshake of the back-end daemons: what the hosts message says, the master's exchange
  with the front end, and all the daemons together, each a program that runs at its own pace.
\<close>

section \<open>The hosts message\<close>

text \<open>The names in the order of their first appearance.\<close>

fun firsts :: "string set \<Rightarrow> string list \<Rightarrow> string list" where
  "firsts seen [] = []"
| "firsts seen (h # hs) = (if h \<in> seen then firsts seen hs else h # firsts (insert h seen) hs)"

lemma set_firsts: "set (firsts seen hs) = set hs - seen"
  by (induction seen hs rule: firsts.induct) auto

definition name_bytes :: "string list \<Rightarrow> byte list" where "name_bytes hs = concat (map cstr hs)"

definition name_off :: "string list \<Rightarrow> string \<Rightarrow> nat" where
  "name_off fs h = length (name_bytes (takeWhile (\<lambda>x. x \<noteq> h) fs))"

lemma name_bytes_simps [simp]: "name_bytes [] = []" "name_bytes (h # hs) = cstr h @ name_bytes hs"
  by (simp_all add: name_bytes_def)

lemma pass1:
  "map_inv m \<Longrightarrow> dom (map_find m) = seen \<Longrightarrow> hn_pass1 hs m off = (m', off') \<Longrightarrow>
   map_inv m' \<and> off' = off + of_nat (length (name_bytes (firsts seen hs))) \<and>
   (\<forall>h. map_find m' h = (if h \<in> set (firsts seen hs) then Some (off + of_nat (name_off (firsts seen hs) h), 0)
      else map_find m h))"
proof (induction hs m off arbitrary: seen m' off' rule: hn_pass1.induct)
  case (1 m off)
  then show ?case by simp
next
  case (2 h hs m off)
  show ?case
  proof (cases "map_find m h = None")
    case True
    then have h: "h \<notin> seen" using "2.prems"(2) by (auto simp: domIff)
    let ?m = "map_set h (off, 0) m"
    have i: "map_inv ?m" using "2.prems"(1) by (simp add: map_inv_set)
    have d: "dom (map_find ?m) = insert h seen"
      using "2.prems"(1,2) by (auto simp: map_find_set domIff split: if_splits)
    have e: "hn_pass1 hs ?m (off + of_nat (length h + 1)) = (m', off')" using "2.prems"(3) True by simp
    have hf: "h \<notin> set (firsts (insert h seen) hs)" by (simp add: set_firsts)
    show ?thesis
      using "2.IH"(1) [OF True i d e] h hf "2.prems"(1)
      by (auto simp: name_off_def map_find_set add.assoc [symmetric] simp del: hn_pass1.simps)
  next
    case False
    then have "h \<in> seen" using "2.prems"(2) by (auto simp: domIff)
    then show ?thesis using "2.IH"(2) [OF False "2.prems"(1,2)] "2.prems"(3) False by auto
  qed
qed

lemma pass2:
  "map_inv m \<Longrightarrow> (\<forall>h \<in> set hs. \<exists>i. map_find m h = Some (o1 h, i)) \<Longrightarrow>
   (\<forall>h \<in> set hs. h \<in> seen \<longleftrightarrow> snd (the (map_find m h)) \<noteq> 0) \<Longrightarrow>
   hn_pass2 hs m = (concat (map (\<lambda>h. enc32 (o1 h)) hs), name_bytes (firsts seen hs))"
proof (induction hs arbitrary: m seen)
  case Nil
  then show ?case by simp
next
  case (Cons h hs)
  obtain i where i: "map_find m h = Some (o1 h, i)" using Cons.prems(2) by auto
  show ?case
  proof (cases "i = 0")
    case True
    let ?m = "map_set h (o1 h, 1) m"
    have "h \<notin> seen" using Cons.prems(3) i True by simp
    moreover have "hn_pass2 hs ?m = (concat (map (\<lambda>h. enc32 (o1 h)) hs), name_bytes (firsts (insert h seen) hs))"
      by (rule Cons.IH) (use Cons.prems in \<open>auto simp: map_inv_set map_find_set\<close>)
    ultimately show ?thesis using i True by simp
  next
    case False
    then have "h \<in> seen" using Cons.prems(3) i by simp
    moreover have "hn_pass2 hs m = (concat (map (\<lambda>h. enc32 (o1 h)) hs), name_bytes (firsts seen hs))"
      by (rule Cons.IH) (use Cons.prems in auto)
    ultimately show ?thesis using i False by simp
  qed
qed

definition host_index :: "string list \<Rightarrow> string \<Rightarrow> u32" where
  "host_index hs h = of_nat (name_off (firsts {} hs) h)"

definition hosts_payload :: "string list \<Rightarrow> byte list" where
  "hosts_payload hs = concat (map (\<lambda>h. enc32 (host_index hs h)) hs) @ name_bytes (firsts {} hs)"

lemma dom_empty_map: "dom (map_find []) = {}"
  by (simp add: dom_def)

lemma both_passes:
  assumes "hn_pass1 hs [] 0 = (m, off)"
  shows "off = of_nat (length (name_bytes (firsts {} hs)))"
    "hn_pass2 hs m = (concat (map (\<lambda>h. enc32 (host_index hs h)) hs), name_bytes (firsts {} hs))"
proof -
  have p: "map_inv m" "off = of_nat (length (name_bytes (firsts {} hs)))"
    "\<forall>h. map_find m h = (if h \<in> set (firsts {} hs) then Some (of_nat (name_off (firsts {} hs) h), 0) else None)"
    using pass1 [OF smap.inv_empty dom_empty_map assms] by simp_all
  show "off = of_nat (length (name_bytes (firsts {} hs)))" by (rule p(2))
  show "hn_pass2 hs m = (concat (map (\<lambda>h. enc32 (host_index hs h)) hs), name_bytes (firsts {} hs))"
    by (rule pass2) (use p in \<open>auto simp: set_firsts host_index_def\<close>)
qed

lemma length_indices [simp]: "length (concat (map (\<lambda>h. enc32 (f h)) hs)) = 4 * length hs"
  by (induction hs) simp_all

lemma hosts_read_name:
  assumes "h \<in> set fs" and "nul_free h"
  shows "read_cstr (pre @ name_bytes fs) (length pre + name_off fs h) = Some h"
proof -
  obtain a b where b: "fs = a @ h # b" "h \<notin> set a" using split_list_first [OF assms(1)] by blast
  have t: "takeWhile (\<lambda>x. x \<noteq> h) fs = a"
    unfolding b(1) by (subst takeWhile_append2) (use b(2) in auto)
  show ?thesis
    using read_cstr_cstr [OF assms(2), of "pre @ name_bytes a" "name_bytes b"]
    by (simp add: name_off_def t) (simp add: b name_bytes_def)
qed

lemma name_off_le: "h \<in> set fs \<Longrightarrow> name_off fs h < length (name_bytes fs)"
proof (induction fs)
  case (Cons a fs)
  then show ?case by (cases "a = h") (auto simp: name_off_def)
qed simp

text \<open>What a reader of the payload finds: the index of each daemon, and its name behind the
  indices.\<close>

lemma hosts_payload_read:
  assumes "i < length hs" and "\<forall>h \<in> set hs. nul_free h" and "length (name_bytes (firsts {} hs)) < 2 ^ 31"
  shows "u32_at (hosts_payload hs) (4 * i) = Some (host_index hs (hs ! i))"
    "read_cstr (hosts_payload hs) (4 * length hs + unat (host_index hs (hs ! i))) = Some (hs ! i)"
proof -
  have s: "hs = take i hs @ hs ! i # drop (Suc i) hs" using assms(1) by (simp add: id_take_nth_drop)
  have "u32_at (concat (map (\<lambda>h. enc32 (host_index hs h)) (take i hs)) @ enc32 (host_index hs (hs ! i)) @ r) (4 * i) =
      Some (host_index hs (hs ! i))" for r
    using u32_at_append [of "concat (map (\<lambda>h. enc32 (host_index hs h)) (take i hs))" "host_index hs (hs ! i)" r] assms(1)
    by simp
  moreover have "concat (map (\<lambda>h. enc32 (host_index hs h)) hs) =
      concat (map (\<lambda>h. enc32 (host_index hs h)) (take i hs)) @ enc32 (host_index hs (hs ! i)) @
      concat (map (\<lambda>h. enc32 (host_index hs h)) (drop (Suc i) hs))"
    using arg_cong [OF s, of "\<lambda>xs. concat (map (\<lambda>h. enc32 (host_index hs h)) xs)"] by simp
  ultimately show "u32_at (hosts_payload hs) (4 * i) = Some (host_index hs (hs ! i))"
    by (simp add: hosts_payload_def)
  have m: "hs ! i \<in> set (firsts {} hs)" using assms(1) by (simp add: set_firsts)
  then have "unat (host_index hs (hs ! i)) = name_off (firsts {} hs) (hs ! i)"
    unfolding host_index_def using name_off_le [OF m] assms(3) by (subst unat_of_nat) simp
  then show "read_cstr (hosts_payload hs) (4 * length hs + unat (host_index hs (hs ! i))) = Some (hs ! i)"
    using hosts_read_name [OF m, of "concat (map (\<lambda>h. enc32 (host_index hs h)) hs)"] assms(1,2)
    by (simp add: hosts_payload_def)
qed

section \<open>The master and the front end\<close>

lemma on_link_run: "m (be_link s) = (r, l) \<Longrightarrow> on_link m s = (r, s\<lparr>be_link := l\<rparr>)"
  by (simp add: on_link_def zoomA_def)

lemma on_tasks_run: "m (be_tasks s) = (r, l) \<Longrightarrow> on_tasks m s = (r, s\<lparr>be_tasks := l\<rparr>)"
  by (simp add: on_tasks_def zoomA_def)

lemma fetobe_hdr_fields:
  "fetobe_hdr ty k key2 = lmonp_zero\<lparr>msgclass := 1, msgtype := of_nat (fetobe_code ty), num_tasks := k, security_key2 := key2\<rparr>"
proof -
  have "exec_and_hn 0 0 = 0" by (simp add: exec_and_hn_def)
  then show ?thesis by (simp add: fetobe_hdr_def set_msg_header_def Let_def lmonp_zero_def)
qed

lemma dec_enc_hdr0 [simp]: "dec_hdr (enc_hdr h) = h"
  using dec_enc_hdr [of h "[]"] by simp

lemma unat_type [simp]: "unat (of_nat (fetobe_code ty) :: 13 word) = fetobe_code ty"
  using fetobe_code(1) [of ty] by (simp add: unat_of_nat)

lemma fetobe_code_inj [simp]: "fetobe_code a = fetobe_code b \<longleftrightarrow> a = b"
  using fetobe_code(2) [of a] fetobe_code(2) [of b] by metis

lemma has_type_enc: "msgtype h = of_nat (fetobe_code ty) \<Longrightarrow> has_type (enc_hdr h) ty' \<longleftrightarrow> ty = ty'"
  by (simp add: has_type_def)

lemma has_type_fetobe [simp]: "has_type (enc_hdr (fetobe_hdr ty k key2)) ty' \<longleftrightarrow> ty = ty'"
  by (rule has_type_enc) (simp add: fetobe_hdr_fields)

lemma short_msg: "wf_msg (fetobe_hdr ty k key2) []"
  by (simp add: wf_msg_def fetobe_hdr_fields lmonp_zero_def lmonp_size_def)

lemma read_hn_bytes:
  assumes "length h < LMON_DAEMON_HN_MAX" and "nul_free h"
  shows "length (hn_bytes h) = LMON_DAEMON_HN_MAX" "read_cstr (pre @ hn_bytes h @ post) (length pre) = Some h"
proof -
  have "hn_bytes h = cstr h @ replicate (LMON_DAEMON_HN_MAX - (length h + 1)) 0"
    using assms(1) by (simp add: hn_bytes_def take_replicate min_def)
  then show "length (hn_bytes h) = LMON_DAEMON_HN_MAX" "read_cstr (pre @ hn_bytes h @ post) (length pre) = Some h"
    using assms read_cstr_cstr [OF assms(2), of pre] by simp_all
qed

lemma gathered:
  assumes "\<And>x. x < n \<Longrightarrow> length (host x) < LMON_DAEMON_HN_MAX \<and> nul_free (host x)"
  shows "gathered_names (concat (map (\<lambda>x. hn_bytes (host x)) [0..<n])) n = Some (map host [0..<n])"
proof -
  have "read_cstr (concat (map (\<lambda>x. hn_bytes (host x)) [0..<n])) (LMON_DAEMON_HN_MAX * i) = Some (host i)" if i: "i < n" for i
  proof -
    have "[0..<n] = [0..<i] @ i # [Suc i..<n]"
      using i by (metis le0 upt_conv_Cons upt_add_eq_append add_0 less_imp_le_nat le_add_diff_inverse)
    then have e: "concat (map (\<lambda>x. hn_bytes (host x)) [0..<n]) =
        concat (map (\<lambda>x. hn_bytes (host x)) [0..<i]) @ hn_bytes (host i) @ concat (map (\<lambda>x. hn_bytes (host x)) [Suc i..<n])"
      by simp
    have "length (concat (map (\<lambda>x. hn_bytes (host x)) [0..<i])) = i * LMON_DAEMON_HN_MAX"
      by (rule length_concat_const) (use assms i read_hn_bytes(1) in simp)
    then show ?thesis unfolding e using read_hn_bytes(2) assms [OF i] by (metis mult.commute)
  qed
  then have "map (\<lambda>i. read_cstr (concat (map (\<lambda>x. hn_bytes (host x)) [0..<n])) (LMON_DAEMON_HN_MAX * i)) [0..<n] =
      map (\<lambda>i. Some (host i)) [0..<n]" by simp
  moreover have "those (map (\<lambda>i. Some (host i)) xs) = Some (map host xs)" for xs :: "nat list"
    by (induction xs) simp_all
  ultimately show ?thesis by (simp only: gathered_names_def)
qed

definition hosts_hdr :: "string list \<Rightarrow> lmonp_t" where
  "hosts_hdr hs = hostname_hdr (int (length hs)) (of_nat (length (name_bytes (firsts {} hs))))"

definition wf_hosts :: "string list \<Rightarrow> bool" where
  "wf_hosts hs \<longleftrightarrow> hs \<noteq> [] \<and> (\<forall>h \<in> set hs. nul_free h) \<and>
     28 + 4 * length hs + length (name_bytes (firsts {} hs)) < 2 ^ 31"

lemma length_hosts_payload: "length (hosts_payload hs) = 4 * length hs + length (name_bytes (firsts {} hs))"
  by (simp add: hosts_payload_def)

lemma hosts_hdr_fields:
  "hosts_hdr hs = lmonp_zero\<lparr>msgclass := 1, msgtype := of_nat (fetobe_code lmonp_befe_hostname),
     num_tasks := of_nat (min (length hs) LMON_NTASKS_THRE), security_key2 := exec_and_hn 0 (of_nat (length hs)),
     long_num_tasks := (if length hs < LMON_NTASKS_THRE then 0 else of_nat (length hs)),
     lmon_payload_length := of_nat (length (hosts_payload hs))\<rparr>"
  by (simp add: hosts_hdr_def hostname_hdr_def set_msg_header_def Let_def lmonp_zero_def length_hosts_payload min_def
    algebra_simps)

lemma hosts_hdr_msg:
  assumes "wf_hosts hs"
  shows "wf_msg (hosts_hdr hs) (hosts_payload hs)"
    "get_lmonpayload_begin (Some (hosts_hdr hs)) = Some 28"
    "get_strtab_begin (hosts_hdr hs) = Some (28 + 4 * length hs)"
proof -
  have l: "length (hosts_payload hs) < 2 ^ 31" "0 < length (hosts_payload hs)"
    using assms by (auto simp: wf_hosts_def length_hosts_payload)
  then have u: "unat (of_nat (length (hosts_payload hs)) :: u32) = length (hosts_payload hs)"
    by (subst unat_of_nat) simp
  show "wf_msg (hosts_hdr hs) (hosts_payload hs)"
    using assms u by (simp add: wf_msg_def hosts_hdr_fields lmonp_zero_def lmonp_size_def wf_hosts_def length_hosts_payload)
  show g: "get_lmonpayload_begin (Some (hosts_hdr hs)) = Some 28"
    using u l(2) by (auto simp: get_lmonpayload_begin_def hosts_hdr_fields lmonp_size_def unat_eq_0 [symmetric])
  have n: "length hs < 2 ^ 31" using assms by (simp add: wf_hosts_def)
  have "msg_ntasks (hosts_hdr hs) = length hs"
    using n by (simp add: msg_ntasks_def hosts_hdr_fields LMON_NTASKS_THRE_def unat_of_nat min_def)
  then show "get_strtab_begin (hosts_hdr hs) = Some (28 + 4 * length hs)"
    using g by (simp add: get_strtab_begin_def) (simp add: hosts_hdr_fields fetobe_code_def fetobe_all_def)
qed

lemma ship_hostnames_ok:
  assumes "wf_hosts hs" and "be_width s = int (length hs)" and "gathered_names buf (length hs) = Some hs"
    and "ready (be_link s) ins ((28 + length (hosts_payload hs)) # outs)"
  shows "\<exists>l. ship_hostnames buf s = (Inr (Inr ()), s\<lparr>be_link := l\<rparr>) \<and> ready l ins outs \<and>
    lk_sent l = lk_sent (be_link s) @ enc_hdr (hosts_hdr hs) @ hosts_payload hs"
proof -
  obtain m off where p: "hn_pass1 hs [] 0 = (m, off)" by (cases "hn_pass1 hs [] 0")
  note q = both_passes [OF p]
  let ?L = "length (name_bytes (firsts {} hs))"
  have off: "uint off = int ?L" using assms(1) by (simp add: q(1) wf_hosts_def uint_nat unat_of_nat)
  have "sint (of_nat (28 + (4 * length hs + ?L)) :: u32) = int (28 + (4 * length hs + ?L))"
    using assms(1) by (intro sint_of_nat32) (simp add: wf_hosts_def)
  then have size: "sint (of_int (int lmonp_size + int (length hs) * 4 + uint off) :: u32) = 28 + int (length (hosts_payload hs))"
    by (simp add: off lmonp_size_def length_hosts_payload algebra_simps)
  have h: "hostname_hdr (int (length hs)) off = hosts_hdr hs" by (simp add: hosts_hdr_def q(1))
  obtain l where l: "lk_write (enc_hdr (hosts_hdr hs) @ hosts_payload hs) (28 + int (length (hosts_payload hs))) (be_link s) =
      (Inr (28 + int (length (hosts_payload hs))), l)" "ready l ins outs"
    "lk_sent l = lk_sent (be_link s) @ enc_hdr (hosts_hdr hs) @ hosts_payload hs"
    using lk.put [OF assms(4) hosts_hdr_msg(1) [OF assms(1)] refl] by blast
  have "ship_hostnames buf s = bindA (on_link (lk_write (enc_hdr (hosts_hdr hs) @ hosts_payload hs)
      (28 + int (length (hosts_payload hs))))) (\<lambda>_. ret (Inr ())) s"
    using assms(2,3) p q(2) hosts_hdr_msg(2,3) [OF assms(1)] size h
    by (simp add: ship_hostnames_def length_hosts_payload Let_def)
      (simp add: hosts_payload_def)
  then show ?thesis using l by (intro exI [of _ l]) (simp add: bindA_def ret_def on_link_def zoomA_def)
qed

text \<open>The table, the mode, the resource manager and the user data.\<close>

fun mode_of :: "lmonp_fe_to_be_msg_e \<Rightarrow> u32 option" where
  "mode_of lmonp_febe_attach = Some trm_attach"
| "mode_of lmonp_febe_launch = Some trm_launch"
| "mode_of lmonp_febe_launch_dontstop = Some trm_launch_dontstop"
| "mode_of lmonp_febe_attach_stop = Some trm_attach_stop"
| "mode_of _ = None"

lemma recv_proctab_ok:
  assumes "ready (be_link s) (enc_hdr h # p # ins) outs" and "wf_msg h p" and "0 < lmon_payload_length h"
    and "msgtype h = of_nat (fetobe_code lmonp_febe_proctab)" and "\<And>k. length (junk k) = k"
  shows "\<exists>l. recv_proctab junk s =
      (Inr (Inr (enc_hdr h)), s\<lparr>be_msg_size := of_nat (28 + length p), be_link := l, be_msg := Some (enc_hdr h @ p)\<rparr>) \<and>
     ready l ins outs \<and> lk_sent l = lk_sent (be_link s)"
proof -
  have w: "length p = unat (lmon_payload_length h) + unat (usr_payload_length h)" "28 + length p < 2 ^ 31"
    using assms(2) by (simp_all add: wf_msg_def lmonp_size_def)
  then have u: "unat (both_lengths h) = length p"
    by (simp add: both_lengths_def unat_plus_if_size word_size)
  then have b: "of_nat (length p) = both_lengths h" by (simp flip: u)
  then have sb: "sint (both_lengths h) = int (length p)" using w(2) sint_of_nat32 [of "length p"] by simp
  have ss: "sint (of_nat (28 + length p) :: u32) = int (28 + length p)" using w(2) by (intro sint_of_nat32) simp
  have "unat (lmon_payload_length h) \<noteq> 0" using assms(3) by (simp add: unat_eq_zero word_neq_0_conv)
  then have ne: "p \<noteq> []" using w(1) by auto
  have g: "get_lmonpayload_begin (Some h) \<noteq> None" using assms(3) by (simp add: get_lmonpayload_begin_def not_le)
  obtain l k where l: "lk_read_hdr (junk 28) (be_link s) = (Inr (28, enc_hdr h), l)"
    "lk_read_payload (junk (length p)) (int (length p)) l = (Inr (int (length p), p), k)"
    "ready k ins outs" "lk_sent k = lk_sent (be_link s)"
    using lk.get_message [OF assms(1) ne assms(5) refl assms(5)] by blast
  show ?thesis
    using l g ss
    by (intro exI [of _ k])
      (simp add: recv_proctab_def bindA_def on_link_def zoomA_def modA_def ret_def has_type_enc [OF assms(4)]
        lmonp_size_def Let_def u sb b not_None_eq del: of_nat_add)
qed

lemma recv_hdr_ok:
  assumes "ready (be_link s) (enc_hdr h # ins) outs" and "length old = 28"
  shows "\<exists>l. on_link (lk_read_hdr old) s = (Inr (28, enc_hdr h), s\<lparr>be_link := l\<rparr>) \<and> ready l ins outs \<and>
     lk_sent l = lk_sent (be_link s)"
  using lk.hdr [OF assms] by (auto simp: on_link_def zoomA_def)

lemma recv_mode_ok:
  assumes "ready (be_link s) (enc_hdr (fetobe_hdr ty 0 0) # ins) outs" and "length old = 28" and "mode_of ty = Some m"
  shows "\<exists>l. recv_mode old s = (Inr (Inr (enc_hdr (fetobe_hdr ty 0 0))), s\<lparr>be_link := l, be_launch := m\<rparr>) \<and>
     ready l ins outs \<and> lk_sent l = lk_sent (be_link s)"
proof -
  obtain l where "on_link (lk_read_hdr old) s = (Inr (28, enc_hdr (fetobe_hdr ty 0 0)), s\<lparr>be_link := l\<rparr>)" "ready l ins outs"
     "lk_sent l = lk_sent (be_link s)" using recv_hdr_ok [OF assms(1,2)] by blast
  moreover consider "ty = lmonp_febe_attach" "m = trm_attach" | "ty = lmonp_febe_launch" "m = trm_launch"
    | "ty = lmonp_febe_launch_dontstop" "m = trm_launch_dontstop" | "ty = lmonp_febe_attach_stop" "m = trm_attach_stop"
    using assms(3) by (cases ty) auto
  then have "recv_mode old s = bindA (on_link (lk_read_hdr old)) (\<lambda>(_, msg).
      if msg = enc_hdr (fetobe_hdr ty 0 0) then bindA (modA (\<lambda>s. s\<lparr>be_launch := m\<rparr>)) (\<lambda>_. ret (Inr msg))
      else ret (Inl LMON_EBDMSG)) s"
    unfolding recv_mode_def by cases (simp_all add: bindA_def calculation(1))
  ultimately show ?thesis by (intro exI [of _ l]) (simp add: bindA_def modA_def ret_def)
qed

lemma recv_rmtype_ok:
  assumes "ready (be_link s) (enc_hdr (fetobe_hdr lmonp_febe_rm_type c 0) # ins) outs" and "length old = 28"
  shows "\<exists>l. recv_rmtype old s = (Inr (Inr (enc_hdr (fetobe_hdr lmonp_febe_rm_type c 0))),
       s\<lparr>be_link := l, be_rmtype := ucast c\<rparr>) \<and> ready l ins outs \<and> lk_sent l = lk_sent (be_link s)"
proof -
  obtain l where "on_link (lk_read_hdr old) s = (Inr (28, enc_hdr (fetobe_hdr lmonp_febe_rm_type c 0)), s\<lparr>be_link := l\<rparr>)"
     "ready l ins outs" "lk_sent l = lk_sent (be_link s)" using recv_hdr_ok [OF assms] by blast
  then show ?thesis
    by (intro exI [of _ l]) (simp add: recv_rmtype_def bindA_def modA_def ret_def, simp add: fetobe_hdr_fields)
qed

definition udata_hdr :: "byte list \<Rightarrow> lmonp_t" where
  "udata_hdr up = (fetobe_hdr lmonp_febe_usrdata 0 0)\<lparr>usr_payload_length := of_nat (length up)\<rparr>"

definition pieces :: "byte list \<Rightarrow> byte list list" where
  "pieces up = (if up = [] then [] else [up])"

text \<open>The value of \<open>udata\<close> afterwards.\<close>

definition unpacked :: "byte list \<Rightarrow> 'u be_data \<Rightarrow> 'u" where
  "unpacked up s = (case be_unpack s of None \<Rightarrow> be_user s | Some f \<Rightarrow> if up = [] then be_user s else snd (f up (be_user s)))"

lemma recv_udata_ok:
  assumes "ready (be_link s) (enc_hdr (udata_hdr up) # pieces up @ ins) outs" and "length old = 28"
    and "length up < 2 ^ 31" and "up \<noteq> [] \<longrightarrow> be_unpack s \<noteq> None" and "\<And>k. length (junk k) = k"
  shows "\<exists>l. recv_udata junk old s = (Inr (Inr ()), s\<lparr>be_link := l, be_user := unpacked up s\<rparr>) \<and> ready l ins outs \<and>
     lk_sent l = lk_sent (be_link s)"
proof -
  have t: "has_type (enc_hdr (udata_hdr up)) lmonp_febe_usrdata"
    by (subst has_type_enc [of _ lmonp_febe_usrdata]) (simp_all add: udata_hdr_def fetobe_hdr_fields)
  have u: "usr_payload_length (udata_hdr up) = of_nat (length up)" by (simp add: udata_hdr_def)
  have s: "sint (of_nat (length up) :: u32) = int (length up)" "unat (of_nat (length up) :: u32) = length up"
    using sint_of_nat32 [OF assms(3)] assms(3) by (simp, subst unat_of_nat, simp)
  obtain l where l: "on_link (lk_read_hdr old) s = (Inr (28, enc_hdr (udata_hdr up)), s\<lparr>be_link := l\<rparr>)"
     "ready l (pieces up @ ins) outs" "lk_sent l = lk_sent (be_link s)" using recv_hdr_ok [OF assms(1,2)] by blast
  show ?thesis
  proof (cases "up = []")
    case True
    have v: "unpacked [] s = be_user s" by (simp add: unpacked_def split: option.split)
    show ?thesis using l t u True by (intro exI [of _ l]) (simp add: v pieces_def recv_udata_def bindA_def ret_def)
  next
    case False
    then obtain f where f: "be_unpack s = Some f" using assms(4) by auto
    have "ready l (up # ins) outs" using l(2) False by (simp add: pieces_def)
    then obtain k where k: "lk_read_payload (junk (length up)) (int (length up)) l = (Inr (int (length up), up), k)"
      "ready k ins outs" "lk_sent k = lk_sent l"
      using lk.body [OF _ False refl assms(5)] by blast
    have "on_link (lk_read_payload (junk (length up)) (int (length up))) (s\<lparr>be_link := l\<rparr>) =
        (Inr (int (length up), up), s\<lparr>be_link := k\<rparr>)"
      using k(1) by (simp add: on_link_def zoomA_def)
    then have "recv_udata junk old s = (Inr (Inr ()), s\<lparr>be_link := k, be_user := unpacked up s\<rparr>)"
      using l(1) t False f by (simp add: recv_udata_def bindA_def ret_def u s Let_def unpacked_def)
    then show ?thesis using k l(3) by (intro exI [of _ k]) simp
  qed
qed

text \<open>What the front end sends in a handshake, and what the master then holds.\<close>

definition fe_sends :: "lmonp_t \<Rightarrow> byte list \<Rightarrow> lmonp_fe_to_be_msg_e \<Rightarrow> u16 \<Rightarrow> byte list \<Rightarrow> byte list list" where
  "fe_sends h p ty c up = [enc_hdr h, p, enc_hdr (fetobe_hdr ty 0 0), enc_hdr (fetobe_hdr lmonp_febe_rm_type c 0),
     enc_hdr (udata_hdr up)] @ pieces up"

definition told :: "lmonp_t \<Rightarrow> byte list \<Rightarrow> u32 \<Rightarrow> u16 \<Rightarrow> byte list \<Rightarrow> link \<Rightarrow> 'u be_data \<Rightarrow> 'u be_data" where
  "told h p m c up l s = s\<lparr>be_launch := m, be_rmtype := ucast c, be_msg := Some (enc_hdr h @ p),
     be_msg_size := of_nat (28 + length p), be_user := unpacked up s, be_link := l\<rparr>"

lemma told_fields [simp]:
  "be_launch (told h p m c up l s) = m" "be_rmtype (told h p m c up l s) = ucast c"
  "be_msg (told h p m c up l s) = Some (enc_hdr h @ p)" "be_msg_size (told h p m c up l s) = of_nat (28 + length p)"
  "be_user (told h p m c up l s) = unpacked up s" "be_link (told h p m c up l s) = l" "be_rank (told h p m c up l s) = be_rank s"
  "be_cache (told h p m c up l s) = be_cache s" "be_aliases (told h p m c up l s) = be_aliases s"
  "be_tasks (told h p m c up l s) = be_tasks s"
  by (simp_all add: told_def)

lemma master_exchange_ok:
  assumes hs: "wf_hosts hs" "be_width s = int (length hs)" "gathered_names buf (length hs) = Some hs"
    and ready: "ready (be_link s) (fe_sends h p ty c up) ((28 + length (hosts_payload hs)) # outs)"
    and h: "wf_msg h p" "0 < lmon_payload_length h" "msgtype h = of_nat (fetobe_code lmonp_febe_proctab)"
    and m: "mode_of ty = Some m" and junk: "\<And>k. length (junk k) = k"
    and up: "length up < 2 ^ 31" "up \<noteq> [] \<longrightarrow> be_unpack s \<noteq> None"
  shows "\<exists>l. master_exchange junk buf s = (Inr (Inr ()), told h p m c up l s) \<and> ready l [] outs \<and>
     lk_sent l = lk_sent (be_link s) @ enc_hdr (hosts_hdr hs) @ hosts_payload hs"
proof -
  let ?s2 = "\<lambda>l. s\<lparr>be_msg_size := of_nat (28 + length p), be_link := l, be_msg := Some (enc_hdr h @ p)\<rparr>"
  let ?r = "s\<lparr>be_msg_size := of_nat (28 + length p), be_msg := Some (enc_hdr h @ p)\<rparr>"
  let ?s3 = "\<lambda>l. ?r\<lparr>be_link := l, be_launch := m\<rparr>" and ?s4 = "\<lambda>l. ?r\<lparr>be_launch := m, be_link := l, be_rmtype := ucast c\<rparr>"
  let ?s5 = "\<lambda>l. ?r\<lparr>be_launch := m, be_rmtype := ucast c, be_link := l, be_user := unpacked up s\<rparr>"
  have o: "ready l (fe_sends h p ty c up) outs \<Longrightarrow> ready l (enc_hdr h # p # enc_hdr (fetobe_hdr ty 0 0) #
      enc_hdr (fetobe_hdr lmonp_febe_rm_type c 0) # enc_hdr (udata_hdr up) # pieces up @ []) outs" for l
    by (simp add: fe_sends_def)
  obtain l1 where 1: "ship_hostnames buf s = (Inr (Inr ()), s\<lparr>be_link := l1\<rparr>)" "ready l1 (fe_sends h p ty c up) outs"
    "lk_sent l1 = lk_sent (be_link s) @ enc_hdr (hosts_hdr hs) @ hosts_payload hs"
    using ship_hostnames_ok [OF hs ready] by blast
  obtain l2 where 2: "recv_proctab junk (s\<lparr>be_link := l1\<rparr>) = (Inr (Inr (enc_hdr h)), ?s2 l2)"
    "ready l2 (enc_hdr (fetobe_hdr ty 0 0) # enc_hdr (fetobe_hdr lmonp_febe_rm_type c 0) # enc_hdr (udata_hdr up) # pieces up @ []) outs"
    "lk_sent l2 = lk_sent l1"
    using recv_proctab_ok [OF _ h junk, of "s\<lparr>be_link := l1\<rparr>"] o [OF 1(2)] by auto
  obtain l3 where 3: "recv_mode (enc_hdr h) (?s2 l2) = (Inr (Inr (enc_hdr (fetobe_hdr ty 0 0))), ?s3 l3)"
    "ready l3 (enc_hdr (fetobe_hdr lmonp_febe_rm_type c 0) # enc_hdr (udata_hdr up) # pieces up @ []) outs" "lk_sent l3 = lk_sent l2"
    using recv_mode_ok [of "?s2 l2", OF _ _ m, of _ outs "enc_hdr h"] 2(2) by auto
  obtain l4 where 4: "recv_rmtype (enc_hdr (fetobe_hdr ty 0 0)) (?s3 l3) =
      (Inr (Inr (enc_hdr (fetobe_hdr lmonp_febe_rm_type c 0))), ?s4 l4)"
    "ready l4 (enc_hdr (udata_hdr up) # pieces up @ []) outs" "lk_sent l4 = lk_sent l3"
    using recv_rmtype_ok [of "?s3 l3" c _ outs "enc_hdr (fetobe_hdr ty 0 0)"] 3(2) by auto
  obtain l5 where 5: "recv_udata junk (enc_hdr (fetobe_hdr lmonp_febe_rm_type c 0)) (?s4 l4) =
      (Inr (Inr ()), ?s5 l5)" "ready l5 [] outs" "lk_sent l5 = lk_sent l4"
  proof -
    have v: "unpacked up (?s4 l4) = unpacked up s" by (simp add: unpacked_def split: option.split)
    have "\<exists>l. recv_udata junk (enc_hdr (fetobe_hdr lmonp_febe_rm_type c 0)) (?s4 l4) =
        (Inr (Inr ()), (?s4 l4)\<lparr>be_link := l, be_user := unpacked up (?s4 l4)\<rparr>) \<and> ready l [] outs \<and>
        lk_sent l = lk_sent (be_link (?s4 l4))"
      by (rule recv_udata_ok) (use 4(2) up junk in simp_all)
    then obtain l where "recv_udata junk (enc_hdr (fetobe_hdr lmonp_febe_rm_type c 0)) (?s4 l4) =
        (Inr (Inr ()), (?s4 l4)\<lparr>be_link := l, be_user := unpacked up (?s4 l4)\<rparr>)" "ready l [] outs"
        "lk_sent l = lk_sent (be_link (?s4 l4))" by (elim exE conjE)
    then show ?thesis unfolding v by (intro that [of l]) simp_all
  qed
  have "?s5 l5 = told h p m c up l5 s"
    by (rule be_data.equality) (simp_all add: told_def unpacked_def)
  then have "master_exchange junk buf s = (Inr (Inr ()), told h p m c up l5 s)"
    by (simp only: master_exchange_def stepA_run [of "ship_hostnames buf" s, OF 1(1)]
      stepA_run [of "recv_proctab junk" "s\<lparr>be_link := l1\<rparr>", OF 2(1)] stepA_run [of "recv_mode (enc_hdr h)" "?s2 l2", OF 3(1)]
      stepA_run [of "recv_rmtype (enc_hdr (fetobe_hdr ty 0 0))" "?s3 l3", OF 4(1)] 5(1))
  then show ?thesis using 1(3) 2(3) 3(3) 4(3) 5(2,3) by (intro exI [of _ l5]) simp
qed

section \<open>All the daemons\<close>

definition reaches :: "'r net \<Rightarrow> 'r net \<Rightarrow> bool" where
  "reaches s t \<longleftrightarrow> (\<exists>j. nsteps j s t)"

lemma reaches_trans: "reaches s t \<Longrightarrow> reaches t u \<Longrightarrow> reaches s u"
  unfolding reaches_def using nsteps_trans by blast

lemma spmd_cong: "(\<And>x. x < n \<Longrightarrow> p x = q x) \<Longrightarrow> spmd n p d = spmd n q d"
  by (auto simp: spmd_def fun_eq_iff)

text \<open>The collective calls of the interface, on all ranks at once.\<close>

lemma be_gather_reaches:
  assumes "\<And>x. x < n \<Longrightarrow> p x = be_gather (tree_of n x) (S x) (sb x) sc (rb x) (K x)"
    and "\<And>x. x < n \<Longrightarrow> length (sb x) = sc" and "length (rb 0) = n * sc" and "0 < n"
  shows "reaches (spmd n p d) (spmd n (\<lambda>x. K x LMON_OK (if x = 0 then concat (map sb [0..<n]) else rb x)) d)"
proof -
  have "overlay (data_of n sb 0) (rb 0) = concat (map sb [0..<n])"
    using assms(2-4) by (simp add: data_of_root length_concat_const overlay_def)
  then have e: "(if x \<noteq> 0 then rb x else overlay (data_of n sb 0) (rb 0)) = (if x = 0 then concat (map sb [0..<n]) else rb x)" for x
    by simp
  have "\<exists>j. nsteps j (spmd n p d) (spmd n (\<lambda>x. K x LMON_OK (if x \<noteq> 0 then rb x else overlay (data_of n sb 0) (rb 0))) d)"
    by (rule gather_steps [where K = "\<lambda>x. K x LMON_OK"])
      (use assms in \<open>simp_all add: be_gather_def daemon_internal_gather_def cobo_gather_def LMON_DAEMON_MASTER_def subcom_def\<close>)
  then show ?thesis by (simp only: e reaches_def)
qed

lemma bcast_into_reaches:
  assumes "\<And>x. x < n \<Longrightarrow> p x = bcast_into (tree_of n x) get put sz (S x) (K x)"
    and "\<And>x. x < n \<Longrightarrow> length (get (S x)) = sz" and "0 < n"
  shows "reaches (spmd n p d) (spmd n (\<lambda>x. K x (put (get (S 0)) (S x))) d)"
proof -
  have "\<exists>j. nsteps j (spmd n p d)
      (spmd n (\<lambda>x. K x (put (if x = 0 then get (S 0) else overlay (take sz (get (S 0))) (get (S x))) (S x))) d)"
    by (rule bcast_steps [where buf = "\<lambda>x. get (S x)" and K = "\<lambda>x b. K x (put b (S x))"])
      (use assms in \<open>simp_all add: bcast_into_def be_broadcast_def daemon_internal_broadcast_def cobo_bcast_def
        LMON_DAEMON_MASTER_def subcom_def\<close>)
  moreover have "spmd n (\<lambda>x. K x (put (if x = 0 then get (S 0) else overlay (take sz (get (S 0))) (get (S x))) (S x))) d =
      spmd n (\<lambda>x. K x (put (get (S 0)) (S x))) d"
    by (rule spmd_cong) (use assms(2,3) in \<open>simp add: overlay_def\<close>)
  ultimately show ?thesis by (simp only: reaches_def)
qed

lemma be_barrier_reaches:
  assumes "\<And>x. x < n \<Longrightarrow> p x = be_barrier (tree_of n x) (K x)"
  shows "reaches (spmd n p d) (spmd n (\<lambda>x. K x LMON_OK) d)"
proof -
  have "\<exists>j. nsteps j (spmd n p d) (spmd n (\<lambda>x. (\<lambda>_. K x LMON_OK) (vmax n (\<lambda>_. 1) 0)) d)"
    by (rule allreduce_steps [where v = "\<lambda>_. 1" and r = "\<lambda>_. 0" and K = "\<lambda>x _. K x LMON_OK"])
      (use assms in \<open>simp add: be_barrier_def daemon_internal_barrier_def cobo_barrier_def cobo_allreduce_max_int_def subcom_def\<close>)
  then show ?thesis by (simp add: reaches_def)
qed

lemma then_barrier_reaches:
  assumes "\<And>x. x < n \<Longrightarrow> p x = then_barrier (tree_of n x) (S x)"
  shows "reaches (spmd n p d) (spmd n (\<lambda>x. Done (Inr LMON_OK, S x)) d)"
  using be_barrier_reaches [where p = p and K = "\<lambda>x rc. Done (Inr (if rc \<noteq> LMON_OK then LMON_ESUBCOM else LMON_OK), S x)"] assms
  by (simp add: then_barrier_def)

text \<open>After the broadcasts every daemon has the master's values.\<close>

definition common :: "'u be_data \<Rightarrow> 'u be_data \<Rightarrow> 'u be_data" where
  "common s0 s = s\<lparr>be_launch := be_launch s0, be_rmtype := be_rmtype s0, be_msg_size := be_msg_size s0, be_msg := be_msg s0\<rparr>"

lemma common_fields [simp]:
  "be_launch (common s0 s) = be_launch s0" "be_rmtype (common s0 s) = be_rmtype s0" "be_msg_size (common s0 s) = be_msg_size s0"
  "be_msg (common s0 s) = be_msg s0" "be_rank (common s0 s) = be_rank s" "be_cache (common s0 s) = be_cache s"
  "be_aliases (common s0 s) = be_aliases s" "be_tasks (common s0 s) = be_tasks s" "be_link (common s0 s) = be_link s"
  "be_user (common s0 s) = be_user s" "be_hostname (common s0 s) = be_hostname s"
  by (simp_all add: common_def)

lemma share_job_reaches:
  assumes n: "0 < n" and p: "\<And>x. x < n \<Longrightarrow> p x = share_job (tree_of n x) junk (S x)"
    and rank: "\<And>x. x < n \<Longrightarrow> be_rank (S x) = int x" and M: "be_msg (S 0) = Some M" "be_msg_size (S 0) = of_nat (length M)"
    and len: "length M < 2 ^ 31" and junk: "\<And>k. length (junk k) = k"
  shows "reaches (spmd n p d) (spmd n (\<lambda>x. sync_tasks (tree_of n x) (common (S 0) (S x))) d)"
proof -
  let ?get1 = "\<lambda>s. enc32 (be_launch s)" and ?put1 = "\<lambda>b s. s\<lparr>be_launch := dec32 b\<rparr>"
  let ?get2 = "\<lambda>s. enc32 (be_rmtype s)" and ?put2 = "\<lambda>b s. s\<lparr>be_rmtype := dec32 b\<rparr>"
  let ?get3 = "\<lambda>s. enc32 (be_msg_size s)" and ?put3 = "\<lambda>b s. s\<lparr>be_msg_size := dec32 b\<rparr>"
  define S1 where "S1 = (\<lambda>x. (S x)\<lparr>be_launch := be_launch (S 0)\<rparr>)"
  define S2 where "S2 = (\<lambda>x. (S1 x)\<lparr>be_rmtype := be_rmtype (S 0)\<rparr>)"
  define S3 where "S3 = (\<lambda>x. (S2 x)\<lparr>be_msg_size := be_msg_size (S 0)\<rparr>)"
  define S4 where "S4 = (\<lambda>x. if x = 0 then S3 x else (S3 x)\<lparr>be_msg := Some (junk (length M))\<rparr>)"
  note d = S1_def S2_def S3_def S4_def
  let ?k4 = "\<lambda>x s. bcast_into (tree_of n x) msg_buffer (\<lambda>b s. s\<lparr>be_msg := Some b\<rparr>) (nat (sint (be_msg_size s))) s
      (sync_tasks (tree_of n x))"
  let ?k3 = "\<lambda>x s. act_then (slave_buffer junk) s (\<lambda>_ s. ?k4 x s)"
  let ?k2 = "\<lambda>x s. bcast_into (tree_of n x) ?get3 ?put3 4 s (?k3 x)"
  let ?k1 = "\<lambda>x s. bcast_into (tree_of n x) ?get2 ?put2 4 s (?k2 x)"
  have 1: "reaches (spmd n p d) (spmd n (\<lambda>x. ?k1 x (S1 x)) d)"
    using bcast_into_reaches [where p = p and get = ?get1 and put = ?put1 and sz = 4 and S = S and K = ?k1 and n = n and d = d] n
    by (simp add: p share_job_def S1_def)
  have 2: "reaches (spmd n (\<lambda>x. ?k1 x (S1 x)) d) (spmd n (\<lambda>x. ?k2 x (S2 x)) d)"
    using bcast_into_reaches [where p = "\<lambda>x. ?k1 x (S1 x)" and get = ?get2 and put = ?put2 and sz = 4 and S = S1 and K = ?k2 and n = n and d = d] n
    by (simp add: S2_def) (simp add: S1_def)
  have 3: "reaches (spmd n (\<lambda>x. ?k2 x (S2 x)) d) (spmd n (\<lambda>x. ?k3 x (S3 x)) d)"
    using bcast_into_reaches [where p = "\<lambda>x. ?k2 x (S2 x)" and get = ?get3 and put = ?put3 and sz = 4 and S = S2 and K = ?k3 and n = n and d = d] n
    by (simp add: S3_def) (simp add: d)
  have sz: "nat (sint (of_nat (length M) :: u32)) = length M" "\<not> sint (of_nat (length M) :: u32) < 0"
    using sint_of_nat32 [OF len] by simp_all
  have "?k3 x (S3 x) = ?k4 x (S4 x)" if "x < n" for x
    using that rank sz by (cases "x = 0")
      (simp_all add: act_then_def slave_buffer_def is_master_def LMON_DAEMON_MASTER_def ret_def d M(2))
  then have 4: "spmd n (\<lambda>x. ?k3 x (S3 x)) d = spmd n (\<lambda>x. ?k4 x (S4 x)) d" by (rule spmd_cong)
  have "reaches (spmd n (\<lambda>x. ?k4 x (S4 x)) d)
      (spmd n (\<lambda>x. sync_tasks (tree_of n x) ((S4 x)\<lparr>be_msg := Some (msg_buffer (S4 0))\<rparr>)) d)"
    by (rule bcast_into_reaches [where get = msg_buffer and sz = "length M"])
      (use n junk sz in \<open>simp_all add: d M msg_buffer_def\<close>)
  moreover have "(S4 x)\<lparr>be_msg := Some (msg_buffer (S4 0))\<rparr> = common (S 0) (S x)" for x
    by (rule be_data.equality) (simp_all add: d common_def msg_buffer_def M)
  ultimately have 5: "reaches (spmd n (\<lambda>x. ?k3 x (S3 x)) d) (spmd n (\<lambda>x. sync_tasks (tree_of n x) (common (S 0) (S x))) d)"
    by (simp only: 4)
  show ?thesis by (rule reaches_trans [OF 1 reaches_trans [OF 2 reaches_trans [OF 3 5]]])
qed

section \<open>Each daemon and its tasks\<close>

lemma own_tasks_parsed:
  assumes "be_msg s = Some M" and "be_cache s = []" and "parse_raw_RPDTAB_msg (Some M) [] = Inr (0, tab)" and "tab \<noteq> []"
  shows "own_tasks s = (Inr (Inr (first_alias (be_aliases s) tab, int (length (first_alias (be_aliases s) tab)))),
    s\<lparr>be_cache := tab\<rparr>)"
  using assms
  by (simp add: own_tasks_def be_getMyProctabSize_def be_getMyProctab_def stepA_def bindA_def fill_cache_def ret_def Let_def)

definition held :: "u32 \<Rightarrow> MPIR_PROCDESC_EXT list \<Rightarrow> task_os \<Rightarrow> task_os \<Rightarrow> bool" where
  "held m es s v \<longleftrightarrow> (\<forall>k. task_after (os_log v) k =
     (if k \<in> set (pids_of es) then (False, dontstop_of m = 0) else task_after (os_log s) k))"

lemma sync_ok:
  fixes s :: "'u be_data"
  assumes M: "be_msg s = Some M" "be_cache s = []" "parse_raw_RPDTAB_msg (Some M) [] = Inr (0, tab)" "tab \<noteq> []"
    and es: "es = first_alias (be_aliases s) tab" and rm: "rm_case (rm_of (be_rmtype s)) = Ptrace_rm \<or> rm_case (rm_of (be_rmtype s)) = Generic_rm"
    and os: "serves (be_tasks s) (2 * length es)" "\<forall>k. \<not> fst (task_after (os_log (be_tasks s)) k)"
  shows "\<exists>t v. sync_begin s = (Inr (Inr (es, int (length es))), s\<lparr>be_cache := tab, be_tasks := t\<rparr>) \<and>
     (\<forall>s' :: 'u be_data. be_tasks s' = t \<and> be_rmtype s' = be_rmtype s \<and> be_launch s' = be_launch s \<longrightarrow>
        sync_end es (int (length es)) s' = (Inr (Inr ()), s'\<lparr>be_tasks := v\<rparr>)) \<and> held (be_launch s) es (be_tasks s) v"
proof -
  let ?m = "rm_of (be_rmtype s)" and ?il = "islaunch_of (be_launch s)" and ?ds = "dontstop_of (be_launch s)"
  let ?n = "int (length es)"
  have il: "?il = 0 \<or> ?il = 1" by (simp add: islaunch_of_def)
  have ds: "?ds = 0 \<or> ?ds = 1" by (simp add: dontstop_of_def)
  obtain t u where tu: "procctl_init ?m es ?il ?n ?ds (be_tasks s) = (Inr LMON_OK, t)"
      "procctl_initdone ?m es ?il ?n t = (Inr LMON_OK, u)" "\<forall>i. os_ok u i"
      "\<forall>k. task_after (os_log u) k = (if k \<in> set (pids_of es) then (False, True) else task_after (os_log (be_tasks s)) k)"
    using tasks_stopped [OF rm il os] by blast
  have b: "sync_begin s = (Inr (Inr (es, ?n)), s\<lparr>be_cache := tab, be_tasks := t\<rparr>)"
    using tu(1)
    by (simp add: sync_begin_def stepA_def bindA_def own_tasks_parsed [OF M] es [symmetric] on_tasks_def zoomA_def need_def ret_def)
  show ?thesis
  proof (cases "?ds = 1")
    case True
    have "\<forall>k. \<not> fst (task_after (os_log u) k)" using tu(4) os(2) by simp
    then obtain v where v: "procctl_run ?m 0 es ?n u = (Inr LMON_OK, v)"
      "\<forall>k. task_after (os_log v) k = (if k \<in> set (pids_of es) then (False, False) else task_after (os_log u) k)"
      using tasks_run [OF rm tu(3), of es] by blast
    have "held (be_launch s) es (be_tasks s) v" using v(2) tu(4) True by (simp add: held_def)
    moreover have "sync_end es ?n s' = (Inr (Inr ()), s'\<lparr>be_tasks := v\<rparr>)"
      if "be_tasks s' = t \<and> be_rmtype s' = be_rmtype s \<and> be_launch s' = be_launch s" for s'
      using that tu(2) v(1) True by (simp add: sync_end_def stepA_def bindA_def on_tasks_def zoomA_def need_def ret_def)
    ultimately show ?thesis using b by blast
  next
    case False
    then have "held (be_launch s) es (be_tasks s) u" using tu(4) ds by (simp add: held_def)
    moreover have "sync_end es ?n s' = (Inr (Inr ()), s'\<lparr>be_tasks := u\<rparr>)"
      if "be_tasks s' = t \<and> be_rmtype s' = be_rmtype s \<and> be_launch s' = be_launch s" for s'
      using that tu(2) False by (simp add: sync_end_def stepA_def bindA_def on_tasks_def zoomA_def need_def ret_def)
    ultimately show ?thesis using b by blast
  qed
qed

text \<open>The whole of the second half. \<open>done_with\<close> is what a daemon ends with.\<close>

definition done_with :: "proctable \<Rightarrow> task_os \<Rightarrow> link \<Rightarrow> 'u be_data \<Rightarrow> 'u be_data" where
  "done_with tab v l s = s\<lparr>be_cache := tab, be_link := l, be_tasks := v\<rparr>"

lemma sync_tasks_reaches:
  fixes S :: "nat \<Rightarrow> 'u be_data"
  assumes n: "0 < n" and p: "\<And>x. x < n \<Longrightarrow> p x = sync_tasks (tree_of n x) (S x)"
    and rank: "\<And>x. x < n \<Longrightarrow> be_rank (S x) = int x"
    and M: "\<And>x. x < n \<Longrightarrow> be_msg (S x) = Some M \<and> be_cache (S x) = []" "parse_raw_RPDTAB_msg (Some M) [] = Inr (0, tab)" "tab \<noteq> []"
    and rm: "\<And>x. x < n \<Longrightarrow> rm_case (rm_of (be_rmtype (S x))) = Ptrace_rm \<or> rm_case (rm_of (be_rmtype (S x))) = Generic_rm"
    and os: "\<And>x. x < n \<Longrightarrow> serves (be_tasks (S x)) (2 * length (first_alias (be_aliases (S x)) tab)) \<and>
        (\<forall>k. \<not> fst (task_after (os_log (be_tasks (S x))) k))"
    and link: "ready (be_link (S 0)) [] [28]"
  shows "\<exists>v l. reaches (spmd n p d) (spmd n (\<lambda>x. Done (Inr LMON_OK, done_with tab (v x) (if x = 0 then l else be_link (S x)) (S x))) d) \<and>
     (\<forall>x<n. held (be_launch (S x)) (first_alias (be_aliases (S x)) tab) (be_tasks (S x)) (v x)) \<and>
     lk_sent l = lk_sent (be_link (S 0)) @ enc_hdr (fetobe_hdr lmonp_befe_cont_launch_bp 0 0)"
proof -
  let ?es = "\<lambda>x. first_alias (be_aliases (S x)) tab"
  define Q where "Q x t v \<longleftrightarrow> sync_begin (S x) = (Inr (Inr (?es x, int (length (?es x)))), (S x)\<lparr>be_cache := tab, be_tasks := t\<rparr>) \<and>
     (\<forall>s' :: 'u be_data. be_tasks s' = t \<and> be_rmtype s' = be_rmtype (S x) \<and> be_launch s' = be_launch (S x) \<longrightarrow>
        sync_end (?es x) (int (length (?es x))) s' = (Inr (Inr ()), s'\<lparr>be_tasks := v\<rparr>)) \<and>
     held (be_launch (S x)) (?es x) (be_tasks (S x)) v" for x t v
  have "\<exists>t v. Q x t v" if x: "x < n" for x
    unfolding Q_def
    by (rule sync_ok [OF conjunct1 [OF M(1) [OF x]] conjunct2 [OF M(1) [OF x]] M(2,3) refl rm [OF x]
      conjunct1 [OF os [OF x]] conjunct2 [OF os [OF x]]])
  then obtain t v where Q: "\<And>x. x < n \<Longrightarrow> Q x (t x) (v x)" by metis
  note Q = Q [unfolded Q_def]
  have tv1: "sync_begin (S x) = (Inr (Inr (?es x, int (length (?es x)))), (S x)\<lparr>be_cache := tab, be_tasks := t x\<rparr>)"
    if "x < n" for x by (rule conjunct1 [OF Q [OF that]])
  have tv2: "sync_end (?es x) (int (length (?es x))) s' = (Inr (Inr ()), s'\<lparr>be_tasks := v x\<rparr>)"
    if "x < n" "be_tasks s' = t x" "be_rmtype s' = be_rmtype (S x)" "be_launch s' = be_launch (S x)" for x and s' :: "'u be_data"
    using conjunct1 [OF conjunct2 [OF Q [OF that(1)]]] that(2-4) by simp
  have tv3: "held (be_launch (S x)) (?es x) (be_tasks (S x)) (v x)" if "x < n" for x
    by (rule conjunct2 [OF conjunct2 [OF Q [OF that]]])
  have "\<exists>l. lk_write (enc_hdr (fetobe_hdr lmonp_befe_cont_launch_bp 0 0)) 28 (be_link (S 0)) = (Inr 28, l) \<and> ready l [] [] \<and>
      lk_sent l = lk_sent (be_link (S 0)) @ enc_hdr (fetobe_hdr lmonp_befe_cont_launch_bp 0 0)"
    by (rule lk.put_short [OF link short_msg])
  then obtain l where l: "lk_write (enc_hdr (fetobe_hdr lmonp_befe_cont_launch_bp 0 0)) 28 (be_link (S 0)) = (Inr 28, l)"
    "lk_sent l = lk_sent (be_link (S 0)) @ enc_hdr (fetobe_hdr lmonp_befe_cont_launch_bp 0 0)" by (elim exE conjE) (rule that)
  let ?T = "\<lambda>x. (S x)\<lparr>be_cache := tab, be_tasks := t x\<rparr>"
  let ?k = "\<lambda>x. act_then (stepA (master_only say_cont_launch) (\<lambda>_. sync_end (?es x) (int (length (?es x))))) (?T x)
      (\<lambda>_ s. then_barrier (tree_of n x) s)"
  have A: "reaches (spmd n p d) (spmd n (\<lambda>x. ?k x) d)"
    by (rule be_barrier_reaches [where K = "\<lambda>x _. ?k x"]) (simp add: p sync_tasks_def act_then_def tv1)
  have "?k x = then_barrier (tree_of n x) (done_with tab (v x) (if x = 0 then l else be_link (S x)) (S x))" if x: "x < n" for x
  proof (cases "x = 0")
    case True
    have r: "be_rank (S 0) = 0" using rank [OF n] by simp
    have "master_only say_cont_launch (?T 0) = (Inr (Inr ()), (?T 0)\<lparr>be_link := l\<rparr>)"
      using l(1) r by (simp add: master_only_def is_master_def LMON_DAEMON_MASTER_def say_cont_launch_def bindA_def on_link_def
        zoomA_def lmonp_size_def ret_def)
    moreover have "sync_end (?es 0) (int (length (?es 0))) ((?T 0)\<lparr>be_link := l\<rparr>) =
        (Inr (Inr ()), ((?T 0)\<lparr>be_link := l\<rparr>)\<lparr>be_tasks := v 0\<rparr>)"
      by (rule tv2) (use n in simp_all)
    moreover have "((?T 0)\<lparr>be_link := l\<rparr>)\<lparr>be_tasks := v 0\<rparr> = done_with tab (v 0) l (S 0)"
      by (rule be_data.equality) (simp_all add: done_with_def)
    ultimately show ?thesis using True by (simp add: act_then_def stepA_def bindA_def)
  next
    case False
    have "master_only say_cont_launch (?T x) = (Inr (Inr ()), ?T x)"
      using False rank [OF x] by (simp add: master_only_def is_master_def LMON_DAEMON_MASTER_def)
    moreover have "sync_end (?es x) (int (length (?es x))) (?T x) = (Inr (Inr ()), (?T x)\<lparr>be_tasks := v x\<rparr>)"
      by (rule tv2 [OF x]) simp_all
    moreover have "(?T x)\<lparr>be_tasks := v x\<rparr> = done_with tab (v x) (be_link (S x)) (S x)"
      by (rule be_data.equality) (simp_all add: done_with_def)
    ultimately show ?thesis using False by (simp add: act_then_def stepA_def bindA_def)
  qed
  then have E: "spmd n (\<lambda>x. ?k x) d = spmd n (\<lambda>x. then_barrier (tree_of n x) (done_with tab (v x) (if x = 0 then l else be_link (S x)) (S x))) d"
    by (rule spmd_cong)
  have B: "reaches (spmd n (\<lambda>x. then_barrier (tree_of n x) (done_with tab (v x) (if x = 0 then l else be_link (S x)) (S x))) d)
      (spmd n (\<lambda>x. Done (Inr LMON_OK, done_with tab (v x) (if x = 0 then l else be_link (S x)) (S x))) d)"
    by (rule then_barrier_reaches) simp
  have "reaches (spmd n p d) (spmd n (\<lambda>x. Done (Inr LMON_OK, done_with tab (v x) (if x = 0 then l else be_link (S x)) (S x))) d)"
    using A B unfolding E by (rule reaches_trans)
  then show ?thesis using tv3 l(2) by (intro exI [of _ v] exI [of _ l]) simp
qed

section \<open>The whole handshake\<close>

lemma handshake_reaches:
  fixes S :: "nat \<Rightarrow> 'u be_data"
  assumes n: "0 < n" and hs: "hs = map (\<lambda>x. be_hostname (S x)) [0..<n]" and wf: "wf_hosts hs"
    and st: "\<And>x. x < n \<Longrightarrow> be_rank (S x) = int x \<and> be_width (S x) = int n \<and> be_cache (S x) = [] \<and>
        length (be_hostname (S x)) < LMON_DAEMON_HN_MAX"
    and link: "ready (be_link (S 0)) (fe_sends h p ty c up) [28 + length (hosts_payload hs), 28]"
    and h: "wf_msg h p" "0 < lmon_payload_length h" "msgtype h = of_nat (fetobe_code lmonp_febe_proctab)"
    and tab: "parse_raw_RPDTAB_msg (Some (enc_hdr h @ p)) [] = Inr (0, tab)" "tab \<noteq> []"
    and m: "mode_of ty = Some m" and rm: "rm_case (rm_of (ucast c)) = Ptrace_rm \<or> rm_case (rm_of (ucast c)) = Generic_rm"
    and up: "length up < 2 ^ 31" "up \<noteq> [] \<longrightarrow> be_unpack (S 0) \<noteq> None" and junk: "\<And>k. length (junk k) = k"
    and os: "\<And>x. x < n \<Longrightarrow> serves (be_tasks (S x)) (2 * length (first_alias (be_aliases (S x)) tab)) \<and>
        (\<forall>k. \<not> fst (task_after (os_log (be_tasks (S x))) k))"
  shows "\<exists>u. reaches (spmd n (\<lambda>x. be_handshake (tree_of n x) junk (S x)) d) (spmd n (\<lambda>x. Done (Inr LMON_OK, u x)) d) \<and>
    (\<forall>x<n. be_launch (u x) = m \<and> be_rmtype (u x) = ucast c \<and> be_msg (u x) = Some (enc_hdr h @ p) \<and> be_cache (u x) = tab \<and>
      held m (first_alias (be_aliases (S x)) tab) (be_tasks (S x)) (be_tasks (u x)) \<and>
      be_user (u x) = (if x = 0 then unpacked up (S 0) else be_user (S x))) \<and>
    lk_sent (be_link (u 0)) = lk_sent (be_link (S 0)) @ enc_hdr (hosts_hdr hs) @ hosts_payload hs @
      enc_hdr (fetobe_hdr lmonp_befe_cont_launch_bp 0 0)"
proof -
  let ?buf = "concat (map (\<lambda>x. hn_bytes (be_hostname (S x))) [0..<n])"
  let ?M = "enc_hdr h @ p"
  have nf: "nul_free (be_hostname (S x))" if "x < n" for x using wf hs that by (auto simp: wf_hosts_def)
  have len: "length hs = n" by (simp add: hs)
  have hn: "length (hn_bytes (be_hostname (S x))) = LMON_DAEMON_HN_MAX" if "x < n" for x
    using read_hn_bytes(1) st [OF that] nf [OF that] by blast
  have g: "gathered_names ?buf (length hs) = Some hs"
    unfolding len unfolding hs by (rule gathered) (use st nf in blast)
  have s0: "be_width (S 0) = int (length hs)" "be_rank (S 0) = 0" using st [OF n] len by simp_all
  obtain l where l: "master_exchange junk ?buf (S 0) = (Inr (Inr ()), told h p m c up l (S 0))" "ready l [] [28]"
    "lk_sent l = lk_sent (be_link (S 0)) @ enc_hdr (hosts_hdr hs) @ hosts_payload hs"
    using master_exchange_ok [OF wf s0(1) g link h m junk up] by (elim exE conjE)
  define T where "T = (\<lambda>x. if x = 0 then told h p m c up l (S 0) else S x)"
  define C where "C = (\<lambda>x. common (T 0) (T x))"
  have T0: "T 0 = told h p m c up l (S 0)" by (simp add: T_def)
  let ?rb = "\<lambda>x. if is_master (S x) then junk (LMON_DAEMON_HN_MAX * nat (be_width (S x))) else []"
  let ?k = "\<lambda>x rc buf. if rc \<noteq> LMON_OK then Done (Inr LMON_ESUBCOM, S x)
      else act_then (master_only (master_exchange junk buf)) (S x) (\<lambda>_ s. share_job (tree_of n x) junk s)"
  have 1: "reaches (spmd n (\<lambda>x. be_handshake (tree_of n x) junk (S x)) d)
      (spmd n (\<lambda>x. ?k x LMON_OK (if x = 0 then ?buf else ?rb x)) d)"
    by (rule be_gather_reaches [where S = S and rb = ?rb and sc = LMON_DAEMON_HN_MAX and K = ?k])
      (use hn junk s0 len n in \<open>simp_all add: be_handshake_def is_master_def LMON_DAEMON_MASTER_def\<close>)
  have "?k x LMON_OK (if x = 0 then ?buf else ?rb x) = share_job (tree_of n x) junk (T x)" if x: "x < n" for x
  proof (cases "x = 0")
    case True
    then show ?thesis using l(1) s0(2) by (simp add: T_def act_then_def master_only_def is_master_def LMON_DAEMON_MASTER_def)
  next
    case False
    then show ?thesis using st [OF x] by (simp add: T_def act_then_def master_only_def is_master_def LMON_DAEMON_MASTER_def)
  qed
  then have e: "spmd n (\<lambda>x. ?k x LMON_OK (if x = 0 then ?buf else ?rb x)) d = spmd n (\<lambda>x. share_job (tree_of n x) junk (T x)) d"
    by (rule spmd_cong)
  have lM: "length ?M < 2 ^ 31" "length ?M = 28 + length p" using h(1) by (simp_all add: wf_msg_def lmonp_size_def)
  have 2: "reaches (spmd n (\<lambda>x. share_job (tree_of n x) junk (T x)) d) (spmd n (\<lambda>x. sync_tasks (tree_of n x) (C x)) d)"
    unfolding C_def
    by (rule share_job_reaches [where M = ?M, OF n]) (use st lM junk in \<open>simp_all add: T_def\<close>)
  have C: "be_rank (C x) = int x" "be_msg (C x) = Some ?M" "be_cache (C x) = []" "be_rmtype (C x) = ucast c" "be_launch (C x) = m"
    "be_aliases (C x) = be_aliases (S x)" "be_tasks (C x) = be_tasks (S x)"
    "be_user (C x) = (if x = 0 then unpacked up (S 0) else be_user (S x))" if "x < n" for x
    using st [OF that] st [OF n] by (auto simp: C_def T_def)
  have C0: "be_link (C 0) = l" by (simp add: C_def T_def)
  have "\<exists>v l'. reaches (spmd n (\<lambda>x. sync_tasks (tree_of n x) (C x)) d)
      (spmd n (\<lambda>x. Done (Inr LMON_OK, done_with tab (v x) (if x = 0 then l' else be_link (C x)) (C x))) d) \<and>
     (\<forall>x<n. held (be_launch (C x)) (first_alias (be_aliases (C x)) tab) (be_tasks (C x)) (v x)) \<and>
     lk_sent l' = lk_sent (be_link (C 0)) @ enc_hdr (fetobe_hdr lmonp_befe_cont_launch_bp 0 0)"
    by (rule sync_tasks_reaches [where M = ?M, OF n]) (use C rm os tab l(2) C0 in simp_all)
  then obtain v l' where v: "reaches (spmd n (\<lambda>x. sync_tasks (tree_of n x) (C x)) d)
      (spmd n (\<lambda>x. Done (Inr LMON_OK, done_with tab (v x) (if x = 0 then l' else be_link (C x)) (C x))) d)"
     "\<forall>x<n. held (be_launch (C x)) (first_alias (be_aliases (C x)) tab) (be_tasks (C x)) (v x)"
     "lk_sent l' = lk_sent (be_link (C 0)) @ enc_hdr (fetobe_hdr lmonp_befe_cont_launch_bp 0 0)"
    by (elim exE conjE)
  define u where "u = (\<lambda>x. done_with tab (v x) (if x = 0 then l' else be_link (C x)) (C x))"
  have "reaches (spmd n (\<lambda>x. be_handshake (tree_of n x) junk (S x)) d) (spmd n (\<lambda>x. Done (Inr LMON_OK, u x)) d)"
    unfolding u_def by (rule reaches_trans [OF 1 [unfolded e] reaches_trans [OF 2 v(1)]])
  moreover have "\<forall>x<n. be_launch (u x) = m \<and> be_rmtype (u x) = ucast c \<and> be_msg (u x) = Some ?M \<and> be_cache (u x) = tab \<and>
      held m (first_alias (be_aliases (S x)) tab) (be_tasks (S x)) (be_tasks (u x)) \<and>
      be_user (u x) = (if x = 0 then unpacked up (S 0) else be_user (S x))"
    using v(2) C by (simp add: u_def done_with_def)
  moreover have "lk_sent (be_link (u 0)) = lk_sent (be_link (S 0)) @ enc_hdr (hosts_hdr hs) @ hosts_payload hs @
      enc_hdr (fetobe_hdr lmonp_befe_cont_launch_bp 0 0)"
    using v(3) l(3) C0 by (simp add: u_def done_with_def)
  ultimately show ?thesis by (intro exI [of _ u] conjI)
qed

text \<open>The table message of the front end, and daemons that have just been initialised.\<close>

definition job_hdr :: "proctable \<Rightarrow> lmonp_t" where
  "job_hdr tab = febe_proctab_hdr (build_strtab (entries tab) strtab0) (length (entries tab))"

definition job_payload :: "proctable \<Rightarrow> byte list" where
  "job_payload tab = proctab_payload (build_strtab (entries tab) strtab0) (entries tab)"

lemma job_msg:
  assumes "wf_proctab tab pcount"
  shows "wf_msg (job_hdr tab) (job_payload tab)" "0 < lmon_payload_length (job_hdr tab)"
    "msgtype (job_hdr tab) = of_nat (fetobe_code lmonp_febe_proctab)"
    "parse_raw_RPDTAB_msg (Some (enc_hdr (job_hdr tab) @ job_payload tab)) [] = Inr (0, tab)" "tab \<noteq> []"
proof -
  let ?h = "proctab_hdr (build_strtab (entries tab) strtab0) (length (entries tab)) lmonp_proctable_avail"
  have w: "wf_msg ?h (job_payload tab)" unfolding job_payload_def by (rule proctab_sendbuf_wf(2) [OF assms refl])
  have "entries tab \<noteq> []" by (rule proctab_sendbuf_wf(3) [OF assms refl])
  then have pos: "length (job_payload tab) \<noteq> 0" by (auto simp: job_payload_def length_proctab_payload)
  have "usr_payload_length ?h = 0" by (simp add: proctab_hdr_def)
  then have "length (job_payload tab) = unat (lmon_payload_length ?h)" using w by (simp add: wf_msg_def)
  then have "unat (lmon_payload_length ?h) \<noteq> 0" using pos by argo
  then show "0 < lmon_payload_length (job_hdr tab)"
    by (simp add: job_hdr_def febe_proctab_hdr_def unat_eq_zero word_neq_0_conv)
  show "wf_msg (job_hdr tab) (job_payload tab)" using w by (simp add: wf_msg_def job_hdr_def febe_proctab_hdr_def)
  show "msgtype (job_hdr tab) = of_nat (fetobe_code lmonp_febe_proctab)" by (simp add: job_hdr_def febe_proctab_hdr_def)
  show "parse_raw_RPDTAB_msg (Some (enc_hdr (job_hdr tab) @ job_payload tab)) [] = Inr (0, tab)"
    unfolding job_hdr_def job_payload_def by (rule parse_shipped_hdr [OF assms refl]) simp
  show "tab \<noteq> []" using assms by (simp add: wf_proctab_def)
qed

definition daemons_up :: "nat \<Rightarrow> (nat \<Rightarrow> 'u be_data) \<Rightarrow> proctable \<Rightarrow> bool" where
  "daemons_up n S tab \<longleftrightarrow> 0 < n \<and> (\<forall>x<n. be_rank (S x) = int x \<and> be_width (S x) = int n \<and> be_cache (S x) = [] \<and>
     length (be_hostname (S x)) < LMON_DAEMON_HN_MAX \<and>
     serves (be_tasks (S x)) (2 * length (first_alias (be_aliases (S x)) tab)) \<and>
     (\<forall>k. \<not> fst (task_after (os_log (be_tasks (S x))) k)))"

definition hosts_of :: "nat \<Rightarrow> (nat \<Rightarrow> 'u be_data) \<Rightarrow> string list" where
  "hosts_of n S = map (\<lambda>x. be_hostname (S x)) [0..<n]"

lemma handshake_run:
  fixes S :: "nat \<Rightarrow> 'u be_data"
  assumes up: "daemons_up n S tab" and wf: "wf_hosts (hosts_of n S)" "wf_proctab tab pcount"
    and link: "ready (be_link (S 0)) (fe_sends (job_hdr tab) (job_payload tab) ty c ud) [28 + length (hosts_payload (hosts_of n S)), 28]"
    and m: "mode_of ty = Some m" "rm_case (rm_of (ucast c)) = Ptrace_rm \<or> rm_case (rm_of (ucast c)) = Generic_rm"
    and ud: "length ud < 2 ^ 31" "ud \<noteq> [] \<longrightarrow> be_unpack (S 0) \<noteq> None" and junk: "\<And>k. length (junk k) = k"
  shows "\<exists>u. converges (spmd n (\<lambda>x. be_handshake (tree_of n x) junk (S x)) d) (spmd n (\<lambda>x. Done (Inr LMON_OK, u x)) d) \<and>
    (\<forall>x<n. be_launch (u x) = m \<and> be_cache (u x) = tab \<and>
      held m (first_alias (be_aliases (S x)) tab) (be_tasks (S x)) (be_tasks (u x)) \<and>
      be_user (u x) = (if x = 0 then unpacked ud (S 0) else be_user (S x))) \<and>
    lk_sent (be_link (u 0)) = lk_sent (be_link (S 0)) @ enc_hdr (hosts_hdr (hosts_of n S)) @ hosts_payload (hosts_of n S) @
      enc_hdr (fetobe_hdr lmonp_befe_cont_launch_bp 0 0)"
proof -
  note j = job_msg [OF wf(2)]
  have "0 < n" using up by (simp add: daemons_up_def)
  from handshake_reaches [OF this hosts_of_def wf(1) _ link j(1-5) m ud junk] up
  obtain u where u: "reaches (spmd n (\<lambda>x. be_handshake (tree_of n x) junk (S x)) d) (spmd n (\<lambda>x. Done (Inr LMON_OK, u x)) d)"
    "\<forall>x<n. be_launch (u x) = m \<and> be_rmtype (u x) = ucast c \<and> be_msg (u x) = Some (enc_hdr (job_hdr tab) @ job_payload tab) \<and>
      be_cache (u x) = tab \<and> held m (first_alias (be_aliases (S x)) tab) (be_tasks (S x)) (be_tasks (u x)) \<and>
      be_user (u x) = (if x = 0 then unpacked ud (S 0) else be_user (S x))"
    "lk_sent (be_link (u 0)) = lk_sent (be_link (S 0)) @ enc_hdr (hosts_hdr (hosts_of n S)) @ hosts_payload (hosts_of n S) @
      enc_hdr (fetobe_hdr lmonp_befe_cont_launch_bp 0 0)"
    unfolding daemons_up_def by blast
  show ?thesis
    using converges_done [OF u(1) [unfolded reaches_def]] u(2,3) by (intro exI [of _ u]) simp
qed

section \<open>Properties\<close>

lemma own_entry:
  assumes "wf_proctab tab pcount" and "e \<in> set (entries tab)" and "host_name (pd e) = a"
  shows "e \<in> set (first_alias (a # as) tab)"
proof -
  have w: "map_inv tab" "\<forall>(k, es) \<in> set tab. \<forall>e \<in> set es. host_name (pd e) = k"
    using assms(1) by (auto simp: wf_proctab_def)
  obtain k es where k: "(k, es) \<in> set tab" "e \<in> set es" using assms(2) by (auto simp: entries_def)
  then have "k = a" using w(2) assms(3) by auto
  then have "map_find tab a = Some es" using w(1) k(1) by (simp add: map_find_Some_iff)
  then show ?thesis using k(2) by simp
qed

text \<open>C3: (functional) The handshake of \<open>n\<close> daemons, run in any order of their steps, ends on all of them with
  \<open>LMON_OK\<close>. Each daemon then has the mode and the table the front end sent to the master; each
  task of the table on a daemon's host is untraced and stopped, or running where the mode asks
  for it, and no other process was touched; and the front end got the hosts message and the
  message that lets the launcher go on, in this order.\<close>

theorem job_under_control:
  fixes S :: "nat \<Rightarrow> 'u be_data"
  assumes "daemons_up n S tab" and "wf_hosts (hosts_of n S)" and "wf_proctab tab pcount"
    and "ready (be_link (S 0)) (fe_sends (job_hdr tab) (job_payload tab) ty c ud) [28 + length (hosts_payload (hosts_of n S)), 28]"
    and "mode_of ty = Some m" and "rm_case (rm_of (ucast c)) = Ptrace_rm \<or> rm_case (rm_of (ucast c)) = Generic_rm"
    and "length ud < 2 ^ 31" and "ud \<noteq> [] \<longrightarrow> be_unpack (S 0) \<noteq> None" and "\<And>k. length (junk k) = k"
    and "\<And>x. x < n \<Longrightarrow> be_aliases (S x) = be_hostname (S x) # als x"
  shows "\<exists>u. converges (spmd n (\<lambda>x. be_handshake (tree_of n x) junk (S x)) d) (spmd n (\<lambda>x. Done (Inr LMON_OK, u x)) d) \<and>
    (\<forall>x<n. be_launch (u x) = m \<and> be_cache (u x) = tab \<and>
      held m (first_alias (be_aliases (S x)) tab) (be_tasks (S x)) (be_tasks (u x)) \<and>
      (\<forall>e \<in> set (entries tab). host_name (pd e) = be_hostname (S x) \<longrightarrow>
         task_after (os_log (be_tasks (u x))) (sint (pid (pd e))) = (False, dontstop_of m = 0))) \<and>
    lk_sent (be_link (u 0)) = lk_sent (be_link (S 0)) @ enc_hdr (hosts_hdr (hosts_of n S)) @ hosts_payload (hosts_of n S) @
      enc_hdr (fetobe_hdr lmonp_befe_cont_launch_bp 0 0)"
proof -
  from handshake_run [OF assms(1-9), of d] obtain u where
    u: "converges (spmd n (\<lambda>x. be_handshake (tree_of n x) junk (S x)) d) (spmd n (\<lambda>x. Done (Inr LMON_OK, u x)) d)"
    "\<forall>x<n. be_launch (u x) = m \<and> be_cache (u x) = tab \<and>
      held m (first_alias (be_aliases (S x)) tab) (be_tasks (S x)) (be_tasks (u x)) \<and>
      be_user (u x) = (if x = 0 then unpacked ud (S 0) else be_user (S x))"
    "lk_sent (be_link (u 0)) = lk_sent (be_link (S 0)) @ enc_hdr (hosts_hdr (hosts_of n S)) @ hosts_payload (hosts_of n S) @
      enc_hdr (fetobe_hdr lmonp_befe_cont_launch_bp 0 0)" by (elim exE conjE)
  have "task_after (os_log (be_tasks (u x))) (sint (pid (pd e))) = (False, dontstop_of m = 0)"
    if "x < n" "e \<in> set (entries tab)" "host_name (pd e) = be_hostname (S x)" for x e
  proof -
    have "e \<in> set (first_alias (be_aliases (S x)) tab)"
      unfolding assms(10) [OF that(1)] by (rule own_entry [OF assms(3) that(2,3)])
    then have "sint (pid (pd e)) \<in> set (pids_of (first_alias (be_aliases (S x)) tab))" by (auto simp: pids_of_def)
    then show ?thesis using u(2) that(1) by (simp add: held_def)
  qed
  then show ?thesis using u by (intro exI [of _ u]) simp
qed

lemma offers_prompt: "\<forall>b \<in> set bs. b \<noteq> [] \<Longrightarrow> kernel_offers (map Data bs) bs"
  unfolding kernel_offers_def
  by (intro exI [of _ "map (\<lambda>b. [Data b]) bs"] exI [of _ "[]"]) (auto simp: rtransient_def comp_def)

lemma takes_prompt: "\<forall>n \<in> set ns. 0 < n \<Longrightarrow> kernel_takes (map Wrote ns) ns"
  unfolding kernel_takes_def
  by (intro exI [of _ "map (\<lambda>n. [Wrote n]) ns"] exI [of _ "[]"]) (auto simp: wtransient_def comp_def)

definition demo_daemon :: "wrans list \<Rightarrow> rdans list \<Rightarrow> nat \<Rightarrow> unit be_data" where
  "demo_daemon ws rs x = \<lparr>be_rank = int x, be_width = 2, be_pack = None, be_unpack = None,
     be_hostname = (if x = 0 then ''n1'' else ''n2''), be_ip = [], be_aliases = [if x = 0 then ''n1'' else ''n2''],
     be_launch = 0, be_rmtype = 0, be_msg = None, be_msg_size = 0, be_cache = [], be_user = (),
     be_link = \<lparr>lk_reads = rs, lk_writes = ws, lk_sent = []\<rparr>,
     be_tasks = \<lparr>os_log = [], os_ok = \<lambda>_. True, os_waits = replicate 4 Reaped, fastpath = 0, mpao_wr = True\<rparr>, be_spawner = None\<rparr>"

lemma demo_hosts: "wf_hosts [''n1'', ''n2'']" "length (hosts_payload [''n1'', ''n2'']) = 14"
  by (auto simp: wf_hosts_def nul_free_def hosts_payload_def host_index_def)

lemma demo_hosts_of: "hosts_of 2 (demo_daemon ws rs) = [''n1'', ''n2'']"
  by (simp add: hosts_of_def demo_daemon_def numeral_2_eq_2)

theorem job_under_control_witness:
  "\<exists>ws rs u. converges (spmd 2 (\<lambda>x. be_handshake (tree_of 2 x) (\<lambda>k. replicate k 0) (demo_daemon ws rs x)) (Inl Aborted, demo_daemon ws rs 0))
      (spmd 2 (\<lambda>x. Done (Inr LMON_OK, u x)) (Inl Aborted, demo_daemon ws rs 0)) \<and>
    (\<forall>x<2. be_cache (u x) = demo_tab)"
proof -
  let ?rs = "map Data (fe_sends (job_hdr demo_tab) (job_payload demo_tab) lmonp_febe_launch 1 [])"
  let ?D = "demo_daemon (map Wrote [42, 28]) ?rs"
  note j = job_msg [OF demo_tab_wf]
  have ne: "job_payload demo_tab \<noteq> []"
    by (simp add: job_payload_def length_proctab_payload demo_tab_sizes flip: length_greater_0_conv)
  have up: "daemons_up 2 ?D demo_tab"
    by (simp add: daemons_up_def demo_daemon_def LMON_DAEMON_HN_MAX_def serves_def task_after_def demo_tab_def)
  have l: "ready (be_link (?D 0)) (fe_sends (job_hdr demo_tab) (job_payload demo_tab) lmonp_febe_launch 1 [])
      [28 + length (hosts_payload (hosts_of 2 ?D)), 28]"
    using offers_prompt [of "fe_sends (job_hdr demo_tab) (job_payload demo_tab) lmonp_febe_launch 1 []"] takes_prompt [of "[42, 28]"] ne
    by (simp add: ready_def demo_hosts_of demo_hosts) (simp add: demo_daemon_def fe_sends_def pieces_def)
  have w: "wf_hosts (hosts_of 2 ?D)" by (simp add: demo_hosts_of demo_hosts)
  have r: "rm_case (rm_of (ucast (1 :: u16))) = Ptrace_rm \<or> rm_case (rm_of (ucast (1 :: u16))) = Generic_rm"
    by (simp add: rm_of_def rm_codes_def)
  have a: "be_aliases (?D x) = be_hostname (?D x) # []" for x by (simp add: demo_daemon_def)
  have m: "mode_of lmonp_febe_launch = Some trm_launch" by simp
  have x1: "length ([] :: byte list) < 2 ^ 31" and x2: "[] \<noteq> ([] :: byte list) \<longrightarrow> be_unpack (?D 0) \<noteq> None"
    and x3: "length (replicate k (0 :: byte)) = k" for k by simp_all
  have "\<exists>u. converges (spmd 2 (\<lambda>x. be_handshake (tree_of 2 x) (\<lambda>k. replicate k 0) (?D x)) (Inl Aborted, ?D 0))
      (spmd 2 (\<lambda>x. Done (Inr LMON_OK, u x)) (Inl Aborted, ?D 0)) \<and> (\<forall>x<2. be_cache (u x) = demo_tab)"
    using job_under_control [OF up w demo_tab_wf l m r x1 x2 x3 a, where d = "(Inl Aborted, ?D 0)"]
    by (elim exE conjE) (intro exI conjI, assumption, simp)
  then show ?thesis by (intro exI [of _ "map Wrote [42, 28]"] exI [of _ ?rs])
qed

end
