(* ===== verification/Lmon_Mw.thy ===== *)
theory Lmon_Mw
  imports Lmon_Be
begin

text \<open>
  The middleware daemon's interface, \<^verbatim>\<open>lmon_mw.cxx\<close>: like the back end's, without a job's
  tasks, and with daemons that may have to spawn others by a remote shell when they start.
\<close>

unbundle bit_operations_syntax

section \<open>State\<close>

record 'u mw_data =
  mw_rank :: int
  mw_width :: int
  mw_pack :: "('u \<Rightarrow> int \<times> byte list) option"
  mw_unpack :: "(byte list \<Rightarrow> 'u \<Rightarrow> int \<times> 'u) option"
  mw_hostname :: string
  mw_ip :: string
  mw_aliases :: "string list"
  mw_spawner :: "spawner option"
  mw_argv :: "string list"
  mw_user :: 'u
  mw_link :: link

type_synonym ('u, 'a) mw = "('u mw_data, 'a) act"
type_synonym ('u, 'a) mw_step = "('u mw_data, lmon_rc_e + 'a) act"
type_synonym 'u mw_prog = "'u mw_data dprog"

definition mw_on_link :: "(link, 'a) act \<Rightarrow> ('u, 'a) mw" where
  "mw_on_link = zoomA mw_link (\<lambda>l s. s\<lparr>mw_link := l\<rparr>)"

definition mw_is_master :: "'u mw_data \<Rightarrow> bool" where "mw_is_master s \<longleftrightarrow> mw_rank s = int LMON_DAEMON_MASTER"

definition mw_master_only :: "('u, unit) mw_step \<Rightarrow> ('u, unit) mw_step" where
  "mw_master_only m s = (if mw_is_master s then m s else (Inr (Inr ()), s))"

section \<open>Calls on the daemon layer\<close>

definition mw_amIMaster :: "'u mw_data \<Rightarrow> lmon_rc_e" where
  "mw_amIMaster s = (if mw_rank s < 0 then LMON_EINVAL else if mw_rank s = 0 then LMON_YES else LMON_NO)"

definition mw_getMyRank :: "int \<Rightarrow> lmon_rc_e \<times> int option" where
  "mw_getMyRank iccl_rank = (case daemon_internal_getMyRank iccl_rank of
     (rc, v) \<Rightarrow> if rc \<noteq> LMON_OK then (LMON_EINVAL, v) else (LMON_OK, v))"

definition mw_getSize :: "int \<Rightarrow> lmon_rc_e \<times> int option" where
  "mw_getSize iccl_size = (case daemon_internal_getSize iccl_size of
     (rc, v) \<Rightarrow> if rc \<noteq> LMON_OK then (LMON_EINVAL, v) else (LMON_OK, v))"

definition mw_barrier :: "cobo \<Rightarrow> (lmon_rc_e \<Rightarrow> 's dprog) \<Rightarrow> 's dprog" where
  "mw_barrier t k = daemon_internal_barrier t (\<lambda>rc. k (subcom rc))"

definition mw_broadcast ::
  "cobo \<Rightarrow> 's \<Rightarrow> byte list \<Rightarrow> nat \<Rightarrow> (lmon_rc_e \<Rightarrow> byte list \<Rightarrow> 's dprog) \<Rightarrow> 's dprog" where
  "mw_broadcast t s buf n k = daemon_internal_broadcast t s buf n (\<lambda>rc. k (subcom rc))"

definition mw_gather ::
  "cobo \<Rightarrow> 's \<Rightarrow> byte list \<Rightarrow> nat \<Rightarrow> byte list \<Rightarrow> (lmon_rc_e \<Rightarrow> byte list \<Rightarrow> 's dprog) \<Rightarrow> 's dprog" where
  "mw_gather t s sendbuf n recvbuf k = daemon_internal_gather t s sendbuf n recvbuf (\<lambda>rc. k (subcom rc))"

definition mw_scatter ::
  "cobo \<Rightarrow> 's \<Rightarrow> byte list \<Rightarrow> nat \<Rightarrow> byte list \<Rightarrow> (lmon_rc_e \<Rightarrow> byte list \<Rightarrow> 's dprog) \<Rightarrow> 's dprog" where
  "mw_scatter t s sendbuf n recvbuf k = daemon_internal_scatter t s sendbuf n recvbuf (\<lambda>rc. k (subcom rc))"

definition mw_then_barrier :: "cobo \<Rightarrow> 's \<Rightarrow> 's dprog" where
  "mw_then_barrier t s = mw_barrier t (\<lambda>rc. Done (Inr (if rc \<noteq> LMON_OK then LMON_ESUBCOM else LMON_OK), s))"

definition mw_regPackForMwToFe :: "('u \<Rightarrow> int \<times> byte list) option \<Rightarrow> ('u, lmon_rc_e) mw" where
  "mw_regPackForMwToFe packMwfe s = ret LMON_OK (s\<lparr>mw_pack := packMwfe\<rparr>)"

definition mw_regUnpackForFeToMw :: "(byte list \<Rightarrow> 'u \<Rightarrow> int \<times> 'u) option \<Rightarrow> ('u, lmon_rc_e) mw" where
  "mw_regUnpackForFeToMw unpackFemw s = ret LMON_OK (s\<lparr>mw_unpack := unpackFemw\<rparr>)"

section \<open>Start-up\<close>

text \<open>The spawner's option: \<open>Some None\<close> when the option has no \<open>=\<close> and the value would begin
  behind the end of the argument.\<close>

definition rsh_value :: "string \<Rightarrow> string option option" where
  "rsh_value a =
     (if 2 \<le> length a \<and> hd a = CHR ''-'' \<and> take (length LMON_RSHSPAWNER_OPT) a = LMON_RSHSPAWNER_OPT
      then Some (if length a = length LMON_RSHSPAWNER_OPT then None else Some (drop (1 + length LMON_RSHSPAWNER_OPT) a))
      else None)"

fun rsh_opts :: "string list \<Rightarrow> string option list" where
  "rsh_opts [] = []"
| "rsh_opts (a # as) = (case rsh_value a of None \<Rightarrow> rsh_opts as | Some v \<Rightarrow> v # rsh_opts as)"

text \<open>The last option counts; the array loses as many arguments at its end as there were
  options. The new array, from which the first \<open>argc\<close> are arguments, and the spawner.\<close>

definition mw_daemon_internal_init :: "string \<Rightarrow> string list \<Rightarrow> exn + (spawner option \<times> string list)" where
  "mw_daemon_internal_init RSHCMD argv =
     (let vs = rsh_opts (tl argv); argc = length argv - length vs in
      if None \<in> set vs then Inl Undefined_behaviour
      else Inr ((case rev vs of [] \<Rightarrow> None | v # _ \<Rightarrow> map_option (rsh_of_arg RSHCMD (hd argv) []) v), take argc argv))"

definition fetomw_hdr :: "lmonp_fe_to_mw_msg_e \<Rightarrow> u16 \<Rightarrow> u32 \<Rightarrow> lmonp_t" where
  "fetomw_hdr ty k key2 = the (snd (set_msg_header (Some lmonp_zero) (int (class_code lmonp_fetomw))
     (int (fetomw_code ty)) k key2 0 0 0 0 0))"

fun mw_send_words :: "byte list list \<Rightarrow> ('u, unit) mw_step" where
  "mw_send_words [] = ret (Inr ())"
| "mw_send_words (w # ws) =
     bindA (mw_on_link (lk_write (enc_hdr (fetomw_hdr lmonp_femw_security_chk 0 (dec32 w))) (int lmonp_size))) (\<lambda>r.
       if r < 0 then ret (Inl LMON_ESYS) else mw_send_words ws)"

definition mw_security :: "be_env \<Rightarrow> (string \<Rightarrow> string option) \<Rightarrow> int \<Rightarrow> ('u, unit) mw_step" where
  "mw_security e env r =
     (if fst (daemon_internal_getConnFd r (en_parent e)) \<noteq> LMON_OK then ret (Inl LMON_ESUBCOM)
      else (case daemon_getSharedKeyAndID env (en_atoi e) of
        Inl x \<Rightarrow> throw x
      | Inr (_, None) \<Rightarrow> ret (Inl LMON_ESYS)
      | Inr (rc, Some (shared_key, intsessID)) \<Rightarrow>
          (if rc \<noteq> LMON_OK \<or> \<not> en_gcry_open e \<or> \<not> en_gcry_setkey e \<or> \<not> en_gcry_encrypt e then ret (Inl LMON_ESYS)
           else mw_send_words (four_words (en_cipher e shared_key (sess_block intsessID))))))"

definition mw_identify :: "string \<Rightarrow> be_env \<Rightarrow> int \<Rightarrow> ('u, (string \<Rightarrow> string option) \<times> int \<times> int) mw_step" where
  "mw_identify RSHCMD e ver s =
     (if ver \<noteq> LMON_VERSION then ret (Inl LMON_EINVAL) s
      else (case daemon_gethostname (en_sgi e) (is_bluegene_ion (en_readable e)) (en_hostname e) (en_resolved e)
               (en_personality e) (mw_aliases s) of
        Inl x \<Rightarrow> throw x s
      | Inr (rc, h, ip, als) \<Rightarrow>
          (let s = s\<lparr>mw_hostname := h, mw_ip := ip, mw_aliases := als\<rparr> in
           if rc \<noteq> LMON_OK then ret (Inl rc) s
           else (case mw_daemon_internal_init RSHCMD (en_argv e) of
             Inl x \<Rightarrow> throw x s
           | Inr (sp, argv) \<Rightarrow>
             (let s = s\<lparr>mw_spawner := map_option (\<lambda>sp. snd (rsh_spawn sp)) sp\<rparr> in
              case daemon_internal_init argv (en_cobo e) of (rc, new, argv') \<Rightarrow>
              (let s = s\<lparr>mw_argv := map the (takeWhile (\<lambda>a. a \<noteq> None) argv')\<rparr> in
               if rc \<noteq> LMON_OK then ret (Inl LMON_ESUBCOM) s
               else (case en_cobo e of None \<Rightarrow> ret (Inl LMON_ESUBCOM) s
                 | Some (r, n) \<Rightarrow>
                   (if fst (daemon_internal_getMyRank r) \<noteq> LMON_OK then ret (Inl LMON_ESUBCOM) s
                    else if fst (daemon_internal_getSize n) \<noteq> LMON_OK then ret (Inl LMON_ESUBCOM) (s\<lparr>mw_rank := r\<rparr>)
                    else ret (Inr (env_after new (en_getenv e), r, n)) (s\<lparr>mw_rank := r, mw_width := n\<rparr>)))))))))"

definition mw_init :: "string \<Rightarrow> be_env \<Rightarrow> int \<Rightarrow> 'u mw_data \<Rightarrow> 'u mw_prog" where
  "mw_init RSHCMD e ver s = act_then (mw_identify RSHCMD e ver) s (\<lambda>(env, r, n).
     \<lambda>s. act_then (mw_master_only (mw_security e env r)) s (\<lambda>_ s. mw_then_barrier (tree_of (nat n) (nat r)) s))"

section \<open>The handshake\<close>

definition mw_hostname_hdr :: "int \<Rightarrow> u32 \<Rightarrow> lmonp_t" where
  "mw_hostname_hdr width off =
     the (snd (if width < int LMON_NTASKS_THRE then
         set_msg_header (Some lmonp_zero) (int (class_code lmonp_fetomw)) (int (fetomw_code lmonp_mwfe_hostname))
           (of_int width) 0 0 (of_int width) 0 (off + of_int (width * 4)) 0
       else set_msg_header (Some lmonp_zero) (int (class_code lmonp_fetomw)) (int (fetomw_code lmonp_mwfe_hostname))
           (of_nat LMON_NTASKS_THRE) 0 0 (of_int width) (of_int width) (off + of_int (width * 4)) 0))"

definition mw_ship_hostnames :: "byte list \<Rightarrow> ('u, unit) mw_step" where
  "mw_ship_hostnames hngatherbuf s =
     (case gathered_names hngatherbuf (nat (mw_width s)) of
        None \<Rightarrow> throw Undefined_behaviour s
      | Some names \<Rightarrow>
          (let (m, off) = hn_pass1 names [] 0;
               sendbufsize = sint (of_int (int lmonp_size + mw_width s * 4 + uint off) :: u32);
               hdr = mw_hostname_hdr (mw_width s) off
           in case (get_lmonpayload_begin (Some hdr), get_strtab_begin hdr) of
                (Some p, Some q) \<Rightarrow>
                  (let (idx, str) = hn_pass2 names m in
                   if q \<noteq> p + length idx \<or> sendbufsize < int (q + length str) then throw Undefined_behaviour s
                   else bindA (mw_on_link (lk_write (enc_hdr hdr @ idx @ str) sendbufsize)) (\<lambda>_. ret (Inr ())) s)
              | _ \<Rightarrow> ret (Inl LMON_EBDMSG) s))"

definition mw_has_type :: "byte list \<Rightarrow> lmonp_fe_to_mw_msg_e \<Rightarrow> bool" where
  "mw_has_type recvmsg ty \<longleftrightarrow> unat (msgtype (dec_hdr recvmsg)) = fetomw_code ty"

definition mw_recv_udata :: "(nat \<Rightarrow> byte list) \<Rightarrow> ('u, unit) mw_step" where
  "mw_recv_udata junk = bindA (mw_on_link (lk_read_hdr (junk lmonp_size))) (\<lambda>(_, recvmsg).
     if \<not> mw_has_type recvmsg lmonp_femw_usrdata then ret (Inl LMON_EBDMSG)
     else
       (let len = usr_payload_length (dec_hdr recvmsg) in
        if sint len \<le> 0 then ret (Inr ())
        else bindA (mw_on_link (lk_read_payload (junk (unat len)) (sint len))) (\<lambda>(_, usrpl) s.
          case mw_unpack s of None \<Rightarrow> throw Undefined_behaviour s
          | Some f \<Rightarrow> ret (Inr ()) (s\<lparr>mw_user := snd (f usrpl (mw_user s))\<rparr>))))"

definition mw_handshake :: "cobo \<Rightarrow> (nat \<Rightarrow> byte list) \<Rightarrow> 'u mw_data \<Rightarrow> 'u mw_prog" where
  "mw_handshake t junk s =
     mw_gather t s (hn_bytes (mw_hostname s)) LMON_DAEMON_HN_MAX
       (if mw_is_master s then junk (LMON_DAEMON_HN_MAX * nat (mw_width s)) else []) (\<lambda>rc hngatherbuf.
     if rc \<noteq> LMON_OK then Done (Inr LMON_ESUBCOM, s)
     else act_then (mw_master_only (stepA (mw_ship_hostnames hngatherbuf) (\<lambda>_. mw_recv_udata junk))) s
       (\<lambda>_ s. mw_then_barrier t s))"

section \<open>Ready and user data\<close>

definition mwfe_hdr :: "lmonp_fe_to_mw_msg_e \<Rightarrow> lmonp_t \<Rightarrow> nat \<Rightarrow> lmonp_t" where
  "mwfe_hdr ty m len = m\<lparr>msgclass := of_nat (class_code lmonp_fetomw), msgtype := of_nat (fetomw_code ty),
     num_tasks := 0, security_key2 := 0, lmon_payload_length := 0, usr_payload_length := of_nat len\<rparr>"

definition mw_usr_hdr :: "lmonp_fe_to_mw_msg_e \<Rightarrow> lmonp_t" where
  "mw_usr_hdr ty = the (snd (set_msg_header (Some lmonp_zero) (int (class_code lmonp_fetomw))
     (int (fetomw_code ty)) 0 0 0 0 0 0 (of_nat LMON_MAX_USRPAYLOAD)))"

definition mw_say_ready :: "(nat \<Rightarrow> byte list) \<Rightarrow> bool \<Rightarrow> ('u, unit) mw_step" where
  "mw_say_ready junk has_udata s =
     (let (m, pl) = (case (if has_udata then mw_pack s else None) of
            Some pack \<Rightarrow> (mw_usr_hdr lmonp_mwfe_ready, snd (pack (mw_user s)))
          | None \<Rightarrow> (dec_hdr (junk lmonp_size), []))
      in if LMON_MAX_USRPAYLOAD < length pl then throw Undefined_behaviour s
         else bindA (mw_on_link (lk_write (enc_hdr (mwfe_hdr lmonp_mwfe_ready m (length pl)) @ pl)
                (int (lmonp_size + length pl)))) (\<lambda>_. ret (Inr ())) s)"

definition mw_ready :: "cobo \<Rightarrow> (nat \<Rightarrow> byte list) \<Rightarrow> bool \<Rightarrow> 'u mw_data \<Rightarrow> 'u mw_prog" where
  "mw_ready t junk has_udata s = act_then (mw_master_only (mw_say_ready junk has_udata)) s (\<lambda>_ s. mw_then_barrier t s)"

definition mw_share_rc :: "cobo \<Rightarrow> lmon_rc_e \<Rightarrow> 's \<Rightarrow> 's dprog" where
  "mw_share_rc t lrc s = mw_broadcast t s (enc32 (rc_word lrc)) 1 (\<lambda>rc b.
     Done (Inr (if rc \<noteq> LMON_OK then LMON_ESUBCOM else rc_of_word (dec32 b)), s))"

definition mw_take_udata :: "(nat \<Rightarrow> byte list) \<Rightarrow> ('u, lmon_rc_e) mw" where
  "mw_take_udata junk = bindA (mw_on_link (lk_read_hdr (junk lmonp_size))) (\<lambda>(r, recvmsg).
     let len = usr_payload_length (dec_hdr recvmsg) in
     if r < 0 then ret LMON_ESYS
     else if \<not> mw_has_type recvmsg lmonp_femw_usrdata then ret LMON_EBDMSG
     else if sint len \<le> 0 then ret LMON_ENOPLD
     else bindA (mw_on_link (lk_read_payload (junk (unat len)) (sint len))) (\<lambda>(_, usrpl) s.
       case mw_unpack s of None \<Rightarrow> ret LMON_ENCLLB s
       | Some f \<Rightarrow> (let (rc, u) = f usrpl (mw_user s) in
           ret (if rc < 0 then LMON_ENEGCB else LMON_OK) (s\<lparr>mw_user := u\<rparr>))))"

definition mw_give_udata :: "(nat \<Rightarrow> byte list) \<Rightarrow> bool \<Rightarrow> ('u, lmon_rc_e) mw" where
  "mw_give_udata junk has_udata s =
     (case (if has_udata then mw_pack s else None) of
        Some pack \<Rightarrow>
          (let (rc, pl) = pack (mw_user s) in
           if LMON_MAX_USRPAYLOAD < length pl then throw Undefined_behaviour s
           else if rc < 0 then ret LMON_ENEGCB s
           else bindA (mw_on_link (lk_write (enc_hdr (mwfe_hdr lmonp_mwfe_usrdata (mw_usr_hdr lmonp_mwfe_usrdata) (length pl)) @ pl)
                  (int (lmonp_size + length pl)))) (\<lambda>r. ret (if r < 0 then LMON_ESYS else LMON_OK)) s)
      | None \<Rightarrow>
          bindA (mw_on_link (lk_write (enc_hdr (mwfe_hdr lmonp_mwfe_usrdata (dec_hdr (junk lmonp_size)) 0))
            (int lmonp_size))) (\<lambda>r. ret (if r < 0 then LMON_ESYS else LMON_ENCLLB)) s)"

definition mw_master_rc :: "('u, lmon_rc_e) mw \<Rightarrow> ('u, lmon_rc_e) mw_step" where
  "mw_master_rc m s = (if mw_is_master s then bindA m (\<lambda>rc. ret (Inr rc)) s else ret (Inr LMON_OK) s)"

definition mw_recvUsrData :: "cobo \<Rightarrow> (nat \<Rightarrow> byte list) \<Rightarrow> 'u mw_data \<Rightarrow> 'u mw_prog" where
  "mw_recvUsrData t junk s = act_then (mw_master_rc (mw_take_udata junk)) s (mw_share_rc t)"

definition mw_sendUsrData :: "cobo \<Rightarrow> (nat \<Rightarrow> byte list) \<Rightarrow> bool \<Rightarrow> 'u mw_data \<Rightarrow> 'u mw_prog" where
  "mw_sendUsrData t junk has_udata s = act_then (mw_master_rc (mw_give_udata junk has_udata)) s (mw_share_rc t)"

definition mw_finalize :: "bool \<Rightarrow> lmon_rc_e" where
  "mw_finalize closed = (if daemon_internal_finalize closed \<noteq> LMON_OK then LMON_ESUBCOM else LMON_OK)"

end
