(* ===== verification/Mw_Launch.thy ===== *)
theory Mw_Launch
  imports Be_Handshake Lmon_Mw "HOL-Library.Multiset"
begin

text \<open>
  How middleware daemons come to their hosts: by a tree of remote shells, each daemon starting
  two more, or beside the back-end daemons, on the front end's request.
\<close>

section \<open>The tree of remote shells\<close>

text \<open>A remote shell, whose first operand is the host, runs the rest there. The daemons that
  run after \<open>k\<close> rounds, from the spawner of the first two on.\<close>

definition rsh_runs :: "string list \<Rightarrow> string \<times> string list" where
  "rsh_runs argv = (argv ! 1, drop 2 argv)"

fun rsh_tree :: "nat \<Rightarrow> string \<Rightarrow> spawner \<Rightarrow> (string \<times> string list) list" where
  "rsh_tree 0 R sp = []"
| "rsh_tree (Suc k) R sp = concat (map (\<lambda>argv. rsh_runs argv #
     (case mw_daemon_internal_init R (snd (rsh_runs argv)) of
        Inr (Some sp', _) \<Rightarrow> rsh_tree k R sp' | _ \<Rightarrow> [])) (sp_execs (snd (rsh_spawn sp))))"

definition host_ok :: "string \<Rightarrow> bool" where
  "host_ok h \<longleftrightarrow> h \<noteq> [] \<and> CHR '':'' \<notin> set h \<and> h \<noteq> LMON_NO_HOST"

definition host_slice :: "string list \<Rightarrow> nat \<Rightarrow> nat \<Rightarrow> string list" where
  "host_slice hosts i b = map ((!) hosts) [i..<b]"

lemma set_host_slice: "b \<le> length hosts \<Longrightarrow> set (host_slice hosts i b) \<subseteq> set hosts"
  by (auto simp: host_slice_def)

lemma cat_hosts_eq:
  "cat_hosts hosts i b s = (max i b, s @ concat (map (\<lambda>h. h @ '':'') (host_slice hosts i b)))"
proof (induction hosts i b s rule: cat_hosts.induct)
  case (1 hosts i b s)
  show ?case
  proof (cases "i < b")
    case True
    then have "[i..<b] = i # [Suc i..<b]" by (simp add: upt_conv_Cons)
    then show ?thesis using True "1.IH"
      by (subst cat_hosts.simps) (simp add: LMON_HOST_DELIM_def host_slice_def)
  next
    case False
    then show ?thesis by (subst cat_hosts.simps) (simp add: host_slice_def)
  qed
qed

definition opt_text :: "string \<Rightarrow> string" where "opt_text v = LMON_RSHSPAWNER_OPT @ ''='' @ v"

definition hosts_text :: "string list \<Rightarrow> string" where
  "hosts_text hs = (if hs = [] then LMON_NO_HOST else concat (map (\<lambda>h. h @ '':'') (butlast hs)) @ last hs)"

lemma rsh_arg_eq: "0 < start \<Longrightarrow> rsh_arg hosts start k = opt_text (hosts_text (host_slice hosts start (Suc k)))"
proof (cases "start \<le> k")
  case True
  then have "host_slice hosts start (Suc k) = host_slice hosts start k @ [hosts ! k]" by (simp add: host_slice_def)
  then show ?thesis using True
    by (simp add: rsh_arg_def cat_hosts_eq Let_def max_def opt_text_def hosts_text_def)
next
  case False
  then have "host_slice hosts start (Suc k) = []" "host_slice hosts start k = []" by (simp_all add: host_slice_def)
  then show ?thesis using False
    by (simp add: rsh_arg_def cat_hosts_eq Let_def max_def opt_text_def hosts_text_def)
qed

lemma strtok_word: "d \<notin> set h \<Longrightarrow> strtok_all d (h @ r) tok = strtok_all d r (rev h @ tok)"
  by (induction h arbitrary: tok) auto

lemma strtok_join:
  assumes "\<forall>h \<in> set hs. h \<noteq> [] \<and> d \<notin> set h" and "x \<noteq> []" "d \<notin> set x"
  shows "strtok_all d (concat (map (\<lambda>h. h @ [d]) hs) @ x) [] = hs @ [x]"
  using assms(1)
proof (induction hs)
  case Nil
  then show ?case using strtok_word [OF assms(3), of "[]" "[]"] assms(2) by simp
next
  case (Cons h hs)
  then show ?case using strtok_word [of d h] by simp
qed

lemma hosts_text_parsed:
  assumes "\<forall>h \<in> set hs. host_ok h"
  shows "filter (\<lambda>h. h \<noteq> LMON_NO_HOST) (strtok_all CHR '':'' (hosts_text hs) []) = hs"
proof (cases "hs = []")
  case True
  then show ?thesis by (simp add: hosts_text_def LMON_NO_HOST_def)
next
  case False
  then have h: "hs = butlast hs @ [last hs]" by simp
  have ok: "host_ok (last hs)" "\<forall>h \<in> set (butlast hs). host_ok h"
    using assms False by (auto dest: in_set_butlastD)
  have "strtok_all CHR '':'' (hosts_text hs) [] = hs"
    using strtok_join [of "butlast hs" "CHR '':''" "last hs"] ok False
    by (auto simp: hosts_text_def host_ok_def)
  then show ?thesis using assms by (simp add: filter_id_conv host_ok_def)
qed

text \<open>What a daemon that was started with the option makes of it.\<close>

lemma rsh_value_opt: "rsh_value (opt_text v) = Some (Some v)"
  by (simp add: rsh_value_def opt_text_def LMON_RSHSPAWNER_OPT_def)

lemma rsh_opts_append: "rsh_opts (as @ bs) = rsh_opts as @ rsh_opts bs"
  by (induction as) (simp_all split: option.split)

lemma init_with_opt:
  assumes "rsh_opts args = []" and "\<forall>h \<in> set hs. host_ok h"
  shows "mw_daemon_internal_init R (path # args @ [opt_text (hosts_text hs)]) =
    Inr (Some (rsh_of_hosts R path [] hs), path # args)"
proof -
  have "rsh_opts (args @ [opt_text (hosts_text hs)]) = [Some (hosts_text hs)]"
    using assms(1) by (simp add: rsh_opts_append rsh_value_opt)
  then show ?thesis using hosts_text_parsed [OF assms(2)]
    by (simp add: mw_daemon_internal_init_def Let_def rsh_of_arg_def rsh_of_hosts_def)
qed

definition left_hosts :: "string list \<Rightarrow> string list" where
  "left_hosts hosts = host_slice hosts 1 (length hosts div 2)"

definition right_hosts :: "string list \<Rightarrow> string list" where
  "right_hosts hosts = host_slice hosts (length hosts div 2 + 1) (length hosts)"

lemma rsh_split:
  assumes "1 < length hosts"
  shows "mset hosts = {#hosts ! 0#} + mset (left_hosts hosts) + {#hosts ! (length hosts div 2)#} + mset (right_hosts hosts)"
proof -
  let ?n = "length hosts" and ?h = "length hosts div 2"
  have h: "0 < ?h" "?h < ?n" using assms by auto
  have "[0..<?n] = 0 # [1..<?h] @ ?h # [?h + 1..<?n]"
    using h by (metis One_nat_def Suc_eq_plus1 append_Cons le_add1 less_imp_le_nat upt_add_eq_append upt_conv_Cons
        le_add_diff_inverse add_0)
  then have "map ((!) hosts) [0..<?n] = hosts ! 0 # left_hosts hosts @ hosts ! ?h # right_hosts hosts"
    by (simp add: left_hosts_def right_hosts_def host_slice_def)
  then have "hosts = hosts ! 0 # left_hosts hosts @ hosts ! ?h # right_hosts hosts" by (simp add: map_nth)
  then have "mset hosts = mset (hosts ! 0 # left_hosts hosts @ hosts ! ?h # right_hosts hosts)" by metis
  then show ?thesis by simp
qed

lemma rsh_execs:
  assumes "hosts \<noteq> []" 
  shows "sp_execs (snd (rsh_spawn (rsh_of_hosts R path args hosts))) =
    [R # hosts ! 0 # path # args @ [opt_text (hosts_text (left_hosts hosts))]] @
    (if 1 < length hosts
     then [R # hosts ! (length hosts div 2) # path # args @ [opt_text (hosts_text (right_hosts hosts))]] else [])"
proof -
  have "rsh_arg hosts 1 (length hosts div 2 - 1) = opt_text (hosts_text (left_hosts hosts))"
    by (cases "length hosts div 2") (simp_all add: rsh_arg_eq left_hosts_def host_slice_def)
  moreover have "rsh_arg hosts (length hosts div 2 + 1) (length hosts - 1) = opt_text (hosts_text (right_hosts hosts))"
    using assms by (simp add: rsh_arg_eq right_hosts_def Suc_diff_1)
  moreover have "0 < length hosts div 2 \<longleftrightarrow> 1 < length hosts" by auto
  ultimately show ?thesis using assms
    by (simp add: rsh_spawn_def rsh_of_hosts_def new_spawner_def execute_rsh_def Let_def)
qed


lemma left_right_ok:
  assumes "\<forall>h \<in> set hosts. host_ok h"
  shows "\<forall>h \<in> set (left_hosts hosts). host_ok h" "\<forall>h \<in> set (right_hosts hosts). host_ok h"
  using assms set_host_slice [of "length hosts div 2" hosts] set_host_slice [of "length hosts" hosts]
  unfolding left_hosts_def right_hosts_def by (meson div_le_dividend order_refl subsetD)+

lemma left_right_length:
  "length hosts < 2 ^ Suc k \<Longrightarrow> hosts \<noteq> [] \<Longrightarrow> length (left_hosts hosts) < 2 ^ k \<and> length (right_hosts hosts) < 2 ^ k"
  by (auto simp: left_hosts_def right_hosts_def host_slice_def)

lemma rsh_runs_cmd [simp]: "rsh_runs (R # h # av) = (h, av)"
  by (simp add: rsh_runs_def)

lemma rsh_tree_hosts:
  assumes "rsh_opts args = []" and "\<forall>h \<in> set hosts. host_ok h" and "length hosts < 2 ^ k"
  shows "mset (map fst (rsh_tree k R (rsh_of_hosts R path args hosts))) = mset hosts"
  using assms
proof (induction k arbitrary: args hosts)
  case 0
  then show ?case by simp
next
  case (Suc k)
  show ?case
  proof (cases "hosts = []")
    case True
    then show ?thesis by (simp add: rsh_spawn_def rsh_of_hosts_def new_spawner_def Let_def)
  next
    case False
    note lr = left_right_ok [OF Suc.prems(2)]
    have IH: "mset (map fst (rsh_tree k R (rsh_of_hosts R path [] hs))) = mset hs"
      if "hs = left_hosts hosts \<or> hs = right_hosts hosts" for hs
      using that lr left_right_length [OF Suc.prems(3) False] by (intro Suc.IH) auto
    have tree: "rsh_tree (Suc k) R (rsh_of_hosts R path args hosts) =
        (hosts ! 0, path # args @ [opt_text (hosts_text (left_hosts hosts))]) # rsh_tree k R (rsh_of_hosts R path [] (left_hosts hosts)) @
        (if 1 < length hosts
         then (hosts ! (length hosts div 2), path # args @ [opt_text (hosts_text (right_hosts hosts))]) #
              rsh_tree k R (rsh_of_hosts R path [] (right_hosts hosts)) else [])"
      by (simp add: rsh_execs [OF False] init_with_opt [OF Suc.prems(1) lr(1)] init_with_opt [OF Suc.prems(1) lr(2)])
    show ?thesis
    proof (cases "1 < length hosts")
      case True
      then show ?thesis using IH [of "left_hosts hosts"] IH [of "right_hosts hosts"] rsh_split [OF True]
        unfolding tree by simp
    next
      case one: False
      then obtain h where "hosts = [h]" using False by (cases hosts) auto
      then show ?thesis using IH [of "left_hosts hosts"] unfolding tree by (simp add: left_hosts_def host_slice_def)
    qed
  qed
qed

text \<open>Only the first two daemons get the tool's arguments, and with them the session's key.\<close>

lemma rsh_tree_argv:
  assumes "\<forall>h \<in> set hosts. host_ok h" and "(h, av) \<in> set (rsh_tree k R (rsh_of_hosts R path [] hosts))"
  shows "\<exists>v. av = [path, opt_text v]"
  using assms
proof (induction k arbitrary: hosts)
  case 0
  then show ?case by simp
next
  case (Suc k)
  show ?case
  proof (cases "hosts = []")
    case True
    then show ?thesis using Suc.prems(2) by (simp add: rsh_spawn_def rsh_of_hosts_def new_spawner_def Let_def)
  next
    case False
    have e: "rsh_opts [] = []" by simp
    note lr = left_right_ok [OF Suc.prems(1)]
    note i = init_with_opt [OF e lr(1), simplified] init_with_opt [OF e lr(2), simplified]
    show ?thesis
      using Suc.prems(2) Suc.IH [OF lr(1)] Suc.IH [OF lr(2)]
      by (auto simp: rsh_execs [OF False] i split: if_splits)
  qed
qed


lemma rsh_tree_roots:
  assumes "rsh_opts args = []" and "\<forall>h \<in> set hosts. host_ok h"
    and "(h, av) \<in> set (rsh_tree k R (rsh_of_hosts R path args hosts))"
  shows "\<exists>v. (h \<in> {hosts ! 0, hosts ! (length hosts div 2)} \<and> av = path # args @ [opt_text v]) \<or> av = [path, opt_text v]"
proof (cases "hosts = [] \<or> k = 0")
  case True
  then show ?thesis using assms(3) by (auto simp: rsh_spawn_def rsh_of_hosts_def new_spawner_def Let_def gr0_conv_Suc)
      (cases k; simp add: rsh_spawn_def Let_def)
next
  case False
  then obtain j where j: "k = Suc j" "hosts \<noteq> []" by (cases k) auto
  note lr = left_right_ok [OF assms(2)]
  have l: "\<exists>v. av = [path, opt_text v]" if "(h, av) \<in> set (rsh_tree j R (rsh_of_hosts R path [] (left_hosts hosts)))"
    by (rule rsh_tree_argv [OF lr(1) that])
  have r: "\<exists>v. av = [path, opt_text v]" if "(h, av) \<in> set (rsh_tree j R (rsh_of_hosts R path [] (right_hosts hosts)))"
    by (rule rsh_tree_argv [OF lr(2) that])
  show ?thesis
    using assms(3) l r
    by (auto simp: j(1) rsh_execs [OF j(2)] init_with_opt [OF assms(1) lr(1)] init_with_opt [OF assms(1) lr(2)] split: if_splits)
qed

section \<open>Beside the back-end daemons\<close>

lemma be_broadcast_reaches:
  assumes "\<And>x. x < n \<Longrightarrow> p x = be_broadcast (tree_of n x) (S x) (buf x) sz (K x)"
    and "\<And>x. x < n \<Longrightarrow> length (buf x) = sz" and "0 < n"
  shows "reaches (spmd n p d) (spmd n (\<lambda>x. K x LMON_OK (buf 0)) d)"
proof -
  have "\<exists>j. nsteps j (spmd n p d)
      (spmd n (\<lambda>x. K x LMON_OK (if x = 0 then buf 0 else overlay (take sz (buf 0)) (buf x))) d)"
    by (rule bcast_steps [where buf = buf and K = "\<lambda>x. K x LMON_OK"])
      (use assms in \<open>simp_all add: be_broadcast_def daemon_internal_broadcast_def cobo_bcast_def LMON_DAEMON_MASTER_def subcom_def\<close>)
  moreover have "spmd n (\<lambda>x. K x LMON_OK (if x = 0 then buf 0 else overlay (take sz (buf 0)) (buf x))) d =
      spmd n (\<lambda>x. K x LMON_OK (buf 0)) d"
    by (rule spmd_cong) (use assms(2,3) in \<open>simp add: overlay_def\<close>)
  ultimately show ?thesis by (simp only: reaches_def)
qed

text \<open>The request as the front end sends it.\<close>

definition wf_request :: "string \<Rightarrow> string list \<Rightarrow> bool" where
  "wf_request path args \<longleftrightarrow> nul_free path \<and> path \<noteq> [] \<and> (\<forall>a \<in> set args. nul_free a \<and> a \<noteq> []) \<and>
     28 + length (coloc_payload path args) < 2 ^ 31"

lemma coloc_hdr_fields:
  "coloc_hdr n = lmonp_zero\<lparr>msgclass := 1, msgtype := of_nat (fetobe_code lmonp_febe_assist_mw_coloc),
     lmon_payload_length := of_nat n\<rparr>"
proof -
  have "exec_and_hn 0 0 = 0" by (simp add: exec_and_hn_def)
  then show ?thesis by (simp add: coloc_hdr_def set_msg_header_def Let_def lmonp_zero_def)
qed

lemma request_msg:
  assumes "wf_request path args"
  shows "wf_msg (coloc_hdr (length (coloc_payload path args))) (coloc_payload path args)"
    "unat (of_nat (length (coloc_payload path args)) :: u32) = length (coloc_payload path args)"
    "coloc_payload path args \<noteq> []"
proof -
  have l: "length (coloc_payload path args) < 2 ^ 31" using assms by (simp add: wf_request_def)
  then show u: "unat (of_nat (length (coloc_payload path args)) :: u32) = length (coloc_payload path args)"
    by (subst unat_of_nat) simp
  show "wf_msg (coloc_hdr (length (coloc_payload path args))) (coloc_payload path args)"
    using assms u by (simp add: wf_msg_def coloc_hdr_fields lmonp_zero_def lmonp_size_def wf_request_def)
  show "coloc_payload path args \<noteq> []" by (simp add: coloc_payload_def)
qed

lemma coloc_frontend_sends:
  assumes "wf_request path args" and "0 \<le> fd" and "ready l ins ((28 + length (coloc_payload path args)) # outs)"
  shows "\<exists>l'. coloc_frontend (coloc_fe fd path args hosts) l = (Inr True, l') \<and> ready l' ins outs \<and>
    lk_sent l' = lk_sent l @ enc_hdr (coloc_hdr (length (coloc_payload path args))) @ coloc_payload path args"
proof -
  let ?p = "coloc_payload path args"
  obtain l' where "lk_write (enc_hdr (coloc_hdr (length ?p)) @ ?p) (28 + int (length ?p)) l = (Inr (28 + int (length ?p)), l')"
    "ready l' ins outs" "lk_sent l' = lk_sent l @ enc_hdr (coloc_hdr (length ?p)) @ ?p"
    using lk.put [OF assms(3) request_msg(1) [OF assms(1)] refl] by blast
  then show ?thesis using assms(1,2)
    by (intro exI [of _ l'])
      (simp add: coloc_frontend_def coloc_fe_def new_spawner_def Let_def lmonp_size_def wf_request_def bindA_def ret_def)
qed

lemma coloc_request_ok:
  assumes "wf_request path args" and "\<And>k. length (junk k) = k"
    and "ready (be_link s) (enc_hdr (coloc_hdr (length (coloc_payload path args))) # coloc_payload path args # ins) outs"
  shows "\<exists>l. coloc_request junk s = (Inr (Inr (coloc_payload path args)), s\<lparr>be_link := l\<rparr>) \<and> ready l ins outs \<and>
    lk_sent l = lk_sent (be_link s)"
proof -
  let ?p = "coloc_payload path args"
  let ?h = "coloc_hdr (length ?p)"
  note m = request_msg [OF assms(1)]
  have l31: "length ?p < 2 ^ 31" using assms(1) by (simp add: wf_request_def)
  note s = sint_of_nat32 [OF l31]
  have t: "has_type (enc_hdr ?h) lmonp_febe_assist_mw_coloc"
    by (subst has_type_enc [of _ lmonp_febe_assist_mw_coloc]) (simp_all add: coloc_hdr_fields)
  have f: "unat (msgclass ?h) = class_code lmonp_fetobe" "lmon_payload_length ?h = of_nat (length ?p)"
    "both_lengths ?h = of_nat (length ?p)" "(of_nat (length ?p) :: u32) \<noteq> 0"
    using m(2,3) by (simp_all add: coloc_hdr_fields both_lengths_def lmonp_zero_def)
      (metis unat_0 length_0_conv)
  obtain l k where l: "lk_read_hdr (junk 28) (be_link s) = (Inr (28, enc_hdr ?h), l)"
    "lk_read_payload (junk (length ?p)) (int (length ?p)) l = (Inr (int (length ?p), ?p), k)"
    "ready k ins outs" "lk_sent k = lk_sent (be_link s)"
    using lk.get_message [OF assms(3) m(3) assms(2) refl assms(2)] by blast
  then show ?thesis
    by (intro exI [of _ k])
      (simp add: coloc_request_def bindA_def on_link_def zoomA_def ret_def lmonp_size_def t f m(2) s Let_def)
qed


definition started_beside :: "string \<Rightarrow> string list \<Rightarrow> 'u be_data \<Rightarrow> 'u be_data" where
  "started_beside path args s = s\<lparr>be_spawner := map_option (\<lambda>sp. sp\<lparr>daemon_path := path, daemon_args := args @ [[]],
     sp_execs := [path # args @ [[]]]\<rparr>) (be_spawner s)\<rparr>"

lemma coloc_fork_ok:
  assumes "wf_request path args" and "be_spawner s = Some sp" and "daemon_args sp = []" "sp_execs sp = []"
  shows "coloc_fork (coloc_payload path args) s = (Inr (Inr ()), started_beside path args s)"
proof -
  have w: "nul_free path" "path \<noteq> []" "\<forall>a \<in> set args. nul_free a \<and> a \<noteq> []"
    using assms(1) by (simp_all add: wf_request_def)
  have "read_cstr (coloc_payload path args) 0 = Some path"
    using read_cstr_cstr [OF w(1), of "[]" "concat (map cstr args) @ [0]"] by (simp add: coloc_payload_def)
  then show ?thesis
    using coloc_args_payload [OF w] assms(2-4)
    by (simp add: coloc_fork_def parse_mw_assist_lmonpl_def coloc_payload_def execute_daemon_def started_beside_def ret_def)
qed

lemma coloc_share_reaches:
  assumes n: "0 < n" and w: "wf_request path args" and junk: "\<And>k. length (junk k) = k"
    and p: "\<And>x. x < n \<Longrightarrow> p x = (if x = 0 then coloc_share (tree_of n x) (enc32 (of_nat (length (coloc_payload path args))))
        (\<lambda>_. coloc_payload path args) (S x) else coloc_share (tree_of n x) (junk 4) (\<lambda>leng. junk (unat leng)) (S x))"
    and sp: "\<And>x. x < n \<Longrightarrow> be_spawner (S x) = Some (sp x) \<and> daemon_args (sp x) = [] \<and> sp_execs (sp x) = []"
  shows "reaches (spmd n p d) (spmd n (\<lambda>x. Done (Inr LMON_OK, started_beside path args (S x))) d)"
proof -
  let ?P = "coloc_payload path args"
  let ?L = "of_nat (length ?P) :: u32"
  let ?pl = "\<lambda>(x :: nat) leng. if x = 0 then ?P else junk (unat leng)"
  let ?k2 = "\<lambda>x rc lmonpl. if rc \<noteq> LMON_OK then Done (Inr LMON_ESUBCOM, S x)
       else act_then (coloc_fork lmonpl) (S x) (\<lambda>_ s. Done (Inr LMON_OK, s))"
  let ?k1 = "\<lambda>x rc b. if rc \<noteq> LMON_OK then Done (Inr LMON_ESUBCOM, S x)
     else be_broadcast (tree_of n x) (S x) (?pl x (dec32 b)) (unat (dec32 b)) (?k2 x)"
  note u = request_msg(2) [OF w]
  have f: "coloc_fork ?P (S x) = (Inr (Inr ()), started_beside path args (S x))" if "x < n" for x
    using sp [OF that] by (intro coloc_fork_ok [OF w]) auto
  have p0: "p x = be_broadcast (tree_of n x) (S x) (if x = 0 then enc32 ?L else junk 4) 4 (?k1 x)" if "x < n" for x
    using p [OF that] by (cases "x = 0") (simp_all add: coloc_share_def cong: if_cong)
  have 1: "reaches (spmd n p d) (spmd n (\<lambda>x. ?k1 x LMON_OK (if (0 :: nat) = 0 then enc32 ?L else junk 4)) d)"
    by (rule be_broadcast_reaches [where buf = "\<lambda>x. if x = 0 then enc32 ?L else junk 4" and sz = 4 and K = ?k1 and S = S])
      (use n junk in \<open>simp_all add: p0\<close>)
  have 2: "reaches (spmd n (\<lambda>x. ?k1 x LMON_OK (enc32 ?L)) d) (spmd n (\<lambda>x. ?k2 x LMON_OK (?pl 0 ?L)) d)"
    by (rule be_broadcast_reaches [where buf = "\<lambda>x. ?pl x ?L" and sz = "length ?P" and K = ?k2 and S = S])
      (use n junk u in simp_all)
  have "spmd n (\<lambda>x. ?k2 x LMON_OK (?pl 0 ?L)) d = spmd n (\<lambda>x. Done (Inr LMON_OK, started_beside path args (S x))) d"
    by (rule spmd_cong) (simp add: act_then_def f)
  then show ?thesis using reaches_trans [OF 1] 2 by simp
qed

text \<open>The bytes that went out between two states of a connection.\<close>

definition sent_by :: "link \<Rightarrow> link \<Rightarrow> byte list" where
  "sent_by l l' = drop (length (lk_sent l)) (lk_sent l')"

section \<open>Properties\<close>



text \<open>C16: (functional) A launch beside the back-end daemons, from the front end to the last daemon: the front end's
  request goes out whole; when its bytes are what the master reads, all daemons end with
  \<open>LMON_OK\<close> whatever the order of their steps, and each has forked one process whose command
  line is the path, the arguments, and one empty argument more.\<close>

theorem coloc_launch:
  fixes S :: "nat \<Rightarrow> 'u be_data"
  assumes "wf_request path args" and "0 \<le> fd" and "ready l ins ((28 + length (coloc_payload path args)) # outs)"
    and "0 < n" and "\<And>x. x < n \<Longrightarrow> be_rank (S x) = int x \<and> be_spawner (S x) = Some (coloc_be (be_fd x))"
    and "m = sent_by l (snd (coloc_frontend (coloc_fe fd path args hosts) l))"
    and "ready (be_link (S 0)) [take 28 m, drop 28 m] []"
    and "\<And>k. length (junk k) = k"
  shows "fst (coloc_frontend (coloc_fe fd path args hosts) l) = Inr True \<and>
    (\<exists>u. converges (spmd n (\<lambda>x. be_assist_mw_coloc (tree_of n x) junk (S x)) d) (spmd n (\<lambda>x. Done (Inr LMON_OK, u x)) d) \<and>
      (\<forall>x<n. map_option sp_execs (be_spawner (u x)) = Some [path # args @ [[]]]))"
proof -
  let ?p = "coloc_payload path args"
  let ?h = "enc_hdr (coloc_hdr (length ?p))"
  obtain l' where l': "coloc_frontend (coloc_fe fd path args hosts) l = (Inr True, l')" "lk_sent l' = lk_sent l @ ?h @ ?p"
    using coloc_frontend_sends [OF assms(1-3), of hosts] by (elim exE conjE)
  have r: "ready (be_link (S 0)) [?h, ?p] []" using assms(6,7) l' by (simp add: sent_by_def)
  obtain k where k: "coloc_request junk (S 0) = (Inr (Inr ?p), (S 0)\<lparr>be_link := k\<rparr>)"
    using coloc_request_ok [OF assms(1,8) r] by (elim exE conjE)
  let ?S = "\<lambda>x. if x = 0 then (S 0)\<lparr>be_link := k\<rparr> else S x"
  have "reaches (spmd n (\<lambda>x. be_assist_mw_coloc (tree_of n x) junk (S x)) d)
      (spmd n (\<lambda>x. Done (Inr LMON_OK, started_beside path args (?S x))) d)"
    by (rule coloc_share_reaches [OF assms(4,1,8), where sp = "\<lambda>x. coloc_be (be_fd x)"])
      (use assms(5) k in \<open>auto simp: be_assist_mw_coloc_def is_master_def LMON_DAEMON_MASTER_def act_then_def
        coloc_be_def new_spawner_def\<close>)
  then have "converges (spmd n (\<lambda>x. be_assist_mw_coloc (tree_of n x) junk (S x)) d)
      (spmd n (\<lambda>x. Done (Inr LMON_OK, started_beside path args (?S x))) d)"
    by (intro converges_done) (simp only: reaches_def)
  moreover have "\<forall>x<n. map_option sp_execs (be_spawner (started_beside path args (?S x))) = Some [path # args @ [[]]]"
    using assms(5) by (simp add: started_beside_def)
  ultimately show ?thesis using l'(1) by (intro conjI exI [of _ "\<lambda>x. started_beside path args (?S x)"]) simp_all
qed


definition coloc_demo :: "rdans list \<Rightarrow> nat \<Rightarrow> unit be_data" where
  "coloc_demo rs x = (demo_daemon [] rs x)\<lparr>be_spawner := Some (coloc_be 3)\<rparr>"

theorem coloc_launch_witness:
  "\<exists>rs u. converges (spmd 2 (\<lambda>x. be_assist_mw_coloc (tree_of 2 x) (\<lambda>k. replicate k 0) (coloc_demo rs x)) (Inl Aborted, coloc_demo rs 0))
      (spmd 2 (\<lambda>x. Done (Inr LMON_OK, u x)) (Inl Aborted, coloc_demo rs 0)) \<and>
    (\<forall>x<2. map_option sp_execs (be_spawner (u x)) = Some [[''mwd'', ''-v'', '''']])"
proof -
  let ?l = "\<lparr>lk_reads = [], lk_writes = [Wrote 36], lk_sent = []\<rparr>"
  define m where "m = sent_by ?l (snd (coloc_frontend (coloc_fe 3 ''mwd'' [''-v''] [''a'']) ?l))"
  let ?D = "coloc_demo (map Data [take 28 m, drop 28 m])"
  have w: "wf_request ''mwd'' [''-v'']" by (auto simp: wf_request_def nul_free_def coloc_payload_def)
  have r: "ready ?l [] [28 + length (coloc_payload ''mwd'' [''-v''])]"
    using takes_prompt [of "[36]"] offers_prompt [of "[]"] by (simp add: ready_def coloc_payload_def)
  have z: "0 \<le> (3 :: int)" by simp
  obtain l' where "coloc_frontend (coloc_fe 3 ''mwd'' [''-v''] [''a'']) ?l = (Inr True, l')"
    "lk_sent l' = lk_sent ?l @ enc_hdr (coloc_hdr (length (coloc_payload ''mwd'' [''-v'']))) @ coloc_payload ''mwd'' [''-v'']"
    using coloc_frontend_sends [OF w z r, of "[''a'']"] by (elim exE conjE) (rule that; assumption)
  then have m: "m = enc_hdr (coloc_hdr (length (coloc_payload ''mwd'' [''-v'']))) @ coloc_payload ''mwd'' [''-v'']"
    by (simp add: m_def sent_by_def)
  have d: "ready (be_link (?D 0)) [take 28 m, drop 28 m] []"
    using offers_prompt [of "[take 28 m, drop 28 m]"] takes_prompt [of "[]"]
    by (simp add: m ready_def coloc_demo_def demo_daemon_def coloc_payload_def)
  have b: "be_rank (?D x) = int x \<and> be_spawner (?D x) = Some (coloc_be 3)" for x
    by (simp add: coloc_demo_def demo_daemon_def)
  have "\<exists>u. converges (spmd 2 (\<lambda>x. be_assist_mw_coloc (tree_of 2 x) (\<lambda>k. replicate k 0) (?D x)) (Inl Aborted, ?D 0))
      (spmd 2 (\<lambda>x. Done (Inr LMON_OK, u x)) (Inl Aborted, ?D 0)) \<and>
      (\<forall>x<2. map_option sp_execs (be_spawner (u x)) = Some [''mwd'' # [''-v''] @ [[]]])"
    by (rule conjunct2 [OF coloc_launch [OF w _ r _ b m_def d, of 2 "\<lambda>k. replicate k 0"]]) simp_all
  then show ?thesis by (intro exI [of _ "map Data [take 28 m, drop 28 m]"]) simp
qed

text \<open>The empty argument hides the session's options from the daemon that is started so: it takes as many
  arguments off its end as it found options, which are the empty one and the session's check,
  and hands the tool a command line that ends with the shared secret.\<close>

theorem coloc_secret_left:
  assumes "rsh_opts args = []" and "\<forall>a \<in> set args. scan_opts [a] = []"
    and "ssec = ''--lmonsharedsec='' @ key" and "secchk = ''--lmonsecchk='' @ chk"
  shows "mw_daemon_internal_init R (path # (args @ [ssec, secchk]) @ [[]]) = Inr (None, path # (args @ [ssec, secchk]) @ [[]]) \<and>
    takeWhile (\<lambda>a. a \<noteq> None) (snd (init_args (path # (args @ [ssec, secchk]) @ [[]]))) = map Some (path # args @ [ssec])"
proof -
  have r: "rsh_opts (args @ [ssec, secchk] @ [[]]) = []"
    using assms(1) by (simp add: rsh_opts_append rsh_value_def LMON_RSHSPAWNER_OPT_def assms(3,4))
  have "scan_opts [ssec, secchk, []] = [(''LMON_SHARED_SECRET'', key), (''LMON_SEC_CHK'', chk)]"
    by (simp add: opt_value_def assms(3,4))
  then have s: "scan_opts (args @ [ssec, secchk, []]) = [(''LMON_SHARED_SECRET'', key), (''LMON_SEC_CHK'', chk)]"
    using scan_opts_none [OF assms(2)] by (simp only: scan_opts_append append_Nil)
  have t: "takeWhile (\<lambda>a. a \<noteq> None) (map Some xs @ None # ys) = map Some xs" for xs :: "string list" and ys
    by (induction xs) simp_all
  have "\<exists>ys. snd (init_args (path # (args @ [ssec, secchk]) @ [[]])) = map Some (path # args @ [ssec]) @ None # ys"
    using s by (simp add: init_args_def Let_def)
  then show ?thesis using r t by (auto simp only: mw_daemon_internal_init_def Let_def) simp
qed

theorem coloc_secret_left_witness:
  "takeWhile (\<lambda>a. a \<noteq> None) (snd (init_args (''mwd'' # ([''-v''] @ [''--lmonsharedsec=42'', ''--lmonsecchk=7'']) @ [[]]))) =
     map Some [''mwd'', ''-v'', ''--lmonsharedsec=42'']"
  using coloc_secret_left [of "[''-v'']" "''--lmonsharedsec=42''" "''42''" "''--lmonsecchk=7''" "''7''" "''rsh''" "''mwd''"]
  by (simp add: rsh_value_def LMON_RSHSPAWNER_OPT_def opt_value_def)

end
