(* ===== verification/Fe_Session.thy ===== *)
theory Fe_Session
  imports Lmon_Mw
begin

text \<open>
  The sessions of the front end, \<^verbatim>\<open>lmon_fe.cxx\<close>: their descriptors and the circular table of
  them, what registers, reads and ends a session, and the watchdog thread, which turns the
  engine's messages into changes of its session. A session's mutex is part of its state.
\<close>

unbundle bit_operations_syntax

section \<open>State\<close>

definition MAX_LMON_SESSION :: nat where "MAX_LMON_SESSION = 100"
definition LMON_INIT :: int where "LMON_INIT = -1"
definition DFLT_FE_TOUT :: int where "DFLT_FE_TOUT = 120"
definition MAX_TIMEOUT :: int where "MAX_TIMEOUT = 6000"

text \<open>\<open>boolean_e\<close> is \<open>bool\<close>; where the code assigns \<open>LMON_FALSE\<close> to a number, its value counts.\<close>

definition LMON_FALSE_value :: int where "LMON_FALSE_value = 1"

text \<open>A pointer to memory the session owns.\<close>

datatype block = Null | Block "byte list" | Freed

text \<open>\<open>cm_link\<close> is the socket behind \<open>sessionAcceptSockFd\<close>; \<open>cm_closed\<close> says that the descriptor
  was closed and is still in use.\<close>

record comm_desc =
  cm_ip :: string
  cm_port :: u16
  cm_listen :: int
  cm_accept :: int
  cm_daemons :: int
  cm_closed :: bool
  cm_link :: link

record rm_info_t =
  rm_supported_types :: "rm_catalogue_e list option"
  num_supported_types :: int
  index_to_cur_instance :: int
  ri_launcher_pid :: int

text \<open>The client's functions are as in \<open>Lmon_Be\<close>; \<open>statusCB\<close> is called with a status and its
  result is only reported. \<open>watching\<close> says that the watchdog thread runs. \<open>s_waits\<close> is the
  scheduler: how many of the engine's messages the watchdog handles when it is let run, and
  what \<open>pthread_cond_timedwait\<close> returns then.\<close>

record 'u fe_session =
  registered :: bool
  spawned :: bool
  mw_spawned :: bool
  detached :: bool
  killed :: bool
  le_pid :: int
  rm_launcher_pid :: int
  rm_info :: rm_info_t
  cipher_key :: "byte list option"
  shared_key :: "byte list"
  randomID :: int
  s_pack :: "('u \<Rightarrow> int \<times> byte list) option"
  s_unpack :: "(byte list \<Rightarrow> 'u \<Rightarrow> int \<times> 'u) option"
  s_mw_pack :: "('u \<Rightarrow> int \<times> byte list) option"
  s_mw_unpack :: "(byte list \<Rightarrow> 'u \<Rightarrow> int \<times> 'u) option"
  fe_be_conn :: comm_desc
  fe_mw_conn :: comm_desc
  fe_engine_conn :: comm_desc
  resourceHandle :: int
  be_env_list :: "(string \<times> string) list"
  mw_env_list :: "(string \<times> string) list"
  proctab_msg :: "byte list option"
  hntab_msg :: "byte list option"
  hntab_mw_msg :: block
  pMap :: proctable
  spawner_vector :: "spawner list"
  statusCB :: bool
  status_calls :: "int list"
  eventMutex :: bool
  watching :: bool
  s_waits :: "(nat \<times> int) list"

record 'u fe =
  sessionDescArray :: "'u fe_session list"
  sessionPtrIndex :: nat
  resmanager :: rc_rm_t

type_synonym ('u, 'a) fes = "('u fe_session, 'a) act"

section \<open>The mutex\<close>

text \<open>Locking a mutex that is held does not return, for its holder is the same thread or one
  that waits for it; unlocking one that is not held is undefined.\<close>

definition lockA :: "('u, unit) fes" where
  "lockA s = (if eventMutex s then throw No_return s else ret () (s\<lparr>eventMutex := True\<rparr>))"

definition unlockA :: "('u, unit) fes" where
  "unlockA s = (if eventMutex s then ret () (s\<lparr>eventMutex := False\<rparr>) else throw Undefined_behaviour s)"

definition locked :: "('u, 'a) fes \<Rightarrow> ('u, 'a) fes" where
  "locked m = bindA lockA (\<lambda>_. bindA m (\<lambda>x. bindA unlockA (\<lambda>_. ret x)))"

text \<open>A handle of 100 passes the test of every call and is no index of the table.\<close>

definition on_session :: "nat \<Rightarrow> ('u, 'a) fes \<Rightarrow> ('u fe, 'a) act" where
  "on_session i = zoomA (\<lambda>s. sessionDescArray s ! i) (\<lambda>d s. s\<lparr>sessionDescArray := (sessionDescArray s)[i := d]\<rparr>)"

definition with_session :: "int \<Rightarrow> 'a \<Rightarrow> ('u, 'a) fes \<Rightarrow> ('u fe, 'a) act" where
  "with_session sessionHandle bad m s =
     (if sessionHandle < 0 \<or> sessionHandle > int MAX_LMON_SESSION then ret bad s
      else if length (sessionDescArray s) \<le> nat sessionHandle then throw Undefined_behaviour s
      else on_session (nat sessionHandle) m s)"

section \<open>Descriptors\<close>

definition comm_init :: "comm_desc \<Rightarrow> comm_desc" where
  "comm_init c = c\<lparr>cm_ip := [], cm_port := 0, cm_listen := LMON_INIT, cm_accept := LMON_INIT, cm_closed := False\<rparr>"

definition comm_close :: "comm_desc \<Rightarrow> comm_desc" where
  "comm_close c = c\<lparr>cm_ip := [], cm_port := 0, cm_closed := True\<rparr>"

definition init_rm_info :: "rm_catalogue_e list \<Rightarrow> rm_info_t" where
  "init_rm_info tmpinfo = \<lparr>rm_supported_types = (if tmpinfo = [] then None else Some tmpinfo),
     num_supported_types = int (length tmpinfo), index_to_cur_instance = -1, ri_launcher_pid = -1\<rparr>"

definition init_sess :: "rm_catalogue_e list \<Rightarrow> 'u fe_session \<Rightarrow> 'u fe_session" where
  "init_sess rms s = s\<lparr>s_pack := None, s_unpack := None, s_mw_pack := None, s_mw_unpack := None,
     be_env_list := [], mw_env_list := [],
     registered := False, spawned := False, mw_spawned := False, detached := False, killed := False,
     le_pid := LMON_FALSE_value, rm_launcher_pid := LMON_FALSE_value, rm_info := init_rm_info rms,
     shared_key := replicate LMON_KEY_LENGTH 0, randomID := LMON_FALSE_value,
     fe_be_conn := comm_init (fe_be_conn s), fe_mw_conn := comm_init (fe_mw_conn s),
     fe_engine_conn := comm_init (fe_engine_conn s),
     proctab_msg := None, hntab_msg := None, resourceHandle := LMON_INIT, statusCB := False\<rparr>"

text \<open>The middleware's host table is freed and its pointer neither cleared here nor set by
  \<open>LMON_init_sess\<close>.\<close>

definition destroy_sess :: "('u, unit) fes" where
  "destroy_sess s =
     (if hntab_mw_msg s = Freed then throw Undefined_behaviour s
      else ret () (s\<lparr>s_pack := None, s_unpack := None, s_mw_pack := None, s_mw_unpack := None,
     be_env_list := [], mw_env_list := [],
     registered := False, spawned := False, mw_spawned := False, detached := False, killed := False,
     le_pid := LMON_FALSE_value, rm_launcher_pid := LMON_FALSE_value,
     rm_info := \<lparr>rm_supported_types = None, num_supported_types = LMON_FALSE_value,
       index_to_cur_instance = LMON_FALSE_value, ri_launcher_pid = LMON_FALSE_value\<rparr>,
     shared_key := replicate LMON_KEY_LENGTH 0, randomID := LMON_FALSE_value, cipher_key := None,
     fe_be_conn := comm_close (fe_be_conn s), fe_mw_conn := comm_close (fe_mw_conn s),
     fe_engine_conn := comm_close (fe_engine_conn s),
     proctab_msg := None, hntab_msg := None,
     hntab_mw_msg := (case hntab_mw_msg s of Null \<Rightarrow> Null | _ \<Rightarrow> Freed),
     resourceHandle := LMON_INIT, pMap := [], spawner_vector := [], statusCB := False\<rparr>))"

section \<open>The environment of the daemons\<close>

text \<open>\<open>NULL\<close> is \<open>None\<close>. Reading behind the array is undefined.\<close>

definition putToDaemonEnv ::
  "(string \<times> string) list \<Rightarrow> (string \<times> string) list option \<Rightarrow> int \<Rightarrow> exn + (lmon_rc_e \<times> (string \<times> string) list)" where
  "putToDaemonEnv sessEnv dmonEnv numElem =
     (case dmonEnv of
        None \<Rightarrow> Inr (LMON_EINVAL, sessEnv)
      | Some d \<Rightarrow>
          (if numElem \<le> 0 then Inr (LMON_EINVAL, sessEnv)
           else if length d < nat numElem then Inl Undefined_behaviour
           else Inr (LMON_OK, sessEnv @ take (nat numElem) d)))"

section \<open>Status\<close>

definition status_of :: "'u fe_session \<Rightarrow> int" where
  "status_of s =
     (let bit = (\<lambda>b k. if b then push_bit k 1 else 0)
      in bit (registered s) 0 OR bit (spawned s) 1 OR bit (mw_spawned s) 2 OR bit (detached s) 3 OR bit (killed s) 4)"

definition notify :: "'u fe_session \<Rightarrow> 'u fe_session" where
  "notify s = (if statusCB s then s\<lparr>status_calls := status_calls s @ [status_of s]\<rparr> else s)"

section \<open>A connection\<close>

text \<open>The calls on a descriptor that is not open fail with -1.\<close>

definition chan :: "('u fe_session \<Rightarrow> comm_desc) \<Rightarrow> ((comm_desc \<Rightarrow> comm_desc) \<Rightarrow> 'u fe_session \<Rightarrow> 'u fe_session) \<Rightarrow>
    'a \<Rightarrow> (link, 'a) act \<Rightarrow> ('u, 'a) fes" where
  "chan get upd bad m s =
     (if cm_accept (get s) < 0 \<or> cm_closed (get s) then ret bad s
      else (case m (cm_link (get s)) of (r, l) \<Rightarrow> (r, upd (cm_link_update (\<lambda>_. l)) s)))"

definition be_write :: "byte list \<Rightarrow> int \<Rightarrow> ('u, int) fes" where
  "be_write msg n = chan fe_be_conn fe_be_conn_update (-1) (lk_write msg n)"

definition be_read_hdr :: "byte list \<Rightarrow> ('u, int \<times> byte list) fes" where
  "be_read_hdr old = chan fe_be_conn fe_be_conn_update (-1, old) (lk_read_hdr old)"

definition be_read_payload :: "byte list \<Rightarrow> int \<Rightarrow> ('u, int \<times> byte list) fes" where
  "be_read_payload old n = chan fe_be_conn fe_be_conn_update (-1, old) (lk_read_payload old n)"

definition mw_write :: "byte list \<Rightarrow> int \<Rightarrow> ('u, int) fes" where
  "mw_write msg n = chan fe_mw_conn fe_mw_conn_update (-1) (lk_write msg n)"

definition mw_read_hdr :: "byte list \<Rightarrow> ('u, int \<times> byte list) fes" where
  "mw_read_hdr old = chan fe_mw_conn fe_mw_conn_update (-1, old) (lk_read_hdr old)"

definition mw_read_payload :: "byte list \<Rightarrow> int \<Rightarrow> ('u, int \<times> byte list) fes" where
  "mw_read_payload old n = chan fe_mw_conn fe_mw_conn_update (-1, old) (lk_read_payload old n)"

definition en_write :: "byte list \<Rightarrow> int \<Rightarrow> ('u, int) fes" where
  "en_write msg n = chan fe_engine_conn fe_engine_conn_update (-1) (lk_write msg n)"

definition en_read_hdr :: "byte list \<Rightarrow> ('u, int \<times> byte list) fes" where
  "en_read_hdr old = chan fe_engine_conn fe_engine_conn_update (-1, old) (lk_read_hdr old)"

definition en_read_payload :: "byte list \<Rightarrow> int \<Rightarrow> ('u, int \<times> byte list) fes" where
  "en_read_payload old n = chan fe_engine_conn fe_engine_conn_update (-1, old) (lk_read_payload old n)"

section \<open>The messages of the engine\<close>

text \<open>The payload's buffer has the exact sum of the lengths, the read asks for the sum of 32 bits.\<close>

definition handle_proctab_event :: "(nat \<Rightarrow> byte list) \<Rightarrow> byte list \<Rightarrow> ('u, int) fes" where
  "handle_proctab_event junk msg =
     (let h = dec_hdr msg; buf = junk (unat (lmon_payload_length h) + unat (usr_payload_length h)) in
      bindA (en_read_payload buf (sint (both_lengths h))) (\<lambda>(bytesread, pl).
        if bytesread \<noteq> sint (both_lengths h) then ret (-1)
        else bindA (modA (\<lambda>s. s\<lparr>proctab_msg := Some (msg @ pl)\<rparr>)) (\<lambda>_. ret 0)))"

definition handle_resourcehandle_event :: "(nat \<Rightarrow> byte list) \<Rightarrow> byte list \<Rightarrow> ('u, int) fes" where
  "handle_resourcehandle_event junk msg =
     (let h = dec_hdr msg in
      if both_lengths h \<noteq> 8 then ret (-1)
      else bindA (en_read_payload (junk 8) (sint (both_lengths h))) (\<lambda>(bytesread, pl).
        if bytesread \<noteq> sint (both_lengths h) then ret (-1)
        else bindA (modA (\<lambda>s. s\<lparr>resourceHandle := sint (dec64 pl)\<rparr>)) (\<lambda>_. ret 0)))"

text \<open>The first entry of the table with the code of the message, from \<open>i\<close> on. A code outside the
  enumeration is no entry's.\<close>

fun find_rm :: "rm_catalogue_e list \<Rightarrow> u32 \<Rightarrow> nat \<Rightarrow> nat option" where
  "find_rm [] w i = None"
| "find_rm (t # ts) w i = (if pos_of rm_codes t = unat w then Some i else find_rm ts w (Suc i))"

definition handle_rminfo_event :: "(nat \<Rightarrow> byte list) \<Rightarrow> byte list \<Rightarrow> ('u, int) fes" where
  "handle_rminfo_event junk msg =
     (let h = dec_hdr msg in
      if both_lengths h \<noteq> 8 then ret (-1)
      else bindA (en_read_payload (junk 8) (sint (both_lengths h))) (\<lambda>(bytesread, pl).
        if bytesread \<noteq> sint (both_lengths h) then ret (-1)
        else (\<lambda>s.
          let p = sint (dec32 (take 4 pl));
              i = find_rm (case rm_supported_types (rm_info s) of None \<Rightarrow> [] | Some ts \<Rightarrow> ts) (dec32 (drop 4 pl)) 0
          in ret (case i of None \<Rightarrow> -1 | Some _ \<Rightarrow> 0)
               (s\<lparr>rm_launcher_pid := p, rm_info := (rm_info s)\<lparr>ri_launcher_pid := p,
                  index_to_cur_instance := (case i of None \<Rightarrow> index_to_cur_instance (rm_info s) | Some i \<Rightarrow> int i)\<rparr>\<rparr>))))"

section \<open>The watchdog thread\<close>

definition fetofe_is :: "byte list \<Rightarrow> lmonp_fe_to_fe_msg_e \<Rightarrow> bool" where
  "fetofe_is msg ty \<longleftrightarrow> unat (msgtype (dec_hdr msg)) = fetofe_code ty"

text \<open>One message; the result says whether the loop goes on. A handler that fails ends it, as
  do all messages that end the engine's part in the session.\<close>

definition ends_watch :: "('u fe_session \<Rightarrow> 'u fe_session) \<Rightarrow> ('u, bool) fes" where
  "ends_watch f = locked (bindA (modA (\<lambda>s. notify (f s))) (\<lambda>_. ret False))"

definition watchdog_event :: "(nat \<Rightarrow> byte list) \<Rightarrow> byte list \<Rightarrow> ('u, bool) fes" where
  "watchdog_event junk msg =
     (if fetofe_is msg lmonp_stop_at_launch_bp_spawned \<or> fetofe_is msg lmonp_stop_at_first_attach then ret True
      else if fetofe_is msg lmonp_proctable_avail then
        locked (bindA (handle_proctab_event junk msg) (\<lambda>rc.
          if rc \<noteq> 0 then ret False else bindA (modA (\<lambda>s. notify (s\<lparr>spawned := True\<rparr>))) (\<lambda>_. ret True)))
      else if fetofe_is msg lmonp_resourcehandle_avail then
        locked (bindA (handle_resourcehandle_event junk msg) (\<lambda>rc. ret (rc = 0)))
      else if fetofe_is msg lmonp_rminfo then
        locked (bindA (handle_rminfo_event junk msg) (\<lambda>rc. ret (rc = 0)))
      else if fetofe_is msg lmonp_detach_done then ends_watch (\<lambda>s. s\<lparr>detached := True\<rparr>)
      else if fetofe_is msg lmonp_kill_done then ends_watch (\<lambda>s. s\<lparr>killed := True\<rparr>)
      else if fetofe_is msg lmonp_stop_tracing then ends_watch (\<lambda>s. s\<lparr>detached := True\<rparr>)
      else if fetofe_is msg lmonp_bedmon_exited \<or> fetofe_is msg lmonp_mwdmon_exited then
        ends_watch (\<lambda>s. s\<lparr>detached := True, spawned := False\<rparr>)
      else if fetofe_is msg lmonp_exited \<or> fetofe_is msg lmonp_terminated \<or> fetofe_is msg lmonp_stop_at_launch_bp_abort then
        ends_watch (\<lambda>s. s\<lparr>killed := True\<rparr>)
      else ret False)"

text \<open>A round of the loop. While no message is there the thread waits in \<open>read\<close>, and the others
  go on.\<close>

definition watchdog_round :: "(nat \<Rightarrow> byte list) \<Rightarrow> ('u, unit) fes" where
  "watchdog_round junk s =
     (if \<not> watching s then ret () s
      else (case en_read_hdr (junk lmonp_size) s of
        (Inl _, _) \<Rightarrow> ret () s
      | (Inr (rc, msg), t) \<Rightarrow>
          (if rc < 0 then ret () (t\<lparr>watching := False\<rparr>)
           else bindA (watchdog_event junk msg) (\<lambda>more. modA (\<lambda>s. if more then s else s\<lparr>watching := False\<rparr>)) t)))"

fun watchdog_runs :: "(nat \<Rightarrow> byte list) \<Rightarrow> nat \<Rightarrow> ('u, unit) fes" where
  "watchdog_runs junk 0 = ret ()"
| "watchdog_runs junk (Suc k) = bindA (watchdog_round junk) (\<lambda>_. watchdog_runs junk k)"

text \<open>Where the scheduler lets the watchdog run: the main thread in \<open>pthread_cond_timedwait\<close>, and
  right after the thread was created.\<close>

definition cond_timedwait :: "(nat \<Rightarrow> byte list) \<Rightarrow> ('u, int) fes" where
  "cond_timedwait junk s = (case s_waits s of
     [] \<Rightarrow> throw No_return s
   | (k, rc) # ws \<Rightarrow> bindA unlockA (\<lambda>_. bindA (watchdog_runs junk k) (\<lambda>_. bindA lockA (\<lambda>_. ret rc))) (s\<lparr>s_waits := ws\<rparr>))"

definition start_watchdog :: "(nat \<Rightarrow> byte list) \<Rightarrow> ('u, unit) fes" where
  "start_watchdog junk s = (case s_waits s of
     [] \<Rightarrow> ret () (s\<lparr>watching := True\<rparr>)
   | (k, _) # ws \<Rightarrow> watchdog_runs junk k (s\<lparr>watching := True, s_waits := ws\<rparr>))"

section \<open>The table of sessions\<close>

text \<open>What the system answers: to the opening of a listening socket, to \<open>rand\<close>, libgcrypt, the
  environment and the rest.\<close>

record sock_ans =
  sa_gethostname :: bool
  sa_resolved :: bool
  sa_socket :: int
  sa_bind :: int
  sa_listen :: int
  sa_fcntl :: int
  sa_getsockname :: int
  sa_ntop :: "string option"
  sa_port :: u16

definition openBindAndListen :: "sock_ans \<Rightarrow> lmon_rc_e \<times> int option" where
  "openBindAndListen a =
     (if \<not> sa_gethostname a \<or> \<not> sa_resolved a then (LMON_ESYS, None)
      else if sa_socket a < 0 then (LMON_ESYS, Some (sa_socket a))
      else if sa_bind a < 0 \<or> sa_listen a < 0 \<or> sa_fcntl a < 0 then (LMON_ESYS, Some (sa_socket a))
      else (LMON_OK, Some (sa_socket a)))"

record fe_sys =
  sy_socks :: "nat \<Rightarrow> sock_ans"
  sy_rand :: "int \<times> int"
  sy_gcry_open :: bool
  sy_gcry_setkey :: bool
  sy_decipher :: "byte list \<Rightarrow> byte list \<Rightarrow> byte list option"
  sy_getenv :: "string \<Rightarrow> string option"
  sy_atoi :: "string \<Rightarrow> int"
  sy_accept_engine :: "int \<times> acans list"
  sy_accept_be :: "int \<times> acans list"
  sy_cobosec :: int
  sy_cobo :: "nat \<Rightarrow> string list \<Rightarrow> int option"
  sy_thread :: int

definition fe_init ::
  "int \<Rightarrow> (string \<Rightarrow> bool) \<Rightarrow> (string \<Rightarrow> string option) \<Rightarrow> (string \<Rightarrow> string option) \<Rightarrow> string \<Rightarrow> string \<Rightarrow> int \<Rightarrow> ('u fe, lmon_rc_e) act"
where
  "fe_init ver readable env files built_in os_isa_str atfork s =
     (if ver \<noteq> LMON_VERSION then ret LMON_EINVAL s
      else (let rms = snd (rc_init readable env files built_in os_isa_str (resmanager s)) in
        ret (if atfork \<noteq> 0 then LMON_ESYS else LMON_OK)
          (s\<lparr>resmanager := rms, sessionPtrIndex := 0,
             sessionDescArray := map (\<lambda>d. init_sess (map rm (supported_rms rms)) (d\<lparr>eventMutex := False\<rparr>)) (sessionDescArray s)\<rparr>)))"

text \<open>The three listening sockets; the descriptor is stored whether or not the rest succeeds.\<close>

definition comm_opened :: "sock_ans \<Rightarrow> comm_desc \<Rightarrow> bool \<times> comm_desc" where
  "comm_opened a c =
     (case openBindAndListen a of (rc, fd) \<Rightarrow>
       let c = (case fd of None \<Rightarrow> c | Some fd \<Rightarrow> c\<lparr>cm_listen := fd\<rparr>) in
       if rc \<noteq> LMON_OK \<or> sa_getsockname a < 0 then (False, c)
       else (case sa_ntop a of None \<Rightarrow> (False, c\<lparr>cm_port := sa_port a\<rparr>)
         | Some ip \<Rightarrow> (True, c\<lparr>cm_port := sa_port a, cm_ip := ip\<rparr>)))"

definition open_comm :: "('u fe_session \<Rightarrow> comm_desc) \<Rightarrow> ((comm_desc \<Rightarrow> comm_desc) \<Rightarrow> 'u fe_session \<Rightarrow> 'u fe_session) \<Rightarrow>
    sock_ans \<Rightarrow> ('u, lmon_rc_e + unit) fes" where
  "open_comm get upd a s = (case comm_opened a (get s) of (ok, c) \<Rightarrow>
     ret (if ok then Inr () else Inl LMON_ESYS) (upd (\<lambda>_. c) s))"

definition key_text :: "int \<Rightarrow> byte list" where
  "key_text r = take LMON_KEY_LENGTH (cstr (show_int r) @ replicate LMON_KEY_LENGTH 0)"

definition make_key :: "fe_sys \<Rightarrow> ('u, lmon_rc_e + unit) fes" where
  "make_key y s =
     (let s = s\<lparr>randomID := fst (sy_rand y), shared_key := key_text (snd (sy_rand y))\<rparr> in
      if \<not> sy_gcry_open y then ret (Inl LMON_ESYS) s
      else if \<not> sy_gcry_setkey y then ret (Inl LMON_ESYS) s
      else ret (Inr ()) (s\<lparr>cipher_key := Some (shared_key s), registered := True\<rparr>))"

definition secchk_env :: "comm_desc \<Rightarrow> fe_sys \<Rightarrow> (string \<times> string) list" where
  "secchk_env c y =
     [(''LMON_FE_WHERETOCONNECT_ADDR'', cm_ip c), (''LMON_FE_WHERETOCONNECT_PORT'', show_int (uint (cm_port c))),
      (''LMON_SEC_CHK'', show_int (fst (sy_rand y))), (''LMON_SHARED_SECRET'', show_int (snd (sy_rand y)))]"

text \<open>With \<open>LMON_DEBUG_BES\<close> a missing \<open>DISPLAY\<close> is handed to \<open>strdup\<close>; with \<open>LMON_DEBUG_MWS\<close> the
  second element of an array of one is written.\<close>

definition fill_env :: "fe_sys \<Rightarrow> ('u, unit) fes" where
  "fill_env y s =
     (let s = s\<lparr>be_env_list := be_env_list s @ secchk_env (fe_be_conn s) y\<rparr> in
      if sy_getenv y ''LMON_DEBUG_BES'' \<noteq> None \<and> sy_getenv y ''DISPLAY'' = None then throw Undefined_behaviour s
      else (let s = (case (sy_getenv y ''LMON_DEBUG_BES'', sy_getenv y ''DISPLAY'') of
              (Some _, Some d) \<Rightarrow> s\<lparr>be_env_list := be_env_list s @ [(''LMON_DEBUG_BES'', ''yes''), (''DISPLAY'', d)]\<rparr> | _ \<Rightarrow> s);
                s = s\<lparr>mw_env_list := mw_env_list s @ secchk_env (fe_mw_conn s) y\<rparr>
            in if sy_getenv y ''LMON_DEBUG_MWS'' \<noteq> None then throw Undefined_behaviour s else ret () s))"

text \<open>\<open>Inr ()\<close> is a session that was set up. The last index of the table makes the index wrap
  around, and then the return code is \<open>LMON_EINVAL\<close>, set at the start, whether or not the next
  descriptor is in use.\<close>

definition new_session :: "fe_sys \<Rightarrow> ('u, lmon_rc_e + unit) fes" where
  "new_session y =
     (\<lambda>s. if registered s then ret (Inl LMON_EINVAL) s
      else stepA (open_comm fe_be_conn fe_be_conn_update (sy_socks y 0)) (\<lambda>_.
           stepA (open_comm fe_mw_conn fe_mw_conn_update (sy_socks y 1)) (\<lambda>_.
           stepA (open_comm fe_engine_conn fe_engine_conn_update (sy_socks y 2)) (\<lambda>_.
           stepA (make_key y) (\<lambda>_.
           bindA (fill_env y) (\<lambda>_. ret (Inr ())))))) s)"

definition fe_createSession :: "fe_sys \<Rightarrow> ('u fe, lmon_rc_e \<times> nat) act" where
  "fe_createSession y s =
     (let i = sessionPtrIndex s in
      bindA (on_session i (locked (new_session y))) (\<lambda>r s.
        case r of Inl rc \<Rightarrow> ret (rc, i) s
        | Inr _ \<Rightarrow>
            (let j = sessionPtrIndex s + 1 in
             if j div MAX_LMON_SESSION = 1 then ret (LMON_EINVAL, i) (s\<lparr>sessionPtrIndex := j mod MAX_LMON_SESSION\<rparr>)
             else ret (LMON_OK, i) (s\<lparr>sessionPtrIndex := j\<rparr>))) s)"

section \<open>Registration\<close>

definition guarded :: "'a \<Rightarrow> ('u, 'a) fes \<Rightarrow> ('u, 'a) fes" where
  "guarded bad m = locked (\<lambda>s. if \<not> registered s then ret bad s else m s)"

definition fe_register :: "int \<Rightarrow> 'f option \<Rightarrow> ('f \<Rightarrow> 'u fe_session \<Rightarrow> 'u fe_session) \<Rightarrow> ('u fe, lmon_rc_e) act" where
  "fe_register sessionHandle func put = (case func of
     None \<Rightarrow> ret LMON_EBDARG
   | Some f \<Rightarrow> with_session sessionHandle LMON_EBDARG (guarded LMON_EBDARG (\<lambda>s.
       if spawned s then ret LMON_EINVAL s else ret LMON_OK (put f s))))"

definition fe_regPackForFeToBe :: "int \<Rightarrow> ('u \<Rightarrow> int \<times> byte list) option \<Rightarrow> ('u fe, lmon_rc_e) act" where
  "fe_regPackForFeToBe h packFebe = fe_register h packFebe (\<lambda>f s. s\<lparr>s_pack := Some f\<rparr>)"

definition fe_regUnpackForBeToFe :: "int \<Rightarrow> (byte list \<Rightarrow> 'u \<Rightarrow> int \<times> 'u) option \<Rightarrow> ('u fe, lmon_rc_e) act" where
  "fe_regUnpackForBeToFe h unpackBefe = fe_register h unpackBefe (\<lambda>f s. s\<lparr>s_unpack := Some f\<rparr>)"

definition fe_regPackForFeToMw :: "int \<Rightarrow> ('u \<Rightarrow> int \<times> byte list) option \<Rightarrow> ('u fe, lmon_rc_e) act" where
  "fe_regPackForFeToMw h packFemw = fe_register h packFemw (\<lambda>f s. s\<lparr>s_mw_pack := Some f\<rparr>)"

definition fe_regUnpackForMwToFe :: "int \<Rightarrow> (byte list \<Rightarrow> 'u \<Rightarrow> int \<times> 'u) option \<Rightarrow> ('u fe, lmon_rc_e) act" where
  "fe_regUnpackForMwToFe h unpackMwfe = fe_register h unpackMwfe (\<lambda>f s. s\<lparr>s_mw_unpack := Some f\<rparr>)"

definition put_env :: "('u fe_session \<Rightarrow> (string \<times> string) list) \<Rightarrow>
    (((string \<times> string) list \<Rightarrow> (string \<times> string) list) \<Rightarrow> 'u fe_session \<Rightarrow> 'u fe_session) \<Rightarrow>
    (string \<times> string) list option \<Rightarrow> int \<Rightarrow> ('u, lmon_rc_e) fes" where
  "put_env get upd dmonEnv numElem = guarded LMON_EBDARG (\<lambda>s.
     if spawned s then ret LMON_EINVAL s
     else (case putToDaemonEnv (get s) dmonEnv numElem of
       Inl e \<Rightarrow> throw e s | Inr (rc, l) \<Rightarrow> ret rc (upd (\<lambda>_. l) s)))"

definition fe_putToBeDaemonEnv :: "int \<Rightarrow> (string \<times> string) list option \<Rightarrow> int \<Rightarrow> ('u fe, lmon_rc_e) act" where
  "fe_putToBeDaemonEnv h dmonEnv numElem =
     with_session h LMON_EBDARG (put_env be_env_list be_env_list_update dmonEnv numElem)"

definition fe_putToMwDaemonEnv :: "int \<Rightarrow> (string \<times> string) list option \<Rightarrow> int \<Rightarrow> ('u fe, lmon_rc_e) act" where
  "fe_putToMwDaemonEnv h dmonEnv numElem =
     with_session h LMON_EBDARG (put_env mw_env_list mw_env_list_update dmonEnv numElem)"

definition fe_regStatusCB :: "int \<Rightarrow> bool \<Rightarrow> ('u fe, lmon_rc_e) act" where
  "fe_regStatusCB h func =
     (if \<not> func then ret LMON_EBDARG
      else with_session h LMON_EBDARG (locked (\<lambda>s. ret LMON_OK (s\<lparr>statusCB := True\<rparr>))))"

section \<open>What a client reads\<close>

definition fe_getStatus :: "int \<Rightarrow> ('u fe, lmon_rc_e \<times> int option) act" where
  "fe_getStatus h = with_session h (LMON_EBDARG, None) (locked (\<lambda>s. ret (LMON_OK, Some (status_of s)) s))"

text \<open>The macros of \<^verbatim>\<open>lmon_fe.h\<close>.\<close>

definition WIF :: "nat \<Rightarrow> int \<Rightarrow> bool" where "WIF k status \<longleftrightarrow> status AND push_bit k 1 \<noteq> 0"
definition WIFREGISTERED :: "int \<Rightarrow> bool" where "WIFREGISTERED = WIF 0"
definition WIFBESPAWNED :: "int \<Rightarrow> bool" where "WIFBESPAWNED = WIF 1"
definition WIFMWSPAWNED :: "int \<Rightarrow> bool" where "WIFMWSPAWNED = WIF 2"
definition WIFDETACHED :: "int \<Rightarrow> bool" where "WIFDETACHED = WIF 3"
definition WIFKILLED :: "int \<Rightarrow> bool" where "WIFKILLED = WIF 4"

text \<open>A handle that does not fit is cut, and then has no ending null.\<close>

definition fe_getResourceHandle :: "int \<Rightarrow> int \<Rightarrow> ('u fe, lmon_rc_e \<times> (byte list \<times> int) option) act" where
  "fe_getResourceHandle h maxstring =
     (if maxstring < 0 then ret (LMON_EBDARG, None)
      else with_session h (LMON_EBDARG, None) (guarded (LMON_EBDARG, None) (\<lambda>s.
        if \<not> spawned s then ret (LMON_EDUNAV, None) s
        else if resourceHandle s = LMON_INIT then ret (LMON_EDUNAV, None) s
        else (let resbuf = cstr (show_int (resourceHandle s)); len = int (length resbuf) in
          ret (LMON_OK, Some (take (nat maxstring) resbuf, if len > maxstring then maxstring else len)) s))))"

definition fe_getRMInfo :: "int \<Rightarrow> ('u fe, lmon_rc_e \<times> rm_info_t option) act" where
  "fe_getRMInfo h = with_session h (LMON_EBDARG, None) (guarded (LMON_EINVAL, None) (\<lambda>s.
     ret (if ri_launcher_pid (rm_info s) \<noteq> -1 then LMON_OK else LMON_EDUNAV, Some (rm_info s)) s))"

definition fe_getProctableSize :: "int \<Rightarrow> ('u fe, lmon_rc_e \<times> nat option) act" where
  "fe_getProctableSize h = with_session h (LMON_EBDARG, None) (guarded (LMON_EBDARG, None) (\<lambda>s.
     if \<not> spawned s then ret (LMON_EDUNAV, None) s
     else (case proctab_msg s of None \<Rightarrow> ret (LMON_EDUNAV, None) s
       | Some m \<Rightarrow> ret (LMON_OK, Some (msg_ntasks (dec_hdr m))) s)))"

fun read_entries :: "byte list \<Rightarrow> nat \<Rightarrow> nat \<Rightarrow> nat \<Rightarrow> MPIR_PROCDESC_EXT list option" where
  "read_entries buf ent strtab 0 = Some []"
| "read_entries buf ent strtab (Suc n) = (case read_entry buf ent strtab of
     None \<Rightarrow> None
   | Some e \<Rightarrow> map_option ((#) e) (read_entries buf (ent + 20) strtab n))"

text \<open>Without an LMON payload the call returns and keeps the mutex.\<close>

definition get_proctable :: "nat \<Rightarrow> ('u, lmon_rc_e \<times> (MPIR_PROCDESC_EXT list \<times> nat) option) fes" where
  "get_proctable maxlen = bindA lockA (\<lambda>_ s.
     if \<not> registered s then bindA unlockA (\<lambda>_. ret (LMON_EBDARG, None)) s
     else if \<not> spawned s then bindA unlockA (\<lambda>_. ret (LMON_EDUNAV, None)) s
     else (case proctab_msg s of None \<Rightarrow> bindA unlockA (\<lambda>_. ret (LMON_EDUNAV, None)) s
       | Some m \<Rightarrow> (let h = dec_hdr m in
           case get_lmonpayload_begin (Some h) of None \<Rightarrow> ret (LMON_EDUNAV, None) s
         | Some traverse \<Rightarrow>
             (let size = msg_ntasks h; i = min size maxlen;
                  es = (case get_strtab_begin h of Some strtab \<Rightarrow> read_entries m traverse strtab i
                        | None \<Rightarrow> if i = 0 then Some [] else None)
              in case es of None \<Rightarrow> throw Undefined_behaviour s
               | Some es \<Rightarrow> bindA unlockA (\<lambda>_.
                   ret (if maxlen < size then LMON_ETRUNC else LMON_OK, Some (es, size))) s))))"

definition fe_getProctable :: "int \<Rightarrow> bool \<Rightarrow> nat \<Rightarrow> ('u fe, lmon_rc_e \<times> (MPIR_PROCDESC_EXT list \<times> nat) option) act" where
  "fe_getProctable h proctable maxlen = with_session h (LMON_EBDARG, None)
     (if proctable then get_proctable maxlen
      else guarded (LMON_EBDARG, None) (\<lambda>s. ret (LMON_EDUNAV, None) s))"

text \<open>The bound of the loop is \<open>i <= maxlen\<close>: one entry more than asked for is written, and the
  test for truncation is then false.\<close>

definition combined_hosts :: "spawner list \<Rightarrow> string list" where
  "combined_hosts sps = fold (\<lambda>sp hs. snd (combineHosts sp hs)) sps []"

definition fe_getMwHostlist :: "int \<Rightarrow> nat \<Rightarrow> ('u fe, lmon_rc_e \<times> (string list \<times> nat) option) act" where
  "fe_getMwHostlist h maxlen = with_session h (LMON_EBDARG, None) (guarded (LMON_EBDARG, None) (\<lambda>s.
     if \<not> mw_spawned s then ret (LMON_EDUNAV, None) s
     else (let chosts = combined_hosts (spawner_vector s); written = take (maxlen + 1) chosts in
       ret (if length written = maxlen \<and> maxlen < length chosts then LMON_ETRUNC else LMON_OK,
            Some (written, length chosts)) s)))"

definition fe_getMwHostlistSize :: "int \<Rightarrow> ('u fe, lmon_rc_e \<times> nat option) act" where
  "fe_getMwHostlistSize h = with_session h (LMON_EBDARG, None) (guarded (LMON_EBDARG, None) (\<lambda>s.
     if \<not> mw_spawned s then ret (LMON_EDUNAV, None) s
     else ret (LMON_OK, Some (sum_list (map (\<lambda>sp. length (sp_hosts sp)) (spawner_vector s)))) s))"


end
