(* ===== verification/Fe_Handshake.thy ===== *)
theory Fe_Handshake
  imports Fe_Session
begin

text \<open>
  The front end's side of the start of a tool, \<^verbatim>\<open>lmon_fe.cxx\<close>: the connection of the engine, the
  bootstrap of the daemons' tree, the handshakes with the master back-end and middleware
  daemons, and user data. A message a read did not fill keeps what its buffer held, \<open>junk\<close> at
  first. What the client's data pointers point to is an argument and a result, \<open>None\<close> for
  \<open>NULL\<close>.
\<close>

unbundle bit_operations_syntax

section \<open>User data\<close>

text \<open>\<open>LMON_MAX_USRPAYLOAD\<close> in the header, then the packed length.\<close>

definition febe_usr_hdr :: "nat \<Rightarrow> lmonp_t" where
  "febe_usr_hdr outlen = (fetobe_hdr lmonp_febe_usrdata 0 0)\<lparr>usr_payload_length := of_nat outlen\<rparr>"

definition handleFeBeUsrData :: "'u option \<Rightarrow> ('u, lmon_rc_e) fes" where
  "handleFeBeUsrData febe_data s =
     (let empty = (\<lambda>lrc. bindA (be_write (enc_hdr (febe_usr_hdr 0)) (int lmonp_size)) (\<lambda>_. ret lrc)) in
      if \<not> registered s then ret LMON_EBDARG s
      else (case febe_data of
        None \<Rightarrow> empty LMON_ENOPLD s
      | Some u \<Rightarrow> (case s_pack s of
          None \<Rightarrow> empty LMON_ENCLLB s
        | Some pack \<Rightarrow> (let (rc, udata) = pack u in
            if rc < 0 then ret LMON_EINVAL s
            else if LMON_MAX_USRPAYLOAD < length udata then ret LMON_EINVAL s
            else bindA (be_write (enc_hdr (febe_usr_hdr (length udata)) @ udata) (int (lmonp_size + length udata)))
              (\<lambda>_. ret LMON_OK) s))))"

definition femw_usr_hdr :: "nat \<Rightarrow> lmonp_t" where
  "femw_usr_hdr outlen = (fetomw_hdr lmonp_femw_usrdata 0 0)\<lparr>usr_payload_length := of_nat outlen\<rparr>"

text \<open>The result of the middleware's pack function is not looked at.\<close>

definition handleFeMwUsrData :: "'u option \<Rightarrow> ('u, lmon_rc_e) fes" where
  "handleFeMwUsrData femw_data s =
     (let empty = (\<lambda>lrc. bindA (mw_write (enc_hdr (femw_usr_hdr 0)) (int lmonp_size)) (\<lambda>_. ret lrc)) in
      if \<not> registered s then ret LMON_EBDARG s
      else (case femw_data of
        None \<Rightarrow> empty LMON_ENOPLD s
      | Some u \<Rightarrow> (case s_mw_pack s of
          None \<Rightarrow> empty LMON_ENCLLB s
        | Some pack \<Rightarrow> (let (_, udata) = pack u in
            if LMON_MAX_USRPAYLOAD < length udata then ret LMON_EINVAL s
            else bindA (mw_write (enc_hdr (femw_usr_hdr (length udata)) @ udata) (int (lmonp_size + length udata)))
              (\<lambda>_. ret LMON_OK) s))))"

definition fetobe_is :: "byte list \<Rightarrow> lmonp_fe_to_be_msg_e \<Rightarrow> bool" where
  "fetobe_is msg ty \<longleftrightarrow> unat (msgclass (dec_hdr msg)) = class_code lmonp_fetobe \<and> unat (msgtype (dec_hdr msg)) = fetobe_code ty"

definition fetomw_is :: "byte list \<Rightarrow> lmonp_fe_to_mw_msg_e \<Rightarrow> bool" where
  "fetomw_is msg ty \<longleftrightarrow> unat (msgclass (dec_hdr msg)) = class_code lmonp_fetomw \<and> unat (msgtype (dec_hdr msg)) = fetomw_code ty"

text \<open>The length is compared as unsigned and handed on as \<open>int\<close>. The two handlers differ in the
  code for an unpack function that fails.\<close>

definition handleBeFeUsrData :: "(nat \<Rightarrow> byte list) \<Rightarrow> 'u option \<Rightarrow> ('u, lmon_rc_e \<times> 'u option) fes" where
  "handleBeFeUsrData junk befe_data s =
     (if \<not> registered s then ret (LMON_EBDARG, befe_data) s
      else bindA (be_read_hdr (junk lmonp_size)) (\<lambda>(_, msg).
        let h = dec_hdr msg; len = usr_payload_length h in
        if \<not> (fetobe_is msg lmonp_befe_ready \<or> fetobe_is msg lmonp_befe_usrdata) \<or> lmon_payload_length h \<noteq> 0
        then ret (LMON_EBDMSG, befe_data)
        else if len = 0 then ret (LMON_ENOPLD, befe_data)
        else bindA (be_read_payload (junk (unat len)) (sint len)) (\<lambda>(_, usrdatabuf).
          case (s_unpack s, befe_data) of
            (Some unpack, Some u) \<Rightarrow> (let (rc, u') = unpack usrdatabuf u in
              ret (if rc < 0 then LMON_ENEGCB else LMON_OK, Some u'))
          | _ \<Rightarrow> ret (LMON_ENCLLB, befe_data))) s)"

definition handleMwFeUsrData :: "(nat \<Rightarrow> byte list) \<Rightarrow> 'u option \<Rightarrow> ('u, lmon_rc_e \<times> 'u option) fes" where
  "handleMwFeUsrData junk mwfe_data s =
     (if \<not> registered s then ret (LMON_EBDARG, mwfe_data) s
      else bindA (mw_read_hdr (junk lmonp_size)) (\<lambda>(_, msg).
        let h = dec_hdr msg; len = usr_payload_length h in
        if \<not> (fetomw_is msg lmonp_mwfe_ready \<or> fetomw_is msg lmonp_mwfe_usrdata) \<or> lmon_payload_length h \<noteq> 0
        then ret (LMON_EBDMSG, mwfe_data)
        else if len = 0 then ret (LMON_ENOPLD, mwfe_data)
        else bindA (mw_read_payload (junk (unat len)) (sint len)) (\<lambda>(_, usrdatabuf).
          case (s_mw_unpack s, mwfe_data) of
            (Some unpack, Some u) \<Rightarrow> (let (rc, u') = unpack usrdatabuf u in
              ret (if rc < 0 then LMON_ECLLB else LMON_OK, Some u'))
          | _ \<Rightarrow> ret (LMON_ENCLLB, mwfe_data))) s)"

section \<open>The engine's connection\<close>

definition fe_timeout :: "fe_sys \<Rightarrow> string \<Rightarrow> int" where
  "fe_timeout y name = (case sy_getenv y name of
     None \<Rightarrow> DFLT_FE_TOUT
   | Some tout \<Rightarrow> if 0 < sy_atoi y tout \<and> sy_atoi y tout \<le> MAX_TIMEOUT then sy_atoi y tout else DFLT_FE_TOUT)"

definition accept_on :: "('u fe_session \<Rightarrow> comm_desc) \<Rightarrow> ((comm_desc \<Rightarrow> comm_desc) \<Rightarrow> 'u fe_session \<Rightarrow> 'u fe_session) \<Rightarrow>
    int \<Rightarrow> int \<times> acans list \<Rightarrow> ('u, lmon_rc_e + unit) fes" where
  "accept_on get upd tosec answers s =
     (case lmon_timedaccept tosec (fst answers) (snd answers) of
        None \<Rightarrow> throw No_return s
      | Some (fd, _) \<Rightarrow> (let s = upd (\<lambda>c. c\<lparr>cm_accept := fd, cm_closed := False\<rparr>) s in
          if fd = -2 then ret (Inl LMON_ETOUT) s else if fd < 0 then ret (Inl LMON_ESYS) s else ret (Inr ()) s))"

definition fe_acceptEngine :: "fe_sys \<Rightarrow> (nat \<Rightarrow> byte list) \<Rightarrow> ('u, lmon_rc_e + unit) fes" where
  "fe_acceptEngine y junk =
     stepA (accept_on fe_engine_conn fe_engine_conn_update (fe_timeout y ''LMON_FE_ENGINE_TIMEOUT'') (sy_accept_engine y)) (\<lambda>_.
     bindA (en_read_hdr (junk lmonp_size)) (\<lambda>(rc, msg).
       ret (if rc < 0 then Inl LMON_ESYS
            else if fetofe_is msg lmonp_conn_ack_parse_error then Inl LMON_EINVAL
            else if \<not> fetofe_is msg lmonp_conn_ack_no_error then Inl LMON_EINVAL
            else Inr ())))"

section \<open>The bootstrap of the daemons\<close>

text \<open>COBO's server opens the tree over the hosts of the job, in the map's order, and gives the
  socket of its root; \<open>set_cobosec_mode\<close> prepares COBO's own handshake.\<close>

definition cobo_root :: "fe_sys \<Rightarrow> nat \<Rightarrow> string list \<Rightarrow> lmon_rc_e + int" where
  "cobo_root y session hosts =
     (if sy_cobosec y < 0 then Inl LMON_ESYS
      else (case sy_cobo y session hosts of None \<Rightarrow> Inl LMON_ESYS | Some fd \<Rightarrow> Inr fd))"

definition assist_ICCL_BE_init :: "fe_sys \<Rightarrow> ('u, lmon_rc_e + unit) fes" where
  "assist_ICCL_BE_init y s =
     (case proctab_msg s of
        None \<Rightarrow> ret (Inl LMON_EBUG) s
      | Some m \<Rightarrow> (case parse_raw_RPDTAB_msg (Some m) (pMap s) of
          Inl e \<Rightarrow> throw e s
        | Inr (rc, tab) \<Rightarrow>
            (let s = s\<lparr>pMap := tab\<rparr> in
             if rc < 0 then ret (Inl LMON_ESYS) s
             else (let s = s\<lparr>fe_be_conn := (fe_be_conn s)\<lparr>cm_daemons := int (unat (num_host_name (dec_hdr m)))\<rparr>\<rparr> in
               case cobo_root y 10 (map fst tab) of
                 Inl rc \<Rightarrow> ret (Inl rc) s
               | Inr fd \<Rightarrow> ret (Inr ()) (s\<lparr>fe_be_conn := (fe_be_conn s)\<lparr>cm_accept := fd, cm_closed := False\<rparr>\<rparr>)))))"

text \<open>Every spawner gets the session's secret as two arguments more before it spawns.\<close>

definition secret_args :: "'u fe_session \<Rightarrow> string list" where
  "secret_args s = [''--lmonsharedsec='' @ (case read_cstr (shared_key s) 0 of None \<Rightarrow> [] | Some k \<Rightarrow> k),
     ''--lmonsecchk='' @ show_int (randomID s)]"

definition spawn_on_be :: "(link, 'a) act \<Rightarrow> ('u, 'a) fes" where
  "spawn_on_be m s = (case m (cm_link (fe_be_conn s)) of (r, l) \<Rightarrow> (r, s\<lparr>fe_be_conn := (fe_be_conn s)\<lparr>cm_link := l\<rparr>\<rparr>))"

fun spawn_all :: "string list \<Rightarrow> spawner list \<Rightarrow> ('u, spawner list) fes" where
  "spawn_all sec [] = ret []"
| "spawn_all sec (sp # sps) =
     bindA (spawn_on_be (spawner_spawn (sp\<lparr>daemon_args := daemon_args sp @ sec\<rparr>))) (\<lambda>(_, sp').
     bindA (spawn_all sec sps) (\<lambda>sps'. ret (sp' # sps')))"

definition assist_ICCL_MW_init :: "fe_sys \<Rightarrow> ('u, lmon_rc_e + unit) fes" where
  "assist_ICCL_MW_init y s =
     bindA (spawn_all (secret_args s) (spawner_vector s)) (\<lambda>sps s.
       let s = s\<lparr>spawner_vector := sps\<rparr> in
       case cobo_root y 11 (combined_hosts sps) of
         Inl rc \<Rightarrow> ret (Inl rc) s
       | Inr fd \<Rightarrow> ret (Inr ()) (s\<lparr>fe_mw_conn := (fe_mw_conn s)\<lparr>cm_accept := fd, cm_closed := False\<rparr>\<rparr>)) s"

section \<open>Authentication\<close>

text \<open>Four headers bring the encrypted identifier, a word in each.\<close>

definition fe_is_secure :: "fe_sys \<Rightarrow> byte list \<Rightarrow> 'u fe_session \<Rightarrow> bool" where
  "fe_is_secure y decryptedID s \<longleftrightarrow>
     (case cipher_key s of None \<Rightarrow> False
      | Some key \<Rightarrow> (case sy_decipher y key decryptedID of None \<Rightarrow> False
          | Some plain \<Rightarrow> randomID s = sint (dec32 (take 4 plain))))"

fun be_secchk_words :: "nat \<Rightarrow> byte list \<Rightarrow> ('u, lmon_rc_e + byte list) fes" where
  "be_secchk_words 0 old = ret (Inr [])"
| "be_secchk_words (Suc n) old =
     bindA (be_read_hdr old) (\<lambda>(_, msg).
       if \<not> fetobe_is msg lmonp_febe_security_chk \<or> lmon_payload_length (dec_hdr msg) \<noteq> 0 then ret (Inl LMON_EBDMSG)
       else stepA (be_secchk_words n msg) (\<lambda>ws. ret (Inr (enc32 (security_key2 (dec_hdr msg)) @ ws))))"

fun mw_secchk_words :: "nat \<Rightarrow> byte list \<Rightarrow> ('u, lmon_rc_e + byte list) fes" where
  "mw_secchk_words 0 old = ret (Inr [])"
| "mw_secchk_words (Suc n) old =
     bindA (mw_read_hdr old) (\<lambda>(_, msg).
       if \<not> fetomw_is msg lmonp_femw_security_chk \<or> lmon_payload_length (dec_hdr msg) \<noteq> 0 \<or>
          usr_payload_length (dec_hdr msg) \<noteq> 0 then ret (Inl LMON_EBDMSG)
       else stepA (mw_secchk_words n msg) (\<lambda>ws. ret (Inr (enc32 (security_key2 (dec_hdr msg)) @ ws))))"

definition be_authenticate :: "fe_sys \<Rightarrow> (nat \<Rightarrow> byte list) \<Rightarrow> ('u, lmon_rc_e + unit) fes" where
  "be_authenticate y junk = stepA (be_secchk_words (LMON_KEY_LENGTH div 4) (junk lmonp_size)) (\<lambda>decryptedID s.
     if fe_is_secure y decryptedID s then ret (Inr ()) s
     else ret (Inl LMON_ESYS) (s\<lparr>fe_be_conn := (fe_be_conn s)\<lparr>cm_closed := True\<rparr>\<rparr>))"

definition mw_authenticate :: "fe_sys \<Rightarrow> (nat \<Rightarrow> byte list) \<Rightarrow> ('u, lmon_rc_e + unit) fes" where
  "mw_authenticate y junk = stepA (mw_secchk_words (LMON_KEY_LENGTH div 4) (junk lmonp_size)) (\<lambda>encrypt_packet_buf s.
     if fe_is_secure y encrypt_packet_buf s then ret (Inr ()) s
     else ret (Inl LMON_ESYS) (s\<lparr>fe_mw_conn := (fe_mw_conn s)\<lparr>cm_closed := True\<rparr>\<rparr>))"

section \<open>The handshake with the back end\<close>

text \<open>The sum of the lengths is unsigned, so the test that it is below 0 is never true.\<close>

definition be_recv_hostnames :: "(nat \<Rightarrow> byte list) \<Rightarrow> ('u, lmon_rc_e + unit) fes" where
  "be_recv_hostnames junk = bindA (be_read_hdr (junk lmonp_size)) (\<lambda>(rc, msg).
     if rc < 0 then ret (Inl LMON_ESYS)
     else if \<not> fetobe_is msg lmonp_befe_hostname then ret (Inl LMON_EBDMSG)
     else (let len = both_lengths (dec_hdr msg) in
       bindA (be_read_payload (junk (unat len)) (sint len)) (\<lambda>(r, pl).
         bindA (modA (\<lambda>s. s\<lparr>hntab_msg := Some (msg @ pl)\<rparr>)) (\<lambda>_.
           ret (if r < 0 then Inl LMON_ESYS else Inr ())))))"

text \<open>The table is the engine's message with the class and the type changed in place.\<close>

definition febe_proctab_msg :: "byte list \<Rightarrow> byte list" where
  "febe_proctab_msg m = enc_hdr ((dec_hdr m)\<lparr>msgclass := of_nat (class_code lmonp_fetobe),
     msgtype := of_nat (fetobe_code lmonp_febe_proctab)\<rparr>) @ drop lmonp_size m"

definition be_send_proctab :: "('u, lmon_rc_e + unit) fes" where
  "be_send_proctab s =
     (case proctab_msg s of
        None \<Rightarrow> ret (Inl LMON_EBUG) s
      | Some m \<Rightarrow> (let m = febe_proctab_msg m; h = dec_hdr m;
            size = int (lmonp_size + unat (lmon_payload_length h) + unat (usr_payload_length h)) in
          bindA (be_write m (sint (of_int size :: u32))) (\<lambda>r. ret (if r < 0 then Inl LMON_ESYS else Inr ()))
            (s\<lparr>proctab_msg := Some m\<rparr>)))"

definition fe_tracemode :: "fe_sys \<Rightarrow> bool \<Rightarrow> lmonp_fe_to_be_msg_e" where
  "fe_tracemode y is_launch = (case sy_getenv y ''LMON_DONT_STOP_APP'' of
     None \<Rightarrow> if is_launch then lmonp_febe_launch else lmonp_febe_attach
   | Some dontstop \<Rightarrow>
       if is_launch then (if sy_atoi y dontstop = 1 then lmonp_febe_launch_dontstop else lmonp_febe_launch)
       else (if sy_atoi y dontstop = 0 then lmonp_febe_attach_stop else lmonp_febe_attach))"

text \<open>The resource manager of the session, if the engine has told it; its index is -1 before.\<close>

definition cur_rm :: "'u fe_session \<Rightarrow> rm_catalogue_e option" where
  "cur_rm s = (case rm_supported_types (rm_info s) of None \<Rightarrow> None
     | Some ts \<Rightarrow> (let i = index_to_cur_instance (rm_info s) in
         if 0 \<le> i \<and> i < int (length ts) then Some (ts ! nat i) else None))"

definition be_send_modes :: "fe_sys \<Rightarrow> bool \<Rightarrow> ('u, unit) fes" where
  "be_send_modes y is_launch =
     bindA (be_write (enc_hdr (fetobe_hdr (fe_tracemode y is_launch) 0 0)) (int lmonp_size)) (\<lambda>_ s.
       case cur_rm s of None \<Rightarrow> throw Undefined_behaviour s
       | Some t \<Rightarrow> ignA (be_write (enc_hdr (fetobe_hdr lmonp_febe_rm_type (of_nat (pos_of rm_codes t)) 0)) (int lmonp_size)) s)"

definition be_recv_cont :: "(nat \<Rightarrow> byte list) \<Rightarrow> ('u, lmon_rc_e + unit) fes" where
  "be_recv_cont junk = bindA (be_read_hdr (junk lmonp_size)) (\<lambda>(rc, msg).
     ret (if rc < 0 then Inl LMON_ESYS
          else if \<not> fetobe_is msg lmonp_befe_cont_launch_bp then Inl LMON_EBDMSG
          else Inr ()))"

definition engine_hdr :: "lmonp_fe_to_fe_msg_e \<Rightarrow> lmonp_t" where
  "engine_hdr ty = (snd (init_msg_header lmonp_zero))\<lparr>msgclass := of_nat (class_code lmonp_fetofe), msgtype := of_nat (fetofe_code ty)\<rparr>"

definition tell_engine :: "lmonp_fe_to_fe_msg_e \<Rightarrow> ('u, int) fes" where
  "tell_engine ty = en_write (enc_hdr (engine_hdr ty)) (int lmonp_size)"

text \<open>Having no payload is no failure.\<close>

definition payload_ok :: "lmon_rc_e \<Rightarrow> bool" where "payload_ok lrc \<longleftrightarrow> lrc = LMON_OK \<or> lrc = LMON_ENOPLD"

definition be_accept_master :: "fe_sys \<Rightarrow> ('u, lmon_rc_e + unit) fes" where
  "be_accept_master y s =
     (if cm_accept (fe_be_conn s) < 0
      then accept_on fe_be_conn fe_be_conn_update (fe_timeout y ''LMON_BE_DAEMON_TIMEOUT'') (sy_accept_be y) s
      else ret (Inr ()) s)"

definition fe_beHandshakeSequence ::
  "fe_sys \<Rightarrow> (nat \<Rightarrow> byte list) \<Rightarrow> bool \<Rightarrow> 'u option \<Rightarrow> 'u option \<Rightarrow> ('u, lmon_rc_e + 'u option) fes"
where
  "fe_beHandshakeSequence y junk is_launch febe_data befe_data =
     bindA (assist_ICCL_BE_init y) (\<lambda>r. case r of Inl _ \<Rightarrow> ret (Inl LMON_EINVAL) | Inr _ \<Rightarrow>
     stepA (be_accept_master y) (\<lambda>_.
     stepA (be_authenticate y junk) (\<lambda>_.
     stepA (be_recv_hostnames junk) (\<lambda>_.
     stepA be_send_proctab (\<lambda>_.
     bindA (be_send_modes y is_launch) (\<lambda>_.
     bindA (handleFeBeUsrData febe_data) (\<lambda>lrc.
     if \<not> payload_ok lrc then ret (Inl lrc)
     else stepA (be_recv_cont junk) (\<lambda>_.
     bindA (tell_engine lmonp_cont_launch_bp) (\<lambda>_.
     bindA (handleBeFeUsrData junk befe_data) (\<lambda>(lrc, out).
     ret (if \<not> payload_ok lrc then Inl lrc else Inr out)))))))))))"

section \<open>The handshake with the middleware\<close>

definition mw_recv_hostnames :: "(nat \<Rightarrow> byte list) \<Rightarrow> ('u, lmon_rc_e + unit) fes" where
  "mw_recv_hostnames junk = bindA (mw_read_hdr (junk lmonp_size)) (\<lambda>(rc, msg).
     if rc < 0 then ret (Inl LMON_ESYS)
     else if \<not> fetomw_is msg lmonp_mwfe_hostname then ret (Inl LMON_EBDMSG)
     else (let len = both_lengths (dec_hdr msg) in
       bindA (mw_read_payload (junk (unat len)) (sint len)) (\<lambda>(r, pl).
         bindA (modA (\<lambda>s. s\<lparr>hntab_mw_msg := Block (msg @ pl)\<rparr>)) (\<lambda>_.
           ret (if r < 0 then Inl LMON_ESYS else Inr ())))))"

definition fe_mwHandshakeSequence ::
  "fe_sys \<Rightarrow> (nat \<Rightarrow> byte list) \<Rightarrow> 'u option \<Rightarrow> 'u option \<Rightarrow> ('u, lmon_rc_e + 'u option) fes"
where
  "fe_mwHandshakeSequence y junk femw_data mwfe_data =
     stepA (assist_ICCL_MW_init y) (\<lambda>_.
     stepA (mw_authenticate y junk) (\<lambda>_.
     stepA (mw_recv_hostnames junk) (\<lambda>_.
     bindA (handleFeMwUsrData femw_data) (\<lambda>lrc.
     if \<not> payload_ok lrc then ret (Inl lrc)
     else bindA (handleMwFeUsrData junk mwfe_data) (\<lambda>(lrc, out).
     ret (if \<not> payload_ok lrc then Inl lrc else Inr out))))))"

end
