(* ===== verification/Lmon_Fe.thy ===== *)
theory Lmon_Fe
  imports Fe_Handshake
begin

text \<open>
  The calls of the front end that run a session, \<^verbatim>\<open>lmon_fe.cxx\<close>: launch, attach, middleware,
  detach, kill and shutdown, user data, and the command line that starts the engine.
\<close>

unbundle bit_operations_syntax

section \<open>User data\<close>

definition fe_sendUsrDataBe :: "int \<Rightarrow> 'u option \<Rightarrow> ('u fe, lmon_rc_e) act" where
  "fe_sendUsrDataBe h febe_data = with_session h LMON_EBDARG (locked (handleFeBeUsrData febe_data))"

definition fe_recvUsrDataBe :: "(nat \<Rightarrow> byte list) \<Rightarrow> int \<Rightarrow> 'u option \<Rightarrow> ('u fe, lmon_rc_e \<times> 'u option) act" where
  "fe_recvUsrDataBe junk h befe_data = with_session h (LMON_EBDARG, befe_data) (locked (handleBeFeUsrData junk befe_data))"

definition fe_sendUsrDataMw :: "int \<Rightarrow> 'u option \<Rightarrow> ('u fe, lmon_rc_e) act" where
  "fe_sendUsrDataMw h femw_data = with_session h LMON_EBDARG (locked (handleFeMwUsrData femw_data))"

definition fe_recvUsrDataMw :: "(nat \<Rightarrow> byte list) \<Rightarrow> int \<Rightarrow> 'u option \<Rightarrow> ('u fe, lmon_rc_e \<times> 'u option) act" where
  "fe_recvUsrDataMw junk h mwfe_data = with_session h (LMON_EBDARG, mwfe_data) (locked (handleMwFeUsrData junk mwfe_data))"

section \<open>Ending a session\<close>

text \<open>The loop around \<open>pthread_cond_timedwait\<close>: it ends when the flag is set, or on any result
  but 0, \<open>ETIMEDOUT\<close> or another. Each turn uses up a wait of the scheduler.\<close>

definition ETIMEDOUT :: int where "ETIMEDOUT = 110"

fun await_flag :: "(nat \<Rightarrow> byte list) \<Rightarrow> ('u fe_session \<Rightarrow> bool) \<Rightarrow> nat \<Rightarrow> ('u, lmon_rc_e) fes" where
  "await_flag junk flag 0 = throw No_return"
| "await_flag junk flag (Suc n) = (\<lambda>s.
     if flag s then ret LMON_OK s
     else bindA (cond_timedwait junk) (\<lambda>rc.
       if rc = ETIMEDOUT then ret LMON_ETOUT
       else if rc \<noteq> 0 then ret LMON_EINVAL
       else await_flag junk flag n) s)"

definition wait_for_flag :: "(nat \<Rightarrow> byte list) \<Rightarrow> ('u fe_session \<Rightarrow> bool) \<Rightarrow> ('u, lmon_rc_e) fes" where
  "wait_for_flag junk flag s = await_flag junk flag (length (s_waits s) + 1) s"

text \<open>When the message cannot be written the calls return and keep the mutex. \<open>after\<close> is what
  the call does to the descriptor in the end.\<close>

definition engine_request :: "(nat \<Rightarrow> byte list) \<Rightarrow> ('u fe_session \<Rightarrow> bool) \<Rightarrow> lmonp_fe_to_fe_msg_e \<Rightarrow>
    ('u fe_session \<Rightarrow> bool) \<Rightarrow> ('u, unit) fes \<Rightarrow> ('u, lmon_rc_e) fes" where
  "engine_request junk refused ty flag after = bindA lockA (\<lambda>_ s.
     if refused s then bindA unlockA (\<lambda>_. ret LMON_EBDARG) s
     else bindA (tell_engine ty) (\<lambda>numbytes.
       if numbytes \<noteq> int lmonp_size then ret LMON_EINVAL
       else bindA (wait_for_flag junk flag) (\<lambda>lrc. bindA after (\<lambda>_. bindA unlockA (\<lambda>_. ret lrc)))) s)"

definition reset_sess :: "rm_catalogue_e list \<Rightarrow> ('u, unit) fes" where
  "reset_sess rms = bindA destroy_sess (\<lambda>_. modA (init_sess rms))"

definition over :: "'u fe_session \<Rightarrow> bool" where
  "over s \<longleftrightarrow> \<not> registered s \<or> detached s \<or> killed s"

definition sess_detach :: "(nat \<Rightarrow> byte list) \<Rightarrow> ('u, lmon_rc_e) fes" where
  "sess_detach junk = engine_request junk over lmonp_detach detached (ret ())"

definition sess_kill :: "rm_catalogue_e list \<Rightarrow> (nat \<Rightarrow> byte list) \<Rightarrow> ('u, lmon_rc_e) fes" where
  "sess_kill rms junk = engine_request junk over lmonp_kill killed (reset_sess rms)"

definition sess_shutdownDaemons :: "rm_catalogue_e list \<Rightarrow> (nat \<Rightarrow> byte list) \<Rightarrow> ('u, lmon_rc_e) fes" where
  "sess_shutdownDaemons rms junk =
     engine_request junk (\<lambda>s. \<not> registered s) lmonp_shutdownbe detached (reset_sess rms)"

definition rms_of :: "'u fe \<Rightarrow> rm_catalogue_e list" where
  "rms_of s = map rm (supported_rms (resmanager s))"

definition fe_detach :: "(nat \<Rightarrow> byte list) \<Rightarrow> int \<Rightarrow> ('u fe, lmon_rc_e) act" where
  "fe_detach junk h = with_session h LMON_EBDARG (sess_detach junk)"

definition fe_kill :: "(nat \<Rightarrow> byte list) \<Rightarrow> int \<Rightarrow> ('u fe, lmon_rc_e) act" where
  "fe_kill junk h s = with_session h LMON_EBDARG (sess_kill (rms_of s) junk) s"

definition fe_shutdownDaemons :: "(nat \<Rightarrow> byte list) \<Rightarrow> int \<Rightarrow> ('u fe, lmon_rc_e) act" where
  "fe_shutdownDaemons junk h s = with_session h LMON_EBDARG (sess_shutdownDaemons (rms_of s) junk) s"

section \<open>The command line of the engine\<close>

text \<open>What \<open>LMON_set_options\<close> puts into the options; the child that becomes the engine uses it.
  A map of the environment keeps the first of several values. \<open>verbose\<close> is for tracing.\<close>

record engine_opts =
  eo_remote_info :: string
  eo_sec_info :: string
  eo_attach :: bool
  eo_tool_daemon :: string
  eo_tool_daemon_opts :: "string list"
  eo_debugtarget :: string
  eo_launcher_pid :: int
  eo_remaining :: "string list"
  eo_envMap :: "(string, string) std_map"

fun env_map :: "(string \<times> string) list \<Rightarrow> (string, string) std_map \<Rightarrow> (string, string) std_map" where
  "env_map [] m = m"
| "env_map ((n, v) # es) m = env_map es (if map_find m n = None then map_set n v m else m)"

definition set_options :: "bool \<Rightarrow> string option \<Rightarrow> string list option \<Rightarrow> int \<Rightarrow> string \<Rightarrow> string list option \<Rightarrow>
    'u fe_session \<Rightarrow> engine_opts" where
  "set_options attach launcher launcher_argv launcherPid toolDaemon daemon_argopts s =
     \<lparr>eo_remote_info = cm_ip (fe_engine_conn s) @ '':'' @ show_int (uint (cm_port (fe_engine_conn s))),
      eo_sec_info = (case read_cstr (shared_key s) 0 of None \<Rightarrow> [] | Some k \<Rightarrow> k) @ '':'' @ show_int (randomID s),
      eo_attach = attach, eo_tool_daemon = toolDaemon,
      eo_tool_daemon_opts = (case daemon_argopts of None \<Rightarrow> [] | Some as \<Rightarrow> as),
      eo_debugtarget = (case launcher of None \<Rightarrow> [] | Some l \<Rightarrow> l),
      eo_launcher_pid = (if 0 < launcherPid then launcherPid else -1),
      eo_remaining = (case launcher_argv of None \<Rightarrow> [] | Some as \<Rightarrow> as),
      eo_envMap = env_map (be_env_list s) []\<rparr>"

text \<open>The tokenizer of commands. The loop that skips blanks looks at the output buffer, not at
  the string, at a place that has not been written: \<open>heap\<close> is what the memory held.\<close>

fun unescape :: "char \<Rightarrow> char" where
  "unescape c = (if c = CHR ''a'' then CHR 0x07 else if c = CHR ''b'' then CHR 0x08 else if c = CHR ''f'' then CHR 0x0C
     else if c = CHR ''n'' then CHR 0x0A else if c = CHR ''r'' then CHR 0x0D else if c = CHR ''t'' then CHR 0x09
     else if c = CHR ''v'' then CHR 0x0B else c)"

function skip_blanks :: "(nat \<Rightarrow> char) \<Rightarrow> nat \<Rightarrow> nat \<Rightarrow> nat" where
  "skip_blanks heap i len = (if i + 1 < len \<and> heap (i + 1) = CHR '' '' then skip_blanks heap (i + 1) len else i)"
  by pat_completeness auto
termination by (relation "measure (\<lambda>(_, i, len). len - i)") auto

declare skip_blanks.simps [simp del]

lemma skip_blanks_ge: "i \<le> skip_blanks heap i len"
  by (induction heap i len rule: skip_blanks.induct) (subst skip_blanks.simps, auto)

function tokenize_from :: "(nat \<Rightarrow> char) \<Rightarrow> string \<Rightarrow> nat \<Rightarrow> bool \<Rightarrow> bool \<Rightarrow> string \<Rightarrow> string list" where
  "tokenize_from heap str i escaped quoted buffer =
     (if length str \<le> i then (if buffer \<noteq> [] then [buffer] else [])
      else (let c = str ! i in
        if escaped then tokenize_from heap str (i + 1) False quoted (buffer @ [unescape c])
        else if c = CHR 0x5C then tokenize_from heap str (i + 1) True quoted buffer
        else if c = CHR 0x22 then tokenize_from heap str (i + 1) False (\<not> quoted) buffer
        else if quoted then tokenize_from heap str (i + 1) False quoted (buffer @ [c])
        else if c = CHR '' '' then
          buffer # tokenize_from heap str (skip_blanks heap i (length str) + 1) False quoted []
        else tokenize_from heap str (i + 1) False quoted (buffer @ [c])))"
  by pat_completeness auto
termination
  by (relation "measure (\<lambda>(_, str, i, _). length str - i)")
    (auto simp: less_Suc_eq_le intro!: diff_less_mono2 le_imp_less_Suc [OF skip_blanks_ge])

declare tokenize_from.simps [simp del]

definition tokenize :: "(nat \<Rightarrow> char) \<Rightarrow> string \<Rightarrow> string list" where
  "tokenize heap str = tokenize_from heap str 0 False False []"

text \<open>The commands found when the program was configured.\<close>

record tool_cmds =
  SSHCMD :: string
  ENVCMD :: string
  TVCMD :: string

definition lmon_opt_args :: "engine_opts \<Rightarrow> string list" where
  "lmon_opt_args eo =
     [''--remote'', eo_remote_info eo, ''--lmonsec'', eo_sec_info eo, ''--daemonpath'', eo_tool_daemon eo] @
     (if eo_tool_daemon_opts eo \<noteq> []
      then ''--daemonopts'' # show_nat (length (eo_tool_daemon_opts eo)) # eo_tool_daemon_opts eo else []) @
     (if eo_attach eo then [''--pid'', show_int (eo_launcher_pid eo)]
      else [eo_debugtarget eo, ''-a''] @ tl (eo_remaining eo))"

definition engine_path :: "(string \<Rightarrow> string option) \<Rightarrow> string" where
  "engine_path env = (case env ''LMON_LAUNCHMON_ENGINE_PATH'' of Some p \<Rightarrow> p | None \<Rightarrow> ''launchmon'')"

definition debug_engine :: "(string \<Rightarrow> string option) \<Rightarrow> string list \<Rightarrow> string list" where
  "debug_engine env xs = (if env ''LMON_DEBUG_LAUNCHMON_ENGINE'' \<noteq> None then xs else [])"

definition remote_env :: "(string \<Rightarrow> string option) \<Rightarrow> string list" where
  "remote_env env = (case env ''LMON_PREFIX'' of
     Some p \<Rightarrow> [''LMON_PREFIX='' @ p]
   | None \<Rightarrow> (case env ''LMON_RM_CONFIG_DIR'' of
       None \<Rightarrow> []
     | Some p \<Rightarrow> [''LMON_RM_CONFIG_DIR='' @ p] @
         (case env ''LMON_COLOC_UTIL_DIR'' of None \<Rightarrow> [] | Some q \<Rightarrow> [''LMON_COLOC_UTIL_DIR='' @ q])))"

definition launch_cmdline :: "(nat \<Rightarrow> char) \<Rightarrow> tool_cmds \<Rightarrow> (string \<Rightarrow> string option) \<Rightarrow> string option \<Rightarrow> string list \<Rightarrow>
    engine_opts \<Rightarrow> string list" where
  "launch_cmdline heap cmds env hostname lmonOptArgs eo =
     (let env' = (case hostname of None \<Rightarrow> (\<lambda>v. case map_find (eo_envMap eo) v of Some x \<Rightarrow> Some x | None \<Rightarrow> env v)
                  | Some _ \<Rightarrow> env);
          engine = debug_engine env' (tokenize heap (TVCMD cmds)) @ [engine_path env'] @ debug_engine env' [''-a''] @ lmonOptArgs
      in case hostname of
           None \<Rightarrow> engine
         | Some hn \<Rightarrow> tokenize heap (case env ''LMON_REMOTE_LOGIN'' of Some r \<Rightarrow> r | None \<Rightarrow> SSHCMD cmds) @
             [hn, ENVCMD cmds] @ map (\<lambda>(n, v). n @ ''='' @ v) (eo_envMap eo) @ remote_env env @ engine)"

section \<open>Launch and attach\<close>

text \<open>The parent's half. After the wait the launch does not look at \<open>spawned\<close> again; attach
  does.\<close>

definition await_spawned :: "(nat \<Rightarrow> byte list) \<Rightarrow> ('u, lmon_rc_e + unit) fes" where
  "await_spawned junk = locked (\<lambda>s.
     if spawned s then ret (Inr ()) s
     else bindA (cond_timedwait junk) (\<lambda>prc.
       ret (if prc \<noteq> 0 then (if prc = ETIMEDOUT then Inl LMON_ETOUT else Inl LMON_EBUG) else Inr ())) s)"

definition spawn_daemons :: "fe_sys \<Rightarrow> (nat \<Rightarrow> byte list) \<Rightarrow> bool \<Rightarrow> 'u option \<Rightarrow> 'u option \<Rightarrow> ('u, lmon_rc_e + 'u option) fes" where
  "spawn_daemons y junk is_launch febe_data befe_data =
     stepA (guarded (Inl LMON_EBDARG) (ret (Inr ()))) (\<lambda>_.
     stepA (fe_acceptEngine y junk) (\<lambda>_.
     if sy_thread y \<noteq> 0 then ret (Inl LMON_ESYS)
     else bindA (start_watchdog junk) (\<lambda>_.
     stepA (await_spawned junk) (\<lambda>_ s.
     if \<not> is_launch \<and> \<not> spawned s then ret (Inl LMON_EBUG) s
     else fe_beHandshakeSequence y junk is_launch febe_data befe_data s))))"

text \<open>What the call returns: the code and what \<open>befe_data\<close> points to.\<close>

definition rc_out :: "'u option \<Rightarrow> lmon_rc_e + 'u option \<Rightarrow> lmon_rc_e \<times> 'u option" where
  "rc_out d r = (case r of Inl rc \<Rightarrow> (rc, d) | Inr out \<Rightarrow> (LMON_OK, out))"

definition fe_launchAndSpawnDaemons ::
  "fe_sys \<Rightarrow> (nat \<Rightarrow> byte list) \<Rightarrow> int \<Rightarrow> 'u option \<Rightarrow> 'u option \<Rightarrow> ('u fe, lmon_rc_e \<times> 'u option) act" where
  "fe_launchAndSpawnDaemons y junk h febe_data befe_data = with_session h (LMON_EBDARG, befe_data)
     (bindA (spawn_daemons y junk True febe_data befe_data) (\<lambda>r. ret (rc_out befe_data r)))"

definition fe_attachAndSpawnDaemons ::
  "fe_sys \<Rightarrow> (nat \<Rightarrow> byte list) \<Rightarrow> int \<Rightarrow> 'u option \<Rightarrow> 'u option \<Rightarrow> ('u fe, lmon_rc_e \<times> 'u option) act" where
  "fe_attachAndSpawnDaemons y junk h febe_data befe_data = with_session h (LMON_EBDARG, befe_data)
     (bindA (spawn_daemons y junk False febe_data befe_data) (\<lambda>r. ret (rc_out befe_data r)))"

section \<open>Middleware\<close>

datatype dist_optkind = hostlists | other_optkind

record dist_request =
  dr_md :: u32
  mw_daemon_path :: string
  d_argv :: "string list"
  ndaemon :: int
  dr_block :: int
  dr_cyclic :: int
  optkind :: dist_optkind
  dr_hl :: "string list"

definition LMON_N_MW_TYPES :: int where "LMON_N_MW_TYPES = 4"
definition IS_MW_COLOC :: "u32 \<Rightarrow> bool" where "IS_MW_COLOC flag \<longleftrightarrow> flag AND 1 \<noteq> 0"
definition IS_MW_EXISTINGALLOC :: "u32 \<Rightarrow> bool" where "IS_MW_EXISTINGALLOC flag \<longleftrightarrow> flag AND 2 \<noteq> 0"
definition IS_MW_NEWALLOC :: "u32 \<Rightarrow> bool" where "IS_MW_NEWALLOC flag \<longleftrightarrow> flag AND 4 \<noteq> 0"
definition IS_MW_HOSTLIST :: "u32 \<Rightarrow> bool" where "IS_MW_HOSTLIST flag \<longleftrightarrow> flag AND 8 \<noteq> 0"

definition plain_request :: "dist_request \<Rightarrow> bool" where
  "plain_request r \<longleftrightarrow> ndaemon r = -1 \<and> dr_block r = -1 \<and> dr_cyclic r = -1"

definition request_spawner :: "string \<Rightarrow> 'u fe_session \<Rightarrow> dist_request \<Rightarrow> lmon_rc_e + spawner" where
  "request_spawner RSHCMD s r =
     (if IS_MW_COLOC (dr_md r) then
        (if plain_request r
         then Inr (coloc_fe (cm_accept (fe_be_conn s)) (mw_daemon_path r) (d_argv r) (map fst (pMap s)))
         else Inl LMON_NOTIMPL)
      else if IS_MW_EXISTINGALLOC (dr_md r) \<or> IS_MW_NEWALLOC (dr_md r) then Inl LMON_NOTIMPL
      else if IS_MW_HOSTLIST (dr_md r) then
        (if plain_request r then
           (if optkind r = hostlists then Inr (rsh_of_hosts RSHCMD (mw_daemon_path r) (d_argv r) (dr_hl r))
            else Inl LMON_EBDARG)
         else Inl LMON_NOTIMPL)
      else Inl LMON_EBDARG)"

fun push_requests :: "string \<Rightarrow> dist_request list \<Rightarrow> ('u, lmon_rc_e + unit) fes" where
  "push_requests RSHCMD [] = ret (Inr ())"
| "push_requests RSHCMD (r # rs) = (\<lambda>s. case request_spawner RSHCMD s r of
     Inl rc \<Rightarrow> ret (Inl rc) s
   | Inr sp \<Rightarrow> push_requests RSHCMD rs (s\<lparr>spawner_vector := spawner_vector s @ [sp]\<rparr>))"

text \<open>The session is not looked at before; the handshake gets \<open>femw_data\<close> for both pointers, and
  when it fails the mutex is unlocked twice.\<close>

definition launch_mw :: "fe_sys \<Rightarrow> (nat \<Rightarrow> byte list) \<Rightarrow> string \<Rightarrow> dist_request list \<Rightarrow> 'u option \<Rightarrow> ('u, lmon_rc_e \<times> 'u option) fes" where
  "launch_mw y junk RSHCMD req femw_data = bindA lockA (\<lambda>_.
     bindA (push_requests RSHCMD req) (\<lambda>r. case r of
       Inl rc \<Rightarrow> bindA unlockA (\<lambda>_. ret (rc, femw_data))
     | Inr _ \<Rightarrow> bindA (fe_mwHandshakeSequence y junk femw_data femw_data) (\<lambda>r. case r of
         Inl rc \<Rightarrow> bindA unlockA (\<lambda>_. bindA unlockA (\<lambda>_. ret (rc, femw_data)))
       | Inr out \<Rightarrow> bindA (modA (\<lambda>s. s\<lparr>mw_spawned := True\<rparr>)) (\<lambda>_. bindA unlockA (\<lambda>_. ret (LMON_OK, out))))))"

definition fe_launchMwDaemons :: "fe_sys \<Rightarrow> (nat \<Rightarrow> byte list) \<Rightarrow> string \<Rightarrow> int \<Rightarrow> dist_request list \<Rightarrow> int \<Rightarrow>
    'u option \<Rightarrow> ('u fe, lmon_rc_e \<times> 'u option) act" where
  "fe_launchMwDaemons y junk RSHCMD h req nreq femw_data =
     (if nreq \<le> 0 \<or> nreq > LMON_N_MW_TYPES then ret (LMON_EBDARG, femw_data)
      else with_session h (LMON_EBDARG, femw_data) (launch_mw y junk RSHCMD (take (nat nreq) req) femw_data))"

end
