(* ===== verification/Be_Results.thy ===== *)
theory Be_Results
  imports Be_Handshake
begin

text \<open>
  What else the back-end interface promises: the hosts message can be read back, a shared
  return code is the same on every daemon, a daemon that starts up sends its encrypted session
  id, and what happens when the master gives up in the middle of the handshake.
\<close>

section \<open>The hosts message\<close>

lemma read_cstr_skip: "read_cstr (pre @ b) (length pre + n) = read_cstr b n"
  by (simp add: read_cstr_def)

text \<open>C36: (roundtrip) What the master ships is read back by whoever follows the message: for the names in
  the gathered buffer, the write succeeds, and the index of daemon \<open>i\<close> at the start of the
  payload, followed into the string table of \<open>get_strtab_begin\<close>, gives the name of daemon \<open>i\<close>,
  also when several daemons share a name.\<close>

theorem hosts_read_back:
  assumes "wf_hosts hs" and "be_width s = int (length hs)" and "gathered_names buf (length hs) = Some hs"
    and "ready (be_link s) ins ((28 + length (hosts_payload hs)) # outs)" and "i < length hs"
  shows "\<exists>l msg q off. ship_hostnames buf s = (Inr (Inr ()), s\<lparr>be_link := l\<rparr>) \<and> lk_sent l = lk_sent (be_link s) @ msg \<and>
    get_strtab_begin (dec_hdr msg) = Some q \<and> u32_at msg (28 + 4 * i) = Some off \<and>
    read_cstr msg (q + unat off) = Some (hs ! i)"
proof -
  obtain l where l: "ship_hostnames buf s = (Inr (Inr ()), s\<lparr>be_link := l\<rparr>)"
    "lk_sent l = lk_sent (be_link s) @ enc_hdr (hosts_hdr hs) @ hosts_payload hs"
    using ship_hostnames_ok [OF assms(1-4)] by blast
  have n: "\<forall>h \<in> set hs. nul_free h" "length (name_bytes (firsts {} hs)) < 2 ^ 31"
    using assms(1) by (simp_all add: wf_hosts_def)
  have a: "u32_at (enc_hdr (hosts_hdr hs) @ hosts_payload hs) (28 + 4 * i) = Some (host_index hs (hs ! i))"
    using hosts_payload_read(1) [OF assms(5) n] u32_at_skip [of "enc_hdr (hosts_hdr hs)" "hosts_payload hs" "4 * i"] by simp
  have b: "read_cstr (enc_hdr (hosts_hdr hs) @ hosts_payload hs) (28 + 4 * length hs + unat (host_index hs (hs ! i))) =
      Some (hs ! i)"
    using hosts_payload_read(2) [OF assms(5) n]
      read_cstr_skip [of "enc_hdr (hosts_hdr hs)" "hosts_payload hs" "4 * length hs + unat (host_index hs (hs ! i))"]
    by (simp add: add.assoc)
  show ?thesis
    using l a b hosts_hdr_msg(3) [OF assms(1)] dec_enc_hdr [of "hosts_hdr hs" "hosts_payload hs"]
    by (intro exI [of _ l] exI [of _ "enc_hdr (hosts_hdr hs) @ hosts_payload hs"] exI [of _ "28 + 4 * length hs"]
      exI [of _ "host_index hs (hs ! i)"]) simp
qed

theorem hosts_read_back_witness:
  "\<exists>l msg q off. ship_hostnames (hn_bytes ''n1'' @ hn_bytes ''n2'') (demo_daemon [Wrote 42] [] 0) =
      (Inr (Inr ()), (demo_daemon [Wrote 42] [] 0)\<lparr>be_link := l\<rparr>) \<and> lk_sent l = lk_sent (be_link (demo_daemon [Wrote 42] [] 0)) @ msg \<and>
    get_strtab_begin (dec_hdr msg) = Some q \<and> u32_at msg (28 + 4 * 1) = Some off \<and>
    read_cstr msg (q + unat off) = Some ([''n1'', ''n2''] ! 1)"
proof (rule hosts_read_back)
  show "gathered_names (hn_bytes ''n1'' @ hn_bytes ''n2'') (length [''n1'', ''n2'']) = Some [''n1'', ''n2'']"
    using gathered [of 2 "\<lambda>x. if x = 0 then ''n1'' else ''n2''"] by (simp add: numeral_2_eq_2 LMON_DAEMON_HN_MAX_def nul_free_def)
  show "ready (be_link (demo_daemon [Wrote 42] [] 0)) [] ((28 + length (hosts_payload [''n1'', ''n2''])) # [])"
    using offers_prompt [of "[]"] takes_prompt [of "[42]"] by (simp add: ready_def demo_hosts) (simp add: demo_daemon_def)
qed (simp_all add: demo_hosts, simp add: demo_daemon_def)

section \<open>A shared return code\<close>

lemma rc_word_round: "rc_of_word (dec32 (overlay (take 1 (enc32 (rc_word rc))) (enc32 (rc_word LMON_OK)))) = rc"
  by (cases rc; hypsubst; code_simp)

lemma rc_word_back [simp]: "rc_of_word (rc_word rc) = rc"
  by (cases rc; hypsubst; code_simp)

lemma share_rc_reaches:
  assumes n: "0 < n" and p: "\<And>x. x < n \<Longrightarrow> p x = share_rc (tree_of n x) (if x = 0 then rc else LMON_OK) (S x)"
  shows "reaches (spmd n p d) (spmd n (\<lambda>x. Done (Inr rc, S x)) d)"
proof -
  let ?buf = "\<lambda>x :: nat. enc32 (rc_word (if x = 0 then rc else LMON_OK))"
  let ?K = "\<lambda>x b. Done (Inr (rc_of_word (dec32 b)) :: exn + lmon_rc_e, S x)"
  have "\<exists>j. nsteps j (spmd n p d) (spmd n (\<lambda>x. ?K x (if x = 0 then ?buf 0 else overlay (take 1 (?buf 0)) (?buf x))) d)"
    by (rule bcast_steps [where K = ?K and buf = ?buf])
      (use p in \<open>simp_all add: share_rc_def be_broadcast_def daemon_internal_broadcast_def cobo_bcast_def
        LMON_DAEMON_MASTER_def subcom_def\<close>)
  moreover have "?K x (if x = 0 then ?buf 0 else overlay (take 1 (?buf 0)) (?buf x)) = Done (Inr rc, S x)" for x
    using rc_word_round [of rc] by (cases "x = 0") simp_all
  ultimately show ?thesis by (simp only: reaches_def)
qed

lemma master_result_reaches:
  assumes n: "0 < n" and rank: "\<And>x. x < n \<Longrightarrow> be_rank (S x) = int x" and m: "m (S 0) = (Inr rc, t)"
    and p: "\<And>x. x < n \<Longrightarrow> p x = act_then (master_rc m) (S x) (share_rc (tree_of n x))"
  shows "reaches (spmd n p d) (spmd n (\<lambda>x. Done (Inr rc, if x = 0 then t else S x)) d)"
proof (rule share_rc_reaches [OF n])
  show "p x = share_rc (tree_of n x) (if x = 0 then rc else LMON_OK) (if x = 0 then t else S x)" if "x < n" for x
    using p [OF that] rank [OF that] m
    by (cases "x = 0") (simp_all add: act_then_def master_rc_def is_master_def LMON_DAEMON_MASTER_def bindA_def ret_def)
qed

text \<open>Receiving and sending user data are collective, and their result is shared: whatever the
  master's part comes to, success or one of the error codes, the call always ends on every
  daemon, in any order of steps, with that same code, although the broadcast that shares it
  sends a single byte; and only the master's state has changed.\<close>

theorem result_shared:
  assumes "0 < n" and "\<And>x. x < n \<Longrightarrow> be_rank (S x) = int x"
    and "take_udata junk (S 0) = (Inr r1, t1)" and "give_udata junk b (S 0) = (Inr r2, t2)"
  shows "converges (spmd n (\<lambda>x. be_recvUsrData (tree_of n x) junk (S x)) d) (spmd n (\<lambda>x. Done (Inr r1, if x = 0 then t1 else S x)) d) \<and>
    converges (spmd n (\<lambda>x. be_sendUsrData (tree_of n x) junk b (S x)) d) (spmd n (\<lambda>x. Done (Inr r2, if x = 0 then t2 else S x)) d)"
proof
  show "converges (spmd n (\<lambda>x. be_recvUsrData (tree_of n x) junk (S x)) d) (spmd n (\<lambda>x. Done (Inr r1, if x = 0 then t1 else S x)) d)"
    by (rule converges_done, fold reaches_def, rule master_result_reaches [OF assms(1,2), where m = "take_udata junk"]) (simp_all add: be_recvUsrData_def assms(3))
  show "converges (spmd n (\<lambda>x. be_sendUsrData (tree_of n x) junk b (S x)) d) (spmd n (\<lambda>x. Done (Inr r2, if x = 0 then t2 else S x)) d)"
    by (rule converges_done, fold reaches_def, rule master_result_reaches [OF assms(1,2), where m = "give_udata junk b"]) (simp_all add: be_sendUsrData_def assms(4))
qed

theorem result_shared_witness:
  "\<exists>t1 t2. converges (spmd 2 (\<lambda>x. be_recvUsrData (tree_of 2 x) (\<lambda>k. replicate k 0)
        (demo_daemon [Wrote 28] [Data (enc_hdr (fetobe_hdr lmonp_febe_usrdata 0 0))] x)) (Inl Aborted, undefined))
      (spmd 2 (\<lambda>x. Done (Inr LMON_ENOPLD, if x = 0 then t1
        else demo_daemon [Wrote 28] [Data (enc_hdr (fetobe_hdr lmonp_febe_usrdata 0 0))] x)) (Inl Aborted, undefined)) \<and>
    converges (spmd 2 (\<lambda>x. be_sendUsrData (tree_of 2 x) (\<lambda>k. replicate k 0) True
        (demo_daemon [Wrote 28] [Data (enc_hdr (fetobe_hdr lmonp_febe_usrdata 0 0))] x)) (Inl Aborted, undefined))
      (spmd 2 (\<lambda>x. Done (Inr LMON_ENCLLB, if x = 0 then t2
        else demo_daemon [Wrote 28] [Data (enc_hdr (fetobe_hdr lmonp_febe_usrdata 0 0))] x)) (Inl Aborted, undefined))"
proof -
  let ?D = "demo_daemon [Wrote 28] [Data (enc_hdr (fetobe_hdr lmonp_febe_usrdata 0 0))]"
  let ?j = "\<lambda>k. replicate k (0 :: byte)"
  have l: "ready (be_link (?D 0)) [enc_hdr (fetobe_hdr lmonp_febe_usrdata 0 0)] [28]"
    using offers_prompt [of "[enc_hdr (fetobe_hdr lmonp_febe_usrdata 0 0)]"] takes_prompt [of "[28]"]
    by (simp add: ready_def) (simp add: demo_daemon_def)
  obtain k where "on_link (lk_read_hdr (?j 28)) (?D 0) = (Inr (28, enc_hdr (fetobe_hdr lmonp_febe_usrdata 0 0)), (?D 0)\<lparr>be_link := k\<rparr>)"
    using recv_hdr_ok [OF l, of "?j 28"] by auto
  then have a: "take_udata ?j (?D 0) = (Inr LMON_ENOPLD, (?D 0)\<lparr>be_link := k\<rparr>)"
    by (simp add: take_udata_def bindA_def lmonp_size_def) (simp add: fetobe_hdr_fields lmonp_zero_def ret_def)
  have w: "wf_msg (befe_hdr lmonp_befe_usrdata (dec_hdr (?j 28)) 0) []"
    by (simp add: wf_msg_def befe_hdr_def lmonp_size_def)
  obtain q where "lk_write (enc_hdr (befe_hdr lmonp_befe_usrdata (dec_hdr (?j 28)) 0)) 28 (be_link (?D 0)) = (Inr 28, q)"
    using lk.put_short [OF l w] by blast
  then have b: "give_udata ?j True (?D 0) = (Inr LMON_ENCLLB, (?D 0)\<lparr>be_link := q\<rparr>)"
    by (simp add: give_udata_def demo_daemon_def bindA_def on_link_def zoomA_def lmonp_size_def ret_def)
  have r: "be_rank (?D x) = int x" for x by (simp add: demo_daemon_def)
  show ?thesis by (rule exI, rule exI, rule result_shared [OF _ r a b]) simp
qed

section \<open>A master that gives up\<close>

lemma blocked_stuck:
  assumes "\<And>r. (\<exists>x. P r = Done x) \<or> (\<exists>q m f. P r = Recv q m f \<and> 0 < m)"
  shows "stuck (P, \<lambda>_. [])"
  unfolding stuck_def
proof (intro allI notI)
  fix r t assume "nstep r (P, \<lambda>_. []) t"
  then show False using assms [of r] by cases auto
qed

lemma bad_table_stops:
  assumes hs: "wf_hosts hs" "be_width s = int (length hs)" "gathered_names buf (length hs) = Some hs"
    and ready: "ready (be_link s) (enc_hdr (fetobe_hdr ty k key2) # ins) ((28 + length (hosts_payload hs)) # outs)"
    and ty: "ty \<noteq> lmonp_febe_proctab" and junk: "\<And>k. length (junk k) = k"
  shows "\<exists>l. master_exchange junk buf s = (Inr (Inl LMON_EBDMSG), s\<lparr>be_link := l\<rparr>) \<and>
     lk_sent l = lk_sent (be_link s) @ enc_hdr (hosts_hdr hs) @ hosts_payload hs"
proof -
  obtain l1 where 1: "ship_hostnames buf s = (Inr (Inr ()), s\<lparr>be_link := l1\<rparr>)"
    "ready l1 (enc_hdr (fetobe_hdr ty k key2) # ins) outs"
    "lk_sent l1 = lk_sent (be_link s) @ enc_hdr (hosts_hdr hs) @ hosts_payload hs"
    using ship_hostnames_ok [OF hs ready] by blast
  obtain l2 where 2: "on_link (lk_read_hdr (junk 28)) (s\<lparr>be_link := l1\<rparr>) = (Inr (28, enc_hdr (fetobe_hdr ty k key2)), s\<lparr>be_link := l2\<rparr>)"
    "lk_sent l2 = lk_sent l1"
    using recv_hdr_ok [of "s\<lparr>be_link := l1\<rparr>" "fetobe_hdr ty k key2" ins outs "junk 28"] 1(2) junk by auto
  have "recv_proctab junk (s\<lparr>be_link := l1\<rparr>) = (Inr (Inl LMON_EBDMSG), s\<lparr>be_link := l2\<rparr>)"
    using 2(1) ty by (simp add: recv_proctab_def bindA_def lmonp_size_def ret_def)
  then have "master_exchange junk buf s = (Inr (Inl LMON_EBDMSG), s\<lparr>be_link := l2\<rparr>)"
    by (simp add: master_exchange_def stepA_run [of "ship_hostnames buf" s, OF 1(1)]
      stepA_stop [of "recv_proctab junk" "s\<lparr>be_link := l1\<rparr>"])
  then show ?thesis using 1(3) 2(2) by (intro exI [of _ l2]) simp
qed

text \<open>C35: (error) When the front end answers the hosts message with anything but the table, the master
  returns \<open>LMON_EBDMSG\<close> at once and nobody tells the others: every run of the handshake ends in
  a state where nothing can move, the master is done and each other daemon is in the broadcast
  of the mode, waiting for four bytes from its parent that this handshake never sends.\<close>

theorem master_error_blocks:
  fixes S :: "nat \<Rightarrow> 'u be_data"
  assumes "0 < n" and "wf_hosts (hosts_of n S)"
    and "\<And>x. x < n \<Longrightarrow> be_rank (S x) = int x \<and> be_width (S x) = int n \<and> length (be_hostname (S x)) < LMON_DAEMON_HN_MAX"
    and "ready (be_link (S 0)) (enc_hdr (fetobe_hdr ty k key2) # ins) ((28 + length (hosts_payload (hosts_of n S))) # outs)"
    and "ty \<noteq> lmonp_febe_proctab" and "\<And>k. length (junk k) = k"
  shows "\<exists>P t. converges (spmd n (\<lambda>x. be_handshake (tree_of n x) junk (S x)) d) (spmd n P d) \<and>
    P 0 = Done (Inr LMON_EBDMSG, t) \<and> (\<forall>x. 0 < x \<and> x < n \<longrightarrow> (\<exists>f. P x = Recv (cobo_parent (tree_of n x)) 4 f))"
proof -
  let ?hs = "hosts_of n S" and ?buf = "concat (map (\<lambda>x. hn_bytes (be_hostname (S x))) [0..<n])"
  have nf: "nul_free (be_hostname (S x))" if "x < n" for x using assms(2) that by (auto simp: wf_hosts_def hosts_of_def)
  have len: "length ?hs = n" by (simp add: hosts_of_def)
  have hn: "length (hn_bytes (be_hostname (S x))) = LMON_DAEMON_HN_MAX" if "x < n" for x
    using read_hn_bytes(1) assms(3) [OF that] nf [OF that] by blast
  have g: "gathered_names ?buf (length ?hs) = Some ?hs"
    unfolding len unfolding hosts_of_def by (rule gathered) (use assms(3) nf in blast)
  have s0: "be_width (S 0) = int (length ?hs)" "be_rank (S 0) = 0" using assms(3) [OF assms(1)] len by simp_all
  obtain l where l: "master_exchange junk ?buf (S 0) = (Inr (Inl LMON_EBDMSG), (S 0)\<lparr>be_link := l\<rparr>)"
    using bad_table_stops [OF assms(2) s0(1) g assms(4,5,6)] by blast
  let ?rb = "\<lambda>x. if is_master (S x) then junk (LMON_DAEMON_HN_MAX * nat (be_width (S x))) else []"
  let ?k = "\<lambda>x rc buf. if rc \<noteq> LMON_OK then Done (Inr LMON_ESUBCOM, S x)
      else act_then (master_only (master_exchange junk buf)) (S x) (\<lambda>_ s. share_job (tree_of n x) junk s)"
  define P where "P = (\<lambda>x. ?k x LMON_OK (if x = 0 then ?buf else ?rb x))"
  have r: "reaches (spmd n (\<lambda>x. be_handshake (tree_of n x) junk (S x)) d) (spmd n P d)"
    unfolding P_def
    by (rule be_gather_reaches [where S = S and rb = ?rb and sc = LMON_DAEMON_HN_MAX and K = ?k])
      (use hn assms(6) s0 len assms(1) in \<open>simp_all add: be_handshake_def is_master_def LMON_DAEMON_MASTER_def\<close>)
  have P0: "P 0 = Done (Inr LMON_EBDMSG, (S 0)\<lparr>be_link := l\<rparr>)"
    using l s0(2) by (simp add: P_def act_then_def master_only_def is_master_def LMON_DAEMON_MASTER_def)
  have Px: "\<exists>f. P x = Recv (cobo_parent (tree_of n x)) 4 f" if "0 < x" "x < n" for x
    using that assms(3) [OF that(2)]
    by (simp add: P_def act_then_def master_only_def is_master_def LMON_DAEMON_MASTER_def share_job_def bcast_into_def
      be_broadcast_def daemon_internal_broadcast_def cobo_bcast_def cobo_bcast_tree_def down_phase_def)
  have "stuck (spmd n P d)"
    unfolding spmd_def
  proof (rule blocked_stuck)
    fix r
    consider "r = 0" | "n \<le> r" | "0 < r" "r < n" by linarith
    then show "(\<exists>x. (if r < n then P r else Done d) = Done x) \<or>
        (\<exists>q m f. (if r < n then P r else Done d) = Recv q m f \<and> 0 < m)"
      using P0 assms(1) Px [of r] by cases auto
  qed
  then have "converges (spmd n (\<lambda>x. be_handshake (tree_of n x) junk (S x)) d) (spmd n P d)"
    using r convergesI unfolding reaches_def by blast
  then show ?thesis using P0 Px by blast
qed

theorem master_error_blocks_witness:
  "\<exists>ws rs P t. converges (spmd 2 (\<lambda>x. be_handshake (tree_of 2 x) (\<lambda>k. replicate k 0) (demo_daemon ws rs x)) (Inl Aborted, demo_daemon ws rs 0))
      (spmd 2 P (Inl Aborted, demo_daemon ws rs 0)) \<and> P 0 = Done (Inr LMON_EBDMSG, t) \<and> (\<exists>f. P 1 = Recv (cobo_parent (tree_of 2 1)) 4 f)"
proof -
  let ?h = "fetobe_hdr lmonp_febe_launch 0 0"
  let ?D = "demo_daemon [Wrote 42] [Data (enc_hdr ?h)]"
  have l: "ready (be_link (?D 0)) (enc_hdr ?h # []) ((28 + length (hosts_payload (hosts_of 2 ?D))) # [])"
    using offers_prompt [of "[enc_hdr ?h]"] takes_prompt [of "[42]"]
    by (simp add: ready_def demo_hosts_of demo_hosts) (simp add: demo_daemon_def)
  have w: "wf_hosts (hosts_of 2 ?D)" by (simp add: demo_hosts_of demo_hosts)
  have s: "be_rank (?D x) = int x \<and> be_width (?D x) = int 2 \<and> length (be_hostname (?D x)) < LMON_DAEMON_HN_MAX" for x
    by (simp add: demo_daemon_def LMON_DAEMON_HN_MAX_def)
  obtain P t where P: "converges (spmd 2 (\<lambda>x. be_handshake (tree_of 2 x) (\<lambda>k. replicate k 0) (?D x)) (Inl Aborted, ?D 0))
      (spmd 2 P (Inl Aborted, ?D 0))" "P 0 = Done (Inr LMON_EBDMSG, t)"
    "\<forall>x. 0 < x \<and> x < 2 \<longrightarrow> (\<exists>f. P x = Recv (cobo_parent (tree_of 2 x)) 4 f)"
    using master_error_blocks [OF _ w s l, of "\<lambda>k. replicate k 0" "(Inl Aborted, ?D 0)"] by auto
  have "\<exists>f. P 1 = Recv (cobo_parent (tree_of 2 1)) 4 f" using P(3) by (metis less_one one_less_numeral_iff semiring_norm(76))
  then show ?thesis using P(1,2) by blast
qed

end
