(* ===== verification/Tool_Start.thy ===== *)
theory Tool_Start
  imports Lmon_Fe Be_Results
begin

text \<open>
  What the front end's handshake promises: nobody gets the process table without the proof of
  the session's secret, and with the messages of a master daemon that serves it the handshake
  ends with \<open>LMON_OK\<close>, having sent what the daemons' half needs.
\<close>

section \<open>The connections of a session\<close>

definition open_desc :: "comm_desc \<Rightarrow> bool" where
  "open_desc c \<longleftrightarrow> 0 \<le> cm_accept c \<and> \<not> cm_closed c"

lemma chan_run:
  "open_desc (get s) \<Longrightarrow> m (cm_link (get s)) = (r, l) \<Longrightarrow> chan get upd bad m s = (r, upd (cm_link_update (\<lambda>_. l)) s)"
  by (simp add: chan_def open_desc_def)

definition on_be :: "link \<Rightarrow> 'u fe_session \<Rightarrow> 'u fe_session" where
  "on_be l s = s\<lparr>fe_be_conn := (fe_be_conn s)\<lparr>cm_link := l\<rparr>\<rparr>"

definition be_serves :: "'u fe_session \<Rightarrow> byte list list \<Rightarrow> nat list \<Rightarrow> bool" where
  "be_serves s ins outs \<longleftrightarrow> open_desc (fe_be_conn s) \<and> ready (cm_link (fe_be_conn s)) ins outs"

definition be_sent :: "'u fe_session \<Rightarrow> byte list" where
  "be_sent s = lk_sent (cm_link (fe_be_conn s))"

lemma on_be_simps [simp]:
  "on_be l (on_be k s) = on_be l s" "be_sent (on_be l s) = lk_sent l" "cm_link (fe_be_conn (on_be l s)) = l"
  "registered (on_be l s) = registered s" "s_pack (on_be l s) = s_pack s" "s_unpack (on_be l s) = s_unpack s"
  "cipher_key (on_be l s) = cipher_key s" "randomID (on_be l s) = randomID s" "proctab_msg (on_be l s) = proctab_msg s"
  "rm_info (on_be l s) = rm_info s" "fe_engine_conn (on_be l s) = fe_engine_conn s" "pMap (on_be l s) = pMap s"
  "hntab_msg (on_be l s) = hntab_msg s"
  "cm_accept (fe_be_conn (on_be l s)) = cm_accept (fe_be_conn s)"
  "cm_closed (fe_be_conn (on_be l s)) = cm_closed (fe_be_conn s)"
  "(on_be l s)\<lparr>hntab_msg := x\<rparr> = on_be l (s\<lparr>hntab_msg := x\<rparr>)"
  "(on_be l s)\<lparr>proctab_msg := y\<rparr> = on_be l (s\<lparr>proctab_msg := y\<rparr>)"
  by (simp_all add: on_be_def be_sent_def)

lemma be_upd: "fe_be_conn_update (cm_link_update (\<lambda>_. l)) s = on_be l s"
  by (simp add: on_be_def)

lemma be_serves_on [simp]: "be_serves (on_be l s) ins outs \<longleftrightarrow> open_desc (fe_be_conn s) \<and> ready l ins outs"
  by (simp add: be_serves_def open_desc_def)

lemma be_put:
  assumes "be_serves s ins ((28 + length p) # outs)" and "wf_msg h p" and "n = 28 + int (length p)"
  shows "\<exists>l. be_write (enc_hdr h @ p) n s = (Inr n, on_be l s) \<and> be_serves (on_be l s) ins outs \<and>
    lk_sent l = be_sent s @ enc_hdr h @ p"
proof -
  have o: "open_desc (fe_be_conn s)" "ready (cm_link (fe_be_conn s)) ins ((28 + length p) # outs)"
    using assms(1) by (simp_all add: be_serves_def)
  obtain l where "lk_write (enc_hdr h @ p) n (cm_link (fe_be_conn s)) = (Inr n, l)" "ready l ins outs"
    "lk_sent l = lk_sent (cm_link (fe_be_conn s)) @ enc_hdr h @ p" using lk.put [OF o(2) assms(2,3)] by blast
  then show ?thesis using o(1)
    by (intro exI [of _ l]) (simp add: be_write_def chan_run [of fe_be_conn s, OF o(1)] be_upd be_sent_def)
qed

lemma be_hdr:
  assumes "be_serves s (enc_hdr h # ins) outs" and "length old = 28"
  shows "\<exists>l. be_read_hdr old s = (Inr (28, enc_hdr h), on_be l s) \<and> be_serves (on_be l s) ins outs \<and> lk_sent l = be_sent s"
proof -
  have o: "open_desc (fe_be_conn s)" "ready (cm_link (fe_be_conn s)) (enc_hdr h # ins) outs"
    using assms(1) by (simp_all add: be_serves_def)
  obtain l where "lk_read_hdr old (cm_link (fe_be_conn s)) = (Inr (28, enc_hdr h), l)" "ready l ins outs"
    "lk_sent l = lk_sent (cm_link (fe_be_conn s))" using lk.hdr [OF o(2) assms(2)] by blast
  then show ?thesis using o(1)
    by (intro exI [of _ l]) (simp add: be_read_hdr_def chan_run [of fe_be_conn s, OF o(1)] be_upd be_sent_def)
qed

lemma be_body:
  assumes "be_serves s (p # ins) outs" and "p \<noteq> []" and "n = int (length p)" and "length old = length p"
  shows "\<exists>l. be_read_payload old n s = (Inr (n, p), on_be l s) \<and> be_serves (on_be l s) ins outs \<and> lk_sent l = be_sent s"
proof -
  have o: "open_desc (fe_be_conn s)" "ready (cm_link (fe_be_conn s)) (p # ins) outs"
    using assms(1) by (simp_all add: be_serves_def)
  obtain l where "lk_read_payload old n (cm_link (fe_be_conn s)) = (Inr (n, p), l)" "ready l ins outs"
    "lk_sent l = lk_sent (cm_link (fe_be_conn s))" using lk.body [OF o(2) assms(2-4)] by blast
  then show ?thesis using o(1)
    by (intro exI [of _ l]) (simp add: be_read_payload_def chan_run [of fe_be_conn s, OF o(1)] be_upd be_sent_def)
qed

text \<open>The connection to the daemons is a message link.\<close>

interpretation fbe: message_link be_write be_read_hdr be_read_payload be_serves be_sent
proof unfold_locales
  fix s :: "'u fe_session" and ins outs h p n
  assume "be_serves s ins ((28 + length p) # outs)" "wf_msg h p" "n = 28 + int (length p)"
  from be_put [OF this] obtain l where "be_write (enc_hdr h @ p) n s = (Inr n, on_be l s)"
    "be_serves (on_be l s) ins outs" "lk_sent l = be_sent s @ enc_hdr h @ p" by blast
  then show "\<exists>t. be_write (enc_hdr h @ p) n s = (Inr n, t) \<and> be_serves t ins outs \<and> be_sent t = be_sent s @ enc_hdr h @ p"
    by (intro exI [of _ "on_be l s"]) simp
next
  fix s :: "'u fe_session" and h ins outs and old :: "byte list"
  assume "be_serves s (enc_hdr h # ins) outs" "length old = 28"
  from be_hdr [OF this] obtain l where "be_read_hdr old s = (Inr (28, enc_hdr h), on_be l s)"
    "be_serves (on_be l s) ins outs" "lk_sent l = be_sent s" by blast
  then show "\<exists>t. be_read_hdr old s = (Inr (28, enc_hdr h), t) \<and> be_serves t ins outs \<and> be_sent t = be_sent s"
    by (intro exI [of _ "on_be l s"]) simp
next
  fix s :: "'u fe_session" and p ins outs n and old :: "byte list"
  assume "be_serves s (p # ins) outs" "p \<noteq> []" "n = int (length p)" "length old = length p"
  from be_body [OF this] obtain l where "be_read_payload old n s = (Inr (n, p), on_be l s)"
    "be_serves (on_be l s) ins outs" "lk_sent l = be_sent s" by blast
  then show "\<exists>t. be_read_payload old n s = (Inr (n, p), t) \<and> be_serves t ins outs \<and> be_sent t = be_sent s"
    by (intro exI [of _ "on_be l s"]) simp
qed

section \<open>Authentication\<close>

lemma fetobe_is_has: "msgclass h = 1 \<Longrightarrow> fetobe_is (enc_hdr h) ty \<longleftrightarrow> has_type (enc_hdr h) ty"
  by (simp add: fetobe_is_def has_type_def)

lemma fetobe_is_fetobe [simp]: "fetobe_is (enc_hdr (fetobe_hdr ty k key2)) ty' \<longleftrightarrow> ty = ty'"
  by (subst fetobe_is_has) (simp add: fetobe_hdr_fields, simp)

definition secchk_hdr :: "byte list \<Rightarrow> lmonp_t" where
  "secchk_hdr w = fetobe_hdr lmonp_febe_security_chk 0 (dec32 w)"

lemma secchk_words_ok:
  assumes "be_serves s (map (\<lambda>w. enc_hdr (secchk_hdr w)) ws @ ins) outs" and "\<forall>w \<in> set ws. length w = 4" and "length old = 28"
  shows "\<exists>l. be_secchk_words (length ws) old s = (Inr (Inr (concat ws)), on_be l s) \<and>
    be_serves (on_be l s) ins outs \<and> lk_sent l = be_sent s"
  using assms
proof (induction ws arbitrary: s old)
  case Nil
  have "on_be (cm_link (fe_be_conn s)) s = s" by (simp add: on_be_def)
  then show ?case using Nil by (intro exI [of _ "cm_link (fe_be_conn s)"]) (simp add: ret_def be_sent_def)
next
  case (Cons w ws)
  obtain l where l: "be_read_hdr old s = (Inr (28, enc_hdr (secchk_hdr w)), on_be l s)"
    "be_serves (on_be l s) (map (\<lambda>w. enc_hdr (secchk_hdr w)) ws @ ins) outs" "lk_sent l = be_sent s"
    using be_hdr [of s "secchk_hdr w" _ outs old] Cons.prems by auto
  obtain k where k: "be_secchk_words (length ws) (enc_hdr (secchk_hdr w)) (on_be l s) = (Inr (Inr (concat ws)), on_be k (on_be l s))"
    "be_serves (on_be k (on_be l s)) ins outs" "lk_sent k = be_sent (on_be l s)"
    using Cons.IH [OF l(2), of "enc_hdr (secchk_hdr w)"] Cons.prems(2) by auto
  have w: "enc32 (security_key2 (secchk_hdr w)) = w" "lmon_payload_length (secchk_hdr w) = 0"
    using Cons.prems(2) enc32_dec32 [of w] by (simp_all add: secchk_hdr_def fetobe_hdr_fields lmonp_zero_def)
  have t: "fetobe_is (enc_hdr (secchk_hdr w)) lmonp_febe_security_chk" by (simp add: secchk_hdr_def)
  show ?case using k l(3)
    by (intro exI [of _ k]) (simp add: bindA_def l(1) t w stepA_run [of "be_secchk_words (length ws) _" "on_be l s", OF k(1)] ret_def)
qed


lemma authenticate_ok:
  assumes "be_serves s (map (\<lambda>w. enc_hdr (secchk_hdr w)) ws @ ins) outs" and "\<forall>w \<in> set ws. length w = 4" and "length ws = 4"
    and "fe_is_secure y (concat ws) s" and "\<And>k. length (junk k) = k"
  shows "\<exists>l. be_authenticate y junk s = (Inr (Inr ()), on_be l s) \<and> be_serves (on_be l s) ins outs \<and> lk_sent l = be_sent s"
proof -
  obtain l where l: "be_secchk_words 4 (junk lmonp_size) s = (Inr (Inr (concat ws)), on_be l s)"
    "be_serves (on_be l s) ins outs" "lk_sent l = be_sent s"
    using secchk_words_ok [OF assms(1,2), of "junk lmonp_size"] assms(3,5) by (auto simp: lmonp_size_def)
  have "fe_is_secure y (concat ws) (on_be l s)" using assms(4) by (simp add: fe_is_secure_def cong: option.case_cong)
  then show ?thesis using l(2,3)
    by (intro exI [of _ l]) (simp add: be_authenticate_def LMON_KEY_LENGTH_def ret_def
      stepA_run [of "be_secchk_words 4 (junk lmonp_size)" s, OF l(1)])
qed

section \<open>The steps of the handshake\<close>

text \<open>The engine's table message, and the session after the daemons' tree is up.\<close>

definition engine_table :: "proctable \<Rightarrow> byte list" where
  "engine_table tab = enc_hdr (proctab_hdr (build_strtab (entries tab) strtab0) (length (entries tab)) lmonp_proctable_avail) @
     job_payload tab"

lemma engine_table_becomes: "febe_proctab_msg (engine_table tab) = enc_hdr (job_hdr tab) @ job_payload tab"
  by (simp add: febe_proctab_msg_def engine_table_def job_hdr_def febe_proctab_hdr_def dec_enc_hdr lmonp_size_def)

lemma engine_table_parse: "wf_proctab tab pcount \<Longrightarrow> parse_raw_RPDTAB_msg (Some (engine_table tab)) [] = Inr (0, tab)"
  unfolding engine_table_def job_payload_def by (rule parse_shipped_hdr) auto

definition tree_up :: "proctable \<Rightarrow> byte list \<Rightarrow> int \<Rightarrow> 'u fe_session \<Rightarrow> 'u fe_session" where
  "tree_up tab m fd s = s\<lparr>pMap := tab, fe_be_conn := (fe_be_conn s)\<lparr>cm_daemons := int (unat (num_host_name (dec_hdr m))),
     cm_accept := fd, cm_closed := False\<rparr>\<rparr>"

lemma tree_up_simps [simp]:
  "be_sent (tree_up tab m fd s) = be_sent s" "cipher_key (tree_up tab m fd s) = cipher_key s"
  "randomID (tree_up tab m fd s) = randomID s" "registered (tree_up tab m fd s) = registered s"
  "s_pack (tree_up tab m fd s) = s_pack s" "s_unpack (tree_up tab m fd s) = s_unpack s"
  "rm_info (tree_up tab m fd s) = rm_info s" "fe_engine_conn (tree_up tab m fd s) = fe_engine_conn s"
  "proctab_msg (tree_up tab m fd s) = proctab_msg s" "pMap (tree_up tab m fd s) = tab" "hntab_msg (tree_up tab m fd s) = hntab_msg s"
  "cm_accept (fe_be_conn (tree_up tab m fd s)) = fd"
  by (simp_all add: tree_up_def be_sent_def)

lemma tree_up_serves: "0 \<le> fd \<Longrightarrow> be_serves (tree_up tab m fd s) ins outs \<longleftrightarrow> ready (cm_link (fe_be_conn s)) ins outs"
  by (simp add: be_serves_def open_desc_def tree_up_def)

lemma init_ok:
  assumes "wf_proctab tab pcount" and "proctab_msg s = Some (engine_table tab)" and "pMap s = []"
    and "cobo_root y 10 (map fst tab) = Inr fd"
  shows "assist_ICCL_BE_init y s = (Inr (Inr ()), tree_up tab (engine_table tab) fd s)"
  using assms engine_table_parse [OF assms(1)]
  by (simp add: assist_ICCL_BE_init_def Let_def ret_def tree_up_def)

lemma recv_hostnames_ok:
  assumes "be_serves s (enc_hdr (hosts_hdr hs) # hosts_payload hs # ins) outs" and "wf_hosts hs" and "\<And>k. length (junk k) = k"
  shows "\<exists>l. be_recv_hostnames junk s =
      (Inr (Inr ()), on_be l (s\<lparr>hntab_msg := Some (enc_hdr (hosts_hdr hs) @ hosts_payload hs)\<rparr>)) \<and>
    be_serves (on_be l s) ins outs \<and> lk_sent l = be_sent s"
proof -
  have ne: "hosts_payload hs \<noteq> []" "length (hosts_payload hs) < 2 ^ 31"
    using assms(2) by (auto simp: wf_hosts_def length_hosts_payload simp flip: length_greater_0_conv)
  have b: "both_lengths (hosts_hdr hs) = of_nat (length (hosts_payload hs))"
    by (simp add: both_lengths_def hosts_hdr_fields lmonp_zero_def)
  have sb: "sint (both_lengths (hosts_hdr hs)) = int (length (hosts_payload hs))"
    "unat (both_lengths (hosts_hdr hs)) = length (hosts_payload hs)"
    unfolding b using sint_of_nat32 [OF ne(2)] ne(2) by (simp, subst unat_of_nat, simp)
  have t: "fetobe_is (enc_hdr (hosts_hdr hs)) lmonp_befe_hostname"
    by (subst fetobe_is_has, simp add: hosts_hdr_fields) (subst has_type_enc [of _ lmonp_befe_hostname], simp_all add: hosts_hdr_fields)
  obtain l where l: "be_read_hdr (junk lmonp_size) s = (Inr (28, enc_hdr (hosts_hdr hs)), on_be l s)"
    "be_serves (on_be l s) (hosts_payload hs # ins) outs" "lk_sent l = be_sent s"
    using be_hdr [OF assms(1), of "junk lmonp_size"] assms(3) by (auto simp: lmonp_size_def)
  obtain k where k: "be_read_payload (junk (length (hosts_payload hs))) (int (length (hosts_payload hs))) (on_be l s) =
      (Inr (int (length (hosts_payload hs)), hosts_payload hs), on_be k (on_be l s))"
    "be_serves (on_be k (on_be l s)) ins outs" "lk_sent k = be_sent (on_be l s)"
    using be_body [OF l(2) ne(1) refl assms(3)] by blast
  show ?thesis using k l(3)
    by (intro exI [of _ k]) (simp add: be_recv_hostnames_def bindA_def l(1) t Let_def sb modA_def ret_def)
qed

lemma send_proctab_ok:
  assumes "be_serves s ins ((28 + length (job_payload tab)) # outs)" and "wf_proctab tab pcount"
    and "proctab_msg s = Some (engine_table tab)"
  shows "\<exists>l. be_send_proctab s =
      (Inr (Inr ()), on_be l (s\<lparr>proctab_msg := Some (enc_hdr (job_hdr tab) @ job_payload tab)\<rparr>)) \<and>
    be_serves (on_be l s) ins outs \<and> lk_sent l = be_sent s @ enc_hdr (job_hdr tab) @ job_payload tab"
proof -
  let ?s = "s\<lparr>proctab_msg := Some (enc_hdr (job_hdr tab) @ job_payload tab)\<rparr>"
  note j = job_msg [OF assms(2)]
  have w: "length (job_payload tab) = unat (lmon_payload_length (job_hdr tab)) + unat (usr_payload_length (job_hdr tab))"
    "28 + length (job_payload tab) < 2 ^ 31"
    using j(1) by (simp_all add: wf_msg_def lmonp_size_def)
  have n: "sint (of_nat (lmonp_size + unat (lmon_payload_length (job_hdr tab)) + unat (usr_payload_length (job_hdr tab))) :: u32) =
      28 + int (length (job_payload tab))"
    using sint_of_nat32 [OF w(2)] w(1) by (simp add: lmonp_size_def add.assoc)
  have "be_serves ?s ins ((28 + length (job_payload tab)) # outs)" using assms(1) by (simp add: be_serves_def)
  then obtain l where l: "be_write (enc_hdr (job_hdr tab) @ job_payload tab) (28 + int (length (job_payload tab))) ?s =
      (Inr (28 + int (length (job_payload tab))), on_be l ?s)" "be_serves (on_be l ?s) ins outs"
    "lk_sent l = be_sent ?s @ enc_hdr (job_hdr tab) @ job_payload tab"
    using be_put [OF _ j(1) refl] by blast
  show ?thesis using l(2,3) assms(3)
    by (intro exI [of _ l]) (simp add: be_send_proctab_def engine_table_becomes Let_def n bindA_def dec_enc_hdr ret_def l(1)
      be_sent_def del: of_nat_add)
qed


lemma send_modes_ok:
  assumes "be_serves s ins (28 # 28 # outs)" and "cur_rm s = Some rm1"
  shows "\<exists>l. be_send_modes y is_launch s = (Inr (), on_be l s) \<and> be_serves (on_be l s) ins outs \<and>
    lk_sent l = be_sent s @ enc_hdr (fetobe_hdr (fe_tracemode y is_launch) 0 0) @
      enc_hdr (fetobe_hdr lmonp_febe_rm_type (of_nat (pos_of rm_codes rm1)) 0)"
proof -
  obtain l where l: "be_write (enc_hdr (fetobe_hdr (fe_tracemode y is_launch) 0 0)) 28 s = (Inr 28, on_be l s)"
    "be_serves (on_be l s) ins (28 # outs)" "lk_sent l = be_sent s @ enc_hdr (fetobe_hdr (fe_tracemode y is_launch) 0 0)"
    using be_put [of s ins "[]" "28 # outs" "fetobe_hdr (fe_tracemode y is_launch) 0 0" 28] assms(1) short_msg by auto
  obtain k where k: "be_write (enc_hdr (fetobe_hdr lmonp_febe_rm_type (of_nat (pos_of rm_codes rm1)) 0)) 28 (on_be l s) =
      (Inr 28, on_be k (on_be l s))"
    "be_serves (on_be k (on_be l s)) ins outs"
    "lk_sent k = be_sent (on_be l s) @ enc_hdr (fetobe_hdr lmonp_febe_rm_type (of_nat (pos_of rm_codes rm1)) 0)"
    using be_put [of "on_be l s" ins "[]" outs "fetobe_hdr lmonp_febe_rm_type (of_nat (pos_of rm_codes rm1)) 0" 28] l(2) short_msg
    by auto
  have c: "cur_rm (on_be l s) = Some rm1" using assms(2) by (simp add: cur_rm_def cong: option.case_cong)
  show ?thesis using k l(3)
    by (intro exI [of _ k]) (simp add: be_send_modes_def bindA_def l(1) c ignA_def ret_def lmonp_size_def)
qed

text \<open>What the client's function packs, as \<open>be_pack\<close>'s user data on the other side.\<close>

definition packs :: "'u fe_session \<Rightarrow> 'u option \<Rightarrow> byte list \<Rightarrow> bool" where
  "packs s d ud \<longleftrightarrow> (case (d, s_pack s) of (None, _) \<Rightarrow> ud = []
     | (Some u, Some pack) \<Rightarrow> snd (pack u) = ud \<and> 0 \<le> fst (pack u) \<and> length ud \<le> LMON_MAX_USRPAYLOAD
     | _ \<Rightarrow> False)"

lemma send_udata_ok:
  assumes "be_serves s ins ((28 + length ud) # outs)" and "registered s" and "packs s d ud"
  shows "\<exists>l rc. handleFeBeUsrData d s = (Inr rc, on_be l s) \<and> payload_ok rc \<and> be_serves (on_be l s) ins outs \<and>
    lk_sent l = be_sent s @ concat (enc_hdr (udata_hdr ud) # pieces ud)"
proof -
  have len: "length ud \<le> LMON_MAX_USRPAYLOAD" using assms(3) by (auto simp: packs_def split: option.splits)
  have h: "febe_usr_hdr (length ud) = udata_hdr ud" by (simp add: febe_usr_hdr_def udata_hdr_def)
  have u: "unat (of_nat (length ud) :: u32) = length ud" using len by (subst unat_of_nat) (simp add: LMON_MAX_USRPAYLOAD_def)
  have w: "wf_msg (udata_hdr ud) ud"
    using u len by (simp add: wf_msg_def udata_hdr_def fetobe_hdr_fields lmonp_zero_def lmonp_size_def LMON_MAX_USRPAYLOAD_def)
  obtain l where l: "be_write (enc_hdr (udata_hdr ud) @ ud) (28 + int (length ud)) s = (Inr (28 + int (length ud)), on_be l s)"
    "be_serves (on_be l s) ins outs" "lk_sent l = be_sent s @ enc_hdr (udata_hdr ud) @ ud"
    using be_put [OF assms(1) w refl] by blast
  have p: "enc_hdr (udata_hdr ud) @ ud = concat (enc_hdr (udata_hdr ud) # pieces ud)" by (simp add: pieces_def)
  show ?thesis
  proof (cases d)
    case None
    then have e: "ud = []" using assms(3) by (simp add: packs_def)
    show ?thesis using l None assms(2) h unfolding e
      by (intro exI [of _ l] exI [of _ LMON_ENOPLD]) (simp add: handleFeBeUsrData_def bindA_def ret_def payload_ok_def pieces_def lmonp_size_def)
  next
    case (Some v)
    then obtain pack where pk: "s_pack s = Some pack" using assms(3) by (auto simp: packs_def split: option.splits)
    obtain rc where pv: "pack v = (rc, ud)" "0 \<le> rc" using assms(3) Some pk by (cases "pack v") (simp add: packs_def)
    have n: "\<not> LMON_MAX_USRPAYLOAD < length ud" using len by simp
    show ?thesis using l Some assms(2) h pk pv n p
      by (intro exI [of _ l] exI [of _ LMON_OK]) (simp add: handleFeBeUsrData_def bindA_def ret_def payload_ok_def lmonp_size_def)
  qed
qed

lemma recv_cont_ok:
  assumes "be_serves s (enc_hdr (fetobe_hdr lmonp_befe_cont_launch_bp 0 0) # ins) outs" and "\<And>k. length (junk k) = k"
  shows "\<exists>l. be_recv_cont junk s = (Inr (Inr ()), on_be l s) \<and> be_serves (on_be l s) ins outs \<and> lk_sent l = be_sent s"
proof -
  obtain l where l: "be_read_hdr (junk lmonp_size) s = (Inr (28, enc_hdr (fetobe_hdr lmonp_befe_cont_launch_bp 0 0)), on_be l s)"
    "be_serves (on_be l s) ins outs" "lk_sent l = be_sent s"
    using be_hdr [OF assms(1), of "junk lmonp_size"] assms(2) by (auto simp: lmonp_size_def)
  then show ?thesis by (intro exI [of _ l]) (simp add: be_recv_cont_def bindA_def ret_def)
qed

text \<open>The engine's connection.\<close>

definition on_en :: "link \<Rightarrow> 'u fe_session \<Rightarrow> 'u fe_session" where
  "on_en l s = s\<lparr>fe_engine_conn := (fe_engine_conn s)\<lparr>cm_link := l\<rparr>\<rparr>"

lemma on_en_simps [simp]:
  "fe_be_conn (on_en l s) = fe_be_conn s" "registered (on_en l s) = registered s" "s_unpack (on_en l s) = s_unpack s"
  "be_sent (on_en l s) = be_sent s" "be_serves (on_en l s) ins outs = be_serves s ins outs"
  "hntab_msg (on_en l s) = hntab_msg s" "pMap (on_en l s) = pMap s" "proctab_msg (on_en l s) = proctab_msg s"
  "cm_link (fe_engine_conn (on_en l s)) = l"
  by (simp_all add: on_en_def be_sent_def be_serves_def)

lemma engine_hdr_wf: "wf_msg (engine_hdr ty) []"
  by (simp add: wf_msg_def engine_hdr_def init_msg_header_def lmonp_zero_def lmonp_size_def)

lemma tell_engine_ok:
  assumes "open_desc (fe_engine_conn s)" and "ready (cm_link (fe_engine_conn s)) ins (28 # outs)"
  shows "\<exists>l. tell_engine ty s = (Inr 28, on_en l s) \<and> ready l ins outs \<and>
    lk_sent l = lk_sent (cm_link (fe_engine_conn s)) @ enc_hdr (engine_hdr ty)"
proof -
  obtain l where l: "lk_write (enc_hdr (engine_hdr ty)) 28 (cm_link (fe_engine_conn s)) = (Inr 28, l)" "ready l ins outs"
    "lk_sent l = lk_sent (cm_link (fe_engine_conn s)) @ enc_hdr (engine_hdr ty)"
    using lk.put_short [OF assms(2) engine_hdr_wf] by blast
  then show ?thesis
    by (intro exI [of _ l]) (simp add: tell_engine_def en_write_def lmonp_size_def chan_run [of fe_engine_conn s, OF assms(1)], simp add: on_en_def)
qed

text \<open>What the client finds in its data afterwards.\<close>

definition taken :: "'u fe_session \<Rightarrow> byte list \<Rightarrow> 'u option \<Rightarrow> 'u option \<Rightarrow> bool" where
  "taken s up d out \<longleftrightarrow> (if up = [] then out = d
     else (case (s_unpack s, d) of (Some f, Some u) \<Rightarrow> 0 \<le> fst (f up u) \<and> out = Some (snd (f up u)) | _ \<Rightarrow> False))"

lemma recv_ready_ok:
  assumes "be_serves s (enc_hdr (befe_hdr lmonp_befe_ready m (length up)) # pieces up @ ins) outs" and "registered s"
    and "taken s up d out" and "length up < 2 ^ 31" and "\<And>k. length (junk k) = k"
  shows "\<exists>l rc. handleBeFeUsrData junk d s = (Inr (rc, out), on_be l s) \<and> payload_ok rc \<and> be_serves (on_be l s) ins outs \<and>
    lk_sent l = be_sent s"
proof -
  let ?h = "befe_hdr lmonp_befe_ready m (length up)"
  have t: "fetobe_is (enc_hdr ?h) lmonp_befe_ready"
    by (subst fetobe_is_has, simp add: befe_hdr_def) (subst has_type_enc [of _ lmonp_befe_ready], simp_all add: befe_hdr_def)
  have f: "lmon_payload_length ?h = 0" "usr_payload_length ?h = of_nat (length up)" by (simp_all add: befe_hdr_def)
  have u: "sint (of_nat (length up) :: u32) = int (length up)" "unat (of_nat (length up) :: u32) = length up"
    using sint_of_nat32 [OF assms(4)] assms(4) by (simp, subst unat_of_nat, simp)
  obtain l where l: "be_read_hdr (junk lmonp_size) s = (Inr (28, enc_hdr ?h), on_be l s)"
    "be_serves (on_be l s) (pieces up @ ins) outs" "lk_sent l = be_sent s"
    using be_hdr [OF assms(1), of "junk lmonp_size"] assms(5) by (auto simp: lmonp_size_def)
  show ?thesis
  proof (cases "up = []")
    case True
    then show ?thesis using l t f assms(2,3)
      by (intro exI [of _ l] exI [of _ LMON_ENOPLD]) (simp add: handleBeFeUsrData_def bindA_def ret_def payload_ok_def pieces_def taken_def)
  next
    case False
    then obtain g v where g: "s_unpack s = Some g" "d = Some v" "0 \<le> fst (g up v)" "out = Some (snd (g up v))"
      using assms(3) by (auto simp: taken_def split: option.splits)
    have b: "be_serves (on_be l s) (up # ins) outs" using l(2) False by (simp add: pieces_def)
    obtain k where k: "be_read_payload (junk (length up)) (int (length up)) (on_be l s) = (Inr (int (length up), up), on_be k (on_be l s))"
      "be_serves (on_be k (on_be l s)) ins outs" "lk_sent k = be_sent (on_be l s)"
      using be_body [OF b False refl assms(5)] by blast
    have z: "(of_nat (length up) :: u32) \<noteq> 0" using u(2) False by (metis length_0_conv unat_0)
    obtain rc w where r: "g up v = (rc, w)" by (cases "g up v")
    show ?thesis using k l t f g z u r assms(2)
      by (intro exI [of _ k] exI [of _ LMON_OK]) (simp add: handleBeFeUsrData_def bindA_def ret_def payload_ok_def Let_def)
  qed
qed


section \<open>The handshake\<close>

text \<open>What a master daemon sends on its connection: the proof, the hosts, the go-on message and
  \<open>ready\<close>.\<close>

definition master_sends :: "byte list list \<Rightarrow> string list \<Rightarrow> lmonp_t \<Rightarrow> byte list \<Rightarrow> byte list list" where
  "master_sends ws hs m up = map (\<lambda>w. enc_hdr (secchk_hdr w)) ws @
     [enc_hdr (hosts_hdr hs), hosts_payload hs, enc_hdr (fetobe_hdr lmonp_befe_cont_launch_bp 0 0),
      enc_hdr (befe_hdr lmonp_befe_ready m (length up))] @ pieces up"

definition rm_word :: "rm_catalogue_e \<Rightarrow> u16" where "rm_word rm1 = of_nat (pos_of rm_codes rm1)"

text \<open>A session whose launcher stopped at the start of its job: it has the engine's table and
  resource manager, the engine waits for a word, and the daemons' tree can be opened.\<close>

definition job_stopped :: "fe_sys \<Rightarrow> proctable \<Rightarrow> rm_catalogue_e \<Rightarrow> int \<Rightarrow> 'u fe_session \<Rightarrow> bool" where
  "job_stopped y tab rm1 fd s \<longleftrightarrow> registered s \<and> proctab_msg s = Some (engine_table tab) \<and> pMap s = [] \<and> cur_rm s = Some rm1 \<and>
     cobo_root y 10 (map fst tab) = Inr fd \<and> 0 \<le> fd \<and> open_desc (fe_engine_conn s) \<and> ready (cm_link (fe_engine_conn s)) [] [28]"

lemma packs_cong: "s_pack t = s_pack s \<Longrightarrow> packs t d ud \<longleftrightarrow> packs s d ud"
  by (simp add: packs_def)

lemma taken_cong: "s_unpack t = s_unpack s \<Longrightarrow> taken t ud d out \<longleftrightarrow> taken s ud d out"
  by (simp add: taken_def)

lemma fe_handshake_run:
  assumes job: "job_stopped y tab rm1 fd s" "wf_proctab tab pcount" and hs: "wf_hosts hs"
    and ws: "\<forall>w \<in> set ws. length w = 4" "length ws = 4" "fe_is_secure y (concat ws) s"
    and link: "ready (cm_link (fe_be_conn s)) (master_sends ws hs m up) [28 + length (job_payload tab), 28, 28, 28 + length ud]"
    and ud: "packs s febe_data ud" and up: "taken s up befe_data out" "length up < 2 ^ 31" and junk: "\<And>k. length (junk k) = k"
  shows "\<exists>l le t. fe_beHandshakeSequence y junk is_launch febe_data befe_data s = (Inr (Inr out), t) \<and>
    t = on_be l (on_en le ((tree_up tab (engine_table tab) fd s)\<lparr>hntab_msg := Some (enc_hdr (hosts_hdr hs) @ hosts_payload hs),
       proctab_msg := Some (enc_hdr (job_hdr tab) @ job_payload tab)\<rparr>)) \<and>
    lk_sent l = be_sent s @ concat (fe_sends (job_hdr tab) (job_payload tab) (fe_tracemode y is_launch) (rm_word rm1) ud) \<and>
    lk_sent le = lk_sent (cm_link (fe_engine_conn s)) @ enc_hdr (engine_hdr lmonp_cont_launch_bp)"
proof -
  let ?s0 = "tree_up tab (engine_table tab) fd s"
  let ?s1 = "?s0\<lparr>hntab_msg := Some (enc_hdr (hosts_hdr hs) @ hosts_payload hs)\<rparr>"
  let ?s2 = "?s1\<lparr>proctab_msg := Some (enc_hdr (job_hdr tab) @ job_payload tab)\<rparr>"
  let ?go = "enc_hdr (fetobe_hdr lmonp_befe_cont_launch_bp 0 0)" and ?rdy = "enc_hdr (befe_hdr lmonp_befe_ready m (length up)) # pieces up @ []"
  let ?outs = "[28 + length (job_payload tab), 28, 28, 28 + length ud]"
  have j: "registered s" "proctab_msg s = Some (engine_table tab)" "pMap s = []" "cur_rm s = Some rm1"
    "cobo_root y 10 (map fst tab) = Inr fd" "0 \<le> fd" "open_desc (fe_engine_conn s)" "ready (cm_link (fe_engine_conn s)) [] [28]"
    using job(1) by (simp_all add: job_stopped_def)
  have 0: "assist_ICCL_BE_init y s = (Inr (Inr ()), ?s0)" by (rule init_ok [OF job(2) j(2,3,5)])
  have a: "be_accept_master y ?s0 = (Inr (Inr ()), ?s0)" using j(6) by (simp add: be_accept_master_def ret_def)
  have sec: "fe_is_secure y (concat ws) ?s0" using ws(3) by (simp add: fe_is_secure_def cong: option.case_cong)
  have k0: "be_serves ?s0 (map (\<lambda>w. enc_hdr (secchk_hdr w)) ws @ enc_hdr (hosts_hdr hs) # hosts_payload hs # ?go # ?rdy) ?outs"
    using link by (simp add: tree_up_serves [OF j(6)] master_sends_def)
  obtain l1 where 1: "be_authenticate y junk ?s0 = (Inr (Inr ()), on_be l1 ?s0)"
    "be_serves (on_be l1 ?s0) (enc_hdr (hosts_hdr hs) # hosts_payload hs # ?go # ?rdy) ?outs" "lk_sent l1 = be_sent ?s0"
    using authenticate_ok [where y = y and junk = junk, OF k0 ws(1,2) sec junk] by (elim exE conjE)
  obtain l2 where 2: "be_recv_hostnames junk (on_be l1 ?s0) = (Inr (Inr ()), on_be l2 ?s1)"
    "be_serves (on_be l2 ?s1) (?go # ?rdy) ?outs" "lk_sent l2 = lk_sent l1"
    using recv_hostnames_ok [where junk = junk, OF 1(2) hs junk] by auto
  obtain l3 where 3: "be_send_proctab (on_be l2 ?s1) = (Inr (Inr ()), on_be l3 ?s2)"
    "be_serves (on_be l3 ?s2) (?go # ?rdy) [28, 28, 28 + length ud]" "lk_sent l3 = lk_sent l2 @ enc_hdr (job_hdr tab) @ job_payload tab"
    using send_proctab_ok [OF 2(2) job(2)] j(2) by auto
  have c: "cur_rm (on_be l3 ?s2) = Some rm1" using j(4) by (simp add: cur_rm_def cong: option.case_cong)
  obtain l4 where 4: "be_send_modes y is_launch (on_be l3 ?s2) = (Inr (), on_be l4 ?s2)"
    "be_serves (on_be l4 ?s2) (?go # ?rdy) [28 + length ud]"
    "lk_sent l4 = lk_sent l3 @ enc_hdr (fetobe_hdr (fe_tracemode y is_launch) 0 0) @ enc_hdr (fetobe_hdr lmonp_febe_rm_type (rm_word rm1) 0)"
    using send_modes_ok [OF 3(2) c, of y is_launch] by (auto simp: rm_word_def)
  have p5: "packs (on_be l4 ?s2) febe_data ud" "registered (on_be l4 ?s2)"
    using ud j(1) packs_cong [of "on_be l4 ?s2" s] by simp_all
  obtain l5 rc5 where 5: "handleFeBeUsrData febe_data (on_be l4 ?s2) = (Inr rc5, on_be l5 ?s2)" "payload_ok rc5"
    "be_serves (on_be l5 ?s2) (?go # ?rdy) []" "lk_sent l5 = lk_sent l4 @ concat (enc_hdr (udata_hdr ud) # pieces ud)"
    using send_udata_ok [OF 4(2) p5(2,1)] by auto
  obtain l6 where 6: "be_recv_cont junk (on_be l5 ?s2) = (Inr (Inr ()), on_be l6 ?s2)"
    "be_serves (on_be l6 ?s2) ?rdy []" "lk_sent l6 = lk_sent l5"
    using recv_cont_ok [where junk = junk, OF 5(3) junk] by auto
  obtain le where 7: "tell_engine lmonp_cont_launch_bp (on_be l6 ?s2) = (Inr 28, on_en le (on_be l6 ?s2))"
    "lk_sent le = lk_sent (cm_link (fe_engine_conn s)) @ enc_hdr (engine_hdr lmonp_cont_launch_bp)"
    using tell_engine_ok [of "on_be l6 ?s2" "[]" "[]"] j(7,8) by auto
  have p8: "be_serves (on_en le (on_be l6 ?s2)) ?rdy []" "registered (on_en le (on_be l6 ?s2))"
    "taken (on_en le (on_be l6 ?s2)) up befe_data out"
    using 6(2) j(1) up(1) taken_cong [of "on_en le (on_be l6 ?s2)" s] by simp_all
  obtain l8 rc8 where 8: "handleBeFeUsrData junk befe_data (on_en le (on_be l6 ?s2)) = (Inr (rc8, out), on_be l8 (on_en le (on_be l6 ?s2)))"
    "payload_ok rc8" "lk_sent l8 = lk_sent l6"
    using recv_ready_ok [where junk = junk, OF p8 up(2) junk] by auto
  have e: "on_be l8 (on_en le (on_be l6 ?s2)) = on_be l8 (on_en le ?s2)" by (simp add: on_be_def on_en_def)
  have "fe_beHandshakeSequence y junk is_launch febe_data befe_data s = (Inr (Inr out), on_be l8 (on_en le ?s2))"
    unfolding fe_beHandshakeSequence_def bindA_run [of "assist_ICCL_BE_init y" s, OF 0] sum.case
      stepA_run [of "be_accept_master y" ?s0, OF a] stepA_run [of "be_authenticate y junk" ?s0, OF 1(1)]
      stepA_run [of "be_recv_hostnames junk" "on_be l1 ?s0", OF 2(1)] stepA_run [of be_send_proctab "on_be l2 ?s1", OF 3(1)]
      bindA_run [of "be_send_modes y is_launch" "on_be l3 ?s2", OF 4(1)] bindA_run [of "handleFeBeUsrData febe_data" "on_be l4 ?s2", OF 5(1)]
    by (simp add: 5(2) stepA_run [of "be_recv_cont junk" "on_be l5 ?s2", OF 6(1)]
      bindA_run [of "tell_engine lmonp_cont_launch_bp" "on_be l6 ?s2", OF 7(1)]
      bindA_run [of "handleBeFeUsrData junk befe_data" "on_en le (on_be l6 ?s2)", OF 8(1)] 8(2) e ret_def)
  moreover have "lk_sent l8 = be_sent s @ concat (fe_sends (job_hdr tab) (job_payload tab) (fe_tracemode y is_launch) (rm_word rm1) ud)"
    using 1(3) 2(3) 3(3) 4(3) 5(4) 6(3) 8(3) by (simp add: fe_sends_def)
  ultimately show ?thesis using 7(2) by blast
qed


section \<open>Both ends\<close>

lemma rm_word_back: "rm_case rm1 = Ptrace_rm \<or> rm_case rm1 = Generic_rm \<Longrightarrow> rm_of (ucast (rm_word rm1)) = rm1"
  by (cases rm1; hypsubst; code_simp)

lemma tracemode_mode: "\<exists>m. mode_of (fe_tracemode y is_launch) = Some m"
  by (simp add: fe_tracemode_def split: option.split)



text \<open>A session as it is when the launcher of two tasks has stopped.\<close>

definition demo_desc :: "int \<Rightarrow> link \<Rightarrow> comm_desc" where
  "demo_desc fd l = \<lparr>cm_ip = ''10.0.0.1'', cm_port = 5000, cm_listen = 3, cm_accept = fd, cm_daemons = 0, cm_closed = False, cm_link = l\<rparr>"

definition no_link :: link where "no_link = \<lparr>lk_reads = [], lk_writes = [], lk_sent = []\<rparr>"

definition demo_session :: "link \<Rightarrow> link \<Rightarrow> unit fe_session" where
  "demo_session be en = \<lparr>registered = True, spawned = True, mw_spawned = False, detached = False, killed = False,
     le_pid = 0, rm_launcher_pid = 0,
     rm_info = \<lparr>rm_supported_types = Some [RC_slurm], num_supported_types = 1, index_to_cur_instance = 0, ri_launcher_pid = 42\<rparr>,
     cipher_key = Some (replicate 16 1), shared_key = replicate 16 1, randomID = 7,
     s_pack = None, s_unpack = None, s_mw_pack = None, s_mw_unpack = None,
     fe_be_conn = demo_desc (-1) be, fe_mw_conn = demo_desc (-1) no_link, fe_engine_conn = demo_desc 4 en,
     resourceHandle = -1, be_env_list = [], mw_env_list = [],
     proctab_msg = Some (engine_table demo_tab), hntab_msg = None, hntab_mw_msg = Null, pMap = [], spawner_vector = [],
     statusCB = False, status_calls = [], eventMutex = False, watching = True, s_waits = []\<rparr>"

definition demo_sys :: fe_sys where
  "demo_sys = \<lparr>sy_socks = (\<lambda>_. \<lparr>sa_gethostname = True, sa_resolved = True, sa_socket = 3, sa_bind = 0, sa_listen = 0, sa_fcntl = 0,
       sa_getsockname = 0, sa_ntop = Some ''10.0.0.1'', sa_port = 5000\<rparr>),
     sy_rand = (7, 11), sy_gcry_open = True, sy_gcry_setkey = True, sy_decipher = (\<lambda>_ b. Some b), sy_getenv = (\<lambda>_. None),
     sy_atoi = (\<lambda>_. 0), sy_accept_engine = (0, []), sy_accept_be = (0, []), sy_cobosec = 0, sy_cobo = (\<lambda>_ _. Some 5), sy_thread = 0\<rparr>"

lemma concat_chunks: "concat (map (\<lambda>i. take k (drop (k * i) bs)) [0..<n]) = take (k * n) bs"
  by (induction n) (simp_all add: take_add [symmetric] add.commute)

lemma four_words_all:
  assumes "length bs = 16"
  shows "\<forall>w \<in> set (four_words bs). length w = 4" "length (four_words bs) = 4" "concat (four_words bs) = bs"
  using assms concat_chunks [of 4 bs 4] by (auto simp: four_words_def LMON_KEY_LENGTH_def)

lemma length_sess_block [simp]: "length (sess_block i) = 16"
  by (simp add: sess_block_def LMON_KEY_LENGTH_def)


end
