(* ===== verification/Fe_Secret.thy ===== *)
theory Fe_Secret
  imports Tool_Start
begin

text \<open>
  The secret of a session: the daemon that was started with it is believed, and the front end
  sends nothing to a peer that did not prove it.
\<close>

section \<open>The key on both sides\<close>

lemma length_show_nat: "0 < k \<Longrightarrow> n < 10 ^ k \<Longrightarrow> length (show_nat n) \<le> k"
proof (induction k arbitrary: n)
  case (Suc k)
  show ?case
  proof (cases "n < 10")
    case False
    then have "0 < k" using Suc.prems(2) by (cases k) auto
    moreover have "n div 10 < 10 ^ k" using Suc.prems(2) by (simp add: div_less_iff_less_mult mult.commute)
    ultimately show ?thesis using Suc.IH [of "n div 10"] False by (subst show_nat.simps) simp
  qed (subst show_nat.simps, simp)
qed simp

lemma length_show_rand: "0 \<le> i \<Longrightarrow> i < 2 ^ 31 \<Longrightarrow> length (show_int i) \<le> 10"
  using length_show_nat [of 10 "nat i"] by (simp add: show_int_def)

text \<open>The text of the key fills the daemon's buffer as it fills the session's.\<close>

lemma key_agrees:
  assumes "length (show_int r) \<le> 15"
  shows "key_text r = map char_byte (show_int r) @ replicate (LMON_KEY_LENGTH - length (show_int r)) 0"
proof -
  have e: "map char_byte (show_int r) @ [0] @ replicate LMON_KEY_LENGTH 0 = map char_byte (show_int r) @ replicate (Suc LMON_KEY_LENGTH) 0"
    by simp
  show ?thesis unfolding key_text_def cstr_def append_assoc e
    using assms by (simp add: take_replicate LMON_KEY_LENGTH_def min_def del: replicate_Suc)
qed

lemma daemon_key:
  assumes "env ''LMON_SHARED_SECRET'' = Some (show_int r)" and "env ''LMON_SEC_CHK'' = Some (show_int i)"
    and "length (show_int r) \<le> 15" and "atoi (show_int i) = i"
  shows "daemon_getSharedKeyAndID env atoi = Inr (LMON_OK, Some (key_text r, i))"
  using assms(3) by (simp add: daemon_getSharedKeyAndID_def assms(1,2,4) key_agrees [OF assms(3)] LMON_KEY_LENGTH_def)

lemma send_words_ok:
  assumes "ready (be_link d) ins (replicate (length ws) 28 @ outs)"
  shows "\<exists>l. send_words ws d = (Inr (Inr ()), d\<lparr>be_link := l\<rparr>) \<and> ready l ins outs \<and>
    lk_sent l = lk_sent (be_link d) @ concat (map (\<lambda>w. enc_hdr (secchk_hdr w)) ws)"
  using assms
proof (induction ws arbitrary: d)
  case Nil
  then show ?case by (intro exI [of _ "be_link d"]) (simp add: ret_def)
next
  case (Cons w ws)
  have w: "wf_msg (secchk_hdr w) []" by (simp add: secchk_hdr_def short_msg)
  have "ready (be_link d) ins (28 # replicate (length ws) 28 @ outs)" using Cons.prems by simp
  from lk.put_short [OF this w]
  obtain l where l: "lk_write (enc_hdr (secchk_hdr w)) 28 (be_link d) = (Inr 28, l)" "ready l ins (replicate (length ws) 28 @ outs)"
    "lk_sent l = lk_sent (be_link d) @ enc_hdr (secchk_hdr w)" by blast
  obtain k where k: "send_words ws (d\<lparr>be_link := l\<rparr>) = (Inr (Inr ()), d\<lparr>be_link := k\<rparr>)" "ready k ins outs"
    "lk_sent k = lk_sent l @ concat (map (\<lambda>w. enc_hdr (secchk_hdr w)) ws)"
    using Cons.IH [of "d\<lparr>be_link := l\<rparr>"] l(2) by auto
  then show ?case using l
    by (intro exI [of _ k]) (simp add: bindA_def on_link_def zoomA_def lmonp_size_def secchk_hdr_def)
qed

text \<open>What a new session holds and puts into the daemons' environment.\<close>

lemma open_comm_frame:
  assumes "open_comm get upd a s = (Inr (Inr ()), t)"
  shows "\<exists>c. t = upd (\<lambda>_. c) s"
  using assms by (auto simp: open_comm_def ret_def split: prod.splits if_splits)

lemma make_key_ok:
  assumes "make_key y s = (Inr (Inr ()), t)"
  shows "t = s\<lparr>randomID := fst (sy_rand y), shared_key := key_text (snd (sy_rand y)), cipher_key := Some (key_text (snd (sy_rand y))),
    registered := True\<rparr>"
  using assms by (auto simp: make_key_def ret_def Let_def split: if_splits)

lemma fill_env_ok:
  assumes "fill_env y s = (Inr (), t)"
  shows "(\<exists>bs ms. t = s\<lparr>be_env_list := be_env_list s @ secchk_env (fe_be_conn s) y @ bs, mw_env_list := ms\<rparr>)"
proof -
  show ?thesis using assms
    by (auto simp: fill_env_def ret_def throw_def Let_def split: if_splits option.splits)
      (rule exI, rule exI, rule fe_session.equality, simp_all)+
qed


text \<open>A session just set up, and what its daemons find.\<close>

lemma new_session_secret:
  assumes "new_session y s = (Inr (Inr ()), t)" and "be_env_list s = []"
  shows "cipher_key t = Some (key_text (snd (sy_rand y))) \<and> randomID t = fst (sy_rand y) \<and> registered t \<and>
    map_of (be_env_list t) ''LMON_SHARED_SECRET'' = Some (show_int (snd (sy_rand y))) \<and>
    map_of (be_env_list t) ''LMON_SEC_CHK'' = Some (show_int (fst (sy_rand y)))"
proof -
  have r: "\<not> registered s" using assms(1) by (auto simp: new_session_def ret_def split: if_splits)
  obtain s1 s2 s3 s4 where o: "open_comm fe_be_conn fe_be_conn_update (sy_socks y 0) s = (Inr (Inr ()), s1)"
    "open_comm fe_mw_conn fe_mw_conn_update (sy_socks y 1) s1 = (Inr (Inr ()), s2)"
    "open_comm fe_engine_conn fe_engine_conn_update (sy_socks y 2) s2 = (Inr (Inr ()), s3)"
    "make_key y s3 = (Inr (Inr ()), s4)" "fill_env y s4 = (Inr (), t)"
    using assms(1) r
    by (auto simp: new_session_def stepA_def bindA_def ret_def split: prod.splits sum.splits)
  have e: "be_env_list s3 = []" using open_comm_frame [OF o(1)] open_comm_frame [OF o(2)] open_comm_frame [OF o(3)] assms(2) by auto
  note k = make_key_ok [OF o(4)]
  from fill_env_ok [OF o(5)] obtain bs ms where f: "t = s4\<lparr>be_env_list := be_env_list s4 @ secchk_env (fe_be_conn s4) y @ bs, mw_env_list := ms\<rparr>"
    by blast
  show ?thesis using k e by (simp add: f secchk_env_def)
qed

text \<open>C5: (roundtrip) A daemon is believed by the front end that had it started. For a session
  that \<open>createSession\<close> set up, a daemon that finds the two values the session put into the
  environment of its daemons, and whose cipher the front end's can undo, sends four messages on
  its connection, and whatever the session does in between, an authentication that reads these
  four messages succeeds and leaves what follows them.\<close>

theorem secret_accepted:
  fixes d :: "'d be_data" and s :: "'u fe_session"
  assumes "new_session y s = (Inr (Inr ()), s')" and "be_env_list s = []"
    and "0 \<le> fst (sy_rand y)" "fst (sy_rand y) < 2 ^ 31" "0 \<le> snd (sy_rand y)" "snd (sy_rand y) < 2 ^ 31"
    and "env ''LMON_SHARED_SECRET'' = map_of (be_env_list s') ''LMON_SHARED_SECRET''"
    and "env ''LMON_SEC_CHK'' = map_of (be_env_list s') ''LMON_SEC_CHK''"
    and "en_atoi e (show_int (fst (sy_rand y))) = fst (sy_rand y)"
    and "be_connect e env = LMON_OK" and "en_gcry_open e \<and> en_gcry_setkey e \<and> en_gcry_encrypt e"
    and "\<And>k b. length b = 16 \<Longrightarrow> length (en_cipher e k b) = 16 \<and> sy_decipher y k (en_cipher e k b) = Some b"
    and "ready (be_link d) [] [28, 28, 28, 28]" and "\<And>k. length (junk k) = k"
  shows "\<exists>l hs. be_security e env d = (Inr (Inr ()), d\<lparr>be_link := l\<rparr>) \<and> lk_sent l = lk_sent (be_link d) @ concat hs \<and>
    (\<forall>t ins outs. cipher_key t = cipher_key s' \<and> randomID t = randomID s' \<and> be_serves t (hs @ ins) outs \<longrightarrow>
      (\<exists>k. be_authenticate y junk t = (Inr (Inr ()), on_be k (t :: 'u fe_session)) \<and> be_serves (on_be k t) ins outs))"
proof -
  note n = new_session_secret [OF assms(1,2)]
  let ?key = "key_text (snd (sy_rand y))" and ?id = "fst (sy_rand y)"
  let ?c = "en_cipher e ?key (sess_block ?id)"
  have g: "daemon_getSharedKeyAndID env (en_atoi e) = Inr (LMON_OK, Some (?key, ?id))"
    by (rule daemon_key) (use assms(7,8,9) n length_show_rand [OF assms(5,6)] in simp_all)
  have c: "length ?c = 16" "sy_decipher y ?key ?c = Some (sess_block ?id)" using assms(12) [of "sess_block ?id"] by simp_all
  note w = four_words_all [OF c(1)]
  have "ready (be_link d) [] (replicate (length (four_words ?c)) 28 @ [])" using assms(13) by (simp add: w(2) numeral_eq_Suc)
  then obtain l where l: "send_words (four_words ?c) d = (Inr (Inr ()), d\<lparr>be_link := l\<rparr>)"
    "lk_sent l = lk_sent (be_link d) @ concat (map (\<lambda>w. enc_hdr (secchk_hdr w)) (four_words ?c))"
    using send_words_ok by blast
  have b: "be_security e env d = (Inr (Inr ()), d\<lparr>be_link := l\<rparr>)" using assms(10,11) l(1) g by (simp add: be_security_def)
  have "take 4 (sess_block ?id) = enc32 (of_int ?id)" by (simp add: sess_block_def)
  then have i: "sint (dec32 (take 4 (sess_block ?id))) = ?id" using assms(3,4) sint_of_nat32 [of "nat ?id"] by simp
  have "\<exists>k. be_authenticate y junk t = (Inr (Inr ()), on_be k t) \<and> be_serves (on_be k t) ins outs"
    if "cipher_key t = cipher_key s'" "randomID t = randomID s'"
      "be_serves t (map (\<lambda>w. enc_hdr (secchk_hdr w)) (four_words ?c) @ ins) outs" for t :: "'u fe_session" and ins outs
  proof -
    have "fe_is_secure y (concat (four_words ?c)) t" using n that(1,2) c(2) i by (simp add: fe_is_secure_def w(3))
    then show ?thesis using authenticate_ok [where junk = junk, OF that(3) w(1,2) _ assms(14)] by blast
  qed
  then show ?thesis using b l(2) by blast
qed


definition fresh_session :: "unit fe_session" where
  "fresh_session = (demo_session no_link no_link)\<lparr>registered := False, cipher_key := None\<rparr>"

definition demo_be_env :: "(string \<Rightarrow> string option) \<Rightarrow> be_env" where
  "demo_be_env env = \<lparr>en_sgi = False, en_readable = (\<lambda>_. False), en_hostname = Some ''n1'', en_resolved = None, en_personality = None,
     en_argv = [''tool''], en_cobo = Some (0, 1), en_parent = Some 5, en_getenv = env, en_atoi = (\<lambda>_. 7), en_pton = (\<lambda>_. (1, 0)),
     en_socket = 3, en_connect = (\<lambda>_. 0), en_gcry_open = True, en_gcry_setkey = True, en_gcry_encrypt = True, en_cipher = (\<lambda>_ b. b)\<rparr>"

lemma demo_new: "fst (new_session demo_sys fresh_session) = Inr (Inr ())"
  by (simp add: new_session_def fresh_session_def demo_session_def demo_sys_def stepA_def bindA_def ret_def open_comm_def comm_opened_def
    openBindAndListen_def demo_desc_def make_key_def Let_def fill_env_def)

theorem secret_accepted_witness:
  "\<exists>s' l hs. new_session demo_sys fresh_session = (Inr (Inr ()), s') \<and>
    be_security (demo_be_env (map_of (be_env_list s'))) (map_of (be_env_list s')) (demo_daemon (replicate 4 (Wrote 28)) [] 0) =
      (Inr (Inr ()), (demo_daemon (replicate 4 (Wrote 28)) [] 0)\<lparr>be_link := l\<rparr>) \<and> lk_sent l = concat hs"
proof -
  let ?s = "snd (new_session demo_sys fresh_session)" and ?d = "demo_daemon (replicate 4 (Wrote 28)) [] 0"
  let ?env = "map_of (be_env_list ?s)"
  have n: "new_session demo_sys fresh_session = (Inr (Inr ()), ?s)" using demo_new by (metis prod.collapse)
  have e: "be_env_list fresh_session = []" by (simp add: fresh_session_def demo_session_def)
  have r: "0 \<le> fst (sy_rand demo_sys)" "fst (sy_rand demo_sys) < 2 ^ 31" "0 \<le> snd (sy_rand demo_sys)" "snd (sy_rand demo_sys) < 2 ^ 31"
    "en_atoi (demo_be_env ?env) (show_int (fst (sy_rand demo_sys))) = fst (sy_rand demo_sys)"
    by (simp_all add: demo_sys_def demo_be_env_def)
  have c: "be_connect (demo_be_env ?env) ?env = LMON_OK"
    "en_gcry_open (demo_be_env ?env) \<and> en_gcry_setkey (demo_be_env ?env) \<and> en_gcry_encrypt (demo_be_env ?env)"
    by (simp_all add: be_connect_def demo_be_env_def daemon_internal_getConnFd_def)
  have i: "length (en_cipher (demo_be_env ?env) k b) = 16 \<and> sy_decipher demo_sys k (en_cipher (demo_be_env ?env) k b) = Some b"
    if "length b = 16" for k b using that by (simp add: demo_be_env_def demo_sys_def)
  have l: "ready (be_link ?d) [] [28, 28, 28, 28]"
    using offers_prompt [of "[]"] takes_prompt [of "[28, 28, 28, 28]"] by (simp add: ready_def demo_daemon_def numeral_eq_Suc)
  have z: "lk_sent (be_link ?d) = []" by (simp add: demo_daemon_def)
  note q = secret_accepted [OF n e r(1-4) refl refl r(5) c i l, where junk = "\<lambda>k. replicate k 0", unfolded z]
  have "\<exists>l hs. be_security (demo_be_env ?env) ?env ?d = (Inr (Inr ()), ?d\<lparr>be_link := l\<rparr>) \<and> lk_sent l = concat hs"
    by (rule exE [OF q], assumption, simp, elim exE conjE, intro exI conjI, assumption, simp)
  then show ?thesis using n by (intro exI [of _ ?s]) blast
qed


section \<open>Without the proof\<close>

text \<open>Nothing was sent to the daemons or the engine, and the session's secret is the same.\<close>

definition en_sent :: "'u fe_session \<Rightarrow> byte list" where
  "en_sent s = lk_sent (cm_link (fe_engine_conn s))"

definition silent :: "'u fe_session \<Rightarrow> 'u fe_session \<Rightarrow> bool" where
  "silent s t \<longleftrightarrow> be_sent t = be_sent s \<and> en_sent t = en_sent s \<and> cipher_key t = cipher_key s \<and> randomID t = randomID s"

lemma keeps_chan_read:
  assumes "\<And>l. lk_sent (snd (m l)) = lk_sent l"
  shows "keeps (silent s) (chan fe_be_conn fe_be_conn_update bad m)"
proof (unfold keeps_def, intro allI impI)
  fix t assume t: "silent s t"
  have "lk_sent (snd (m (cm_link (fe_be_conn t)))) = lk_sent (cm_link (fe_be_conn t))" by (rule assms)
  then show "silent s (snd (chan fe_be_conn fe_be_conn_update bad m t))"
    using t by (cases "m (cm_link (fe_be_conn t))") (simp add: chan_def ret_def silent_def be_sent_def en_sent_def)
qed

lemma lk_read_quiet: "lk_sent (snd (lk_read_hdr old l)) = lk_sent l" "lk_sent (snd (lk_read_payload old n l)) = lk_sent l"
  by (simp_all add: lk_read_hdr_def lk_read_payload_def ret_def throw_def split: option.split)

lemma keeps_read_hdr [keeps_intros, simp]: "keeps (silent s) (be_read_hdr old)"
  unfolding be_read_hdr_def by (rule keeps_chan_read) (rule lk_read_quiet)

lemma keeps_secchk [simp]: "keeps (silent s) (be_secchk_words n old)"
  by (induction n old rule: be_secchk_words.induct) (auto intro!: keeps_bindA keeps_step)

lemma silent_init: "silent s t \<Longrightarrow> silent s (snd (assist_ICCL_BE_init y t))"
  by (auto simp: assist_ICCL_BE_init_def ret_def throw_def Let_def silent_def be_sent_def en_sent_def
    split: option.split sum.split)

lemma silent_accept: "silent s t \<Longrightarrow> silent s (snd (be_accept_master y t))"
  by (auto simp: be_accept_master_def accept_on_def ret_def throw_def Let_def silent_def be_sent_def en_sent_def
    split: option.split)

lemma silent_close: "silent s t \<Longrightarrow> silent s (t\<lparr>fe_be_conn := (fe_be_conn t)\<lparr>cm_closed := b\<rparr>\<rparr>)"
  by (simp add: silent_def be_sent_def en_sent_def)

text \<open>What the authentication does on each outcome.\<close>

lemma authenticate_cases:
  assumes "silent s u"
  shows "silent s (snd (be_authenticate y junk u)) \<and>
    (fst (be_authenticate y junk u) = Inr (Inr ()) \<longrightarrow>
      (\<exists>ws v. be_secchk_words 4 (junk lmonp_size) u = (Inr (Inr ws), v) \<and> fe_is_secure y ws v \<and> silent s v))"
proof -
  obtain r v where v: "be_secchk_words 4 (junk lmonp_size) u = (r, v)" by (cases "be_secchk_words 4 (junk lmonp_size) u")
  have "silent s v" using keepsD [OF keeps_secchk assms, of 4 "junk lmonp_size"] v by simp
  then show ?thesis using v
    by (cases r rule: sum.exhaust)
      (auto simp: be_authenticate_def LMON_KEY_LENGTH_def stepA_def bindA_def ret_def silent_close split: sum.split)
qed


text \<open>The witness is the run in which the master serves.\<close>

lemma demo_handshake:
  "\<exists>s t. fe_beHandshakeSequence demo_sys (\<lambda>k. replicate k 0) True None None s = (Inr (Inr None), t) \<and>
    be_sent s = [] \<and> be_sent (t :: unit fe_session) \<noteq> []"
proof -
  let ?ws = "four_words (sess_block 7)" and ?j = "\<lambda>k. replicate k (0 :: byte)" and ?hs = "[''n1'', ''n2'']"
  let ?be = "master_sends ?ws ?hs lmonp_zero []"
  let ?bo = "[28 + length (job_payload demo_tab), 28, 28, 28 + length ([] :: byte list)]"
  let ?s = "demo_session \<lparr>lk_reads = map Data ?be, lk_writes = map Wrote ?bo, lk_sent = []\<rparr>
      \<lparr>lk_reads = [], lk_writes = [Wrote 28], lk_sent = []\<rparr>"
  note w = four_words_all [OF length_sess_block, of 7]
  have hn: "hosts_payload ?hs \<noteq> []" using demo_hosts(2) by auto
  have b: "\<forall>p \<in> set ?be. p \<noteq> []" using hn by (auto simp: master_sends_def pieces_def)
  have k: "ready (cm_link (fe_be_conn ?s)) ?be ?bo"
    using offers_prompt [OF b] takes_prompt [of ?bo] by (simp add: ready_def demo_session_def demo_desc_def)
  have en: "ready (cm_link (fe_engine_conn ?s)) [] [28]"
    using offers_prompt [of "[]"] takes_prompt [of "[28]"] by (simp add: ready_def demo_session_def demo_desc_def)
  have job: "job_stopped demo_sys demo_tab RC_slurm 5 ?s" using en
    by (simp add: job_stopped_def) (simp add: demo_session_def demo_sys_def cur_rm_def cobo_root_def open_desc_def demo_desc_def)
  have sec: "fe_is_secure demo_sys (concat ?ws) ?s"
    unfolding w(3) by (simp add: fe_is_secure_def demo_session_def demo_sys_def sess_block_def)
  have pk: "packs ?s None []" "taken ?s [] None None" "length ([] :: byte list) < 2 ^ 31" by (simp_all add: packs_def taken_def)
  have z: "be_sent ?s = []" by (simp add: be_sent_def demo_session_def demo_desc_def)
  have nz: "concat (fe_sends a b c e f) \<noteq> []" for a b c e f by (simp add: fe_sends_def flip: length_0_conv)
  obtain l le t where t: "fe_beHandshakeSequence demo_sys ?j True None None ?s = (Inr (Inr None), on_be l t)"
    "lk_sent l = be_sent ?s @ concat (fe_sends (job_hdr demo_tab) (job_payload demo_tab) (fe_tracemode demo_sys True) (rm_word RC_slurm) [])"
    using fe_handshake_run [OF job demo_tab_wf demo_hosts(1) w(1,2) sec k pk(1,2,3), of ?j True] by auto
  have "be_sent (on_be l t) \<noteq> []" using t(2) nz by (simp add: z)
  then show ?thesis using t(1) z by blast
qed


end
