(* ===== verification/Fe_Table.thy ===== *)
theory Fe_Table
  imports Fe_Secret
begin

text \<open>
  The table of sessions, what a client reads of one, and the discipline of its mutex.
\<close>

section \<open>The table\<close>

text \<open>\<open>k\<close> sessions have been created, nobody is inside a call.\<close>

definition sessions_upto :: "nat \<Rightarrow> 'u fe \<Rightarrow> bool" where
  "sessions_upto k s \<longleftrightarrow> length (sessionDescArray s) = MAX_LMON_SESSION \<and> k \<le> MAX_LMON_SESSION \<and>
     sessionPtrIndex s = k mod MAX_LMON_SESSION \<and>
     (\<forall>i < MAX_LMON_SESSION. (registered (sessionDescArray s ! i) \<longleftrightarrow> i < k) \<and> \<not> eventMutex (sessionDescArray s ! i))"

text \<open>A system on which sockets open and the library works, without the debug variables.\<close>

definition sys_works :: "fe_sys \<Rightarrow> bool" where
  "sys_works y \<longleftrightarrow> (\<forall>i < 3. let a = sy_socks y i in sa_gethostname a \<and> sa_resolved a \<and> 0 \<le> sa_socket a \<and> 0 \<le> sa_bind a \<and>
       0 \<le> sa_listen a \<and> 0 \<le> sa_fcntl a \<and> 0 \<le> sa_getsockname a \<and> sa_ntop a \<noteq> None) \<and>
     sy_gcry_open y \<and> sy_gcry_setkey y \<and> sy_getenv y ''LMON_DEBUG_BES'' = None \<and> sy_getenv y ''LMON_DEBUG_MWS'' = None"

lemma open_comm_works:
  assumes "sys_works y" and "i < 3"
  shows "\<exists>c. open_comm get upd (sy_socks y i) s = (Inr (Inr ()), upd (\<lambda>_. c) s)"
proof -
  let ?a = "sy_socks y i"
  have a: "sa_gethostname ?a" "sa_resolved ?a" "\<not> sa_socket ?a < 0" "\<not> sa_bind ?a < 0" "\<not> sa_listen ?a < 0" "\<not> sa_fcntl ?a < 0"
    "\<not> sa_getsockname ?a < 0" using assms unfolding sys_works_def Let_def by (simp_all add: not_less)
  obtain ip where ip: "sa_ntop ?a = Some ip" using assms unfolding sys_works_def Let_def by blast
  have "fst (comm_opened ?a (get s))" by (simp add: comm_opened_def openBindAndListen_def a ip)
  then show ?thesis by (cases "comm_opened ?a (get s)") (simp add: open_comm_def ret_def, blast)
qed

lemma new_session_works:
  assumes "sys_works y" and "\<not> registered s"
  shows "\<exists>t. new_session y s = (Inr (Inr ()), t) \<and> registered t \<and> eventMutex t = eventMutex s"
proof -
  obtain a where a: "open_comm fe_be_conn fe_be_conn_update (sy_socks y 0) s = (Inr (Inr ()), s\<lparr>fe_be_conn := a\<rparr>)"
    using open_comm_works [OF assms(1), of 0 fe_be_conn fe_be_conn_update s] by auto
  let ?s1 = "s\<lparr>fe_be_conn := a\<rparr>"
  obtain b where b: "open_comm fe_mw_conn fe_mw_conn_update (sy_socks y 1) ?s1 = (Inr (Inr ()), ?s1\<lparr>fe_mw_conn := b\<rparr>)"
    using open_comm_works [OF assms(1), of 1 fe_mw_conn fe_mw_conn_update ?s1] by auto
  let ?s2 = "?s1\<lparr>fe_mw_conn := b\<rparr>"
  obtain c where c: "open_comm fe_engine_conn fe_engine_conn_update (sy_socks y 2) ?s2 = (Inr (Inr ()), ?s2\<lparr>fe_engine_conn := c\<rparr>)"
    using open_comm_works [OF assms(1), of 2 fe_engine_conn fe_engine_conn_update ?s2] by auto
  show ?thesis using assms
    by (simp add: new_session_def stepA_run [of "open_comm _ _ _" s, OF a] stepA_run [of "open_comm _ _ _" ?s1, OF b]
      stepA_run [of "open_comm _ _ _" ?s2, OF c] del: One_nat_def)
      (simp add: make_key_def fill_env_def stepA_def bindA_def ret_def Let_def sys_works_def)
qed

lemma locked_run:
  assumes "m (s\<lparr>eventMutex := True\<rparr>) = (Inr x, t)" and "\<not> eventMutex s" and "eventMutex t"
  shows "locked m s = (Inr x, t\<lparr>eventMutex := False\<rparr>)"
  using assms by (simp add: locked_def lockA_def unlockA_def bindA_def ret_def)

lemma locked_blocks: "eventMutex s \<Longrightarrow> locked m s = (Inl No_return, s)"
  by (simp add: locked_def lockA_def bindA_def throw_def)

text \<open>C15: (invariant) The table of sessions: when \<open>k\<close> sessions have been created and no call is
  under way, a call to create one more registers descriptor \<open>k\<close>, gives its index as the handle
  and leaves the table with \<open>k + 1\<close> sessions. It returns \<open>LMON_OK\<close>, except that for the last
  descriptor of the table it returns \<open>LMON_EINVAL\<close> although the session is registered, and that a
  full table is refused and left as it is.\<close>

theorem session_ring:
  assumes "sessions_upto k s" and "sys_works y"
  shows "\<exists>t. fe_createSession y s = (Inr (if k < MAX_LMON_SESSION - 1 then LMON_OK else LMON_EINVAL, k mod MAX_LMON_SESSION), t) \<and>
    (if k < MAX_LMON_SESSION then sessions_upto (Suc k) t else t = s)"
proof -
  have s: "length (sessionDescArray s) = 100" "k \<le> 100" "sessionPtrIndex s = k mod 100"
    "\<And>i. i < 100 \<Longrightarrow> registered (sessionDescArray s ! i) \<longleftrightarrow> i < k" "\<And>i. i < 100 \<Longrightarrow> \<not> eventMutex (sessionDescArray s ! i)"
    using assms(1) by (simp_all add: sessions_upto_def MAX_LMON_SESSION_def)
  let ?i = "k mod 100" and ?d = "sessionDescArray s ! (k mod 100)"
  have i: "?i < 100" by simp
  show ?thesis
  proof (cases "k < 100")
    case True
    then have "\<not> registered (?d\<lparr>eventMutex := True\<rparr>)" using s(4) [OF i] by simp
    then obtain t where t: "new_session y (?d\<lparr>eventMutex := True\<rparr>) = (Inr (Inr ()), t)" "registered t" "eventMutex t"
      using new_session_works [OF assms(2), of "?d\<lparr>eventMutex := True\<rparr>"] by auto
    have l: "locked (new_session y) ?d = (Inr (Inr ()), t\<lparr>eventMutex := False\<rparr>)"
      by (rule locked_run [of "new_session y" ?d, OF t(1) s(5) [OF i] t(3)])
    have o: "on_session ?i (locked (new_session y)) s =
        (Inr (Inr ()), s\<lparr>sessionDescArray := (sessionDescArray s)[?i := t\<lparr>eventMutex := False\<rparr>]\<rparr>)"
      using l by (simp add: on_session_def zoomA_def)
    let ?ar = "(sessionDescArray s)[k := t\<lparr>eventMutex := False\<rparr>]"
    have m: "k mod 100 = k" using True by simp
    have ar: "(registered (?ar ! j) \<longleftrightarrow> j < Suc k) \<and> \<not> eventMutex (?ar ! j)" if "j < 100" for j
      using that t(2) s(1) s(4,5) [OF that] by (cases "j = k") auto
    have up: "sessions_upto (Suc k) (s\<lparr>sessionDescArray := ?ar, sessionPtrIndex := Suc k mod 100\<rparr>)"
      using ar True s(1) by (simp add: sessions_upto_def MAX_LMON_SESSION_def)
    have c: "Suc k div 100 = 1 \<longleftrightarrow> k = 99" "Suc k div 100 \<noteq> 1 \<Longrightarrow> Suc k mod 100 = Suc k" using True by (cases "k = 99"; simp)+
    have "fe_createSession y s = (Inr (if k < 99 then LMON_OK else LMON_EINVAL, k),
        s\<lparr>sessionDescArray := ?ar, sessionPtrIndex := Suc k mod 100\<rparr>)"
      unfolding fe_createSession_def s(3) m Let_def bindA_run [of "on_session k (locked (new_session y))" s, OF o [unfolded m]]
      using c by (cases "k = 99") (simp_all add: MAX_LMON_SESSION_def ret_def s(3) m)
    then show ?thesis using up True m by (simp add: MAX_LMON_SESSION_def)
  next
    case False
    then have k: "k = 100" using s(2) by simp
    have "registered (?d\<lparr>eventMutex := True\<rparr>)" using s(4) [OF i] k by simp
    then have n: "new_session y (?d\<lparr>eventMutex := True\<rparr>) = (Inr (Inl LMON_EINVAL), ?d\<lparr>eventMutex := True\<rparr>)"
      by (simp add: new_session_def ret_def)
    have "locked (new_session y) ?d = (Inr (Inl LMON_EINVAL), ?d\<lparr>eventMutex := True, eventMutex := False\<rparr>)"
      by (rule locked_run [of "new_session y" ?d, OF n s(5) [OF i]]) simp
    moreover have "?d\<lparr>eventMutex := False\<rparr> = ?d" using s(5) [OF i] by simp
    ultimately show ?thesis using k s(3)
      by (simp add: fe_createSession_def bindA_def on_session_def zoomA_def MAX_LMON_SESSION_def ret_def)
  qed
qed

definition demo_table :: "unit fe_session \<Rightarrow> unit fe" where
  "demo_table d = \<lparr>sessionDescArray = replicate MAX_LMON_SESSION d, sessionPtrIndex = 0, resmanager = rc_rm0\<rparr>"


theorem session_ring_witness:
  "\<exists>t. fe_createSession demo_sys (demo_table (fresh_session :: unit fe_session)) = (Inr (LMON_OK, 0), t)"
proof -
  have a: "sessions_upto 0 (demo_table fresh_session)"
    by (simp add: sessions_upto_def demo_table_def MAX_LMON_SESSION_def fresh_session_def demo_session_def)
  have b: "sys_works demo_sys" by (simp add: sys_works_def demo_sys_def)
  show ?thesis using session_ring [OF a b] by (simp add: MAX_LMON_SESSION_def) blast
qed


section \<open>The process table\<close>

lemma parse_tasks_entries:
  "parse_tasks buf ent strtab n tab =
     (case read_entries buf ent strtab n of None \<Rightarrow> Inl Undefined_behaviour
      | Some es \<Rightarrow> Inr (0, fold (\<lambda>e. map_push (host_name (pd e)) e) es tab))"
  by (induction n arbitrary: ent tab) (simp_all split: option.split)

lemma length_read_entries: "read_entries buf ent strtab n = Some es \<Longrightarrow> length es = n"
  by (induction n arbitrary: ent es) (auto split: option.splits)

lemma take_read_entries: "read_entries buf ent strtab n = Some es \<Longrightarrow> read_entries buf ent strtab (min n k) = Some (take k es)"
proof (induction n arbitrary: ent es k)
  case (Suc n)
  then show ?case by (cases k) (fastforce split: option.splits)+
qed simp

text \<open>A call on a session where nobody is inside another one.\<close>

lemma call_run:
  assumes "0 \<le> h" and "nat h < length (sessionDescArray s)" and "length (sessionDescArray s) = MAX_LMON_SESSION"
    and "m (sessionDescArray s ! nat h) = (r, t)"
  shows "with_session h bad m s = (r, s\<lparr>sessionDescArray := (sessionDescArray s)[nat h := t]\<rparr>)"
proof -
  have "\<not> h > int MAX_LMON_SESSION" using assms(1-3) by linarith
  then show ?thesis using assms by (simp add: with_session_def on_session_def zoomA_def)
qed

lemma call_reads:
  assumes "0 \<le> h" and "nat h < length (sessionDescArray s)" and "length (sessionDescArray s) = MAX_LMON_SESSION"
    and "m (sessionDescArray s ! nat h) = (r, sessionDescArray s ! nat h)"
  shows "with_session h bad m s = (r, s)"
  using call_run [of h s m r, OF assms] by simp

lemma guarded_reads:
  assumes "m (d\<lparr>eventMutex := True\<rparr>) = (Inr x, d\<lparr>eventMutex := True\<rparr>)" and "\<not> eventMutex d" and "registered d"
  shows "guarded bad m d = (Inr x, d)"
proof -
  have "d\<lparr>eventMutex := False\<rparr> = d" using assms(2) by simp
  then show ?thesis using assms by (simp add: guarded_def locked_def lockA_def unlockA_def bindA_def ret_def)
qed

lemma parsed_entries:
  assumes "parse_raw_RPDTAB_msg (Some m) [] = Inr (0, tab)"
  shows "\<exists>p q es. get_lmonpayload_begin (Some (dec_hdr m)) = Some p \<and> get_strtab_begin (dec_hdr m) = Some q \<and>
    read_entries m p q (msg_ntasks (dec_hdr m)) = Some es \<and> tab = fold (\<lambda>e. map_push (host_name (pd e)) e) es []"
  using assms by (auto simp: parse_raw_RPDTAB_msg_def parse_tasks_entries Let_def split: option.splits)

text \<open>C14: (equivalence) The two readers of the engine's table agree. Whatever bytes the session
  holds as the table, when \<open>parse_raw_RPDTAB_msg\<close>, which groups the tasks by host for the
  daemons, reads a map from them, then \<open>getProctable\<close> gives the client a flat array of which each
  host's vector in the map is the sublist of that host's tasks, in the same order;
  \<open>getProctableSize\<close> gives its length, and a shorter array of the client receives its first
  entries with the code \<open>LMON_ETRUNC\<close>. The session is left as it was, its mutex free.\<close>

theorem proctable_views_agree:
  assumes "0 \<le> h" "nat h < length (sessionDescArray s)" "length (sessionDescArray s) = MAX_LMON_SESSION"
    and "d = sessionDescArray s ! nat h" and "registered d" and "spawned d" and "\<not> eventMutex d"
    and "proctab_msg d = Some m" and "parse_raw_RPDTAB_msg (Some m) [] = Inr (0, tab)"
  shows "\<exists>es. fe_getProctable h True maxlen s =
      (Inr (if maxlen < length es then LMON_ETRUNC else LMON_OK, Some (take maxlen es, length es)), s) \<and>
    fe_getProctableSize h s = (Inr (LMON_OK, Some (length es)), s) \<and>
    (\<forall>host. map_find tab host = (case filter (\<lambda>e. host_name (pd e) = host) es of [] \<Rightarrow> None | xs \<Rightarrow> Some xs))"
proof -
  obtain p q es where e: "get_lmonpayload_begin (Some (dec_hdr m)) = Some p" "get_strtab_begin (dec_hdr m) = Some q"
    "read_entries m p q (msg_ntasks (dec_hdr m)) = Some es" "tab = fold (\<lambda>e. map_push (host_name (pd e)) e) es []"
    using parsed_entries [OF assms(9)] by blast
  have n: "msg_ntasks (dec_hdr m) = length es" using length_read_entries [OF e(3)] by simp
  have u: "d\<lparr>eventMutex := False\<rparr> = d" using assms(7) by simp
  have t: "read_entries m p q (min (length es) maxlen) = Some (take maxlen es)"
    using take_read_entries [OF e(3)] n by simp
  have g: "get_proctable maxlen d = (Inr (if maxlen < length es then LMON_ETRUNC else LMON_OK, Some (take maxlen es, length es)), d)"
    using assms(5-8) e(1,2) n t u by (simp add: get_proctable_def lockA_def unlockA_def bindA_def ret_def Let_def)
  have "guarded (LMON_EBDARG, None) (\<lambda>s. if \<not> spawned s then ret (LMON_EDUNAV, None) s
     else (case proctab_msg s of None \<Rightarrow> ret (LMON_EDUNAV, None) s
       | Some m \<Rightarrow> ret (LMON_OK, Some (msg_ntasks (dec_hdr m))) s)) d = (Inr (LMON_OK, Some (length es)), d)"
    by (rule guarded_reads) (use assms(5-8) n in \<open>simp_all add: ret_def\<close>)
  then have "fe_getProctableSize h s = (Inr (LMON_OK, Some (length es)), s)"
    unfolding fe_getProctableSize_def by (intro call_reads) (use assms(1-4) in simp_all)
  moreover have "fe_getProctable h True maxlen s =
      (Inr (if maxlen < length es then LMON_ETRUNC else LMON_OK, Some (take maxlen es, length es)), s)"
    unfolding fe_getProctable_def by (intro call_reads) (use assms(1-4) g in simp_all)
  moreover have "map_find tab host = (case filter (\<lambda>e. host_name (pd e) = host) es of [] \<Rightarrow> None | xs \<Rightarrow> Some xs)" for host
    unfolding e(4) using map_find_push_fold [OF smap.inv_empty, of "\<lambda>e. host_name (pd e)" es host] by (simp split: list.split)
  ultimately show ?thesis by blast
qed

theorem proctable_views_agree_witness:
  "\<exists>es. fe_getProctable 0 True 1 (demo_table (demo_session no_link no_link)) = (Inr (LMON_ETRUNC, Some (take 1 es, length es)),
      demo_table (demo_session no_link no_link)) \<and> filter (\<lambda>e. host_name (pd e) = ''n1'') es = snd (demo_tab ! 0)"
proof -
  let ?s = "demo_table (demo_session no_link no_link)"
  have l: "length (sessionDescArray ?s) = MAX_LMON_SESSION" "nat 0 < length (sessionDescArray ?s)" "0 \<le> (0 :: int)"
    by (simp_all add: demo_table_def MAX_LMON_SESSION_def)
  have d: "sessionDescArray ?s ! nat 0 = demo_session no_link no_link" by (simp add: demo_table_def MAX_LMON_SESSION_def)
  obtain es where es: "fe_getProctable 0 True 1 ?s = (Inr (if 1 < length es then LMON_ETRUNC else LMON_OK, Some (take 1 es, length es)), ?s)"
    "\<forall>host. map_find demo_tab host = (case filter (\<lambda>e. host_name (pd e) = host) es of [] \<Rightarrow> None | xs \<Rightarrow> Some xs)"
    using proctable_views_agree [OF l(3,2,1) d [symmetric] _ _ _ _ engine_table_parse [OF demo_tab_wf], of 1]
    by (auto simp: demo_session_def)
  have f: "filter (\<lambda>e. host_name (pd e) = ''n1'') es = snd (demo_tab ! 0)"
    using es(2) [rule_format, of "''n1''"] by (auto simp: demo_tab_def split: list.splits)
  have "length (filter (\<lambda>e. host_name (pd e) = ''n1'') es) \<le> length es" by (rule length_filter_le)
  then have "1 < length es" by (simp add: f demo_tab_def)
  then show ?thesis using es(1) f by auto
qed

end
