(* ===== verification/Fe_End.thy ===== *)
theory Fe_End
  imports Fe_Table
begin

text \<open>
  How a session ends: the main thread asks the engine and waits, the watchdog reads the answer
  and sets the flag. What happens to the mutex, to the descriptor, and what the middleware's
  host list gives.
\<close>

section \<open>The engine's answer\<close>

definition engine_says :: "lmonp_fe_to_fe_msg_e \<Rightarrow> byte list" where "engine_says ty = enc_hdr (engine_hdr ty)"

lemma fetofe_code_inj [simp]: "fetofe_code a = fetofe_code b \<longleftrightarrow> a = b"
  using fetofe_code(2) [of a] fetofe_code(2) [of b] by metis

lemma fetofe_is_says [simp]: "fetofe_is (engine_says ty) ty' \<longleftrightarrow> ty = ty'"
proof -
  have "unat (of_nat (fetofe_code ty) :: 13 word) = fetofe_code ty" using fetofe_code(1) [of ty] by (simp add: unat_of_nat)
  then show ?thesis by (simp add: fetofe_is_def engine_says_def engine_hdr_def)
qed

text \<open>It is what the engine's \<open>say_fetofe_msg\<close> writes.\<close>

lemma engine_says_said:
  "engine_says ty = enc_hdr (the (snd (set_msg_header (Some lmonp_zero) (int (class_code lmonp_fetofe)) (int (fetofe_code ty)) 0 0 0 0 0 0 0)))"
proof -
  have "exec_and_hn 0 0 = 0" by (simp add: exec_and_hn_def)
  then show ?thesis by (simp add: engine_says_def engine_hdr_def init_msg_header_def set_msg_header_def Let_def lmonp_zero_def)
qed

text \<open>What the flags are after a message that ends the watchdog.\<close>

fun ending :: "lmonp_fe_to_fe_msg_e \<Rightarrow> ('u fe_session \<Rightarrow> 'u fe_session) option" where
  "ending lmonp_detach_done = Some (\<lambda>s. s\<lparr>detached := True\<rparr>)"
| "ending lmonp_stop_tracing = Some (\<lambda>s. s\<lparr>detached := True\<rparr>)"
| "ending lmonp_kill_done = Some (\<lambda>s. s\<lparr>killed := True\<rparr>)"
| "ending lmonp_exited = Some (\<lambda>s. s\<lparr>killed := True\<rparr>)"
| "ending lmonp_terminated = Some (\<lambda>s. s\<lparr>killed := True\<rparr>)"
| "ending lmonp_stop_at_launch_bp_abort = Some (\<lambda>s. s\<lparr>killed := True\<rparr>)"
| "ending lmonp_bedmon_exited = Some (\<lambda>s. s\<lparr>detached := True, spawned := False\<rparr>)"
| "ending lmonp_mwdmon_exited = Some (\<lambda>s. s\<lparr>detached := True, spawned := False\<rparr>)"
| "ending _ = None"

lemma watchdog_ends: "ending ty = Some f \<Longrightarrow> watchdog_event junk (engine_says ty) = ends_watch f"
  by (cases ty) (auto simp: watchdog_event_def)

lemma ending_mutex: "ending ty = Some f \<Longrightarrow> eventMutex (f s) = eventMutex s \<and> f (s\<lparr>eventMutex := b\<rparr>) = (f s)\<lparr>eventMutex := b\<rparr>"
  by (cases ty) auto

lemma notify_mutex: "notify (s\<lparr>eventMutex := b\<rparr>) = (notify s)\<lparr>eventMutex := b\<rparr>" "eventMutex (notify s) = eventMutex s"
  by (simp_all add: notify_def status_of_def Let_def)

lemma ends_watch_run:
  assumes "ending ty = Some f" and "\<not> eventMutex s"
  shows "ends_watch f s = (Inr False, notify (f s))"
proof -
  have e: "eventMutex (f s) = False" using ending_mutex [OF assms(1), of s False] assms(2) by simp
  then have "(notify (f s))\<lparr>eventMutex := False\<rparr> = notify (f s)" by (simp add: notify_mutex)
  then show ?thesis using assms(2) ending_mutex [OF assms(1), of s True]
    by (simp add: ends_watch_def locked_def lockA_def unlockA_def bindA_def modA_def ret_def notify_mutex)
qed

definition en_serves :: "'u fe_session \<Rightarrow> byte list list \<Rightarrow> nat list \<Rightarrow> bool" where
  "en_serves s ins outs \<longleftrightarrow> open_desc (fe_engine_conn s) \<and> ready (cm_link (fe_engine_conn s)) ins outs"

lemma en_read_says:
  assumes "en_serves s (engine_says ty # ins) outs" and "length old = 28"
  shows "\<exists>l. en_read_hdr old s = (Inr (28, engine_says ty), on_en l s) \<and> ready l ins outs \<and> lk_sent l = en_sent s"
proof -
  have o: "open_desc (fe_engine_conn s)" "ready (cm_link (fe_engine_conn s)) (enc_hdr (engine_hdr ty) # ins) outs"
    using assms(1) by (simp_all add: en_serves_def engine_says_def)
  obtain l where "lk_read_hdr old (cm_link (fe_engine_conn s)) = (Inr (28, enc_hdr (engine_hdr ty)), l)" "ready l ins outs"
    "lk_sent l = lk_sent (cm_link (fe_engine_conn s))" using lk.hdr [OF o(2) assms(2)] by blast
  then show ?thesis
    by (intro exI [of _ l]) (simp add: en_read_hdr_def chan_run [of fe_engine_conn s, OF o(1)] engine_says_def en_sent_def, simp add: on_en_def)
qed

text \<open>One round of the watchdog.\<close>

lemma watchdog_round_ends:
  assumes "en_serves s (engine_says ty # ins) outs" and "ending ty = Some f" and "\<not> eventMutex s" and "watching s"
    and "\<And>k. length (junk k) = k"
  shows "\<exists>l. watchdog_round junk s = (Inr (), (notify (f (on_en l s)))\<lparr>watching := False\<rparr>) \<and> lk_sent l = en_sent s"
proof -
  obtain l where l: "en_read_hdr (junk lmonp_size) s = (Inr (28, engine_says ty), on_en l s)" "lk_sent l = en_sent s"
    using en_read_says [OF assms(1), of "junk lmonp_size"] assms(5) by (auto simp: lmonp_size_def)
  have "\<not> eventMutex (on_en l s)" using assms(3) by (simp add: on_en_def)
  then show ?thesis using assms(4) l
    by (intro exI [of _ l]) (simp add: watchdog_round_def bindA_def watchdog_ends [OF assms(2)] ends_watch_run [OF assms(2)] modA_def)
qed

section \<open>The wait\<close>

text \<open>The scheduler wakes the main thread \<open>k\<close> times for nothing, then lets the watchdog handle a
  message.\<close>

lemma spurious_wait:
  assumes "s_waits s = (0, 0) # ws" and "eventMutex s"
  shows "cond_timedwait junk s = (Inr 0, s\<lparr>s_waits := ws\<rparr>)"
  using assms by (simp add: cond_timedwait_def lockA_def unlockA_def bindA_def ret_def)

lemma real_wait:
  assumes "s_waits s = (1, 0) # ws" and "eventMutex s" and "watching s" and "en_serves s (engine_says ty # ins) outs"
    and "ending ty = Some f" and "\<And>k. length (junk k) = k"
  shows "\<exists>l. cond_timedwait junk s =
    (Inr 0, (notify (f (on_en l (s\<lparr>s_waits := ws\<rparr>))))\<lparr>watching := False\<rparr>) \<and> lk_sent l = en_sent s"
proof -
  let ?s = "s\<lparr>s_waits := ws, eventMutex := False\<rparr>"
  have "en_serves ?s (engine_says ty # ins) outs" using assms(4) by (simp add: en_serves_def)
  then obtain l where l: "watchdog_round junk ?s = (Inr (), (notify (f (on_en l ?s)))\<lparr>watching := False\<rparr>)" "lk_sent l = en_sent ?s"
    using watchdog_round_ends [of ?s ty ins outs f junk] assms(3,5,6) by auto
  have o: "on_en l ?s = (on_en l (s\<lparr>s_waits := ws\<rparr>))\<lparr>eventMutex := False\<rparr>" by (simp add: on_en_def)
  have m: "eventMutex (on_en l (s\<lparr>s_waits := ws\<rparr>)) = True" using assms(2) by (simp add: on_en_def)
  let ?g = "notify (f (on_en l (s\<lparr>s_waits := ws\<rparr>)))"
  have g: "notify (f (on_en l ?s)) = ?g\<lparr>eventMutex := False\<rparr>"
    unfolding o using ending_mutex [OF assms(5)] by (simp add: notify_mutex)
  have "eventMutex ?g" using ending_mutex [OF assms(5), of "on_en l (s\<lparr>s_waits := ws\<rparr>)"] m by (simp add: notify_mutex)
  then have e: "?g\<lparr>eventMutex := False, watching := False, eventMutex := True\<rparr> = ?g\<lparr>watching := False\<rparr>" by simp
  show ?thesis using l(2) assms(1,2) e
    by (intro exI [of _ l]) (simp add: cond_timedwait_def lockA_def unlockA_def bindA_def ret_def l(1) [unfolded g] en_sent_def)
qed


lemma await_step: "\<not> flag s \<Longrightarrow> cond_timedwait junk s = (Inr 0, t) \<Longrightarrow> await_flag junk flag (Suc n) s = await_flag junk flag n t"
  by (simp add: bindA_run [of "cond_timedwait junk" s, where f = "\<lambda>rc. if rc = ETIMEDOUT then _ else _"] ETIMEDOUT_def bindA_def)

lemma await_set: "flag s \<Longrightarrow> await_flag junk flag (Suc n) s = (Inr LMON_OK, s)"
  by (simp add: ret_def)

declare await_flag.simps [simp del]

lemma on_en_waits: "on_en l (s\<lparr>s_waits := ws\<rparr>) = (on_en l s)\<lparr>s_waits := ws\<rparr>"
  by (simp add: on_en_def)

lemma flag_after:
  assumes "ending ty = Some f" and "flag = detached \<and> (ty = lmonp_detach_done \<or> ty = lmonp_stop_tracing) \<or> flag = killed \<and> ty = lmonp_kill_done"
  shows "flag ((notify (f s))\<lparr>watching := False\<rparr>)"
  using assms by (auto simp: notify_def)

lemma wait_answer:
  assumes "s_waits s = replicate k (0, 0) @ (1, 0) # ws" and "eventMutex s" and "watching s" and "en_serves s (engine_says ty # ins) outs"
    and "ending ty = Some f" and "\<not> flag s" and "\<And>u v. flag (u\<lparr>s_waits := v\<rparr>) = flag u"
    and "flag = detached \<and> (ty = lmonp_detach_done \<or> ty = lmonp_stop_tracing) \<or> flag = killed \<and> ty = lmonp_kill_done"
    and "\<And>k. length (junk k) = k"
  shows "\<exists>l. await_flag junk flag (Suc (Suc k) + n) s =
    (Inr LMON_OK, (notify (f (on_en l (s\<lparr>s_waits := ws\<rparr>))))\<lparr>watching := False\<rparr>) \<and> lk_sent l = en_sent s"
  using assms(1-4,6)
proof (induction k arbitrary: s)
  case 0
  then have w: "s_waits s = (1, 0) # ws" by simp
  obtain l where l: "cond_timedwait junk s = (Inr 0, (notify (f (on_en l (s\<lparr>s_waits := ws\<rparr>))))\<lparr>watching := False\<rparr>)" "lk_sent l = en_sent s"
    using real_wait [where junk = junk, OF w "0.prems"(2,3,4) assms(5,9)] by blast
  have a: "flag ((notify (f (on_en l (s\<lparr>s_waits := ws\<rparr>))))\<lparr>watching := False\<rparr>)" by (rule flag_after [OF assms(5,8)])
  show ?case unfolding add_Suc await_step [of flag s, OF "0.prems"(5) l(1)] await_set [of flag, OF a] using l(2) by blast
next
  case (Suc k)
  let ?s = "s\<lparr>s_waits := replicate k (0, 0) @ (1, 0) # ws\<rparr>"
  have w: "s_waits s = (0, 0) # replicate k (0, 0) @ (1, 0) # ws" using Suc.prems(1) by simp
  have c: "cond_timedwait junk s = (Inr 0, ?s)" by (rule spurious_wait [OF w Suc.prems(2)])
  have "\<exists>l. await_flag junk flag (Suc (Suc k) + n) ?s =
    (Inr LMON_OK, (notify (f (on_en l (?s\<lparr>s_waits := ws\<rparr>))))\<lparr>watching := False\<rparr>) \<and> lk_sent l = en_sent ?s"
    by (rule Suc.IH) (use Suc.prems assms(7) in \<open>simp_all add: en_serves_def\<close>)
  then show ?case unfolding add_Suc await_step [of flag s, OF Suc.prems(5) c] by (simp add: en_sent_def)
qed

section \<open>Detach, kill and shutdown\<close>

lemma en_put_says:
  assumes "en_serves s ins (28 # outs)"
  shows "\<exists>l. tell_engine ty s = (Inr 28, on_en l s) \<and> en_serves (on_en l s) ins outs \<and> lk_sent l = en_sent s @ engine_says ty"
proof -
  have o: "open_desc (fe_engine_conn s)" "ready (cm_link (fe_engine_conn s)) ins (28 # outs)"
    using assms by (simp_all add: en_serves_def)
  obtain l where "tell_engine ty s = (Inr 28, on_en l s)" "ready l ins outs"
    "lk_sent l = lk_sent (cm_link (fe_engine_conn s)) @ enc_hdr (engine_hdr ty)" using tell_engine_ok [OF o] by blast
  then show ?thesis using o(1) by (intro exI [of _ l]) (simp add: en_serves_def en_sent_def engine_says_def, simp add: open_desc_def on_en_def)
qed

text \<open>The call up to what it does to the descriptor.\<close>

lemma request_answered:
  assumes "en_serves s (engine_says ty # ins) (28 # outs)" and "\<not> eventMutex s" and "watching s" and "\<not> flag s"
    and "\<not> refused (s\<lparr>eventMutex := True\<rparr>)" and "s_waits s = replicate k (0, 0) @ (1, 0) # ws" and "ending ty = Some f"
    and "flag = detached \<and> (ty = lmonp_detach_done \<or> ty = lmonp_stop_tracing) \<or> flag = killed \<and> ty = lmonp_kill_done"
    and "\<And>k. length (junk k) = k"
  shows "\<exists>l. engine_request junk refused msg flag after s =
      bindA after (\<lambda>_. bindA unlockA (\<lambda>_. ret LMON_OK))
        ((notify (f (on_en l (s\<lparr>eventMutex := True, s_waits := ws\<rparr>))))\<lparr>watching := False\<rparr>) \<and>
    lk_sent l = en_sent s @ engine_says msg"
proof -
  let ?s = "s\<lparr>eventMutex := True\<rparr>"
  have "en_serves ?s (engine_says ty # ins) (28 # outs)" using assms(1) by (simp add: en_serves_def)
  then obtain l where l: "tell_engine msg ?s = (Inr 28, on_en l ?s)" "en_serves (on_en l ?s) (engine_says ty # ins) outs"
    "lk_sent l = en_sent ?s @ engine_says msg" using en_put_says by blast
  have fl: "flag (u\<lparr>s_waits := v\<rparr>) = flag u" "flag (on_en l u) = flag u" "flag (u\<lparr>eventMutex := b\<rparr>) = flag u" for u v b
    using assms(8) by (auto simp: on_en_def)
  have w: "s_waits (on_en l ?s) = replicate k (0, 0) @ (1, 0) # ws" "eventMutex (on_en l ?s)" "watching (on_en l ?s)"
    using assms(3,6) by (simp_all add: on_en_def)
  have nf: "\<not> flag (on_en l ?s)" using assms(4) by (simp add: fl)
  obtain q where q: "await_flag junk flag (Suc (Suc k) + length ws) (on_en l ?s) =
      (Inr LMON_OK, (notify (f (on_en q ((on_en l ?s)\<lparr>s_waits := ws\<rparr>))))\<lparr>watching := False\<rparr>)" "lk_sent q = en_sent (on_en l ?s)"
    using wait_answer [where n = "length ws" and junk = junk, OF w l(2) assms(7) nf fl(1) assms(8,9)] by blast
  have n: "length (s_waits (on_en l ?s)) + 1 = Suc (Suc k) + length ws" unfolding w(1) by simp
  have r: "wait_for_flag junk flag (on_en l ?s) =
      (Inr LMON_OK, (notify (f (on_en q (s\<lparr>eventMutex := True, s_waits := ws\<rparr>))))\<lparr>watching := False\<rparr>)"
    unfolding wait_for_flag_def n q(1) by (simp add: on_en_def)
  have "lk_sent q = en_sent s @ engine_says msg" using q(2) l(3) by (simp add: en_sent_def)
  then show ?thesis using assms(2,5)
    by (intro exI [of _ q]) (simp add: engine_request_def lockA_def bindA_run [of "tell_engine msg" ?s, OF l(1)] lmonp_size_def
      bindA_run [of "wait_for_flag junk flag" "on_en l ?s", OF r] ret_def bindA_run [of lockA s])
qed


lemma notify_simps [simp]:
  "registered (notify s) = registered s" "detached (notify s) = detached s" "killed (notify s) = killed s"
  "fe_engine_conn (notify s) = fe_engine_conn s" "hntab_mw_msg (notify s) = hntab_mw_msg s" "en_sent (notify s) = en_sent s"
  "status_of (notify s) = status_of s"
  by (simp_all add: notify_def en_sent_def status_of_def)

definition fresh :: "'u fe_session \<Rightarrow> bool" where
  "fresh s \<longleftrightarrow> status_of s = 0 \<and> \<not> eventMutex s \<and> proctab_msg s = None \<and> hntab_msg s = None \<and> pMap s = [] \<and> spawner_vector s = [] \<and>
     cm_accept (fe_be_conn s) = -1 \<and> cm_accept (fe_mw_conn s) = -1 \<and> cm_accept (fe_engine_conn s) = -1"

lemma reset_run:
  assumes "hntab_mw_msg s \<noteq> Freed" and "eventMutex s"
  shows "\<exists>t. bindA (reset_sess rms) (\<lambda>_. bindA unlockA (\<lambda>_. ret LMON_OK)) s = (Inr LMON_OK, t) \<and> fresh t \<and> watching t = watching s \<and>
    status_calls t = status_calls s \<and> en_sent t = en_sent s \<and>
    hntab_mw_msg t = (case hntab_mw_msg s of Null \<Rightarrow> Null | _ \<Rightarrow> Freed)"
  using assms
  by (cases "hntab_mw_msg s") (simp_all add: reset_sess_def destroy_sess_def bindA_def modA_def ret_def unlockA_def init_sess_def fresh_def
    status_of_def en_sent_def comm_init_def comm_close_def LMON_INIT_def)



definition waiting_session :: "link \<Rightarrow> unit fe_session" where
  "waiting_session en = (demo_session no_link en)\<lparr>s_waits := [(0, 0), (1, 0)]\<rparr>"


section \<open>A request that cannot be written\<close>

text \<open>C33: (error) A session that was created and never launched has no connection to the engine.
  Detaching, killing or shutting it down returns \<open>LMON_EINVAL\<close> and keeps the session's mutex, so
  that no later call on this session returns: not the request of its status, nor the same call
  again, nor a launch.\<close>

theorem detach_before_launch_locks:
  fixes s :: "'u fe"
  assumes "0 \<le> h" "nat h < length (sessionDescArray s)" "length (sessionDescArray s) = MAX_LMON_SESSION"
    and "d = sessionDescArray s ! nat h" and "registered d" "\<not> detached d" "\<not> killed d" "\<not> eventMutex d"
    and "cm_accept (fe_engine_conn d) = -1"
    and "call = fe_detach junk h \<or> call = fe_kill junk h \<or> call = fe_shutdownDaemons junk h"
  shows "\<exists>t. call s = (Inr LMON_EINVAL, t) \<and> fe_getStatus h t = (Inl No_return, t) \<and> call t = (Inl No_return, t) \<and>
    fe_launchAndSpawnDaemons y junk h a b t = (Inl No_return, t)"
proof -
  let ?d = "d\<lparr>eventMutex := True\<rparr>"
  let ?t = "s\<lparr>sessionDescArray := (sessionDescArray s)[nat h := ?d]\<rparr>"
  have tell: "tell_engine ty ?d = (Inr (-1), ?d)" for ty
    using assms(9) by (simp add: tell_engine_def en_write_def chan_def ret_def)
  have r: "engine_request junk refused ty flag after d = (Inr LMON_EINVAL, ?d)" if "\<not> refused ?d" for refused ty flag after
    using assms(8) that by (simp add: engine_request_def lockA_def bindA_def tell ret_def lmonp_size_def)
  have b: "engine_request junk refused ty flag after ?d = (Inl No_return, ?d)" for refused ty flag after
    by (simp add: engine_request_def lockA_def bindA_def throw_def)
  have t: "sessionDescArray ?t ! nat h = ?d" "length (sessionDescArray ?t) = MAX_LMON_SESSION" "nat h < length (sessionDescArray ?t)"
    using assms(2,3) by simp_all
  have same: "?t\<lparr>sessionDescArray := (sessionDescArray ?t)[nat h := ?d]\<rparr> = ?t" by simp
  have again: "with_session h bad m ?t = (r, ?t)" if "m ?d = (r, ?d)" for m :: "('u, 'a) fes" and r bad
    using call_run [OF assms(1) t(3,2), of m r ?d] that unfolding t(1) same by simp
  have o: "\<not> over ?d" using assms(5-7) by (simp add: over_def)
  have "call s = (Inr LMON_EINVAL, ?t) \<and> call ?t = (Inl No_return, ?t)"
    using assms(10)
  proof (elim disjE)
    assume c: "call = fe_detach junk h"
    show ?thesis unfolding c fe_detach_def
      using call_run [OF assms(1-3), of "sess_detach junk"] again [of "sess_detach junk"] r [of over] b o
      by (simp add: sess_detach_def flip: assms(4))
  next
    assume c: "call = fe_kill junk h"
    show ?thesis unfolding c fe_kill_def
      using call_run [OF assms(1-3), of "sess_kill (rms_of s) junk"] again [of "sess_kill (rms_of ?t) junk"] r [of over] b o
      by (simp add: sess_kill_def flip: assms(4))
  next
    assume c: "call = fe_shutdownDaemons junk h"
    show ?thesis unfolding c fe_shutdownDaemons_def
      using call_run [OF assms(1-3), of "sess_shutdownDaemons (rms_of s) junk"] again [of "sess_shutdownDaemons (rms_of ?t) junk"]
        r [of "\<lambda>s. \<not> registered s"] b assms(5)
      by (simp add: sess_shutdownDaemons_def flip: assms(4))
  qed
  moreover have "fe_getStatus h ?t = (Inl No_return, ?t)"
    unfolding fe_getStatus_def by (rule again, rule locked_blocks) simp
  moreover have "spawn_daemons y junk True a b ?d = (Inl No_return, ?d)"
    by (simp add: spawn_daemons_def stepA_def bindA_def guarded_def locked_def lockA_def throw_def)
  then have "fe_launchAndSpawnDaemons y junk h a b ?t = (Inl No_return, ?t)"
    unfolding fe_launchAndSpawnDaemons_def by (intro again) (simp add: bindA_def)
  ultimately show ?thesis by blast
qed


theorem detach_before_launch_locks_witness:
  "\<exists>t. fe_detach (\<lambda>k. replicate k 0) 0 (demo_table (fresh_session\<lparr>registered := True, fe_engine_conn := demo_desc (-1) no_link\<rparr>)) =
      (Inr LMON_EINVAL, t) \<and> fe_getStatus 0 t = (Inl No_return, t)"
proof -
  let ?d = "fresh_session\<lparr>registered := True, fe_engine_conn := demo_desc (-1) no_link\<rparr> :: unit fe_session"
  let ?s = "demo_table ?d" and ?j = "\<lambda>k. replicate k (0 :: byte)"
  have b: "length (sessionDescArray ?s) = MAX_LMON_SESSION" "nat 0 < length (sessionDescArray ?s)" "0 \<le> (0 :: int)"
    "?d = sessionDescArray ?s ! nat 0"
    by (simp_all add: demo_table_def MAX_LMON_SESSION_def)
  have d: "registered ?d" "\<not> detached ?d" "\<not> killed ?d" "\<not> eventMutex ?d" "cm_accept (fe_engine_conn ?d) = -1"
    by (simp_all add: fresh_session_def demo_session_def demo_desc_def)
  have t: "\<exists>t. fe_detach ?j 0 ?s = (Inr LMON_EINVAL, t) \<and> fe_getStatus 0 t = (Inl No_return, t)"
    using detach_before_launch_locks [OF b(3,2,1,4) d disjI1 [OF refl], of ?j demo_sys None None] by blast
  show ?thesis by (rule t)
qed

section \<open>The hosts of the middleware\<close>

text \<open>C34: (bounds) \<open>getMwHostlist\<close> writes past the client's array. For every session whose
  middleware runs and every array shorter than the list, one name more than the array holds is
  written, and the code is \<open>LMON_OK\<close>, never the \<open>LMON_ETRUNC\<close> the interface promises; an array as
  long as the list receives the list. The size call gives the number of names before the
  spawners' duplicates are dropped.\<close>

theorem mw_hostlist_overrun:
  assumes "0 \<le> h" "nat h < length (sessionDescArray s)" "length (sessionDescArray s) = MAX_LMON_SESSION"
    and "d = sessionDescArray s ! nat h" and "registered d" "mw_spawned d" "\<not> eventMutex d"
    and "hosts = combined_hosts (spawner_vector d)"
  shows "fe_getMwHostlist h maxlen s = (Inr (LMON_OK, Some (take (maxlen + 1) hosts, length hosts)), s) \<and>
    (maxlen < length hosts \<longrightarrow> length (take (maxlen + 1) hosts) = maxlen + 1) \<and>
    fe_getMwHostlistSize h s = (Inr (LMON_OK, Some (sum_list (map (\<lambda>sp. length (sp_hosts sp)) (spawner_vector d)))), s)"
proof -
  let ?w = "take (maxlen + 1) hosts"
  have n: "\<not> (length ?w = maxlen \<and> maxlen < length hosts)" by auto
  have "guarded (LMON_EBDARG, None) (\<lambda>s. if \<not> mw_spawned s then ret (LMON_EDUNAV, None) s
     else (let chosts = combined_hosts (spawner_vector s); written = take (maxlen + 1) chosts in
       ret (if length written = maxlen \<and> maxlen < length chosts then LMON_ETRUNC else LMON_OK,
            Some (written, length chosts)) s)) d = (Inr (LMON_OK, Some (?w, length hosts)), d)"
    by (rule guarded_reads [OF _ assms(7,5)]) (use assms(6,8) n in \<open>simp add: ret_def Let_def\<close>)
  then have "fe_getMwHostlist h maxlen s = (Inr (LMON_OK, Some (?w, length hosts)), s)"
    unfolding fe_getMwHostlist_def by (intro call_reads) (use assms(1-4) in simp_all)
  moreover have "guarded (LMON_EBDARG, None) (\<lambda>s. if \<not> mw_spawned s then ret (LMON_EDUNAV, None) s
     else ret (LMON_OK, Some (sum_list (map (\<lambda>sp. length (sp_hosts sp)) (spawner_vector s)))) s) d =
      (Inr (LMON_OK, Some (sum_list (map (\<lambda>sp. length (sp_hosts sp)) (spawner_vector d)))), d)"
    by (rule guarded_reads [OF _ assms(7,5)]) (use assms(6) in \<open>simp add: ret_def\<close>)
  then have "fe_getMwHostlistSize h s = (Inr (LMON_OK, Some (sum_list (map (\<lambda>sp. length (sp_hosts sp)) (spawner_vector d)))), s)"
    unfolding fe_getMwHostlistSize_def by (intro call_reads) (use assms(1-4) in simp_all)
  ultimately show ?thesis by simp
qed

theorem mw_hostlist_overrun_witness:
  "fe_getMwHostlist 0 0 (demo_table ((demo_session no_link no_link)\<lparr>mw_spawned := True,
      spawner_vector := [rsh_of_hosts ''ssh'' ''mwd'' [] [''n1'', ''n2'']]\<rparr>)) =
    (Inr (LMON_OK, Some ([''n1''], 2)), demo_table ((demo_session no_link no_link)\<lparr>mw_spawned := True,
      spawner_vector := [rsh_of_hosts ''ssh'' ''mwd'' [] [''n1'', ''n2'']]\<rparr>))"
proof -
  let ?d = "(demo_session no_link no_link)\<lparr>mw_spawned := True, spawner_vector := [rsh_of_hosts ''ssh'' ''mwd'' [] [''n1'', ''n2'']]\<rparr>"
  let ?s = "demo_table ?d"
  have b: "length (sessionDescArray ?s) = MAX_LMON_SESSION" "nat 0 < length (sessionDescArray ?s)" "0 \<le> (0 :: int)"
    "?d = sessionDescArray ?s ! nat 0"
    by (simp_all add: demo_table_def MAX_LMON_SESSION_def)
  have d: "registered ?d" "mw_spawned ?d" "\<not> eventMutex ?d" by (simp_all add: demo_session_def)
  have c: "combined_hosts [rsh_of_hosts ''ssh'' ''mwd'' [] [''n1'', ''n2'']] = [''n1'', ''n2'']" by code_simp
  have h: "[''n1'', ''n2''] = combined_hosts (spawner_vector ?d)" by (simp add: c)
  show ?thesis using mw_hostlist_overrun [OF b(3,2,1,4) d h, of 0] by simp
qed

end
