(* ===== verification/Elf_Image.thy ===== *)
theory Elf_Image
  imports Sdbg_Symtab
begin

text \<open>
  Reading an image: \<open>linux_image_t\<close>, \<open>linkage_symbol_t\<close> and \<open>elf_wrapper\<close> of
  \<^verbatim>\<open>sdbg_linux_symtab_impl.hxx\<close> on a 64-bit target. A file is what \<^verbatim>\<open>libelf\<close> gives of it:
  the sections after the first in their order, each with its header and its data, and the
  strings \<^verbatim>\<open>elf_strptr\<close> finds. The symbol table fills the image; the \<^verbatim>\<open>.interp\<close> section names
  the dynamic loader, whose links are followed to a regular file.
\<close>

section \<open>Files\<close>

definition SHT_PROGBITS :: u32 where "SHT_PROGBITS = 1"
definition SHT_SYMTAB :: u32 where "SHT_SYMTAB = 2"
definition SHT_STRTAB :: u32 where "SHT_STRTAB = 3"
definition SHT_DYNSYM :: u32 where "SHT_DYNSYM = 11"

record elf_shdr =
  sh_name :: u32
  sh_type :: u32
  sh_addr :: u64
  sh_link :: u32

text \<open>\<open>None\<close> is the null pointer of \<^verbatim>\<open>elf64_getshdr\<close> and of \<^verbatim>\<open>elf_getdata\<close>.\<close>

record elf_scn =
  scn_hdr :: "elf_shdr option"
  scn_data :: "byte list option"

record elf_file =
  elf_scns :: "elf_scn list"
  elf_strptr :: "u32 \<Rightarrow> u32 \<Rightarrow> string option"

datatype file_kind = Regular | Link | Other_file

text \<open>What the reader asks the system; \<open>None\<close> is a failure. \<open>fs_elf\<close> fails when the file
  does not open or \<^verbatim>\<open>libelf\<close> does not take it.\<close>

record files =
  fs_stat :: "string \<Rightarrow> bool"
  fs_lstat :: "string \<Rightarrow> file_kind option"
  fs_readlink :: "string \<Rightarrow> string option"
  fs_elf :: "string \<Rightarrow> elf_file option"

definition elf_wrapper_init :: "files \<Rightarrow> string \<Rightarrow> exn + elf_file" where
  "elf_wrapper_init fs exec = (case fs_elf fs exec of None \<Rightarrow> Inl Symtab_exn | Some f \<Rightarrow> Inr f)"

definition image_init :: "files \<Rightarrow> image_base_t \<Rightarrow> exn + elf_file" where
  "image_init fs im =
     (if base_image_name im = SYMTAB_UNINIT_STRING then Inl Symtab_exn else elf_wrapper_init fs (image_path im))"

section \<open>Symbols\<close>

datatype LMON_ELF_visibility = elf_sym_local | elf_sym_global | elf_sym_weak | elf_sym_procspecific | elf_sym_none

text \<open>The virtual \<open>is_defined\<close> of this class answers with the member, so it is the field of
  the base record.\<close>

record linkage_symbol_t = symbol_base_t +
  vis :: LMON_ELF_visibility
  visibility :: string
  binding :: string
  symtype :: string

definition linkage_symbol1 :: "string \<Rightarrow> string \<Rightarrow> u64 \<Rightarrow> u64 \<Rightarrow> linkage_symbol_t" where
  "linkage_symbol1 n ln ra rla = \<lparr>sym_name = n, base_lib_name = ln, raw_address = ra, relocated_address = Some rla,
     sym_defined = False, vis = elf_sym_none, visibility = SYMTAB_UNINIT_STRING, binding = SYMTAB_UNINIT_STRING,
     symtype = SYMTAB_UNINIT_STRING\<rparr>"

definition is_globally_visible :: "linkage_symbol_t \<Rightarrow> bool" where
  "is_globally_visible l \<longleftrightarrow> vis l = elf_sym_global"

definition is_locally_visible :: "linkage_symbol_t \<Rightarrow> bool" where
  "is_locally_visible l \<longleftrightarrow> vis l = elf_sym_local"

record elf64_sym =
  st_name :: u32
  st_info :: byte
  st_other :: byte
  st_shndx :: u16
  st_value :: u64
  st_size :: u64

definition STB_LOPROC :: nat where "STB_LOPROC = 13"
definition STB_HIPROC :: nat where "STB_HIPROC = 15"
definition SHN_UNDEF :: u16 where "SHN_UNDEF = 0"

definition ELF64_ST_BIND :: "byte \<Rightarrow> nat" where "ELF64_ST_BIND c = unat c div 16"
definition ELF64_ST_TYPE :: "byte \<Rightarrow> nat" where "ELF64_ST_TYPE c = unat c mod 16"
definition ELF64_ST_VISIBILITY :: "byte \<Rightarrow> nat" where "ELF64_ST_VISIBILITY c = unat c mod 4"

definition decode_type :: "byte \<Rightarrow> string" where
  "decode_type code = (let t = ELF64_ST_TYPE code in
     if t = 0 then ''Symbol type is unspecified''
     else if t = 1 then ''Symbol is a data object''
     else if t = 2 then ''Symbol is a code object''
     else if t = 3 then ''Symbol associated with a section''
     else if t = 4 then ''Symbol's name is file name''
     else if t = 5 then ''Symbol is a common data object''
     else if t = 6 then ''Symbol is thread-local data object''
     else if t = 7 then ''Number of defined types''
     else if t = 10 then ''Start of OS-specific''
     else if t = 12 then ''End of OS-specific''
     else if t = 13 then ''Start of processor-specific''
     else if t = 15 then ''End of processor-specific''
     else SYMTAB_UNINIT_STRING)"

text \<open>The test for the processor range looks at the whole code, not at its binding.\<close>

definition resolve_binding :: "byte \<Rightarrow> LMON_ELF_visibility" where
  "resolve_binding code =
     (let b = ELF64_ST_BIND code;
          rc = (if b = 0 then elf_sym_local else if b = 1 then elf_sym_global else if b = 2 then elf_sym_weak
                else elf_sym_none)
      in if rc = elf_sym_none \<and> unat code \<le> STB_HIPROC \<and> STB_LOPROC \<le> unat code then elf_sym_procspecific else rc)"

definition decode_binding :: "byte \<Rightarrow> string" where
  "decode_binding code = (let b = ELF64_ST_BIND code in
     if b = 0 then ''Local symbol''
     else if b = 1 then ''Global symbol''
     else if b = 2 then ''Weak symbol''
     else if b = 3 then ''Number of defined types''
     else if b = 10 then ''Start of OS-specific''
     else if b = 12 then ''End of OS-specific''
     else if b = STB_LOPROC then ''Start of processor-specific''
     else if b = STB_HIPROC then ''End of processor-specific ''
     else SYMTAB_UNINIT_STRING)"

definition decode_visibility :: "byte \<Rightarrow> string" where
  "decode_visibility code = (let v = ELF64_ST_VISIBILITY code in
     if v = 0 then ''Default symbol visibility rules''
     else if v = 1 then ''Processor specific hidden class''
     else if v = 2 then ''Sym unavailable in other modules''
     else if v = 3 then ''Not preemptible, not exported''
     else SYMTAB_UNINIT_STRING)"

section \<open>The symbol table\<close>

text \<open>The first symbol table; without one the last dynamic symbol table.\<close>

fun symtab_scn :: "elf_scn list \<Rightarrow> (elf_shdr \<times> elf_scn) option \<Rightarrow> (elf_shdr \<times> elf_scn) option" where
  "symtab_scn [] dyn = dyn"
| "symtab_scn (s # ss) dyn = (case scn_hdr s of
     None \<Rightarrow> symtab_scn ss dyn
   | Some h \<Rightarrow> (if sh_type h = SHT_SYMTAB then Some (h, s)
               else symtab_scn ss (if sh_type h = SHT_DYNSYM then Some (h, s) else dyn)))"

definition SYM_SIZE :: nat where "SYM_SIZE = 24"

definition sym_of :: "byte list \<Rightarrow> elf64_sym" where
  "sym_of bs = \<lparr>st_name = dec32 (take 4 bs), st_info = bs ! 4, st_other = bs ! 5, st_shndx = dec16 (take 2 (drop 6 bs)),
     st_value = dec64 (take 8 (drop 8 bs)), st_size = dec64 (take 8 (drop 16 bs))\<rparr>"

definition map_insert :: "'k::linorder \<Rightarrow> 'v \<Rightarrow> ('k, 'v) std_map \<Rightarrow> ('k, 'v) std_map" where
  "map_insert k v m = (if map_find m k = None then map_set k v m else m)"

definition linkage_symbol_of :: "string \<Rightarrow> string \<Rightarrow> elf64_sym \<Rightarrow> linkage_symbol_t" where
  "linkage_symbol_of lib name y = (linkage_symbol1 name lib (st_value y) SYMTAB_UNINIT_ADDR)
     \<lparr>binding := decode_binding (st_info y), vis := resolve_binding (st_info y),
      visibility := decode_visibility (st_other y), symtype := decode_type (st_info y),
      sym_defined := (st_shndx y \<noteq> SHN_UNDEF)\<rparr>"

text \<open>The map holds pointers to the base class.\<close>

definition add_sym :: "(u32 \<Rightarrow> string option) \<Rightarrow> string \<Rightarrow> elf64_sym \<Rightarrow> (string, symbol_base_t) std_map \<Rightarrow>
    (string, symbol_base_t) std_map" where
  "add_sym strs lib y tab = (case strs (st_name y) of
     None \<Rightarrow> tab
   | Some name \<Rightarrow> (if name \<noteq> [] \<and> st_value y \<noteq> 0
        then map_insert name (symbol_base_t.truncate (linkage_symbol_of lib name y)) tab else tab))"

text \<open>The pointer runs to the end of the data; a rest shorter than a symbol is read past it.\<close>

function read_syms :: "(u32 \<Rightarrow> string option) \<Rightarrow> string \<Rightarrow> byte list \<Rightarrow> (string, symbol_base_t) std_map \<Rightarrow>
    exn + (string, symbol_base_t) std_map" where
  "read_syms strs lib bs tab =
     (if bs = [] then Inr tab
      else if length bs < SYM_SIZE then Inl Undefined_behaviour
      else read_syms strs lib (drop SYM_SIZE bs) (add_sym strs lib (sym_of bs) tab))"
  by pat_completeness auto
termination by (relation "measure (\<lambda>(_, _, bs, _). length bs)") (auto simp: SYM_SIZE_def)

declare read_syms.simps [simp del]

definition read_linkage_symbols :: "elf_file \<Rightarrow> image_base_t \<Rightarrow> exn + image_base_t" where
  "read_linkage_symbols f im = (case symtab_scn (elf_scns f) None of
     None \<Rightarrow> Inl Symtab_exn
   | Some (h, s) \<Rightarrow> (case scn_data s of
       None \<Rightarrow> Inl Symtab_exn
     | Some d \<Rightarrow> (if d = [] then Inl Symtab_exn
         else (case read_syms (elf_strptr f (sh_link h)) (base_image_name im) d (linkage_symtab im) of
                 Inl e \<Rightarrow> Inl e
               | Inr tab \<Rightarrow> Inr (im\<lparr>linkage_symtab := tab\<rparr>)))))"

section \<open>The dynamic loader\<close>

text \<open>\<open>strcmp\<close> of a literal with the bytes at an offset; \<open>None\<close> runs past the end.\<close>

fun eq_at :: "byte list \<Rightarrow> byte list \<Rightarrow> bool option" where
  "eq_at [] bs = Some True"
| "eq_at (l # ls) [] = None"
| "eq_at (l # ls) (b # bs) = (if l = b then eq_at ls bs else Some False)"

definition strcmp_at :: "string \<Rightarrow> byte list \<Rightarrow> u32 \<Rightarrow> bool option" where
  "strcmp_at lit buf off = eq_at (cstr lit) (drop (unat off) buf)"

text \<open>The name is compared inside each string table's own data.\<close>

fun find_shstrtab :: "elf_scn list \<Rightarrow> byte list option \<Rightarrow> exn + byte list option" where
  "find_shstrtab [] r = Inr r"
| "find_shstrtab (s # ss) r = (case scn_hdr s of
     None \<Rightarrow> find_shstrtab ss r
   | Some h \<Rightarrow>
       (if sh_type h \<noteq> SHT_STRTAB then find_shstrtab ss r
        else (case scn_data s of
          None \<Rightarrow> Inl Symtab_exn
        | Some d \<Rightarrow>
            (if d = [] then Inl Symtab_exn
             else if sh_addr h \<noteq> 0 then find_shstrtab ss r
             else (case strcmp_at ''.shstrtab'' d (sh_name h) of
                     None \<Rightarrow> Inl Undefined_behaviour
                   | Some True \<Rightarrow> find_shstrtab ss (Some d)
                   | Some False \<Rightarrow> find_shstrtab ss r)))))"

definition LINK_PATH_MAX :: nat where "LINK_PATH_MAX = 4096"

text \<open>The \<open>dirname\<close> of \<open>libgen.h\<close>.\<close>

definition dirname :: "string \<Rightarrow> string" where
  "dirname s =
     (let r = rev s; t = dropWhile (\<lambda>c. c = CHR ''/'') r;
          d = (if t = [] then r else dropWhile (\<lambda>c. c \<noteq> CHR ''/'') t);
          e = dropWhile (\<lambda>c. c = CHR ''/'') d
      in if d = [] then ''.'' else if e = [] then (if length d = 2 then ''//'' else ''/'') else rev e)"

text \<open>One turn of the loop over links: the place the link names, relative to its directory.
  \<open>sprintf\<close> reads and writes \<open>tmpath\<close>; the part it reads is already in place.\<close>

definition link_target :: "files \<Rightarrow> string \<Rightarrow> exn + string" where
  "link_target fs tmpath = (case fs_readlink fs tmpath of
     None \<Rightarrow> Inl Symtab_exn
   | Some realpath \<Rightarrow>
       (let q = (if realpath \<noteq> [] \<and> hd realpath = CHR ''/'' then realpath else dirname tmpath @ ''/'' @ realpath)
        in if LINK_PATH_MAX \<le> length realpath \<or> LINK_PATH_MAX \<le> length q then Inl Undefined_behaviour else Inr q))"

fun follow_links :: "files \<Rightarrow> string \<times> bool \<Rightarrow> nat \<Rightarrow> string \<Rightarrow> exn + string \<times> bool" where
  "follow_links fs r 0 tmpath = Inl No_return"
| "follow_links fs r (Suc n) tmpath = (case link_target fs tmpath of
     Inl e \<Rightarrow> Inl e
   | Inr q \<Rightarrow> (case fs_lstat fs q of
       None \<Rightarrow> Inl Symtab_exn
     | Some Link \<Rightarrow> follow_links fs r n q
     | Some Regular \<Rightarrow> Inr (q, True)
     | Some Other_file \<Rightarrow> Inr r))"

definition take_interp :: "files \<Rightarrow> nat \<Rightarrow> string \<Rightarrow> bool \<Rightarrow> exn + string \<times> bool" where
  "take_interp fs fuel loc found = (case fs_lstat fs loc of
     None \<Rightarrow> Inl Symtab_exn
   | Some Regular \<Rightarrow> Inr (loc, True)
   | Some Other_file \<Rightarrow> Inr (loc, found)
   | Some Link \<Rightarrow> (if LINK_PATH_MAX \<le> length loc then Inl Undefined_behaviour else follow_links fs (loc, found) fuel loc))"

fun interp_scns :: "files \<Rightarrow> nat \<Rightarrow> byte list \<Rightarrow> elf_scn list \<Rightarrow> string \<times> bool \<Rightarrow> exn + string \<times> bool" where
  "interp_scns fs fuel strtab [] r = Inr r"
| "interp_scns fs fuel strtab (s # ss) r = (case scn_hdr s of
     None \<Rightarrow> interp_scns fs fuel strtab ss r
   | Some h \<Rightarrow>
       (if sh_type h \<noteq> SHT_PROGBITS then interp_scns fs fuel strtab ss r
        else (case strcmp_at ''.interp'' strtab (sh_name h) of
          None \<Rightarrow> Inl Undefined_behaviour
        | Some False \<Rightarrow> interp_scns fs fuel strtab ss r
        | Some True \<Rightarrow> (case scn_data s of
            None \<Rightarrow> Inl Symtab_exn
          | Some d \<Rightarrow>
              (if d = [] then Inl Symtab_exn
               else (case read_cstr d 0 of
                 None \<Rightarrow> Inl Undefined_behaviour
               | Some loc \<Rightarrow> (case take_interp fs fuel loc (snd r) of
                   Inl e \<Rightarrow> Inl e
                 | Inr r' \<Rightarrow> interp_scns fs fuel strtab ss r')))))))"

text \<open>The result is what the two references hold in the end. The return value is
  \<open>SDBG_SYMTAB_FAILED\<close> whenever it returns, for \<open>elf_data_dso\<close> is never set; the caller
  does not look at it.\<close>

definition fetch_DSO_info :: "files \<Rightarrow> nat \<Rightarrow> elf_file \<Rightarrow> exn + string \<times> bool" where
  "fetch_DSO_info fs fuel f = (case find_shstrtab (elf_scns f) None of
     Inl e \<Rightarrow> Inl e
   | Inr None \<Rightarrow> Inl Symtab_exn
   | Inr (Some strtab) \<Rightarrow> interp_scns fs fuel strtab (elf_scns f) ([], False))"

text \<open>\<open>init(lib)\<close> and \<open>read_linkage_symbols\<close>, as the engine calls them on an image.\<close>

definition load_image :: "files \<Rightarrow> string \<Rightarrow> image_base_t \<Rightarrow> exn + image_base_t" where
  "load_image fs lib im =
     (let im = im\<lparr>image_path := lib, base_image_name := basename lib\<rparr>
      in case image_init fs im of Inl e \<Rightarrow> Inl e | Inr f \<Rightarrow> read_linkage_symbols f im)"


section \<open>Lemmas\<close>

text \<open>The image of a symbol in the file.\<close>

definition enc_sym :: "elf64_sym \<Rightarrow> byte list" where
  "enc_sym s = enc32 (st_name s) @ [st_info s, st_other s] @ enc16 (st_shndx s) @ enc64 (st_value s) @ enc64 (st_size s)"

lemma length_enc_sym [simp]: "length (enc_sym s) = SYM_SIZE"
  by (simp add: enc_sym_def SYM_SIZE_def)

lemma sym_of_enc_sym: "sym_of (enc_sym s @ rest) = s"
  by (cases s) (simp add: sym_of_def enc_sym_def nth_append)

lemma read_syms_enc:
  "read_syms strs lib (concat (map enc_sym ss)) tab = Inr (fold (add_sym strs lib) ss tab)"
proof (induction ss arbitrary: tab)
  case Nil
  then show ?case by (simp add: read_syms.simps)
next
  case (Cons s ss)
  have "enc_sym s \<noteq> []" by (simp add: enc_sym_def)
  with Cons show ?case by (subst read_syms.simps) (simp add: sym_of_enc_sym)
qed

lemma map_find_insert:
  "map_inv m \<Longrightarrow> map_find (map_insert k v m) k' = (case map_find m k' of Some w \<Rightarrow> Some w | None \<Rightarrow> if k' = k then Some v else None)"
  by (auto simp: map_insert_def map_find_set split: option.splits)

lemma map_inv_insert: "map_inv m \<Longrightarrow> map_inv (map_insert k v m)"
  by (simp add: map_insert_def map_inv_set)

lemma map_inv_add_sym: "map_inv tab \<Longrightarrow> map_inv (add_sym strs lib s tab)"
  by (simp add: add_sym_def map_inv_insert split: option.split)

definition names :: "(u32 \<Rightarrow> string option) \<Rightarrow> string \<Rightarrow> elf64_sym \<Rightarrow> bool" where
  "names strs key s \<longleftrightarrow> strs (st_name s) = Some key \<and> key \<noteq> [] \<and> st_value s \<noteq> 0"

lemma map_find_add_sym:
  "map_inv tab \<Longrightarrow> map_find (add_sym strs lib s tab) key =
     (case map_find tab key of Some w \<Rightarrow> Some w
      | None \<Rightarrow> if names strs key s then Some (symbol_base_t.truncate (linkage_symbol_of lib key s)) else None)"
  by (auto simp: add_sym_def names_def map_find_insert split: option.splits)

lemma map_find_add_syms:
  "map_inv tab \<Longrightarrow> map_find (fold (add_sym strs lib) ss tab) key =
     (case map_find tab key of Some w \<Rightarrow> Some w
      | None \<Rightarrow> map_option (\<lambda>s. symbol_base_t.truncate (linkage_symbol_of lib key s)) (List.find (names strs key) ss))"
  by (induction ss arbitrary: tab) (auto simp: map_find_add_sym map_inv_add_sym split: option.splits)

lemma truncate_linkage_symbol:
  "symbol_base_t.truncate (linkage_symbol_of lib key s) = \<lparr>sym_name = key, base_lib_name = lib, raw_address = st_value s,
     relocated_address = Some SYMTAB_UNINIT_ADDR, sym_defined = (st_shndx s \<noteq> SHN_UNDEF)\<rparr>"
  by (simp add: symbol_base_t.truncate_def linkage_symbol_of_def linkage_symbol1_def)

text \<open>The binding of a symbol is never \<open>elf_sym_procspecific\<close>: the codes the test lets through
  have binding 0.\<close>

lemma never_procspecific: "resolve_binding code \<noteq> elf_sym_procspecific"
proof -
  have "unat code \<le> 15 \<Longrightarrow> unat code div 16 = 0" by simp
  then show ?thesis by (simp add: resolve_binding_def ELF64_ST_BIND_def STB_HIPROC_def Let_def)
qed

text \<open>The read of an image is the read the symbol tables' \<open>init_lib\<close> stands for, as long as the
  table is not read past its end.\<close>

definition elf_of :: "files \<Rightarrow> string \<Rightarrow> (string, symbol_base_t) std_map option" where
  "elf_of fs p = (case load_image fs p image_base0 of Inl e \<Rightarrow> None | Inr im \<Rightarrow> Some (linkage_symtab im))"

lemma read_linkage_symbols_fields:
  "read_linkage_symbols f im = Inr im' \<Longrightarrow> im' = im\<lparr>linkage_symtab := linkage_symtab im'\<rparr>"
  by (auto simp: read_linkage_symbols_def split: option.splits prod.splits if_splits sum.splits)

lemma read_linkage_symbols_more:
  "read_linkage_symbols f (im\<lparr>image_base_address := b\<rparr>) =
     (case read_linkage_symbols f im of Inl e \<Rightarrow> Inl e | Inr i \<Rightarrow> Inr (i\<lparr>image_base_address := b\<rparr>))"
  by (auto simp: read_linkage_symbols_def split: option.splits prod.splits sum.splits)

lemma load_image_is_init_lib:
  assumes "linkage_symtab im = []" and "\<And>im'. load_image fs lib im' \<noteq> Inl Undefined_behaviour"
    and "\<And>im' e. load_image fs lib im' = Inl e \<Longrightarrow> e = Symtab_exn"
  shows "load_image fs lib im = init_lib (elf_of fs) lib im"
proof -
  let ?i = "image_base0\<lparr>image_path := lib, base_image_name := basename lib\<rparr>"
  have im: "im\<lparr>image_path := lib, base_image_name := basename lib\<rparr> = ?i\<lparr>image_base_address := image_base_address im\<rparr>"
    using assms(1) by (simp add: image_base0_def)
  have "image_init fs (?i\<lparr>image_base_address := image_base_address im\<rparr>) = image_init fs ?i"
    by (simp add: image_init_def)
  then have l: "load_image fs lib im = (case load_image fs lib image_base0 of Inl e \<Rightarrow> Inl e
      | Inr i \<Rightarrow> Inr (i\<lparr>image_base_address := image_base_address im\<rparr>))"
    by (simp add: load_image_def im read_linkage_symbols_more split: sum.splits)
  show ?thesis
  proof (cases "load_image fs lib image_base0")
    case (Inl e)
    then show ?thesis using l assms(3) by (simp add: init_lib_def elf_of_def)
  next
    case (Inr i)
    then obtain f where "read_linkage_symbols f ?i = Inr i"
      by (auto simp: load_image_def Let_def split: sum.splits)
    then have "i = ?i\<lparr>linkage_symtab := linkage_symtab i\<rparr>" by (rule read_linkage_symbols_fields)
    then have "i\<lparr>image_base_address := image_base_address im\<rparr> =
        im\<lparr>image_path := lib, base_image_name := basename lib, linkage_symtab := linkage_symtab i\<rparr>"
      by (cases i, cases im) (simp add: image_base0_def)
    then show ?thesis using l Inr by (simp add: init_lib_def elf_of_def)
  qed
qed

text \<open>C25: (functional) Reading an image and moving it to its base: every name of the symbol
  table gives the first symbol of that name whose value is not 0, at its value plus the base,
  and a name the table does not have gives the null symbol.\<close>

theorem symbols_resolve:
  assumes "symtab_scn (elf_scns f) None = Some (h, s)" and "scn_data s = Some (concat (map enc_sym ss))" and "ss \<noteq> []"
    and "linkage_symtab im = []" and "ba \<noteq> SYMTAB_INIT_IMAGE_BASE"
  shows "\<exists>im1 im2. read_linkage_symbols f im = Inr im1 \<and> compute_reloc (set_image_base_address ba im1) = Inr im2 \<and>
    (\<forall>key. get_a_symbol im2 key =
       (case List.find (\<lambda>y. elf_strptr f (sh_link h) (st_name y) = Some key \<and> key \<noteq> [] \<and> st_value y \<noteq> 0) ss of
          None \<Rightarrow> symbol_base0
        | Some y \<Rightarrow> \<lparr>sym_name = key, base_lib_name = base_image_name im, raw_address = st_value y,
                    relocated_address = Some (st_value y + ba), sym_defined = (st_shndx y \<noteq> SHN_UNDEF)\<rparr>))"
proof -
  let ?strs = "elf_strptr f (sh_link h)" and ?lib = "base_image_name im"
  let ?im = "im\<lparr>linkage_symtab := fold (add_sym ?strs ?lib) ss []\<rparr>"
  have ne: "concat (map enc_sym ss) \<noteq> []" using assms(3) by (cases ss) (auto simp: enc_sym_def)
  have r: "read_linkage_symbols f im = Inr ?im"
    using assms(1,2,4) ne by (simp add: read_linkage_symbols_def read_syms_enc)
  have e: "map_inv ([] :: (string, symbol_base_t) std_map)" by (rule smap.inv_empty)
  have n: "(\<lambda>y. ?strs (st_name y) = Some key \<and> key \<noteq> [] \<and> st_value y \<noteq> 0) = names ?strs key" for key
    by (rule ext) (simp add: names_def)
  show ?thesis
    by (rule exI [of _ ?im]) (simp add: r compute_reloc_def set_image_base_address_def assms(5) get_a_symbol_def
      map_find_map_vals map_find_add_syms [OF e] n reloc_sym_def truncate_linkage_symbol split: option.splits)
qed


definition ex_elf :: elf_file where
  "ex_elf = \<lparr>elf_scns =
      [\<lparr>scn_hdr = Some \<lparr>sh_name = 0, sh_type = SHT_DYNSYM, sh_addr = 0x400, sh_link = 5\<rparr>, scn_data = None\<rparr>,
       \<lparr>scn_hdr = Some \<lparr>sh_name = 9, sh_type = SHT_SYMTAB, sh_addr = 0, sh_link = 7\<rparr>,
        scn_data = Some (concat (map enc_sym
          [\<lparr>st_name = 1, st_info = 0x12, st_other = 0, st_shndx = 0, st_value = 0, st_size = 0\<rparr>,
           \<lparr>st_name = 1, st_info = 0x12, st_other = 0, st_shndx = 14, st_value = 0x1139, st_size = 7\<rparr>,
           \<lparr>st_name = 1, st_info = 0x22, st_other = 0, st_shndx = 14, st_value = 0x2000, st_size = 7\<rparr>]))\<rparr>],
    elf_strptr = (\<lambda>l n. if l = 7 \<and> n = 1 then Some ''main'' else None)\<rparr>"

lemma symbols_resolve_witness:
  "\<exists>im1 im2. read_linkage_symbols ex_elf (image_base1 ''/bin/srun'') = Inr im1 \<and>
     compute_reloc (set_image_base_address 0x10000 im1) = Inr im2 \<and>
     relocated_address (get_a_symbol im2 ''main'') = Some 0x11139 \<and> get_a_symbol im2 ''MPIR_Breakpoint'' = symbol_base0"
proof -
  let ?s = "elf_scns ex_elf ! 1"
  have p: "symtab_scn (elf_scns ex_elf) None = Some (the (scn_hdr ?s), ?s)"
    by (simp add: ex_elf_def SHT_DYNSYM_def SHT_SYMTAB_def)
  let ?ss = "[\<lparr>st_name = 1, st_info = 0x12, st_other = 0, st_shndx = 0, st_value = 0, st_size = 0\<rparr>,
           \<lparr>st_name = 1, st_info = 0x12, st_other = 0, st_shndx = 14, st_value = 0x1139, st_size = 7\<rparr>,
           \<lparr>st_name = 1, st_info = 0x22, st_other = 0, st_shndx = 14, st_value = 0x2000, st_size = 7\<rparr>] :: elf64_sym list"
  have d: "scn_data ?s = Some (concat (map enc_sym ?ss))" by (simp add: ex_elf_def)
  have i: "linkage_symtab (image_base1 ''/bin/srun'') = []" by (simp add: image_base1_def image_base0_def)
  have n: "?ss \<noteq> []" by simp
  have b: "(0x10000 :: u64) \<noteq> SYMTAB_INIT_IMAGE_BASE"
    by (simp add: SYMTAB_INIT_IMAGE_BASE_def SYMTAB_UNINIT_ADDR_def)
  obtain im1 im2 where r: "read_linkage_symbols ex_elf (image_base1 ''/bin/srun'') = Inr im1"
      "compute_reloc (set_image_base_address 0x10000 im1) = Inr im2"
    and g: "\<forall>key. get_a_symbol im2 key =
       (case List.find (\<lambda>y. elf_strptr ex_elf (sh_link (the (scn_hdr ?s))) (st_name y) = Some key \<and> key \<noteq> [] \<and> st_value y \<noteq> 0) ?ss of
          None \<Rightarrow> symbol_base0
        | Some y \<Rightarrow> \<lparr>sym_name = key, base_lib_name = base_image_name (image_base1 ''/bin/srun''), raw_address = st_value y,
                    relocated_address = Some (st_value y + 0x10000), sym_defined = (st_shndx y \<noteq> SHN_UNDEF)\<rparr>)"
    using symbols_resolve [OF p d n i b] by (elim exE conjE) (rule that)
  have "relocated_address (get_a_symbol im2 ''main'') = Some 0x11139" "get_a_symbol im2 ''MPIR_Breakpoint'' = symbol_base0"
    using g by (simp_all add: ex_elf_def)
  with r show ?thesis by (intro exI conjI)
qed


text \<open>A chain of links and its end.\<close>

fun link_chain :: "files \<Rightarrow> string \<Rightarrow> nat \<Rightarrow> string \<Rightarrow> bool" where
  "link_chain fs p 0 q = (p = q)"
| "link_chain fs p (Suc k) q = (fs_lstat fs p = Some Link \<and>
     (case link_target fs p of Inl e \<Rightarrow> False | Inr p' \<Rightarrow> link_chain fs p' k q))"

lemma follow_links_chain:
  "link_chain fs p (Suc k) q \<Longrightarrow> fs_lstat fs q = Some Regular \<Longrightarrow> Suc k \<le> n \<Longrightarrow> follow_links fs r n p = Inr (q, True)"
proof (induction k arbitrary: p n)
  case 0
  then show ?case by (cases n) (auto split: sum.splits)
next
  case (Suc k)
  then obtain m p' where n: "n = Suc m" and p': "link_target fs p = Inr p'" "link_chain fs p' (Suc k) q"
    by (cases n) (auto split: sum.splits)
  then have "fs_lstat fs p' = Some Link" by simp
  moreover have "follow_links fs r m p' = Inr (q, True)" using Suc.IH p'(2) Suc.prems n by simp
  ultimately show ?case using n p' by simp
qed

lemma follow_links_closed:
  assumes "\<And>x. x \<in> S \<Longrightarrow> fs_lstat fs x = Some Link \<and> (\<exists>y \<in> S. link_target fs x = Inr y)" and "x \<in> S"
  shows "follow_links fs r n x = Inl No_return"
  using assms(2)
proof (induction n arbitrary: x)
  case 0
  then show ?case by simp
next
  case (Suc n)
  then obtain y where "y \<in> S" "link_target fs x = Inr y" using assms(1) by blast
  moreover have "fs_lstat fs y = Some Link" using assms(1) \<open>y \<in> S\<close> by blast
  ultimately show ?case using Suc.IH by simp
qed

lemma link_chain_first: "link_chain fs p k p \<Longrightarrow> 0 < k \<Longrightarrow> fs_lstat fs p = Some Link"
  by (cases k) auto

lemma follow_links_cycle:
  assumes "link_chain fs p k p" and "0 < k"
  shows "follow_links fs r n p = Inl No_return"
proof (rule follow_links_closed [of "{x. \<exists>j. link_chain fs x j p \<and> 0 < j}"])
  show "p \<in> {x. \<exists>j. link_chain fs x j p \<and> 0 < j}" using assms by blast
next
  fix x
  assume "x \<in> {x. \<exists>j. link_chain fs x j p \<and> 0 < j}"
  then obtain j where "link_chain fs x (Suc j) p" by (auto simp: gr0_conv_Suc)
  then obtain y where y: "fs_lstat fs x = Some Link" "link_target fs x = Inr y" "link_chain fs y j p"
    by (auto split: sum.splits)
  have "\<exists>i. link_chain fs y i p \<and> 0 < i"
  proof (cases j)
    case 0
    then have "y = p" using y(3) by simp
    then show ?thesis using assms by blast
  next
    case (Suc i)
    then show ?thesis using y(3) by blast
  qed
  with y show "fs_lstat fs x = Some Link \<and> (\<exists>y \<in> {x. \<exists>j. link_chain fs x j p \<and> 0 < j}. link_target fs x = Inr y)" by blast
qed


definition ex_files :: files where
  "ex_files = \<lparr>fs_stat = (\<lambda>p. True),
     fs_lstat = (\<lambda>p. if p = ''/lib64/ld.so'' \<or> p = ''/lib64/../lib/ld.so'' then Some Link
                     else if p = ''/usr/lib/ld-2.so'' then Some Regular else None),
     fs_readlink = (\<lambda>p. if p = ''/lib64/ld.so'' then Some ''../lib/ld.so'' else Some ''/usr/lib/ld-2.so''), fs_elf = (\<lambda>p. None)\<rparr>"


end
