(* ===== verification/Sdbg_Opt.thy ===== *)
theory Sdbg_Opt
  imports Launchmon_Setup
begin

text \<open>
  The command line of the engine: \<open>opts_args_t\<close> of \<^verbatim>\<open>sdbg_opt.hxx\<close> and \<^verbatim>\<open>sdbg_opt.cxx\<close>. The
  parser's state is the object, the levels of self tracing it sets, and its local variables.
  Reading an argument past the last is undefined. \<open>exit\<close> and a failed assertion end the process:
  \<open>Aborted\<close>. The loop takes a bound on its turns, for an option count below 0 moves it backwards.
\<close>

section \<open>Data\<close>

datatype self_trace_verbosity = quiet | level1 | level2 | level3 | level4

datatype trace_module =
    launchmon_module_trace | tracer_module_trace | symtab_module_trace | machine_module_trace
  | event_module_trace | driver_module_trace | opt_module_trace | rm_module_trace | sighandler_module_trace

fun module_symbol :: "trace_module \<Rightarrow> string" where
  "module_symbol launchmon_module_trace = ''launchmon''"
| "module_symbol tracer_module_trace = ''tracer''"
| "module_symbol symtab_module_trace = ''symtab''"
| "module_symbol machine_module_trace = ''machine''"
| "module_symbol event_module_trace = ''event''"
| "module_symbol driver_module_trace = ''driver''"
| "module_symbol opt_module_trace = ''option''"
| "module_symbol rm_module_trace = ''resmgr''"
| "module_symbol sighandler_module_trace = ''sighandler''"

text \<open>\<open>remaining\<close> points into the arguments: the strings from there on, or null. The map
  \<open>envMap\<close> is never filled here.\<close>

record opt_struct_t =
  verbose :: int
  attach :: bool
  remote :: bool
  tool_daemon :: string
  debugtarget :: string
  copyright :: string
  launchstring :: string
  tool_daemon_opts :: "string list"
  remote_info :: string
  lmon_sec_info :: string
  launcher_pid :: int
  remaining :: "string list option"

record opts_args_t =
  my_opt :: opt_struct_t
  my_rmconfig :: rc_rm_t
  has_parse_error :: bool

definition LAUNCHMON_COPYRIGHT :: "string \<Rightarrow> string \<Rightarrow> string" where
  "LAUNCHMON_COPYRIGHT software_name version = software_name @ '' '' @ version @ [CHR 0x0A] @
     ''Copyright (C) 2008-2012, Lawrence Livermore National Security, LLC.'' @ [CHR 0x0A] @
     ''Produced at Lawrence Livermore National Laboratory.'' @ [CHR 0x0A] @
     ''LLNL-CODE-409469 All rights reserved.'' @ [CHR 0x0A]"

definition opts_args0 :: "string \<Rightarrow> opts_args_t" where
  "opts_args0 cr = \<lparr>my_opt = \<lparr>verbose = 0, attach = False, remote = False, tool_daemon = [], debugtarget = [],
       copyright = cr, launchstring = [], tool_daemon_opts = [], remote_info = [], lmon_sec_info = [],
       launcher_pid = -1, remaining = None\<rparr>,
     my_rmconfig = rc_rm0, has_parse_error = False\<rparr>"

text \<open>What the parser asks the system. \<open>oe_readlink\<close> is the whole target of a link.\<close>

record opt_env =
  oe_getenv :: "string \<Rightarrow> string option"
  oe_stat :: "string \<Rightarrow> bool"
  oe_readlink :: "string \<Rightarrow> string option"
  oe_fopen :: "string \<Rightarrow> bool"
  oe_access :: "string \<Rightarrow> bool"
  oe_files :: "string \<Rightarrow> string option"
  oe_prefix :: string
  oe_isa :: string

record parse_state =
  opts :: opts_args_t
  levels :: "trace_module \<Rightarrow> self_trace_verbosity"
  tracefile :: "string option"
  printed :: "string list"
  args :: "string list"
  argi :: int
  target :: "string option"
  ver :: self_trace_verbosity
  fin_parsing :: bool
  retv :: bool

type_synonym 'a parse = "(parse_state, 'a) act"

definition upd_opt :: "(opt_struct_t \<Rightarrow> opt_struct_t) \<Rightarrow> unit parse" where
  "upd_opt f = modA (\<lambda>s. s\<lparr>opts := (opts s)\<lparr>my_opt := f (my_opt (opts s))\<rparr>\<rparr>)"

definition parse_error :: "unit parse" where
  "parse_error = modA (\<lambda>s. s\<lparr>opts := (opts s)\<lparr>has_parse_error := True\<rparr>, retv := False\<rparr>)"

definition set_level :: "trace_module list \<Rightarrow> self_trace_verbosity \<Rightarrow> unit parse" where
  "set_level ms v = modA (\<lambda>s. s\<lparr>levels := (\<lambda>m. if m \<in> set ms then v else levels s m)\<rparr>)"

definition advance :: "int \<Rightarrow> unit parse" where
  "advance n = modA (\<lambda>s. s\<lparr>argi := argi s + n\<rparr>)"

section \<open>Helpers\<close>

text \<open>\<open>atoi\<close> cuts the \<open>long\<close> to an \<open>int\<close>.\<close>

definition atoi :: "string \<Rightarrow> int" where
  "atoi s = sint (word_of_int (strtol10 s) :: 32 word)"

definition nargv :: "int \<Rightarrow> string parse" where
  "nargv k s = (if 0 \<le> k \<and> k < int (length (args s)) then ret (args s ! nat k) s else throw Undefined_behaviour s)"

text \<open>The argument after the option.\<close>

definition operand :: "string parse" where
  "operand s = nargv (argi s + 1) s"

definition print_usage :: "'a parse" where
  "print_usage = throw Aborted"

definition print_copyright :: "unit parse" where
  "print_copyright = modA (\<lambda>s. s\<lparr>printed := printed s @ [copyright (my_opt (opts s))]\<rparr>)"

text \<open>The path itself, then every directory of \<open>PATH\<close> in turn for a name that does not begin
  with a slash. The path reached last stays when all fail. \<open>strdup\<close> of a \<open>PATH\<close> that is not
  set is undefined.\<close>

fun search_path :: "(string \<Rightarrow> bool) \<Rightarrow> string \<Rightarrow> string list \<Rightarrow> string \<Rightarrow> bool \<times> string" where
  "search_path stat base [] path = (stat path, path)"
| "search_path stat base (pth # ps) path =
     (if stat path then (True, path)
      else if base \<noteq> [] \<and> hd base = CHR ''/'' then (False, path)
      else search_path stat base ps (pth @ ''/'' @ base))"

definition check_path :: "opt_env \<Rightarrow> string \<Rightarrow> (bool \<times> string) parse" where
  "check_path e base = (case oe_getenv e ''PATH'' of
     None \<Rightarrow> throw Undefined_behaviour
   | Some p \<Rightarrow> ret (search_path (oe_stat e) base (strtoks CHR '':'' [] p) base))"

text \<open>\<open>readlink\<close> fills the whole buffer with a long target; the NUL then goes past its end.\<close>

definition LMON_get_execpath :: "opt_env \<Rightarrow> int \<Rightarrow> string option parse" where
  "LMON_get_execpath e p = (case oe_readlink e (''/proc/'' @ show_int p @ ''/exe'') of
     None \<Rightarrow> ret None
   | Some tar \<Rightarrow> if PATH_MAX \<le> length tar then throw Undefined_behaviour else ret (Some tar))"

section \<open>Options\<close>

definition long_options :: "(string \<times> char) list" where
  "long_options = [(''verbose'', CHR ''v''), (''help'', CHR ''h''), (''daemonpath'', CHR ''d''), (''selftrace'', CHR ''x''),
     (''daemonopts'', CHR ''t''), (''pid'', CHR ''p''), (''traceout'', CHR ''o''), (''remote'', CHR ''r''), (''lmonsec'', CHR ''s'')]"

text \<open>The letter of an argument that begins with a dash; after a lone dash comes the NUL.\<close>

definition option_letter :: "string \<Rightarrow> char" where
  "option_letter a = (let c = (if length a < 2 then CHR 0x00 else a ! 1)
     in if c = CHR ''-'' then (case map_of long_options (drop 2 a) of Some d \<Rightarrow> d | None \<Rightarrow> c) else c)"

definition opt_a :: "unit parse" where
  "opt_a s = (case target s of
     Some t \<Rightarrow> upd_opt (\<lambda>m. m\<lparr>remaining := Some (t # drop (nat (argi s) + 1) (args s))\<rparr>)
                 (s\<lparr>args := (args s)[nat (argi s) := t], fin_parsing := True\<rparr>)
   | None \<Rightarrow> parse_error (s\<lparr>fin_parsing := True\<rparr>))"

definition opt_o :: "opt_env \<Rightarrow> unit parse" where
  "opt_o e = bindA operand (\<lambda>f. if oe_fopen e f then seqA [modA (\<lambda>s. s\<lparr>tracefile := Some f\<rparr>), advance 1] else throw Aborted)"

text \<open>A level outside 0 to 2 becomes 1 in the options; the modules get the level an earlier
  option left, or \<open>quiet\<close>.\<close>

definition opt_v :: "unit parse" where
  "opt_v = bindA operand (\<lambda>a. let n = atoi a in
     seqA [upd_opt (\<lambda>m. m\<lparr>verbose := (if n = 0 \<or> n = 1 \<or> n = 2 then n else 1)\<rparr>),
           modA (\<lambda>s. s\<lparr>ver := (if n = 0 then quiet else if n = 1 then level1 else if n = 2 then level2 else ver s)\<rparr>),
           bindA (getA ver) (set_level [launchmon_module_trace, tracer_module_trace, symtab_module_trace, event_module_trace,
             driver_module_trace, machine_module_trace, opt_module_trace, rm_module_trace]),
           advance 1])"

definition opt_d :: "opt_env \<Rightarrow> unit parse" where
  "opt_d e = bindA operand (\<lambda>dtar. bindA (check_path e dtar) (\<lambda>(ok, path).
     seqA [upd_opt (\<lambda>m. m\<lparr>tool_daemon := path\<rparr>),
           whenA (\<not> ok) (bindA parse_error (\<lambda>_. modA (\<lambda>s. s\<lparr>fin_parsing := True\<rparr>))),
           advance 1]))"

definition push_daemon_opt :: "nat \<Rightarrow> unit parse" where
  "push_daemon_opt j = bindA (\<lambda>s. nargv (argi s + int j + 2) s)
     (\<lambda>a. upd_opt (\<lambda>m. m\<lparr>tool_daemon_opts := tool_daemon_opts m @ [a]\<rparr>))"

definition opt_t :: "unit parse" where
  "opt_t = bindA operand (\<lambda>a. let num_args = atoi a in
     seqA [forA push_daemon_opt [0 ..< nat num_args], advance (num_args + 1)])"

definition opt_p :: "opt_env \<Rightarrow> unit parse" where
  "opt_p e = bindA operand (\<lambda>a. bindA (LMON_get_execpath e (atoi a)) (\<lambda>x.
     seqA [upd_opt (\<lambda>m. m\<lparr>launcher_pid := atoi a\<rparr>),
           (case x of Some t \<Rightarrow> upd_opt (\<lambda>m. m\<lparr>debugtarget := t\<rparr>)
            | None \<Rightarrow> bindA parse_error (\<lambda>_. modA (\<lambda>s. s\<lparr>fin_parsing := True\<rparr>))),
           upd_opt (\<lambda>m. m\<lparr>attach := True\<rparr>),
           advance 1]))"

definition opt_r :: "unit parse" where
  "opt_r = seqA [upd_opt (\<lambda>m. m\<lparr>remote := True\<rparr>),
     bindA operand (\<lambda>a. upd_opt (\<lambda>m. m\<lparr>remote_info := a\<rparr>)), advance 1]"

definition opt_s :: "unit parse" where
  "opt_s = bindA operand (\<lambda>a. seqA [upd_opt (\<lambda>m. m\<lparr>lmon_sec_info := a\<rparr>), advance 1])"

definition level_of :: "int \<Rightarrow> self_trace_verbosity" where
  "level_of n = (if n = 0 then quiet else if n = 1 then level1 else if n = 2 then level2
     else if n = 3 then level3 else if n = 4 then level4 else level1)"

definition opt_x :: "unit parse" where
  "opt_x = bindA operand (\<lambda>a. (case strtoks CHR '':'' [] a of
     modulename # l # _ \<Rightarrow>
       seqA [modA (\<lambda>s. s\<lparr>ver := level_of (atoi l)\<rparr>),
             (case filter (\<lambda>m. modulename = module_symbol m)
                [launchmon_module_trace, tracer_module_trace, symtab_module_trace, machine_module_trace, event_module_trace,
                 driver_module_trace, opt_module_trace, rm_module_trace, sighandler_module_trace] of
                [] \<Rightarrow> ret () | m # _ \<Rightarrow> set_level [m] (level_of (atoi l))),
             advance 1]
   | _ \<Rightarrow> throw Undefined_behaviour))"

definition parse_option :: "opt_env \<Rightarrow> char \<Rightarrow> unit parse" where
  "parse_option e c =
     (if c = CHR ''a'' then opt_a
      else if c = CHR ''o'' then opt_o e
      else if c = CHR ''v'' then opt_v
      else if c = CHR ''h'' then print_usage
      else if c = CHR ''d'' then opt_d e
      else if c = CHR ''t'' then opt_t
      else if c = CHR ''p'' then opt_p e
      else if c = CHR ''r'' then opt_r
      else if c = CHR ''s'' then opt_s
      else if c = CHR ''x'' then opt_x
      else print_usage)"

definition parse_target :: "opt_env \<Rightarrow> string \<Rightarrow> unit parse" where
  "parse_target e a = bindA (modA (\<lambda>s. s\<lparr>target := Some a\<rparr>)) (\<lambda>_. bindA (check_path e a) (\<lambda>(ok, path).
     seqA [upd_opt (\<lambda>m. m\<lparr>debugtarget := path\<rparr>), whenA (\<not> ok) parse_error]))"

definition parse_one :: "opt_env \<Rightarrow> unit parse" where
  "parse_one e = bindA (\<lambda>s. nargv (argi s) s) (\<lambda>a.
     if a \<noteq> [] \<and> hd a = CHR ''-'' then parse_option e (option_letter a) else parse_target e a)"

fun parse_loop :: "opt_env \<Rightarrow> nat \<Rightarrow> unit parse" where
  "parse_loop e 0 = throw No_return"
| "parse_loop e (Suc n) = (\<lambda>s.
     if argi s < int (length (args s)) \<and> \<not> fin_parsing s
     then bindA (parse_one e) (\<lambda>_. bindA (advance 1) (\<lambda>_. parse_loop e n)) s
     else ret () s)"

section \<open>The whole\<close>

definition engine_verbosity :: "opt_env \<Rightarrow> unit parse" where
  "engine_verbosity e = (case oe_getenv e ''LMON_ENGINE_VERBOSE_LEVEL'' of
     None \<Rightarrow> ret ()
   | Some l \<Rightarrow> (let il = atoi l in
       set_level [launchmon_module_trace, tracer_module_trace, symtab_module_trace, event_module_trace,
         driver_module_trace, machine_module_trace, opt_module_trace]
         (if il = 1 then level1 else if il = 2 then level2 else if il = 3 then level3 else quiet)))"

definition construct_rm_map :: "opt_env \<Rightarrow> bool parse" where
  "construct_rm_map e s =
     (let (initc, c) = rc_init (oe_access e) (oe_getenv e) (oe_files e) (oe_prefix e) (oe_isa e) (my_rmconfig (opts s))
      in ret initc (s\<lparr>opts := (opts s)\<lparr>my_rmconfig := c\<rparr>\<rparr>))"

text \<open>An engine that answers to the front end and is not verbose.\<close>

definition api_quiet :: "parse_state \<Rightarrow> bool" where
  "api_quiet s \<longleftrightarrow> remote (my_opt (opts s)) \<and> verbose (my_opt (opts s)) = 0"

definition check_rm_map :: "opt_env \<Rightarrow> unit parse" where
  "check_rm_map e s =
     (if has_parse_error (opts s) then ret () s
      else bindA (construct_rm_map e) (\<lambda>ok.
        if ok then ret ()
        else (\<lambda>s. if api_quiet s then modA (\<lambda>s. s\<lparr>opts := (opts s)\<lparr>has_parse_error := True\<rparr>, retv := False\<rparr>) s
                  else print_usage s)) s)"

definition process_args :: "opt_env \<Rightarrow> nat \<Rightarrow> string list \<Rightarrow>
    (trace_module \<Rightarrow> self_trace_verbosity) \<Rightarrow> opts_args_t \<Rightarrow> (exn + bool) \<times> parse_state" where
  "process_args e fuel argv lv opt =
     (let s = \<lparr>opts = opt, levels = lv, tracefile = None, printed = [], args = argv, argi = 1, target = None, ver = quiet,
               fin_parsing = False, retv = True\<rparr>
      in if length argv < 2 then print_usage s
         else bindA (seqA [upd_opt (\<lambda>m. m\<lparr>remote := False\<rparr>), parse_loop e fuel, engine_verbosity e, check_rm_map e,
                (\<lambda>s. whenA (\<not> api_quiet s) print_copyright s)]) (\<lambda>_. getA retv) s)"

end
