(* ===== verification/Engine_Driver.thy ===== *)
theory Engine_Driver
  imports Event_Loop Elf_Image Sdbg_Opt
begin

text \<open>
  From the command line to the event loop: the connection to the front end
  (\<open>linux_launchmon_t::init\<close>), the process object of the launcher (\<open>linux_x86_process_t\<close>) and
  \<open>driver_base_t::drive\<close>, which parses the arguments, connects, forks or attaches, chooses the
  resource manager and runs the main loop. The signal handlers' installation is left out.
\<close>

section \<open>The connection to the front end\<close>

text \<open>The answers of the network. \<open>nt_pton\<close> is \<open>None\<close> where \<^verbatim>\<open>inet_pton\<close> returns 0: for all that
  is not an address. The result is then what the structure held, \<open>nt_garbage\<close>, for only a
  negative result is an error, which \<^verbatim>\<open>AF_INET\<close> never gives.\<close>

record fe_net =
  nt_pton :: "string \<Rightarrow> u32 option"
  nt_garbage :: u32
  nt_socket :: bool
  nt_keepalive :: bool
  nt_connect :: "u32 \<Rightarrow> u16 \<Rightarrow> bool"

definition fe_address :: "fe_net \<Rightarrow> string \<Rightarrow> exn + u32 \<times> u16" where
  "fe_address net rinfo = (case strtoks CHR '':'' [] rinfo of
     FEip # FEport # _ \<Rightarrow> Inr (case nt_pton net FEip of Some a \<Rightarrow> a | None \<Rightarrow> nt_garbage net, word_of_int (atoi FEport))
   | _ \<Rightarrow> Inl Undefined_behaviour)"

definition init_API :: "fe_net \<Rightarrow> opts_args_t \<Rightarrow> launchmon_rc_e eng" where
  "init_API net opt =
     (if \<not> remote (my_opt opt) then ret LAUNCHMON_OK
      else (case fe_address net (remote_info (my_opt opt)) of
        Inl e \<Rightarrow> throw e
      | Inr (sin_addr, sin_port) \<Rightarrow>
          (if \<not> nt_socket net \<or> \<not> nt_keepalive net \<or> \<not> nt_connect net sin_addr sin_port then ret LAUNCHMON_FAILED
           else bindA (modA (\<lambda>s. s\<lparr>API_mode := True\<rparr>)) (\<lambda>_.
             if has_parse_error opt then bindA (e_say lmonp_conn_ack_parse_error) (\<lambda>_. ret LAUNCHMON_FAILED)
             else bindA (e_say lmonp_conn_ack_no_error) (\<lambda>_. ret LAUNCHMON_OK)))))"

definition launchmon_init :: "fe_net \<Rightarrow> opts_args_t \<Rightarrow> launchmon_rc_e eng" where
  "launchmon_init net opt = init_API net opt"

section \<open>The process object\<close>

definition no_symtab_exn :: "exn + 'a \<Rightarrow> exn + 'a" where
  "no_symtab_exn r = (case r of Inl Symtab_exn \<Rightarrow> Inl Aborted | _ \<Rightarrow> r)"

text \<open>The image of the launcher and that of its loader. Without a loader the result is false; a
  symbol table exception ends the engine.\<close>

definition load_main :: "files \<Rightarrow> string \<Rightarrow> exn + image_base_t \<times> elf_file" where
  "load_main fs mi = (case image_init fs (image_base1 mi) of
     Inl e \<Rightarrow> Inl e
   | Inr f \<Rightarrow> (case read_linkage_symbols f (image_base1 mi) of Inl e \<Rightarrow> Inl e | Inr im \<Rightarrow> Inr (im, f)))"

definition protected_init :: "files \<Rightarrow> nat \<Rightarrow> string \<Rightarrow> exn + (image_base_t \<times> image_base_t) option" where
  "protected_init fs links mi = no_symtab_exn (case load_main fs mi of
     Inl e \<Rightarrow> Inl e
   | Inr (im, f) \<Rightarrow> (case fetch_DSO_info fs links f of
       Inl e \<Rightarrow> Inl e
     | Inr (loader_loc, found_interp) \<Rightarrow>
         (if \<not> found_interp then Inr None
          else (case load_image fs loader_loc image_base0 of Inl e \<Rightarrow> Inl e | Inr dl \<Rightarrow> Inr (Some (im, dl))))))"

definition basic_init :: "files \<Rightarrow> nat \<Rightarrow> string \<Rightarrow> exn + (image_base_t \<times> image_base_t) option" where
  "basic_init fs links mi = (if \<not> fs_stat fs mi then Inr None else protected_init fs links mi)"

definition create_process :: "files \<Rightarrow> nat \<Rightarrow> int \<Rightarrow> string \<Rightarrow> exn + process_base_t" where
  "create_process fs links p mi = (case basic_init fs links mi of
     Inl e \<Rightarrow> Inl e
   | Inr None \<Rightarrow> Inl Machine_exn
   | Inr (Some (im, dl)) \<Rightarrow> Inr (linux_x86_process0 p (Some im) (Some dl) (Some image_base0) (Some image_base0) (Some image_base0)))"

text \<open>From here on the engine works on this process.\<close>

definition on_process :: "process_base_t \<Rightarrow> engine \<Rightarrow> engine" where
  "on_process p s = s\<lparr>never_trapped := never_trapped p, please_detach := please_detach p, please_kill := please_kill p,
     preason := preason p, myimage := myimage p, mydynloader_image := mydynloader_image p,
     mythread_lib_image := mythread_lib_image p, mylibc_image := mylibc_image p, myrmso_image := myrmso_image p,
     rid := rid p, launch_hidden_bp := launch_hidden_bp p, loader_hidden_bp := loader_hidden_bp p,
     sym_attach_fifo := sym_attach_fifo p, thrlist := thrlist p, thread_ctx_stack := thread_ctx_stack p,
     new_child_pid := new_child_pid p\<rparr>"

section \<open>The driver\<close>

datatype driver_error_e = SDBG_DRIVER_OK | SDBG_DRIVER_FAILED

text \<open>\<open>d_fork\<close> is what \<open>fork\<close> returns here, 0 in the child. The commands are those of the
  configuration, if it names them. \<open>d_links\<close> bounds the links followed to the loader.\<close>

record driver_env =
  d_net :: fe_net
  d_files :: files
  d_links :: nat
  d_fork :: int
  d_exec_fails :: bool
  RM_BE_STUB_CMD :: "string option"
  RM_FE_COLOC_CMD :: "string option"

text \<open>The child becomes the launcher: its path is the target of the options, its arguments those
  that were left. When \<open>execv\<close> fails the child goes on as a second engine, with pid 0. A
  \<open>fork\<close> that fails gives -1, which is taken as the pid.\<close>

definition launcher_pid_of :: "driver_env \<Rightarrow> opts_args_t \<Rightarrow> int eng" where
  "launcher_pid_of d opt =
     (if attach (my_opt opt) then ret (launcher_pid (my_opt opt))
      else if d_fork d = 0 then
        bindA tracer_trace_me (\<lambda>_. bindA (do_effect (Spawn (debugtarget (my_opt opt) #
          (case remaining (my_opt opt) of None \<Rightarrow> [] | Some as \<Rightarrow> as)))) (\<lambda>_.
          if d_exec_fails d then ret 0 else throw No_return))
      else ret (d_fork d))"

definition be_stub :: "driver_env \<Rightarrow> (string \<Rightarrow> string option) \<Rightarrow> string" where
  "be_stub d env = (case RM_BE_STUB_CMD d of
     None \<Rightarrow> []
   | Some cmd \<Rightarrow> (case env ''LMON_PREFIX'' of
       Some pref \<Rightarrow> pref @ ''/bin/'' @ cmd
     | None \<Rightarrow> (case env ''LMON_COLOC_UTIL_DIR'' of Some pref \<Rightarrow> pref @ ''/'' @ cmd | None \<Rightarrow> cmd)))"

definition extend_path :: "unit eng" where
  "extend_path s = (let env = o_getenv (out s);
       dir = (case env ''LMON_PREFIX'' of Some pref \<Rightarrow> Some (pref @ ''/bin/'') | None \<Rightarrow> env ''LMON_COLOC_UTIL_DIR'')
     in (case dir of
           None \<Rightarrow> ret ()
         | Some paths \<Rightarrow> do_effect (Setenv ''PATH'' (paths @ (case env ''PATH'' of None \<Rightarrow> [] | Some existing \<Rightarrow> '':'' @ existing)))) s)"

definition has_symbol :: "image_base_t option \<Rightarrow> (string \<Rightarrow> bool) option" where
  "has_symbol im = map_option (\<lambda>i n. \<not> sym_null (get_a_symbol i n)) im"

definition choose_rm :: "driver_env \<Rightarrow> opts_args_t \<Rightarrow> bool eng" where
  "choose_rm d opt s =
     (let m = my_opt opt;
          bulklauncher = (case RM_FE_COLOC_CMD d of Some cmd \<Rightarrow> cmd | None \<Rightarrow> debugtarget m);
          (initc, c) = init_rm_instance (basename bulklauncher) (tool_daemon m) (tool_daemon_opts m)
            (has_symbol (myimage s)) (has_symbol (myrmso_image s)) (be_stub d (o_getenv (out s))) (my_rmconfig opt)
      in ret initc (s\<lparr>rmgr := c\<rparr>))"

definition set_myopts :: "opts_args_t \<Rightarrow> unit eng" where
  "set_myopts opt = modA (\<lambda>s. s\<lparr>myopts := \<lparr>opt_attach = attach (my_opt opt), opt_debugtarget = debugtarget (my_opt opt),
     opt_envMap = [], opt_sec_info = lmon_sec_info (my_opt opt)\<rparr>\<rparr>)"

definition liftA :: "exn + 'a \<Rightarrow> 'a eng" where
  "liftA r = (case r of Inl e \<Rightarrow> throw e | Inr x \<Rightarrow> ret x)"

definition drive_engine :: "driver_env \<Rightarrow> nat \<Rightarrow> opts_args_t \<Rightarrow> driver_error_e eng" where
  "drive_engine d fuel opt = catchA SDBG_DRIVER_FAILED
     (bindA (launchmon_init (d_net d) opt) (\<lambda>rc.
        if rc \<noteq> LAUNCHMON_OK then ret SDBG_DRIVER_FAILED
        else bindA (launcher_pid_of d opt) (\<lambda>p.
          bindA (liftA (create_process (d_files d) (d_links d) p (debugtarget (my_opt opt)))) (\<lambda>proc.
          bindA (seqA [modA (on_process proc), extend_path]) (\<lambda>_.
          bindA (choose_rm d opt) (\<lambda>initc.
            if \<not> initc then ret SDBG_DRIVER_FAILED
            else bindA (seqA [set_myopts opt, whenA (attach (my_opt opt)) (ignA handle_attach_event), main_loop fuel])
                   (\<lambda>_. ret SDBG_DRIVER_OK)))))))"

text \<open>\<open>drive\<close> does not look at what \<open>process_args\<close> returns. The exit code is that of
  \<open>driver_main\<close>.\<close>

definition drive :: "opt_env \<Rightarrow> nat \<Rightarrow> string \<Rightarrow> driver_env \<Rightarrow> nat \<Rightarrow> string list \<Rightarrow> driver_error_e eng" where
  "drive e turns cr d fuel argv s = (case process_args e turns argv (\<lambda>_. quiet) (opts_args0 cr) of
     (Inl x, ps) \<Rightarrow> throw x s
   | (Inr r, ps) \<Rightarrow> drive_engine d fuel (opts ps) s)"

definition driver_main :: "opt_env \<Rightarrow> nat \<Rightarrow> string \<Rightarrow> driver_env \<Rightarrow> nat \<Rightarrow> string list \<Rightarrow> int eng" where
  "driver_main e turns cr d fuel argv =
     bindA (drive e turns cr d fuel argv) (\<lambda>rc. ret (if rc = SDBG_DRIVER_OK then 0 else 1))"

end
