(* ===== verification/Opt_Parse.thy ===== *)
theory Opt_Parse
  imports Sdbg_Opt Lmon_Fe
begin

text \<open>
  The command line of the engine read back: what the front end writes with \<open>lmon_opt_args\<close>
  is what \<open>process_args\<close> puts into the options.
\<close>

section \<open>Numbers\<close>

lemma digit_val_char: "d < 10 \<Longrightarrow> digit_val (char_of (48 + d)) = Some d"
  by (simp add: digit_val_def)

lemma scan_digits_app:
  "\<forall>c \<in> set xs. \<exists>d < 10. digit_val c = Some d \<Longrightarrow> scan_digits 10 a (xs @ ys) = scan_digits 10 (scan_digits 10 a xs) ys"
  by (induction xs arbitrary: a) auto

lemma show_nat_digits: "\<forall>c \<in> set (show_nat n). \<exists>d < 10. digit_val c = Some d"
proof (induction n rule: show_nat.induct)
  case (1 n)
  show ?case
  proof (cases "n < 10")
    case True
    then show ?thesis by (subst show_nat.simps) (simp add: digit_val_char)
  next
    case False
    then show ?thesis using 1 by (subst show_nat.simps) (auto simp: digit_val_char)
  qed
qed

lemma scan_show_nat: "scan_digits 10 0 (show_nat n) = n"
proof (induction n rule: show_nat.induct)
  case (1 n)
  show ?case
  proof (cases "n < 10")
    case True
    then show ?thesis by (subst show_nat.simps) (simp add: digit_val_char)
  next
    case False
    then show ?thesis using 1
      by (subst show_nat.simps) (simp add: scan_digits_app [OF show_nat_digits] digit_val_char)
  qed
qed

lemma show_nat_Cons: "\<exists>c cs. show_nat n = c # cs \<and> \<not> isspace c \<and> c \<noteq> CHR ''-'' \<and> c \<noteq> CHR ''+''"
proof -
  have "show_nat n \<noteq> []" by (subst show_nat.simps) simp
  then obtain c cs where s: "show_nat n = c # cs" by (cases "show_nat n") auto
  then obtain d where d: "d < 10" "digit_val c = Some d" using show_nat_digits [of n] by auto
  have "48 \<le> (of_char c :: nat) \<and> (of_char c :: nat) \<noteq> 45"
    using d(2) by (auto simp: digit_val_def Let_def split: if_splits)
  then have "\<not> isspace c" "c \<noteq> CHR ''-''" "c \<noteq> CHR ''+''" by (auto simp: isspace_def)
  with s show ?thesis by blast
qed

lemma strtol_show_int:
  assumes "- (2 ^ 31) \<le> n" and "n < 2 ^ 31"
  shows "strtol10 (show_int n) = n"
proof (cases "n < 0")
  case True
  have "\<not> isspace (CHR ''-'')" by (simp add: isspace_def)
  then show ?thesis using True assms by (simp add: strtol10_def show_int_def scan_show_nat LONG_MAX_def)
next
  case False
  obtain c cs where c: "show_nat (nat n) = c # cs" "\<not> isspace c" "c \<noteq> CHR ''-''" "c \<noteq> CHR ''+''"
    using show_nat_Cons by blast
  have d: "scan_digits 10 0 (c # cs) = nat n" using scan_show_nat [of "nat n"] c(1) by simp
  show ?thesis using False assms c(2-4) d
    by (simp add: strtol10_def show_int_def c(1) LONG_MAX_def Let_def del: scan_digits.simps)
qed

lemma atoi_show_int: "- (2 ^ 31) \<le> n \<Longrightarrow> n < 2 ^ 31 \<Longrightarrow> atoi (show_int n) = n"
  by (simp add: atoi_def strtol_show_int signed_of_int signed_take_bit_int_eq_self)

lemma atoi_show_nat: "n < 2 ^ 31 \<Longrightarrow> atoi (show_nat n) = int n"
  using atoi_show_int [of "int n"] by (simp add: show_int_def)

section \<open>Turns of the loop\<close>

text \<open>The parser stands at the arguments \<open>xs\<close>.\<close>

definition at :: "parse_state \<Rightarrow> string list \<Rightarrow> bool" where
  "at s xs \<longleftrightarrow> \<not> fin_parsing s \<and> (\<exists>pre. args s = pre @ xs \<and> argi s = int (length pre))"

lemma at_nargv: "at s xs \<Longrightarrow> k < length xs \<Longrightarrow> nargv (argi s + int k) s = ret (xs ! k) s"
  by (auto simp: at_def nargv_def nth_append nat_add_distrib)

lemma at_turn:
  "at s (x # xs) \<Longrightarrow> parse_loop e (Suc n) s =
     bindA (if x \<noteq> [] \<and> hd x = CHR ''-'' then parse_option e (option_letter x) else parse_target e x)
       (\<lambda>_. bindA (advance 1) (\<lambda>_. parse_loop e n)) s"
  using at_nargv [of s "x # xs" 0] by (auto simp: at_def parse_one_def bindA_def ret_def split: prod.splits sum.splits)

lemma at_operand: "at s (x # v # xs) \<Longrightarrow> operand s = (Inr v, s)"
  using at_nargv [of s "x # v # xs" 1] by (simp add: operand_def ret_def)

lemma at_drop:
  assumes "at s xs" and "k \<le> length xs" and "args t = args s" and "argi t = argi s + int k" and "\<not> fin_parsing t"
  shows "at t (drop k xs)"
proof -
  obtain pre where "args s = pre @ xs" "argi s = int (length pre)" using assms(1) by (auto simp: at_def)
  then have "args t = (pre @ take k xs) @ drop k xs \<and> argi t = int (length (pre @ take k xs))" using assms by simp
  with assms(5) show ?thesis unfolding at_def by blast
qed

lemma at_fin: "at s xs \<Longrightarrow> \<not> fin_parsing s" by (simp add: at_def)

lemma at_opts [simp]: "at (s\<lparr>opts := x\<rparr>) xs = at s xs" "at (s\<lparr>target := y\<rparr>) xs = at s xs" "at (s\<lparr>retv := z\<rparr>) xs = at s xs"
  by (simp_all add: at_def)

lemma long_letters [simp]:
  "option_letter ''--remote'' = CHR ''r''" "option_letter ''--lmonsec'' = CHR ''s''"
  "option_letter ''--daemonpath'' = CHR ''d''" "option_letter ''--daemonopts'' = CHR ''t''"
  "option_letter ''--pid'' = CHR ''p''" "option_letter ''-a'' = CHR ''a''"
  by (simp_all add: option_letter_def long_options_def)


lemmas turn_simps = act_simps parse_option_def upd_opt_def advance_def

lemma turn_remote:
  "at s (''--remote'' # v # xs) \<Longrightarrow> parse_loop e (Suc n) s = parse_loop e n
     (s\<lparr>opts := (opts s)\<lparr>my_opt := (my_opt (opts s))\<lparr>remote := True, remote_info := v\<rparr>\<rparr>, argi := 2 + argi s\<rparr>)"
  by (subst at_turn, assumption)
    (simp add: turn_simps opt_r_def at_operand [of _ "''--remote''" v xs])

lemma turn_lmonsec:
  "at s (''--lmonsec'' # v # xs) \<Longrightarrow> parse_loop e (Suc n) s = parse_loop e n
     (s\<lparr>opts := (opts s)\<lparr>my_opt := (my_opt (opts s))\<lparr>lmon_sec_info := v\<rparr>\<rparr>, argi := 2 + argi s\<rparr>)"
  by (subst at_turn, assumption)
    (simp add: turn_simps opt_s_def at_operand [of _ "''--lmonsec''" v xs])


definition found_in :: "opt_env \<Rightarrow> string \<Rightarrow> string \<Rightarrow> bool \<times> string" where
  "found_in e pth p = search_path (oe_stat e) p (strtoks CHR '':'' [] pth) p"

lemma check_path_ret: "oe_getenv e ''PATH'' = Some pth \<Longrightarrow> check_path e p s = (Inr (found_in e pth p), s)"
  by (simp add: check_path_def found_in_def ret_def)

lemma same_run: "s = t \<Longrightarrow> parse_loop e n s = parse_loop e n t"
  by simp

lemma opts_eq: "x = y \<longleftrightarrow> my_opt x = my_opt y \<and> my_rmconfig x = my_rmconfig y \<and> has_parse_error x = has_parse_error y"
  for x y :: opts_args_t
  by (auto intro: opts_args_t.equality)

lemma turn_daemonpath:
  "at s (''--daemonpath'' # v # xs) \<Longrightarrow> oe_getenv e ''PATH'' = Some pth \<Longrightarrow> found_in e pth v = (ok, d) \<Longrightarrow>
   parse_loop e (Suc n) s = parse_loop e n
     (s\<lparr>opts := (opts s)\<lparr>my_opt := (my_opt (opts s))\<lparr>tool_daemon := d\<rparr>, has_parse_error := has_parse_error (opts s) \<or> \<not> ok\<rparr>,
        retv := retv s \<and> ok, fin_parsing := \<not> ok, argi := 2 + argi s\<rparr>)"
  by (subst at_turn, assumption, frule at_fin)
    (cases ok; simp add: turn_simps opt_d_def at_operand [of _ "''--daemonpath''" v xs] check_path_ret parse_error_def; rule same_run; rule parse_state.equality; simp add: opts_eq)

lemma push_daemon_opts:
  assumes "j + k = length os"
  shows "at s (x # c # os @ xs) \<Longrightarrow> forA push_daemon_opt [j ..< length os] s =
     (Inr (), s\<lparr>opts := (opts s)\<lparr>my_opt := (my_opt (opts s))\<lparr>tool_daemon_opts := tool_daemon_opts (my_opt (opts s)) @ drop j os\<rparr>\<rparr>\<rparr>)"
  using assms
proof (induction k arbitrary: j s)
  case 0
  then show ?case by (simp add: ret_def)
next
  case (Suc k)
  then have j: "j < length os" by simp
  have u: "[j ..< length os] = j # [Suc j ..< length os]" using j by (simp add: upt_conv_Cons)
  have "nargv (argi s + int (j + 2)) s = ret (os ! j) s"
    using at_nargv [OF Suc.prems(1), of "j + 2"] j by (simp add: nth_append)
  then have a: "nargv (argi s + int j + 2) s = (Inr (os ! j), s)" by (simp add: ret_def algebra_simps)
  have d: "drop j os = os ! j # drop (Suc j) os" using j by (simp add: Cons_nth_drop_Suc)
  let ?t = "s\<lparr>opts := (opts s)\<lparr>my_opt := (my_opt (opts s))\<lparr>tool_daemon_opts := tool_daemon_opts (my_opt (opts s)) @ [os ! j]\<rparr>\<rparr>\<rparr>"
  have "push_daemon_opt j s = (Inr (), ?t)" by (simp add: push_daemon_opt_def a bindA_def upd_opt_def modA_def)
  moreover have "at ?t (x # c # os @ xs)" using Suc.prems(1) by simp
  then have "forA push_daemon_opt [Suc j ..< length os] ?t = (Inr (), ?t\<lparr>opts := (opts ?t)\<lparr>my_opt := (my_opt (opts ?t))
      \<lparr>tool_daemon_opts := tool_daemon_opts (my_opt (opts ?t)) @ drop (Suc j) os\<rparr>\<rparr>\<rparr>)"
    using Suc.IH [of ?t "Suc j"] Suc.prems(2) by simp
  ultimately show ?case unfolding u d by (simp add: bindA_def)
qed

lemma turn_daemonopts:
  assumes "at s (''--daemonopts'' # show_nat (length os) # os @ xs)" and "length os < 2 ^ 31"
  shows "parse_loop e (Suc n) s = parse_loop e n (s\<lparr>opts := (opts s)\<lparr>my_opt := (my_opt (opts s))
     \<lparr>tool_daemon_opts := tool_daemon_opts (my_opt (opts s)) @ os\<rparr>\<rparr>, argi := 2 + int (length os) + argi s\<rparr>)"
proof -
  have p: "forA push_daemon_opt [0 ..< length os] s = (Inr (), s\<lparr>opts := (opts s)\<lparr>my_opt := (my_opt (opts s))
     \<lparr>tool_daemon_opts := tool_daemon_opts (my_opt (opts s)) @ os\<rparr>\<rparr>\<rparr>)"
    using push_daemon_opts [OF _ assms(1), of 0 "length os"] by simp
  have o: "operand s = (Inr (show_nat (length os)), s)" by (rule at_operand [OF assms(1)])
  have "opt_t s = (Inr (), s\<lparr>opts := (opts s)\<lparr>my_opt := (my_opt (opts s))
     \<lparr>tool_daemon_opts := tool_daemon_opts (my_opt (opts s)) @ os\<rparr>\<rparr>, argi := argi s + (int (length os) + 1)\<rparr>)"
    unfolding opt_t_def bindA_def o Let_def
    by (simp only: prod.case sum.case atoi_show_nat [OF assms(2)] nat_int seqA.simps bindA_def p) (simp add: advance_def modA_def ret_def)
  then show ?thesis
    by (subst at_turn [OF assms(1)]) (simp add: parse_option_def bindA_def advance_def modA_def algebra_simps)
qed

lemma turn_pid:
  assumes "at s [''--pid'', show_int p]" and "- (2 ^ 31) \<le> p" "p < 2 ^ 31"
    and "oe_readlink e (''/proc/'' @ show_int p @ ''/exe'') = x" and "\<And>l. x = Some l \<Longrightarrow> length l < PATH_MAX"
  shows "parse_loop e (Suc n) s = parse_loop e n (s\<lparr>opts := (opts s)\<lparr>my_opt := (my_opt (opts s))
     \<lparr>launcher_pid := p, debugtarget := (case x of Some l \<Rightarrow> l | None \<Rightarrow> debugtarget (my_opt (opts s))), attach := True\<rparr>,
       has_parse_error := has_parse_error (opts s) \<or> x = None\<rparr>,
     retv := retv s \<and> x \<noteq> None, fin_parsing := (x = None), argi := 2 + argi s\<rparr>)"
proof -
  have g: "LMON_get_execpath e p t = (Inr x, t)" for t
    using assms(4,5) by (cases x) (auto simp: LMON_get_execpath_def ret_def)
  show ?thesis using at_operand [OF assms(1)] at_fin [OF assms(1)]
    by (subst at_turn [OF assms(1)])
      (cases x; simp add: turn_simps opt_p_def atoi_show_int [OF assms(2,3)] g parse_error_def; rule same_run; rule parse_state.equality; simp add: opts_eq)
qed

lemma turn_target:
  assumes "at s (t # xs)" and "t = [] \<or> hd t \<noteq> CHR ''-''" and "oe_getenv e ''PATH'' = Some pth" and "found_in e pth t = (ok, l)"
  shows "parse_loop e (Suc n) s = parse_loop e n (s\<lparr>opts := (opts s)\<lparr>my_opt := (my_opt (opts s))\<lparr>debugtarget := l\<rparr>,
       has_parse_error := has_parse_error (opts s) \<or> \<not> ok\<rparr>,
     retv := retv s \<and> ok, target := Some t, argi := 1 + argi s\<rparr>)"
proof -
  have "(if t \<noteq> [] \<and> hd t = CHR ''-'' then parse_option e (option_letter t) else parse_target e t) = parse_target e t"
    using assms(2) by auto
  then show ?thesis
    by (subst at_turn [OF assms(1)])
      (cases ok; simp add: act_simps upd_opt_def advance_def parse_target_def check_path_ret [OF assms(3)] assms(4)
        parse_error_def; rule same_run; rule parse_state.equality; simp add: opts_eq)
qed

lemma turn_a:
  assumes "at s (''-a'' # xs)" and "target s = Some t"
  shows "\<exists>s'. parse_loop e (Suc (Suc n)) s = (Inr (), s') \<and> s' = s\<lparr>opts := (opts s)\<lparr>my_opt := (my_opt (opts s))
     \<lparr>remaining := Some (t # xs)\<rparr>\<rparr>, fin_parsing := True, argi := 1 + argi s, args := args s'\<rparr>"
proof -
  have "drop (nat (argi s) + 1) (args s) = xs" using assms(1) by (auto simp: at_def nat_add_distrib)
  then show ?thesis using assms(2)
    by (subst at_turn [OF assms(1)]) (simp add: turn_simps opt_a_def)
qed

lemma loop_done: "fin_parsing s \<or> int (length (args s)) \<le> argi s \<Longrightarrow> parse_loop e (Suc n) s = (Inr (), s)"
  by (auto simp: ret_def)

lemma at_end: "at s [] \<Longrightarrow> int (length (args s)) \<le> argi s"
  by (auto simp: at_def)

section \<open>The whole command line\<close>

definition launcher_args :: "bool \<Rightarrow> int \<Rightarrow> string \<Rightarrow> string list \<Rightarrow> string list" where
  "launcher_args att p t xs = (if att then [''--pid'', show_int p] else [t, ''-a''] @ xs)"

text \<open>Where the launcher is: the program of the process, or the file the name stands for.\<close>

definition launcher_at :: "opt_env \<Rightarrow> string \<Rightarrow> bool \<Rightarrow> int \<Rightarrow> string \<Rightarrow> bool \<times> string" where
  "launcher_at e pth att p t =
     (if att then (case oe_readlink e (''/proc/'' @ show_int p @ ''/exe'') of None \<Rightarrow> (False, []) | Some l \<Rightarrow> (True, l))
      else found_in e pth t)"

definition launcher_ok :: "opt_env \<Rightarrow> bool \<Rightarrow> int \<Rightarrow> string \<Rightarrow> bool" where
  "launcher_ok e att p t \<longleftrightarrow>
     (if att then - (2 ^ 31) \<le> p \<and> p < 2 ^ 31 \<and>
        (case oe_readlink e (''/proc/'' @ show_int p @ ''/exe'') of None \<Rightarrow> True | Some l \<Rightarrow> length l < PATH_MAX)
      else t = [] \<or> hd t \<noteq> CHR ''-'')"

definition launcher_opts :: "bool \<Rightarrow> int \<Rightarrow> string \<Rightarrow> string list \<Rightarrow> string \<Rightarrow> opt_struct_t \<Rightarrow> opt_struct_t" where
  "launcher_opts att p t xs l m =
     (if att then m\<lparr>launcher_pid := p, debugtarget := l, attach := True\<rparr>
      else m\<lparr>debugtarget := l, remaining := Some (t # xs)\<rparr>)"

lemma run_launcher:
  assumes "at s (launcher_args att p t xs)" and "launcher_ok e att p t" and "oe_getenv e ''PATH'' = Some pth"
    and "launcher_at e pth att p t = (ok, l)" and "debugtarget (my_opt (opts s)) = []"
  shows "\<exists>s'. parse_loop e (Suc (Suc (Suc n))) s = (Inr (), s') \<and>
     my_opt (opts s') = launcher_opts att p t xs l (my_opt (opts s)) \<and> my_rmconfig (opts s') = my_rmconfig (opts s) \<and>
     has_parse_error (opts s') = (has_parse_error (opts s) \<or> \<not> ok) \<and> retv s' = (retv s \<and> ok) \<and> printed s' = printed s"
proof (cases att)
  case True
  let ?x = "oe_readlink e (''/proc/'' @ show_int p @ ''/exe'')"
  have a: "at s [''--pid'', show_int p]" using assms(1) True by (simp add: launcher_args_def)
  have b: "- (2 ^ 31) \<le> p" "p < 2 ^ 31" "\<And>y. ?x = Some y \<Longrightarrow> length y < PATH_MAX"
    using assms(2) True by (auto simp: launcher_ok_def split: option.splits)
  have l: "ok = (?x \<noteq> None)" "(case ?x of Some y \<Rightarrow> y | None \<Rightarrow> []) = l"
    using assms(4) True by (auto simp: launcher_at_def split: option.splits)
  have n: "int (length (args s)) = argi s + 2" using a by (auto simp: at_def)
  let ?t = "s\<lparr>opts := (opts s)\<lparr>my_opt := (my_opt (opts s))
     \<lparr>launcher_pid := p, debugtarget := (case ?x of Some l \<Rightarrow> l | None \<Rightarrow> debugtarget (my_opt (opts s))), attach := True\<rparr>,
       has_parse_error := has_parse_error (opts s) \<or> ?x = None\<rparr>,
     retv := retv s \<and> ?x \<noteq> None, fin_parsing := (?x = None), argi := 2 + argi s\<rparr>"
  have "parse_loop e (Suc (Suc (Suc n))) s = parse_loop e (Suc (Suc n)) ?t"
    by (rule turn_pid [OF a b(1,2) refl b(3)])
  also have "\<dots> = (Inr (), ?t)" by (rule loop_done) (use n in simp)
  finally show ?thesis using True l assms(5) by (auto simp: launcher_opts_def)
next
  case False
  have a: "at s (t # ''-a'' # xs)" using assms(1) False by (simp add: launcher_args_def)
  have f: "found_in e pth t = (ok, l)" using assms(4) False by (simp add: launcher_at_def)
  let ?t = "s\<lparr>opts := (opts s)\<lparr>my_opt := (my_opt (opts s))\<lparr>debugtarget := l\<rparr>,
       has_parse_error := has_parse_error (opts s) \<or> \<not> ok\<rparr>, retv := retv s \<and> ok, target := Some t, argi := 1 + argi s\<rparr>"
  have "at ?t (drop 1 (t # ''-a'' # xs))" by (rule at_drop [OF a]) (use at_fin [OF a] in auto)
  then have "at ?t (''-a'' # xs)" by simp
  then obtain s' where "parse_loop e (Suc (Suc n)) ?t = (Inr (), s')" "s' = ?t\<lparr>opts := (opts ?t)\<lparr>my_opt := (my_opt (opts ?t))
     \<lparr>remaining := Some (t # xs)\<rparr>\<rparr>, fin_parsing := True, argi := 1 + argi ?t, args := args s'\<rparr>"
    using turn_a [of ?t xs t] by auto
  then have l: "parse_loop e (Suc (Suc (Suc n))) s = (Inr (), s')"
    and s: "s' = ?t\<lparr>opts := (opts ?t)\<lparr>my_opt := (my_opt (opts ?t))
     \<lparr>remaining := Some (t # xs)\<rparr>\<rparr>, fin_parsing := True, argi := 1 + argi ?t, args := args s'\<rparr>"
    using turn_target [OF a _ assms(3) f] assms(2) False by (auto simp: launcher_ok_def)
  have "opts s' = (opts ?t)\<lparr>my_opt := (my_opt (opts ?t))\<lparr>remaining := Some (t # xs)\<rparr>\<rparr> \<and> retv s' = (retv s \<and> ok) \<and> printed s' = printed s"
    using arg_cong [OF s, of opts] arg_cong [OF s, of retv] arg_cong [OF s, of printed] by simp
  with l False show ?thesis by (auto simp: launcher_opts_def)
qed

lemma lmon_opt_args_eq:
  "lmon_opt_args eo = ''--remote'' # eo_remote_info eo # ''--lmonsec'' # eo_sec_info eo # ''--daemonpath'' # eo_tool_daemon eo #
     (if eo_tool_daemon_opts eo \<noteq> [] then ''--daemonopts'' # show_nat (length (eo_tool_daemon_opts eo)) # eo_tool_daemon_opts eo else []) @
     launcher_args (eo_attach eo) (eo_launcher_pid eo) (eo_debugtarget eo) (tl (eo_remaining eo))"
  by (simp add: lmon_opt_args_def launcher_args_def)

lemma run_daemonopts:
  assumes "at s ((if os \<noteq> [] then ''--daemonopts'' # show_nat (length os) # os else []) @ xs)" and "length os < 2 ^ 31"
  shows "\<exists>s' k. k \<le> 1 \<and> (\<forall>n. parse_loop e (k + n) s = parse_loop e n s') \<and> at s' xs \<and>
     opts s' = (opts s)\<lparr>my_opt := (my_opt (opts s))\<lparr>tool_daemon_opts := tool_daemon_opts (my_opt (opts s)) @ os\<rparr>\<rparr> \<and>
     retv s' = retv s \<and> printed s' = printed s"
proof (cases "os = []")
  case True
  then show ?thesis using assms(1) by (intro exI [of _ s] exI [of _ 0]) simp
next
  case False
  then have a: "at s (''--daemonopts'' # show_nat (length os) # os @ xs)" using assms(1) by simp
  let ?t = "s\<lparr>opts := (opts s)\<lparr>my_opt := (my_opt (opts s))
     \<lparr>tool_daemon_opts := tool_daemon_opts (my_opt (opts s)) @ os\<rparr>\<rparr>, argi := 2 + int (length os) + argi s\<rparr>"
  have "at ?t (drop (2 + length os) (''--daemonopts'' # show_nat (length os) # os @ xs))"
    by (rule at_drop [OF a]) (use at_fin [OF a] in auto)
  then have "at ?t xs" by simp
  then show ?thesis using turn_daemonopts [OF a assms(2)]
    by (intro exI [of _ ?t] exI [of _ 1]) simp
qed

lemma parse_loop_more: "parse_loop e n s = (Inr (), t) \<Longrightarrow> n \<le> m \<Longrightarrow> parse_loop e m s = (Inr (), t)"
proof (induction n arbitrary: m s)
  case 0
  then show ?case by (simp add: throw_def)
next
  case (Suc n)
  then obtain k where m: "m = Suc k" "n \<le> k" by (cases m) auto
  show ?case
  proof (cases "argi s < int (length (args s)) \<and> \<not> fin_parsing s")
    case True
    then have "bindA (parse_one e) (\<lambda>_. bindA (advance 1) (\<lambda>_. parse_loop e n)) s = (Inr (), t)" using Suc.prems(1) by simp
    then obtain y u w v where "parse_one e s = (Inr y, u)" "advance 1 u = (Inr w, v)" "parse_loop e n v = (Inr (), t)"
      by (auto simp: bindA_Inr)
    moreover from this have "parse_loop e k v = (Inr (), t)" using Suc.IH m(2) by blast
    ultimately show ?thesis using True m by (simp add: bindA_run)
  next
    case False
    then show ?thesis using Suc.prems(1) m by auto
  qed
qed

text \<open>The options the loop leaves. A tool daemon that is not found ends it before the launcher is
  looked for.\<close>

definition loop_opts :: "bool \<Rightarrow> string \<Rightarrow> string \<Rightarrow> string \<Rightarrow> string list \<Rightarrow> (opt_struct_t \<Rightarrow> opt_struct_t) \<Rightarrow>
    opt_struct_t \<Rightarrow> opt_struct_t" where
  "loop_opts ok rinfo sec d os f m =
     (let m = m\<lparr>remote := True, remote_info := rinfo, lmon_sec_info := sec, tool_daemon := d\<rparr>
      in if ok then f (m\<lparr>tool_daemon_opts := tool_daemon_opts m @ os\<rparr>) else m)"

lemma run_loop:
  fixes s :: parse_state
  assumes "at s (lmon_opt_args eo)" and pth: "oe_getenv e ''PATH'' = Some pth"
    and d: "found_in e pth (eo_tool_daemon eo) = (okd, d)" and os: "length (eo_tool_daemon_opts eo) < 2 ^ 31"
    and lk: "launcher_ok e (eo_attach eo) (eo_launcher_pid eo) (eo_debugtarget eo)"
    and l: "launcher_at e pth (eo_attach eo) (eo_launcher_pid eo) (eo_debugtarget eo) = (okl, l)"
    and t: "debugtarget (my_opt (opts s)) = []" and n: "7 \<le> n"
  shows "\<exists>s'. parse_loop e n s = (Inr (), s') \<and>
     my_opt (opts s') = loop_opts okd (eo_remote_info eo) (eo_sec_info eo) d (eo_tool_daemon_opts eo)
       (launcher_opts (eo_attach eo) (eo_launcher_pid eo) (eo_debugtarget eo) (tl (eo_remaining eo)) l) (my_opt (opts s)) \<and>
     my_rmconfig (opts s') = my_rmconfig (opts s) \<and>
     has_parse_error (opts s') = (has_parse_error (opts s) \<or> \<not> (okd \<and> okl)) \<and> retv s' = (retv s \<and> okd \<and> okl) \<and> printed s' = printed s"
proof -
  let ?la = "launcher_args (eo_attach eo) (eo_launcher_pid eo) (eo_debugtarget eo) (tl (eo_remaining eo))"
  let ?os = "eo_tool_daemon_opts eo"
  let ?rest = "(if ?os \<noteq> [] then ''--daemonopts'' # show_nat (length ?os) # ?os else []) @ ?la"
  let ?s1 = "s\<lparr>opts := (opts s)\<lparr>my_opt := (my_opt (opts s))\<lparr>remote := True, remote_info := eo_remote_info eo\<rparr>\<rparr>, argi := 2 + argi s\<rparr>"
  let ?s2 = "?s1\<lparr>opts := (opts ?s1)\<lparr>my_opt := (my_opt (opts ?s1))\<lparr>lmon_sec_info := eo_sec_info eo\<rparr>\<rparr>, argi := 2 + argi ?s1\<rparr>"
  let ?s3 = "?s2\<lparr>opts := (opts ?s2)\<lparr>my_opt := (my_opt (opts ?s2))\<lparr>tool_daemon := d\<rparr>, has_parse_error := has_parse_error (opts ?s2) \<or> \<not> okd\<rparr>,
        retv := retv ?s2 \<and> okd, fin_parsing := \<not> okd, argi := 2 + argi ?s2\<rparr>"
  have a: "at s (''--remote'' # eo_remote_info eo # ''--lmonsec'' # eo_sec_info eo # ''--daemonpath'' # eo_tool_daemon eo # ?rest)"
    using assms(1) by (simp add: lmon_opt_args_eq)
  have a1: "at ?s1 (''--lmonsec'' # eo_sec_info eo # ''--daemonpath'' # eo_tool_daemon eo # ?rest)"
    using at_drop [OF a, of 2 ?s1] at_fin [OF a] by simp
  have a2: "at ?s2 (''--daemonpath'' # eo_tool_daemon eo # ?rest)"
    using at_drop [OF a1, of 2 ?s2] at_fin [OF a] by simp
  have r: "parse_loop e (Suc (Suc (Suc k))) s = parse_loop e k ?s3" for k
    unfolding turn_remote [OF a] turn_lmonsec [OF a1] by (rule turn_daemonpath [OF a2 pth d])
  have "\<exists>k s'. k \<le> 7 \<and> parse_loop e k s = (Inr (), s') \<and>
     my_opt (opts s') = loop_opts okd (eo_remote_info eo) (eo_sec_info eo) d ?os
       (launcher_opts (eo_attach eo) (eo_launcher_pid eo) (eo_debugtarget eo) (tl (eo_remaining eo)) l) (my_opt (opts s)) \<and>
     my_rmconfig (opts s') = my_rmconfig (opts s) \<and>
     has_parse_error (opts s') = (has_parse_error (opts s) \<or> \<not> (okd \<and> okl)) \<and> retv s' = (retv s \<and> okd \<and> okl) \<and> printed s' = printed s"
  proof (cases okd)
    case False
    then have "parse_loop e (Suc (Suc (Suc (Suc 0)))) s = (Inr (), ?s3)" unfolding r by (intro loop_done) simp
    then show ?thesis using False by (intro exI [of _ 4] exI [of _ ?s3]) (simp add: loop_opts_def numeral_eq_Suc)
  next
    case True
    have "at ?s3 ?rest" using at_drop [OF a2, of 2 ?s3] True by simp
    then obtain s4 k where k: "k \<le> 1" "\<And>n. parse_loop e (k + n) ?s3 = parse_loop e n s4" "at s4 ?la"
      and o4: "opts s4 = (opts ?s3)\<lparr>my_opt := (my_opt (opts ?s3))\<lparr>tool_daemon_opts := tool_daemon_opts (my_opt (opts ?s3)) @ ?os\<rparr>\<rparr>"
        "retv s4 = retv ?s3" "printed s4 = printed ?s3"
      using run_daemonopts [OF _ os] by blast
    have t4: "debugtarget (my_opt (opts s4)) = []" using t o4(1) by simp
    obtain s5 where s5: "parse_loop e (Suc (Suc (Suc 0))) s4 = (Inr (), s5)"
      "my_opt (opts s5) = launcher_opts (eo_attach eo) (eo_launcher_pid eo) (eo_debugtarget eo) (tl (eo_remaining eo)) l (my_opt (opts s4))"
      "my_rmconfig (opts s5) = my_rmconfig (opts s4)" "has_parse_error (opts s5) = (has_parse_error (opts s4) \<or> \<not> okl)"
      "retv s5 = (retv s4 \<and> okl)" "printed s5 = printed s4"
      using run_launcher [OF k(3) lk pth l t4] by blast
    have "parse_loop e (Suc (Suc (Suc (k + Suc (Suc (Suc 0)))))) s = (Inr (), s5)" unfolding r k(2) by (rule s5(1))
    moreover have "Suc (Suc (Suc (k + Suc (Suc (Suc 0))))) \<le> 7" using k(1) by simp
    ultimately show ?thesis using True o4 s5
      by (intro exI [of _ "Suc (Suc (Suc (k + Suc (Suc (Suc 0)))))"] exI [of _ s5]) (simp add: loop_opts_def Let_def)
  qed
  then obtain k s' where "k \<le> 7" "parse_loop e k s = (Inr (), s')" "my_opt (opts s') = loop_opts okd (eo_remote_info eo) (eo_sec_info eo) d ?os
       (launcher_opts (eo_attach eo) (eo_launcher_pid eo) (eo_debugtarget eo) (tl (eo_remaining eo)) l) (my_opt (opts s)) \<and>
     my_rmconfig (opts s') = my_rmconfig (opts s) \<and>
     has_parse_error (opts s') = (has_parse_error (opts s) \<or> \<not> (okd \<and> okl)) \<and> retv s' = (retv s \<and> okd \<and> okl) \<and> printed s' = printed s"
    by blast
  moreover from this have "parse_loop e n s = (Inr (), s')" using parse_loop_more n by (meson le_trans)
  ultimately show ?thesis by blast
qed

definition rc_of :: "opt_env \<Rightarrow> bool \<times> rc_rm_t" where
  "rc_of e = rc_init (oe_access e) (oe_getenv e) (oe_files e) (oe_prefix e) (oe_isa e) rc_rm0"

lemma engine_verbosity_run: "\<exists>lv. engine_verbosity e s = (Inr (), s\<lparr>levels := lv\<rparr>)"
  by (cases "oe_getenv e ''LMON_ENGINE_VERBOSE_LEVEL''")
    (auto simp: engine_verbosity_def set_level_def modA_def ret_def Let_def intro: exI [of _ "levels s"])

lemma check_rm_map_run:
  assumes "api_quiet s" and "my_rmconfig (opts s) = rc_rm0"
  shows "\<exists>s'. check_rm_map e s = (Inr (), s') \<and> my_opt (opts s') = my_opt (opts s) \<and>
     my_rmconfig (opts s') = (if has_parse_error (opts s) then rc_rm0 else snd (rc_of e)) \<and>
     has_parse_error (opts s') = (has_parse_error (opts s) \<or> \<not> fst (rc_of e)) \<and>
     retv s' = (retv s \<and> (has_parse_error (opts s) \<or> fst (rc_of e))) \<and> printed s' = printed s"
  using assms by (cases "rc_of e") (simp add: check_rm_map_def construct_rm_map_def rc_of_def act_simps api_quiet_def)

lemma run_process_args:
  assumes pth: "oe_getenv e ''PATH'' = Some pth"
    and d: "found_in e pth (eo_tool_daemon eo) = (okd, d)" and os: "length (eo_tool_daemon_opts eo) < 2 ^ 31"
    and lk: "launcher_ok e (eo_attach eo) (eo_launcher_pid eo) (eo_debugtarget eo)"
    and l: "launcher_at e pth (eo_attach eo) (eo_launcher_pid eo) (eo_debugtarget eo) = (okl, l)" and n: "7 \<le> fuel"
  shows "\<exists>s. process_args e fuel (prog # lmon_opt_args eo) lv (opts_args0 cr) = (Inr (\<not> has_parse_error (opts s)), s) \<and>
     my_opt (opts s) = loop_opts okd (eo_remote_info eo) (eo_sec_info eo) d (eo_tool_daemon_opts eo)
       (launcher_opts (eo_attach eo) (eo_launcher_pid eo) (eo_debugtarget eo) (tl (eo_remaining eo)) l) (my_opt (opts_args0 cr)) \<and>
     my_rmconfig (opts s) = (if okd \<and> okl then snd (rc_of e) else rc_rm0) \<and>
     has_parse_error (opts s) = (\<not> (okd \<and> okl \<and> fst (rc_of e))) \<and> printed s = []"
proof -
  let ?s0 = "\<lparr>opts = opts_args0 cr, levels = lv, tracefile = None, printed = [], args = prog # lmon_opt_args eo, argi = 1,
     target = None, ver = quiet, fin_parsing = False, retv = True\<rparr>"
  let ?m0 = "my_opt (opts_args0 cr)"
  have u: "upd_opt (\<lambda>m. m\<lparr>remote := False\<rparr>) ?s0 = (Inr (), ?s0)"
    by (simp add: upd_opt_def modA_def opts_args0_def)
  have "at ?s0 (lmon_opt_args eo)" unfolding at_def by (auto intro!: exI [of _ "[prog]"])
  moreover have "debugtarget (my_opt (opts ?s0)) = []" by (simp add: opts_args0_def)
  ultimately obtain s1 where s1: "parse_loop e fuel ?s0 = (Inr (), s1)"
    "my_opt (opts s1) = loop_opts okd (eo_remote_info eo) (eo_sec_info eo) d (eo_tool_daemon_opts eo)
       (launcher_opts (eo_attach eo) (eo_launcher_pid eo) (eo_debugtarget eo) (tl (eo_remaining eo)) l) (my_opt (opts ?s0))"
    "my_rmconfig (opts s1) = my_rmconfig (opts ?s0)" "has_parse_error (opts s1) = (has_parse_error (opts ?s0) \<or> \<not> (okd \<and> okl))"
    "retv s1 = (retv ?s0 \<and> okd \<and> okl)" "printed s1 = printed ?s0"
    using run_loop [OF _ pth d os lk l _ n] by blast
  obtain lv' where v: "engine_verbosity e s1 = (Inr (), s1\<lparr>levels := lv'\<rparr>)" using engine_verbosity_run by blast
  have q: "api_quiet (s1\<lparr>levels := lv'\<rparr>)"
    by (simp add: api_quiet_def s1(2) loop_opts_def launcher_opts_def opts_args0_def Let_def)
  have "my_rmconfig (opts (s1\<lparr>levels := lv'\<rparr>)) = rc_rm0" by (simp add: s1(3) opts_args0_def)
  then obtain s2 where s2: "check_rm_map e (s1\<lparr>levels := lv'\<rparr>) = (Inr (), s2)" "my_opt (opts s2) = my_opt (opts s1)"
    "my_rmconfig (opts s2) = (if has_parse_error (opts s1) then rc_rm0 else snd (rc_of e))"
    "has_parse_error (opts s2) = (has_parse_error (opts s1) \<or> \<not> fst (rc_of e))"
    "retv s2 = (retv s1 \<and> (has_parse_error (opts s1) \<or> fst (rc_of e)))" "printed s2 = printed s1"
    using check_rm_map_run [OF q, of e] by auto
  have q2: "api_quiet s2" using q s2(2) by (simp add: api_quiet_def)
  have "lmon_opt_args eo \<noteq> []" by (simp add: lmon_opt_args_eq)
  then have "\<not> length (prog # lmon_opt_args eo) < 2" by (cases "lmon_opt_args eo") simp_all
  then have "process_args e fuel (prog # lmon_opt_args eo) lv (opts_args0 cr) = (Inr (retv s2), s2)"
    by (simp add: process_args_def bindA_def u s1(1) v s2(1) q2 whenA_def ret_def getA_def)
  moreover have "retv s2 = (\<not> has_parse_error (opts s2))" using s1 s2 by (auto simp: opts_args0_def)
  ultimately show ?thesis using s1 s2 by (intro exI [of _ s2]) (auto simp: opts_args0_def)
qed

text \<open>C22: (roundtrip) From the front end's options to the engine's: when the paths stand for
  files and the resource managers can be read, parsing the command line the front end builds gives
  back its address, the secret, the daemon's options even where they begin with a dash, the pid or
  the launcher with its arguments, without an error.\<close>

theorem engine_gets_options:
  assumes "oe_getenv e ''PATH'' = Some pth" and "found_in e pth (eo_tool_daemon eo) = (True, d)"
    and "length (eo_tool_daemon_opts eo) < 2 ^ 31"
    and "launcher_ok e (eo_attach eo) (eo_launcher_pid eo) (eo_debugtarget eo)"
    and "launcher_at e pth (eo_attach eo) (eo_launcher_pid eo) (eo_debugtarget eo) = (True, l)"
    and "rc_of e = (True, rc)" and "7 \<le> fuel"
  shows "\<exists>s. process_args e fuel (prog # lmon_opt_args eo) lv (opts_args0 cr) = (Inr True, s) \<and>
    opts s = \<lparr>my_opt = \<lparr>verbose = 0, attach = eo_attach eo, remote = True, tool_daemon = d, debugtarget = l, copyright = cr,
        launchstring = [], tool_daemon_opts = eo_tool_daemon_opts eo, remote_info = eo_remote_info eo,
        lmon_sec_info = eo_sec_info eo, launcher_pid = (if eo_attach eo then eo_launcher_pid eo else -1),
        remaining = (if eo_attach eo then None else Some (eo_debugtarget eo # tl (eo_remaining eo)))\<rparr>,
      my_rmconfig = rc, has_parse_error = False\<rparr>"
  using run_process_args [OF assms(1,2,3,4,5,7), of prog lv cr] assms(6)
  by (elim exE conjE) (auto simp: opts_eq loop_opts_def launcher_opts_def opts_args0_def Let_def)

definition ex_opt_env :: opt_env where
  "ex_opt_env = \<lparr>oe_getenv = (\<lambda>v. if v = ''PATH'' then Some ''/usr/bin:/opt/tool'' else None),
     oe_stat = (\<lambda>p. p = ''/usr/bin/srun'' \<or> p = ''/opt/tool/toold''), oe_readlink = (\<lambda>p. None), oe_fopen = (\<lambda>p. False),
     oe_access = (\<lambda>p. False),
     oe_files = (\<lambda>f. if f = ''/usr/etc/rm_info.conf'' then Some (unlines ([] @ (CHR ''['' # ''linux-x86_64'' @ CHR '']'' # []) #
        [''rm_slurm.conf''] @ [])) else None),
     oe_prefix = ''/usr'', oe_isa = ''linux-x86_64''\<rparr>"

definition ex_eo :: "Lmon_Fe.engine_opts" where
  "ex_eo = \<lparr>eo_remote_info = ''10.0.0.1:4711'', eo_sec_info = ''s:42'', eo_attach = False, eo_tool_daemon = ''toold'',
     eo_tool_daemon_opts = [''-v'', ''--pid''], eo_debugtarget = ''srun'', eo_launcher_pid = -1,
     eo_remaining = [''srun'', ''-n'', ''4''], eo_envMap = []\<rparr>"

lemma ex_opt_rc: "fst (rc_of ex_opt_env)"
proof -
  have "read_supported_rm_confs ''linux-x86_64'' (Some (unlines ([] @ (CHR ''['' # ''linux-x86_64'' @ CHR '']'' # []) #
      [''rm_slurm.conf''] @ []))) [] = ([''rm_slurm.conf''] \<noteq> [], [] @ [''rm_slurm.conf''])"
    by (rule supported_confs_section [where tail = "[]"]) (simp_all add: line_ok_def PATH_MAX_def char0_def not_header_def)
  then show ?thesis by (simp add: rc_of_def rc_init_def ex_opt_env_def)
qed

lemma engine_gets_options_witness:
  "\<exists>s. process_args ex_opt_env 7 (''launchmon'' # lmon_opt_args ex_eo) (\<lambda>_. quiet) (opts_args0 ''c'') = (Inr True, s) \<and>
    remaining (my_opt (opts s)) = Some [''srun'', ''-n'', ''4''] \<and> tool_daemon_opts (my_opt (opts s)) = [''-v'', ''--pid''] \<and>
    debugtarget (my_opt (opts s)) = ''/usr/bin/srun''"
proof -
  have p: "oe_getenv ex_opt_env ''PATH'' = Some ''/usr/bin:/opt/tool''" by (simp add: ex_opt_env_def)
  have d: "found_in ex_opt_env ''/usr/bin:/opt/tool'' (eo_tool_daemon ex_eo) = (True, ''/opt/tool/toold'')"
    by (simp add: found_in_def ex_opt_env_def ex_eo_def)
  have o: "length (eo_tool_daemon_opts ex_eo) < 2 ^ 31" by (simp add: ex_eo_def)
  have k: "launcher_ok ex_opt_env (eo_attach ex_eo) (eo_launcher_pid ex_eo) (eo_debugtarget ex_eo)"
    by (simp add: launcher_ok_def ex_eo_def)
  have l: "launcher_at ex_opt_env ''/usr/bin:/opt/tool'' (eo_attach ex_eo) (eo_launcher_pid ex_eo) (eo_debugtarget ex_eo) = (True, ''/usr/bin/srun'')"
    by (simp add: launcher_at_def found_in_def ex_opt_env_def ex_eo_def)
  have r: "rc_of ex_opt_env = (True, snd (rc_of ex_opt_env))" using ex_opt_rc by (metis prod.collapse)
  have n: "7 \<le> (7::nat)" by simp
  obtain s where "process_args ex_opt_env 7 (''launchmon'' # lmon_opt_args ex_eo) (\<lambda>_. quiet) (opts_args0 ''c'') = (Inr True, s)"
    and "opts s = \<lparr>my_opt = \<lparr>verbose = 0, attach = eo_attach ex_eo, remote = True, tool_daemon = ''/opt/tool/toold'',
        debugtarget = ''/usr/bin/srun'', copyright = ''c'',
        launchstring = [], tool_daemon_opts = eo_tool_daemon_opts ex_eo, remote_info = eo_remote_info ex_eo,
        lmon_sec_info = eo_sec_info ex_eo, launcher_pid = (if eo_attach ex_eo then eo_launcher_pid ex_eo else -1),
        remaining = (if eo_attach ex_eo then None else Some (eo_debugtarget ex_eo # tl (eo_remaining ex_eo)))\<rparr>,
      my_rmconfig = snd (rc_of ex_opt_env), has_parse_error = False\<rparr>"
    using engine_gets_options [OF p d o k l r n, of "''launchmon''" "\<lambda>_. quiet" "''c''"] by (elim exE conjE) (rule that)
  then show ?thesis by (intro exI [of _ s]) (simp add: ex_eo_def)
qed

text \<open>Whatever goes wrong with the paths, the process or the configuration, parsing
  the front end's command line returns, in time, with the front end's address in place and the error
  marked, so the engine can still answer; it prints nothing and does not exit.\<close>

theorem parse_errors_kept:
  assumes "oe_getenv e ''PATH'' = Some pth" and "length (eo_tool_daemon_opts eo) < 2 ^ 31"
    and "launcher_ok e (eo_attach eo) (eo_launcher_pid eo) (eo_debugtarget eo)" and "7 \<le> fuel"
  shows "\<exists>s. process_args e fuel (prog # lmon_opt_args eo) lv (opts_args0 cr) = (Inr (\<not> has_parse_error (opts s)), s) \<and>
    remote (my_opt (opts s)) \<and> remote_info (my_opt (opts s)) = eo_remote_info eo \<and>
    lmon_sec_info (my_opt (opts s)) = eo_sec_info eo \<and> printed s = [] \<and>
    (has_parse_error (opts s) \<longleftrightarrow> \<not> (fst (found_in e pth (eo_tool_daemon eo)) \<and>
       fst (launcher_at e pth (eo_attach eo) (eo_launcher_pid eo) (eo_debugtarget eo)) \<and> fst (rc_of e)))"
proof -
  obtain okd d okl l where "found_in e pth (eo_tool_daemon eo) = (okd, d)"
    "launcher_at e pth (eo_attach eo) (eo_launcher_pid eo) (eo_debugtarget eo) = (okl, l)"
    by (metis surj_pair)
  with run_process_args [OF assms(1) this(1) assms(2,3) this(2) assms(4), of prog lv cr] show ?thesis
    by (elim exE conjE) (auto simp: loop_opts_def launcher_opts_def Let_def)
qed

lemma parse_errors_kept_witness:
  "\<exists>s. process_args (ex_opt_env\<lparr>oe_stat := \<lambda>p. False\<rparr>) 7 (''launchmon'' # lmon_opt_args ex_eo) (\<lambda>_. quiet) (opts_args0 ''c'') = (Inr False, s) \<and>
    has_parse_error (opts s) \<and> remote_info (my_opt (opts s)) = ''10.0.0.1:4711''"
proof -
  let ?e = "ex_opt_env\<lparr>oe_stat := \<lambda>p. False\<rparr>"
  have p: "oe_getenv ?e ''PATH'' = Some ''/usr/bin:/opt/tool''" by (simp add: ex_opt_env_def)
  have o: "length (eo_tool_daemon_opts ex_eo) < 2 ^ 31" by (simp add: ex_eo_def)
  have k: "launcher_ok ?e (eo_attach ex_eo) (eo_launcher_pid ex_eo) (eo_debugtarget ex_eo)"
    by (simp add: launcher_ok_def ex_eo_def)
  have n: "7 \<le> (7::nat)" by simp
  have d: "\<not> fst (found_in ?e ''/usr/bin:/opt/tool'' (eo_tool_daemon ex_eo))" by (simp add: found_in_def ex_eo_def)
  show ?thesis using parse_errors_kept [OF p o k n, of "''launchmon''" "\<lambda>_. quiet" "''c''"] d
    by (elim exE conjE) (auto simp: ex_eo_def)
qed

text \<open>A count below -1 takes the loop back: it never ends, whatever the bound.\<close>

lemma negative_count_loops:
  assumes "argi s = 1" and "args s = [prog, ''--daemonopts'', ''-2'']" and "\<not> fin_parsing s"
  shows "parse_loop e n s = (Inl No_return, s)"
  using assms
proof (induction n)
  case 0
  then show ?case by (simp add: throw_def)
next
  case (Suc n)
  have a: "at s [''--daemonopts'', ''-2'']" unfolding at_def using Suc.prems by (intro conjI exI [of _ "[prog]"]) auto
  have "''-2'' = show_int (-2)" by code_simp
  then have "atoi ''-2'' = -2" using atoi_show_int [of "-2"] by simp
  then have "opt_t s = (Inr (), s\<lparr>argi := 0\<rparr>)"
    using at_operand [of s "''--daemonopts''" "''-2''" "[]"] a Suc.prems
    by (simp add: opt_t_def act_simps advance_def)
  moreover have q: "s\<lparr>argi := 1\<rparr> = s" using Suc.prems by simp
  have "parse_loop e n (s\<lparr>argi := 1\<rparr>) = (Inl No_return, s)" unfolding q using Suc.IH Suc.prems by blast
  ultimately show ?case
    by (subst at_turn [OF a]) (simp add: parse_option_def bindA_def advance_def modA_def)
qed

end
