(* ===== verification/Engine_Start.thy ===== *)
theory Engine_Start
  imports Engine_Driver Opt_Parse Fe_End
begin

text \<open>
  The start of a session seen from both sides: the engine parses what the front end wrote,
  connects to where the front end listens and answers, and the front end takes the answer.
  Then the invariants of the event loop are those of the whole run.
\<close>

section \<open>The address\<close>

lemma strtoks_end: "d \<notin> set xs \<Longrightarrow> strtoks d acc xs = (if acc @ xs = [] then [] else [acc @ xs])"
  by (induction xs arbitrary: acc) auto

lemma strtoks_word:
  "d \<notin> set xs \<Longrightarrow> acc @ xs \<noteq> [] \<Longrightarrow> strtoks d acc (xs @ d # ys) = (acc @ xs) # strtoks d [] ys"
  by (induction xs arbitrary: acc) auto

lemma colon_not_shown: "CHR '':'' \<notin> set (show_nat n)"
proof
  assume "CHR '':'' \<in> set (show_nat n)"
  then obtain d where "digit_val (CHR '':'') = Some d" using show_nat_digits by blast
  then show False by (simp add: digit_val_def)
qed

definition address_of :: "fe_net \<Rightarrow> string \<Rightarrow> u32" where
  "address_of net ip = (case nt_pton net ip of Some a \<Rightarrow> a | None \<Rightarrow> nt_garbage net)"

lemma fe_address_shown:
  fixes port :: u16
  assumes "ip \<noteq> []" and "CHR '':'' \<notin> set ip"
  shows "fe_address net (ip @ '':'' @ show_int (uint port)) = Inr (address_of net ip, port)"
proof -
  have p: "uint port < 2 ^ 16" "0 \<le> uint port" using uint_lt2p [of port] by simp_all
  then have s: "show_int (uint port) = show_nat (nat (uint port))" by (simp add: show_int_def)
  have "show_nat (nat (uint port)) \<noteq> []" using show_nat_Cons [of "nat (uint port)"] by auto
  then have t: "strtoks CHR '':'' [] (ip @ '':'' @ show_int (uint port)) = [ip, show_int (uint port)]"
    using strtoks_word [of "CHR '':''" ip "[]" "show_int (uint port)"] assms strtoks_end [OF colon_not_shown, of "[]" "nat (uint port)"]
    by (simp add: s)
  have t: "strtoks CHR '':'' [] (ip @ CHR '':'' # show_int (uint port)) = [ip, show_int (uint port)]" using t by simp
  have "atoi (show_int (uint port)) = uint port" by (rule atoi_show_int) (use p in \<open>simp_all add: order_trans [OF _ p(2)]\<close>)
  then show ?thesis by (simp add: fe_address_def t address_of_def)
qed

section \<open>The answer\<close>

lemma e_say_run:
  assumes "API_mode s" and "kernel_takes (fe_writes s) (28 # ns)"
  shows "\<exists>ks. e_say ty s = (Inr LAUNCHMON_OK, s\<lparr>fe_sent := fe_sent s @ engine_says ty, fe_writes := ks\<rparr>) \<and> kernel_takes ks ns"
proof -
  obtain ks where k: "write_lmonp_long_msg (fe_writes s) (engine_says ty) 28 = Some (28, engine_says ty, ks)" "kernel_takes ks ns"
    using kernel_write [OF _ engine_hdr_wf, of "fe_writes s" ns ty] assms(2) by (auto simp: engine_says_def)
  have "say_fetofe_msg True ty (fe_writes s) = Some (LAUNCHMON_OK, engine_says ty, ks)"
    unfolding say_fetofe_msg_def Let_def engine_says_said [symmetric] using k(1) by (simp add: lmonp_size_def)
  then show ?thesis using assms(1) k(2)
    by (intro exI [of _ ks]) (simp add: e_say_def sent_def bindA_def modA_def ret_def)
qed

definition connects :: "fe_net \<Rightarrow> string \<Rightarrow> u16 \<Rightarrow> bool" where
  "connects net ip port \<longleftrightarrow> nt_socket net \<and> nt_keepalive net \<and> nt_connect net (address_of net ip) port"

lemma init_API_run:
  assumes "remote (my_opt opt)" and "remote_info (my_opt opt) = ip @ '':'' @ show_int (uint port)"
    and "ip \<noteq> []" "CHR '':'' \<notin> set ip" and "connects net ip port" and "kernel_takes (fe_writes s) (28 # ns)"
  shows "\<exists>ks. kernel_takes ks ns \<and> init_API net opt s =
    (Inr (if has_parse_error opt then LAUNCHMON_FAILED else LAUNCHMON_OK), s\<lparr>API_mode := True, fe_sent := fe_sent s @
       engine_says (if has_parse_error opt then lmonp_conn_ack_parse_error else lmonp_conn_ack_no_error), fe_writes := ks\<rparr>)"
proof -
  have a: "API_mode (s\<lparr>API_mode := True\<rparr>)" "kernel_takes (fe_writes (s\<lparr>API_mode := True\<rparr>)) (28 # ns)"
    using assms(6) by simp_all
  obtain ks where k: "e_say (if has_parse_error opt then lmonp_conn_ack_parse_error else lmonp_conn_ack_no_error) (s\<lparr>API_mode := True\<rparr>) =
      (Inr LAUNCHMON_OK, (s\<lparr>API_mode := True\<rparr>)\<lparr>fe_sent := fe_sent (s\<lparr>API_mode := True\<rparr>) @
         engine_says (if has_parse_error opt then lmonp_conn_ack_parse_error else lmonp_conn_ack_no_error), fe_writes := ks\<rparr>)"
      "kernel_takes ks ns"
    using e_say_run [OF a] by blast
  have r: "fe_address net (remote_info (my_opt opt)) = Inr (address_of net ip, port)"
    unfolding assms(2) by (rule fe_address_shown [OF assms(3,4)])
  show ?thesis using assms(1,5) k
    by (intro exI [of _ ks], cases "has_parse_error opt")
      (simp_all add: init_API_def r connects_def bindA_def modA_def ret_def)
qed

section \<open>Parse errors\<close>

lemma drive_engine_refused:
  assumes "remote (my_opt opt)" and "remote_info (my_opt opt) = ip @ '':'' @ show_int (uint port)"
    and "ip \<noteq> []" "CHR '':'' \<notin> set ip" and "connects (d_net d) ip port" and "kernel_takes (fe_writes s) (28 # ns)"
    and "has_parse_error opt"
  shows "\<exists>ks. drive_engine d fuel opt s =
    (Inr SDBG_DRIVER_FAILED, s\<lparr>API_mode := True, fe_sent := fe_sent s @ engine_says lmonp_conn_ack_parse_error, fe_writes := ks\<rparr>)"
proof -
  obtain ks where "init_API (d_net d) opt s = (Inr LAUNCHMON_FAILED,
      s\<lparr>API_mode := True, fe_sent := fe_sent s @ engine_says lmonp_conn_ack_parse_error, fe_writes := ks\<rparr>)"
    using init_API_run [OF assms(1-6)] assms(7) by auto
  then show ?thesis
    by (intro exI [of _ ks]) (simp add: drive_engine_def launchmon_init_def catchA_def bindA_def ret_def)
qed

lemma accept_refused:
  assumes "accept_on fe_engine_conn fe_engine_conn_update (fe_timeout y ''LMON_FE_ENGINE_TIMEOUT'') (sy_accept_engine y) fs = (Inr (Inr ()), fs')"
    and "en_serves fs' (engine_says lmonp_conn_ack_parse_error # ins) outs" and "\<And>k. length (junk k) = k"
  shows "\<exists>u. fe_acceptEngine y junk fs = (Inr (Inl LMON_EINVAL), u)"
proof -
  obtain l where "en_read_hdr (junk lmonp_size) fs' = (Inr (28, engine_says lmonp_conn_ack_parse_error), on_en l fs')"
    using en_read_says [OF assms(2), of "junk lmonp_size"] assms(3) by (auto simp: lmonp_size_def)
  then show ?thesis
    by (simp add: fe_acceptEngine_def stepA_def bindA_def assms(1) ret_def)
qed

text \<open>C21: (error) A command line the engine cannot use is answered, not lost: when a path, the
  process or the configuration is wrong, the engine connects to the address the front end gave,
  sends the one message \<open>lmonp_conn_ack_parse_error\<close> and fails, without a process or any other effect;
  a front end that reads this message returns \<open>LMON_EINVAL\<close> from \<open>fe_acceptEngine\<close>.\<close>

theorem parse_error_reported:
  assumes "oe_getenv e ''PATH'' = Some pth" and "length (eo_tool_daemon_opts eo) < 2 ^ 31"
    and "launcher_ok e (eo_attach eo) (eo_launcher_pid eo) (eo_debugtarget eo)" and "7 \<le> turns"
    and "\<not> (fst (found_in e pth (eo_tool_daemon eo)) \<and>
       fst (launcher_at e pth (eo_attach eo) (eo_launcher_pid eo) (eo_debugtarget eo)) \<and> fst (rc_of e))"
    and "eo_remote_info eo = ip @ '':'' @ show_int (uint port)" and "ip \<noteq> []" "CHR '':'' \<notin> set ip"
    and "connects (d_net d) ip port" and "kernel_takes (fe_writes s) (28 # ns)"
  shows "(\<exists>ks. driver_main e turns cr d fuel (prog # lmon_opt_args eo) s =
      (Inr 1, s\<lparr>API_mode := True, fe_sent := fe_sent s @ engine_says lmonp_conn_ack_parse_error, fe_writes := ks\<rparr>)) \<and>
    (\<forall>y junk fs fs' ins outs. (\<forall>k. length (junk k) = k) \<longrightarrow> en_serves fs' (engine_says lmonp_conn_ack_parse_error # ins) outs \<longrightarrow>
       accept_on fe_engine_conn fe_engine_conn_update (fe_timeout y ''LMON_FE_ENGINE_TIMEOUT'') (sy_accept_engine y) fs = (Inr (Inr ()), fs') \<longrightarrow>
       fst (fe_acceptEngine y junk (fs :: 'u fe_session)) = Inr (Inl LMON_EINVAL))"
proof -
  obtain ps where ps: "process_args e turns (prog # lmon_opt_args eo) (\<lambda>_. quiet) (opts_args0 cr) = (Inr (\<not> has_parse_error (opts ps)), ps)"
    "remote (my_opt (opts ps))" "remote_info (my_opt (opts ps)) = eo_remote_info eo" "has_parse_error (opts ps)"
    using parse_errors_kept [OF assms(1-4), of prog "\<lambda>_. quiet" cr] assms(5) by blast
  obtain ks where "drive_engine d fuel (opts ps) s =
    (Inr SDBG_DRIVER_FAILED, s\<lparr>API_mode := True, fe_sent := fe_sent s @ engine_says lmonp_conn_ack_parse_error, fe_writes := ks\<rparr>)"
    using drive_engine_refused [OF ps(2) _ assms(7-10) ps(4)] ps(3) assms(6) by auto
  then have "driver_main e turns cr d fuel (prog # lmon_opt_args eo) s =
      (Inr 1, s\<lparr>API_mode := True, fe_sent := fe_sent s @ engine_says lmonp_conn_ack_parse_error, fe_writes := ks\<rparr>)"
    by (simp add: driver_main_def drive_def ps(1) bindA_def ret_def)
  moreover have "fst (fe_acceptEngine y junk fs) = Inr (Inl LMON_EINVAL)"
    if "\<forall>k. length (junk k) = k" and "en_serves fs' (engine_says lmonp_conn_ack_parse_error # ins) outs"
      and "accept_on fe_engine_conn fe_engine_conn_update (fe_timeout y ''LMON_FE_ENGINE_TIMEOUT'') (sy_accept_engine y) fs = (Inr (Inr ()), fs')"
    for y junk and fs fs' :: "'u fe_session" and ins outs
  proof -
    have "\<And>k. length (junk k) = k" using that(1) by blast
    then show ?thesis using accept_refused [OF that(3,2), of junk] by auto
  qed
  ultimately show ?thesis by blast
qed

definition ex_net :: fe_net where
  "ex_net = \<lparr>nt_pton = (\<lambda>h. if h = ''10.0.0.1'' then Some 0x0A000001 else None), nt_garbage = 0, nt_socket = True,
     nt_keepalive = True, nt_connect = (\<lambda>a p. a = 0x0A000001 \<and> p = 4711)\<rparr>"

definition ex_driver :: "int \<Rightarrow> driver_env" where
  "ex_driver child = \<lparr>d_net = ex_net, d_files = ex_files, d_links = 3, d_fork = child, d_exec_fails = False,
     RM_BE_STUB_CMD = None, RM_FE_COLOC_CMD = None\<rparr>"

lemma ex_address: "eo_remote_info ex_eo = ''10.0.0.1'' @ '':'' @ show_int (uint (4711 :: u16))"
proof -
  have "(char_of (52 :: nat) :: char) = CHR ''4''" "(char_of (55 :: nat) :: char) = CHR ''7''" "(char_of (49 :: nat) :: char) = CHR ''1''"
    by code_simp+
  then have "show_int 4711 = ''4711''" by (simp add: show_int_def show_nat.simps)
  then show ?thesis by (simp add: ex_eo_def)
qed

lemma ex_connects: "connects (d_net (ex_driver child)) ''10.0.0.1'' 4711"
  by (simp add: connects_def ex_driver_def ex_net_def address_of_def)

lemma demo_takes: "kernel_takes (fe_writes demo_engine) (28 # [])"
proof -
  have "fe_writes demo_engine = map Wrote [28]" by (simp add: demo_engine_def engine.defs machine.defs)
  then show ?thesis using takes_prompt [of "[28]"] by simp
qed

lemma parse_error_reported_witness:
  "(\<exists>t. driver_main (ex_opt_env\<lparr>oe_stat := \<lambda>p. False\<rparr>) 7 ''c'' (ex_driver 42) 3 (''launchmon'' # lmon_opt_args ex_eo) demo_engine = (Inr 1, t) \<and>
      fe_sent t = engine_says lmonp_conn_ack_parse_error \<and> effects t = effects demo_engine) \<and>
   fst (fe_acceptEngine (demo_sys\<lparr>sy_accept_engine := (1, [Conn 4])\<rparr>) (\<lambda>k. replicate k 0)
     (demo_session no_link \<lparr>lk_reads = map Data [engine_says lmonp_conn_ack_parse_error], lk_writes = [], lk_sent = []\<rparr>)) = Inr (Inl LMON_EINVAL)"
proof -
  let ?e = "ex_opt_env\<lparr>oe_stat := \<lambda>p. False\<rparr>" and ?j = "\<lambda>k. replicate k (0 :: byte)"
  let ?y = "demo_sys\<lparr>sy_accept_engine := (1, [Conn 4])\<rparr>"
  let ?m = "engine_says lmonp_conn_ack_parse_error"
  let ?fs = "demo_session no_link \<lparr>lk_reads = map Data [?m], lk_writes = [], lk_sent = []\<rparr>"
  have p: "oe_getenv ?e ''PATH'' = Some ''/usr/bin:/opt/tool''" by (simp add: ex_opt_env_def)
  have o: "length (eo_tool_daemon_opts ex_eo) < 2 ^ 31" by (simp add: ex_eo_def)
  have k: "launcher_ok ?e (eo_attach ex_eo) (eo_launcher_pid ex_eo) (eo_debugtarget ex_eo)"
    by (simp add: launcher_ok_def ex_eo_def)
  have n: "7 \<le> (7::nat)" by simp
  have d: "\<not> (fst (found_in ?e ''/usr/bin:/opt/tool'' (eo_tool_daemon ex_eo)) \<and>
       fst (launcher_at ?e ''/usr/bin:/opt/tool'' (eo_attach ex_eo) (eo_launcher_pid ex_eo) (eo_debugtarget ex_eo)) \<and> fst (rc_of ?e))"
    by (simp add: found_in_def ex_eo_def)
  have ip: "''10.0.0.1'' \<noteq> []" "CHR '':'' \<notin> set ''10.0.0.1''" by simp_all
  note T = parse_error_reported [where ?'u = unit and prog = "''launchmon''" and cr = "''c''" and fuel = 3 and d = "ex_driver 42",
    OF p o k n d ex_address ip ex_connects demo_takes]
  have ne: "\<forall>b \<in> set [?m]. b \<noteq> []" by (simp add: engine_says_def flip: length_greater_0_conv)
  have s: "en_serves ?fs (?m # []) []" using offers_prompt [OF ne] takes_prompt [of "[]"]
    by (simp add: en_serves_def ready_def demo_session_def demo_desc_def open_desc_def)
  have ac: "accept_on fe_engine_conn fe_engine_conn_update (fe_timeout ?y ''LMON_FE_ENGINE_TIMEOUT'') (sy_accept_engine ?y) ?fs = (Inr (Inr ()), ?fs)"
    by (simp add: accept_on_def fe_timeout_def demo_sys_def lmon_timedaccept_def DFLT_FE_TOUT_def ret_def demo_session_def demo_desc_def)
  have j: "length (?j k) = k" for k by simp
  have f: "fst (fe_acceptEngine ?y ?j ?fs) = Inr (Inl LMON_EINVAL)"
    by (rule conjunct2 [OF T, rule_format, OF j s ac])
  have es: "fe_sent demo_engine = []" by (simp add: demo_engine_def engine.defs machine.defs)
  obtain ks where r: "driver_main ?e 7 ''c'' (ex_driver 42) 3 (''launchmon'' # lmon_opt_args ex_eo) demo_engine =
      (Inr 1, demo_engine\<lparr>API_mode := True, fe_sent := fe_sent demo_engine @ ?m, fe_writes := ks\<rparr>)"
    using conjunct1 [OF T] by blast
  show ?thesis using r f es by simp
qed

section \<open>The start of the launcher\<close>

text \<open>The process of the launcher as the engine sees it after the start.\<close>

definition started :: "int \<Rightarrow> engine \<Rightarrow> bool" where
  "started p s \<longleftrightarrow> map_keys (thrlist s) = [p] \<and> get_master_thread_pid s = p \<and> never_trapped s \<and>
     \<not> please_detach s \<and> \<not> please_kill s \<and> launch_hidden_bp s = None \<and> thread_ctx_stack s = []"

lemma created_started: "create_process fs links p mi = Inr proc \<Longrightarrow> started p (on_process proc s)"
  by (auto simp: create_process_def started_def on_process_def linux_x86_process0_def map_keys_def get_master_thread_pid_def
    split: sum.splits option.splits)

lemma extend_path_run: "\<exists>xs. extend_path s = (Inr (), s\<lparr>effects := effects s @ xs\<rparr>)"
  by (auto simp: extend_path_def do_effect_def modA_def ret_def Let_def split: option.split intro: exI [of _ "[]"])

lemma started_other [simp]:
  "started p (s\<lparr>effects := a\<rparr>) = started p s" "started p (s\<lparr>rmgr := b\<rparr>) = started p s" "started p (s\<lparr>myopts := c\<rparr>) = started p s"
  by (simp_all add: started_def get_master_thread_pid_def)

lemma seqA_two: "bindA (seqA [m, n]) f s = bindA m (\<lambda>_. bindA n f) s"
  by (simp add: bindA_def ret_def split: prod.split sum.split)

lemma drive_engine_accepted:
  assumes "remote (my_opt opt)" and "remote_info (my_opt opt) = ip @ '':'' @ show_int (uint port)"
    and "ip \<noteq> []" "CHR '':'' \<notin> set ip" and "connects (d_net d) ip port" and "kernel_takes (fe_writes s) (28 # ns)"
    and "\<not> has_parse_error opt"
  shows "\<exists>ks. kernel_takes ks ns \<and> drive_engine d fuel opt s = catchA SDBG_DRIVER_FAILED
    (bindA (launcher_pid_of d opt) (\<lambda>p.
       bindA (liftA (create_process (d_files d) (d_links d) p (debugtarget (my_opt opt)))) (\<lambda>proc.
       bindA (seqA [modA (on_process proc), extend_path]) (\<lambda>_.
       bindA (choose_rm d opt) (\<lambda>initc.
         if \<not> initc then ret SDBG_DRIVER_FAILED
         else bindA (seqA [set_myopts opt, whenA (attach (my_opt opt)) (ignA handle_attach_event), main_loop fuel])
                (\<lambda>_. ret SDBG_DRIVER_OK))))))
    (s\<lparr>API_mode := True, fe_sent := fe_sent s @ engine_says lmonp_conn_ack_no_error, fe_writes := ks\<rparr>)"
proof -
  obtain ks where k: "kernel_takes ks ns" and i: "init_API (d_net d) opt s = (Inr LAUNCHMON_OK,
      s\<lparr>API_mode := True, fe_sent := fe_sent s @ engine_says lmonp_conn_ack_no_error, fe_writes := ks\<rparr>)"
    using init_API_run [OF assms(1-6)] assms(7) by auto
  have l: "launchmon_init (d_net d) opt s = (Inr LAUNCHMON_OK,
      s\<lparr>API_mode := True, fe_sent := fe_sent s @ engine_says lmonp_conn_ack_no_error, fe_writes := ks\<rparr>)"
    using i by (simp add: launchmon_init_def)
  show ?thesis using k
    by (intro exI [of _ ks] conjI) (simp_all add: drive_engine_def catchA_def bindA_run [of "launchmon_init (d_net d) opt" s, OF l])
qed

lemma trace_me_run:
  "reliable s \<Longrightarrow> tracer_trace_me s =
     (Inr (), s\<lparr>krn := (krn s)\<lparr>kcount := Suc (kcount (krn s)), klog := klog (krn s) @ [(TRACEME, 0, 0, 0)]\<rparr>\<rparr>)"
  by (simp add: tracer_trace_me_def must_be_0_def Pptrace_def ksys_def reliable_def bindA_def ret_def)

lemma launcher_child:
  assumes "\<not> attach (my_opt opt)" and "d_fork d = 0" and "\<not> d_exec_fails d" and "tracer_trace_me s = (Inr (), t)"
  shows "launcher_pid_of d opt s = (Inl No_return, t\<lparr>effects := effects t @ [Spawn (debugtarget (my_opt opt) #
      (case remaining (my_opt opt) of None \<Rightarrow> [] | Some as \<Rightarrow> as))]\<rparr>)"
  using assms by (simp add: launcher_pid_of_def bindA_def do_effect_def modA_def throw_def)

text \<open>C20: (functional) A launch with good paths, seen from both sides of \<open>fork\<close>: the engine first
  answers \<open>lmonp_conn_ack_no_error\<close>; the child asks to be traced and becomes the launcher the user named,
  found in \<open>PATH\<close>, under the user's name and with the user's arguments; the parent enters the event
  loop with the child as the one thread of a process that was never trapped, the resource manager
  that matches and the user's secret.\<close>

theorem launch_starts_launcher:
  assumes "oe_getenv e ''PATH'' = Some pth" and "found_in e pth (eo_tool_daemon eo) = (True, td)"
    and "length (eo_tool_daemon_opts eo) < 2 ^ 31" and "\<not> eo_attach eo"
    and "eo_debugtarget eo = [] \<or> hd (eo_debugtarget eo) \<noteq> CHR ''-''" and "found_in e pth (eo_debugtarget eo) = (True, l)"
    and "rc_of e = (True, rc)" and "7 \<le> turns"
    and "eo_remote_info eo = ip @ '':'' @ show_int (uint port)" and "ip \<noteq> []" "CHR '':'' \<notin> set ip"
    and "connects (d_net d) ip port" and "kernel_takes (fe_writes s) (28 # ns)"
  shows "(d_fork d = 0 \<and> \<not> d_exec_fails d \<and> reliable s \<longrightarrow>
      (\<exists>u. drive e turns cr d fuel (prog # lmon_opt_args eo) s = (Inl No_return, u) \<and>
         fe_sent u = fe_sent s @ engine_says lmonp_conn_ack_no_error \<and>
         klog (krn u) = klog (krn s) @ [(TRACEME, 0, 0, 0)] \<and>
         effects u = effects s @ [Spawn (l # eo_debugtarget eo # tl (eo_remaining eo))])) \<and>
    (\<forall>proc c. d_fork d \<noteq> 0 \<and> create_process (d_files d) (d_links d) (d_fork d) l = Inr proc \<and>
      init_rm_instance (basename (case RM_FE_COLOC_CMD d of Some cmd \<Rightarrow> cmd | None \<Rightarrow> l)) td (eo_tool_daemon_opts eo)
        (has_symbol (myimage proc)) (has_symbol (myrmso_image proc)) (be_stub d (o_getenv (out s))) rc = (True, c) \<longrightarrow>
      (\<exists>t. drive e turns cr d fuel (prog # lmon_opt_args eo) s =
             catchA SDBG_DRIVER_FAILED (bindA (main_loop fuel) (\<lambda>_. ret SDBG_DRIVER_OK)) t \<and>
         started (d_fork d) t \<and> API_mode t \<and> fe_sent t = fe_sent s @ engine_says lmonp_conn_ack_no_error \<and>
         kernel_takes (fe_writes t) ns \<and> rmgr t = c \<and> opt_sec_info (myopts t) = eo_sec_info eo \<and> waits t = waits s))"
proof -
  have lk: "launcher_ok e (eo_attach eo) (eo_launcher_pid eo) (eo_debugtarget eo)"
    "launcher_at e pth (eo_attach eo) (eo_launcher_pid eo) (eo_debugtarget eo) = (True, l)"
    using assms(4-6) by (simp_all add: launcher_ok_def launcher_at_def)
  obtain ps where ps: "process_args e turns (prog # lmon_opt_args eo) (\<lambda>_. quiet) (opts_args0 cr) = (Inr (\<not> has_parse_error (opts ps)), ps)"
    and o: "my_opt (opts ps) = loop_opts True (eo_remote_info eo) (eo_sec_info eo) td (eo_tool_daemon_opts eo)
       (launcher_opts (eo_attach eo) (eo_launcher_pid eo) (eo_debugtarget eo) (tl (eo_remaining eo)) l) (my_opt (opts_args0 cr))"
    and rc: "my_rmconfig (opts ps) = snd (rc_of e)" and ok: "\<not> has_parse_error (opts ps)"
    using run_process_args [OF assms(1,2,3) lk assms(8), of prog "\<lambda>_. quiet" cr] assms(7) by (elim exE conjE) simp
  have m: "remote (my_opt (opts ps))" "remote_info (my_opt (opts ps)) = ip @ '':'' @ show_int (uint port)"
    "\<not> attach (my_opt (opts ps))" "debugtarget (my_opt (opts ps)) = l" "tool_daemon (my_opt (opts ps)) = td"
    "tool_daemon_opts (my_opt (opts ps)) = eo_tool_daemon_opts eo" "lmon_sec_info (my_opt (opts ps)) = eo_sec_info eo"
    "remaining (my_opt (opts ps)) = Some (eo_debugtarget eo # tl (eo_remaining eo))"
    using assms(4,9) by (simp_all add: o loop_opts_def launcher_opts_def opts_args0_def)
  have dr: "drive e turns cr d fuel (prog # lmon_opt_args eo) s = drive_engine d fuel (opts ps) s"
    by (simp add: drive_def ps)
  obtain ks where k: "kernel_takes ks ns" and de: "drive_engine d fuel (opts ps) s = catchA SDBG_DRIVER_FAILED
    (bindA (launcher_pid_of d (opts ps)) (\<lambda>p.
       bindA (liftA (create_process (d_files d) (d_links d) p (debugtarget (my_opt (opts ps))))) (\<lambda>proc.
       bindA (seqA [modA (on_process proc), extend_path]) (\<lambda>_.
       bindA (choose_rm d (opts ps)) (\<lambda>initc.
         if \<not> initc then ret SDBG_DRIVER_FAILED
         else bindA (seqA [set_myopts (opts ps), whenA (attach (my_opt (opts ps))) (ignA handle_attach_event), main_loop fuel])
                (\<lambda>_. ret SDBG_DRIVER_OK))))))
    (s\<lparr>API_mode := True, fe_sent := fe_sent s @ engine_says lmonp_conn_ack_no_error, fe_writes := ks\<rparr>)"
    using drive_engine_accepted [OF m(1,2) assms(10-13) ok] by blast
  let ?s1 = "s\<lparr>API_mode := True, fe_sent := fe_sent s @ engine_says lmonp_conn_ack_no_error, fe_writes := ks\<rparr>"
  show ?thesis
  proof (intro conjI impI allI)
    assume c: "d_fork d = 0 \<and> \<not> d_exec_fails d \<and> reliable s"
    let ?t = "?s1\<lparr>krn := (krn ?s1)\<lparr>kcount := Suc (kcount (krn ?s1)), klog := klog (krn ?s1) @ [(TRACEME, 0, 0, 0)]\<rparr>\<rparr>"
    have "reliable ?s1" using c by (simp add: reliable_def)
    then have "tracer_trace_me ?s1 = (Inr (), ?t)" by (rule trace_me_run)
    then have "launcher_pid_of d (opts ps) ?s1 = (Inl No_return, ?t\<lparr>effects := effects ?t @ [Spawn (l # eo_debugtarget eo # tl (eo_remaining eo))]\<rparr>)"
      using launcher_child [of "opts ps" d ?s1 ?t] c m by simp
    then show "\<exists>u. drive e turns cr d fuel (prog # lmon_opt_args eo) s = (Inl No_return, u) \<and>
         fe_sent u = fe_sent s @ engine_says lmonp_conn_ack_no_error \<and>
         klog (krn u) = klog (krn s) @ [(TRACEME, 0, 0, 0)] \<and>
         effects u = effects s @ [Spawn (l # eo_debugtarget eo # tl (eo_remaining eo))]"
      unfolding dr de by (simp add: catchA_def bindA_def)
  next
    fix proc c
    assume a: "d_fork d \<noteq> 0 \<and> create_process (d_files d) (d_links d) (d_fork d) l = Inr proc \<and>
      init_rm_instance (basename (case RM_FE_COLOC_CMD d of Some cmd \<Rightarrow> cmd | None \<Rightarrow> l)) td (eo_tool_daemon_opts eo)
        (has_symbol (myimage proc)) (has_symbol (myrmso_image proc)) (be_stub d (o_getenv (out s))) rc = (True, c)"
    let ?s2 = "on_process proc ?s1"
    obtain xs where x: "extend_path ?s2 = (Inr (), ?s2\<lparr>effects := effects ?s2 @ xs\<rparr>)" using extend_path_run by blast
    let ?s3 = "?s2\<lparr>effects := effects ?s2 @ xs\<rparr>"
    have lp: "launcher_pid_of d (opts ps) ?s1 = (Inr (d_fork d), ?s1)" using a m(3) by (simp add: launcher_pid_of_def ret_def)
    have cp: "liftA (create_process (d_files d) (d_links d) (d_fork d) (debugtarget (my_opt (opts ps)))) ?s1 = (Inr proc, ?s1)"
      using a m(4) by (simp add: liftA_def ret_def)
    have i: "myimage ?s3 = myimage proc" "myrmso_image ?s3 = myrmso_image proc" "out ?s3 = out s"
      by (simp_all add: on_process_def)
    have ch: "choose_rm d (opts ps) ?s3 = (Inr True, ?s3\<lparr>rmgr := c\<rparr>)"
      using a assms(7) unfolding choose_rm_def Let_def m(4-6) rc i by (simp add: ret_def)
    let ?mo = "\<lparr>opt_attach = attach (my_opt (opts ps)), opt_debugtarget = l, opt_envMap = [], opt_sec_info = eo_sec_info eo\<rparr>"
    let ?t = "?s3\<lparr>rmgr := c, myopts := ?mo\<rparr>"
    have so: "set_myopts (opts ps) (?s3\<lparr>rmgr := c\<rparr>) = (Inr (), ?t)" by (simp add: set_myopts_def modA_def m(4,7))
    have "drive e turns cr d fuel (prog # lmon_opt_args eo) s = catchA SDBG_DRIVER_FAILED (bindA (main_loop fuel) (\<lambda>_. ret SDBG_DRIVER_OK)) ?t"
      unfolding dr de catchA_def
      by (simp add: bindA_def lp cp modA_def x ch so m(3) whenA_def ret_def split: prod.split sum.split)
    moreover have "started (d_fork d) ?t" using created_started [of "d_files d" "d_links d" "d_fork d" l proc] a by simp
    ultimately show "\<exists>t. drive e turns cr d fuel (prog # lmon_opt_args eo) s =
             catchA SDBG_DRIVER_FAILED (bindA (main_loop fuel) (\<lambda>_. ret SDBG_DRIVER_OK)) t \<and>
         started (d_fork d) t \<and> API_mode t \<and> fe_sent t = fe_sent s @ engine_says lmonp_conn_ack_no_error \<and>
         kernel_takes (fe_writes t) ns \<and> rmgr t = c \<and> opt_sec_info (myopts t) = eo_sec_info eo \<and> waits t = waits s"
      using k by (intro exI [of _ ?t]) (simp add: on_process_def)
  qed
qed


text \<open>A launcher with its loader, and a configuration that knows it by its name and a symbol.\<close>

definition ex_launcher :: elf_file where
  "ex_launcher = \<lparr>elf_scns =
      [\<lparr>scn_hdr = Some \<lparr>sh_name = 19, sh_type = SHT_SYMTAB, sh_addr = 0, sh_link = 2\<rparr>,
        scn_data = Some (concat (map enc_sym [\<lparr>st_name = 1, st_info = 0x12, st_other = 0, st_shndx = 14, st_value = 0x1139, st_size = 7\<rparr>]))\<rparr>,
       \<lparr>scn_hdr = Some \<lparr>sh_name = 0, sh_type = SHT_STRTAB, sh_addr = 0, sh_link = 0\<rparr>,
        scn_data = Some (cstr ''.shstrtab'' @ cstr ''.interp'')\<rparr>,
       \<lparr>scn_hdr = Some \<lparr>sh_name = 10, sh_type = SHT_PROGBITS, sh_addr = 0x400238, sh_link = 0\<rparr>,
        scn_data = Some (cstr ''/lib64/ld.so'')\<rparr>],
    elf_strptr = (\<lambda>l n. if l = 2 \<and> n = 1 then Some ''MPIR_Breakpoint'' else None)\<rparr>"

lemma eq_at_self: "eq_at xs (xs @ ys) = Some True"
  by (induction xs) auto

lemma strcmp_at_here: "length pre = unat off \<Longrightarrow> strcmp_at lit (pre @ cstr lit @ ys) off = Some True"
  by (simp add: strcmp_at_def eq_at_self)

lemma ex_shstrtab: "strcmp_at ''.shstrtab'' (cstr ''.shstrtab'' @ cstr ''.interp'') 0 = Some True"
  "strcmp_at ''.interp'' (cstr ''.shstrtab'' @ cstr ''.interp'') 10 = Some True"
  using strcmp_at_here [of "[]" 0 "''.shstrtab''" "cstr ''.interp''"] strcmp_at_here [of "cstr ''.shstrtab''" 10 "''.interp''" "[]"]
  by simp_all

lemma ex_interp: "read_cstr (cstr ''/lib64/ld.so'') 0 = Some ''/lib64/ld.so''"
  using read_cstr_cstr [of "''/lib64/ld.so''" "[]" "[]"] by (simp add: nul_free_def)

lemma cstr_ne [simp]: "cstr x \<noteq> []" by (simp add: cstr_def)

definition ex_disk :: files where
  "ex_disk = \<lparr>fs_stat = (\<lambda>p. True), fs_lstat = (\<lambda>p. if p = ''/lib64/ld.so'' then Some Regular else None),
     fs_readlink = (\<lambda>p. None), fs_elf = (\<lambda>p. Some ex_launcher)\<rparr>"

lemma ex_dso: "fetch_DSO_info ex_disk n ex_launcher = Inr (''/lib64/ld.so'', True)"
  by (simp add: fetch_DSO_info_def ex_launcher_def SHT_SYMTAB_def SHT_STRTAB_def SHT_PROGBITS_def ex_shstrtab ex_interp
      take_interp_def ex_disk_def)

lemma ex_reads: "\<exists>tab. read_linkage_symbols ex_launcher im = Inr (im\<lparr>linkage_symtab := tab\<rparr>) \<and>
   tab = add_sym (elf_strptr ex_launcher 2) (base_image_name im)
     \<lparr>st_name = 1, st_info = 0x12, st_other = 0, st_shndx = 14, st_value = 0x1139, st_size = 7\<rparr> (linkage_symtab im)"
  using read_syms_enc [of "elf_strptr ex_launcher 2" "base_image_name im"
      "[\<lparr>st_name = 1, st_info = 0x12, st_other = 0, st_shndx = 14, st_value = 0x1139, st_size = 7\<rparr>]" "linkage_symtab im"]
  by (simp add: read_linkage_symbols_def ex_launcher_def SHT_SYMTAB_def flip: length_greater_0_conv) (simp add: SYM_SIZE_def)

lemma ex_created:
  "\<exists>proc im. create_process ex_disk 3 42 ''/usr/bin/srun'' = Inr proc \<and> myimage proc = Some im \<and>
     myrmso_image proc = Some image_base0 \<and> \<not> sym_null (get_a_symbol im ''MPIR_Breakpoint'')"
proof -
  let ?i = "image_base1 ''/usr/bin/srun''"
  let ?tab = "add_sym (elf_strptr ex_launcher 2) (base_image_name ?i)
     \<lparr>st_name = 1, st_info = 0x12, st_other = 0, st_shndx = 14, st_value = 0x1139, st_size = 7\<rparr> (linkage_symtab ?i)"
  have bn: "basename ''/usr/bin/srun'' = ''srun''" "basename ''/lib64/ld.so'' = ''ld.so''" by (simp_all add: basename_def)
  have m: "load_main ex_disk ''/usr/bin/srun'' = Inr (?i\<lparr>linkage_symtab := ?tab\<rparr>, ex_launcher)"
    using ex_reads [of ?i] bn
    by (auto simp: load_main_def image_init_def image_base1_def elf_wrapper_init_def ex_disk_def SYMTAB_UNINIT_STRING_def)
  have l: "\<exists>dl. load_image ex_disk ''/lib64/ld.so'' image_base0 = Inr dl"
    using ex_reads [of "image_base0\<lparr>image_path := ''/lib64/ld.so'', base_image_name := basename ''/lib64/ld.so''\<rparr>"] bn
    by (auto simp: load_image_def image_init_def elf_wrapper_init_def ex_disk_def SYMTAB_UNINIT_STRING_def Let_def)
  then obtain dl where dl: "load_image ex_disk ''/lib64/ld.so'' image_base0 = Inr dl" by blast
  have "basic_init ex_disk 3 ''/usr/bin/srun'' = Inr (Some (?i\<lparr>linkage_symtab := ?tab\<rparr>, dl))"
    using m dl ex_dso [of 3] by (simp add: basic_init_def protected_init_def no_symtab_exn_def) (simp add: ex_disk_def)
  moreover have "linkage_symtab ?i = []" by (simp add: image_base1_def image_base0_def)
  then have "\<not> sym_null (get_a_symbol (?i\<lparr>linkage_symtab := ?tab\<rparr>) ''MPIR_Breakpoint'')"
    by (simp add: add_sym_def ex_launcher_def map_insert_def get_a_symbol_def truncate_linkage_symbol sym_null_def SYMTAB_UNINIT_STRING_def)
  ultimately show ?thesis by (simp add: create_process_def linux_x86_process0_def)
qed

definition ex_conf :: "string list" where
  "ex_conf = [''RM=slurm'', ''RM_launcher=srun'', ''RM_launcher_id=RM_launcher|sym|MPIR_Breakpoint|string'']"

definition ex_launch_env :: opt_env where
  "ex_launch_env = ex_opt_env\<lparr>oe_files := \<lambda>f. if f = ''/usr/etc/rm_slurm.conf'' then Some (unlines ex_conf) else oe_files ex_opt_env f\<rparr>"

lemma ex_conf_filled:
  "\<exists>r. snd (parse_and_fill_rm (\<lambda>p. False) None (Some (unlines ex_conf)) resource_manager0) = r \<and> launchers r = [''srun''] \<and>
    launcher_ids r = [\<lparr>id_from = from_launcher, id_method = by_symbol, id_dtype = cstring, id_val = Symbol_name ''MPIR_Breakpoint''\<rparr>]"
proof -
  have l: "conf_lines (unlines ex_conf) = ex_conf" by (rule conf_lines_unlines) (simp add: ex_conf_def line_ok_def PATH_MAX_def)
  have p: "parse_lines ex_conf [] False = ([(''RM'', [''slurm'']), (''RM_launcher'', [''srun'']),
      (''RM_launcher_id'', [''RM_launcher|sym|MPIR_Breakpoint|string''])], False)"
    by code_simp
  have f: "fill_id rm_id0 ''RM_launcher|sym|MPIR_Breakpoint|string'' =
     \<lparr>id_from = from_launcher, id_method = by_symbol, id_dtype = cstring, id_val = Symbol_name ''MPIR_Breakpoint''\<rparr>"
    using fill_id_parsed [of "''RM_launcher''" "''sym''" "''MPIR_Breakpoint''" rm_id0 "''string''"]
    by (simp add: rm_id0_def)
  show ?thesis
    by (simp add: parse_and_fill_rm_def l p fill_rm_def with_key_def fill_launchers_def fill_launcher_id_def f)
      (simp add: fill_rm_type_def resource_manager0_def Let_def)
qed

lemma ex_launch_rc: "\<exists>rc r. rc_of ex_launch_env = (True, rc) \<and> supported_rms rc = [r] \<and> launchers r = [''srun''] \<and>
    launcher_ids r = [\<lparr>id_from = from_launcher, id_method = by_symbol, id_dtype = cstring, id_val = Symbol_name ''MPIR_Breakpoint''\<rparr>]"
proof -
  have "read_supported_rm_confs ''linux-x86_64'' (Some (unlines ([] @ (CHR ''['' # ''linux-x86_64'' @ CHR '']'' # []) #
      [''rm_slurm.conf''] @ []))) [] = ([''rm_slurm.conf''] \<noteq> [], [] @ [''rm_slurm.conf''])"
    by (rule supported_confs_section [where tail = "[]"]) (simp_all add: line_ok_def PATH_MAX_def char0_def not_header_def)
  then have "rc_of ex_launch_env = (True, rc_rm0\<lparr>supported_rms := [snd (parse_and_fill_rm (\<lambda>p. False) None (Some (unlines ex_conf)) resource_manager0)]\<rparr>)"
    by (simp add: rc_of_def rc_init_def ex_launch_env_def ex_opt_env_def rc_rm0_def)
  then show ?thesis using ex_conf_filled by auto
qed

lemma ex_matches:
  assumes "supported_rms rc = [r]" and "launchers r = [''srun'']"
    and "launcher_ids r = [\<lparr>id_from = from_launcher, id_method = by_symbol, id_dtype = cstring, id_val = Symbol_name ''MPIR_Breakpoint''\<rparr>]"
    and "\<not> sym_null (get_a_symbol im ''MPIR_Breakpoint'')"
  shows "\<exists>c. init_rm_instance (basename ''/usr/bin/srun'') td os (has_symbol (Some im)) so stub rc = (True, c)"
  using assms by (simp add: init_rm_instance_def has_matching_signiture_def id_matches_def has_symbol_def basename_def Let_def)

lemma launch_starts_launcher_witness:
  "(\<exists>u. drive ex_launch_env 7 ''c'' ((ex_driver 0)\<lparr>d_files := ex_disk\<rparr>) 3 (''launchmon'' # lmon_opt_args ex_eo) demo_engine = (Inl No_return, u) \<and>
      effects u = effects demo_engine @ [Spawn [''/usr/bin/srun'', ''srun'', ''-n'', ''4'']]) \<and>
   (\<exists>t. drive ex_launch_env 7 ''c'' ((ex_driver 42)\<lparr>d_files := ex_disk\<rparr>) 3 (''launchmon'' # lmon_opt_args ex_eo) demo_engine =
      catchA SDBG_DRIVER_FAILED (bindA (main_loop 3) (\<lambda>_. ret SDBG_DRIVER_OK)) t \<and> started 42 t)"
proof -
  let ?e = ex_launch_env
  obtain rc r where rc: "rc_of ?e = (True, rc)" "supported_rms rc = [r]" "launchers r = [''srun'']"
    "launcher_ids r = [\<lparr>id_from = from_launcher, id_method = by_symbol, id_dtype = cstring, id_val = Symbol_name ''MPIR_Breakpoint''\<rparr>]"
    using ex_launch_rc by (elim exE conjE)
  obtain proc im where pr: "create_process ex_disk 3 42 ''/usr/bin/srun'' = Inr proc" "myimage proc = Some im"
    "\<not> sym_null (get_a_symbol im ''MPIR_Breakpoint'')" using ex_created by (elim exE conjE)
  have p: "oe_getenv ?e ''PATH'' = Some ''/usr/bin:/opt/tool''" by (simp add: ex_launch_env_def ex_opt_env_def)
  have td: "found_in ?e ''/usr/bin:/opt/tool'' (eo_tool_daemon ex_eo) = (True, ''/opt/tool/toold'')"
    by (simp add: found_in_def ex_launch_env_def ex_opt_env_def ex_eo_def)
  have l: "found_in ?e ''/usr/bin:/opt/tool'' (eo_debugtarget ex_eo) = (True, ''/usr/bin/srun'')"
    by (simp add: found_in_def ex_launch_env_def ex_opt_env_def ex_eo_def)
  have o: "length (eo_tool_daemon_opts ex_eo) < 2 ^ 31" "\<not> eo_attach ex_eo" "eo_debugtarget ex_eo = [] \<or> hd (eo_debugtarget ex_eo) \<noteq> CHR ''-''"
    by (simp_all add: ex_eo_def)
  have n: "7 \<le> (7::nat)" by simp
  have ip: "''10.0.0.1'' \<noteq> []" "CHR '':'' \<notin> set ''10.0.0.1''" by simp_all
  have co: "connects (d_net ((ex_driver child)\<lparr>d_files := ex_disk\<rparr>)) ''10.0.0.1'' 4711" for child
    using ex_connects by (simp add: ex_driver_def)
  note T = launch_starts_launcher [where prog = "''launchmon''" and cr = "''c''" and fuel = 3,
    OF p td o l rc(1) n ex_address ip co demo_takes]
  have rel: "reliable demo_engine" by (simp add: reliable_def demo_engine_def machine.defs engine.defs demo_machine_def)
  have c: "d_fork ((ex_driver 0)\<lparr>d_files := ex_disk\<rparr>) = 0 \<and> \<not> d_exec_fails ((ex_driver 0)\<lparr>d_files := ex_disk\<rparr>) \<and> reliable demo_engine"
    using rel by (simp add: ex_driver_def)
  let ?d = "(ex_driver 42)\<lparr>d_files := ex_disk\<rparr>"
  have d: "d_fork ?d = 42" "d_files ?d = ex_disk" "d_links ?d = 3" "RM_FE_COLOC_CMD ?d = None" by (simp_all add: ex_driver_def)
  obtain cc where "init_rm_instance (basename ''/usr/bin/srun'') ''/opt/tool/toold'' (eo_tool_daemon_opts ex_eo) (has_symbol (Some im))
      (has_symbol (myrmso_image proc)) (be_stub ?d (o_getenv (out demo_engine))) rc = (True, cc)"
    using ex_matches [OF rc(2-4) pr(3)] by blast
  then have q: "d_fork ?d \<noteq> 0 \<and> create_process (d_files ?d) (d_links ?d) (d_fork ?d) ''/usr/bin/srun'' = Inr proc \<and>
      init_rm_instance (basename (case RM_FE_COLOC_CMD ?d of Some cmd \<Rightarrow> cmd | None \<Rightarrow> ''/usr/bin/srun'')) ''/opt/tool/toold''
        (eo_tool_daemon_opts ex_eo) (has_symbol (myimage proc)) (has_symbol (myrmso_image proc)) (be_stub ?d (o_getenv (out demo_engine))) rc = (True, cc)"
    unfolding d pr(2) using pr(1) by simp
  have "eo_debugtarget ex_eo # tl (eo_remaining ex_eo) = [''srun'', ''-n'', ''4'']" by (simp add: ex_eo_def)
  then show ?thesis using mp [OF conjunct1 [OF T] c] mp [OF spec [OF spec [OF conjunct2 [OF T]]] q] d(1) by auto
qed

end
