(* ===== verification/Engine_Run.thy ===== *)
theory Engine_Run
  imports Engine_Start
begin

text \<open>
  The invariants and the termination of the event loop, carried over to the whole run of the
  engine from its command line: the frame of the loop is extended by what the driver does.
\<close>

locale driver_frame = loop_frame +
  assumes fr_api: "P s \<Longrightarrow> P (s\<lparr>API_mode := True\<rparr>)"
    and fr_process: "P s \<Longrightarrow> create_process fs links p mi = Inr proc \<Longrightarrow> P (on_process proc s)"
    and fr_myopts: "P s \<Longrightarrow> P (s\<lparr>myopts := mo\<rparr>)"
begin

lemma effect_keeps: "keeps P (do_effect e)"
  unfolding do_effect_def by (intro keeps_intros fr_effects)

lemma init_API_keeps: "keeps P (init_API net opt)"
proof -
  have m: "keeps P (modA (\<lambda>s. s\<lparr>API_mode := True\<rparr>))" by (intro keeps_intros fr_api)
  have "keeps P (bindA (modA (\<lambda>s. s\<lparr>API_mode := True\<rparr>)) (\<lambda>_.
       if has_parse_error opt then bindA (e_say lmonp_conn_ack_parse_error) (\<lambda>_. ret LAUNCHMON_FAILED)
       else bindA (e_say lmonp_conn_ack_no_error) (\<lambda>_. ret LAUNCHMON_OK)))"
    by (auto intro!: keeps_bindA m frame)
  then show ?thesis by (auto simp: init_API_def split: sum.split)
qed

lemma trace_me_keeps: "keeps P tracer_trace_me"
  unfolding tracer_trace_me_def by (intro must_be_0_keeps Pptrace_keeps)

lemma launcher_pid_keeps: "keeps P (launcher_pid_of d opt)"
  unfolding launcher_pid_of_def by (intro keeps_intros trace_me_keeps effect_keeps)

lemma extend_path_keeps: "keeps P extend_path"
  unfolding keeps_def extend_path_def Let_def
  by (auto simp: do_effect_def modA_def ret_def fr_effects split: option.split)

lemma choose_rm_keeps: "keeps P (choose_rm d opt)"
  by (auto simp: keeps_def choose_rm_def Let_def ret_def fr_rmgr split: prod.split)

lemma set_myopts_keeps: "keeps P (set_myopts opt)"
  unfolding set_myopts_def by (intro keeps_intros fr_myopts)

lemma attach_keeps: "keeps P handle_attach_event"
  unfolding handle_attach_event_def tracer_attach_def by (intro keeps_intros must_be_0_keeps Pptrace_keeps get_pid_keeps)

lemma created_keeps:
  "keeps P (bindA (liftA (create_process fs links p mi)) (\<lambda>proc. bindA (seqA [modA (on_process proc), extend_path]) (\<lambda>_. m)))"
  if "keeps P m"
proof (cases "create_process fs links p mi")
  case (Inl e)
  then show ?thesis by (simp add: keeps_def liftA_def bindA_def throw_def)
next
  case (Inr proc)
  have "keeps P (modA (on_process proc))" by (intro keeps_intros fr_process [OF _ Inr])
  then have "keeps P (bindA (seqA [modA (on_process proc), extend_path]) (\<lambda>_. m))"
    using that extend_path_keeps by (auto intro!: keeps_bindA)
  then show ?thesis using Inr by (simp add: keeps_def liftA_def bindA_def ret_def)
qed

lemma drive_engine_keeps: "keeps P (drive_engine d fuel opt)"
proof -
  have r: "keeps P (bindA (choose_rm d opt) (\<lambda>initc.
            if \<not> initc then ret SDBG_DRIVER_FAILED
            else bindA (seqA [set_myopts opt, whenA (attach (my_opt opt)) (ignA handle_attach_event), main_loop fuel])
                   (\<lambda>_. ret SDBG_DRIVER_OK)))"
    by (auto intro!: keeps_bindA keeps_whenA keeps_ignA choose_rm_keeps set_myopts_keeps attach_keeps main_loop_keeps)
  have i: "keeps P (launchmon_init (d_net d) opt)" unfolding launchmon_init_def by (rule init_API_keeps)
  show ?thesis unfolding drive_engine_def
    by (intro keeps_catchA keeps_bindA [OF i] keeps_if keeps_ret keeps_bindA [OF launcher_pid_keeps] created_keeps [OF r])
qed

lemma drive_keeps: "keeps P (drive e turns cr d fuel argv)"
proof (cases "process_args e turns argv (\<lambda>_. quiet) (opts_args0 cr)")
  case (Pair r ps)
  then show ?thesis using keepsD [OF drive_engine_keeps]
    by (cases r) (auto simp: keeps_def drive_def throw_def)
qed

lemma driver_main_keeps: "keeps P (driver_main e turns cr d fuel argv)"
  unfolding driver_main_def by (intro keeps_bindA drive_keeps) simp

end

lemma on_process_other [simp]:
  "engine_state (on_process p s) = engine_state s" "waits (on_process p s) = waits s" "fe_sent (on_process p s) = fe_sent s"
  "thrlist (on_process p s) = thrlist p"
  by (simp_all add: on_process_def)

lemma created_table: "create_process fs links p mi = Inr proc \<Longrightarrow> thread_table (on_process proc s)"
  by (auto simp: create_process_def thread_table_def linux_x86_process0_def map_inv_def map_keys_def thr2pid_def linux_x86_thread0_def
    split: sum.splits option.splits if_splits)

interpretation drv_threads: driver_frame thread_table
  by unfold_locales (auto simp: created_table, simp_all add: thread_table_def)

interpretation drv_mpir: driver_frame "\<lambda>s. engine_state s \<noteq> mpir_abort"
  by unfold_locales simp_all

interpretation drv_answers: driver_frame "\<lambda>s. length (waits s) \<le> n" for n
  by unfold_locales simp_all

interpretation drv_wire: driver_frame "\<lambda>s. \<exists>x. fe_sent s = base @ x" for base
  by unfold_locales auto

text \<open>C23: (type) Through the whole run of the engine, for every command line, environment,
  kernel, launcher and front end, and however it ends: the thread table is well-formed, what was
  sent to the front end stays sent, and the state never becomes \<open>mpir_abort\<close>, for on an abort
  of the job the handler passes the inner \<open>bdbg\<close>, 0, to \<open>set_engine_state\<close>.\<close>

theorem engine_run_invariant:
  assumes "thread_table s" and "engine_state s \<noteq> mpir_abort"
  shows "thread_table (snd (driver_main e turns cr d fuel argv s)) \<and>
    (\<exists>x. fe_sent (snd (driver_main e turns cr d fuel argv s)) = fe_sent s @ x) \<and>
    engine_state (snd (driver_main e turns cr d fuel argv s)) \<noteq> mpir_abort"
  using keepsD [OF drv_threads.driver_main_keeps assms(1)] keepsD [OF drv_mpir.driver_main_keeps assms(2)]
    keepsD [OF drv_wire.driver_main_keeps [where base = "fe_sent s"], of s] by simp

lemma engine_run_invariant_witness:
  "thread_table (snd (driver_main ex_launch_env 7 ''c'' ((ex_driver 42)\<lparr>d_files := ex_disk\<rparr>) 3
     [''launchmon'', ''srun'', ''-a'', ''-n'', ''4''] demo_engine)) \<and>
   engine_state (snd (driver_main ex_launch_env 7 ''c'' ((ex_driver 42)\<lparr>d_files := ex_disk\<rparr>) 3
     [''launchmon'', ''srun'', ''-a'', ''-n'', ''4''] demo_engine)) \<noteq> mpir_abort"
  using engine_run_invariant [OF demo_table demo_start] by blast

section \<open>Termination\<close>

text \<open>Two actions that do the same in every state of an invariant.\<close>

definition agree :: "('s \<Rightarrow> bool) \<Rightarrow> ('s, 'a) act \<Rightarrow> ('s, 'a) act \<Rightarrow> bool" where
  "agree P m n \<longleftrightarrow> (\<forall>s. P s \<longrightarrow> m s = n s)"

lemma agree_refl: "agree P m m"
  by (simp add: agree_def)

lemma agree_bind: "keeps P m \<Longrightarrow> (\<And>x. agree P (f x) (g x)) \<Longrightarrow> agree P (bindA m f) (bindA m g)"
  unfolding agree_def bindA_def keeps_def by (fastforce split: prod.split sum.split)

lemma agree_bind1: "agree P m n \<Longrightarrow> agree P (bindA m f) (bindA n f)"
  by (simp add: agree_def bindA_def)

lemma agree_catch: "agree P m n \<Longrightarrow> agree P (catchA v m) (catchA v n)"
  by (simp add: agree_def catchA_def)

lemma agree_if: "agree P m n \<Longrightarrow> agree P k l \<Longrightarrow> agree P (if b then m else k) (if b then n else l)"
  by simp

lemma created_agree:
  assumes "\<And>proc. keeps P (modA (on_process proc))" and "keeps P extend_path" and "agree P m n"
  shows "agree P (bindA (liftA r) (\<lambda>proc. bindA (seqA [modA (on_process proc), extend_path]) (\<lambda>_. m)))
    (bindA (liftA r) (\<lambda>proc. bindA (seqA [modA (on_process proc), extend_path]) (\<lambda>_. n)))"
proof (rule agree_bind)
  show "keeps P (liftA r)" by (simp add: liftA_def split: sum.split)
  fix proc
  have "keeps P (seqA [modA (on_process proc), extend_path])" using assms(1,2) by (intro keeps_seqA) auto
  then show "agree P (bindA (seqA [modA (on_process proc), extend_path]) (\<lambda>_. m))
      (bindA (seqA [modA (on_process proc), extend_path]) (\<lambda>_. n))"
    by (rule agree_bind) (rule assms(3))
qed

lemma drive_engine_fuel:
  assumes "k < n" and "k < m"
  shows "agree (\<lambda>t. length (waits t) \<le> k) (drive_engine d n opt) (drive_engine d m opt)"
proof -
  let ?S = "\<lambda>t. length (waits t) \<le> k"
  have l: "agree ?S (main_loop n) (main_loop m)"
    using assms unfolding agree_def by (auto intro!: main_loop_fuel)
  have ha: "keeps ?S (whenA (attach (my_opt opt)) (ignA handle_attach_event))"
    by (intro keeps_whenA keeps_ignA drv_answers.attach_keeps)
  have p: "keeps ?S (modA (on_process proc))" for proc by (simp add: keeps_def modA_def)
  have i: "keeps ?S (launchmon_init (d_net d) opt)" unfolding launchmon_init_def by (rule drv_answers.init_API_keeps)
  have sq: "agree ?S (seqA [set_myopts opt, whenA (attach (my_opt opt)) (ignA handle_attach_event), main_loop n])
      (seqA [set_myopts opt, whenA (attach (my_opt opt)) (ignA handle_attach_event), main_loop m])"
    unfolding seqA.simps by (rule agree_bind [OF drv_answers.set_myopts_keeps agree_bind [OF ha agree_bind1 [OF l]]])
  show ?thesis unfolding drive_engine_def
    by (rule agree_catch, rule agree_bind [OF i], rule agree_if [OF agree_refl], rule agree_bind [OF drv_answers.launcher_pid_keeps],
        rule created_agree [OF p drv_answers.extend_path_keeps], rule agree_bind [OF drv_answers.choose_rm_keeps],
        rule agree_if [OF agree_refl], rule agree_bind1 [OF sq])
qed


end
