(* ===== verification/Handshake.thy ===== *)
theory Handshake
  imports Lmon_Link
begin

text \<open>
  The security handshake of \<^verbatim>\<open>tools/handshake/handshake.c\<close>, which COBO runs on every new
  connection before anything else. Each side sends a signed description of the connection,
  checks the other's, and both tell each other the verdict. munge, the keyed hash of gcrypt and
  the system are arguments. The state holds the answers of the kernel for the socket, what went
  out, and the file's static variables; of the two error messages it holds whether they are set.
  A function gives the code of an error, \<open>Inl\<close>, or its value.
\<close>

section \<open>Data\<close>

definition HSHAKE_SUCCESS :: int where "HSHAKE_SUCCESS = 0"
definition HSHAKE_INTERNAL_ERROR :: int where "HSHAKE_INTERNAL_ERROR = -1"
definition HSHAKE_DROP_CONNECTION :: int where "HSHAKE_DROP_CONNECTION = -2"
definition HSHAKE_CONNECTION_REFUSED :: int where "HSHAKE_CONNECTION_REFUSED = -3"
definition HSHAKE_ABORT :: int where "HSHAKE_ABORT = -4"
definition HSHAKE_AGAIN :: int where "HSHAKE_AGAIN = -16"

lemmas hshake_defs = HSHAKE_SUCCESS_def HSHAKE_INTERNAL_ERROR_def HSHAKE_DROP_CONNECTION_def
  HSHAKE_CONNECTION_REFUSED_def HSHAKE_ABORT_def HSHAKE_AGAIN_def

definition SIG :: u32 where "SIG = 0x845D96C1"
definition SERVER_TO_CLIENT_SIG :: u32 where "SERVER_TO_CLIENT_SIG = 0x67AD047E"
definition CLIENT_TO_SERVER_SIG :: u32 where "CLIENT_TO_SERVER_SIG = 0x9B1CC028"
definition MAX_ADDR_LEN :: nat where "MAX_ADDR_LEN = 14"
definition MAX_NUM_TIMEOUTS :: nat where "MAX_NUM_TIMEOUTS = 3"
definition AF_INET :: u16 where "AF_INET = 2"

datatype handshake_protocol_t = hs_none | hs_munge | hs_key_in_file string int | hs_explicit_key "byte list"

record sockaddr =
  sa_family :: u16
  sin_port :: u16
  sin_addr :: u32

record connection_info_t =
  i_am_server :: bool
  server_addr :: sockaddr
  client_addr :: sockaddr

record handshake_packet_t =
  signature :: u32
  server_port :: u16
  client_port :: u16
  uid :: u32
  gid :: u32
  session_id :: u64
  server_addr_bytes :: "byte list"
  client_addr_bytes :: "byte list"

text \<open>The image of a packet; its last four bytes are padding, whatever the stack held.\<close>

definition enc_packet :: "u32 \<Rightarrow> handshake_packet_t \<Rightarrow> byte list" where
  "enc_packet pad p = enc32 (signature p) @ enc16 (server_port p) @ enc16 (client_port p) @ enc32 (uid p) @
     enc32 (gid p) @ enc64 (session_id p) @ server_addr_bytes p @ client_addr_bytes p @ enc32 pad"

definition dec_packet :: "byte list \<Rightarrow> handshake_packet_t" where
  "dec_packet b = \<lparr>signature = dec32 (take 4 b), server_port = dec16 (take 2 (drop 4 b)), client_port = dec16 (take 2 (drop 6 b)),
     uid = dec32 (take 4 (drop 8 b)), gid = dec32 (take 4 (drop 12 b)), session_id = dec64 (take 8 (drop 16 b)),
     server_addr_bytes = take 14 (drop 24 b), client_addr_bytes = take 14 (drop 38 b)\<rparr>"

definition packet_size :: nat where "packet_size = 56"

datatype munge_err =
    EMUNGE_SUCCESS | EMUNGE_SNAFU | EMUNGE_BAD_ARG | EMUNGE_BAD_LENGTH | EMUNGE_OVERFLOW | EMUNGE_NO_MEMORY
  | EMUNGE_SOCKET | EMUNGE_TIMEOUT | EMUNGE_BAD_CRED | EMUNGE_BAD_VERSION | EMUNGE_BAD_CIPHER | EMUNGE_BAD_MAC
  | EMUNGE_BAD_ZIP | EMUNGE_BAD_REALM | EMUNGE_CRED_INVALID | EMUNGE_CRED_EXPIRED | EMUNGE_CRED_REWOUND
  | EMUNGE_CRED_REPLAYED | EMUNGE_CRED_UNAUTHORIZED | EMUNGE_OTHER

text \<open>The key file as \<open>open\<close>, \<open>fstat\<close> and \<open>read\<close> show it.\<close>

record keyfile =
  kf_fstat :: bool
  kf_uid :: u32
  kf_gid :: u32
  kf_mode :: u32
  kf_size :: nat
  kf_reads :: "rdans list"

text \<open>The build, the process and what is outside: \<open>he_munge_enc\<close> and \<open>he_munge_dec\<close> may answer
  differently each time they are asked, as a credential expires; \<open>None\<close> is a failure.\<close>

record hs_env =
  with_munge :: bool
  with_gcrypt :: bool
  with_null_encryption :: bool
  he_uid :: u32
  he_gid :: u32
  he_peername :: "sockaddr option"
  he_sockname :: "sockaddr option"
  he_keyfile :: "string \<Rightarrow> keyfile option"
  he_pad :: "nat \<Rightarrow> u32"
  he_munge_ctx :: "nat \<Rightarrow> bool"
  he_munge_enc :: "nat \<Rightarrow> byte list \<Rightarrow> byte list option"
  he_munge_dec :: "nat \<Rightarrow> byte list \<Rightarrow> munge_err \<times> byte list \<times> u32 \<times> u32"
  he_hmac :: "byte list \<Rightarrow> byte list \<Rightarrow> byte list option"
  timeout_seconds :: int

record hs =
  hs_reads :: "rdans list"
  hs_selects :: "int list"
  hs_writes :: "wrans list"
  hs_sent :: "byte list"
  hs_tick :: nat
  saved_key :: "byte list option"
  saved_key_filepath :: string
  saved_key_len :: int
  last_error_message :: bool
  last_security_message :: bool

type_synonym 'a hact = "(hs, int + 'a) act"

definition error_printf :: "int \<Rightarrow> 'a hact" where
  "error_printf rc = bindA (modA (\<lambda>s. s\<lparr>last_error_message := True\<rparr>)) (\<lambda>_. ret (Inl rc))"

definition security_error_printf :: "int \<Rightarrow> 'a hact" where
  "security_error_printf rc = bindA (modA (\<lambda>s. s\<lparr>last_security_message := True\<rparr>)) (\<lambda>_. ret (Inl rc))"

text \<open>Whether there is a message; the security message goes first. Logging takes its length, set
  or not.\<close>

definition handshake_last_error_str :: "hs \<Rightarrow> bool" where
  "handshake_last_error_str s \<longleftrightarrow> last_security_message s \<or> last_error_message s"

definition handshake_log_sec_error :: "(hs, unit) act" where
  "handshake_log_sec_error s = (if handshake_last_error_str s then ret () s else throw Undefined_behaviour s)"

definition okA :: "'a \<Rightarrow> 'a hact" where "okA x = ret (Inr x)"

definition tick :: "(hs, nat) act" where
  "tick s = ret (hs_tick s) (s\<lparr>hs_tick := Suc (hs_tick s)\<rparr>)"

definition handshake_is_security_type_enabled :: "hs_env \<Rightarrow> handshake_protocol_t \<Rightarrow> bool" where
  "handshake_is_security_type_enabled e h = (case h of
     hs_none \<Rightarrow> with_null_encryption e
   | hs_munge \<Rightarrow> with_munge e
   | hs_key_in_file p n \<Rightarrow> with_gcrypt e
   | hs_explicit_key k \<Rightarrow> with_gcrypt e)"

section \<open>The socket\<close>

text \<open>An answer \<open>Data bs\<close> is a piece of the stream that has arrived; \<open>read\<close> takes no more of it
  than it was asked for. Only \<open>EINTR\<close> is tried again, and only when writing.\<close>

fun reliable_write_loop :: "wrans list \<Rightarrow> byte list \<Rightarrow> byte list \<Rightarrow> (bool \<times> byte list \<times> wrans list) option" where
  "reliable_write_loop ks [] wire = Some (True, wire, ks)"
| "reliable_write_loop [] (b # bs) wire = None"
| "reliable_write_loop (WFail er # ks) (b # bs) wire =
     (if er = EINTR then reliable_write_loop ks (b # bs) wire else Some (False, wire, ks))"
| "reliable_write_loop (Wrote n # ks) (b # bs) wire =
     reliable_write_loop ks (drop n (b # bs)) (wire @ take n (b # bs))"

definition reliable_write :: "byte list \<Rightarrow> unit hact" where
  "reliable_write buf s = (case reliable_write_loop (hs_writes s) buf [] of
     None \<Rightarrow> throw No_return s
   | Some (ok, wire, ks) \<Rightarrow>
       (if ok then okA () else error_printf HSHAKE_INTERNAL_ERROR) (s\<lparr>hs_writes := ks, hs_sent := hs_sent s @ wire\<rparr>))"

definition select_read :: "int \<Rightarrow> int list \<Rightarrow> (int \<times> int list) option" where
  "select_read t sels = (if t = 0 then Some (1, sels) else case sels of [] \<Rightarrow> None | r # rs \<Rightarrow> Some (r, rs))"

fun reliable_read_loop :: "int \<Rightarrow> int list \<Rightarrow> rdans list \<Rightarrow> nat \<Rightarrow> byte list \<Rightarrow>
    (byte list option \<times> int list \<times> rdans list) option" where
  "reliable_read_loop t sels ks 0 acc = Some (Some acc, sels, ks)"
| "reliable_read_loop t sels ks (Suc n) acc = (case select_read t sels of
     None \<Rightarrow> None
   | Some (r, sels2) \<Rightarrow>
       (if r \<noteq> 1 then Some (None, sels2, ks)
        else (case ks of
          [] \<Rightarrow> None
        | RFail er # ks2 \<Rightarrow> Some (None, sels2, ks2)
        | Data bs # ks2 \<Rightarrow>
            (if bs = [] then Some (None, sels2, ks2)
             else if Suc n < length bs then Some (Some (acc @ take (Suc n) bs), sels2, Data (drop (Suc n) bs) # ks2)
             else reliable_read_loop t sels2 ks2 (Suc n - length bs) (acc @ bs)))))"

text \<open>On any descriptor, given its answers.\<close>

definition read_from :: "hs_env \<Rightarrow> rdans list \<Rightarrow> nat \<Rightarrow> (hs, byte list option \<times> rdans list) act" where
  "read_from e ks n s = (case reliable_read_loop (timeout_seconds e) (hs_selects s) ks n [] of
     None \<Rightarrow> throw No_return s
   | Some (r, sels, ks2) \<Rightarrow>
       ret (r, ks2) (s\<lparr>hs_selects := sels, last_error_message := (last_error_message s \<or> r = None)\<rparr>))"

definition reliable_read :: "hs_env \<Rightarrow> nat \<Rightarrow> byte list hact" where
  "reliable_read e n s = bindA (read_from e (hs_reads s) n) (\<lambda>(r, ks).
     bindA (modA (\<lambda>s. s\<lparr>hs_reads := ks\<rparr>)) (\<lambda>_.
       ret (case r of None \<Rightarrow> Inl HSHAKE_INTERNAL_ERROR | Some b \<Rightarrow> Inr b))) s"

definition exchange_sig :: "hs_env \<Rightarrow> unit hact" where
  "exchange_sig e = stepA (reliable_write (enc32 SIG)) (\<lambda>_.
     stepA (reliable_read e 4) (\<lambda>b. if dec32 b \<noteq> SIG then error_printf HSHAKE_DROP_CONNECTION else okA ()))"

text \<open>The size is passed as an \<open>unsigned int\<close>.\<close>

definition send_packet :: "byte list \<Rightarrow> unit hact" where
  "send_packet packet = (let packet_size = of_nat (length packet) :: u32 in
     stepA (reliable_write (enc32 packet_size)) (\<lambda>_. reliable_write (take (unat packet_size) packet)))"

definition recv_packet :: "hs_env \<Rightarrow> byte list hact" where
  "recv_packet e = stepA (reliable_read e 4) (\<lambda>b.
     if 0x100000 < dec32 b then error_printf HSHAKE_DROP_CONNECTION else reliable_read e (unat (dec32 b)))"

section \<open>The packet\<close>

definition get_client_server_addrs :: "hs_env \<Rightarrow> bool \<Rightarrow> connection_info_t hact" where
  "get_client_server_addrs e srv = (case he_peername e of
     None \<Rightarrow> error_printf HSHAKE_INTERNAL_ERROR
   | Some remote \<Rightarrow> (case he_sockname e of
       None \<Rightarrow> error_printf HSHAKE_INTERNAL_ERROR
     | Some local \<Rightarrow> okA (if srv then \<lparr>i_am_server = srv, server_addr = local, client_addr = remote\<rparr>
                      else \<lparr>i_am_server = srv, server_addr = remote, client_addr = local\<rparr>)))"

definition encode_addr :: "sockaddr \<Rightarrow> (byte list \<times> u16) hact" where
  "encode_addr a = (if sa_family a = AF_INET then okA (enc32 (sin_addr a) @ replicate (MAX_ADDR_LEN - 4) 0, sin_port a)
     else error_printf HSHAKE_INTERNAL_ERROR)"

text \<open>The caller fills in the signature.\<close>

definition encode_packet :: "hs_env \<Rightarrow> u64 \<Rightarrow> sockaddr \<Rightarrow> sockaddr \<Rightarrow> u32 \<Rightarrow> handshake_packet_t hact" where
  "encode_packet e sid srv cli sig = stepA (encode_addr srv) (\<lambda>(sa, sp). stepA (encode_addr cli) (\<lambda>(ca, cp).
     okA \<lparr>signature = sig, server_port = sp, client_port = cp, uid = he_uid e, gid = he_gid e, session_id = sid,
       server_addr_bytes = sa, client_addr_bytes = ca\<rparr>))"

definition compare_packets :: "handshake_packet_t \<Rightarrow> handshake_packet_t \<Rightarrow> unit hact" where
  "compare_packets ex rc =
     (if session_id ex \<noteq> session_id rc then error_printf HSHAKE_DROP_CONNECTION
      else if signature ex \<noteq> signature rc then security_error_printf HSHAKE_ABORT
      else if server_port ex \<noteq> server_port rc then security_error_printf HSHAKE_ABORT
      else if client_port ex \<noteq> client_port rc then security_error_printf HSHAKE_ABORT
      else if uid ex \<noteq> uid rc then security_error_printf HSHAKE_ABORT
      else if gid ex \<noteq> gid rc then security_error_printf HSHAKE_ABORT
      else if server_addr_bytes ex \<noteq> server_addr_bytes rc then security_error_printf HSHAKE_ABORT
      else if client_addr_bytes ex \<noteq> client_addr_bytes rc then security_error_printf HSHAKE_ABORT
      else okA ())"

section \<open>Signing\<close>

definition none_encrypt_packet :: "hs_env \<Rightarrow> handshake_packet_t \<Rightarrow> byte list hact" where
  "none_encrypt_packet e p = (if with_null_encryption e then bindA tick (\<lambda>i. okA (enc_packet (he_pad e i) p))
     else error_printf HSHAKE_INTERNAL_ERROR)"

definition munge_create_context :: "hs_env \<Rightarrow> nat \<Rightarrow> unit hact" where
  "munge_create_context e i = (if he_munge_ctx e i then okA () else error_printf HSHAKE_INTERNAL_ERROR)"

text \<open>A credential is a C string, and its NUL is sent with it.\<close>

definition munge_encrypt_packet :: "hs_env \<Rightarrow> handshake_packet_t \<Rightarrow> byte list hact" where
  "munge_encrypt_packet e p = (if with_munge e then bindA tick (\<lambda>i. stepA (munge_create_context e i) (\<lambda>_.
       case he_munge_enc e i (enc_packet (he_pad e i) p) of
         None \<Rightarrow> error_printf HSHAKE_INTERNAL_ERROR
       | Some cred \<Rightarrow> okA (cred @ [0])))
     else error_printf HSHAKE_INTERNAL_ERROR)"

definition key_in_hand :: "string \<Rightarrow> int \<Rightarrow> hs \<Rightarrow> bool" where
  "key_in_hand path len s \<longleftrightarrow> saved_key s \<noteq> None \<and> path = saved_key_filepath s \<and> saved_key_len s = len"

definition read_key :: "hs_env \<Rightarrow> string \<Rightarrow> int \<Rightarrow> unit hact" where
  "read_key e path len = bindA (getA (key_in_hand path len)) (\<lambda>have. if have then okA ()
     else bindA (modA (\<lambda>s. s\<lparr>saved_key := None\<rparr>)) (\<lambda>_. case he_keyfile e path of
         None \<Rightarrow> security_error_printf HSHAKE_ABORT
       | Some f \<Rightarrow>
           (if \<not> kf_fstat f then security_error_printf HSHAKE_ABORT
            else if kf_uid f \<noteq> he_uid e then security_error_printf HSHAKE_ABORT
            else if kf_gid f \<noteq> he_gid e then security_error_printf HSHAKE_ABORT
            else if and (kf_mode f) 0x3F \<noteq> 0 then security_error_printf HSHAKE_ABORT
            else if int (kf_size f) \<noteq> len then security_error_printf HSHAKE_ABORT
            else bindA (read_from e (kf_reads f) (kf_size f)) (\<lambda>(r, ks). case r of
                None \<Rightarrow> security_error_printf HSHAKE_ABORT
              | Some key \<Rightarrow> bindA (modA (\<lambda>s. s\<lparr>saved_key := Some key, saved_key_len := len, saved_key_filepath := path\<rparr>))
                  (\<lambda>_. okA ())))))"

text \<open>32 bytes are copied from the digest.\<close>

definition get_hash_of_buffer :: "hs_env \<Rightarrow> byte list \<Rightarrow> byte list \<Rightarrow> byte list hact" where
  "get_hash_of_buffer e buffer key = (case he_hmac e key buffer of
     None \<Rightarrow> error_printf HSHAKE_INTERNAL_ERROR
   | Some h \<Rightarrow> (if length h < 32 then throw Undefined_behaviour else okA (take 32 h)))"

definition key_encrypt_packet :: "hs_env \<Rightarrow> byte list \<Rightarrow> handshake_packet_t \<Rightarrow> byte list hact" where
  "key_encrypt_packet e key p = (if with_gcrypt e then bindA tick (\<lambda>i. let b = enc_packet (he_pad e i) p in
       stepA (get_hash_of_buffer e b key) (\<lambda>h. okA (b @ h)))
     else error_printf HSHAKE_INTERNAL_ERROR)"

definition filekey_encrypt_packet :: "hs_env \<Rightarrow> string \<Rightarrow> int \<Rightarrow> handshake_packet_t \<Rightarrow> byte list hact" where
  "filekey_encrypt_packet e path len p = stepA (read_key e path len) (\<lambda>_.
     bindA (getA saved_key) (\<lambda>k. case k of None \<Rightarrow> throw Undefined_behaviour | Some key \<Rightarrow> key_encrypt_packet e key p))"

definition encrypt_packet :: "hs_env \<Rightarrow> handshake_protocol_t \<Rightarrow> handshake_packet_t \<Rightarrow> byte list hact" where
  "encrypt_packet e h p = (case h of
     hs_none \<Rightarrow> none_encrypt_packet e p
   | hs_munge \<Rightarrow> munge_encrypt_packet e p
   | hs_key_in_file path len \<Rightarrow> filekey_encrypt_packet e path len p
   | hs_explicit_key key \<Rightarrow> key_encrypt_packet e key p)"

section \<open>Checking\<close>

definition none_decrypt_packet :: "hs_env \<Rightarrow> handshake_packet_t \<Rightarrow> byte list \<Rightarrow> unit hact" where
  "none_decrypt_packet e ex b =
     (if \<not> with_null_encryption e then error_printf HSHAKE_INTERNAL_ERROR
      else if length b \<noteq> packet_size then error_printf HSHAKE_DROP_CONNECTION
      else compare_packets ex (dec_packet b))"

text \<open>The buffer goes to munge as a C string; nothing puts a NUL behind it.\<close>

definition munge_decrypt_packet :: "hs_env \<Rightarrow> handshake_packet_t \<Rightarrow> byte list \<Rightarrow> unit hact" where
  "munge_decrypt_packet e ex b = (if \<not> with_munge e then error_printf HSHAKE_INTERNAL_ERROR
     else bindA tick (\<lambda>i. stepA (munge_create_context e i) (\<lambda>_.
       if 0 \<notin> set b then throw Undefined_behaviour
       else (case he_munge_dec e i (takeWhile (\<lambda>x. x \<noteq> 0) b) of (r, payload, u, g) \<Rightarrow>
         if r \<in> {EMUNGE_SNAFU, EMUNGE_BAD_ARG, EMUNGE_BAD_LENGTH, EMUNGE_OVERFLOW, EMUNGE_NO_MEMORY, EMUNGE_SOCKET, EMUNGE_TIMEOUT}
         then error_printf HSHAKE_INTERNAL_ERROR
         else if r = EMUNGE_CRED_EXPIRED then ret (Inl HSHAKE_AGAIN)
         else if r = EMUNGE_BAD_CRED then ret (Inl HSHAKE_DROP_CONNECTION)
         else if r \<noteq> EMUNGE_SUCCESS then security_error_printf HSHAKE_ABORT
         else if length payload \<noteq> packet_size then security_error_printf HSHAKE_ABORT
         else if uid (dec_packet payload) \<noteq> u then security_error_printf HSHAKE_ABORT
         else if gid (dec_packet payload) \<noteq> g then security_error_printf HSHAKE_ABORT
         else compare_packets ex (dec_packet payload)))))"

definition key_decrypt_packet :: "hs_env \<Rightarrow> byte list \<Rightarrow> handshake_packet_t \<Rightarrow> byte list \<Rightarrow> unit hact" where
  "key_decrypt_packet e key ex b =
     (if \<not> with_gcrypt e then error_printf HSHAKE_INTERNAL_ERROR
      else if length b < packet_size then error_printf HSHAKE_INTERNAL_ERROR
      else stepA (get_hash_of_buffer e (take packet_size b) key) (\<lambda>h.
        if length b \<noteq> packet_size + 32 then error_printf HSHAKE_INTERNAL_ERROR
        else if drop packet_size b \<noteq> h then security_error_printf HSHAKE_ABORT
        else compare_packets ex (dec_packet (take packet_size b))))"

definition decrypt_packet :: "hs_env \<Rightarrow> handshake_protocol_t \<Rightarrow> handshake_packet_t \<Rightarrow> byte list \<Rightarrow> unit hact" where
  "decrypt_packet e h ex b = (case h of
     hs_none \<Rightarrow> none_decrypt_packet e ex b
   | hs_munge \<Rightarrow> munge_decrypt_packet e ex b
   | hs_key_in_file path len \<Rightarrow> bindA (getA saved_key) (\<lambda>k. case k of None \<Rightarrow> throw Aborted | Some key \<Rightarrow> key_decrypt_packet e key ex b)
   | hs_explicit_key key \<Rightarrow> key_decrypt_packet e key ex b)"

section \<open>The protocol\<close>

definition shared_code :: "int \<Rightarrow> int option" where
  "shared_code r =
     (if r = HSHAKE_SUCCESS then Some HSHAKE_SUCCESS
      else if r = HSHAKE_INTERNAL_ERROR \<or> r = HSHAKE_DROP_CONNECTION \<or> r = HSHAKE_ABORT then Some HSHAKE_DROP_CONNECTION
      else if r = HSHAKE_AGAIN then Some HSHAKE_AGAIN
      else None)"

definition enc_int :: "int \<Rightarrow> byte list" where "enc_int i = enc32 (word_of_int i)"
definition dec_int :: "byte list \<Rightarrow> int" where "dec_int b = sint (dec32 b)"

text \<open>What the peer reports, or the error on the way to it.\<close>

definition share_result :: "hs_env \<Rightarrow> int \<Rightarrow> (hs, int) act" where
  "share_result e r = (case shared_code r of
     None \<Rightarrow> throw Undefined_behaviour
   | Some c \<Rightarrow> bindA (stepA (reliable_write (enc_int c)) (\<lambda>_. reliable_read e 4)) (\<lambda>x. ret (case x of
         Inl err \<Rightarrow> err
       | Inr b \<Rightarrow> if dec_int b = HSHAKE_SUCCESS then HSHAKE_SUCCESS
                 else if dec_int b = HSHAKE_AGAIN then HSHAKE_AGAIN else HSHAKE_CONNECTION_REFUSED)))"

text \<open>\<open>goto done\<close>: the code, and whether the socket is to blame.\<close>

definition or_done :: "bool \<Rightarrow> 'a hact \<Rightarrow> (hs, (int \<times> bool) + 'a) act" where
  "or_done socket_error m = bindA m (\<lambda>x. ret (case x of Inl r \<Rightarrow> Inl (r, socket_error) | Inr y \<Rightarrow> Inr y))"

definition my_sig :: "bool \<Rightarrow> u32" where
  "my_sig srv = (if srv then SERVER_TO_CLIENT_SIG else CLIENT_TO_SERVER_SIG)"

definition handshake_steps :: "hs_env \<Rightarrow> handshake_protocol_t \<Rightarrow> u64 \<Rightarrow> connection_info_t \<Rightarrow> bool \<Rightarrow>
    (hs, (int \<times> bool) + unit) act" where
  "handshake_steps e h sid ci srv =
     stepA (or_done True (exchange_sig e)) (\<lambda>_.
     stepA (or_done False (encode_packet e sid (server_addr ci) (client_addr ci) (my_sig srv))) (\<lambda>packet.
     stepA (or_done False (encrypt_packet e h packet)) (\<lambda>buf.
     stepA (or_done True (send_packet buf)) (\<lambda>_.
     stepA (or_done True (recv_packet e)) (\<lambda>recvd.
     stepA (or_done False (encode_packet e sid (server_addr ci) (client_addr ci) (my_sig (\<not> srv)))) (\<lambda>expected.
     or_done False (decrypt_packet e h expected recvd)))))))"

definition handshake_main :: "hs_env \<Rightarrow> handshake_protocol_t \<Rightarrow> u64 \<Rightarrow> connection_info_t \<Rightarrow> bool \<Rightarrow> (hs, int) act" where
  "handshake_main e h sid ci srv = bindA (handshake_steps e h sid ci srv) (\<lambda>x.
     case (case x of Inl d \<Rightarrow> d | Inr _ \<Rightarrow> (0, False)) of (r, socket_error) \<Rightarrow>
       if socket_error then ret r
       else bindA (share_result e r) (\<lambda>peer. ret (if r = 0 \<and> peer \<noteq> 0 then peer else r)))"

fun handshake_rounds :: "hs_env \<Rightarrow> handshake_protocol_t \<Rightarrow> u64 \<Rightarrow> connection_info_t \<Rightarrow> bool \<Rightarrow> nat \<Rightarrow> (hs, int) act" where
  "handshake_rounds e h sid ci srv 0 = bindA (security_error_printf HSHAKE_ABORT) (\<lambda>x. ret (case x of Inl r \<Rightarrow> r | Inr r \<Rightarrow> r))"
| "handshake_rounds e h sid ci srv (Suc n) = bindA (handshake_main e h sid ci srv) (\<lambda>r.
     if r \<noteq> HSHAKE_AGAIN then ret r else handshake_rounds e h sid ci srv n)"

definition handshake_wrapper :: "hs_env \<Rightarrow> handshake_protocol_t \<Rightarrow> u64 \<Rightarrow> bool \<Rightarrow> (hs, int) act" where
  "handshake_wrapper e h sid srv =
     bindA (modA (\<lambda>s. s\<lparr>last_security_message := False, last_error_message := False\<rparr>)) (\<lambda>_.
     bindA (get_client_server_addrs e srv) (\<lambda>x. case x of
       Inl r \<Rightarrow> ret r
     | Inr ci \<Rightarrow> handshake_rounds e h sid ci srv MAX_NUM_TIMEOUTS))"

definition handshake_server :: "hs_env \<Rightarrow> handshake_protocol_t \<Rightarrow> u64 \<Rightarrow> (hs, int) act" where
  "handshake_server e h sid = handshake_wrapper e h sid True"

definition handshake_client :: "hs_env \<Rightarrow> handshake_protocol_t \<Rightarrow> u64 \<Rightarrow> (hs, int) act" where
  "handshake_client e h sid = handshake_wrapper e h sid False"

end
