(* ===== verification/Handshake_Run.thy ===== *)
theory Handshake_Run
  imports Handshake
begin

text \<open>
  What a run of the handshake has read and sent, whatever the kernel, munge and the peer did:
  \<open>traffic s i o t\<close>, between two states of one side. From it follows what a successful side knows.
\<close>

section \<open>Traffic\<close>

definition stream :: "hs \<Rightarrow> byte list" where "stream s = rbytes (hs_reads s)"

definition traffic :: "hs \<Rightarrow> byte list \<Rightarrow> byte list \<Rightarrow> hs \<Rightarrow> bool" where
  "traffic s i out t \<longleftrightarrow> stream s = i @ stream t \<and> hs_sent t = hs_sent s @ out"

lemma traffic_refl: "traffic s [] [] s" by (simp add: traffic_def)

lemma traffic_trans: "traffic s i a t \<Longrightarrow> traffic t j b u \<Longrightarrow> traffic s (i @ j) (a @ b) u"
  by (simp add: traffic_def)

text \<open>Actions that leave the socket alone.\<close>

definition silent :: "(hs, 'a) act \<Rightarrow> bool" where
  "silent m \<longleftrightarrow> (\<forall>s. hs_reads (snd (m s)) = hs_reads s \<and> hs_sent (snd (m s)) = hs_sent s)"

named_theorems silent_intros

lemma silentD: "silent m \<Longrightarrow> m s = (r, t) \<Longrightarrow> traffic s [] [] t"
  unfolding silent_def traffic_def stream_def by (metis append_Nil append_Nil2 snd_conv)

lemma silent_ret [silent_intros]: "silent (ret x)" by (simp add: silent_def ret_def)
lemma silent_throw [silent_intros]: "silent (throw x)" by (simp add: silent_def throw_def)
lemma silent_ok [silent_intros]: "silent (okA x)" by (simp add: okA_def silent_ret)

lemma silent_bind [silent_intros]: "silent m \<Longrightarrow> (\<And>x. silent (f x)) \<Longrightarrow> silent (bindA m f)"
  unfolding silent_def bindA_def by (simp split: prod.split sum.split) (metis snd_conv)

lemma silent_step [silent_intros]: "silent m \<Longrightarrow> (\<And>x. silent (f x)) \<Longrightarrow> silent (stepA m f)"
  unfolding stepA_def by (rule silent_bind) (auto split: sum.split intro: silent_ret)

lemma silent_or_done [silent_intros]: "silent m \<Longrightarrow> silent (or_done b m)"
  unfolding or_done_def by (intro silent_intros)

lemma silent_if [silent_intros]: "(b \<Longrightarrow> silent m) \<Longrightarrow> (\<not> b \<Longrightarrow> silent n) \<Longrightarrow> silent (if b then m else n)"
  by simp

lemma silent_case [silent_intros]: "silent a \<Longrightarrow> (\<And>x. silent (f x)) \<Longrightarrow> silent (case k of None \<Rightarrow> a | Some x \<Rightarrow> f x)"
  by (cases k) auto

lemma silent_pair [silent_intros]: "(\<And>a b. silent (f a b)) \<Longrightarrow> silent (case p of (a, b) \<Rightarrow> f a b)"
  by (cases p) auto

lemma silent_get [silent_intros]: "silent (getA g)" by (simp add: silent_def getA_def)

lemma silent_error [silent_intros]: "silent (error_printf c)" "silent (security_error_printf c)"
  by (auto simp: silent_def error_printf_def security_error_printf_def bindA_def modA_def ret_def)

lemma silent_tick [silent_intros]: "silent tick"
  by (simp add: silent_def tick_def ret_def)

lemma silent_read_from [silent_intros]: "silent (read_from e ks n)"
  by (auto simp: silent_def read_from_def ret_def throw_def split: option.split prod.split)

lemma silent_mod [silent_intros]:
  "(\<And>s. hs_reads (f s) = hs_reads s) \<Longrightarrow> (\<And>s. hs_sent (f s) = hs_sent s) \<Longrightarrow> silent (modA f)"
  by (simp add: silent_def modA_def)

lemma silent_encode [silent_intros]: "silent (encode_packet e sid a b sig)"
  unfolding encode_packet_def encode_addr_def by (intro silent_intros)

lemma silent_compare [silent_intros]: "silent (compare_packets a b)"
  unfolding compare_packets_def by (intro silent_intros)

lemma silent_hash [silent_intros]: "silent (get_hash_of_buffer e b k)"
  unfolding get_hash_of_buffer_def by (intro silent_intros)

lemma silent_key_encrypt [silent_intros]: "silent (key_encrypt_packet e k p)"
  unfolding key_encrypt_packet_def Let_def by (intro silent_intros)

lemma silent_key_decrypt [silent_intros]: "silent (key_decrypt_packet e k p b)"
  unfolding key_decrypt_packet_def by (intro silent_intros)

lemma silent_read_key [silent_intros]: "silent (read_key e path len)"
  unfolding read_key_def by (intro silent_intros) simp_all

lemma silent_encrypt [silent_intros]: "silent (encrypt_packet e h p)"
  by (cases h; simp only: encrypt_packet_def none_encrypt_packet_def munge_encrypt_packet_def munge_create_context_def
    filekey_encrypt_packet_def handshake_protocol_t.case; intro silent_intros)

lemma silent_decrypt [silent_intros]: "silent (decrypt_packet e h p b)"
  by (cases h; simp only: decrypt_packet_def none_decrypt_packet_def munge_decrypt_packet_def munge_create_context_def
    handshake_protocol_t.case; intro silent_intros)

section \<open>Reading and writing\<close>

lemma reliable_read_loop_result:
  "reliable_read_loop t sels ks n acc = Some (r, sels2, ks2) \<Longrightarrow>
   case r of None \<Rightarrow> \<exists>x. rbytes ks = x @ rbytes ks2 \<and> length x < n
   | Some b \<Rightarrow> b @ rbytes ks2 = acc @ rbytes ks \<and> length b = length acc + n"
proof (induction t sels ks n acc rule: reliable_read_loop.induct)
  case (2 t sels ks n acc)
  obtain q sels3 where sel: "select_read t sels = Some (q, sels3)"
    using "2.prems" by (auto split: option.splits prod.splits)
  show ?case
  proof (cases "q = 1 \<and> (\<exists>bs ks3. ks = Data bs # ks3 \<and> bs \<noteq> [] \<and> \<not> Suc n < length bs)")
    case True
    then obtain bs ks3 where k: "q = 1" "ks = Data bs # ks3" "bs \<noteq> []" "\<not> Suc n < length bs" by blast
    then have "reliable_read_loop t sels3 ks3 (Suc n - length bs) (acc @ bs) = Some (r, sels2, ks2)"
      using "2.prems" sel by simp
    then have ih: "case r of None \<Rightarrow> \<exists>x. rbytes ks3 = x @ rbytes ks2 \<and> length x < Suc n - length bs
        | Some b \<Rightarrow> b @ rbytes ks2 = (acc @ bs) @ rbytes ks3 \<and> length b = length (acc @ bs) + (Suc n - length bs)"
      using "2.IH" [of "(q, sels3)" q sels3 "Data bs" ks3 bs] sel k by simp
    show ?thesis
    proof (cases r)
      case None
      then obtain x where "rbytes ks3 = x @ rbytes ks2" "length x < Suc n - length bs" using ih by auto
      then show ?thesis using None k by (auto intro!: exI [of _ "bs @ x"])
    next
      case (Some b)
      then show ?thesis using ih k by auto
    qed
  next
    case False
    then show ?thesis using "2.prems" sel
      by (cases ks) (auto split: if_splits rdans.splits intro: exI [of _ "[]"])
  qed
qed auto

lemma reliable_write_loop_result:
  "reliable_write_loop ks buf wire = Some (ok, wire2, ks2) \<Longrightarrow>
   \<exists>x y. wire2 = wire @ x \<and> buf = x @ y \<and> (ok \<longrightarrow> y = [])"
proof (induction ks buf wire rule: reliable_write_loop.induct)
  case (4 n ks b bs wire)
  have "\<exists>x y. wire2 = (wire @ take n (b # bs)) @ x \<and> drop n (b # bs) = x @ y \<and> (ok \<longrightarrow> y = [])"
    by (rule "4.IH") (use "4.prems" in simp)
  then obtain x y where h: "wire2 = (wire @ take n (b # bs)) @ x" "drop n (b # bs) = x @ y" "ok \<longrightarrow> y = []"
    by (elim exE conjE)
  have "b # bs = (take n (b # bs) @ x) @ y" using h(2) append_take_drop_id [of n "b # bs"] by simp
  then show ?case using h(1,3) by (intro exI [of _ "take n (b # bs) @ x"] exI [of _ y]) simp
qed (auto split: if_splits)

lemma reliable_read_run:
  assumes "reliable_read e n s = (x, t)"
  shows "(\<exists>b. x = Inr (Inr b) \<and> length b = n \<and> traffic s b [] t) \<or>
    (x = Inr (Inl HSHAKE_INTERNAL_ERROR) \<and> (\<exists>i. length i < n \<and> traffic s i [] t)) \<or> (x = Inl No_return \<and> t = s)"
proof (cases "reliable_read_loop (timeout_seconds e) (hs_selects s) (hs_reads s) n []")
  case None
  then show ?thesis using assms by (simp add: reliable_read_def read_from_def bindA_def throw_def)
next
  case (Some p)
  obtain r sels ks where p: "p = (r, sels, ks)" by (cases p)
  show ?thesis using assms Some reliable_read_loop_result [OF Some[unfolded p]]
    by (cases r) (auto simp: p reliable_read_def read_from_def bindA_def ret_def modA_def traffic_def stream_def)
qed

lemma reliable_write_run:
  assumes "reliable_write buf s = (x, t)"
  shows "(x = Inr (Inr ()) \<and> traffic s [] buf t) \<or>
    (x = Inr (Inl HSHAKE_INTERNAL_ERROR) \<and> (\<exists>a b. buf = a @ b \<and> traffic s [] a t)) \<or> (x = Inl No_return \<and> t = s)"
proof (cases "reliable_write_loop (hs_writes s) buf []")
  case None
  then show ?thesis using assms by (simp add: reliable_write_def throw_def)
next
  case (Some p)
  obtain ok wire ks where p: "p = (ok, wire, ks)" by (cases p)
  obtain a b where "wire = a" "buf = a @ b" "ok \<longrightarrow> b = []"
    using reliable_write_loop_result [OF Some[unfolded p]] by auto
  then show ?thesis using assms Some
    by (auto simp: p reliable_write_def okA_def error_printf_def bindA_def ret_def modA_def traffic_def stream_def split: if_splits)
qed

text \<open>A step of a sequence: what it says about the whole.\<close>

lemma stepA_cases:
  assumes "stepA m f s = (x, t)"
  obtains (go) y u where "m s = (Inr (Inr y), u)" "f y u = (x, t)"
  | (stop) r where "m s = (Inr (Inl r), t)" "x = Inr (Inl r)"
  | (thrown) w where "m s = (Inl w, t)" "x = Inl w"
  using assms by (auto simp: stepA_def bindA_def ret_def split: prod.splits sum.splits)

lemma or_done_cases:
  assumes "or_done b m s = (x, t)"
  obtains (fine) y where "m s = (Inr (Inr y), t)" "x = Inr (Inr y)"
  | (code) r where "m s = (Inr (Inl r), t)" "x = Inr (Inl (r, b))"
  | (thrown) w where "m s = (Inl w, t)" "x = Inl w"
  using assms by (auto simp: or_done_def bindA_def ret_def split: prod.splits sum.splits)

section \<open>Error codes\<close>

text \<open>The codes an action can give; an abort always comes with a security message.\<close>

definition coded :: "int set \<Rightarrow> 'a hact \<Rightarrow> bool" where
  "coded R m \<longleftrightarrow> (\<forall>s r t. m s = (Inr (Inl r), t) \<longrightarrow> r \<in> R \<and> (r = HSHAKE_ABORT \<longrightarrow> last_security_message t))"

named_theorems coded_intros

lemma codedD: "coded R m \<Longrightarrow> m s = (Inr (Inl r), t) \<Longrightarrow> r \<in> R \<and> (r = HSHAKE_ABORT \<longrightarrow> last_security_message t)"
  unfolding coded_def by blast

lemma coded_bind [coded_intros]: "(\<And>x. coded R (f x)) \<Longrightarrow> coded R (bindA m f)"
  unfolding coded_def bindA_def by (fastforce split: prod.splits sum.splits)

lemma coded_step [coded_intros]: "coded R m \<Longrightarrow> (\<And>x. coded R (f x)) \<Longrightarrow> coded R (stepA m f)"
  unfolding coded_def by (metis Inl_inject Inr_inject Inl_Inr_False stepA_cases)

lemma coded_if [coded_intros]: "(b \<Longrightarrow> coded R m) \<Longrightarrow> (\<not> b \<Longrightarrow> coded R n) \<Longrightarrow> coded R (if b then m else n)"
  by simp

lemma coded_case [coded_intros]: "coded R a \<Longrightarrow> (\<And>x. coded R (f x)) \<Longrightarrow> coded R (case k of None \<Rightarrow> a | Some x \<Rightarrow> f x)"
  by (cases k) auto

lemma coded_pair [coded_intros]: "(\<And>a b. coded R (f a b)) \<Longrightarrow> coded R (case p of (a, b) \<Rightarrow> f a b)"
  by (cases p) auto

lemma coded_ok [coded_intros]: "coded R (okA x)" "coded R (throw w)"
  by (simp_all add: coded_def okA_def ret_def throw_def)

lemma coded_error [coded_intros]: "r \<in> R \<Longrightarrow> r \<noteq> HSHAKE_ABORT \<Longrightarrow> coded R (error_printf r)"
  "r \<in> R \<Longrightarrow> coded R (security_error_printf r)" "r \<in> R \<Longrightarrow> r \<noteq> HSHAKE_ABORT \<Longrightarrow> coded R (ret (Inl r))"
  by (auto simp: coded_def error_printf_def security_error_printf_def bindA_def modA_def ret_def)

abbreviation "plain_codes \<equiv> {HSHAKE_INTERNAL_ERROR, HSHAKE_DROP_CONNECTION}"
abbreviation "local_codes \<equiv> {HSHAKE_INTERNAL_ERROR, HSHAKE_DROP_CONNECTION, HSHAKE_ABORT}"
abbreviation "check_codes \<equiv> {HSHAKE_INTERNAL_ERROR, HSHAKE_DROP_CONNECTION, HSHAKE_ABORT, HSHAKE_AGAIN}"

lemma coded_encode: "coded plain_codes (encode_packet e sid a b sig)"
  unfolding encode_packet_def encode_addr_def by (intro coded_intros) (simp_all add: hshake_defs)

lemma coded_hash: "HSHAKE_INTERNAL_ERROR \<in> R \<Longrightarrow> coded R (get_hash_of_buffer e b k)"
  unfolding get_hash_of_buffer_def by (intro coded_intros) (simp_all add: hshake_defs)

lemma coded_encrypt: "coded local_codes (encrypt_packet e h p)"
  by (cases h; simp only: encrypt_packet_def none_encrypt_packet_def munge_encrypt_packet_def munge_create_context_def
    filekey_encrypt_packet_def key_encrypt_packet_def read_key_def Let_def handshake_protocol_t.case; intro coded_intros coded_hash)
    (simp_all add: hshake_defs)

lemma coded_decrypt: "coded check_codes (decrypt_packet e h p b)"
  by (cases h; simp only: decrypt_packet_def none_decrypt_packet_def munge_decrypt_packet_def munge_create_context_def
    key_decrypt_packet_def compare_packets_def handshake_protocol_t.case; intro coded_intros coded_hash)
    (simp_all add: hshake_defs)

section \<open>The parts of a round\<close>

definition frame :: "byte list \<Rightarrow> byte list" where
  "frame p = (let n = of_nat (length p) :: u32 in enc32 n @ take (unat n) p)"

lemma frame_short: "length p \<le> 0x100000 \<Longrightarrow> frame p = enc32 (of_nat (length p)) @ p"
  by (simp add: frame_def unat_of_nat)

lemma frame_delimits:
  assumes "length p \<le> 0x100000" and "frame p @ u = frame q @ v"
  shows "frame q = frame p \<and> u = v"
proof -
  let ?n = "of_nat (length p) :: u32" and ?m = "of_nat (length q) :: u32"
  let ?q = "take (unat ?m) q"
  have fp: "frame p = enc32 ?n @ p" by (rule frame_short [OF assms(1)])
  have fq: "frame q = enc32 ?m @ ?q" by (simp add: frame_def Let_def)
  have e: "enc32 ?n @ p @ u = enc32 ?m @ ?q @ v" using assms(2) unfolding fp fq by simp
  then have "enc32 ?n = enc32 ?m" using append_eq_append_conv [of "enc32 ?n" "enc32 ?m"] by simp
  then have nm: "?n = ?m" by (metis dec_enc(2))
  have "unat ?m \<le> length q" by (simp add: unat_of_nat)
  then have "length ?q = unat ?m" by simp
  moreover have "unat ?n = length p" using assms(1) by (simp add: unat_of_nat)
  ultimately have "length ?q = length p" unfolding nm by simp
  moreover have "p @ u = ?q @ v" using e unfolding nm by simp
  ultimately have d: "?q = p \<and> u = v" by (metis append_eq_append_conv)
  have "frame q = frame p" unfolding fp fq conjunct1 [OF d] nm ..
  then show ?thesis using d by blast
qed

lemma exchange_sig_run:
  assumes "exchange_sig e s = (x, t)"
  shows "(x = Inr (Inr ()) \<and> traffic s (enc32 SIG) (enc32 SIG) t) \<or>
    (\<exists>i a b. enc32 SIG = a @ b \<and> traffic s i a t \<and> (x = Inl No_return \<or> (\<exists>r \<in> plain_codes. x = Inr (Inl r))))"
  using assms unfolding exchange_sig_def
proof (cases rule: stepA_cases)
  case (go y u)
  then have w: "traffic s [] (enc32 SIG) u" using reliable_write_run [OF go(1)] by simp
  from go(2) show ?thesis
  proof (cases rule: stepA_cases)
    case (go b v)
    then have b: "length b = 4" "traffic u b [] v" using reliable_read_run [OF go(1)] by simp_all
    have tr: "traffic s b (enc32 SIG) v" using traffic_trans [OF w b(2)] by simp
    show ?thesis
    proof (cases "dec32 b = SIG")
      case True
      then have "b = enc32 SIG" using enc32_dec32 [OF b(1)] by simp
      then show ?thesis using go(2) True tr by (simp add: okA_def ret_def)
    next
      case False
      then have "x = Inr (Inl HSHAKE_DROP_CONNECTION)" "traffic v [] [] t"
        using go(2) by (auto simp: error_printf_def bindA_def modA_def ret_def traffic_def stream_def)
      then show ?thesis using traffic_trans [OF tr, of "[]" "[]" t]
        by (intro disjI2 exI [of _ b] exI [of _ "enc32 SIG"] exI [of _ "[]"]) auto
    qed
  next
    case (stop r)
    then obtain i where "traffic u i [] t" "r = HSHAKE_INTERNAL_ERROR" using reliable_read_run [OF stop(1)] by auto
    then show ?thesis using traffic_trans [OF w, of i "[]" t] stop
      by (intro disjI2 exI [of _ i] exI [of _ "enc32 SIG"] exI [of _ "[]"]) simp
  next
    case (thrown z)
    then show ?thesis using reliable_read_run [OF thrown(1)] w
      by (intro disjI2 exI [of _ "[]"] exI [of _ "enc32 SIG"]) auto
  qed
next
  case (stop r)
  then obtain a b where "enc32 SIG = a @ b" "traffic s [] a t" "r = HSHAKE_INTERNAL_ERROR"
    using reliable_write_run [OF stop(1)] by auto
  then show ?thesis using stop by (intro disjI2 exI [of _ "[]"] exI [of _ a] exI [of _ b]) auto
next
  case (thrown z)
  then show ?thesis using reliable_write_run [OF thrown(1)]
    by (intro disjI2 exI [of _ "[]"] exI [of _ "enc32 SIG"]) (auto simp: traffic_def)
qed

lemma send_packet_run:
  assumes "send_packet q s = (x, t)"
  shows "(x = Inr (Inr ()) \<and> traffic s [] (frame q) t) \<or>
    (\<exists>a b. frame q = a @ b \<and> traffic s [] a t \<and> (x = Inl No_return \<or> x = Inr (Inl HSHAKE_INTERNAL_ERROR)))"
  using assms unfolding send_packet_def Let_def
proof (cases rule: stepA_cases)
  case (go y u)
  then have w: "traffic s [] (enc32 (of_nat (length q))) u" using reliable_write_run [OF go(1)] by simp
  from reliable_write_run [OF go(2)] show ?thesis
  proof (elim disjE conjE exE)
    assume "x = Inr (Inr ())" "traffic u [] (take (unat (of_nat (length q) :: u32)) q) t"
    then show ?thesis using traffic_trans [OF w] by (fastforce simp: frame_def Let_def)
  next
    fix a b assume "x = Inr (Inl HSHAKE_INTERNAL_ERROR)" "take (unat (of_nat (length q) :: u32)) q = a @ b" "traffic u [] a t"
    then show ?thesis using traffic_trans [OF w, of "[]" a t]
      by (intro disjI2 exI [of _ "enc32 (of_nat (length q)) @ a"] exI [of _ b]) (auto simp: frame_def Let_def)
  next
    assume "x = Inl No_return" "t = u"
    then show ?thesis using w by (intro disjI2 exI [of _ "enc32 (of_nat (length q))"]
        exI [of _ "take (unat (of_nat (length q) :: u32)) q"]) (auto simp: frame_def Let_def)
  qed
next
  case (stop r)
  then obtain a b where "enc32 (of_nat (length q)) = a @ b" "traffic s [] a t" "r = HSHAKE_INTERNAL_ERROR"
    using reliable_write_run [OF stop(1)] by auto
  then show ?thesis using stop by (intro disjI2 exI [of _ a] exI [of _ "b @ take (unat (of_nat (length q) :: u32)) q"])
    (auto simp: frame_def Let_def)
next
  case (thrown z)
  then show ?thesis using reliable_write_run [OF thrown(1)]
    by (intro disjI2 exI [of _ "[]"] exI [of _ "frame q"]) (auto simp: traffic_def)
qed

lemma recv_packet_run:
  assumes "recv_packet e s = (x, t)"
  shows "(\<exists>p. x = Inr (Inr p) \<and> length p \<le> 0x100000 \<and> traffic s (frame p) [] t) \<or>
    (\<exists>i. traffic s i [] t \<and> (x = Inl No_return \<or> (\<exists>r \<in> plain_codes. x = Inr (Inl r))))"
  using assms unfolding recv_packet_def
proof (cases rule: stepA_cases)
  case (go b u)
  then have b: "length b = 4" "traffic s b [] u" using reliable_read_run [OF go(1)] by simp_all
  show ?thesis
  proof (cases "0x100000 < dec32 b")
    case True
    then have "x = Inr (Inl HSHAKE_DROP_CONNECTION)" "traffic u [] [] t"
      using go(2) by (auto simp: error_printf_def bindA_def modA_def ret_def traffic_def stream_def)
    then show ?thesis using traffic_trans [OF b(2), of "[]" "[]" t] by (intro disjI2 exI [of _ b]) auto
  next
    case False
    then have n: "unat (dec32 b) \<le> 0x100000" by (simp add: word_less_nat_alt)
    from go(2) False have "reliable_read e (unat (dec32 b)) u = (x, t)" by simp
    from reliable_read_run [OF this] show ?thesis
    proof (elim disjE exE conjE)
      fix p assume p: "x = Inr (Inr p)" "length p = unat (dec32 b)" "traffic u p [] t"
      have "frame p = b @ p" using frame_short [of p] n p(2) enc32_dec32 [OF b(1)] by simp
      then show ?thesis using traffic_trans [OF b(2) p(3)] p n by (intro disjI1 exI [of _ p]) simp
    next
      fix i assume "x = Inr (Inl HSHAKE_INTERNAL_ERROR)" "traffic u i [] t"
      then show ?thesis using traffic_trans [OF b(2), of i "[]" t] by (intro disjI2 exI [of _ "b @ i"]) auto
    next
      assume "x = Inl No_return" "t = u"
      then show ?thesis using b(2) by (intro disjI2 exI [of _ b]) auto
    qed
  qed
next
  case (stop r)
  then show ?thesis using reliable_read_run [OF stop(1)] by (intro disjI2) fastforce
next
  case (thrown z)
  then show ?thesis using reliable_read_run [OF thrown(1)] by (intro disjI2 exI [of _ "[]"]) (auto simp: traffic_def)
qed

definition verdict :: "byte list \<Rightarrow> int" where
  "verdict b = (if dec_int b = HSHAKE_SUCCESS then HSHAKE_SUCCESS
     else if dec_int b = HSHAKE_AGAIN then HSHAKE_AGAIN else HSHAKE_CONNECTION_REFUSED)"

lemma share_result_run:
  assumes "share_result e r s = (x, t)" and "shared_code r = Some c"
  shows "(\<exists>b. length b = 4 \<and> x = Inr (verdict b) \<and> traffic s b (enc_int c) t) \<or>
    (\<exists>i a b. enc_int c = a @ b \<and> traffic s i a t \<and> length i < 4 \<and> (b = [] \<or> i = []) \<and>
       (x = Inl No_return \<or> x = Inr HSHAKE_INTERNAL_ERROR))"
proof -
  obtain y where y: "stepA (reliable_write (enc_int c)) (\<lambda>_. reliable_read e 4) s = (y, t)"
    and x: "x = (case y of Inl w \<Rightarrow> Inl w | Inr (Inl err) \<Rightarrow> Inr err | Inr (Inr b) \<Rightarrow> Inr (verdict b))"
    using assms by (auto simp: share_result_def bindA_def ret_def verdict_def split: prod.splits sum.splits)
  from y show ?thesis
  proof (cases rule: stepA_cases)
    case (go z u)
    then have w: "traffic s [] (enc_int c) u" using reliable_write_run [OF go(1)] by simp
    from reliable_read_run [OF go(2)] show ?thesis
    proof (elim disjE exE conjE)
      fix b assume "y = Inr (Inr b)" "length b = 4" "traffic u b [] t"
      then show ?thesis using traffic_trans [OF w, of b "[]" t] x by (intro disjI1 exI [of _ b]) simp
    next
      fix i assume "y = Inr (Inl HSHAKE_INTERNAL_ERROR)" "length i < 4" "traffic u i [] t"
      then show ?thesis using traffic_trans [OF w, of i "[]" t] x
        by (intro disjI2 exI [of _ i] exI [of _ "enc_int c"] exI [of _ "[]"]) simp
    next
      assume "y = Inl No_return" "t = u"
      then show ?thesis using w x by (intro disjI2 exI [of _ "[]"] exI [of _ "enc_int c"] exI [of _ "[]"]) simp
    qed
  next
    case (stop q)
    then obtain a b where "enc_int c = a @ b" "traffic s [] a t" "q = HSHAKE_INTERNAL_ERROR"
      using reliable_write_run [OF stop(1)] by auto
    then show ?thesis using stop x by (intro disjI2 exI [of _ "[]"] exI [of _ a] exI [of _ b]) simp
  next
    case (thrown z)
    then show ?thesis using reliable_write_run [OF thrown(1)] x
      by (intro disjI2 exI [of _ "[]"] exI [of _ "enc_int c"]) (auto simp: traffic_def)
  qed
qed

lemma enc_int_length [simp]: "length (enc_int c) = 4"
  by (simp add: enc_int_def)

section \<open>A round\<close>

lemma keeps_key_io [keeps_intros]:
  "keeps (\<lambda>s. saved_key s = k) (reliable_write b)" "keeps (\<lambda>s. saved_key s = k) (reliable_read e n)"
  by (auto simp: keeps_def reliable_write_def reliable_read_def read_from_def okA_def error_printf_def bindA_def modA_def
    ret_def throw_def split: option.split prod.split)

lemma keeps_alarm_io [keeps_intros]:
  "keeps last_security_message (reliable_write b)" "keeps last_security_message (reliable_read e n)"
  by (auto simp: keeps_def reliable_write_def reliable_read_def read_from_def okA_def error_printf_def bindA_def modA_def
    ret_def throw_def split: option.split prod.split)

lemma keeps_share: "(\<And>b. keeps P (reliable_write b)) \<Longrightarrow> (\<And>n. keeps P (reliable_read e n)) \<Longrightarrow> keeps P (share_result e r)"
  unfolding share_result_def by (auto intro!: keeps_intros split: option.split)

definition packet_of :: "hs_env \<Rightarrow> u64 \<Rightarrow> connection_info_t \<Rightarrow> u32 \<Rightarrow> handshake_packet_t" where
  "packet_of e sid ci sig = \<lparr>signature = sig, server_port = sin_port (server_addr ci), client_port = sin_port (client_addr ci),
     uid = he_uid e, gid = he_gid e, session_id = sid,
     server_addr_bytes = enc32 (sin_addr (server_addr ci)) @ replicate 10 0,
     client_addr_bytes = enc32 (sin_addr (client_addr ci)) @ replicate 10 0\<rparr>"

lemma encode_packet_run:
  assumes "encode_packet e sid (server_addr ci) (client_addr ci) sig s = (Inr (Inr p), t)"
  shows "p = packet_of e sid ci sig" "t = s"
proof -
  from assms have "p = packet_of e sid ci sig \<and> t = s" unfolding encode_packet_def
  proof (cases rule: stepA_cases)
    case (go y u)
    from go(2) go(1) show ?thesis
      by (cases y; simp; elim stepA_cases)
        (auto simp: encode_addr_def packet_of_def okA_def ret_def error_printf_def bindA_def modA_def MAX_ADDR_LEN_def
          split: if_splits prod.splits)
  qed simp_all
  then show "p = packet_of e sid ci sig" "t = s" by simp_all
qed

text \<open>The judgement of a received packet, and the key it was made with.\<close>

definition judged :: "hs_env \<Rightarrow> handshake_protocol_t \<Rightarrow> handshake_packet_t \<Rightarrow> byte list \<Rightarrow> int \<Rightarrow> hs \<Rightarrow> bool" where
  "judged e h ex p r t \<longleftrightarrow> (\<exists>u v d. decrypt_packet e h ex p u = (Inr d, v) \<and> r = (case d of Inl k \<Rightarrow> k | Inr _ \<Rightarrow> 0) \<and>
     saved_key t = saved_key u \<and> (r = HSHAKE_ABORT \<longrightarrow> last_security_message t))"

lemma keeps_key_prims [keeps_intros]:
  "keeps (\<lambda>s. saved_key s = k) (error_printf r)" "keeps (\<lambda>s. saved_key s = k) (security_error_printf r)"
  "keeps (\<lambda>s. saved_key s = k) (okA x)" "keeps (\<lambda>s. saved_key s = k) tick"
  by (simp_all add: keeps_def error_printf_def security_error_printf_def okA_def tick_def bindA_def modA_def ret_def)

lemmas [keeps_intros] = keeps_option keeps_pair

lemma keeps_key_decrypt: "keeps (\<lambda>s. saved_key s = k) (decrypt_packet e h p b)"
  by (cases h; simp only: decrypt_packet_def none_decrypt_packet_def munge_decrypt_packet_def munge_create_context_def
    key_decrypt_packet_def compare_packets_def get_hash_of_buffer_def handshake_protocol_t.case; intro keeps_intros)

lemma encode_packet_again:
  assumes "encode_packet e sid (server_addr ci) (client_addr ci) sig s = (Inr (Inr p), t)"
  shows "encode_packet e sid (server_addr ci) (client_addr ci) sig2 u = (Inr (Inr (packet_of e sid ci sig2)), u)"
proof -
  from assms have "sa_family (server_addr ci) = AF_INET \<and> sa_family (client_addr ci) = AF_INET"
    unfolding encode_packet_def
    by (auto elim!: stepA_cases simp: encode_addr_def okA_def ret_def error_printf_def bindA_def modA_def split: if_splits)
  then show ?thesis
    by (simp add: encode_packet_def encode_addr_def stepA_def bindA_def okA_def ret_def packet_of_def MAX_ADDR_LEN_def)
qed

lemma stage_cases:
  assumes "stepA (or_done b m) f s = (y, t)"
  obtains (go) z u where "m s = (Inr (Inr z), u)" "f z u = (y, t)"
  | (code) r where "m s = (Inr (Inl r), t)" "y = Inr (Inl (r, b))"
  | (thrown) w where "m s = (Inl w, t)" "y = Inl w"
  using assms by (elim stepA_cases or_done_cases) auto

text \<open>The three ways the steps of a round end: in the judgement of what was received, in an
  error of the socket or an exception, or in a packet that could not be made.\<close>

lemma steps_run:
  assumes "handshake_steps e h sid ci srv s = (y, t)"
  shows "(\<exists>p q u d. traffic s (enc32 SIG @ frame p) (enc32 SIG @ frame q) t \<and> length p \<le> 0x100000 \<and>
        decrypt_packet e h (packet_of e sid ci (my_sig (\<not> srv))) p u = (Inr d, t) \<and>
        y = Inr (case d of Inl r \<Rightarrow> Inl (r, False) | Inr z \<Rightarrow> Inr z)) \<or>
    (\<exists>i a b q. traffic s i a t \<and> enc32 SIG @ frame q = a @ b \<and> (length a \<le> 4 \<or> take 4 i = enc32 SIG) \<and> ((\<exists>w. y = Inl w) \<or> (\<exists>r \<in> plain_codes. y = Inr (Inl (r, True))))) \<or>
    (traffic s (enc32 SIG) (enc32 SIG) t \<and> (\<exists>r \<in> local_codes. y = Inr (Inl (r, False)) \<and> (r = HSHAKE_ABORT \<longrightarrow> last_security_message t)))"
    (is "?judged \<or> ?broken \<or> ?unmade")
proof -
  have brk: "?judged \<or> ?broken \<or> ?unmade" if "traffic s i a t" "enc32 SIG @ frame q = a @ b" "length a \<le> 4 \<or> take 4 i = enc32 SIG"
    "(\<exists>w. y = Inl w) \<or> (\<exists>r \<in> plain_codes. y = Inr (Inl (r, True)))" for i a b q using that by blast
  have unm: "?judged \<or> ?broken \<or> ?unmade" if "traffic s (enc32 SIG) (enc32 SIG) t" "y = Inr (Inl (r, False))"
    "r \<in> local_codes \<and> (r = HSHAKE_ABORT \<longrightarrow> last_security_message t)" for r using that by blast
  from assms show ?thesis unfolding handshake_steps_def
  proof (cases rule: stage_cases)
    case (code r)
    then obtain i a b where "enc32 SIG = a @ b" "traffic s i a t" "r \<in> plain_codes"
      using exchange_sig_run [OF code(1)] by auto
    moreover from this have "length a \<le> 4" by (metis length_append length_enc(2) le_add1)
    ultimately show ?thesis using code(2) by (intro brk [of i a "[]" "b @ frame []"]) auto
  next
    case (thrown w)
    then obtain i a b where "enc32 SIG = a @ b" "traffic s i a t" using exchange_sig_run [OF thrown(1)] by auto
    moreover from this have "length a \<le> 4" by (metis length_append length_enc(2) le_add1)
    ultimately show ?thesis using thrown(2) by (intro brk [of i a "[]" "b @ frame []"]) auto
  next
    case sig: (go z s1)
    have tr1: "traffic s (enc32 SIG) (enc32 SIG) s1" using exchange_sig_run [OF sig(1)] by auto
    from sig(2) show ?thesis
    proof (cases rule: stage_cases)
      case (code r)
      then show ?thesis using unm [of r] traffic_trans [OF tr1 silentD [OF silent_encode code(1)]] codedD [OF coded_encode code(1)]
        by auto
    next
      case (thrown w)
      show ?thesis by (rule brk [of "enc32 SIG" "enc32 SIG" "[]" "frame []"])
        (use traffic_trans [OF tr1 silentD [OF silent_encode thrown(1)]] thrown(2) in auto)
    next
      case pk: (go packet s2)
      have s2: "s2 = s1" by (rule encode_packet_run [OF pk(1)])
      from pk(2) show ?thesis
      proof (cases rule: stage_cases)
        case (code r)
        then show ?thesis using unm [of r] traffic_trans [OF tr1 silentD [OF silent_encrypt code(1)[unfolded s2]]]
            codedD [OF coded_encrypt code(1)] by auto
      next
        case (thrown w)
        show ?thesis by (rule brk [of "enc32 SIG" "enc32 SIG" "[]" "frame []"])
          (use traffic_trans [OF tr1 silentD [OF silent_encrypt thrown(1)[unfolded s2]]] thrown(2) in auto)
      next
        case cr: (go q s3)
        have tr3: "traffic s (enc32 SIG) (enc32 SIG) s3"
          using traffic_trans [OF tr1 silentD [OF silent_encrypt cr(1)[unfolded s2]]] by simp
        from cr(2) show ?thesis
        proof (cases rule: stage_cases)
          case (code r)
          then obtain a b where "frame q = a @ b" "traffic s3 [] a t" "r = HSHAKE_INTERNAL_ERROR"
            using send_packet_run [OF code(1)] by auto
          then show ?thesis using traffic_trans [OF tr3, of "[]" a t] code(2)
            by (intro brk [of "enc32 SIG" "enc32 SIG @ a" q b]) auto
        next
          case (thrown w)
          then obtain a b where "frame q = a @ b" "traffic s3 [] a t" using send_packet_run [OF thrown(1)] by auto
          then show ?thesis using traffic_trans [OF tr3, of "[]" a t] thrown(2)
            by (intro brk [of "enc32 SIG" "enc32 SIG @ a" q b]) auto
        next
          case sd: (go z4 s4)
          have "traffic s3 [] (frame q) s4" using send_packet_run [OF sd(1)] by auto
          then have tr4: "traffic s (enc32 SIG) (enc32 SIG @ frame q) s4" using traffic_trans [OF tr3, of "[]"] by simp
          from sd(2) show ?thesis
          proof (cases rule: stage_cases)
            case (code r)
            then obtain i where "traffic s4 i [] t" "r \<in> plain_codes" using recv_packet_run [OF code(1)] by auto
            then show ?thesis using traffic_trans [OF tr4, of i "[]" t] code(2)
              by (intro brk [of "enc32 SIG @ i" "enc32 SIG @ frame q" q "[]"]) auto
          next
            case (thrown w)
            then obtain i where "traffic s4 i [] t" using recv_packet_run [OF thrown(1)] by auto
            then show ?thesis using traffic_trans [OF tr4, of i "[]" t] thrown(2)
              by (intro brk [of "enc32 SIG @ i" "enc32 SIG @ frame q" q "[]"]) auto
          next
            case rc: (go p s5)
            then have p: "length p \<le> 0x100000" "traffic s4 (frame p) [] s5" using recv_packet_run [OF rc(1)] by auto
            have tr5: "traffic s (enc32 SIG @ frame p) (enc32 SIG @ frame q) s5" using traffic_trans [OF tr4 p(2)] by simp
            have ex: "encode_packet e sid (server_addr ci) (client_addr ci) (my_sig (\<not> srv)) s5 =
                (Inr (Inr (packet_of e sid ci (my_sig (\<not> srv)))), s5)" by (rule encode_packet_again [OF pk(1)])
            from rc(2) have "or_done False (decrypt_packet e h (packet_of e sid ci (my_sig (\<not> srv))) p) s5 = (y, t)"
              by (simp add: stepA_def or_done_def bindA_def ret_def ex)
            then show ?thesis
            proof (cases rule: or_done_cases)
              case (thrown w)
              then show ?thesis using traffic_trans [OF tr5 silentD [OF silent_decrypt thrown(1)]]
                by (intro brk [of "enc32 SIG @ frame p" "enc32 SIG @ frame q" q "[]"]) auto
            next
              case (fine z)
              then show ?thesis using traffic_trans [OF tr5 silentD [OF silent_decrypt fine(1)]] p(1)
                by (intro disjI1 exI [of _ p] exI [of _ q] exI [of _ s5] exI [of _ "Inr z"]) simp
            next
              case (code r)
              then show ?thesis using traffic_trans [OF tr5 silentD [OF silent_decrypt code(1)]] p(1)
                by (intro disjI1 exI [of _ p] exI [of _ q] exI [of _ s5] exI [of _ "Inl r"]) simp
            qed
          qed
        qed
      qed
    qed
  qed
qed

lemma shared_check: "r \<in> check_codes \<or> r = 0 \<Longrightarrow> \<exists>c. shared_code r = Some c"
  by (auto simp: shared_code_def hshake_defs)

lemma judged_end:
  assumes "decrypt_packet e h ex p u = (Inr d, v)" and "saved_key t = saved_key v"
    and "last_security_message v \<longrightarrow> last_security_message t" and "r = (case d of Inl k \<Rightarrow> k | Inr _ \<Rightarrow> 0)"
  shows "judged e h ex p r t" "r \<in> check_codes \<or> r = 0"
proof -
  have k: "saved_key v = saved_key u" using keepsD [OF keeps_key_decrypt [of "saved_key u" e h ex p], of u] assms(1) by simp
  have c: "(r \<in> check_codes \<or> r = 0) \<and> (r = HSHAKE_ABORT \<longrightarrow> last_security_message v)"
    using codedD [OF coded_decrypt] assms(1,4) by (cases d) (auto simp: hshake_defs)
  then show "r \<in> check_codes \<or> r = 0" by blast
  show "judged e h ex p r t" unfolding judged_def
    by (intro exI [of _ u] exI [of _ v] exI [of _ d]) (use assms k c in simp)
qed

lemma share_keeps:
  assumes "share_result e r s = (x, t)"
  shows "saved_key t = saved_key s" "last_security_message s \<longrightarrow> last_security_message t"
proof -
  have "keeps (\<lambda>t. saved_key t = saved_key s) (share_result e r)" by (rule keeps_share) (rule keeps_key_io)+
  from keepsD [OF this, of s] show "saved_key t = saved_key s" using assms by simp
  have "keeps last_security_message (share_result e r)" by (rule keeps_share) (rule keeps_alarm_io)+
  from keepsD [OF this, of s] show "last_security_message s \<longrightarrow> last_security_message t" using assms by simp
qed

lemma share_short:
  assumes "share_result e r s = (x, t)" and "shared_code r = Some c"
  shows "\<exists>i a. traffic s i a t \<and> length a \<le> 4"
  using share_result_run [OF assms]
proof (elim disjE exE conjE)
  fix b assume "traffic s b (enc_int c) t"
  then show ?thesis by (intro exI [of _ b] exI [of _ "enc_int c"]) simp
qed (metis enc_int_length le_add1 length_append)+

text \<open>A round ends mute, without a judgement of the peer, or with a verdict that may have been
  exchanged only in part.\<close>

definition mute :: "byte list \<Rightarrow> byte list \<Rightarrow> bool" where
  "mute i a \<longleftrightarrow> (\<forall>p w. length p \<le> 0x100000 \<longrightarrow> a = enc32 SIG @ frame p @ w \<longrightarrow> w = []) \<and>
     (length a \<le> 4 \<or> take 4 i = enc32 SIG) \<and> (\<exists>w. enc32 SIG @ w = a \<or> a @ w = enc32 SIG)"

lemma mute_sent:
  assumes "enc32 SIG @ frame q = a @ b" and "length a \<le> 4 \<or> take 4 i = enc32 SIG"
  shows "mute i a"
  unfolding mute_def
proof (intro conjI allI impI)
  fix p w assume p: "length p \<le> 0x100000" "a = enc32 SIG @ frame p @ w"
  then have "frame p @ (w @ b) = frame q @ []" using assms(1) by simp
  then show "w = []" using frame_delimits [OF p(1)] by blast
next
  show "\<exists>w. enc32 SIG @ w = a \<or> a @ w = enc32 SIG" using assms(1) by (auto simp: append_eq_append_conv2)
qed (rule assms(2))

lemma mute_short:
  assumes "length a \<le> 4"
  shows "mute (enc32 SIG @ i) (enc32 SIG @ a)"
  unfolding mute_def
proof (intro conjI allI impI)
  fix p w assume p: "length p \<le> 0x100000" "enc32 SIG @ a = enc32 SIG @ frame p @ w"
  then have "length (frame p) + length w \<le> 4" using assms by simp
  then show "w = []" using frame_short [OF p(1)] by simp
qed auto

definition exchanged :: "int \<Rightarrow> int \<Rightarrow> byte list \<Rightarrow> byte list \<Rightarrow> exn + int \<Rightarrow> bool" where
  "exchanged r c j a x \<longleftrightarrow> shared_code r = Some c \<and>
     (length j = 4 \<and> a = enc_int c \<and> x = Inr (if r = 0 \<and> verdict j \<noteq> 0 then verdict j else r) \<or>
      length j < 4 \<and> (\<exists>d. enc_int c = a @ d \<and> (d = [] \<or> j = [])) \<and> (x = Inl No_return \<or> x = Inr (if r = 0 then HSHAKE_INTERNAL_ERROR else r)))"

lemma exchanged_part:
  "enc_int c = a @ b \<Longrightarrow> length i < 4 \<Longrightarrow> b = [] \<or> i = [] \<Longrightarrow> shared_code r = Some c \<Longrightarrow>
   x = Inl No_return \<or> x = Inr (if r = 0 then HSHAKE_INTERNAL_ERROR else r) \<Longrightarrow> exchanged r c i a x"
  by (auto simp: exchanged_def)

lemma round_run:
  assumes "handshake_main e h sid ci srv s = (x, t)"
  obtains (mute) i a where "traffic s i a t" "mute i a" "\<And>y. x = Inr y \<Longrightarrow> y \<in> local_codes"
      "x = Inr HSHAKE_ABORT \<Longrightarrow> last_security_message t"
  | (verdict) p q r c j a where "traffic s (enc32 SIG @ frame p @ j) (enc32 SIG @ frame q @ a) t" "length p \<le> 0x100000"
      "judged e h (packet_of e sid ci (my_sig (\<not> srv))) p r t" "exchanged r c j a x"
proof -
  let ?ex = "packet_of e sid ci (my_sig (\<not> srv))"
  obtain y u where st: "handshake_steps e h sid ci srv s = (y, u)" by (cases "handshake_steps e h sid ci srv s")
  have share: "\<exists>z. share_result e r u = (z, t) \<and> x = (case z of Inl w \<Rightarrow> Inl w | Inr peer \<Rightarrow> Inr (if r = 0 \<and> peer \<noteq> 0 then peer else r))"
    if "y = Inr (Inl (r, False)) \<or> y = Inr (Inr ()) \<and> r = 0" for r
    using assms st that by (cases "share_result e r u") (auto simp: handshake_main_def bindA_def ret_def split: sum.splits)
  from steps_run [OF st] show ?thesis
  proof (elim disjE exE conjE bexE)
    fix p q v d
    assume tr: "traffic s (enc32 SIG @ frame p) (enc32 SIG @ frame q) u" "length p \<le> 0x100000"
      and dec: "decrypt_packet e h ?ex p v = (Inr d, u)" and y: "y = Inr (case d of Inl r \<Rightarrow> Inl (r, False) | Inr z \<Rightarrow> Inr z)"
    define r where "r = (case d of Inl k \<Rightarrow> k | Inr _ \<Rightarrow> 0)"
    have "y = Inr (Inl (r, False)) \<or> y = Inr (Inr ()) \<and> r = 0" using y by (cases d) (simp_all add: r_def)
    then obtain z where z: "share_result e r u = (z, t)"
      "x = (case z of Inl w \<Rightarrow> Inl w | Inr peer \<Rightarrow> Inr (if r = 0 \<and> peer \<noteq> 0 then peer else r))" using share by blast
    note j = judged_end [OF dec share_keeps [OF z(1)] r_def]
    obtain c where c: "shared_code r = Some c" using shared_check [OF j(2)] by blast
    have ex: ?thesis if "traffic u b a t" "exchanged r c b a x" for b a
      using verdict [OF _ tr(2) j(1) that(2), of q] traffic_trans [OF tr(1) that(1)] by simp
    from share_result_run [OF z(1) c] show ?thesis
    proof (rule disjE)
      assume "\<exists>b. length b = 4 \<and> z = Inr (Handshake_Run.verdict b) \<and> traffic u b (enc_int c) t"
      then obtain b where b: "length b = 4" "z = Inr (Handshake_Run.verdict b)" "traffic u b (enc_int c) t" by blast
      show ?thesis by (rule ex [OF b(3)]) (use b(1,2) z(2) c in \<open>simp add: exchanged_def\<close>)
    next
      assume "\<exists>i a b. enc_int c = a @ b \<and> traffic u i a t \<and> length i < 4 \<and> (b = [] \<or> i = []) \<and>
        (z = Inl No_return \<or> z = Inr HSHAKE_INTERNAL_ERROR)"
      then obtain i a b where b: "enc_int c = a @ b" "traffic u i a t" "length i < 4" "b = [] \<or> i = []"
        "z = Inl No_return \<or> z = Inr HSHAKE_INTERNAL_ERROR" by blast
      have "x = Inl No_return \<or> x = Inr (if r = 0 then HSHAKE_INTERNAL_ERROR else r)"
        using b(5) z(2) by (auto simp: HSHAKE_INTERNAL_ERROR_def)
      then show ?thesis using ex [OF b(2) exchanged_part [OF b(1,3,4) c]] by blast
    qed
  next
    fix i a b q w assume b: "traffic s i a u" "enc32 SIG @ frame q = a @ b" "y = Inl w" "length a \<le> 4"
    then have "x = Inl w" "t = u" using assms st by (simp_all add: handshake_main_def bindA_def)
    then show ?thesis using mute [OF b(1)[folded \<open>t = u\<close>] mute_sent [OF b(2)]] b(4) by simp
  next
    fix i a b q w assume b: "traffic s i a u" "enc32 SIG @ frame q = a @ b" "y = Inl w" "take 4 i = enc32 SIG"
    then have "x = Inl w" "t = u" using assms st by (simp_all add: handshake_main_def bindA_def)
    then show ?thesis using mute [OF b(1)[folded \<open>t = u\<close>] mute_sent [OF b(2)]] b(4) by simp
  next
    fix i a b q r assume b: "traffic s i a u" "enc32 SIG @ frame q = a @ b" "y = Inr (Inl (r, True))" "r \<in> plain_codes" "length a \<le> 4"
    then have "x = Inr r" "t = u" using assms st by (simp_all add: handshake_main_def bindA_def ret_def)
    then show ?thesis using mute [OF b(1)[folded \<open>t = u\<close>] mute_sent [OF b(2)]] b(4,5) by (auto simp: hshake_defs)
  next
    fix i a b q r assume b: "traffic s i a u" "enc32 SIG @ frame q = a @ b" "y = Inr (Inl (r, True))" "r \<in> plain_codes" "take 4 i = enc32 SIG"
    then have "x = Inr r" "t = u" using assms st by (simp_all add: handshake_main_def bindA_def ret_def)
    then show ?thesis using mute [OF b(1)[folded \<open>t = u\<close>] mute_sent [OF b(2)]] b(4,5) by (auto simp: hshake_defs)
  next
    fix r assume b: "traffic s (enc32 SIG) (enc32 SIG) u" "r \<in> local_codes" "y = Inr (Inl (r, False))"
      "r = HSHAKE_ABORT \<longrightarrow> last_security_message u"
    obtain z where z: "share_result e r u = (z, t)" "x = (case z of Inl w \<Rightarrow> Inl w | Inr peer \<Rightarrow> Inr (if r = 0 \<and> peer \<noteq> 0 then peer else r))"
      using share b(3) by blast
    have r: "r \<noteq> 0" using b(2) by (auto simp: hshake_defs)
    obtain c where c: "shared_code r = Some c" using shared_check [of r] b(2) by blast
    have x: "x = (case z of Inl w \<Rightarrow> Inl w | Inr _ \<Rightarrow> Inr r)" using z(2) r by (simp split: sum.split)
    obtain i a where ia: "traffic u i a t" "length a \<le> 4" using share_short [OF z(1) c] by blast
    show ?thesis
      by (rule mute [OF traffic_trans [OF b(1) ia(1)] mute_short [OF ia(2)]])
        (use x b(2,4) share_keeps(2) [OF z(1)] in \<open>auto split: sum.splits\<close>)
  qed
qed

end
