(* ===== verification/Handshake_Pair.thy ===== *)
theory Handshake_Pair
  imports Handshake_Run
begin

text \<open>
  Both ends of the handshake. Neither is assumed to succeed in any call: the kernel may fail,
  time out or cut short any read and write on either side. What links the two runs is only that
  all either side is ever offered is among what the other sends.
\<close>

section \<open>Several rounds\<close>

definition sig0 :: byte where "sig0 = 0xC1"

lemma nat_le_4: "nat_le 4 k = [of_nat k, of_nat (k div 256), of_nat (k div 256 div 256), of_nat (k div 256 div 256 div 256)]"
proof -
  have "4 = Suc (Suc (Suc (Suc 0)))" by simp
  then show ?thesis by (simp only: nat_le.simps)
qed

lemma enc32_SIG: "enc32 SIG = [0xC1, 0x96, 0x5D, 0x84]"
  by (simp add: enc32_def SIG_def nat_le_4)

lemma sig_first: "enc32 SIG @ w = x \<Longrightarrow> x \<noteq> [] \<and> hd x = sig0"
  by (auto simp: enc32_SIG sig0_def)

lemma enc_int_codes:
  "enc_int HSHAKE_SUCCESS = [0, 0, 0, 0]" "enc_int HSHAKE_DROP_CONNECTION = [0xFE, 0xFF, 0xFF, 0xFF]"
  "enc_int HSHAKE_AGAIN = [0xF0, 0xFF, 0xFF, 0xFF]"
proof -
  have "word_of_int (-2) = (0xFFFFFFFE :: u32)" "word_of_int (-16) = (0xFFFFFFF0 :: u32)" by simp_all
  then show "enc_int HSHAKE_SUCCESS = [0, 0, 0, 0]" "enc_int HSHAKE_DROP_CONNECTION = [0xFE, 0xFF, 0xFF, 0xFF]"
    "enc_int HSHAKE_AGAIN = [0xF0, 0xFF, 0xFF, 0xFF]"
    by (simp_all add: enc_int_def enc32_def hshake_defs nat_le_4)
qed

lemma shared_code_cases:
  "shared_code r = Some c \<Longrightarrow> (r = 0 \<and> c = HSHAKE_SUCCESS) \<or> (r = HSHAKE_AGAIN \<and> c = HSHAKE_AGAIN) \<or>
     (r \<in> local_codes \<and> c = HSHAKE_DROP_CONNECTION)"
  by (auto simp: shared_code_def hshake_defs split: if_splits)

lemma no_sig_in_code: "shared_code r = Some c \<Longrightarrow> sig0 \<notin> set (enc_int c)"
  by (drule shared_code_cases) (auto simp: enc_int_codes sig0_def)

lemma enc_int_inj: "shared_code r = Some c \<Longrightarrow> shared_code q = Some d \<Longrightarrow> enc_int c = enc_int d \<Longrightarrow> c = d"
  by (drule shared_code_cases, drule shared_code_cases) (auto simp: enc_int_codes)

lemma verdict_enc: "shared_code r = Some c \<Longrightarrow> verdict (enc_int c) = (if r = 0 then 0 else if r = HSHAKE_AGAIN then HSHAKE_AGAIN else HSHAKE_CONNECTION_REFUSED)"
  by (drule shared_code_cases) (auto simp: verdict_def dec_int_def enc_int_def hshake_defs)

lemma verdict_0: "length j = 4 \<Longrightarrow> verdict j = 0 \<Longrightarrow> j = enc_int HSHAKE_SUCCESS"
proof -
  assume j: "length j = 4" and v: "verdict j = 0"
  have "dec_int j = 0" using v by (auto simp: verdict_def hshake_defs split: if_splits)
  then have "sint (dec32 j) = 0" by (simp add: dec_int_def)
  then have "dec32 j = 0" by (simp add: signed_eq_0_iff)
  then show ?thesis using enc32_dec32 [OF j] by (simp add: enc_int_def HSHAKE_SUCCESS_def)
qed

text \<open>A side whose input does not begin with the signature does not get past it.\<close>

definition off_track :: "hs \<Rightarrow> bool" where "off_track s \<longleftrightarrow> stream s = [] \<or> hd (stream s) \<noteq> sig0"

lemma off_track_round:
  assumes "handshake_main e h sid ci srv s = (x, t)" and "off_track s"
  shows "(\<exists>a. hs_sent t = hs_sent s @ a \<and> length a \<le> 4) \<and> x \<noteq> Inr 0 \<and> x \<noteq> Inr HSHAKE_AGAIN"
proof (rule round_run [OF assms(1)])
  fix i a assume a: "traffic s i a t" "mute i a" "\<And>y. x = Inr y \<Longrightarrow> y \<in> local_codes"
  have "take 4 i \<noteq> enc32 SIG"
  proof
    assume "take 4 i = enc32 SIG"
    then have "enc32 SIG @ drop 4 i @ stream t = stream s" using a(1) append_take_drop_id [of 4 i]
      by (auto simp: traffic_def)
    from sig_first [OF this] show False using assms(2) by (simp add: off_track_def)
  qed
  moreover have "x \<noteq> Inr 0" "x \<noteq> Inr HSHAKE_AGAIN" using a(3) by (auto simp: hshake_defs)
  ultimately show ?thesis using a(1,2) by (auto simp: mute_def traffic_def)
next
  fix p j o2 assume "traffic s (enc32 SIG @ frame p @ j) o2 t"
  then have "enc32 SIG @ frame p @ j @ stream t = stream s" by (simp add: traffic_def)
  from sig_first [OF this] show ?thesis using assms(2) by (simp add: off_track_def)
qed

lemma off_track_rounds:
  assumes "handshake_rounds e h sid ci srv n s = (x, t)" and "off_track s"
  shows "(\<exists>a. hs_sent t = hs_sent s @ a \<and> length a \<le> 4) \<and> x \<noteq> Inr 0"
proof (cases n)
  case 0
  then show ?thesis using assms(1)
    by (auto simp: security_error_printf_def bindA_def modA_def ret_def hshake_defs)
next
  case (Suc m)
  obtain y u where r: "handshake_main e h sid ci srv s = (y, u)" by (cases "handshake_main e h sid ci srv s")
  have "x = y \<and> t = u" using assms(1) Suc r off_track_round [OF r assms(2)]
    by (auto simp: bindA_def ret_def split: sum.splits if_splits)
  then show ?thesis using off_track_round [OF r assms(2)] by auto
qed

text \<open>Two rounds at a time.\<close>

lemma rounds_step:
  assumes "handshake_rounds e h sid ci srv (Suc n) s = (x, t)"
  obtains y u where "handshake_main e h sid ci srv s = (y, u)"
    "if y = Inr HSHAKE_AGAIN then handshake_rounds e h sid ci srv n u = (x, t) else x = y \<and> t = u"
proof (cases "handshake_main e h sid ci srv s")
  case (Pair y u)
  then show ?thesis using assms that [of y u]
    by (cases y) (auto simp: bindA_def ret_def split: if_splits)
qed

lemma rounds_sent:
  "handshake_rounds e h sid ci srv n s = (x, t) \<Longrightarrow> \<exists>a. hs_sent t = hs_sent s @ a \<and> (a = [] \<or> hd a = sig0)"
proof (induction n arbitrary: s)
  case 0
  then show ?case by (auto simp: security_error_printf_def bindA_def modA_def ret_def)
next
  case (Suc n)
  obtain y u where r: "handshake_main e h sid ci srv s = (y, u)"
    "if y = Inr HSHAKE_AGAIN then handshake_rounds e h sid ci srv n u = (x, t) else x = y \<and> t = u"
    by (rule rounds_step [OF Suc.prems])
  have "\<exists>a. hs_sent u = hs_sent s @ a \<and> (a = [] \<or> hd a = sig0)"
  proof (rule round_run [OF r(1)])
    fix i a assume "traffic s i a u" "mute i a"
    then show ?thesis unfolding mute_def traffic_def enc32_SIG sig0_def
      by (auto simp: append_eq_append_conv2 append_eq_Cons_conv)
  next
    fix i p q j a assume "traffic s i (enc32 SIG @ frame q @ a) u"
    then show ?thesis using sig_first [OF refl] by (auto simp: traffic_def)
  qed
  then obtain a where a: "hs_sent u = hs_sent s @ a" "a = [] \<or> hd a = sig0" by blast
  show ?case
  proof (cases "y = Inr HSHAKE_AGAIN")
    case True
    then obtain b where "hs_sent t = hs_sent u @ b" "b = [] \<or> hd b = sig0" using Suc.IH [of u] r(2) by auto
    then show ?thesis using a by (intro exI [of _ "a @ b"]) (cases a; auto)
  next
    case False
    then show ?thesis using a r(2) by auto
  qed
qed

lemma frame_length: "length p \<le> 0x100000 \<Longrightarrow> 4 \<le> length (frame p)"
  by (simp add: frame_short)

text \<open>Success takes at least a signature and a packet.\<close>

lemma success_reads:
  assumes "handshake_rounds e h sid ci srv n s = (Inr 0, t)"
  shows "8 \<le> length (stream s)"
proof (cases n)
  case 0
  then show ?thesis using assms by (auto simp: security_error_printf_def bindA_def modA_def ret_def hshake_defs)
next
  case (Suc m)
  obtain y u where r: "handshake_main e h sid ci srv s = (y, u)"
    "if y = Inr HSHAKE_AGAIN then handshake_rounds e h sid ci srv m u = (Inr 0, t) else Inr 0 = y \<and> t = u"
    using assms unfolding Suc by (rule rounds_step)
  show ?thesis
  proof (rule round_run [OF r(1)])
    fix i a assume "\<And>z. y = Inr z \<Longrightarrow> z \<in> local_codes"
    then show ?thesis using r(2) by (force simp: hshake_defs split: if_splits)
  next
    fix p j w assume "traffic s (enc32 SIG @ frame p @ j) w u" "length p \<le> 0x100000"
    then show ?thesis using frame_length [of p] by (simp add: traffic_def)
  qed
qed

section \<open>Agreement\<close>

text \<open>All that the side starting in \<open>s\<close> is ever offered is sent by the other from \<open>s2\<close> to \<open>t2\<close>.\<close>

definition wired :: "hs \<Rightarrow> hs \<Rightarrow> hs \<Rightarrow> bool" where
  "wired s2 t2 s \<longleftrightarrow> (\<exists>y. hs_sent t2 = hs_sent s2 @ stream s @ y)"

abbreviation accepted :: "exn + int \<Rightarrow> bool" where
  "accepted x \<equiv> x = Inr 0 \<or> x = Inr HSHAKE_INTERNAL_ERROR \<or> x = Inl No_return"

lemma after_code:
  assumes "shared_code r = Some c" and "enc_int c = a @ d" and "j @ st @ y = a @ rest" and "length j < length a"
  shows "st = [] \<or> hd st \<noteq> sig0"
proof (cases st)
  case (Cons b st2)
  have "b = (j @ st @ y) ! length j" by (simp add: Cons nth_append)
  also have "\<dots> = a ! length j" using assms(4) by (simp add: assms(3) nth_append)
  finally have "b \<in> set (enc_int c)" using assms(2,4) by simp
  then show ?thesis using no_sig_in_code [OF assms(1)] Cons by auto
qed simp

text \<open>One side in its last round, which is a success.\<close>

lemma last_round:
  assumes A: "exchanged r c j a (Inr 0)" and B: "exchanged r2 c2 j2 a2 x"
    and ab: "j @ y = a2 @ rest2" "rest2 = [] \<or> hd rest2 = sig0" and ba: "j2 @ z = a"
  shows "accepted x"
proof -
  have r: "r = 0" and c: "shared_code 0 = Some c" and j: "j = enc_int HSHAKE_SUCCESS" and a: "a = enc_int c"
    using A verdict_0 [of j] by (auto simp: exchanged_def hshake_defs split: if_splits)
  have c0: "c = HSHAKE_SUCCESS" using shared_code_cases [OF c] by (auto simp: hshake_defs)
  from B obtain d2 where c2: "shared_code r2 = Some c2" "enc_int c2 = a2 @ d2" by (auto simp: exchanged_def)
  show ?thesis
  proof (cases "r2 = 0")
    case True
    have "j2 = enc_int HSHAKE_SUCCESS" if "length j2 = 4"
    proof -
      have "length j2 + length z = 4" using arg_cong [OF ba, of length] by (simp add: a)
      then show ?thesis using ba that by (simp add: a c0)
    qed
    then show ?thesis using B True verdict_enc [OF c] by (auto simp: exchanged_def c0)
  next
    case False
    then have h: "hd (enc_int c2) \<noteq> 0" "enc_int c2 \<noteq> []" using shared_code_cases [OF c2(1)] by (auto simp: enc_int_codes)
    show ?thesis
    proof (cases "a2 = []")
      case True
      then show ?thesis using ab by (auto simp: j enc_int_codes sig0_def)
    next
      case False
      then have "hd (enc_int c2) = hd a2" by (simp add: c2(2))
      also have "\<dots> = hd (j @ y)" using ab(1) False by simp
      finally show ?thesis using h by (simp add: j enc_int_codes)
    qed
  qed
qed

lemma rounds_agree:
  assumes "handshake_rounds e h sid ci srv n s = (Inr 0, t)"
    and "handshake_rounds e2 h2 sid2 ci2 srv2 m s2 = (x, t2)"
    and "wired s2 t2 s" and "wired s t s2"
  shows "accepted x"
  using assms
proof (induction n arbitrary: m s s2)
  case 0
  then show ?case by (auto simp: security_error_printf_def bindA_def modA_def ret_def hshake_defs)
next
  case (Suc n)
  let ?on = "off_track"
  obtain xa sa where A: "handshake_main e h sid ci srv s = (xa, sa)"
    "if xa = Inr HSHAKE_AGAIN then handshake_rounds e h sid ci srv n sa = (Inr 0, t) else Inr 0 = xa \<and> t = sa"
    by (rule rounds_step [OF Suc.prems(1)])
  have on: False if "off_track s" using off_track_rounds [OF Suc.prems(1) that] by simp
  have on2: False if "xa = Inr HSHAKE_AGAIN" "off_track sa" using off_track_rounds [OF _ that(2), of e h sid ci srv n "Inr 0" t] A(2) that(1) by simp
  obtain y where y: "hs_sent t2 = hs_sent s2 @ stream s @ y" using Suc.prems(3) by (auto simp: wired_def)
  obtain z where z: "hs_sent t = hs_sent s @ stream s2 @ z" using Suc.prems(4) by (auto simp: wired_def)
  show ?case
  proof (cases m)
    case 0
    then have "stream s = []" using Suc.prems(2) y by (auto simp: security_error_printf_def bindA_def modA_def ret_def)
    then show ?thesis using on by (simp add: off_track_def)
  next
    case (Suc k)
    obtain xb sb where B: "handshake_main e2 h2 sid2 ci2 srv2 s2 = (xb, sb)"
      "if xb = Inr HSHAKE_AGAIN then handshake_rounds e2 h2 sid2 ci2 srv2 k sb = (x, t2) else x = xb \<and> t2 = sb"
      using Suc.prems(2) unfolding Suc by (rule rounds_step)
    obtain rest2 where r2: "hs_sent t2 = hs_sent sb @ rest2" "rest2 = [] \<or> hd rest2 = sig0" "xb \<noteq> Inr HSHAKE_AGAIN \<longrightarrow> rest2 = []"
      using B(2) rounds_sent [of e2 h2 sid2 ci2 srv2 k sb x t2] by (cases "xb = Inr HSHAKE_AGAIN") auto
    obtain rest where r1: "hs_sent t = hs_sent sa @ rest" "xa \<noteq> Inr HSHAKE_AGAIN \<longrightarrow> rest = []"
      using A(2) rounds_sent [of e h sid ci srv n sa "Inr 0" t] by (cases "xa = Inr HSHAKE_AGAIN") auto
    show ?thesis
    proof (rule round_run [OF A(1)])
      fix i a assume "\<And>w. xa = Inr w \<Longrightarrow> w \<in> local_codes"
      then show ?thesis using A(2) by (force simp: hshake_defs split: if_splits)
    next
      fix p q r c j a
      assume a1: "traffic s (enc32 SIG @ frame p @ j) (enc32 SIG @ frame q @ a) sa" "length p \<le> 0x100000" "exchanged r c j a xa"
      have st: "stream s = enc32 SIG @ frame p @ j @ stream sa" using a1(1) by (simp add: traffic_def)
      show ?thesis
      proof (rule round_run [OF B(1)])
        fix i2 a2 assume b: "traffic s2 i2 a2 sb" "mute i2 a2" "\<And>w. xb = Inr w \<Longrightarrow> w \<in> local_codes"
        then have "rest2 = []" using r2(3) by (force simp: hshake_defs)
        then have "a2 = enc32 SIG @ frame p @ (j @ stream sa @ y)" using b(1) r2(1) y st by (simp add: traffic_def)
        then have "j = [] \<and> stream sa = []" using b(2) a1(2) unfolding mute_def by blast
        then show ?thesis using on2 a1(3) A(2) by (auto simp: exchanged_def off_track_def hshake_defs split: if_splits)
      next
        fix p2 q2 rr2 c2 j2 a2
        assume b: "traffic s2 (enc32 SIG @ frame p2 @ j2) (enc32 SIG @ frame q2 @ a2) sb" "length p2 \<le> 0x100000"
          "exchanged rr2 c2 j2 a2 xb"
        have st2: "stream s2 = enc32 SIG @ frame p2 @ j2 @ stream sb" using b(1) by (simp add: traffic_def)
        have "frame p @ (j @ stream sa @ y) = frame q2 @ (a2 @ rest2)" using b(1) r2(1) y st by (simp add: traffic_def)
        then have ab: "j @ stream sa @ y = a2 @ rest2" using frame_delimits [OF a1(2)] by blast
        have "frame p2 @ (j2 @ stream sb @ z) = frame q @ (a @ rest)" using a1(1) r1(1) z st2 by (simp add: traffic_def)
        then have ba: "j2 @ stream sb @ z = a @ rest" using frame_delimits [OF b(2)] by blast
        from b(3) obtain d2 where c2: "shared_code rr2 = Some c2" "enc_int c2 = a2 @ d2" "d2 = [] \<or> j2 = []" "length j2 \<le> 4"
          by (auto simp: exchanged_def)
        from a1(3) obtain d where c1: "shared_code r = Some c" "enc_int c = a @ d" "d = [] \<or> j = []" "length j \<le> 4"
          by (auto simp: exchanged_def)
        show ?thesis
        proof (cases "xa = Inr HSHAKE_AGAIN")
          case False
          then have xa: "xa = Inr 0" "rest = []" using A(2) r1(2) by auto
          have "length j = 4 \<and> a = enc_int c" using a1(3) xa(1) by (auto simp: exchanged_def hshake_defs split: if_splits)
          have acc: "accepted xb" using last_round [OF a1(3)[unfolded xa(1)] b(3) ab r2(2)] ba xa(2) by simp
          then have "xb \<noteq> Inr HSHAKE_AGAIN" by (auto simp: hshake_defs)
          then show ?thesis using B(2) acc by simp
        next
          case True
          then have An: "handshake_rounds e h sid ci srv n sa = (Inr 0, t)" using A(2) by simp
          have long: "8 \<le> length (stream sa)" by (rule success_reads [OF An])
          have lj: "length a2 \<le> length j"
            using after_code [OF c2(1,2) ab] on2 [OF True] by (force simp: off_track_def)
          show ?thesis
          proof (cases "xb = Inr HSHAKE_AGAIN")
            case False
            then have "length j + length (stream sa) \<le> length a2" using r2(3) arg_cong [OF ab, of length] by simp
            then show ?thesis using long lj by simp
          next
            case Bn: True
            then have Bk: "handshake_rounds e2 h2 sid2 ci2 srv2 k sb = (x, t2)" using B(2) by simp
            have on_b: "\<not> off_track sb"
            proof
              assume "off_track sb"
              then obtain o4 where "hs_sent t2 = hs_sent sb @ o4" "length o4 \<le> 4" using off_track_rounds [OF Bk] by blast
              then have "length rest2 \<le> 4" using r2(1) by simp
              then show False using arg_cong [OF ab, of length] long lj by simp
            qed
            have lj2: "length a \<le> length j2" using after_code [OF c1(1,2) ba] on_b by (force simp: off_track_def)
            have ln: "length j = length a2 \<and> length j2 = length a"
            proof -
              have "length a = 4 \<or> d \<noteq> []" "length a2 = 4 \<or> d2 \<noteq> []"
                using arg_cong [OF c1(2), of length] arg_cong [OF c2(2), of length] by auto
              then show ?thesis using c1(3,4) c2(3,4) lj lj2 by auto
            qed
            have w: "stream sa @ y = rest2" "stream sb @ z = rest" using ab ba ln by simp_all
            show ?thesis
              by (rule Suc.IH [OF An Bk]) (use w r1(1) r2(1) in \<open>auto simp: wired_def\<close>)
          qed
        qed
      qed
    qed
  qed
qed

end
