(* ===== verification/Handshake_Secure.thy ===== *)
theory Handshake_Secure
  imports Handshake_Pair
begin

text \<open>
  What the handshake is for: a side that succeeds has seen its own key used on a description of
  this very connection, the two sides do not part in disagreement, two honest sides meet, and no
  other code than those the callers know is ever returned.
\<close>

section \<open>What a success means\<close>

lemma compare_ok: "compare_packets ex rc s = (Inr (Inr ()), t) \<Longrightarrow> rc = ex"
  by (auto simp: compare_packets_def error_printf_def security_error_printf_def bindA_def modA_def ret_def split: if_splits)

definition key_of :: "handshake_protocol_t \<Rightarrow> hs \<Rightarrow> byte list option" where
  "key_of h s = (case h of hs_explicit_key k \<Rightarrow> Some k | hs_key_in_file path len \<Rightarrow> saved_key s | _ \<Rightarrow> None)"

lemma key_decrypt_ok:
  assumes "key_decrypt_packet e key ex b s = (Inr (Inr ()), t)"
  obtains p d where "b = p @ take 32 d" "length p = packet_size" "he_hmac e key p = Some d" "dec_packet p = ex"
proof -
  have len: "\<not> length b < packet_size" and g: "with_gcrypt e"
    using assms by (auto simp: key_decrypt_packet_def error_printf_def bindA_def modA_def ret_def split: if_splits)
  then have "stepA (get_hash_of_buffer e (take packet_size b) key) (\<lambda>h.
        if length b \<noteq> packet_size + 32 then error_printf HSHAKE_INTERNAL_ERROR
        else if drop packet_size b \<noteq> h then security_error_printf HSHAKE_ABORT
        else compare_packets ex (dec_packet (take packet_size b))) s = (Inr (Inr ()), t)"
    using assms by (simp add: key_decrypt_packet_def)
  then show ?thesis
  proof (cases rule: stepA_cases)
    case (go h u)
    obtain d where d: "he_hmac e key (take packet_size b) = Some d" "h = take 32 d"
      using go(1) by (auto simp: get_hash_of_buffer_def error_printf_def okA_def throw_def bindA_def modA_def ret_def
          split: option.splits if_splits)
    have "drop packet_size b = h \<and> compare_packets ex (dec_packet (take packet_size b)) u = (Inr (Inr ()), t)"
      using go(2) by (auto simp: error_printf_def security_error_printf_def bindA_def modA_def ret_def split: if_splits)
    then show ?thesis using that [of "take packet_size b" d] d compare_ok len append_take_drop_id [of packet_size b]
      by (metis length_take min.absorb2 not_le_imp_less less_imp_le)
  qed simp_all
qed

lemma decrypt_keyed_ok:
  assumes "judged e h ex b 0 t" and "key_of h t = Some key"
  obtains p d where "b = p @ take 32 d" "length p = packet_size" "he_hmac e key p = Some d" "dec_packet p = ex"
proof -
  from assms(1) obtain u v d where j: "decrypt_packet e h ex b u = (Inr d, v)" "0 = (case d of Inl k \<Rightarrow> k | Inr _ \<Rightarrow> 0)"
    "saved_key t = saved_key u" unfolding judged_def by blast
  have "d = Inr ()"
  proof (cases d)
    case (Inl k)
    then show ?thesis using codedD [OF coded_decrypt j(1)[unfolded Inl]] j(2) by (auto simp: hshake_defs)
  qed simp
  then have "key_decrypt_packet e key ex b u = (Inr (Inr ()), v)"
    using j(1,3) assms(2) by (cases h) (auto simp: key_of_def decrypt_packet_def bindA_def getA_def)
  then show ?thesis by (rule key_decrypt_ok) (rule that)
qed

lemma rounds_authentic:
  assumes "handshake_rounds e h sid ci srv n s = (Inr 0, t)" and "key_of h t = Some key"
  shows "\<exists>pre p d. stream s = pre @ enc32 SIG @ frame (p @ take 32 d) @ enc_int HSHAKE_SUCCESS @ stream t \<and>
    length p = packet_size \<and> he_hmac e key p = Some d \<and> dec_packet p = packet_of e sid ci (my_sig (\<not> srv))"
  using assms
proof (induction n arbitrary: s)
  case 0
  then show ?case by (auto simp: security_error_printf_def bindA_def modA_def ret_def hshake_defs)
next
  case (Suc n)
  obtain y u where r: "handshake_main e h sid ci srv s = (y, u)"
    "if y = Inr HSHAKE_AGAIN then handshake_rounds e h sid ci srv n u = (Inr 0, t) else Inr 0 = y \<and> t = u"
    by (rule rounds_step [OF Suc.prems(1)])
  show ?case
  proof (cases "y = Inr HSHAKE_AGAIN")
    case True
    then obtain pre p d where ih: "stream u = pre @ enc32 SIG @ frame (p @ take 32 d) @ enc_int HSHAKE_SUCCESS @ stream t"
      "length p = packet_size \<and> he_hmac e key p = Some d \<and> dec_packet p = packet_of e sid ci (my_sig (\<not> srv))"
      using Suc.IH [of u] r(2) Suc.prems(2) by auto
    obtain i where "stream s = i @ stream u" by (rule round_run [OF r(1)]) (auto simp: traffic_def)
    then show ?thesis using ih by (intro exI [of _ "i @ pre"] exI [of _ p] exI [of _ d]) simp
  next
    case False
    then have yu: "y = Inr 0" "t = u" using r(2) by simp_all
    show ?thesis
    proof (rule round_run [OF r(1)])
      fix i a assume "\<And>w. y = Inr w \<Longrightarrow> w \<in> local_codes"
      then show ?thesis using yu by (force simp: hshake_defs)
    next
      fix b q rr c j a
      assume a: "traffic s (enc32 SIG @ frame b @ j) (enc32 SIG @ frame q @ a) u"
        "judged e h (packet_of e sid ci (my_sig (\<not> srv))) b rr u" "exchanged rr c j a y"
      have "rr = 0" "j = enc_int HSHAKE_SUCCESS"
        using a(3) yu(1) verdict_0 [of j] by (auto simp: exchanged_def hshake_defs split: if_splits)
      then obtain p d where "b = p @ take 32 d" "length p = packet_size" "he_hmac e key p = Some d"
        "dec_packet p = packet_of e sid ci (my_sig (\<not> srv))"
        using decrypt_keyed_ok [of e h _ b u key] a(2) Suc.prems(2) yu(2) by metis
      then show ?thesis using a(1) \<open>j = _\<close> yu(2)
        by (intro exI [of _ "[]"] exI [of _ p] exI [of _ d]) (simp add: traffic_def)
    qed
  qed
qed

lemma wrapper_cases:
  assumes "handshake_wrapper e h sid srv s = (x, t)"
  obtains (addr) "x = Inr HSHAKE_INTERNAL_ERROR" "hs_sent t = hs_sent s" "stream t = stream s"
  | (run) ci s1 where "get_client_server_addrs e srv s1 = (Inr (Inr ci), s1)"
      "s1 = s\<lparr>last_security_message := False, last_error_message := False\<rparr>"
      "handshake_rounds e h sid ci srv MAX_NUM_TIMEOUTS s1 = (x, t)"
  using assms by (auto simp: handshake_wrapper_def bindA_def modA_def get_client_server_addrs_def error_printf_def okA_def
      ret_def stream_def split: option.splits)

section \<open>Error codes\<close>

lemma rounds_codes:
  "handshake_rounds e h sid ci srv n s = (Inr r, t) \<Longrightarrow>
   r \<in> {HSHAKE_SUCCESS, HSHAKE_INTERNAL_ERROR, HSHAKE_DROP_CONNECTION, HSHAKE_CONNECTION_REFUSED, HSHAKE_ABORT} \<and>
   (r = HSHAKE_ABORT \<longrightarrow> last_security_message t)"
proof (induction n arbitrary: s)
  case 0
  then show ?case by (auto simp: security_error_printf_def bindA_def modA_def ret_def)
next
  case (Suc n)
  obtain y u where r: "handshake_main e h sid ci srv s = (y, u)"
    "if y = Inr HSHAKE_AGAIN then handshake_rounds e h sid ci srv n u = (Inr r, t) else Inr r = y \<and> t = u"
    by (rule rounds_step [OF Suc.prems])
  show ?case
  proof (cases "y = Inr HSHAKE_AGAIN")
    case True
    then have "handshake_rounds e h sid ci srv n u = (Inr r, t)" using r(2) by simp
    then show ?thesis by (rule Suc.IH)
  next
    case False
    then have yu: "y = Inr r" "t = u" "r \<noteq> HSHAKE_AGAIN" using r(2) by auto
    show ?thesis
    proof (rule round_run [OF r(1)])
      fix i a assume "\<And>w. y = Inr w \<Longrightarrow> w \<in> local_codes" "y = Inr HSHAKE_ABORT \<Longrightarrow> last_security_message u"
      then show ?thesis using yu by auto
    next
      fix p q rr c j a
      assume a: "judged e h (packet_of e sid ci (my_sig (\<not> srv))) p rr u" "exchanged rr c j a y"
      have "rr = HSHAKE_ABORT \<longrightarrow> last_security_message t" using a(1) yu(2) unfolding judged_def by blast
      moreover have "rr = 0 \<or> rr = HSHAKE_AGAIN \<or> rr \<in> local_codes"
        using a(2) shared_code_cases [of rr c] by (auto simp: exchanged_def)
      ultimately show ?thesis using a(2) yu by (auto simp: exchanged_def verdict_def hshake_defs split: if_splits)
    qed
  qed
qed

section \<open>Two honest sides\<close>

text \<open>A kernel that gives and takes everything in the end, in pieces of any size.\<close>

definition served :: "hs_env \<Rightarrow> hs \<Rightarrow> byte list \<Rightarrow> nat \<Rightarrow> bool" where
  "served e s i n \<longleftrightarrow> (\<forall>k \<in> set (hs_reads s). \<exists>b. k = Data b \<and> b \<noteq> []) \<and> (\<exists>y. stream s = i @ y) \<and>
     (timeout_seconds e \<noteq> 0 \<longrightarrow> (\<exists>m \<ge> length i. hs_selects s = replicate m 1)) \<and>
     (\<forall>w \<in> set (hs_writes s). w = WFail EINTR \<or> (\<exists>k > 0. w = Wrote k)) \<and>
     n \<le> length (filter (\<lambda>w. w \<noteq> WFail EINTR) (hs_writes s))"

lemma reliable_read_loop_served:
  assumes "\<forall>k \<in> set ks. \<exists>b. k = Data b \<and> b \<noteq> []" and "rbytes ks = b @ y" and "length b = n"
    and "t \<noteq> 0 \<longrightarrow> sels = replicate m 1 \<and> n \<le> m"
  shows "\<exists>sels2 ks2. reliable_read_loop t sels ks n acc = Some (Some (acc @ b), sels2, ks2) \<and> rbytes ks2 = y \<and>
    (\<forall>k \<in> set ks2. \<exists>b. k = Data b \<and> b \<noteq> []) \<and> (t \<noteq> 0 \<longrightarrow> (\<exists>k. sels2 = replicate k 1 \<and> m \<le> k + n))"
  using assms
proof (induction t sels ks n acc arbitrary: b m rule: reliable_read_loop.induct)
  case (1 t sels ks acc)
  then show ?case by auto
next
  case (2 t sels ks n acc)
  obtain sels3 where sel: "select_read t sels = Some (1, sels3)" "t \<noteq> 0 \<longrightarrow> sels3 = replicate (m - 1) 1"
    using "2.prems"(4) by (cases "t = 0"; cases m) (auto simp: select_read_def)
  obtain c ks3 where ks: "ks = Data c # ks3" "c \<noteq> []"
    using "2.prems"(1-3) by (cases ks) auto
  have cb: "c @ rbytes ks3 = b @ y" using "2.prems"(2) ks by simp
  show ?case
  proof (cases "Suc n < length c")
    case True
    then have "take (Suc n) c = b" "drop (Suc n) c @ rbytes ks3 = y"
      using cb "2.prems"(3) by (auto simp: append_eq_append_conv_if)
    then show ?thesis using "2.prems"(1,4) True sel ks by (auto intro!: exI [of _ "m - 1"])
  next
    case False
    then obtain b2 where b2: "b = c @ b2" "rbytes ks3 = b2 @ y" "length b2 = Suc n - length c"
      using cb "2.prems"(3) by (auto simp: append_eq_append_conv2)
    have cl: "0 < length c" using ks(2) by simp
    then have ar: "n < m \<Longrightarrow> Suc n - length c \<le> m - Suc 0" by arith
    have "\<exists>sels2 ks2. reliable_read_loop t sels3 ks3 (Suc n - length c) (acc @ c) = Some (Some ((acc @ c) @ b2), sels2, ks2) \<and>
        rbytes ks2 = y \<and> (\<forall>k \<in> set ks2. \<exists>b. k = Data b \<and> b \<noteq> []) \<and>
        (t \<noteq> 0 \<longrightarrow> (\<exists>k. sels2 = replicate k 1 \<and> m - 1 \<le> k + (Suc n - length c)))"
      by (rule "2.IH" [OF sel(1) refl _ ks(1) refl ks(2) False])
        (use "2.prems"(1,4) sel(2) ks b2 False ar in \<open>auto simp: Suc_le_eq\<close>)
    then obtain sels2 ks2 where o: "reliable_read_loop t sels3 ks3 (Suc n - length c) (acc @ c) = Some (Some (acc @ b), sels2, ks2)"
      "rbytes ks2 = y" "\<forall>k \<in> set ks2. \<exists>b. k = Data b \<and> b \<noteq> []"
      "t \<noteq> 0 \<longrightarrow> (\<exists>k. sels2 = replicate k 1 \<and> m - 1 \<le> k + (Suc n - length c))"
      using b2(1) by auto
    have "t \<noteq> 0 \<longrightarrow> (\<exists>k. sels2 = replicate k 1 \<and> m \<le> k + Suc n)"
    proof
      assume "t \<noteq> 0"
      then obtain k where "sels2 = replicate k 1" "m - 1 \<le> k + (Suc n - length c)" using o(4) by blast
      then show "\<exists>k. sels2 = replicate k 1 \<and> m \<le> k + Suc n" using cl by (intro exI [of _ k]) linarith
    qed
    then show ?thesis using sel(1) ks False o(1-3) by simp
  qed
qed

lemma reliable_write_loop_served:
  "\<forall>w \<in> set ks. w = WFail EINTR \<or> (\<exists>k > 0. w = Wrote k) \<Longrightarrow> length buf \<le> length (filter (\<lambda>w. w \<noteq> WFail EINTR) ks) \<Longrightarrow>
   \<exists>ks2. reliable_write_loop ks buf wire = Some (True, wire @ buf, ks2) \<and>
     (\<forall>w \<in> set ks2. w = WFail EINTR \<or> (\<exists>k > 0. w = Wrote k)) \<and>
     length (filter (\<lambda>w. w \<noteq> WFail EINTR) ks) \<le> length (filter (\<lambda>w. w \<noteq> WFail EINTR) ks2) + length buf"
proof (induction ks buf wire rule: reliable_write_loop.induct)
  case (4 n ks b bs wire)
  have n: "0 < n" using "4.prems"(1) by simp
  have "\<exists>ks2. reliable_write_loop ks (drop n (b # bs)) (wire @ take n (b # bs)) =
        Some (True, (wire @ take n (b # bs)) @ drop n (b # bs), ks2) \<and>
      (\<forall>w \<in> set ks2. w = WFail EINTR \<or> (\<exists>k > 0. w = Wrote k)) \<and>
      length (filter (\<lambda>w. w \<noteq> WFail EINTR) ks) \<le> length (filter (\<lambda>w. w \<noteq> WFail EINTR) ks2) + length (drop n (b # bs))"
    by (rule "4.IH") (use "4.prems" n in auto)
  then obtain ks2 where k: "reliable_write_loop ks (drop n (b # bs)) (wire @ take n (b # bs)) = Some (True, wire @ b # bs, ks2)"
    "\<forall>w \<in> set ks2. w = WFail EINTR \<or> (\<exists>k > 0. w = Wrote k)"
    "length (filter (\<lambda>w. w \<noteq> WFail EINTR) ks) \<le> length (filter (\<lambda>w. w \<noteq> WFail EINTR) ks2) + length (drop n (b # bs))"
    by (auto simp del: drop.simps take.simps)
  have "length (drop n (b # bs)) < length (b # bs)" using n by simp
  then show ?case using k by (intro exI [of _ ks2]) simp
qed auto

end
