(* ===== verification/Handshake_Meet.thy ===== *)
theory Handshake_Meet
  imports Handshake_Secure
begin

text \<open>
  Two honest sides with the same key: when both are served what the other sends, in pieces of any
  size, both succeed. Instances of the properties of the handshake follow from it.
\<close>

section \<open>A served side\<close>

lemma served_write:
  assumes "served e s i (length buf + n)"
  shows "\<exists>t. reliable_write buf s = (Inr (Inr ()), t) \<and> served e t i n \<and> hs_sent t = hs_sent s @ buf \<and> hs_tick t = hs_tick s"
proof -
  have l: "length buf \<le> length (filter (\<lambda>w. w \<noteq> WFail EINTR) (hs_writes s))" using assms by (simp add: served_def)
  obtain ks where "reliable_write_loop (hs_writes s) buf [] = Some (True, buf, ks)"
    "\<forall>w \<in> set ks. w = WFail EINTR \<or> (\<exists>k > 0. w = Wrote k)"
    "length (filter (\<lambda>w. w \<noteq> WFail EINTR) (hs_writes s)) \<le> length (filter (\<lambda>w. w \<noteq> WFail EINTR) ks) + length buf"
    using reliable_write_loop_served [OF _ l, of "[]"] assms unfolding served_def by auto
  then show ?thesis using assms by (auto simp: reliable_write_def okA_def ret_def served_def stream_def)
qed

lemma served_read:
  assumes "served e s (b @ i) n" and "length b = k"
  shows "\<exists>t. reliable_read e k s = (Inr (Inr b), t) \<and> served e t i n \<and> hs_sent t = hs_sent s \<and> hs_tick t = hs_tick s"
proof -
  obtain y where y: "rbytes (hs_reads s) = b @ (i @ y)" using assms(1) by (auto simp: served_def stream_def)
  obtain m where m: "timeout_seconds e \<noteq> 0 \<longrightarrow> hs_selects s = replicate m 1 \<and> length (b @ i) \<le> m"
    using assms(1) unfolding served_def by blast
  have m2: "timeout_seconds e \<noteq> 0 \<longrightarrow> hs_selects s = replicate m 1 \<and> k \<le> m" using m assms(2) by auto
  have d: "\<forall>x \<in> set (hs_reads s). \<exists>b. x = Data b \<and> b \<noteq> []" using assms(1) by (simp add: served_def)
  obtain sels ks where l: "reliable_read_loop (timeout_seconds e) (hs_selects s) (hs_reads s) k [] = Some (Some b, sels, ks)"
    "rbytes ks = i @ y" "\<forall>x \<in> set ks. \<exists>b. x = Data b \<and> b \<noteq> []"
    "timeout_seconds e \<noteq> 0 \<longrightarrow> (\<exists>j. sels = replicate j 1 \<and> m \<le> j + k)"
    using reliable_read_loop_served [OF d y assms(2) m2, of "[]"] by auto
  have "timeout_seconds e \<noteq> 0 \<longrightarrow> (\<exists>j \<ge> length i. sels = replicate j 1)" using l(4) m assms(2) by fastforce
  then show ?thesis using assms(1) l
    by (auto simp: reliable_read_def read_from_def bindA_def modA_def ret_def served_def stream_def)
qed

lemma served_tick: "served e (s\<lparr>hs_tick := i\<rparr>) x n \<longleftrightarrow> served e s x n"
  by (simp add: served_def stream_def)

lemma dec_enc_packet:
  assumes "length (server_addr_bytes p) = 14" and "length (client_addr_bytes p) = 14"
  shows "dec_packet (enc_packet pad p) = p" "length (enc_packet pad p) = packet_size"
  using assms by (simp_all add: dec_packet_def enc_packet_def packet_size_def)

lemma packet_of_lengths: "length (server_addr_bytes (packet_of e sid ci sig)) = 14" "length (client_addr_bytes (packet_of e sid ci sig)) = 14"
  by (simp_all add: packet_of_def)

text \<open>A packet with its hash, and all that one side sends in a round that goes well.\<close>

definition signed :: "hs_env \<Rightarrow> byte list \<Rightarrow> u32 \<Rightarrow> handshake_packet_t \<Rightarrow> byte list" where
  "signed e key pad p = (let b = enc_packet pad p in b @ (case he_hmac e key b of Some d \<Rightarrow> take 32 d | None \<Rightarrow> []))"

definition transcript :: "hs_env \<Rightarrow> byte list \<Rightarrow> u32 \<Rightarrow> handshake_packet_t \<Rightarrow> byte list" where
  "transcript e key pad p = enc32 SIG @ frame (signed e key pad p) @ enc_int HSHAKE_SUCCESS"

definition digests :: "hs_env \<Rightarrow> byte list \<Rightarrow> bool" where
  "digests e key \<longleftrightarrow> with_gcrypt e \<and> (\<forall>b. \<exists>d. he_hmac e key b = Some d \<and> length d = 32)"

lemma length_signed: "digests e key \<Longrightarrow> length (signed e key pad (packet_of e2 sid ci sig)) = 88"
  unfolding digests_def
  by (elim conjE allE [of _ "enc_packet pad (packet_of e2 sid ci sig)"] exE)
    (simp add: signed_def Let_def dec_enc_packet(2) [OF packet_of_lengths] packet_size_def)

lemma key_encrypt_run:
  assumes "digests e key"
  shows "key_encrypt_packet e key p s = (Inr (Inr (signed e key (he_pad e (hs_tick s)) p)), s\<lparr>hs_tick := Suc (hs_tick s)\<rparr>)"
proof -
  let ?b = "enc_packet (he_pad e (hs_tick s)) p"
  obtain d where "he_hmac e key ?b = Some d" "length d = 32" using assms unfolding digests_def by blast
  then show ?thesis using assms
    by (simp add: digests_def key_encrypt_packet_def tick_def bindA_def stepA_def ret_def Let_def get_hash_of_buffer_def okA_def
        signed_def)
qed

lemma key_decrypt_run:
  assumes "digests e key" and "length (server_addr_bytes p) = 14" and "length (client_addr_bytes p) = 14"
  shows "key_decrypt_packet e key p (signed e key pad p) s = (Inr (Inr ()), s)"
proof -
  let ?b = "enc_packet pad p"
  note l = dec_enc_packet [OF assms(2,3), of pad]
  obtain d where d: "he_hmac e key ?b = Some d" "length d = 32" using assms unfolding digests_def by blast
  then have "signed e key pad p = ?b @ d" by (simp add: signed_def Let_def)
  moreover have "with_gcrypt e" using assms(1) by (simp add: digests_def)
  ultimately show ?thesis using d l
    by (simp add: key_decrypt_packet_def bindA_def stepA_def ret_def get_hash_of_buffer_def okA_def compare_packets_def)
qed

definition conn :: "hs_env \<Rightarrow> bool \<Rightarrow> connection_info_t" where
  "conn e srv = (case (he_peername e, he_sockname e) of
     (Some r, Some l) \<Rightarrow> \<lparr>i_am_server = srv, server_addr = (if srv then l else r), client_addr = (if srv then r else l)\<rparr>
   | _ \<Rightarrow> \<lparr>i_am_server = srv, server_addr = \<lparr>sa_family = 0, sin_port = 0, sin_addr = 0\<rparr>,
       client_addr = \<lparr>sa_family = 0, sin_port = 0, sin_addr = 0\<rparr>\<rparr>)"

definition inet :: "hs_env \<Rightarrow> bool" where
  "inet e \<longleftrightarrow> (\<exists>r l. he_peername e = Some r \<and> he_sockname e = Some l \<and> sa_family r = AF_INET \<and> sa_family l = AF_INET)"

text \<open>What a side says in the round it begins in state \<open>s\<close>.\<close>

definition said :: "hs_env \<Rightarrow> byte list \<Rightarrow> u64 \<Rightarrow> bool \<Rightarrow> hs \<Rightarrow> byte list" where
  "said e key sid srv s = transcript e key (he_pad e (hs_tick s)) (packet_of e sid (conn e srv) (my_sig srv))"

lemma encode_inet:
  assumes "inet e"
  shows "encode_packet e sid (server_addr (conn e srv)) (client_addr (conn e srv)) sig s = (Inr (Inr (packet_of e sid (conn e srv) sig)), s)"
  using assms
  by (auto simp: inet_def conn_def encode_packet_def encode_addr_def stepA_def bindA_def okA_def ret_def packet_of_def MAX_ADDR_LEN_def)

lemma side_meets:
  assumes "digests e key" and "inet e"
    and "served e s (transcript e key pad (packet_of e sid (conn e srv) (my_sig (\<not> srv)))) 100"
  shows "\<exists>t. handshake_main e (hs_explicit_key key) sid (conn e srv) srv s = (Inr 0, t) \<and> hs_sent t = hs_sent s @ said e key sid srv s"
proof -
  let ?mine = "signed e key (he_pad e (hs_tick s)) (packet_of e sid (conn e srv) (my_sig srv))"
  let ?ex = "packet_of e sid (conn e srv) (my_sig (\<not> srv))"
  let ?theirs = "signed e key pad ?ex"
  note len = length_signed [OF assms(1)]
  have f: "frame ?mine = enc32 88 @ ?mine" "frame ?theirs = enc32 88 @ ?theirs" using len by (simp_all add: frame_short)
  have s0: "served e s (enc32 SIG @ enc32 88 @ ?theirs @ enc_int HSHAKE_SUCCESS) (length (enc32 SIG) + 96)"
    using assms(3) by (simp add: transcript_def f(2))
  obtain s1 where s1: "reliable_write (enc32 SIG) s = (Inr (Inr ()), s1)"
    "served e s1 (enc32 SIG @ enc32 88 @ ?theirs @ enc_int HSHAKE_SUCCESS) 96" "hs_sent s1 = hs_sent s @ enc32 SIG" "hs_tick s1 = hs_tick s"
    using served_write [OF s0] by blast
  obtain s2 where s2: "reliable_read e 4 s1 = (Inr (Inr (enc32 SIG)), s2)"
    "served e s2 (enc32 88 @ ?theirs @ enc_int HSHAKE_SUCCESS) 96" "hs_sent s2 = hs_sent s1" "hs_tick s2 = hs_tick s1"
    using served_read [OF s1(2), of 4] by auto
  have ex: "exchange_sig e s = (Inr (Inr ()), s2)"
    by (simp add: exchange_sig_def stepA_run [of "reliable_write (enc32 SIG)" s, OF s1(1)] stepA_run [of "reliable_read e 4" s1, OF s2(1)]
        okA_def ret_def)
  let ?s3 = "s2\<lparr>hs_tick := Suc (hs_tick s2)\<rparr>"
  have enc: "encrypt_packet e (hs_explicit_key key) (packet_of e sid (conn e srv) (my_sig srv)) s2 = (Inr (Inr ?mine), ?s3)"
    by (simp add: encrypt_packet_def key_encrypt_run [OF assms(1)] s1(4) s2(4))
  have w3: "served e ?s3 (enc32 88 @ ?theirs @ enc_int HSHAKE_SUCCESS) (length (enc32 88) + 92)"
    using s2(2) by (simp add: served_tick)
  obtain s4 where s4: "reliable_write (enc32 88) ?s3 = (Inr (Inr ()), s4)"
    "served e s4 (enc32 88 @ ?theirs @ enc_int HSHAKE_SUCCESS) 92" "hs_sent s4 = hs_sent s2 @ enc32 88"
    using served_write [OF w3] by auto
  have w4: "served e s4 (enc32 88 @ ?theirs @ enc_int HSHAKE_SUCCESS) (length ?mine + 4)" using s4(2) len by simp
  obtain s5 where s5: "reliable_write ?mine s4 = (Inr (Inr ()), s5)"
    "served e s5 (enc32 88 @ ?theirs @ enc_int HSHAKE_SUCCESS) 4" "hs_sent s5 = hs_sent s4 @ ?mine"
    using served_write [OF w4] by blast
  have snd: "send_packet ?mine ?s3 = (Inr (Inr ()), s5)"
    using len s5(1) by (simp add: send_packet_def Let_def stepA_run [of "reliable_write (enc32 88)" ?s3, OF s4(1)])
  obtain s6 where s6: "reliable_read e 4 s5 = (Inr (Inr (enc32 88)), s6)" "served e s6 (?theirs @ enc_int HSHAKE_SUCCESS) 4"
    "hs_sent s6 = hs_sent s5"
    using served_read [OF s5(2), of 4] by auto
  obtain s7 where s7: "reliable_read e 88 s6 = (Inr (Inr ?theirs), s7)" "served e s7 (enc_int HSHAKE_SUCCESS) 4" "hs_sent s7 = hs_sent s6"
    using served_read [OF s6(2) len] by blast
  have rcv: "recv_packet e s5 = (Inr (Inr ?theirs), s7)"
    by (simp add: recv_packet_def stepA_run [of "reliable_read e 4" s5, OF s6(1)] s7(1))
  have dec: "decrypt_packet e (hs_explicit_key key) ?ex ?theirs s7 = (Inr (Inr ()), s7)"
    by (simp add: decrypt_packet_def key_decrypt_run [OF assms(1) packet_of_lengths])
  have steps: "handshake_steps e (hs_explicit_key key) sid (conn e srv) srv s = (Inr (Inr ()), s7)"
    by (simp add: handshake_steps_def stepA_def or_done_def bindA_def ret_def ex enc snd rcv dec encode_inet [OF assms(2)])
  have w7: "served e s7 (enc_int HSHAKE_SUCCESS @ []) (length (enc_int HSHAKE_SUCCESS) + 0)" using s7(2) by simp
  obtain s8 where s8: "reliable_write (enc_int HSHAKE_SUCCESS) s7 = (Inr (Inr ()), s8)" "served e s8 (enc_int HSHAKE_SUCCESS @ []) 0"
    "hs_sent s8 = hs_sent s7 @ enc_int HSHAKE_SUCCESS"
    using served_write [OF w7] by blast
  obtain s9 where s9: "reliable_read e 4 s8 = (Inr (Inr (enc_int HSHAKE_SUCCESS)), s9)" "hs_sent s9 = hs_sent s8"
    using served_read [OF s8(2), of 4] by auto
  have "dec_int (enc_int HSHAKE_SUCCESS) = HSHAKE_SUCCESS" by (simp add: dec_int_def enc_int_def hshake_defs)
  then have "share_result e 0 s7 = (Inr 0, s9)"
    by (simp add: share_result_def shared_code_def HSHAKE_SUCCESS_def bindA_def ret_def
        stepA_run [of "reliable_write (enc_int 0)" s7, OF s8(1)[unfolded HSHAKE_SUCCESS_def]] s9(1)[unfolded HSHAKE_SUCCESS_def])
  then have "handshake_main e (hs_explicit_key key) sid (conn e srv) srv s = (Inr 0, s9)"
    by (simp add: handshake_main_def bindA_def steps ret_def)
  moreover have "hs_sent s9 = hs_sent s @ said e key sid srv s"
    by (simp add: s9(2) s8(3) s7(3) s6(3) s5(3) s4(3) s2(3) s1(3) said_def transcript_def f(1))
  ultimately show ?thesis by blast
qed

lemma wrapper_meets:
  assumes "digests e key" and "inet e"
    and "served e s (transcript e key pad (packet_of e sid (conn e srv) (my_sig (\<not> srv)))) 100"
  shows "\<exists>t. handshake_wrapper e (hs_explicit_key key) sid srv s = (Inr 0, t) \<and> hs_sent t = hs_sent s @ said e key sid srv s"
proof -
  let ?s = "s\<lparr>last_security_message := False, last_error_message := False\<rparr>"
  have "served e ?s (transcript e key pad (packet_of e sid (conn e srv) (my_sig (\<not> srv)))) 100"
    using assms(3) by (simp add: served_def stream_def)
  from side_meets [OF assms(1,2) this] obtain t where
    t: "handshake_main e (hs_explicit_key key) sid (conn e srv) srv ?s = (Inr 0, t)" "hs_sent t = hs_sent s @ said e key sid srv s"
    by (auto simp: said_def)
  have "get_client_server_addrs e srv ?s = (Inr (Inr (conn e srv)), ?s)"
    using assms(2) by (auto simp: inet_def get_client_server_addrs_def conn_def okA_def ret_def)
  then have "handshake_wrapper e (hs_explicit_key key) sid srv s = (Inr 0, t)"
    by (simp add: handshake_wrapper_def bindA_def modA_def MAX_NUM_TIMEOUTS_def numeral_eq_Suc t(1) hshake_defs ret_def)
  then show ?thesis using t(2) by blast
qed

section \<open>The two together\<close>

lemma packet_of_other:
  assumes "inet e" and "he_peername e2 = he_sockname e" and "he_sockname e2 = he_peername e" and "he_uid e2 = he_uid e"
    and "he_gid e2 = he_gid e"
  shows "packet_of e2 sid (conn e2 (\<not> srv)) sig = packet_of e sid (conn e srv) sig"
  using assms by (auto simp: inet_def packet_of_def conn_def)

lemma transcript_env: "he_hmac e2 = he_hmac e \<Longrightarrow> transcript e2 key pad p = transcript e key pad p"
  by (simp add: transcript_def signed_def)

lemma both_meet:
  assumes "digests e key" and "he_hmac e2 = he_hmac e" and "with_gcrypt e2" and "inet e"
    and "he_peername e2 = he_sockname e" and "he_sockname e2 = he_peername e" and "he_uid e2 = he_uid e" and "he_gid e2 = he_gid e"
    and "served e s (said e2 key sid False s2) 100" and "served e2 s2 (said e key sid True s) 100"
  shows "\<exists>t t2. handshake_server e (hs_explicit_key key) sid s = (Inr 0, t) \<and> hs_sent t = hs_sent s @ said e key sid True s \<and>
    handshake_client e2 (hs_explicit_key key) sid s2 = (Inr 0, t2) \<and> hs_sent t2 = hs_sent s2 @ said e2 key sid False s2"
proof -
  have d2: "digests e2 key" "inet e2" using assms(1-6) by (auto simp: digests_def inet_def)
  have p: "packet_of e2 sid (conn e2 False) sig = packet_of e sid (conn e True) sig" for sig
    using packet_of_other [OF assms(4-8), of sid True] by simp
  have a: "said e2 key sid False s2 = transcript e key (he_pad e2 (hs_tick s2)) (packet_of e sid (conn e True) (my_sig (\<not> True)))"
    by (simp add: said_def p transcript_env [OF assms(2)])
  have b: "said e key sid True s = transcript e2 key (he_pad e (hs_tick s)) (packet_of e2 sid (conn e2 False) (my_sig (\<not> False)))"
    by (simp add: said_def p transcript_env [OF assms(2)])
  from wrapper_meets [OF assms(1,4) assms(9)[unfolded a]] wrapper_meets [OF d2 assms(10)[unfolded b]]
  show ?thesis unfolding handshake_server_def handshake_client_def by blast
qed

text \<open>C19: (liveness) Two honest sides with the same key, session, user and group, each served in pieces
  of any size what the other sends, both succeed: the server on what the client says and the
  client on what the server says.\<close>

theorem handshake_meets:
  assumes "digests e key" and "he_hmac e2 = he_hmac e" and "with_gcrypt e2" and "inet e"
    and "he_peername e2 = he_sockname e" and "he_sockname e2 = he_peername e" and "he_uid e2 = he_uid e" and "he_gid e2 = he_gid e"
    and "served e s (said e2 key sid False s2) 100" and "served e2 s2 (said e key sid True s) 100"
  shows "\<exists>t t2. handshake_server e (hs_explicit_key key) sid s = (Inr 0, t) \<and> hs_sent t = hs_sent s @ said e key sid True s \<and>
    handshake_client e2 (hs_explicit_key key) sid s2 = (Inr 0, t2) \<and> hs_sent t2 = hs_sent s2 @ said e2 key sid False s2"
  by (rule both_meet [OF assms])

section \<open>Instances\<close>

definition ex_mac :: "byte list \<Rightarrow> byte list \<Rightarrow> byte list" where
  "ex_mac k b = take 32 (map2 (+) (k @ b) (rev b) @ replicate 32 0)"

definition ex_end :: "bool \<Rightarrow> hs_env" where
  "ex_end srv = (let a = \<lparr>sa_family = AF_INET, sin_port = 4711, sin_addr = 0x0100000A\<rparr>;
       b = \<lparr>sa_family = AF_INET, sin_port = 5000, sin_addr = 0x0200000A\<rparr> in
     \<lparr>with_munge = False, with_gcrypt = True, with_null_encryption = False, he_uid = 1000, he_gid = 100,
      he_peername = Some (if srv then b else a), he_sockname = Some (if srv then a else b),
      he_keyfile = (\<lambda>path. if path = ''key'' then Some \<lparr>kf_fstat = True, kf_uid = 1000, kf_gid = 100, kf_mode = 0x180,
          kf_size = 3, kf_reads = [Data [1, 2], Data [3]]\<rparr> else None),
      he_pad = (\<lambda>i. if srv then 7 else 9), he_munge_ctx = (\<lambda>_. False), he_munge_enc = (\<lambda>_ _. None),
      he_munge_dec = (\<lambda>_ _. (EMUNGE_OTHER, [], 0, 0)), he_hmac = (\<lambda>k b. Some (ex_mac k b)), timeout_seconds = 0\<rparr>)"

definition ex_side :: "byte list \<Rightarrow> hs" where
  "ex_side i = \<lparr>hs_reads = [Data (take 5 i), Data (drop 5 i)], hs_selects = [], hs_writes = WFail EINTR # replicate 100 (Wrote 7),
     hs_sent = [], hs_tick = 0, saved_key = None, saved_key_filepath = [], saved_key_len = 0, last_error_message = False,
     last_security_message = False\<rparr>"

definition ex_said :: "bool \<Rightarrow> byte list" where "ex_said srv = said (ex_end srv) [1, 2, 3] 77 srv (ex_side [])"

lemma ex_digests: "digests (ex_end srv) key"
  by (auto simp: digests_def ex_end_def Let_def ex_mac_def min_def)

lemma ex_said_any: "said (ex_end srv) [1, 2, 3] 77 srv (ex_side i) = ex_said srv"
  by (simp add: ex_said_def said_def ex_side_def)

lemma ex_inet: "inet (ex_end srv)" by (simp add: inet_def ex_end_def Let_def)

lemma ex_said_length: "length (ex_said srv) = 100"
  using length_signed [OF ex_digests [of srv "[1, 2, 3]"]] by (simp add: ex_said_def said_def transcript_def frame_short)

lemma ex_served: "served (ex_end srv) (ex_side (ex_said cli)) (ex_said cli) 100"
proof -
  have "take 5 (ex_said cli) \<noteq> []" "drop 5 (ex_said cli) \<noteq> []" using ex_said_length [of cli] by auto
  then show ?thesis by (auto simp: served_def ex_side_def stream_def ex_end_def Let_def)
qed

lemma handshake_meets_witness:
  "\<exists>t t2. handshake_server (ex_end True) (hs_explicit_key [1, 2, 3]) 77 (ex_side (ex_said False)) = (Inr 0, t) \<and>
    handshake_client (ex_end False) (hs_explicit_key [1, 2, 3]) 77 (ex_side (ex_said True)) = (Inr 0, t2)"
  using handshake_meets [of "ex_end True" "[1, 2, 3]" "ex_end False" "ex_side (ex_said False)" 77 "ex_side (ex_said True)",
      OF ex_digests]
  by (simp add: ex_said_any ex_served ex_inet) (fastforce simp: ex_end_def Let_def)

text \<open>The same two runs for the other properties.\<close>

lemma ex_runs:
  obtains t t2 where "handshake_wrapper (ex_end True) (hs_explicit_key [1, 2, 3]) 77 True (ex_side (ex_said False)) = (Inr 0, t)"
    "hs_sent t = ex_said True"
    "handshake_wrapper (ex_end False) (hs_explicit_key [1, 2, 3]) 77 False (ex_side (ex_said True)) = (Inr 0, t2)"
    "hs_sent t2 = ex_said False"
proof -
  have "\<exists>t t2. handshake_server (ex_end True) (hs_explicit_key [1, 2, 3]) 77 (ex_side (ex_said False)) = (Inr 0, t) \<and>
      hs_sent t = hs_sent (ex_side (ex_said False)) @ said (ex_end True) [1, 2, 3] 77 True (ex_side (ex_said False)) \<and>
      handshake_client (ex_end False) (hs_explicit_key [1, 2, 3]) 77 (ex_side (ex_said True)) = (Inr 0, t2) \<and>
      hs_sent t2 = hs_sent (ex_side (ex_said True)) @ said (ex_end False) [1, 2, 3] 77 False (ex_side (ex_said True))"
    by (rule both_meet [OF ex_digests])
      (simp_all add: ex_said_any ex_served ex_inet, simp_all add: ex_end_def Let_def)
  then show ?thesis using that by (auto simp: handshake_server_def handshake_client_def ex_said_any) (auto simp: ex_side_def)
qed

section \<open>The properties\<close>

text \<open>C17: (safety) A side that keys its packets and succeeds, whatever came over the socket, has
  received a packet with its key's hash: the packet is from the other role, not one of its own,
  and names this session, these two addresses and ports and this user and group; and then it
  received the other's word that it was accepted.\<close>

theorem handshake_authentic:
  assumes "handshake_wrapper e h sid srv s = (Inr 0, t)" and "key_of h t = Some key"
  shows "\<exists>ci pre p d. get_client_server_addrs e srv t = (Inr (Inr ci), t) \<and>
    stream s = pre @ enc32 SIG @ frame (p @ take 32 d) @ enc_int HSHAKE_SUCCESS @ stream t \<and>
    he_hmac e key p = Some d \<and> dec_packet p = packet_of e sid ci (my_sig (\<not> srv)) \<and> signature (dec_packet p) \<noteq> my_sig srv"
  using assms(1)
proof (cases rule: wrapper_cases)
  case (run ci s1)
  have "get_client_server_addrs e srv t = (Inr (Inr ci), t)"
    using run(1) by (auto simp: get_client_server_addrs_def okA_def ret_def error_printf_def bindA_def modA_def split: option.splits)
  moreover have "signature (packet_of e sid ci (my_sig (\<not> srv))) \<noteq> my_sig srv"
    by (simp add: packet_of_def my_sig_def SERVER_TO_CLIENT_SIG_def CLIENT_TO_SERVER_SIG_def)
  moreover have "stream s1 = stream s" by (simp add: run(2) stream_def)
  moreover obtain pre p d where "stream s1 = pre @ enc32 SIG @ frame (p @ take 32 d) @ enc_int HSHAKE_SUCCESS @ stream t"
    "he_hmac e key p = Some d" "dec_packet p = packet_of e sid ci (my_sig (\<not> srv))"
    using rounds_authentic [OF run(3) assms(2)] by blast
  ultimately show ?thesis by (intro exI [of _ ci] exI [of _ pre] exI [of _ p] exI [of _ d]) simp
qed (simp add: hshake_defs)

lemma handshake_authentic_witness:
  "\<exists>t. handshake_wrapper (ex_end True) (hs_explicit_key [1, 2, 3]) 77 True (ex_side (ex_said False)) = (Inr 0, t) \<and>
    (\<exists>ci pre p d. stream (ex_side (ex_said False)) = pre @ enc32 SIG @ frame (p @ take 32 d) @ enc_int HSHAKE_SUCCESS @ stream t \<and>
      he_hmac (ex_end True) [1, 2, 3] p = Some d \<and> dec_packet p = packet_of (ex_end True) 77 ci (my_sig (\<not> True)))"
proof -
  obtain t where t: "handshake_wrapper (ex_end True) (hs_explicit_key [1, 2, 3]) 77 True (ex_side (ex_said False)) = (Inr 0, t)"
    by (rule ex_runs)
  then show ?thesis using handshake_authentic [OF t, of "[1, 2, 3]"] by (auto simp: key_of_def)
qed

text \<open>C18: (safety) The two sides of a connection do not part in disagreement, whichever security they
  use and whatever the kernel does to either: when one succeeds, the other has succeeded, or has
  failed to hear the last word, or still waits for it. It has not refused, aborted or given up.\<close>

theorem handshake_agreement:
  assumes "handshake_wrapper e h sid srv s = (Inr 0, t)" and "handshake_wrapper e2 h2 sid2 srv2 s2 = (x, t2)"
    and "wired s2 t2 s" and "wired s t s2"
  shows "x = Inr 0 \<or> x = Inr HSHAKE_INTERNAL_ERROR \<or> x = Inl No_return"
  using assms(2)
proof (cases rule: wrapper_cases)
  case b: (run ci2 s3)
  from assms(1) show ?thesis
  proof (cases rule: wrapper_cases)
    case a: (run ci s1)
    show ?thesis
      by (rule rounds_agree [OF a(3) b(3)]) (use assms(3,4) in \<open>simp_all add: wired_def stream_def a(2) b(2)\<close>)
  qed (simp add: hshake_defs)
qed simp

lemma handshake_agreement_witness:
  "\<exists>t2. handshake_wrapper (ex_end False) (hs_explicit_key [1, 2, 3]) 77 False (ex_side (ex_said True)) = (Inr 0, t2) \<and>
    accepted (Inr 0)"
proof -
  obtain t t2 where t: "handshake_wrapper (ex_end True) (hs_explicit_key [1, 2, 3]) 77 True (ex_side (ex_said False)) = (Inr 0, t)"
    "hs_sent t = ex_said True"
    "handshake_wrapper (ex_end False) (hs_explicit_key [1, 2, 3]) 77 False (ex_side (ex_said True)) = (Inr 0, t2)"
    "hs_sent t2 = ex_said False"
    by (rule ex_runs)
  have w: "wired (ex_side i) t2 (ex_side (ex_said False))" "wired (ex_side i) t (ex_side (ex_said True))" for i
    by (auto simp: wired_def t(2,4)) (auto simp: ex_side_def stream_def)
  show ?thesis using handshake_agreement [OF t(1,3) w] t(3) by blast
qed

text \<open>C30: (error) The handshake returns no code its callers do not know: never the internal request
  to try again. And when it says abort there is a message to log.\<close>

theorem handshake_codes:
  assumes "handshake_wrapper e h sid srv s = (Inr r, t)"
  shows "r \<in> {HSHAKE_SUCCESS, HSHAKE_INTERNAL_ERROR, HSHAKE_DROP_CONNECTION, HSHAKE_CONNECTION_REFUSED, HSHAKE_ABORT} \<and>
    (r = HSHAKE_ABORT \<longrightarrow> handshake_log_sec_error t = (Inr (), t))"
  using assms
proof (cases rule: wrapper_cases)
  case (run ci s1)
  then show ?thesis using rounds_codes [OF run(3)]
    by (auto simp: handshake_log_sec_error_def handshake_last_error_str_def ret_def)
qed (simp add: hshake_defs)

lemma handshake_codes_witness:
  "\<exists>t. handshake_wrapper ((ex_end True)\<lparr>he_peername := None\<rparr>) hs_munge 77 True (ex_side []) = (Inr HSHAKE_INTERNAL_ERROR, t) \<and>
    HSHAKE_INTERNAL_ERROR \<noteq> HSHAKE_AGAIN"
proof -
  obtain t where t: "handshake_wrapper ((ex_end True)\<lparr>he_peername := None\<rparr>) hs_munge 77 True (ex_side []) = (Inr HSHAKE_INTERNAL_ERROR, t)"
    by (simp add: handshake_wrapper_def bindA_def modA_def get_client_server_addrs_def error_printf_def ret_def)
  then show ?thesis using handshake_codes [OF t] by (auto simp: hshake_defs)
qed

text \<open>C31: (safety) A key is only ever taken from a file that is the user's own, in the user's group,
  closed to everybody else and of the length asked for: then it is the file's first bytes. In
  every other case the answer is abort, and no key is left.\<close>

theorem key_from_private_file:
  assumes "\<not> key_in_hand path len s" and "read_key e path len s = (x, t)"
  shows "(x = Inr (Inr ()) \<and> (\<exists>f key rest. he_keyfile e path = Some f \<and> kf_uid f = he_uid e \<and> kf_gid f = he_gid e \<and>
      and (kf_mode f) 0x3F = 0 \<and> int (length key) = len \<and> rbytes (kf_reads f) = key @ rest \<and> saved_key t = Some key)) \<or>
    ((x = Inr (Inl HSHAKE_ABORT) \<or> x = Inl No_return) \<and> saved_key t = None)"
proof -
  let ?s = "s\<lparr>saved_key := None\<rparr>"
  note d = read_key_def bindA_def modA_def getA_def security_error_printf_def okA_def ret_def throw_def
  show ?thesis
  proof (cases "\<exists>f. he_keyfile e path = Some f \<and> kf_fstat f \<and> kf_uid f = he_uid e \<and> kf_gid f = he_gid e \<and>
      and (kf_mode f) 0x3F = 0 \<and> int (kf_size f) = len")
    case False
    then show ?thesis using assms by (auto simp: d split: option.splits if_splits)
  next
    case True
    then obtain f where f: "he_keyfile e path = Some f" "kf_fstat f" "kf_uid f = he_uid e" "kf_gid f = he_gid e"
      "and (kf_mode f) 0x3F = 0" "int (kf_size f) = len" by blast
    show ?thesis
    proof (cases "reliable_read_loop (timeout_seconds e) (hs_selects s) (kf_reads f) (kf_size f) []")
      case None
      then show ?thesis using assms f by (auto simp: d read_from_def)
    next
      case (Some p)
      obtain r sels ks where p: "p = (r, sels, ks)" by (cases p)
      have "b @ rbytes ks = rbytes (kf_reads f) \<Longrightarrow> \<exists>rest. rbytes (kf_reads f) = b @ rest" for b by metis
      then show ?thesis using assms f Some reliable_read_loop_result [OF Some[unfolded p]]
        by (cases r) (auto simp: d p read_from_def)
    qed
  qed
qed

lemma key_from_private_file_witness:
  "\<exists>t. read_key (ex_end True) ''key'' 3 (ex_side []) = (Inr (Inr ()), t) \<and> saved_key t = Some [1, 2, 3]"
proof -
  have k: "\<not> key_in_hand ''key'' 3 (ex_side [])" by (simp add: key_in_hand_def ex_side_def)
  obtain t where t: "read_key (ex_end True) ''key'' 3 (ex_side []) = (Inr (Inr ()), t)"
    using k by (simp add: read_key_def bindA_def getA_def modA_def ex_end_def Let_def read_from_def select_read_def ret_def okA_def
        numeral_eq_Suc)
  obtain key rest where h: "int (length key) = 3" "[1, 2, 3] = key @ rest" "saved_key t = Some key"
    using key_from_private_file [OF k t] by (auto simp: ex_end_def Let_def hshake_defs)
  have "rest = []" using arg_cong [OF h(2), of length] h(1) by simp
  then show ?thesis using t h by simp
qed

end
